(* ===== verification/Prelude.thy ===== *)
theory Prelude
  imports Complex_Main "HOL-Library.Char_ord" "HOL-Library.List_Lexorder"
begin

text \<open>
  Shared vocabulary of the development: the result type of fallible code and its
  sequencing, the relational operators that stand for the SQL statements of the storage
  layer, the Python string helpers the sources use, and generic list lemmas.

  Conventions used throughout:
  \<^item> a Python call that may raise returns \<open>'e + 'a\<close>: \<open>Inl\<close> is the exception, \<open>Inr\<close> the
    value; \<open>bind\<close> is ``the next statement runs only if this one did not raise'' and
    \<open>guard\<close> is \<^verbatim>\<open>if not cond: raise\<close>;
  \<^item> a Python \<^verbatim>\<open>str\<close> is a \<open>string\<close> whose characters are code points below 256;
  \<^item> Python integers are \<open>int\<close>, or \<open>nat\<close> where the code enforces non-negativity;
  \<^item> Python floats are rationals: the sources only compare, negate and divide them, and
    the comparisons made agree with IEEE arithmetic for the sizes that can occur;
  \<^item> an instant of time is an \<open>int\<close> number of microseconds in UTC.
\<close>

declare Let_def [simp]

named_theorems result_simps \<open>rewriting of sequenced fallible computations\<close>
named_theorems sql_simps \<open>rewriting of table operations\<close>

section \<open>Fallible computations\<close>

fun bind :: "'err + 'v \<Rightarrow> ('v \<Rightarrow> 'err + 'w) \<Rightarrow> 'err + 'w" where
  "bind (Inl raised) rest = Inl raised"
| "bind (Inr value) rest = rest value"

definition guard :: "bool \<Rightarrow> 'e \<Rightarrow> 'e + unit" where
  "guard b e = (if b then Inr () else Inl e)"

definition option_or :: "'a option \<Rightarrow> 'e \<Rightarrow> 'e + 'a" where
  "option_or x e = (case x of None \<Rightarrow> Inl e | Some v \<Rightarrow> Inr v)"

fun traverse :: "('a \<Rightarrow> 'e + 'b) \<Rightarrow> 'a list \<Rightarrow> 'e + 'b list" where
  "traverse f [] = Inr []"
| "traverse f (x # xs) = bind (f x) (\<lambda>y. bind (traverse f xs) (\<lambda>ys. Inr (y # ys)))"

fun foldM :: "('s \<Rightarrow> 'a \<Rightarrow> 'e + 's) \<Rightarrow> 's \<Rightarrow> 'a list \<Rightarrow> 'e + 's" where
  "foldM f s [] = Inr s"
| "foldM f s (x # xs) = bind (f s x) (\<lambda>s'. foldM f s' xs)"

lemma bind_eq_Inr [result_simps]:
  "bind m f = Inr y \<longleftrightarrow> (\<exists>x. m = Inr x \<and> f x = Inr y)"
  by (cases m) simp_all

lemma bind_eq_Inl [result_simps]:
  "bind m f = Inl e \<longleftrightarrow> m = Inl e \<or> (\<exists>x. m = Inr x \<and> f x = Inl e)"
  by (cases m) simp_all

lemma bind_assoc: "bind (bind m f) g = bind m (\<lambda>x. bind (f x) g)"
  by (cases m) simp_all

lemma guard_True [simp]: "guard True e = Inr ()"
  by (simp add: guard_def)

lemma guard_False [simp]: "guard False e = Inl e"
  by (simp add: guard_def)

lemma guard_eq_Inr [result_simps]: "guard b e = Inr u \<longleftrightarrow> b"
  by (simp add: guard_def)

lemma guard_eq_Inl [result_simps]: "guard b e = Inl e' \<longleftrightarrow> \<not> b \<and> e' = e"
  by (auto simp: guard_def)

lemma option_or_Some [simp]: "option_or (Some x) e = Inr x"
  by (simp add: option_or_def)

lemma option_or_None [simp]: "option_or None e = Inl e"
  by (simp add: option_or_def)

lemma option_or_eq_Inr [result_simps]: "option_or x e = Inr v \<longleftrightarrow> x = Some v"
  by (cases x) simp_all

lemma option_or_eq_Inl [result_simps]: "option_or x e = Inl e' \<longleftrightarrow> x = None \<and> e' = e"
  by (cases x) auto

lemma recast_eq_Inr [result_simps]:
  "(case m of Inl _ \<Rightarrow> Inl e | Inr d \<Rightarrow> Inr d) = Inr y \<longleftrightarrow> m = Inr y"
  by (cases m) simp_all

lemma traverse_eq_Inr_iff:
  "traverse f xs = Inr ys \<longleftrightarrow> list_all2 (\<lambda>x y. f x = Inr y) xs ys"
  by (induction xs arbitrary: ys)
     (auto simp: bind_eq_Inr list_all2_Cons1 list_all2_Nil)

lemma traverse_total:
  assumes "\<And>x. x \<in> set xs \<Longrightarrow> f x = Inr (g x)"
  shows "traverse f xs = Inr (map g xs)"
  using assms by (induction xs) auto

lemma traverse_length: "traverse f xs = Inr ys \<Longrightarrow> length ys = length xs"
  by (simp add: traverse_eq_Inr_iff list_all2_lengthD)

lemma foldM_append:
  "foldM f s (xs @ ys) = bind (foldM f s xs) (\<lambda>s'. foldM f s' ys)"
  by (induction xs arbitrary: s) (simp_all add: bind_assoc)

lemma foldM_invariant:
  assumes "foldM f s xs = Inr s'" and "P s"
    and "\<And>s x s'. x \<in> set xs \<Longrightarrow> f s x = Inr s' \<Longrightarrow> P s \<Longrightarrow> P s'"
  shows "P s'"
  using assms by (induction xs arbitrary: s) (auto simp: bind_eq_Inr)

section \<open>Tables\<close>

text \<open>
  A table is the list of its rows. A statement \<^verbatim>\<open>UPDATE t SET .. WHERE p\<close> is
  \<open>update_where p f\<close>, its \<^verbatim>\<open>rowcount\<close> is \<open>rowcount p\<close>, \<^verbatim>\<open>DELETE FROM t WHERE p\<close> is
  \<open>delete_where p\<close>, and \<^verbatim>\<open>SELECT .. WHERE p\<close> followed by \<^verbatim>\<open>fetchone()\<close> is \<open>fetchone p\<close>.
\<close>

definition update_where :: "('r \<Rightarrow> bool) \<Rightarrow> ('r \<Rightarrow> 'r) \<Rightarrow> 'r list \<Rightarrow> 'r list" where
  "update_where p f rows = map (\<lambda>r. if p r then f r else r) rows"

definition delete_where :: "('r \<Rightarrow> bool) \<Rightarrow> 'r list \<Rightarrow> 'r list" where
  "delete_where p rows = filter (\<lambda>r. \<not> p r) rows"

definition rowcount :: "('r \<Rightarrow> bool) \<Rightarrow> 'r list \<Rightarrow> nat" where
  "rowcount p rows = length (filter p rows)"

definition fetchone :: "('r \<Rightarrow> bool) \<Rightarrow> 'r list \<Rightarrow> 'r option" where
  "fetchone p rows = find p rows"

lemma fetchone_SomeD: "fetchone p rows = Some r \<Longrightarrow> r \<in> set rows \<and> p r"
  by (auto simp: fetchone_def find_Some_iff)

lemma fetchone_None_iff [sql_simps]: "fetchone p rows = None \<longleftrightarrow> (\<forall>r \<in> set rows. \<not> p r)"
  by (auto simp: fetchone_def find_None_iff)

lemma fetchone_append:
  "fetchone p (xs @ ys) = (case fetchone p xs of None \<Rightarrow> fetchone p ys | Some r \<Rightarrow> Some r)"
  by (induction xs) (auto simp: fetchone_def)

lemma fetchone_single [simp]: "fetchone p [r] = (if p r then Some r else None)"
  by (simp add: fetchone_def)

lemma fetchone_update_where:
  assumes "\<And>r. q r \<Longrightarrow> p (f r) = p r"
  shows "fetchone p (update_where q f rows) =
    map_option (\<lambda>r. if q r then f r else r) (fetchone p rows)"
  using assms by (induction rows) (auto simp: fetchone_def update_where_def)

lemma fetchone_unique:
  assumes "r \<in> set rows" "p r" "\<And>r'. r' \<in> set rows \<Longrightarrow> p r' \<Longrightarrow> r' = r"
  shows "fetchone p rows = Some r"
proof (cases "fetchone p rows")
  case None
  with assms(1,2) show ?thesis by (simp add: fetchone_None_iff)
next
  case (Some r')
  with fetchone_SomeD[OF Some] assms(3)[of r'] show ?thesis by simp
qed

lemma set_update_where [sql_simps]:
  "set (update_where p f rows) = {r \<in> set rows. \<not> p r} \<union> f ` {r \<in> set rows. p r}"
  by (auto simp: update_where_def)

lemma set_delete_where [sql_simps]: "set (delete_where p rows) = {r \<in> set rows. \<not> p r}"
  by (auto simp: delete_where_def)

lemma length_update_where [simp]: "length (update_where p f rows) = length rows"
  by (simp add: update_where_def)

lemma map_update_where_same:
  assumes "\<And>r. p r \<Longrightarrow> g (f r) = g r"
  shows "map g (update_where p f rows) = map g rows"
  using assms by (simp add: update_where_def)

lemma update_where_none:
  assumes "\<And>r. r \<in> set rows \<Longrightarrow> \<not> p r"
  shows "update_where p f rows = rows"
  using assms by (induction rows) (auto simp: update_where_def)

lemma length_filter_update_where:
  assumes "\<And>r. p r \<Longrightarrow> \<not> q (f r)"
  shows "length (filter q (update_where p f rows)) + length (filter (\<lambda>r. p r \<and> q r) rows) =
    length (filter q rows)"
  using assms by (induction rows) (auto simp: update_where_def)

lemma distinct_map_inj:
  assumes "distinct (map k rows)" "r \<in> set rows" "r' \<in> set rows" "k r = k r'"
  shows "r = r'"
  using assms by (induction rows) (auto simp: image_iff)

lemma fetchone_key:
  assumes "distinct (map k rows)" "r \<in> set rows"
  shows "fetchone (\<lambda>r'. k r' = k r) rows = Some r"
  by (rule fetchone_unique) (use assms distinct_map_inj in auto)

lemma filter_unique:
  assumes "distinct rows" "r \<in> set rows" "p r"
    and "\<forall>r' \<in> set rows. p r' \<longrightarrow> r' = r"
  shows "filter p rows = [r]"
  using assms
proof (induction rows)
  case Nil
  then show ?case by simp
next
  case (Cons x xs)
  show ?case
  proof (cases "x = r")
    case True
    with Cons.prems(1) have "r \<notin> set xs" by simp
    with Cons.prems(4) have "filter p xs = []"
      unfolding filter_empty_conv by (metis list.set_intros(2))
    with True Cons.prems(3) show ?thesis by simp
  next
    case False
    with Cons.prems(4) have "\<not> p x" by (metis list.set_intros(1))
    moreover from Cons.prems(1,2) False have "distinct xs" "r \<in> set xs" by simp_all
    moreover from Cons.prems(4) have "\<forall>r' \<in> set xs. p r' \<longrightarrow> r' = r"
      by (metis list.set_intros(2))
    ultimately have "filter p xs = [r]" "\<not> p x"
      using Cons.IH Cons.prems(3) by blast+
    then show ?thesis by simp
  qed
qed

lemma rowcount_unique:
  assumes "distinct (map k rows)" "r \<in> set rows" "p r"
    and "\<forall>r' \<in> set rows. p r' \<longrightarrow> k r' = k r"
  shows "rowcount p rows = 1"
proof -
  from assms(1) have "distinct rows" by (simp add: distinct_map)
  moreover have "\<forall>r' \<in> set rows. p r' \<longrightarrow> r' = r"
    using distinct_map_inj[OF assms(1) _ assms(2)] assms(4) by blast
  ultimately have "filter p rows = [r]"
    using assms(2,3) by (intro filter_unique)
  then show ?thesis by (simp add: rowcount_def)
qed

lemma rowcount_pos_iff: "0 < rowcount p rows \<longleftrightarrow> (\<exists>r \<in> set rows. p r)"
  by (auto simp: rowcount_def filter_empty_conv)

section \<open>Python strings\<close>

definition py_isspace :: "char \<Rightarrow> bool" where
  "py_isspace c = (let n = (of_char c :: nat) in
     9 \<le> n \<and> n \<le> 13 \<or> 28 \<le> n \<and> n \<le> 32 \<or> n = 133 \<or> n = 160)"

definition strip_by :: "('a \<Rightarrow> bool) \<Rightarrow> 'a list \<Rightarrow> 'a list" where
  "strip_by p s = rev (dropWhile p (rev (dropWhile p s)))"

definition py_strip :: "string \<Rightarrow> string" where
  "py_strip = strip_by py_isspace"

text \<open>
  The schema's \<^verbatim>\<open>length(trim(x)) > 0\<close>: SQLite's \<^verbatim>\<open>trim\<close> removes spaces only, and its
  \<^verbatim>\<open>length\<close> counts the characters before the first NUL.
\<close>

definition sql_nonblank :: "string \<Rightarrow> bool" where
  "sql_nonblank s =
     (takeWhile (\<lambda>c. (of_char c :: nat) \<noteq> 0) (strip_by (\<lambda>c. (of_char c :: nat) = 32) s) \<noteq> [])"

text \<open>The number of bytes of the UTF-8 encoding.\<close>

definition utf8_length :: "string \<Rightarrow> nat" where
  "utf8_length s = sum_list (map (\<lambda>c. if (of_char c :: nat) < 128 then 1 else 2) s)"

fun join :: "'a list \<Rightarrow> 'a list list \<Rightarrow> 'a list" where
  "join sep [] = []"
| "join sep [x] = x"
| "join sep (x # y # ys) = x @ sep @ join sep (y # ys)"

lemma strip_by_eq_Nil_iff: "strip_by p s = [] \<longleftrightarrow> (\<forall>c \<in> set s. p c)"
proof -
  have "strip_by p s = [] \<longleftrightarrow> (\<forall>c \<in> set (dropWhile p s). p c)"
    by (auto simp: strip_by_def dropWhile_eq_Nil_conv)
  also have "\<dots> \<longleftrightarrow> (\<forall>c \<in> set s. p c)"
    by (metis dropWhile_eq_Nil_conv hd_dropWhile hd_in_set
        set_dropWhileD)
  finally show ?thesis .
qed

lemma py_strip_nonempty: "py_strip s \<noteq> [] \<Longrightarrow> s \<noteq> []"
  by (auto simp: py_strip_def strip_by_def)

section \<open>Lists\<close>

text \<open>Python's \<^verbatim>\<open>tuple(range(a, b))\<close> on integers.\<close>

abbreviation range_list :: "int \<Rightarrow> int \<Rightarrow> int list" where
  "range_list a b \<equiv> upto a (b - 1)"

lemma length_range_list: "length (upto a b) = nat (b - a + 1)"
  by simp

lemma upto_snoc: "a \<le> b + 1 \<Longrightarrow> upto a b @ [b + 1] = upto a (b + 1)"
  using upto_rec2[of a "b + 1"] by simp

text \<open>
  \<open>grows R xs ys\<close>: the table \<open>ys\<close> holds, in the same order, a successor under \<open>R\<close> of every
  row of \<open>xs\<close>, followed by new rows. With equality for \<open>R\<close> the table is append-only.
\<close>

definition grows :: "('a \<Rightarrow> 'a \<Rightarrow> bool) \<Rightarrow> 'a list \<Rightarrow> 'a list \<Rightarrow> bool" where
  "grows R xs ys \<longleftrightarrow> (\<exists>zs ws. ys = zs @ ws \<and> list_all2 R xs zs)"

lemma grows_refl: "(\<And>x. x \<in> set xs \<Longrightarrow> R x x) \<Longrightarrow> grows R xs xs"
  unfolding grows_def by (intro exI[of _ xs] exI[of _ "[]"]) (simp add: list_all2_same)

lemma grows_append: "(\<And>x. x \<in> set xs \<Longrightarrow> R x x) \<Longrightarrow> grows R xs (xs @ ys)"
  unfolding grows_def by (intro exI[of _ xs] exI[of _ ys]) (simp add: list_all2_same)

lemma grows_trans:
  assumes "grows R xs ys" "grows R ys zs" "\<And>x y z. R x y \<Longrightarrow> R y z \<Longrightarrow> R x z"
  shows "grows R xs zs"
proof -
  from assms(1) obtain as bs where 1: "ys = as @ bs" "list_all2 R xs as" by (auto simp: grows_def)
  from assms(2) 1(1) obtain cs ds where 2: "zs = cs @ ds" "list_all2 R (as @ bs) cs"
    by (auto simp: grows_def)
  from 2(2) obtain cs1 cs2 where 3: "cs = cs1 @ cs2" "list_all2 R as cs1"
    by (auto simp: list_all2_append1)
  from list_all2_trans[OF assms(3) 1(2) 3(2)] 2(1) 3(1) show ?thesis
    unfolding grows_def by auto
qed

lemma grows_update_where:
  assumes "\<And>r. r \<in> set rows \<Longrightarrow> p r \<Longrightarrow> R r (f r)" "\<And>r. R r r"
  shows "grows R rows (update_where p f rows)"
  unfolding grows_def update_where_def using assms
  by (intro exI[of _ "map (\<lambda>r. if p r then f r else r) rows"] exI[of _ "[]"])
     (auto simp: list_all2_conv_all_nth)

lemma growsD:
  assumes "grows R xs ys" "x \<in> set xs"
  shows "\<exists>y \<in> set ys. R x y"
  using assms by (fastforce simp: grows_def list_all2_conv_all_nth in_set_conv_nth nth_append)

lemma grows_eq_iff: "grows (=) xs ys \<longleftrightarrow> (\<exists>ws. ys = xs @ ws)"
  by (auto simp: grows_def list.rel_eq)

lemma filter_nth_conv: "map (nth xs) (filter (\<lambda>i. p (xs ! i)) [0 ..< length xs]) = filter p xs"
  by (metis (no_types, lifting) filter_map map_nth o_apply filter_cong)

end
