(* ===== verification/Json_Text.thy ===== *)
theory Json_Text
  imports Prelude
begin

text \<open>
  The part of Python's \<^verbatim>\<open>json.dumps(.., ensure_ascii=False, separators=(",", ":"))\<close> that the
  sources rely on for canonical text: string literals with their escapes, and decimal
  integers. The main fact is that an encoded string literal is self-delimiting, so a text
  built from literals and fixed punctuation determines the values it was built from.
\<close>

definition hex_digit :: "nat \<Rightarrow> char" where
  "hex_digit n = char_of (if n < 10 then 48 + n else 87 + n)"

definition short_escape :: "nat \<Rightarrow> char option" where
  "short_escape n =
     (if n = 34 then Some (CHR 0x22)
      else if n = 92 then Some (CHR 0x5C)
      else if n = 8 then Some (CHR ''b'')
      else if n = 9 then Some (CHR ''t'')
      else if n = 10 then Some (CHR ''n'')
      else if n = 12 then Some (CHR ''f'')
      else if n = 13 then Some (CHR ''r'')
      else None)"

definition json_escape :: "char \<Rightarrow> string" where
  "json_escape c = (let n = of_char c in
     case short_escape n of
       Some e \<Rightarrow> [CHR 0x5C, e]
     | None \<Rightarrow>
         if n < 32 then CHR 0x5C # ''u00'' @ [hex_digit (n div 16), hex_digit (n mod 16)]
         else [c])"

definition json_string :: "string \<Rightarrow> string" where
  "json_string s = CHR 0x22 # concat (map json_escape s) @ [CHR 0x22]"

text \<open>Python's \<^verbatim>\<open>str\<close> of an integer.\<close>

fun show_nat :: "nat \<Rightarrow> string" where
  "show_nat n = (if n < 10 then [char_of (48 + n)]
                 else show_nat (n div 10) @ [char_of (48 + n mod 10)])"

declare show_nat.simps [simp del]

definition show_int :: "int \<Rightarrow> string" where
  "show_int i = (if i < 0 then CHR ''-'' # show_nat (nat (- i)) else show_nat (nat i))"

definition json_optional_string :: "string option \<Rightarrow> string" where
  "json_optional_string x = (case x of None \<Rightarrow> ''null'' | Some s \<Rightarrow> json_string s)"

lemma char_neq_iff: "c \<noteq> d \<longleftrightarrow> (of_char c :: nat) \<noteq> of_char d"
  by (metis char_of_char)

lemma hex_digit_inj:
  assumes "m < 16" "n < 16" "hex_digit m = hex_digit n"
  shows "m = n"
proof -
  from assms(3) have "(of_char (hex_digit m) :: nat) = of_char (hex_digit n)" by simp
  then show ?thesis using assms(1,2)
    by (auto simp: hex_digit_def of_char_of split: if_splits)
qed

lemma short_escape_not_u: "short_escape n \<noteq> Some (CHR ''u'')"
  by (simp add: short_escape_def)

lemma short_escape_inj: "short_escape m = Some e \<Longrightarrow> short_escape n = Some e \<Longrightarrow> m = n"
  by (auto simp: short_escape_def split: if_splits)

lemma short_escape_None: "short_escape n = None \<Longrightarrow> n \<noteq> 34 \<and> n \<noteq> 92"
  by (auto simp: short_escape_def split: if_splits)

text \<open>An escape never starts with the closing quote.\<close>

lemma json_escape_hd: "\<exists>d ds. json_escape c = d # ds \<and> d \<noteq> CHR 0x22"
proof (cases "short_escape (of_char c)")
  case (Some e)
  then show ?thesis by (simp add: json_escape_def)
next
  case None
  then have "of_char c \<noteq> (34 :: nat)" using short_escape_None by blast
  then have "c \<noteq> CHR 0x22" by (auto simp: of_char_def)
  with None show ?thesis by (simp add: json_escape_def Let_def)
qed

text \<open>The escapes form a prefix code.\<close>

lemma json_escape_prefix_code:
  assumes "json_escape c @ x = json_escape d @ y"
  shows "c = d \<and> x = y"
proof -
  let ?m = "of_char c :: nat" and ?n = "of_char d :: nat"
  have plain: "c' \<noteq> CHR 0x5C" if "short_escape (of_char c') = None" for c'
    using short_escape_None[OF that] by (auto simp: of_char_def)
  have low: "?m = ?n"
    if "?m < 32" "?n < 32" "hex_digit (?m div 16) = hex_digit (?n div 16)"
      "hex_digit (?m mod 16) = hex_digit (?n mod 16)"
  proof -
    from that have "?m div 16 = ?n div 16" "?m mod 16 = ?n mod 16"
      by (auto intro!: hex_digit_inj)
    then show ?thesis by (metis div_mult_mod_eq)
  qed
  show ?thesis
  proof (cases "short_escape ?m"; cases "short_escape ?n")
    fix e e' assume "short_escape ?m = Some e" "short_escape ?n = Some e'"
    with assms short_escape_inj[of ?m e ?n] show ?thesis
      using char_neq_iff[of c d] by (auto simp: json_escape_def)
  next
    fix e assume "short_escape ?m = Some e" "short_escape ?n = None"
    with assms plain[of d] short_escape_not_u[of ?m] show ?thesis
      by (auto simp: json_escape_def Let_def split: if_splits)
  next
    fix e assume "short_escape ?m = None" "short_escape ?n = Some e"
    with assms plain[of c] short_escape_not_u[of ?n] show ?thesis
      by (auto simp: json_escape_def Let_def split: if_splits)
  next
    assume "short_escape ?m = None" "short_escape ?n = None"
    with assms plain[of c] plain[of d] low show ?thesis
      by (auto simp: json_escape_def Let_def split: if_splits)
  qed
qed

lemma json_body_self_delimiting:
  "concat (map json_escape s) @ CHR 0x22 # x = concat (map json_escape t) @ CHR 0x22 # y
   \<Longrightarrow> s = t \<and> x = y"
proof (induction s arbitrary: t)
  case Nil
  show ?case
  proof (cases t)
    case Nil
    with Nil.prems show ?thesis by simp
  next
    case (Cons d ds)
    with Nil json_escape_hd[of d] show ?thesis by auto
  qed
next
  case (Cons c cs)
  show ?case
  proof (cases t)
    case Nil
    with Cons.prems json_escape_hd[of c] show ?thesis by auto
  next
    case t: (Cons d ds)
    with Cons.prems have
      "json_escape c @ (concat (map json_escape cs) @ CHR 0x22 # x)
       = json_escape d @ (concat (map json_escape ds) @ CHR 0x22 # y)"
      by simp
    from json_escape_prefix_code[OF this] Cons.IH[of ds] t show ?thesis by simp
  qed
qed

lemma json_string_self_delimiting:
  "json_string s @ x = json_string t @ y \<Longrightarrow> s = t \<and> x = y"
  using json_body_self_delimiting[of s x t y] by (simp add: json_string_def)

lemma json_optional_string_self_delimiting:
  assumes "json_optional_string s @ x = json_optional_string t @ y"
  shows "s = t \<and> x = y"
proof (cases s; cases t)
  fix a b assume "s = Some a" "t = Some b"
  with assms json_string_self_delimiting[of a x b y] show ?thesis
    by (simp add: json_optional_string_def)
next
  fix a assume "s = None" "t = Some a"
  with assms show ?thesis by (simp add: json_optional_string_def json_string_def)
next
  fix a assume "s = Some a" "t = None"
  with assms show ?thesis by (simp add: json_optional_string_def json_string_def)
next
  assume "s = None" "t = None"
  with assms show ?thesis by simp
qed

lemma json_optional_string_inj: "json_optional_string s = json_optional_string t \<Longrightarrow> s = t"
  using json_optional_string_self_delimiting[of s "[]" t "[]"] by simp

end
