(* ===== verification/Domain.thy ===== *)
theory Domain
  imports Json_Text
begin

text \<open>
  The closed wire envelopes of \<^verbatim>\<open>astrcontinuum/domain\<close>: the seven-field session identity,
  journal events, capsules and their items, snapshots and compaction jobs. Each envelope is
  a record with the source's fields and a boolean validator \<open>valid_\<dots>\<close> with the field
  constraints and model validators pydantic runs when the envelope is constructed.
\<close>

section \<open>Session identity (\<^verbatim>\<open>domain/identity.py\<close>)\<close>

record session_key =
  platform_instance_id :: string
  message_type :: string
  session_id :: string
  group_id :: "string option"
  user_id :: string
  conversation_id :: string
  persona_id :: "string option"

definition nonempty_optional :: "string option \<Rightarrow> bool" where
  "nonempty_optional x = (case x of None \<Rightarrow> True | Some s \<Rightarrow> s \<noteq> [])"

definition valid_session_key :: "session_key \<Rightarrow> bool" where
  "valid_session_key k \<longleftrightarrow>
     platform_instance_id k \<noteq> [] \<and> message_type k \<noteq> [] \<and> session_id k \<noteq> [] \<and>
     nonempty_optional (group_id k) \<and> user_id k \<noteq> [] \<and> conversation_id k \<noteq> [] \<and>
     nonempty_optional (persona_id k)"

definition canonical_json :: "session_key \<Rightarrow> string" where
  "canonical_json k =
     CHR 0x7B # json_string ''platform_instance_id'' @ '':'' @
       json_string (platform_instance_id k) @ '','' @
     json_string ''message_type'' @ '':'' @ json_string (message_type k) @ '','' @
     json_string ''session_id'' @ '':'' @ json_string (session_id k) @ '','' @
     json_string ''group_id'' @ '':'' @ json_optional_string (group_id k) @ '','' @
     json_string ''user_id'' @ '':'' @ json_string (user_id k) @ '','' @
     json_string ''conversation_id'' @ '':'' @ json_string (conversation_id k) @ '','' @
     json_string ''persona_id'' @ '':'' @ json_optional_string (persona_id k) @ [CHR 0x7D]"

text \<open>
  \<^verbatim>\<open>session_key_hash\<close> is the hex digest of the canonical text. The digest function is an
  argument everywhere: no theorem below assumes that it is free of collisions.
\<close>

definition session_key_hash :: "(string \<Rightarrow> string) \<Rightarrow> session_key \<Rightarrow> string" where
  "session_key_hash sha256 k = sha256 (canonical_json k)"

lemma canonical_json_inj:
  assumes "canonical_json j = canonical_json k"
  shows "j = k"
proof -
  have "platform_instance_id j = platform_instance_id k \<and> message_type j = message_type k \<and>
    session_id j = session_id k \<and> group_id j = group_id k \<and> user_id j = user_id k \<and>
    conversation_id j = conversation_id k \<and> persona_id j = persona_id k"
    using assms unfolding canonical_json_def
    by (auto dest!: json_string_self_delimiting json_optional_string_self_delimiting
        json_optional_string_inj)
  then show ?thesis by simp
qed

section \<open>Events (\<^verbatim>\<open>domain/events.py\<close>)\<close>

datatype event_type = USER_MESSAGE | ASSISTANT_MESSAGE | TOOL_CALL | TOOL_RESULT

datatype event_role = USER | ASSISTANT | TOOL

datatype source_hook = ON_LLM_REQUEST | ON_AGENT_DONE | ON_USING_LLM_TOOL | ON_LLM_TOOL_RESPOND

record event_envelope =
  ev_id :: string
  ev_session_key :: session_key
  ev_sequence :: int
  ev_type :: event_type
  ev_role :: event_role
  ev_content :: string
  ev_source_hook :: source_hook
  ev_idempotency_key :: string
  ev_token_count :: int
  ev_created_at :: int

fun event_mapping :: "event_type \<Rightarrow> event_role \<times> source_hook" where
  "event_mapping USER_MESSAGE = (USER, ON_LLM_REQUEST)"
| "event_mapping ASSISTANT_MESSAGE = (ASSISTANT, ON_AGENT_DONE)"
| "event_mapping TOOL_CALL = (TOOL, ON_USING_LLM_TOOL)"
| "event_mapping TOOL_RESULT = (TOOL, ON_LLM_TOOL_RESPOND)"

definition valid_event :: "event_envelope \<Rightarrow> bool" where
  "valid_event e \<longleftrightarrow>
     ev_id e \<noteq> [] \<and> valid_session_key (ev_session_key e) \<and> ev_sequence e \<ge> 1 \<and>
     ev_idempotency_key e \<noteq> [] \<and> ev_token_count e \<ge> 0 \<and>
     (ev_role e, ev_source_hook e) = event_mapping (ev_type e)"

text \<open>\<^verbatim>\<open>EventEnvelope.create\<close>; \<open>None\<close> is pydantic's \<^verbatim>\<open>ValidationError\<close>.\<close>

definition create_event ::
  "string \<Rightarrow> session_key \<Rightarrow> int \<Rightarrow> event_type \<Rightarrow> string \<Rightarrow> string \<Rightarrow> int \<Rightarrow> int
   \<Rightarrow> event_envelope option" where
  "create_event event_id skey sequence etype content idempotency_key token_count created_at =
     (let (role, hook) = event_mapping etype;
          e = \<lparr>ev_id = event_id, ev_session_key = skey, ev_sequence = sequence,
               ev_type = etype, ev_role = role, ev_content = content, ev_source_hook = hook,
               ev_idempotency_key = idempotency_key, ev_token_count = token_count,
               ev_created_at = created_at\<rparr>
      in if valid_event e then Some e else None)"

section \<open>Capsules (\<^verbatim>\<open>domain/capsules.py\<close>)\<close>

datatype capsule_level = MICRO | EPISODE | TASK | GLOBAL

datatype semantic_status = ACTIVE | SUPERSEDED_ITEM | RETRACTED | UNCERTAIN

datatype anchor_status = ANCHOR_ACTIVE | ANCHOR_SUPERSEDED | ANCHOR_RETRACTED

datatype anchor_type =
  NAME | NUMBER | DATE | PATH | URL | CODE | FORMULA | PROMPT | CONSTRAINT | COMMITMENT
| MANUAL | OTHER

record capsule_claim =
  claim_id :: string
  claim_text :: string
  claim_status :: semantic_status
  claim_confidence :: rat
  claim_sources :: "string list"

record decision =
  decision_id :: string
  decision_text :: string
  decision_status :: semantic_status
  decision_confidence :: rat
  decision_sources :: "string list"
  decision_rationale :: string
  decision_alternatives :: "string list"
  decision_supersedes :: "string list"
  decision_rejected_because :: string

record entity =
  entity_id :: string
  entity_kind :: string
  entity_name :: string
  entity_aliases :: "string list"
  entity_sources :: "string list"

record capsule_anchor =
  anchor_id :: string
  anchor_kind :: anchor_type
  anchor_text :: string
  anchor_sources :: "string list"
  anchor_state :: anchor_status
  anchor_importance :: rat

record dependency =
  dependency_id :: string
  dependency_kind :: string
  dependency_target :: string
  dependency_sources :: "string list"

record capsule_quality =
  q_mechanical_passed :: bool
  q_source_coverage :: rat
  q_anchor_recall :: rat
  q_unsupported_critical_claims :: int
  q_coverage_gap :: int

record capsule =
  cap_id :: string
  cap_schema_version :: string
  cap_level :: capsule_level
  cap_session_key :: session_key
  cap_covered_event_start :: int
  cap_covered_event_end :: int
  cap_sources :: "string list"
  cap_goals :: "capsule_claim list"
  cap_constraints :: "capsule_claim list"
  cap_decisions :: "decision list"
  cap_progress :: "capsule_claim list"
  cap_open_loops :: "capsule_claim list"
  cap_preferences :: "capsule_claim list"
  cap_entities :: "entity list"
  cap_emotional_context :: "capsule_claim list"
  cap_exact_anchors :: "capsule_anchor list"
  cap_dependencies :: "dependency list"
  cap_narrative_summary :: string
  cap_token_cost :: int
  cap_quality :: capsule_quality
  cap_created_at :: int

definition unit_float :: "rat \<Rightarrow> bool" where
  "unit_float x \<longleftrightarrow> 0 \<le> x \<and> x \<le> 1"

text \<open>\<^verbatim>\<open>source_event_ids\<close>: at least one, none empty, no repetition.\<close>

definition valid_sources :: "string list \<Rightarrow> bool" where
  "valid_sources ids \<longleftrightarrow> ids \<noteq> [] \<and> (\<forall>i \<in> set ids. i \<noteq> []) \<and> distinct ids"

definition valid_claim :: "capsule_claim \<Rightarrow> bool" where
  "valid_claim c \<longleftrightarrow> claim_id c \<noteq> [] \<and> claim_text c \<noteq> [] \<and> unit_float (claim_confidence c) \<and>
     valid_sources (claim_sources c)"

definition valid_decision :: "decision \<Rightarrow> bool" where
  "valid_decision d \<longleftrightarrow> decision_id d \<noteq> [] \<and> decision_text d \<noteq> [] \<and>
     unit_float (decision_confidence d) \<and> valid_sources (decision_sources d) \<and>
     distinct (decision_alternatives d) \<and> distinct (decision_supersedes d)"

definition valid_entity :: "entity \<Rightarrow> bool" where
  "valid_entity e \<longleftrightarrow> entity_id e \<noteq> [] \<and> entity_kind e \<noteq> [] \<and> entity_name e \<noteq> [] \<and>
     distinct (entity_aliases e) \<and> valid_sources (entity_sources e)"

definition valid_anchor :: "capsule_anchor \<Rightarrow> bool" where
  "valid_anchor a \<longleftrightarrow> anchor_id a \<noteq> [] \<and> anchor_text a \<noteq> [] \<and> valid_sources (anchor_sources a) \<and>
     unit_float (anchor_importance a)"

definition valid_dependency :: "dependency \<Rightarrow> bool" where
  "valid_dependency d \<longleftrightarrow> dependency_id d \<noteq> [] \<and> dependency_kind d \<noteq> [] \<and>
     dependency_target d \<noteq> [] \<and> valid_sources (dependency_sources d)"

definition valid_quality :: "capsule_quality \<Rightarrow> bool" where
  "valid_quality q \<longleftrightarrow> unit_float (q_source_coverage q) \<and> unit_float (q_anchor_recall q) \<and>
     q_unsupported_critical_claims q \<ge> 0 \<and> q_coverage_gap q \<ge> 0"

definition valid_capsule :: "capsule \<Rightarrow> bool" where
  "valid_capsule c \<longleftrightarrow>
     cap_id c \<noteq> [] \<and> cap_schema_version c \<noteq> [] \<and> valid_session_key (cap_session_key c) \<and>
     cap_covered_event_start c \<ge> 1 \<and> cap_covered_event_end c \<ge> 1 \<and>
     valid_sources (cap_sources c) \<and>
     list_all valid_claim (cap_goals c) \<and> distinct (cap_goals c) \<and>
     list_all valid_claim (cap_constraints c) \<and> distinct (cap_constraints c) \<and>
     list_all valid_decision (cap_decisions c) \<and> distinct (cap_decisions c) \<and>
     list_all valid_claim (cap_progress c) \<and> distinct (cap_progress c) \<and>
     list_all valid_claim (cap_open_loops c) \<and> distinct (cap_open_loops c) \<and>
     list_all valid_claim (cap_preferences c) \<and> distinct (cap_preferences c) \<and>
     list_all valid_entity (cap_entities c) \<and> distinct (cap_entities c) \<and>
     list_all valid_claim (cap_emotional_context c) \<and> distinct (cap_emotional_context c) \<and>
     list_all valid_anchor (cap_exact_anchors c) \<and> distinct (cap_exact_anchors c) \<and>
     list_all valid_dependency (cap_dependencies c) \<and> distinct (cap_dependencies c) \<and>
     cap_narrative_summary c \<noteq> [] \<and> cap_token_cost c \<ge> 0 \<and> valid_quality (cap_quality c) \<and>
     cap_covered_event_start c \<le> cap_covered_event_end c"

section \<open>Snapshots (\<^verbatim>\<open>domain/snapshots.py\<close>)\<close>

datatype semantic_audit_status = NOT_RUN | AUDIT_PASSED | AUDIT_FAILED

datatype snapshot_state = CANDIDATE | SNAPSHOT_COMMITTED

record audit_outcome =
  ao_mechanical_passed :: bool
  ao_semantic_status :: semantic_audit_status
  ao_failure_codes :: "string list"

record snapshot =
  snap_id :: string
  snap_session_key :: session_key
  snap_base_snapshot_id :: "string option"
  snap_covered_event_end :: int
  snap_source_high_water_mark :: int
  snap_capsule_ids :: "string list"
  snap_exact_anchor_ids :: "string list"
  snap_rendered_context :: string
  snap_token_cost :: int
  snap_audit_outcome :: audit_outcome
  snap_state :: snapshot_state
  snap_created_at :: int
  snap_committed_at :: "int option"

definition valid_audit_outcome :: "audit_outcome \<Rightarrow> bool" where
  "valid_audit_outcome a \<longleftrightarrow>
     (\<forall>c \<in> set (ao_failure_codes a). c \<noteq> []) \<and> distinct (ao_failure_codes a)"

definition valid_snapshot :: "snapshot \<Rightarrow> bool" where
  "valid_snapshot s \<longleftrightarrow>
     snap_id s \<noteq> [] \<and> valid_session_key (snap_session_key s) \<and>
     nonempty_optional (snap_base_snapshot_id s) \<and>
     snap_covered_event_end s \<ge> 1 \<and> snap_source_high_water_mark s \<ge> 1 \<and>
     snap_capsule_ids s \<noteq> [] \<and> (\<forall>i \<in> set (snap_capsule_ids s). i \<noteq> []) \<and>
     distinct (snap_capsule_ids s) \<and>
     (\<forall>i \<in> set (snap_exact_anchor_ids s). i \<noteq> []) \<and> distinct (snap_exact_anchor_ids s) \<and>
     snap_rendered_context s \<noteq> [] \<and> snap_token_cost s \<ge> 0 \<and>
     valid_audit_outcome (snap_audit_outcome s) \<and>
     (if snap_state s = SNAPSHOT_COMMITTED
      then snap_committed_at s \<noteq> None \<and>
           ao_mechanical_passed (snap_audit_outcome s) \<and>
           ao_semantic_status (snap_audit_outcome s) \<noteq> AUDIT_FAILED \<and>
           ao_failure_codes (snap_audit_outcome s) = []
      else snap_committed_at s = None)"

section \<open>Compaction jobs (\<^verbatim>\<open>domain/jobs.py\<close>)\<close>

datatype job_state =
  PENDING | LEASED | COMPILING | AUDITING | READY_TO_COMMIT | RETRY_WAIT
| COMMITTED | SUPERSEDED | FAILED | CANCELLED

definition WORKING_STATES :: "job_state list" where
  "WORKING_STATES = [LEASED, COMPILING, AUDITING, READY_TO_COMMIT]"

definition CANDIDATE_STATES :: "job_state list" where
  "CANDIDATE_STATES = [READY_TO_COMMIT, COMMITTED, SUPERSEDED]"

record job =
  job_id :: string
  job_session_key :: session_key
  job_state :: job_state
  job_target_hwm :: int
  job_intent_target_hwm :: int
  job_base_snapshot_id :: "string option"
  job_base_pointer_version :: int
  job_candidate_snapshot_id :: "string option"
  job_attempt_count :: int
  job_lease_owner :: "string option"
  job_lease_epoch :: int
  job_lease_expires_at :: "int option"
  job_next_retry_at :: "int option"
  job_error_stage :: "string option"
  job_error_code :: "string option"
  job_error_message :: "string option"
  job_created_at :: int
  job_updated_at :: int
  job_committed_at :: "int option"

definition valid_job :: "job \<Rightarrow> bool" where
  "valid_job j \<longleftrightarrow>
     job_id j \<noteq> [] \<and> valid_session_key (job_session_key j) \<and>
     job_target_hwm j \<ge> 1 \<and> job_intent_target_hwm j \<ge> 1 \<and>
     nonempty_optional (job_base_snapshot_id j) \<and> job_base_pointer_version j \<ge> 0 \<and>
     nonempty_optional (job_candidate_snapshot_id j) \<and> job_attempt_count j \<ge> 0 \<and>
     nonempty_optional (job_lease_owner j) \<and> job_lease_epoch j \<ge> 0 \<and>
     nonempty_optional (job_error_stage j) \<and> nonempty_optional (job_error_code j) \<and>
     nonempty_optional (job_error_message j) \<and>
     (job_error_stage j = None \<longleftrightarrow> job_error_code j = None) \<and>
     (job_error_code j = None \<longleftrightarrow> job_error_message j = None) \<and>
     (if job_base_snapshot_id j = None then job_base_pointer_version j = 0
      else job_base_pointer_version j \<ge> 1) \<and>
     (if job_state j \<in> set WORKING_STATES
      then job_lease_owner j \<noteq> None \<and> job_lease_epoch j \<ge> 1 \<and> job_lease_expires_at j \<noteq> None
      else job_lease_owner j = None \<and> job_lease_expires_at j = None) \<and>
     (job_candidate_snapshot_id j \<noteq> None \<longleftrightarrow> job_state j \<in> set CANDIDATE_STATES) \<and>
     (job_state j \<in> {RETRY_WAIT, FAILED} \<longrightarrow> job_error_stage j \<noteq> None) \<and>
     (job_next_retry_at j \<noteq> None \<longleftrightarrow> job_state j = RETRY_WAIT) \<and>
     (job_committed_at j \<noteq> None \<longleftrightarrow> job_state j = COMMITTED)"

end
