(* ===== verification/Validation.thy ===== *)
theory Validation
  imports Domain
begin

text \<open>
  The permanent mechanical publication gate, \<^verbatim>\<open>domain/validation.py\<close>: a pure function from
  the frozen base, the candidate and the journal events it claims to cover to a report.
  A report that passed carries the guarantees a committed snapshot rests on: exact coverage
  of the journal interval, ordered capsule membership, supported provenance, and retention
  of every earlier active anchor and semantic item.
\<close>

section \<open>Report\<close>

datatype permanent_failure_code =
  EMPTY_COMPILER_OUTPUT | SESSION_KEY_MISMATCH | BASE_SNAPSHOT_MISMATCH | TARGET_MISMATCH
| COVERAGE_GAP | CAPSULE_MEMBERSHIP_MISMATCH | SNAPSHOT_ANCHOR_MISMATCH
| INVALID_CAPSULE_COVERAGE | UNSUPPORTED_ACTIVE_SEMANTIC | MISSING_PRIOR_SEMANTIC
| MISSING_REQUIRED_ANCHOR | MECHANICAL_NOT_PASSED | SOURCE_COVERAGE_NOT_FULL
| ANCHOR_RECALL_NOT_FULL | UNSUPPORTED_CRITICAL_CLAIMS | QUALITY_COVERAGE_GAP
| TOKEN_CEILING_EXCEEDED

text \<open>Iteration order of the \<^verbatim>\<open>Enum\<close>: declaration order.\<close>

definition all_failure_codes :: "permanent_failure_code list" where
  "all_failure_codes =
    [EMPTY_COMPILER_OUTPUT, SESSION_KEY_MISMATCH, BASE_SNAPSHOT_MISMATCH, TARGET_MISMATCH,
     COVERAGE_GAP, CAPSULE_MEMBERSHIP_MISMATCH, SNAPSHOT_ANCHOR_MISMATCH,
     INVALID_CAPSULE_COVERAGE, UNSUPPORTED_ACTIVE_SEMANTIC, MISSING_PRIOR_SEMANTIC,
     MISSING_REQUIRED_ANCHOR, MECHANICAL_NOT_PASSED, SOURCE_COVERAGE_NOT_FULL,
     ANCHOR_RECALL_NOT_FULL, UNSUPPORTED_CRITICAL_CLAIMS, QUALITY_COVERAGE_GAP,
     TOKEN_CEILING_EXCEEDED]"

lemma all_failure_codes_complete [simp]: "set all_failure_codes = UNIV"
proof -
  have "c \<in> set all_failure_codes" for c
    by (cases c) (simp_all add: all_failure_codes_def)
  then show ?thesis by auto
qed

record report =
  rep_passed :: bool
  rep_failure_codes :: "permanent_failure_code list"
  rep_source_coverage :: rat
  rep_anchor_recall :: rat
  rep_coverage_gap :: int
  rep_unsupported_critical_claims :: int

section \<open>Semantic records and anchors\<close>

record semantic_record =
  sr_id :: string
  sr_sources :: "string list"
  sr_status :: semantic_status
  sr_transition :: bool

definition claim_record :: "capsule_claim \<Rightarrow> semantic_record" where
  "claim_record c = \<lparr>sr_id = claim_id c, sr_sources = claim_sources c,
     sr_status = claim_status c, sr_transition = True\<rparr>"

definition capsule_semantic_records :: "capsule \<Rightarrow> semantic_record list" where
  "capsule_semantic_records c =
     map claim_record
       (cap_goals c @ cap_constraints c @ cap_progress c @ cap_open_loops c @
        cap_preferences c @ cap_emotional_context c) @
     map (\<lambda>d. \<lparr>sr_id = decision_id d, sr_sources = decision_sources d,
       sr_status = decision_status d, sr_transition = True\<rparr>) (cap_decisions c) @
     map (\<lambda>e. \<lparr>sr_id = entity_id e, sr_sources = entity_sources e,
       sr_status = ACTIVE, sr_transition = False\<rparr>) (cap_entities c) @
     map (\<lambda>d. \<lparr>sr_id = dependency_id d, sr_sources = dependency_sources d,
       sr_status = ACTIVE, sr_transition = False\<rparr>) (cap_dependencies c)"

definition semantic_records :: "capsule list \<Rightarrow> semantic_record list" where
  "semantic_records cs = concat (map capsule_semantic_records cs)"

definition active_anchors :: "capsule list \<Rightarrow> capsule_anchor list" where
  "active_anchors cs =
     concat (map (\<lambda>c. filter (\<lambda>a. anchor_state a = ANCHOR_ACTIVE) (cap_exact_anchors c)) cs)"

section \<open>The validator\<close>

text \<open>
  The inputs of \<^verbatim>\<open>validate_permanent\<close> bundled in one record, and each intermediate value of
  the function as a definition over that record, in the order the function computes them.
\<close>

record gate_input =
  g_previous_snapshot :: "snapshot option"
  g_previous_capsules :: "capsule list"
  g_snapshot :: snapshot
  g_capsules :: "capsule list"
  g_events :: "event_envelope list"
  g_target :: int
  g_token_ceiling :: int

definition g_base_coverage :: "gate_input \<Rightarrow> int" where
  "g_base_coverage g =
     (case g_previous_snapshot g of None \<Rightarrow> 0 | Some s \<Rightarrow> snap_covered_event_end s)"

definition g_expected_sequences :: "gate_input \<Rightarrow> int list" where
  "g_expected_sequences g = range_list (g_base_coverage g + 1) (g_target g + 1)"

definition g_coverage_gap :: "gate_input \<Rightarrow> bool" where
  "g_coverage_gap g \<longleftrightarrow>
     g_target g \<le> g_base_coverage g \<or>
     map ev_sequence (g_events g) \<noteq> g_expected_sequences g \<or>
     \<not> distinct (map ev_id (g_events g))"

definition g_session_mismatch :: "gate_input \<Rightarrow> bool" where
  "g_session_mismatch g \<longleftrightarrow>
     (let k = snap_session_key (g_snapshot g) in
       (\<exists>c \<in> set (g_capsules g). cap_session_key c \<noteq> k) \<or>
       (\<exists>e \<in> set (g_events g). ev_session_key e \<noteq> k) \<or>
       (case g_previous_snapshot g of None \<Rightarrow> False | Some s \<Rightarrow> snap_session_key s \<noteq> k) \<or>
       (\<exists>c \<in> set (g_previous_capsules g). cap_session_key c \<noteq> k))"

definition g_invalid_capsule_coverage :: "gate_input \<Rightarrow> bool" where
  "g_invalid_capsule_coverage g \<longleftrightarrow>
     (\<exists>c \<in> set (g_capsules g).
        cap_covered_event_end c > g_target g \<or>
        cap_covered_event_start c > cap_covered_event_end c)"

definition g_current_ids :: "gate_input \<Rightarrow> string list" where
  "g_current_ids g = map ev_id (g_events g)"

definition g_valid_ids :: "gate_input \<Rightarrow> string list" where
  "g_valid_ids g = concat (map cap_sources (g_previous_capsules g)) @ g_current_ids g"

definition active_semantics :: "capsule list \<Rightarrow> semantic_record list" where
  "active_semantics cs = filter (\<lambda>r. sr_status r = ACTIVE) (semantic_records cs)"

definition g_transition_records :: "gate_input \<Rightarrow> semantic_record list" where
  "g_transition_records g =
     (let ids = map sr_id (filter sr_transition (active_semantics (g_previous_capsules g)))
      in filter (\<lambda>r. sr_transition r \<and> sr_id r \<in> set ids \<and>
                     (sr_status r = SUPERSEDED_ITEM \<or> sr_status r = RETRACTED))
           (semantic_records (g_capsules g)))"

definition g_provenance :: "gate_input \<Rightarrow> (string \<times> string list) list" where
  "g_provenance g =
     map (\<lambda>r. (sr_id r, sr_sources r))
       (active_semantics (g_capsules g) @ g_transition_records g) @
     map (\<lambda>a. (anchor_id a, anchor_sources a)) (active_anchors (g_capsules g))"

definition g_unsupported :: "gate_input \<Rightarrow> string list" where
  "g_unsupported g =
     (let ids = g_valid_ids g in
      map fst (filter (\<lambda>(i, srcs). srcs = [] \<or> (\<exists>s \<in> set srcs. s \<notin> set ids))
        (g_provenance g)))"

definition g_capsule_source_mismatch :: "gate_input \<Rightarrow> bool" where
  "g_capsule_source_mismatch g \<longleftrightarrow>
     (let ids = g_valid_ids g in
      \<exists>c \<in> set (g_capsules g). \<exists>s \<in> set (cap_sources c). s \<notin> set ids)"

definition g_approved_transition_ids :: "gate_input \<Rightarrow> string list" where
  "g_approved_transition_ids g =
     (let ids = g_valid_ids g; cur = g_current_ids g in
      map sr_id (filter (\<lambda>r. (\<forall>s \<in> set (sr_sources r). s \<in> set ids) \<and>
                             (\<exists>s \<in> set (sr_sources r). s \<in> set cur))
        (g_transition_records g)))"

definition g_missing_prior_semantic :: "gate_input \<Rightarrow> bool" where
  "g_missing_prior_semantic g \<longleftrightarrow>
     \<not> (\<forall>i \<in> set (map sr_id (active_semantics (g_previous_capsules g))).
          i \<in> set (map sr_id (active_semantics (g_capsules g))) \<or>
          i \<in> set (g_approved_transition_ids g))"

definition g_preserved_anchor_count :: "gate_input \<Rightarrow> nat" where
  "g_preserved_anchor_count g =
     length (filter (\<lambda>p. \<exists>c \<in> set (active_anchors (g_capsules g)). c = p)
       (active_anchors (g_previous_capsules g)))"

definition g_computed_anchor_recall :: "gate_input \<Rightarrow> rat" where
  "g_computed_anchor_recall g =
     (let prev = active_anchors (g_previous_capsules g) in
      if prev = [] then 1
      else of_nat (g_preserved_anchor_count g) / of_nat (length prev))"

definition g_computed_source_coverage :: "gate_input \<Rightarrow> rat" where
  "g_computed_source_coverage g =
     (let n = length (g_provenance g) in
      if n = 0 then 1 else (of_nat n - of_nat (length (g_unsupported g))) / of_nat n)"

text \<open>\<^verbatim>\<open>min(.., default=0.0)\<close>\<close>

definition min_default :: "rat list \<Rightarrow> rat" where
  "min_default xs = (if xs = [] then 0 else foldr min (tl xs) (hd xs))"

definition g_source_coverage :: "gate_input \<Rightarrow> rat" where
  "g_source_coverage g = min (g_computed_source_coverage g)
     (min_default (map (q_source_coverage \<circ> cap_quality) (g_capsules g)))"

definition g_anchor_recall :: "gate_input \<Rightarrow> rat" where
  "g_anchor_recall g = min (g_computed_anchor_recall g)
     (min_default (map (q_anchor_recall \<circ> cap_quality) (g_capsules g)))"

definition g_declared_coverage_gap :: "gate_input \<Rightarrow> int" where
  "g_declared_coverage_gap g = sum_list (map (q_coverage_gap \<circ> cap_quality) (g_capsules g))"

definition g_unsupported_count :: "gate_input \<Rightarrow> int" where
  "g_unsupported_count g = max (int (length (g_unsupported g)))
     (sum_list (map (q_unsupported_critical_claims \<circ> cap_quality) (g_capsules g)))"

definition g_missing_sequences :: "gate_input \<Rightarrow> int list" where
  "g_missing_sequences g =
     filter (\<lambda>n. n \<notin> set (map ev_sequence (g_events g))) (g_expected_sequences g)"

definition failure_holds :: "gate_input \<Rightarrow> permanent_failure_code \<Rightarrow> bool" where
  "failure_holds g code = (case code of
     EMPTY_COMPILER_OUTPUT \<Rightarrow> g_capsules g = []
   | SESSION_KEY_MISMATCH \<Rightarrow> g_session_mismatch g
   | BASE_SNAPSHOT_MISMATCH \<Rightarrow>
       snap_base_snapshot_id (g_snapshot g) \<noteq> map_option snap_id (g_previous_snapshot g)
   | TARGET_MISMATCH \<Rightarrow>
       snap_covered_event_end (g_snapshot g) \<noteq> g_target g \<or>
       snap_source_high_water_mark (g_snapshot g) \<noteq> g_target g
   | COVERAGE_GAP \<Rightarrow> g_coverage_gap g
   | CAPSULE_MEMBERSHIP_MISMATCH \<Rightarrow>
       snap_capsule_ids (g_snapshot g) \<noteq> map cap_id (g_capsules g)
   | SNAPSHOT_ANCHOR_MISMATCH \<Rightarrow>
       snap_exact_anchor_ids (g_snapshot g) \<noteq> map anchor_id (active_anchors (g_capsules g))
   | INVALID_CAPSULE_COVERAGE \<Rightarrow> g_invalid_capsule_coverage g
   | UNSUPPORTED_ACTIVE_SEMANTIC \<Rightarrow> g_unsupported g \<noteq> [] \<or> g_capsule_source_mismatch g
   | MISSING_PRIOR_SEMANTIC \<Rightarrow> g_missing_prior_semantic g
   | MISSING_REQUIRED_ANCHOR \<Rightarrow> g_computed_anchor_recall g < 1
   | MECHANICAL_NOT_PASSED \<Rightarrow>
       \<not> ao_mechanical_passed (snap_audit_outcome (g_snapshot g)) \<or>
       (\<exists>c \<in> set (g_capsules g). \<not> q_mechanical_passed (cap_quality c))
   | SOURCE_COVERAGE_NOT_FULL \<Rightarrow> g_source_coverage g < 1
   | ANCHOR_RECALL_NOT_FULL \<Rightarrow> g_anchor_recall g < 1
   | UNSUPPORTED_CRITICAL_CLAIMS \<Rightarrow> g_unsupported_count g \<noteq> 0
   | QUALITY_COVERAGE_GAP \<Rightarrow> g_declared_coverage_gap g \<noteq> 0
   | TOKEN_CEILING_EXCEEDED \<Rightarrow>
       g_token_ceiling g < 0 \<or> snap_token_cost (g_snapshot g) > g_token_ceiling g \<or>
       sum_list (map cap_token_cost (g_capsules g)) > g_token_ceiling g)"

definition validate_permanent :: "gate_input \<Rightarrow> report" where
  "validate_permanent g =
     (let ordered_failures = filter (failure_holds g) all_failure_codes in
      \<lparr>rep_passed = (ordered_failures = []),
       rep_failure_codes = ordered_failures,
       rep_source_coverage = g_source_coverage g,
       rep_anchor_recall = g_anchor_recall g,
       rep_coverage_gap = max (int (length (g_missing_sequences g))) (g_declared_coverage_gap g),
       rep_unsupported_critical_claims = g_unsupported_count g\<rparr>)"

section \<open>Consequences\<close>

lemma rep_passed_iff: "rep_passed (validate_permanent g) \<longleftrightarrow> (\<forall>c. \<not> failure_holds g c)"
  by (auto simp: validate_permanent_def filter_empty_conv)

lemma rep_failure_codes_iff:
  "c \<in> set (rep_failure_codes (validate_permanent g)) \<longleftrightarrow> failure_holds g c"
  by (simp add: validate_permanent_def)

lemma passedD: "rep_passed (validate_permanent g) \<Longrightarrow> \<not> failure_holds g c"
  by (simp add: rep_passed_iff)

text \<open>What each absent failure code says, in the form the storage proofs use it.\<close>

lemma passed_coverage:
  assumes "rep_passed (validate_permanent g)"
  shows "g_base_coverage g < g_target g"
    and "map ev_sequence (g_events g) = upto (g_base_coverage g + 1) (g_target g)"
    and "distinct (map ev_id (g_events g))"
    and "snap_covered_event_end (g_snapshot g) = g_target g"
    and "snap_source_high_water_mark (g_snapshot g) = g_target g"
  using passedD[OF assms, of COVERAGE_GAP] passedD[OF assms, of TARGET_MISMATCH]
  by (simp_all add: failure_holds_def g_coverage_gap_def g_expected_sequences_def)

lemma passed_membership:
  assumes "rep_passed (validate_permanent g)"
  shows "g_capsules g \<noteq> []"
    and "snap_capsule_ids (g_snapshot g) = map cap_id (g_capsules g)"
    and "snap_exact_anchor_ids (g_snapshot g) = map anchor_id (active_anchors (g_capsules g))"
    and "snap_base_snapshot_id (g_snapshot g) = map_option snap_id (g_previous_snapshot g)"
  using passedD[OF assms, of EMPTY_COMPILER_OUTPUT]
    passedD[OF assms, of CAPSULE_MEMBERSHIP_MISMATCH]
    passedD[OF assms, of SNAPSHOT_ANCHOR_MISMATCH]
    passedD[OF assms, of BASE_SNAPSHOT_MISMATCH]
  by (simp_all add: failure_holds_def)

lemma passed_session:
  assumes "rep_passed (validate_permanent g)"
  shows "c \<in> set (g_capsules g) \<Longrightarrow> cap_session_key c = snap_session_key (g_snapshot g)"
    and "e \<in> set (g_events g) \<Longrightarrow> ev_session_key e = snap_session_key (g_snapshot g)"
  using passedD[OF assms, of SESSION_KEY_MISMATCH]
  by (auto simp: failure_holds_def g_session_mismatch_def)

lemma passed_mechanical:
  assumes "rep_passed (validate_permanent g)"
  shows "ao_mechanical_passed (snap_audit_outcome (g_snapshot g))"
  using passedD[OF assms, of MECHANICAL_NOT_PASSED] by (simp add: failure_holds_def)

lemma length_filter_full: "length (filter p xs) = length xs \<longleftrightarrow> (\<forall>x \<in> set xs. p x)"
  by (metis filter_True filter_id_conv length_filter_less less_irrefl)

lemma passed_anchors_retained:
  assumes "rep_passed (validate_permanent g)" "a \<in> set (active_anchors (g_previous_capsules g))"
  shows "a \<in> set (active_anchors (g_capsules g))"
proof -
  let ?prev = "active_anchors (g_previous_capsules g)"
  from assms(2) have ne: "?prev \<noteq> []" by auto
  then have pos: "0 < length ?prev" by simp
  from passedD[OF assms(1), of MISSING_REQUIRED_ANCHOR] ne
  have "(1::rat) \<le> of_nat (g_preserved_anchor_count g) / of_nat (length ?prev)"
    by (simp add: failure_holds_def g_computed_anchor_recall_def not_less)
  with pos have "length ?prev \<le> g_preserved_anchor_count g"
    by (simp add: le_divide_eq)
  then have "length (filter (\<lambda>p. \<exists>c \<in> set (active_anchors (g_capsules g)). c = p) ?prev)
      = length ?prev"
    using length_filter_le[of _ ?prev] by (simp add: g_preserved_anchor_count_def le_antisym)
  with assms(2) show ?thesis by (auto simp: length_filter_full)
qed

lemma passed_semantics_retained:
  assumes "rep_passed (validate_permanent g)"
    and "r \<in> set (active_semantics (g_previous_capsules g))"
  shows "sr_id r \<in> set (map sr_id (active_semantics (g_capsules g))) \<or>
    (\<exists>t \<in> set (g_transition_records g). sr_id t = sr_id r \<and>
       (\<exists>s \<in> set (sr_sources t). s \<in> set (g_current_ids g)))"
  using passedD[OF assms(1), of MISSING_PRIOR_SEMANTIC] assms(2)
  by (auto simp: failure_holds_def g_missing_prior_semantic_def g_approved_transition_ids_def
      Let_def)

lemma passed_provenance:
  assumes "rep_passed (validate_permanent g)" "(i, srcs) \<in> set (g_provenance g)"
  shows "srcs \<noteq> [] \<and> set srcs \<subseteq> set (g_valid_ids g)"
  using passedD[OF assms(1), of UNSUPPORTED_ACTIVE_SEMANTIC] assms(2)
  by (fastforce simp: failure_holds_def g_unsupported_def Let_def filter_empty_conv)

end
