(* ===== verification/Schema.thy ===== *)
theory Schema
  imports Validation
begin

text \<open>
  The durable database: the rows of the ten tables the repository works on, the
  constraints of \<^verbatim>\<open>storage/migrations.py\<close> and \<^verbatim>\<open>storage/security.py\<close> as they are enforced on
  each insert and update, and the transaction boundary of \<^verbatim>\<open>storage/sqlite.py\<close>.

  Protected columns hold symbolic ciphertexts \<open>Sealed key table column record plain\<close>: the
  authenticated envelope \<^verbatim>\<open>SecureCodec\<close> produces binds the plaintext to the key and to the
  (table, column, record key) it is stored under, and opening it anywhere else fails. The
  JSON text of a capsule, of an audit outcome, of anchor ids or of a session identity is
  represented by the value it denotes. The size limits of the codec are kept for text and
  record keys.
\<close>

section \<open>Environment and errors\<close>

record env =
  env_sha256 :: "string \<Rightarrow> string"
  env_key_id :: string
  env_max_plaintext :: nat
  env_fault :: "string \<Rightarrow> bool"

datatype security_error = STORAGE_KEY_MISMATCH | STORAGE_ENVELOPE_INVALID | STORAGE_AUTHENTICATION_FAILED

datatype repo_error =
  SessionIdentityConflict
| IdempotencyConflict
| EventIdentityConflict
| RepositoryConflict
| RepositoryInvariantError
| JobTransitionError
| StaleLeaseError
| PublicationRejected report
| TokenMetricConflict
| StorageSecurityError security_error
| IntegrityError
| ValueError
| TypeError
| InjectedFault string

definition inject :: "env \<Rightarrow> string \<Rightarrow> repo_error + unit" where
  "inject env boundary = guard (\<not> env_fault env boundary) (InjectedFault boundary)"

lemma inject_eq_Inr [result_simps]: "inject env b = Inr u \<longleftrightarrow> \<not> env_fault env b"
  by (simp add: inject_def guard_eq_Inr)

text \<open>
  A timestamp argument: a Python \<^verbatim>\<open>datetime\<close>, aware or naive. Normalising an aware one gives
  the fixed-width UTC text whose textual order is the order of instants; the instant stands
  for the text.
\<close>

datatype datetime = Aware int | Naive int

definition normalize_datetime :: "datetime \<Rightarrow> repo_error + int" where
  "normalize_datetime d = (case d of Aware t \<Rightarrow> Inr t | Naive t \<Rightarrow> Inl ValueError)"

lemma normalize_datetime_eq_Inr [result_simps]:
  "normalize_datetime d = Inr t \<longleftrightarrow> d = Aware t"
  by (auto simp: normalize_datetime_def split: datetime.splits)

section \<open>Sealed columns (\<^verbatim>\<open>storage/crypto.py\<close>)\<close>

datatype 'a sealed =
  Sealed (sealed_key: string) (sealed_table: string) (sealed_column: string)
         (sealed_record: string) (sealed_plain: 'a)

definition aad_field_ok :: "string \<Rightarrow> bool" where
  "aad_field_ok s \<longleftrightarrow> s \<noteq> [] \<and> length s \<le> 4096 \<and> utf8_length s \<le> 65535"

definition seal :: "env \<Rightarrow> string \<Rightarrow> string \<Rightarrow> string \<Rightarrow> 'a \<Rightarrow> repo_error + 'a sealed" where
  "seal env table column record_key plain =
     bind (guard (aad_field_ok table \<and> aad_field_ok column \<and> aad_field_ok record_key)
             (StorageSecurityError STORAGE_ENVELOPE_INVALID)) (\<lambda>_.
     Inr (Sealed (env_key_id env) table column record_key plain))"

definition encrypt_text ::
  "env \<Rightarrow> string \<Rightarrow> string \<Rightarrow> string \<Rightarrow> string \<Rightarrow> repo_error + string sealed" where
  "encrypt_text env table column record_key plain =
     bind (guard (utf8_length plain \<le> env_max_plaintext env)
             (StorageSecurityError STORAGE_ENVELOPE_INVALID)) (\<lambda>_.
     seal env table column record_key plain)"

definition encrypt_non_negative_int ::
  "env \<Rightarrow> string \<Rightarrow> string \<Rightarrow> string \<Rightarrow> int \<Rightarrow> repo_error + int sealed" where
  "encrypt_non_negative_int env table column record_key value =
     bind (guard (value \<ge> 0) (StorageSecurityError STORAGE_ENVELOPE_INVALID)) (\<lambda>_.
     seal env table column record_key value)"

definition unseal ::
  "env \<Rightarrow> string \<Rightarrow> string \<Rightarrow> string \<Rightarrow> 'a sealed \<Rightarrow> repo_error + 'a" where
  "unseal env table column record_key c =
     bind (guard (sealed_key c = env_key_id env)
             (StorageSecurityError STORAGE_KEY_MISMATCH)) (\<lambda>_.
     bind (guard (sealed_table c = table \<and> sealed_column c = column \<and> sealed_record c = record_key)
             (StorageSecurityError STORAGE_AUTHENTICATION_FAILED)) (\<lambda>_.
     Inr (sealed_plain c)))"

definition decrypt_non_negative_int ::
  "env \<Rightarrow> string \<Rightarrow> string \<Rightarrow> string \<Rightarrow> int sealed \<Rightarrow> repo_error + int" where
  "decrypt_non_negative_int env table column record_key c =
     bind (unseal env table column record_key c) (\<lambda>v.
     bind (guard (v \<ge> 0) (StorageSecurityError STORAGE_ENVELOPE_INVALID)) (\<lambda>_. Inr v))"

lemma unseal_eq_Inr [result_simps]:
  "unseal env t c k x = Inr v \<longleftrightarrow> x = Sealed (env_key_id env) t c k v"
  by (cases x) (auto simp: unseal_def bind_eq_Inr guard_eq_Inr)

lemma decrypt_int_eq_Inr [result_simps]:
  "decrypt_non_negative_int env t c k x = Inr v \<longleftrightarrow>
     x = Sealed (env_key_id env) t c k v \<and> v \<ge> 0"
  by (auto simp: decrypt_non_negative_int_def result_simps)

lemma seal_eq_Inr [result_simps]:
  "seal env t c k p = Inr x \<longleftrightarrow>
     aad_field_ok t \<and> aad_field_ok c \<and> aad_field_ok k \<and> x = Sealed (env_key_id env) t c k p"
  by (auto simp: seal_def result_simps)

lemma encrypt_text_eq_Inr [result_simps]:
  "encrypt_text env t c k p = Inr x \<longleftrightarrow>
     utf8_length p \<le> env_max_plaintext env \<and> aad_field_ok t \<and> aad_field_ok c \<and>
     aad_field_ok k \<and> x = Sealed (env_key_id env) t c k p"
  by (auto simp: encrypt_text_def result_simps)

lemma encrypt_int_eq_Inr [result_simps]:
  "encrypt_non_negative_int env t c k v = Inr x \<longleftrightarrow>
     v \<ge> 0 \<and> aad_field_ok t \<and> aad_field_ok c \<and> aad_field_ok k \<and>
     x = Sealed (env_key_id env) t c k v"
  by (auto simp: encrypt_non_negative_int_def result_simps)

section \<open>Rows\<close>

record session_row =
  ses_hash :: string
  ses_canonical :: "session_key sealed"
  ses_identity :: "string sealed option list"
  ses_next_sequence :: int
  ses_created_at :: int
  ses_updated_at :: int

record event_row =
  er_id :: string
  er_hash :: string
  er_sequence :: int
  er_type :: event_type
  er_role :: event_role
  er_content :: "string sealed"
  er_hook :: source_hook
  er_idem :: string
  er_tokens :: "int sealed"
  er_created_at :: int

record capsule_row =
  cr_id :: string
  cr_hash :: string
  cr_level :: capsule_level
  cr_start :: int
  cr_end :: int
  cr_json :: "capsule sealed"
  cr_tokens :: "int sealed"
  cr_source_coverage :: rat
  cr_created_at :: int

record snapshot_row =
  nr_id :: string
  nr_hash :: string
  nr_base :: "string option"
  nr_covered_end :: int
  nr_source_hwm :: int
  nr_anchor_ids :: "string list sealed"
  nr_rendered :: "string sealed"
  nr_tokens :: "int sealed"
  nr_audit :: "audit_outcome sealed"
  nr_state :: snapshot_state
  nr_created_at :: int
  nr_committed_at :: int

record membership_row =
  mr_snapshot :: string
  mr_ordinal :: int
  mr_capsule :: string
  mr_slot :: string

datatype reorganization_status = RETAINED | APPROXIMATE | RELEASED

record ledger_row =
  lr_snapshot :: string
  lr_ordinal :: int
  lr_source_capsule :: string
  lr_kind :: string
  lr_item :: string
  lr_status :: reorganization_status
  lr_before :: int
  lr_after :: int
  lr_required :: int

record pointer_row =
  pr_hash :: string
  pr_snapshot :: string
  pr_version :: int
  pr_updated_at :: int

record job_row =
  jr_id :: string
  jr_hash :: string
  jr_state :: job_state
  jr_target :: int
  jr_intent :: int
  jr_base :: "string option"
  jr_base_version :: int
  jr_candidate :: "string option"
  jr_owner :: "string option"
  jr_epoch :: int
  jr_expires :: "int option"
  jr_attempts :: int
  jr_retry :: "int option"
  jr_err_stage :: "string option"
  jr_err_code :: "string option"
  jr_err_message :: "string option"
  jr_created_at :: int
  jr_updated_at :: int
  jr_committed_at :: "int option"

datatype artifact_kind = EVENT_ARTIFACT | CAPSULE_ARTIFACT | SNAPSHOT_ARTIFACT

record metric_row =
  tr_kind :: artifact_kind
  tr_artifact :: string
  tr_profile :: string
  tr_envelope :: "int sealed"
  tr_created_at :: int

record intent_row =
  ir_hash :: string
  ir_kind :: artifact_kind
  ir_artifact :: string
  ir_profile :: string
  ir_created_at :: int

record db =
  db_sessions :: "session_row list"
  db_events :: "event_row list"
  db_capsules :: "capsule_row list"
  db_snapshots :: "snapshot_row list"
  db_memberships :: "membership_row list"
  db_ledger :: "ledger_row list"
  db_pointers :: "pointer_row list"
  db_jobs :: "job_row list"
  db_metrics :: "metric_row list"
  db_intents :: "intent_row list"

definition empty_db :: db where
  "empty_db = \<lparr>db_sessions = [], db_events = [], db_capsules = [], db_snapshots = [],
     db_memberships = [], db_ledger = [], db_pointers = [], db_jobs = [], db_metrics = [],
     db_intents = []\<rparr>"

section \<open>Transactions (\<^verbatim>\<open>storage/sqlite.py\<close>)\<close>

text \<open>
  \<^verbatim>\<open>with factory.transaction(immediate=True)\<close>: the body runs on the current state; its
  effect is kept when it returns and dropped when it raises.
\<close>

definition transaction :: "(db \<Rightarrow> repo_error + 'a \<times> db) \<Rightarrow> db \<Rightarrow> (repo_error + 'a) \<times> db" where
  "transaction body db = (case body db of Inl e \<Rightarrow> (Inl e, db) | Inr (x, db') \<Rightarrow> (Inr x, db'))"

lemma transaction_eq_Inr:
  "transaction body db = (Inr x, db') \<longleftrightarrow> body db = Inr (x, db')"
  by (auto simp: transaction_def split: sum.splits)

lemma transaction_eq_Inl:
  "transaction body db = (Inl e, db') \<longleftrightarrow> body db = Inl e \<and> db' = db"
  by (auto simp: transaction_def split: sum.splits)

lemma transaction_cases:
  assumes "transaction body db = (r, db')"
  obtains e where "r = Inl e" "db' = db" | x where "r = Inr x" "body db = Inr (x, db')"
  using assms by (auto simp: transaction_def split: sum.splits)

section \<open>Constraints (\<^verbatim>\<open>storage/migrations.py\<close>)\<close>

definition nonblank_optional :: "string option \<Rightarrow> bool" where
  "nonblank_optional x = (case x of None \<Rightarrow> True | Some s \<Rightarrow> sql_nonblank s)"

definition session_exists :: "db \<Rightarrow> string \<Rightarrow> bool" where
  "session_exists db h \<longleftrightarrow> (\<exists>s \<in> set (db_sessions db). ses_hash s = h)"

definition snapshot_exists :: "db \<Rightarrow> string \<Rightarrow> bool" where
  "snapshot_exists db i \<longleftrightarrow> (\<exists>s \<in> set (db_snapshots db). nr_id s = i)"

definition session_hash_ok :: "string \<Rightarrow> bool" where
  "session_hash_ok h \<longleftrightarrow> length h = 64 \<and> (\<forall>c \<in> set h. c \<in> set ''0123456789abcdef'')"

definition event_constraints :: "db \<Rightarrow> event_row \<Rightarrow> bool" where
  "event_constraints db r \<longleftrightarrow>
     sql_nonblank (er_id r) \<and> er_sequence r \<ge> 1 \<and> sql_nonblank (er_idem r) \<and>
     (er_role r, er_hook r) = event_mapping (er_type r) \<and>
     session_exists db (er_hash r) \<and>
     (\<forall>o' \<in> set (db_events db). er_id o' \<noteq> er_id r \<and>
        \<not> (er_hash o' = er_hash r \<and> er_sequence o' = er_sequence r) \<and>
        \<not> (er_hash o' = er_hash r \<and> er_hook o' = er_hook r \<and> er_idem o' = er_idem r))"

definition insert_event :: "event_row \<Rightarrow> db \<Rightarrow> repo_error + db" where
  "insert_event r db =
     (if event_constraints db r then Inr (db\<lparr>db_events := db_events db @ [r]\<rparr>)
      else Inl IntegrityError)"

definition capsule_constraints :: "db \<Rightarrow> capsule_row \<Rightarrow> bool" where
  "capsule_constraints db r \<longleftrightarrow>
     sql_nonblank (cr_id r) \<and> cr_start r \<ge> 1 \<and> cr_end r \<ge> cr_start r \<and>
     0 \<le> cr_source_coverage r \<and> cr_source_coverage r \<le> 1 \<and>
     session_exists db (cr_hash r) \<and>
     (\<forall>o' \<in> set (db_capsules db). cr_id o' \<noteq> cr_id r)"

definition insert_capsule :: "capsule_row \<Rightarrow> db \<Rightarrow> repo_error + db" where
  "insert_capsule r db =
     (if capsule_constraints db r then Inr (db\<lparr>db_capsules := db_capsules db @ [r]\<rparr>)
      else Inl IntegrityError)"

definition snapshot_constraints :: "db \<Rightarrow> snapshot_row \<Rightarrow> bool" where
  "snapshot_constraints db r \<longleftrightarrow>
     sql_nonblank (nr_id r) \<and> nonblank_optional (nr_base r) \<and>
     nr_covered_end r \<ge> 1 \<and> nr_source_hwm r \<ge> nr_covered_end r \<and>
     nr_state r = SNAPSHOT_COMMITTED \<and> session_exists db (nr_hash r) \<and>
     (case nr_base r of None \<Rightarrow> True | Some b \<Rightarrow> b = nr_id r \<or> snapshot_exists db b) \<and>
     (\<forall>o' \<in> set (db_snapshots db). nr_id o' \<noteq> nr_id r \<and>
        \<not> (nr_hash o' = nr_hash r \<and> nr_covered_end o' = nr_covered_end r))"

definition insert_snapshot :: "snapshot_row \<Rightarrow> db \<Rightarrow> repo_error + db" where
  "insert_snapshot r db =
     (if snapshot_constraints db r then Inr (db\<lparr>db_snapshots := db_snapshots db @ [r]\<rparr>)
      else Inl IntegrityError)"

definition membership_constraints :: "db \<Rightarrow> membership_row \<Rightarrow> bool" where
  "membership_constraints db r \<longleftrightarrow>
     mr_ordinal r \<ge> 0 \<and> sql_nonblank (mr_slot r) \<and> snapshot_exists db (mr_snapshot r) \<and>
     (\<exists>c \<in> set (db_capsules db). cr_id c = mr_capsule r) \<and>
     (\<forall>o' \<in> set (db_memberships db). mr_snapshot o' = mr_snapshot r \<longrightarrow>
        mr_ordinal o' \<noteq> mr_ordinal r \<and> mr_capsule o' \<noteq> mr_capsule r)"

definition insert_membership :: "membership_row \<Rightarrow> db \<Rightarrow> repo_error + db" where
  "insert_membership r db =
     (if membership_constraints db r
      then Inr (db\<lparr>db_memberships := db_memberships db @ [r]\<rparr>) else Inl IntegrityError)"

definition ledger_constraints :: "db \<Rightarrow> ledger_row \<Rightarrow> bool" where
  "ledger_constraints db r \<longleftrightarrow>
     sql_nonblank (lr_snapshot r) \<and> lr_ordinal r \<ge> 0 \<and> sql_nonblank (lr_source_capsule r) \<and>
     sql_nonblank (lr_kind r) \<and> sql_nonblank (lr_item r) \<and> lr_before r \<ge> 0 \<and>
     lr_after r \<ge> 0 \<and> (lr_required r = 0 \<or> lr_required r = 1) \<and>
     snapshot_exists db (lr_snapshot r) \<and>
     (\<forall>o' \<in> set (db_ledger db). lr_snapshot o' = lr_snapshot r \<longrightarrow>
        lr_ordinal o' \<noteq> lr_ordinal r \<and>
        \<not> (lr_source_capsule o' = lr_source_capsule r \<and> lr_kind o' = lr_kind r \<and>
           lr_item o' = lr_item r))"

definition insert_ledger :: "ledger_row \<Rightarrow> db \<Rightarrow> repo_error + db" where
  "insert_ledger r db =
     (if ledger_constraints db r then Inr (db\<lparr>db_ledger := db_ledger db @ [r]\<rparr>)
      else Inl IntegrityError)"

definition is_nonterminal :: "job_state \<Rightarrow> bool" where
  "is_nonterminal s \<longleftrightarrow>
     s \<in> set [PENDING, LEASED, COMPILING, AUDITING, READY_TO_COMMIT, RETRY_WAIT]"

definition job_row_checks :: "job_row \<Rightarrow> bool" where
  "job_row_checks r \<longleftrightarrow>
     sql_nonblank (jr_id r) \<and> jr_target r \<ge> 1 \<and> jr_intent r \<ge> jr_target r \<and>
     nonblank_optional (jr_base r) \<and> jr_base_version r \<ge> 0 \<and>
     nonblank_optional (jr_candidate r) \<and> nonblank_optional (jr_owner r) \<and>
     jr_epoch r \<ge> 0 \<and> jr_attempts r \<ge> 0 \<and>
     nonblank_optional (jr_err_stage r) \<and> nonblank_optional (jr_err_code r) \<and>
     nonblank_optional (jr_err_message r) \<and>
     (jr_base r = None \<and> jr_base_version r = 0 \<or> jr_base r \<noteq> None \<and> jr_base_version r \<ge> 1) \<and>
     (jr_state r \<in> set WORKING_STATES \<and> jr_owner r \<noteq> None \<and> jr_epoch r \<ge> 1 \<and>
        jr_expires r \<noteq> None \<or>
      jr_state r \<notin> set WORKING_STATES \<and> jr_owner r = None \<and> jr_expires r = None) \<and>
     (jr_state r \<in> set CANDIDATE_STATES \<longleftrightarrow> jr_candidate r \<noteq> None) \<and>
     (jr_err_stage r = None \<and> jr_err_code r = None \<and> jr_err_message r = None \<or>
      jr_err_stage r \<noteq> None \<and> jr_err_code r \<noteq> None \<and> jr_err_message r \<noteq> None) \<and>
     (jr_state r = RETRY_WAIT \<or> jr_state r = FAILED \<longrightarrow> jr_err_stage r \<noteq> None) \<and>
     (jr_state r = RETRY_WAIT \<longleftrightarrow> jr_retry r \<noteq> None) \<and>
     (jr_state r = COMMITTED \<longleftrightarrow> jr_committed_at r \<noteq> None)"

definition job_foreign_keys :: "db \<Rightarrow> job_row \<Rightarrow> bool" where
  "job_foreign_keys db r \<longleftrightarrow> session_exists db (jr_hash r) \<and>
     (case jr_base r of None \<Rightarrow> True | Some b \<Rightarrow> snapshot_exists db b)"

text \<open>The partial unique index \<^verbatim>\<open>uq_compaction_jobs_nonterminal_session\<close>.\<close>

definition unique_nonterminal :: "job_row list \<Rightarrow> bool" where
  "unique_nonterminal rows \<longleftrightarrow> distinct (map jr_hash (filter (is_nonterminal \<circ> jr_state) rows))"

definition insert_job :: "job_row \<Rightarrow> db \<Rightarrow> repo_error + db" where
  "insert_job r db =
     (if job_row_checks r \<and> job_foreign_keys db r \<and>
         (\<forall>o' \<in> set (db_jobs db). jr_id o' \<noteq> jr_id r) \<and>
         unique_nonterminal (db_jobs db @ [r])
      then Inr (db\<lparr>db_jobs := db_jobs db @ [r]\<rparr>) else Inl IntegrityError)"

definition update_jobs :: "(job_row \<Rightarrow> bool) \<Rightarrow> (job_row \<Rightarrow> job_row) \<Rightarrow> db \<Rightarrow> repo_error + db" where
  "update_jobs p f db =
     (let rows = update_where p f (db_jobs db) in
      if (\<forall>r \<in> set (db_jobs db). p r \<longrightarrow> job_row_checks (f r) \<and> job_foreign_keys db (f r)) \<and>
         unique_nonterminal rows
      then Inr (db\<lparr>db_jobs := rows\<rparr>) else Inl IntegrityError)"

definition pointer_constraints :: "db \<Rightarrow> pointer_row list \<Rightarrow> bool" where
  "pointer_constraints db rows \<longleftrightarrow>
     distinct (map pr_hash rows) \<and> distinct (map pr_snapshot rows) \<and>
     (\<forall>p \<in> set rows. pr_version p \<ge> 1 \<and> session_exists db (pr_hash p) \<and>
        snapshot_exists db (pr_snapshot p))"

definition write_pointers :: "pointer_row list \<Rightarrow> db \<Rightarrow> repo_error + db" where
  "write_pointers rows db =
     (if pointer_constraints db rows then Inr (db\<lparr>db_pointers := rows\<rparr>) else Inl IntegrityError)"

lemma insert_event_eq_Inr [result_simps]:
  "insert_event r db = Inr db' \<longleftrightarrow>
     event_constraints db r \<and> db' = db\<lparr>db_events := db_events db @ [r]\<rparr>"
  by (auto simp: insert_event_def)

lemma insert_capsule_eq_Inr [result_simps]:
  "insert_capsule r db = Inr db' \<longleftrightarrow>
     capsule_constraints db r \<and> db' = db\<lparr>db_capsules := db_capsules db @ [r]\<rparr>"
  by (auto simp: insert_capsule_def)

lemma insert_snapshot_eq_Inr [result_simps]:
  "insert_snapshot r db = Inr db' \<longleftrightarrow>
     snapshot_constraints db r \<and> db' = db\<lparr>db_snapshots := db_snapshots db @ [r]\<rparr>"
  by (auto simp: insert_snapshot_def)

lemma insert_membership_eq_Inr [result_simps]:
  "insert_membership r db = Inr db' \<longleftrightarrow>
     membership_constraints db r \<and> db' = db\<lparr>db_memberships := db_memberships db @ [r]\<rparr>"
  by (auto simp: insert_membership_def)

lemma insert_ledger_eq_Inr [result_simps]:
  "insert_ledger r db = Inr db' \<longleftrightarrow>
     ledger_constraints db r \<and> db' = db\<lparr>db_ledger := db_ledger db @ [r]\<rparr>"
  by (auto simp: insert_ledger_def)

lemma insert_job_eq_Inr [result_simps]:
  "insert_job r db = Inr db' \<longleftrightarrow>
     job_row_checks r \<and> job_foreign_keys db r \<and> (\<forall>o' \<in> set (db_jobs db). jr_id o' \<noteq> jr_id r) \<and>
     unique_nonterminal (db_jobs db @ [r]) \<and> db' = db\<lparr>db_jobs := db_jobs db @ [r]\<rparr>"
  by (auto simp: insert_job_def)

lemma update_jobs_eq_Inr [result_simps]:
  "update_jobs p f db = Inr db' \<longleftrightarrow>
     (\<forall>r \<in> set (db_jobs db). p r \<longrightarrow> job_row_checks (f r) \<and> job_foreign_keys db (f r)) \<and>
     unique_nonterminal (update_where p f (db_jobs db)) \<and>
     db' = db\<lparr>db_jobs := update_where p f (db_jobs db)\<rparr>"
  by (auto simp: update_jobs_def)

lemma write_pointers_eq_Inr [result_simps]:
  "write_pointers rows db = Inr db' \<longleftrightarrow>
     pointer_constraints db rows \<and> db' = db\<lparr>db_pointers := rows\<rparr>"
  by (auto simp: write_pointers_def)

end
