(* ===== verification/Repo_Read.thy ===== *)
theory Repo_Read
  imports Schema
begin

text \<open>
  The read side of \<^verbatim>\<open>storage/repository.py\<close>: reconstruction of the domain envelopes from
  rows, with every cross-check the code makes, and the two consistent views built from them,
  the request view (active snapshot plus contiguous delta) and the compaction view frozen by
  a live lease.
\<close>

section \<open>Sessions and events\<close>

definition env_hash :: "env \<Rightarrow> session_key \<Rightarrow> string" where
  "env_hash env k = session_key_hash (env_sha256 env) k"

definition session_key_from_storage ::
  "env \<Rightarrow> string \<Rightarrow> session_key sealed \<Rightarrow> repo_error + session_key" where
  "session_key_from_storage env h c =
     bind (unseal env ''sessions'' ''canonical_session_key_json'' h c) (\<lambda>k.
     bind (guard (valid_session_key k) RepositoryInvariantError) (\<lambda>_.
     bind (guard (env_hash env k = h) RepositoryInvariantError) (\<lambda>_.
     Inr k)))"

definition find_session :: "db \<Rightarrow> string \<Rightarrow> session_row option" where
  "find_session db h = fetchone (\<lambda>s. ses_hash s = h) (db_sessions db)"

definition require_session_identity :: "env \<Rightarrow> db \<Rightarrow> session_key \<Rightarrow> repo_error + unit" where
  "require_session_identity env db k =
     bind (option_or (find_session db (env_hash env k)) SessionIdentityConflict) (\<lambda>row.
     bind (session_key_from_storage env (env_hash env k) (ses_canonical row)) (\<lambda>stored.
     guard (stored = k) SessionIdentityConflict))"

definition event_from_row :: "env \<Rightarrow> session_key \<Rightarrow> event_row \<Rightarrow> repo_error + event_envelope" where
  "event_from_row env k row =
     bind (guard (er_hash row = env_hash env k) RepositoryInvariantError) (\<lambda>_.
     bind (unseal env ''journal_events'' ''content'' (er_id row) (er_content row)) (\<lambda>content.
     bind (decrypt_non_negative_int env ''journal_events'' ''token_count'' (er_id row)
             (er_tokens row)) (\<lambda>tokens.
     let e = \<lparr>ev_id = er_id row, ev_session_key = k, ev_sequence = er_sequence row,
              ev_type = er_type row, ev_role = er_role row, ev_content = content,
              ev_source_hook = er_hook row, ev_idempotency_key = er_idem row,
              ev_token_count = tokens, ev_created_at = er_created_at row\<rparr>
     in bind (guard (valid_event e) RepositoryInvariantError) (\<lambda>_. Inr e))))"

definition events_between ::
  "env \<Rightarrow> db \<Rightarrow> session_key \<Rightarrow> int \<Rightarrow> int \<Rightarrow> repo_error + event_envelope list" where
  "events_between env db k start_exclusive end_inclusive =
     traverse (event_from_row env k)
       (sort_key er_sequence
         (filter (\<lambda>r. er_hash r = env_hash env k \<and> er_sequence r > start_exclusive \<and>
                      er_sequence r \<le> end_inclusive) (db_events db)))"

section \<open>Capsules and snapshots\<close>

definition capsule_from_row :: "env \<Rightarrow> session_key \<Rightarrow> capsule_row \<Rightarrow> repo_error + capsule" where
  "capsule_from_row env k row =
     bind (unseal env ''capsules'' ''canonical_capsule_json'' (cr_id row) (cr_json row)) (\<lambda>c.
     bind (guard (valid_capsule c) RepositoryInvariantError) (\<lambda>_.
     bind (decrypt_non_negative_int env ''capsules'' ''token_cost'' (cr_id row)
             (cr_tokens row)) (\<lambda>tokens.
     bind (guard (cr_id row = cap_id c \<and> cr_hash row = env_hash env k \<and>
                  cap_session_key c = k \<and> cr_level row = cap_level c \<and>
                  cr_start row = cap_covered_event_start c \<and>
                  cr_end row = cap_covered_event_end c \<and>
                  tokens = cap_token_cost c \<and>
                  cr_source_coverage row = q_source_coverage (cap_quality c) \<and>
                  cr_created_at row = cap_created_at c) RepositoryInvariantError) (\<lambda>_.
     Inr c))))"

record membership =
  mem_ordinal :: int
  mem_slot :: string
  mem_capsule :: capsule

abbreviation mem_capsule_id :: "membership \<Rightarrow> string" where
  "mem_capsule_id m \<equiv> cap_id (mem_capsule m)"

text \<open>
  The join of \<^verbatim>\<open>_memberships_for_snapshot\<close>, and the decoding of its rows against the
  expected ordinals \<open>0, 1, \<dots>\<close>.
\<close>

definition membership_join :: "db \<Rightarrow> string \<Rightarrow> (membership_row \<times> capsule_row) list" where
  "membership_join db sid =
     concat (map (\<lambda>m. map (Pair m) (filter (\<lambda>c. cr_id c = mr_capsule m) (db_capsules db)))
       (sort_key mr_ordinal (filter (\<lambda>m. mr_snapshot m = sid) (db_memberships db))))"

fun decode_memberships ::
  "env \<Rightarrow> session_key \<Rightarrow> int \<Rightarrow> (membership_row \<times> capsule_row) list
   \<Rightarrow> repo_error + membership list" where
  "decode_memberships env k n [] = Inr []"
| "decode_memberships env k n ((m, row) # rest) =
     bind (capsule_from_row env k row) (\<lambda>c.
     bind (guard (mr_ordinal m = n) RepositoryInvariantError) (\<lambda>_.
     bind (decode_memberships env k (n + 1) rest) (\<lambda>ms.
     Inr (\<lparr>mem_ordinal = n, mem_slot = mr_slot m, mem_capsule = c\<rparr> # ms))))"

definition memberships_for_snapshot ::
  "env \<Rightarrow> db \<Rightarrow> string \<Rightarrow> session_key \<Rightarrow> repo_error + membership list" where
  "memberships_for_snapshot env db sid k = decode_memberships env k 0 (membership_join db sid)"

definition snapshot_from_row ::
  "env \<Rightarrow> session_key \<Rightarrow> string list \<Rightarrow> snapshot_row \<Rightarrow> repo_error + snapshot" where
  "snapshot_from_row env k capsule_ids row =
     bind (unseal env ''snapshots'' ''exact_anchor_ids_json'' (nr_id row) (nr_anchor_ids row))
       (\<lambda>anchors.
     bind (unseal env ''snapshots'' ''rendered_context'' (nr_id row) (nr_rendered row)) (\<lambda>rendered.
     bind (unseal env ''snapshots'' ''audit_outcome'' (nr_id row) (nr_audit row)) (\<lambda>audit.
     bind (decrypt_non_negative_int env ''snapshots'' ''token_cost'' (nr_id row) (nr_tokens row))
       (\<lambda>tokens.
     let s = \<lparr>snap_id = nr_id row, snap_session_key = k, snap_base_snapshot_id = nr_base row,
              snap_covered_event_end = nr_covered_end row,
              snap_source_high_water_mark = nr_source_hwm row,
              snap_capsule_ids = capsule_ids, snap_exact_anchor_ids = anchors,
              snap_rendered_context = rendered, snap_token_cost = tokens,
              snap_audit_outcome = audit, snap_state = nr_state row,
              snap_created_at = nr_created_at row,
              snap_committed_at = Some (nr_committed_at row)\<rparr>
     in bind (guard (valid_snapshot s) RepositoryInvariantError) (\<lambda>_.
        bind (guard (nr_hash row = env_hash env k) RepositoryInvariantError) (\<lambda>_.
        Inr s))))))"

definition validate_snapshot_memberships ::
  "snapshot \<Rightarrow> membership list \<Rightarrow> repo_error + unit" where
  "validate_snapshot_memberships s ms =
     bind (guard (ms \<noteq> [] \<and> snap_capsule_ids s = map mem_capsule_id ms)
             RepositoryInvariantError) (\<lambda>_.
     guard (snap_exact_anchor_ids s =
              map anchor_id (active_anchors (map mem_capsule ms))) RepositoryInvariantError)"

definition find_snapshot :: "db \<Rightarrow> string \<Rightarrow> snapshot_row option" where
  "find_snapshot db sid = fetchone (\<lambda>s. nr_id s = sid) (db_snapshots db)"

definition snapshot_bundle_by_id ::
  "env \<Rightarrow> db \<Rightarrow> string \<Rightarrow> session_key \<Rightarrow> repo_error + snapshot \<times> membership list" where
  "snapshot_bundle_by_id env db sid k =
     bind (option_or (find_snapshot db sid) RepositoryInvariantError) (\<lambda>row.
     bind (option_or (find_session db (nr_hash row)) RepositoryInvariantError) (\<lambda>ses.
     bind (session_key_from_storage env (nr_hash row) (ses_canonical ses)) (\<lambda>stored.
     bind (guard (stored = k) RepositoryInvariantError) (\<lambda>_.
     bind (memberships_for_snapshot env db sid k) (\<lambda>ms.
     bind (snapshot_from_row env k (map mem_capsule_id ms) row) (\<lambda>s.
     bind (validate_snapshot_memberships s ms) (\<lambda>_.
     Inr (s, ms))))))))"

definition find_pointer :: "db \<Rightarrow> string \<Rightarrow> pointer_row option" where
  "find_pointer db h = fetchone (\<lambda>p. pr_hash p = h) (db_pointers db)"

definition active_snapshot_bundle ::
  "env \<Rightarrow> db \<Rightarrow> session_key \<Rightarrow> repo_error + snapshot \<times> int \<times> membership list" where
  "active_snapshot_bundle env db k =
     bind (option_or (find_pointer db (env_hash env k)) RepositoryInvariantError) (\<lambda>p.
     bind (snapshot_bundle_by_id env db (pr_snapshot p) k) (\<lambda>(s, ms).
     bind (guard (snap_session_key s = k) RepositoryInvariantError) (\<lambda>_.
     Inr (s, pr_version p, ms))))"

text \<open>
  \<^verbatim>\<open>_active_base\<close>: the active snapshot id, pointer version and coverage, or the empty base.
  The inner join drops a pointer whose snapshot row is missing.
\<close>

definition active_base :: "db \<Rightarrow> string \<Rightarrow> repo_error + string option \<times> int \<times> int" where
  "active_base db h =
     (case find_pointer db h of
        None \<Rightarrow> Inr (None, 0, 0)
      | Some p \<Rightarrow>
          (case find_snapshot db (pr_snapshot p) of
             None \<Rightarrow> Inr (None, 0, 0)
           | Some s \<Rightarrow>
               bind (guard (nr_hash s = h) RepositoryInvariantError) (\<lambda>_.
               Inr (Some (pr_snapshot p), pr_version p, nr_covered_end s))))"

section \<open>Jobs\<close>

definition find_job :: "db \<Rightarrow> string \<Rightarrow> job_row option" where
  "find_job db i = fetchone (\<lambda>r. jr_id r = i) (db_jobs db)"

definition job_envelope :: "session_key \<Rightarrow> job_row \<Rightarrow> job" where
  "job_envelope k r =
     \<lparr>job_id = jr_id r, job_session_key = k, job_state = jr_state r,
      job_target_hwm = jr_target r, job_intent_target_hwm = jr_intent r,
      job_base_snapshot_id = jr_base r, job_base_pointer_version = jr_base_version r,
      job_candidate_snapshot_id = jr_candidate r, job_attempt_count = jr_attempts r,
      job_lease_owner = jr_owner r, job_lease_epoch = jr_epoch r,
      job_lease_expires_at = jr_expires r, job_next_retry_at = jr_retry r,
      job_error_stage = jr_err_stage r, job_error_code = jr_err_code r,
      job_error_message = jr_err_message r, job_created_at = jr_created_at r,
      job_updated_at = jr_updated_at r, job_committed_at = jr_committed_at r\<rparr>"

definition job_from_row :: "env \<Rightarrow> session_row \<Rightarrow> job_row \<Rightarrow> repo_error + job" where
  "job_from_row env ses r =
     bind (session_key_from_storage env (jr_hash r) (ses_canonical ses)) (\<lambda>k.
     bind (guard (valid_job (job_envelope k r)) RepositoryInvariantError) (\<lambda>_.
     bind (guard (jr_hash r = env_hash env k) RepositoryInvariantError) (\<lambda>_.
     Inr (job_envelope k r))))"

definition job_by_id :: "env \<Rightarrow> db \<Rightarrow> string \<Rightarrow> repo_error + job" where
  "job_by_id env db i =
     bind (option_or (find_job db i) RepositoryInvariantError) (\<lambda>r.
     bind (option_or (find_session db (jr_hash r)) RepositoryInvariantError) (\<lambda>ses.
     job_from_row env ses r))"

text \<open>The live-fence predicate every worker mutation must satisfy.\<close>

definition fence_live :: "job_row \<Rightarrow> string \<Rightarrow> int \<Rightarrow> int \<Rightarrow> bool" where
  "fence_live r owner epoch now \<longleftrightarrow>
     jr_state r \<in> set WORKING_STATES \<and> jr_owner r = Some owner \<and> jr_epoch r = epoch \<and>
     (case jr_expires r of None \<Rightarrow> False | Some t \<Rightarrow> now < t)"

definition require_live_fence ::
  "db \<Rightarrow> string \<Rightarrow> string \<Rightarrow> int \<Rightarrow> int \<Rightarrow> repo_error + job_row" where
  "require_live_fence db i owner epoch now =
     (case find_job db i of
        None \<Rightarrow> Inl StaleLeaseError
      | Some r \<Rightarrow> if fence_live r owner epoch now then Inr r else Inl StaleLeaseError)"

lemma require_live_fence_eq_Inr [result_simps]:
  "require_live_fence db i owner epoch now = Inr r \<longleftrightarrow>
     find_job db i = Some r \<and> fence_live r owner epoch now"
  by (auto simp: require_live_fence_def split: option.splits)

lemma require_live_fence_eq_Inl [result_simps]:
  "require_live_fence db i owner epoch now = Inl e \<longleftrightarrow>
     e = StaleLeaseError \<and> (\<forall>r. find_job db i = Some r \<longrightarrow> \<not> fence_live r owner epoch now)"
  by (auto simp: require_live_fence_def split: option.splits)

section \<open>Views\<close>

record request_view =
  rv_session_key :: session_key
  rv_snapshot :: "snapshot option"
  rv_memberships :: "membership list"
  rv_pointer_version :: int
  rv_covered_event_end :: int
  rv_high_water_mark :: int
  rv_delta :: "event_envelope list"

definition read_active_snapshot ::
  "env \<Rightarrow> db \<Rightarrow> session_key \<Rightarrow> repo_error + snapshot option \<times> membership list \<times> int \<times> int" where
  "read_active_snapshot env db k =
     (case find_pointer db (env_hash env k) of
        None \<Rightarrow> Inr (None, [], 0, 0)
      | Some p \<Rightarrow>
          (case find_snapshot db (pr_snapshot p) of
             None \<Rightarrow> Inr (None, [], 0, 0)
           | Some row \<Rightarrow>
               bind (memberships_for_snapshot env db (nr_id row) k) (\<lambda>ms.
               bind (snapshot_from_row env k (map mem_capsule_id ms) row) (\<lambda>s.
               bind (validate_snapshot_memberships s ms) (\<lambda>_.
               Inr (Some s, ms, pr_version p, snap_covered_event_end s))))))"

definition read_request_view :: "env \<Rightarrow> db \<Rightarrow> session_key \<Rightarrow> repo_error + request_view" where
  "read_request_view env db k =
     (case find_session db (env_hash env k) of
        None \<Rightarrow> Inr \<lparr>rv_session_key = k, rv_snapshot = None, rv_memberships = [],
                     rv_pointer_version = 0, rv_covered_event_end = 0, rv_high_water_mark = 0,
                     rv_delta = []\<rparr>
      | Some ses \<Rightarrow>
          bind (session_key_from_storage env (env_hash env k) (ses_canonical ses)) (\<lambda>stored.
          bind (guard (stored = k) SessionIdentityConflict) (\<lambda>_.
          let hwm = ses_next_sequence ses - 1 in
          bind (inject env ''read.after_high_water'') (\<lambda>_.
          bind (inject env ''read.after_pointer'') (\<lambda>_.
          bind (read_active_snapshot env db k) (\<lambda>(s, ms, version, covered).
          bind (guard (covered \<le> hwm) RepositoryInvariantError) (\<lambda>_.
          bind (events_between env db k covered hwm) (\<lambda>delta.
          bind (guard (map ev_sequence delta = range_list (covered + 1) (hwm + 1))
                  RepositoryInvariantError) (\<lambda>_.
          Inr \<lparr>rv_session_key = k, rv_snapshot = s, rv_memberships = ms,
               rv_pointer_version = version, rv_covered_event_end = covered,
               rv_high_water_mark = hwm, rv_delta = delta\<rparr>)))))))))"

definition read_compaction_view ::
  "env \<Rightarrow> db \<Rightarrow> string \<Rightarrow> string \<Rightarrow> int \<Rightarrow> datetime \<Rightarrow> repo_error + request_view" where
  "read_compaction_view env db i owner epoch now =
     bind (normalize_datetime now) (\<lambda>now_t.
     bind (require_live_fence db i owner epoch now_t) (\<lambda>row.
     bind (guard (jr_state row = COMPILING \<or> jr_state row = AUDITING) JobTransitionError) (\<lambda>_.
     bind (job_by_id env db i) (\<lambda>job.
     bind (case job_base_snapshot_id job of
             None \<Rightarrow>
               bind (guard (job_base_pointer_version job = 0) RepositoryInvariantError) (\<lambda>_.
               Inr (None, [], 0))
           | Some b \<Rightarrow>
               bind (snapshot_bundle_by_id env db b (job_session_key job)) (\<lambda>(s, ms).
               bind (guard (snap_state s = SNAPSHOT_COMMITTED) RepositoryInvariantError) (\<lambda>_.
               Inr (Some s, ms, snap_covered_event_end s)))) (\<lambda>(s, ms, covered).
     bind (guard (covered \<le> job_target_hwm job) RepositoryInvariantError) (\<lambda>_.
     bind (events_between env db (job_session_key job) covered (job_target_hwm job)) (\<lambda>delta.
     bind (guard (map ev_sequence delta = range_list (covered + 1) (job_target_hwm job + 1))
             RepositoryInvariantError) (\<lambda>_.
     Inr \<lparr>rv_session_key = job_session_key job, rv_snapshot = s, rv_memberships = ms,
          rv_pointer_version = job_base_pointer_version job, rv_covered_event_end = covered,
          rv_high_water_mark = job_target_hwm job, rv_delta = delta\<rparr>))))))))"

end
