(* ===== verification/Metrics.thy ===== *)
theory Metrics
  imports Repo_Read
begin

text \<open>
  The encrypted token-metric sidecar: \<^verbatim>\<open>storage/token_metrics.py\<close> (immutable counts keyed by
  artifact and tokenizer profile, written by compare-and-set), the durable backfill intents,
  and the bounded backfill transactions of \<^verbatim>\<open>storage/repository.py\<close>.
\<close>

section \<open>Metric values\<close>

record token_metric =
  tm_kind :: artifact_kind
  tm_artifact :: string
  tm_profile :: string
  tm_count :: int

record canonical_observation =
  co_profile :: string
  co_count :: "int option"

definition required_identifier :: "string \<Rightarrow> bool" where
  "required_identifier s \<longleftrightarrow> py_strip s \<noteq> []"

definition valid_metric :: "token_metric \<Rightarrow> bool" where
  "valid_metric m \<longleftrightarrow>
     required_identifier (tm_artifact m) \<and> required_identifier (tm_profile m) \<and> tm_count m \<ge> 0"

definition valid_observation :: "canonical_observation \<Rightarrow> bool" where
  "valid_observation c \<longleftrightarrow> required_identifier (co_profile c) \<and>
     (case co_count c of None \<Rightarrow> True | Some n \<Rightarrow> n \<ge> 0)"

fun artifact_kind_value :: "artifact_kind \<Rightarrow> string" where
  "artifact_kind_value EVENT_ARTIFACT = ''EVENT''"
| "artifact_kind_value CAPSULE_ARTIFACT = ''CAPSULE''"
| "artifact_kind_value SNAPSHOT_ARTIFACT = ''SNAPSHOT''"

definition metric_record_key :: "artifact_kind \<Rightarrow> string \<Rightarrow> string \<Rightarrow> string" where
  "metric_record_key kind artifact profile =
     ''['' @ join '','' (map json_string
        [''token-metric-v1'', artifact_kind_value kind, artifact, profile]) @ '']''"

section \<open>The store\<close>

definition metric_matches :: "artifact_kind \<Rightarrow> string \<Rightarrow> string \<Rightarrow> metric_row \<Rightarrow> bool" where
  "metric_matches kind artifact profile r \<longleftrightarrow>
     tr_kind r = kind \<and> tr_artifact r = artifact \<and> tr_profile r = profile"

definition get_metric ::
  "env \<Rightarrow> db \<Rightarrow> artifact_kind \<Rightarrow> string \<Rightarrow> string \<Rightarrow> repo_error + token_metric option" where
  "get_metric env db kind artifact profile =
     bind (guard (required_identifier artifact) ValueError) (\<lambda>_.
     bind (guard (required_identifier profile) ValueError) (\<lambda>_.
     case fetchone (metric_matches kind artifact profile) (db_metrics db) of
       None \<Rightarrow> Inr None
     | Some r \<Rightarrow>
         bind (unseal env ''token_metrics'' ''metric_envelope''
                 (metric_record_key (tr_kind r) (tr_artifact r) (tr_profile r))
                 (tr_envelope r)) (\<lambda>n.
         bind (guard (n \<ge> 0) (StorageSecurityError STORAGE_ENVELOPE_INVALID)) (\<lambda>_.
         Inr (Some \<lparr>tm_kind = tr_kind r, tm_artifact = tr_artifact r,
                    tm_profile = tr_profile r, tm_count = n\<rparr>)))))"

definition metric_constraints :: "db \<Rightarrow> metric_row \<Rightarrow> bool" where
  "metric_constraints db r \<longleftrightarrow>
     sql_nonblank (tr_artifact r) \<and> sql_nonblank (tr_profile r) \<and>
     (\<forall>o' \<in> set (db_metrics db). \<not> metric_matches (tr_kind r) (tr_artifact r) (tr_profile r) o')"

definition put_metric ::
  "env \<Rightarrow> token_metric \<Rightarrow> int \<Rightarrow> db \<Rightarrow> repo_error + db" where
  "put_metric env m created_at db =
     bind (get_metric env db (tm_kind m) (tm_artifact m) (tm_profile m)) (\<lambda>existing.
     case existing of
       Some e \<Rightarrow> if e = m then Inr db else Inl TokenMetricConflict
     | None \<Rightarrow>
         bind (seal env ''token_metrics'' ''metric_envelope''
                 (metric_record_key (tm_kind m) (tm_artifact m) (tm_profile m))
                 (tm_count m)) (\<lambda>c.
         let r = \<lparr>tr_kind = tm_kind m, tr_artifact = tm_artifact m, tr_profile = tm_profile m,
                  tr_envelope = c, tr_created_at = created_at\<rparr>
         in bind (guard (metric_constraints db r) IntegrityError) (\<lambda>_.
            Inr (db\<lparr>db_metrics := db_metrics db @ [r]\<rparr>))))"

definition intent_matches :: "artifact_kind \<Rightarrow> string \<Rightarrow> string \<Rightarrow> intent_row \<Rightarrow> bool" where
  "intent_matches kind artifact profile r \<longleftrightarrow>
     ir_kind r = kind \<and> ir_artifact r = artifact \<and> ir_profile r = profile"

definition delete_intent :: "artifact_kind \<Rightarrow> string \<Rightarrow> string \<Rightarrow> db \<Rightarrow> db" where
  "delete_intent kind artifact profile db =
     db\<lparr>db_intents := delete_where (intent_matches kind artifact profile) (db_intents db)\<rparr>"

text \<open>\<^verbatim>\<open>INSERT .. ON CONFLICT (..) DO NOTHING\<close>.\<close>

definition insert_intent :: "intent_row \<Rightarrow> db \<Rightarrow> repo_error + db" where
  "insert_intent r db =
     bind (guard (sql_nonblank (ir_artifact r) \<and> sql_nonblank (ir_profile r)) IntegrityError) (\<lambda>_.
     if \<exists>o' \<in> set (db_intents db). intent_matches (ir_kind r) (ir_artifact r) (ir_profile r) o'
     then Inr db
     else bind (guard (session_exists db (ir_hash r)) IntegrityError) (\<lambda>_.
          Inr (db\<lparr>db_intents := db_intents db @ [r]\<rparr>)))"

section \<open>Observations made while capturing\<close>

definition record_canonical_observation ::
  "env \<Rightarrow> string \<Rightarrow> string \<Rightarrow> canonical_observation \<Rightarrow> int \<Rightarrow> db \<Rightarrow> repo_error + db" where
  "record_canonical_observation env h artifact c created_at db =
     (case co_count c of
        Some n \<Rightarrow>
          bind (guard (valid_metric \<lparr>tm_kind = EVENT_ARTIFACT, tm_artifact = artifact,
                  tm_profile = co_profile c, tm_count = n\<rparr>) ValueError) (\<lambda>_.
          bind (put_metric env \<lparr>tm_kind = EVENT_ARTIFACT, tm_artifact = artifact,
                  tm_profile = co_profile c, tm_count = n\<rparr> created_at db) (\<lambda>db1.
          Inr (delete_intent EVENT_ARTIFACT artifact (co_profile c) db1)))
      | None \<Rightarrow>
          bind (get_metric env db EVENT_ARTIFACT artifact (co_profile c)) (\<lambda>existing.
          if existing \<noteq> None then Inr db
          else insert_intent \<lparr>ir_hash = h, ir_kind = EVENT_ARTIFACT, ir_artifact = artifact,
                 ir_profile = co_profile c, ir_created_at = created_at\<rparr> db))"

section \<open>Backfill\<close>

definition artifact_owner :: "db \<Rightarrow> artifact_kind \<Rightarrow> string \<Rightarrow> string option" where
  "artifact_owner db kind i = (case kind of
     EVENT_ARTIFACT \<Rightarrow> map_option er_hash (fetchone (\<lambda>r. er_id r = i) (db_events db))
   | CAPSULE_ARTIFACT \<Rightarrow> map_option cr_hash (fetchone (\<lambda>r. cr_id r = i) (db_capsules db))
   | SNAPSHOT_ARTIFACT \<Rightarrow> map_option nr_hash (fetchone (\<lambda>r. nr_id r = i) (db_snapshots db)))"

definition MAX_METRIC_BACKFILL_BATCH :: nat where
  "MAX_METRIC_BACKFILL_BATCH = 1024"

definition write_backfill_metric ::
  "env \<Rightarrow> string \<Rightarrow> int \<Rightarrow> db \<Rightarrow> token_metric \<Rightarrow> repo_error + db" where
  "write_backfill_metric env h now db m =
     bind (guard (artifact_owner db (tm_kind m) (tm_artifact m) = Some h)
             RepositoryInvariantError) (\<lambda>_.
     bind (put_metric env m now db) (\<lambda>db1.
     let db2 = delete_intent (tm_kind m) (tm_artifact m) (tm_profile m) db1 in
     bind (inject env ''backfill.after_metric'') (\<lambda>_.
     Inr db2)))"

definition write_metric_backfill_batch_body ::
  "env \<Rightarrow> session_key \<Rightarrow> token_metric list \<Rightarrow> datetime \<Rightarrow> db
   \<Rightarrow> repo_error + token_metric list \<times> db" where
  "write_metric_backfill_batch_body env k metrics now db =
     bind (guard (length metrics \<le> MAX_METRIC_BACKFILL_BATCH) ValueError) (\<lambda>_.
     bind (normalize_datetime now) (\<lambda>now_t.
     bind (require_session_identity env db k) (\<lambda>_.
     bind (foldM (write_backfill_metric env (env_hash env k) now_t) db metrics) (\<lambda>db'.
     Inr (metrics, db')))))"

definition write_metric_backfill_batch ::
  "env \<Rightarrow> session_key \<Rightarrow> token_metric list \<Rightarrow> datetime \<Rightarrow> db
   \<Rightarrow> (repo_error + token_metric list) \<times> db" where
  "write_metric_backfill_batch env k metrics now =
     transaction (write_metric_backfill_batch_body env k metrics now)"

section \<open>Reading counts\<close>

definition read_event_token_count ::
  "env \<Rightarrow> db \<Rightarrow> string \<Rightarrow> string \<Rightarrow> string \<Rightarrow> repo_error + (string \<times> int) option" where
  "read_event_token_count env db h profile i =
     bind (guard (artifact_owner db EVENT_ARTIFACT i = Some h) RepositoryInvariantError) (\<lambda>_.
     bind (get_metric env db EVENT_ARTIFACT i profile) (\<lambda>m.
     Inr (map_option (\<lambda>m. (i, tm_count m)) m)))"

definition read_event_token_counts ::
  "env \<Rightarrow> db \<Rightarrow> session_key \<Rightarrow> string list \<Rightarrow> string \<Rightarrow> repo_error + (string \<times> int) list" where
  "read_event_token_counts env db k ids profile =
     bind (guard (py_strip profile \<noteq> []) ValueError) (\<lambda>_.
     bind (guard (\<forall>i \<in> set ids. py_strip i \<noteq> []) ValueError) (\<lambda>_.
     bind (guard (distinct ids) ValueError) (\<lambda>_.
     bind (require_session_identity env db k) (\<lambda>_.
     bind (traverse (read_event_token_count env db (env_hash env k) profile) ids) (\<lambda>xs.
     Inr (List.map_filter id xs))))))"

section \<open>Laws\<close>

lemma get_metric_eq_Inr:
  "get_metric env db kind a p = Inr m \<longleftrightarrow>
     required_identifier a \<and> required_identifier p \<and>
     (case fetchone (metric_matches kind a p) (db_metrics db) of
        None \<Rightarrow> m = None
      | Some r \<Rightarrow> \<exists>n \<ge> 0. tr_envelope r = Sealed (env_key_id env) ''token_metrics''
            ''metric_envelope'' (metric_record_key (tr_kind r) (tr_artifact r) (tr_profile r)) n \<and>
          m = Some \<lparr>tm_kind = tr_kind r, tm_artifact = tr_artifact r, tm_profile = tr_profile r,
                   tm_count = n\<rparr>)"
  by (auto simp: get_metric_def result_simps split: option.splits)

lemma put_metric_cases:
  assumes "put_metric env m t db = Inr db'"
  obtains (replay) "db' = db" "get_metric env db (tm_kind m) (tm_artifact m) (tm_profile m) = Inr (Some m)"
  | (fresh) "db' = db\<lparr>db_metrics := db_metrics db @ [\<lparr>tr_kind = tm_kind m,
        tr_artifact = tm_artifact m, tr_profile = tm_profile m,
        tr_envelope = Sealed (env_key_id env) ''token_metrics'' ''metric_envelope''
          (metric_record_key (tm_kind m) (tm_artifact m) (tm_profile m)) (tm_count m),
        tr_created_at = t\<rparr>]\<rparr>"
      "get_metric env db (tm_kind m) (tm_artifact m) (tm_profile m) = Inr None"
proof -
  from assms obtain x where
    g: "get_metric env db (tm_kind m) (tm_artifact m) (tm_profile m) = Inr x" and
    rest: "put_metric env m t db = Inr db'"
    unfolding put_metric_def bind_eq_Inr by blast
  show thesis
  proof (cases x)
    case None
    with g rest show thesis
      by (intro fresh) (auto simp: put_metric_def result_simps)
  next
    case (Some e)
    with g rest show thesis
      by (intro replay) (auto simp: put_metric_def split: if_splits)
  qed
qed

text \<open>
  The contract of the store, as its clients rely on it: a stored count can be read back, an
  exact replay of a write changes nothing, a different count for the same key is refused,
  and other keys are not affected.
\<close>

locale metric_store =
  fixes get :: "'s \<Rightarrow> 'k \<Rightarrow> 'e + 'v option"
    and put :: "'v \<Rightarrow> 's \<Rightarrow> 'e + 's"
    and key :: "'v \<Rightarrow> 'k"
    and valid :: "'v \<Rightarrow> bool"
  assumes put_get: "valid v \<Longrightarrow> put v s = Inr s' \<Longrightarrow> get s' (key v) = Inr (Some v)"
    and put_frame: "put v s = Inr s' \<Longrightarrow> k \<noteq> key v \<Longrightarrow> get s' k = get s k"
    and put_replay: "get s (key v) = Inr (Some v) \<Longrightarrow> put v s = Inr s"
    and put_conflict: "get s (key v) = Inr (Some w) \<Longrightarrow> w \<noteq> v \<Longrightarrow> put v s = Inr s' \<Longrightarrow> False"
begin

lemma put_idempotent:
  assumes "valid v" "put v s = Inr s'"
  shows "put v s' = Inr s'"
  using put_replay[OF put_get[OF assms]] .

lemma put_immutable:
  assumes "get s k = Inr (Some w)" "put v s = Inr s'"
  shows "get s' k = Inr (Some w)"
proof (cases "k = key v")
  case True
  with assms put_conflict have "w = v" by blast
  with True assms put_replay[of s v] show ?thesis by simp
next
  case False
  with put_frame[OF assms(2)] assms(1) show ?thesis by simp
qed

lemma puts_immutable:
  assumes "foldM (\<lambda>s v. put v s) s vs = Inr s'" "get s k = Inr (Some w)"
  shows "get s' k = Inr (Some w)"
  using foldM_invariant[OF assms(1), of "\<lambda>s. get s k = Inr (Some w)"] assms(2) put_immutable
  by blast

lemma puts_readable:
  assumes "foldM (\<lambda>s v. put v s) s vs = Inr s'" "v \<in> set vs" "\<forall>v \<in> set vs. valid v"
  shows "get s' (key v) = Inr (Some v)"
  using assms
proof (induction vs arbitrary: s)
  case (Cons w vs)
  then obtain s1 where s1: "put w s = Inr s1" "foldM (\<lambda>s v. put v s) s1 vs = Inr s'"
    by (auto simp: bind_eq_Inr)
  show ?case
  proof (cases "v = w")
    case True
    with Cons.prems(3) s1(1) have "get s1 (key v) = Inr (Some v)" by (simp add: put_get)
    from puts_immutable[OF s1(2) this] show ?thesis .
  next
    case False
    with Cons.prems s1(2) show ?thesis by (intro Cons.IH) auto
  qed
qed simp

end

definition metric_key :: "token_metric \<Rightarrow> artifact_kind \<times> string \<times> string" where
  "metric_key m = (tm_kind m, tm_artifact m, tm_profile m)"

definition lookup_metric ::
  "env \<Rightarrow> db \<Rightarrow> artifact_kind \<times> string \<times> string \<Rightarrow> repo_error + token_metric option" where
  "lookup_metric env db key = (case key of (kind, a, p) \<Rightarrow> get_metric env db kind a p)"

lemma put_metric_get:
  assumes "tm_count m \<ge> 0" and "put_metric env m t db = Inr db'"
  shows "get_metric env db' (tm_kind m) (tm_artifact m) (tm_profile m) = Inr (Some m)"
  using assms(2)
proof (cases rule: put_metric_cases)
  case fresh
  then show ?thesis
    using assms(1)
    by (auto simp: get_metric_eq_Inr fetchone_append metric_matches_def split: option.splits)
qed simp

lemma put_metric_frame:
  assumes "put_metric env m t db = Inr db'" "(kind, a, p) \<noteq> metric_key m"
  shows "get_metric env db' kind a p = get_metric env db kind a p"
  using assms(1)
proof (cases rule: put_metric_cases)
  case fresh
  with assms(2) show ?thesis
    by (auto simp: get_metric_def fetchone_append metric_matches_def metric_key_def
        split: option.splits)
qed simp

interpretation store: metric_store "lookup_metric env" "\<lambda>m. put_metric env m t" metric_key
  "\<lambda>m. tm_count m \<ge> 0" for env t
proof
  fix v w :: token_metric and s s' :: db and k
  show "tm_count v \<ge> 0 \<Longrightarrow> put_metric env v t s = Inr s' \<Longrightarrow>
      lookup_metric env s' (metric_key v) = Inr (Some v)"
    by (simp add: lookup_metric_def metric_key_def put_metric_get)
  show "put_metric env v t s = Inr s' \<Longrightarrow> k \<noteq> metric_key v \<Longrightarrow>
      lookup_metric env s' k = lookup_metric env s k"
    by (cases k) (simp add: lookup_metric_def put_metric_frame)
  show "lookup_metric env s (metric_key v) = Inr (Some v) \<Longrightarrow> put_metric env v t s = Inr s"
    by (simp add: lookup_metric_def metric_key_def put_metric_def)
  show "lookup_metric env s (metric_key v) = Inr (Some w) \<Longrightarrow> w \<noteq> v \<Longrightarrow>
      put_metric env v t s = Inr s' \<Longrightarrow> False"
    by (simp add: lookup_metric_def metric_key_def put_metric_def)
qed

end
