(* ===== verification/Journal.thy ===== *)
theory Journal
  imports Metrics
begin

text \<open>
  The write side of the journal: session creation and the idempotent capture of one event,
  \<^verbatim>\<open>_ensure_session\<close>, \<^verbatim>\<open>_find_idempotent_event\<close>, \<^verbatim>\<open>_is_exact_replay\<close> and \<^verbatim>\<open>_capture_event\<close> of
  \<^verbatim>\<open>storage/repository.py\<close>, with the three public entry points.
\<close>

section \<open>Operations\<close>

definition session_identity_values :: "session_key \<Rightarrow> (string \<times> string option) list" where
  "session_identity_values k =
     [(''platform_instance_id'', Some (platform_instance_id k)),
      (''message_type'', Some (message_type k)),
      (''session_id'', Some (session_id k)),
      (''group_id'', group_id k),
      (''user_id'', Some (user_id k)),
      (''conversation_id'', Some (conversation_id k)),
      (''persona_id'', persona_id k)]"

definition encrypt_identity ::
  "env \<Rightarrow> string \<Rightarrow> string \<times> string option \<Rightarrow> repo_error + string sealed option" where
  "encrypt_identity env record_key cv = (case cv of (column, value) \<Rightarrow>
     (case value of
        None \<Rightarrow> Inr None
      | Some v \<Rightarrow> bind (encrypt_text env ''sessions'' column record_key v) (\<lambda>c. Inr (Some c))))"

definition ensure_session :: "env \<Rightarrow> session_key \<Rightarrow> int \<Rightarrow> db \<Rightarrow> repo_error + db" where
  "ensure_session env k timestamp db =
     (let h = env_hash env k in
      case find_session db h of
        Some ses \<Rightarrow>
          bind (session_key_from_storage env h (ses_canonical ses)) (\<lambda>stored.
          bind (guard (stored = k) SessionIdentityConflict) (\<lambda>_. Inr db))
      | None \<Rightarrow>
          bind (seal env ''sessions'' ''canonical_session_key_json'' h k) (\<lambda>canonical.
          bind (traverse (encrypt_identity env h) (session_identity_values k)) (\<lambda>identity.
          bind (guard (session_hash_ok h) SessionIdentityConflict) (\<lambda>_.
          let row = \<lparr>ses_hash = h, ses_canonical = canonical, ses_identity = identity,
                     ses_next_sequence = 1, ses_created_at = timestamp,
                     ses_updated_at = timestamp\<rparr>;
              db1 = db\<lparr>db_sessions := db_sessions db @ [row]\<rparr>
          in bind (option_or (find_session db1 h) SessionIdentityConflict) (\<lambda>ses.
             bind (session_key_from_storage env h (ses_canonical ses)) (\<lambda>stored.
             bind (guard (stored = k) SessionIdentityConflict) (\<lambda>_. Inr db1)))))))"

definition find_idempotent_event ::
  "env \<Rightarrow> db \<Rightarrow> session_key \<Rightarrow> source_hook \<Rightarrow> string \<Rightarrow> repo_error + event_envelope option" where
  "find_idempotent_event env db k hook idem =
     (case fetchone (\<lambda>r. er_hash r = env_hash env k \<and> er_hook r = hook \<and> er_idem r = idem)
             (db_events db) of
        None \<Rightarrow> Inr None
      | Some row \<Rightarrow> bind (event_from_row env k row) (\<lambda>e. Inr (Some e)))"

definition is_exact_replay :: "event_envelope \<Rightarrow> event_envelope \<Rightarrow> bool" where
  "is_exact_replay existing requested \<longleftrightarrow>
     ev_id existing = ev_id requested \<and>
     ev_session_key existing = ev_session_key requested \<and>
     ev_type existing = ev_type requested \<and>
     ev_role existing = ev_role requested \<and>
     ev_content existing = ev_content requested \<and>
     ev_source_hook existing = ev_source_hook requested \<and>
     ev_idempotency_key existing = ev_idempotency_key requested \<and>
     ev_token_count existing = ev_token_count requested \<and>
     ev_created_at existing = ev_created_at requested"

text \<open>The arguments of a capture.\<close>

record capture_request =
  req_event_id :: string
  req_session_key :: session_key
  req_type :: event_type
  req_content :: string
  req_idem :: string
  req_tokens :: int
  req_canonical :: canonical_observation
  req_created_at :: datetime

definition request_event :: "capture_request \<Rightarrow> int \<Rightarrow> int \<Rightarrow> repo_error + event_envelope" where
  "request_event req sequence created_at =
     option_or (create_event (req_event_id req) (req_session_key req) sequence (req_type req)
       (req_content req) (req_idem req) (req_tokens req) created_at) ValueError"

text \<open>Sequence allocation, insert and metric of a capture that is not a replay.\<close>

definition allocate_sequence :: "string \<Rightarrow> int \<Rightarrow> int \<Rightarrow> db \<Rightarrow> db" where
  "allocate_sequence h sequence created_at db =
     db\<lparr>db_sessions := update_where (\<lambda>s. ses_hash s = h \<and> ses_next_sequence s = sequence)
        (\<lambda>s. s\<lparr>ses_next_sequence := ses_next_sequence s + 1, ses_updated_at := created_at\<rparr>)
        (db_sessions db)\<rparr>"

definition event_row_of :: "env \<Rightarrow> event_envelope \<Rightarrow> repo_error + event_row" where
  "event_row_of env e =
     bind (encrypt_text env ''journal_events'' ''content'' (ev_id e) (ev_content e)) (\<lambda>content.
     bind (encrypt_non_negative_int env ''journal_events'' ''token_count'' (ev_id e)
             (ev_token_count e)) (\<lambda>tokens.
     Inr \<lparr>er_id = ev_id e, er_hash = env_hash env (ev_session_key e),
          er_sequence = ev_sequence e, er_type = ev_type e, er_role = ev_role e,
          er_content = content, er_hook = ev_source_hook e, er_idem = ev_idempotency_key e,
          er_tokens = tokens, er_created_at = ev_created_at e\<rparr>))"

definition append_event ::
  "env \<Rightarrow> capture_request \<Rightarrow> int \<Rightarrow> db \<Rightarrow> repo_error + event_envelope \<times> db" where
  "append_event env req created_at db =
     (let h = env_hash env (req_session_key req) in
      bind (option_or (find_session db h) SessionIdentityConflict) (\<lambda>ses.
      let sequence = ses_next_sequence ses;
          db1 = allocate_sequence h sequence created_at db
      in bind (inject env ''capture.after_allocate'') (\<lambda>_.
         bind (request_event req sequence created_at) (\<lambda>e.
         bind (inject env ''capture.before_insert'') (\<lambda>_.
         bind (event_row_of env e) (\<lambda>row.
         bind (case insert_event row db1 of Inl _ \<Rightarrow> Inl EventIdentityConflict | Inr d \<Rightarrow> Inr d)
           (\<lambda>db2.
         bind (inject env ''capture.after_insert'') (\<lambda>_.
         bind (record_canonical_observation env h (ev_id e) (req_canonical req) created_at db2)
           (\<lambda>db3.
         bind (inject env ''capture.after_metric'') (\<lambda>_.
         Inr (e, db3)))))))))))"

definition capture_event_body ::
  "env \<Rightarrow> capture_request \<Rightarrow> db \<Rightarrow> repo_error + event_envelope \<times> db" where
  "capture_event_body env req db =
     bind (normalize_datetime (req_created_at req)) (\<lambda>created_at.
     bind (request_event req 1 created_at) (\<lambda>requested.
     bind (ensure_session env (req_session_key req) created_at db) (\<lambda>db1.
     bind (inject env ''capture.after_session'') (\<lambda>_.
     bind (find_idempotent_event env db1 (req_session_key req) (ev_source_hook requested)
             (req_idem req)) (\<lambda>existing.
     case existing of
       Some e \<Rightarrow>
         bind (guard (is_exact_replay e requested) IdempotencyConflict) (\<lambda>_.
         bind (record_canonical_observation env (env_hash env (req_session_key req)) (ev_id e)
                 (req_canonical req) created_at db1) (\<lambda>db2.
         bind (inject env ''capture.after_metric'') (\<lambda>_.
         Inr (e, db2))))
     | None \<Rightarrow> append_event env req created_at db1)))))"

definition capture_event ::
  "env \<Rightarrow> capture_request \<Rightarrow> db \<Rightarrow> (repo_error + event_envelope) \<times> db" where
  "capture_event env req = transaction (capture_event_body env req)"

text \<open>The public entry points fix the event type or restrict it.\<close>

definition capture_user_event ::
  "env \<Rightarrow> capture_request \<Rightarrow> db \<Rightarrow> (repo_error + event_envelope) \<times> db" where
  "capture_user_event env req = capture_event env (req\<lparr>req_type := USER_MESSAGE\<rparr>)"

definition capture_assistant_event ::
  "env \<Rightarrow> capture_request \<Rightarrow> db \<Rightarrow> (repo_error + event_envelope) \<times> db" where
  "capture_assistant_event env req = capture_event env (req\<lparr>req_type := ASSISTANT_MESSAGE\<rparr>)"

definition capture_tool_event ::
  "env \<Rightarrow> capture_request \<Rightarrow> db \<Rightarrow> (repo_error + event_envelope) \<times> db" where
  "capture_tool_event env req db =
     (if req_type req = TOOL_CALL \<or> req_type req = TOOL_RESULT then capture_event env req db
      else (Inl ValueError, db))"

end
