(* ===== verification/Jobs.thy ===== *)
theory Jobs
  imports Journal "HOL-Library.Product_Lexorder"
begin

text \<open>
  The durable compaction-job lane of \<^verbatim>\<open>storage/repository.py\<close>: raising a coalesced intent,
  claiming with a new lease epoch, fenced worker transitions, lease renewal, failure, and
  recovery of expired leases.
\<close>

section \<open>Raising an intent\<close>

definition find_nonterminal :: "db \<Rightarrow> string \<Rightarrow> job_row option" where
  "find_nonterminal db h =
     fetchone (\<lambda>r. jr_hash r = h \<and> is_nonterminal (jr_state r)) (db_jobs db)"

definition fold_intent :: "string \<Rightarrow> int \<Rightarrow> int \<Rightarrow> db \<Rightarrow> repo_error + db" where
  "fold_intent i target now =
     update_jobs (\<lambda>r. jr_id r = i) (\<lambda>r. r\<lparr>jr_intent := target, jr_updated_at := now\<rparr>)"

definition pending_job :: "string \<Rightarrow> string \<Rightarrow> int \<Rightarrow> string option \<Rightarrow> int \<Rightarrow> int \<Rightarrow> job_row" where
  "pending_job i h target base version now =
     \<lparr>jr_id = i, jr_hash = h, jr_state = PENDING, jr_target = target, jr_intent = target,
      jr_base = base, jr_base_version = version, jr_candidate = None, jr_owner = None,
      jr_epoch = 0, jr_expires = None, jr_attempts = 0, jr_retry = None, jr_err_stage = None,
      jr_err_code = None, jr_err_message = None, jr_created_at = now, jr_updated_at = now,
      jr_committed_at = None\<rparr>"

definition raise_compaction_intent_body ::
  "env \<Rightarrow> string \<Rightarrow> session_key \<Rightarrow> int \<Rightarrow> datetime \<Rightarrow> db \<Rightarrow> repo_error + job option \<times> db" where
  "raise_compaction_intent_body env i k target now db =
     bind (guard (py_strip i \<noteq> []) ValueError) (\<lambda>_.
     bind (guard (target \<ge> 1) ValueError) (\<lambda>_.
     bind (normalize_datetime now) (\<lambda>now_t.
     let h = env_hash env k in
     bind (option_or (find_session db h) RepositoryInvariantError) (\<lambda>ses.
     bind (session_key_from_storage env h (ses_canonical ses)) (\<lambda>stored.
     bind (guard (stored = k) SessionIdentityConflict) (\<lambda>_.
     bind (guard (target \<le> ses_next_sequence ses - 1) RepositoryInvariantError) (\<lambda>_.
     bind (active_base db h) (\<lambda>(base, version, covered).
     if target \<le> covered then Inr (None, db)
     else
       (case find_nonterminal db h of
          Some existing \<Rightarrow>
            bind (if target > jr_intent existing
                  then bind (fold_intent (jr_id existing) target now_t db) (\<lambda>db1.
                       bind (inject env ''intent.after_fold'') (\<lambda>_. Inr db1))
                  else Inr db) (\<lambda>db1.
            bind (job_by_id env db1 (jr_id existing)) (\<lambda>j. Inr (Some j, db1)))
        | None \<Rightarrow>
            bind (case insert_job (pending_job i h target base version now_t) db of
                    Inl _ \<Rightarrow> Inl RepositoryConflict | Inr d \<Rightarrow> Inr d) (\<lambda>db1.
            bind (inject env ''intent.after_insert'') (\<lambda>_.
            bind (job_by_id env db1 i) (\<lambda>j. Inr (Some j, db1)))))))))))))"

definition raise_compaction_intent ::
  "env \<Rightarrow> string \<Rightarrow> session_key \<Rightarrow> int \<Rightarrow> datetime \<Rightarrow> db \<Rightarrow> (repo_error + job option) \<times> db" where
  "raise_compaction_intent env i k target now =
     transaction (raise_compaction_intent_body env i k target now)"

section \<open>Claiming\<close>

definition eligible :: "int \<Rightarrow> job_row \<Rightarrow> bool" where
  "eligible now r \<longleftrightarrow> jr_state r = PENDING \<or>
     jr_state r = RETRY_WAIT \<and> (case jr_retry r of None \<Rightarrow> False | Some t \<Rightarrow> t \<le> now)"

definition eligible_rows :: "int \<Rightarrow> db \<Rightarrow> job_row list" where
  "eligible_rows now db =
     sort_key (\<lambda>r. (jr_created_at r, jr_id r)) (filter (eligible now) (db_jobs db))"

definition cancel_row :: "int \<Rightarrow> job_row \<Rightarrow> job_row" where
  "cancel_row now r = r\<lparr>jr_state := CANCELLED, jr_retry := None, jr_updated_at := now\<rparr>"

definition lease_row ::
  "string option \<Rightarrow> int \<Rightarrow> string \<Rightarrow> int \<Rightarrow> int \<Rightarrow> job_row \<Rightarrow> job_row" where
  "lease_row base version worker lease now r =
     r\<lparr>jr_state := LEASED, jr_target := jr_intent r, jr_base := base,
       jr_base_version := version, jr_candidate := None, jr_owner := Some worker,
       jr_epoch := jr_epoch r + 1, jr_expires := Some lease, jr_attempts := jr_attempts r + 1,
       jr_retry := None, jr_err_stage := None, jr_err_code := None, jr_err_message := None,
       jr_updated_at := now, jr_committed_at := None\<rparr>"

text \<open>
  The \<^verbatim>\<open>while True\<close> of \<^verbatim>\<open>claim_job\<close>. Every iteration but the last cancels one eligible job, so
  one more iteration than there are eligible jobs is enough; \<open>None\<close> is ``still running''.
\<close>

fun claim_loop ::
  "nat \<Rightarrow> env \<Rightarrow> string \<Rightarrow> int \<Rightarrow> int \<Rightarrow> db \<Rightarrow> (repo_error + job option \<times> db) option" where
  "claim_loop 0 env worker now lease db = None"
| "claim_loop (Suc n) env worker now lease db =
     (case eligible_rows now db of
        [] \<Rightarrow> Some (Inr (None, db))
      | row # _ \<Rightarrow>
          (case active_base db (jr_hash row) of
             Inl e \<Rightarrow> Some (Inl e)
           | Inr (base, version, covered) \<Rightarrow>
               if jr_intent row \<le> covered then
                 (case update_jobs (\<lambda>r. jr_id r = jr_id row) (cancel_row now) db of
                    Inl e \<Rightarrow> Some (Inl e)
                  | Inr db1 \<Rightarrow> claim_loop n env worker now lease db1)
               else
                 (let p = (\<lambda>r. jr_id r = jr_id row \<and> eligible now r) in
                  case update_jobs p (lease_row base version worker lease now) db of
                    Inl e \<Rightarrow> Some (Inl e)
                  | Inr db1 \<Rightarrow>
                      if rowcount p (db_jobs db) \<noteq> 1 then claim_loop n env worker now lease db1
                      else Some (bind (inject env ''claim.after_update'') (\<lambda>_.
                                 bind (job_by_id env db1 (jr_id row)) (\<lambda>j.
                                 Inr (Some j, db1)))))))"

definition claim_fuel :: "int \<Rightarrow> db \<Rightarrow> nat" where
  "claim_fuel now db = Suc (length (filter (eligible now) (db_jobs db)))"

definition claim_job_body ::
  "env \<Rightarrow> string \<Rightarrow> datetime \<Rightarrow> datetime \<Rightarrow> db \<Rightarrow> (repo_error + job option \<times> db) option" where
  "claim_job_body env worker now lease db =
     (case bind (guard (py_strip worker \<noteq> []) ValueError) (\<lambda>_.
           bind (normalize_datetime now) (\<lambda>now_t.
           bind (normalize_datetime lease) (\<lambda>lease_t.
           bind (guard (now_t < lease_t) ValueError) (\<lambda>_. Inr (now_t, lease_t))))) of
        Inl e \<Rightarrow> Some (Inl e)
      | Inr (now_t, lease_t) \<Rightarrow> claim_loop (claim_fuel now_t db) env worker now_t lease_t db)"

text \<open>The transaction around the loop; \<open>None\<close> would be a claim that never returns.\<close>

definition claim_job ::
  "env \<Rightarrow> string \<Rightarrow> datetime \<Rightarrow> datetime \<Rightarrow> db \<Rightarrow> ((repo_error + job option) \<times> db) option" where
  "claim_job env worker now lease db =
     map_option (\<lambda>r. transaction (\<lambda>_. r) db) (claim_job_body env worker now lease db)"

section \<open>Fenced worker mutations\<close>

fun allowed_worker_transitions :: "job_state \<Rightarrow> job_state list" where
  "allowed_worker_transitions LEASED = [COMPILING]"
| "allowed_worker_transitions COMPILING = [AUDITING, READY_TO_COMMIT]"
| "allowed_worker_transitions AUDITING = [READY_TO_COMMIT]"
| "allowed_worker_transitions _ = []"

text \<open>The \<^verbatim>\<open>WHERE\<close> clause shared by the fenced updates.\<close>

definition fence_where :: "string \<Rightarrow> string \<Rightarrow> int \<Rightarrow> int \<Rightarrow> job_row \<Rightarrow> bool" where
  "fence_where i owner epoch now r \<longleftrightarrow>
     jr_id r = i \<and> jr_owner r = Some owner \<and> jr_epoch r = epoch \<and>
     (case jr_expires r of None \<Rightarrow> False | Some t \<Rightarrow> t > now)"

definition fenced_update ::
  "string \<Rightarrow> string \<Rightarrow> int \<Rightarrow> int \<Rightarrow> (job_row \<Rightarrow> job_row) \<Rightarrow> db \<Rightarrow> repo_error + db" where
  "fenced_update i owner epoch now f db =
     bind (update_jobs (fence_where i owner epoch now) f db) (\<lambda>db1.
     bind (guard (rowcount (fence_where i owner epoch now) (db_jobs db) = 1) StaleLeaseError)
       (\<lambda>_. Inr db1))"

definition transition_job_body ::
  "env \<Rightarrow> string \<Rightarrow> string \<Rightarrow> int \<Rightarrow> job_state \<Rightarrow> datetime \<Rightarrow> string option \<Rightarrow> db
   \<Rightarrow> repo_error + job \<times> db" where
  "transition_job_body env i owner epoch to_state now candidate db =
     bind (normalize_datetime now) (\<lambda>now_t.
     bind (require_live_fence db i owner epoch now_t) (\<lambda>row.
     bind (guard (to_state \<in> set (allowed_worker_transitions (jr_state row)))
             JobTransitionError) (\<lambda>_.
     bind (guard (if to_state = READY_TO_COMMIT
                  then (case candidate of None \<Rightarrow> False | Some c \<Rightarrow> py_strip c \<noteq> [])
                  else candidate = None) JobTransitionError) (\<lambda>_.
     bind (fenced_update i owner epoch now_t
             (\<lambda>r. r\<lparr>jr_state := to_state, jr_candidate := candidate, jr_updated_at := now_t\<rparr>)
             db) (\<lambda>db1.
     bind (inject env ''transition.after_update'') (\<lambda>_.
     bind (job_by_id env db1 i) (\<lambda>j. Inr (j, db1))))))))"

definition transition_job ::
  "env \<Rightarrow> string \<Rightarrow> string \<Rightarrow> int \<Rightarrow> job_state \<Rightarrow> datetime \<Rightarrow> string option \<Rightarrow> db
   \<Rightarrow> (repo_error + job) \<times> db" where
  "transition_job env i owner epoch to_state now candidate =
     transaction (transition_job_body env i owner epoch to_state now candidate)"

definition renew_job_lease_body ::
  "env \<Rightarrow> string \<Rightarrow> string \<Rightarrow> int \<Rightarrow> datetime \<Rightarrow> datetime \<Rightarrow> db \<Rightarrow> repo_error + job \<times> db" where
  "renew_job_lease_body env i owner epoch now lease db =
     bind (normalize_datetime now) (\<lambda>now_t.
     bind (normalize_datetime lease) (\<lambda>lease_t.
     bind (guard (now_t < lease_t) ValueError) (\<lambda>_.
     bind (require_live_fence db i owner epoch now_t) (\<lambda>row.
     bind (guard (case jr_expires row of None \<Rightarrow> False | Some t \<Rightarrow> t < lease_t)
             JobTransitionError) (\<lambda>_.
     bind (fenced_update i owner epoch now_t
             (\<lambda>r. r\<lparr>jr_expires := Some lease_t, jr_updated_at := now_t\<rparr>) db) (\<lambda>db1.
     bind (inject env ''lease.after_renew'') (\<lambda>_.
     bind (job_by_id env db1 i) (\<lambda>j. Inr (j, db1)))))))))"

definition renew_job_lease ::
  "env \<Rightarrow> string \<Rightarrow> string \<Rightarrow> int \<Rightarrow> datetime \<Rightarrow> datetime \<Rightarrow> db \<Rightarrow> (repo_error + job) \<times> db" where
  "renew_job_lease env i owner epoch now lease =
     transaction (renew_job_lease_body env i owner epoch now lease)"

record failure =
  fail_stage :: string
  fail_code :: string
  fail_message :: string
  fail_retry_at :: "datetime option"
  fail_preserve_attempt :: bool

definition transient_codes :: "string list" where
  "transient_codes =
     [''EXTRACTIVE_PROVIDER_UNAVAILABLE'', ''TOKEN_METRIC_MISSING'', ''TOKEN_METRIC_UNAVAILABLE'']"

definition valid_failure :: "failure \<Rightarrow> bool" where
  "valid_failure f \<longleftrightarrow>
     py_strip (fail_stage f) \<noteq> [] \<and> py_strip (fail_code f) \<noteq> [] \<and> py_strip (fail_message f) \<noteq> [] \<and>
     length (fail_message f) \<le> 512 \<and>
     (\<forall>c \<in> set (fail_message f). c \<noteq> CHR 0x0D \<and> c \<noteq> CHR 0x0A \<and> c \<noteq> CHR 0x00) \<and>
     (fail_preserve_attempt f \<longrightarrow>
        fail_retry_at f \<noteq> None \<and> fail_stage f = ''COMPILING'' \<and>
        fail_code f \<in> set transient_codes)"

definition fail_row :: "failure \<Rightarrow> int option \<Rightarrow> int \<Rightarrow> job_row \<Rightarrow> job_row" where
  "fail_row f retry now r =
     r\<lparr>jr_state := (if retry = None then FAILED else RETRY_WAIT), jr_candidate := None,
       jr_owner := None, jr_expires := None,
       jr_attempts := (if fail_preserve_attempt f then max (jr_attempts r - 1) 0
                       else jr_attempts r),
       jr_retry := retry, jr_err_stage := Some (fail_stage f), jr_err_code := Some (fail_code f),
       jr_err_message := Some (fail_message f), jr_updated_at := now, jr_committed_at := None\<rparr>"

definition fail_job_body ::
  "env \<Rightarrow> string \<Rightarrow> string \<Rightarrow> int \<Rightarrow> datetime \<Rightarrow> failure \<Rightarrow> db \<Rightarrow> repo_error + job \<times> db" where
  "fail_job_body env i owner epoch now f db =
     bind (guard (valid_failure f) ValueError) (\<lambda>_.
     bind (normalize_datetime now) (\<lambda>now_t.
     bind (case fail_retry_at f of
             None \<Rightarrow> Inr None
           | Some d \<Rightarrow> bind (normalize_datetime d) (\<lambda>t.
                       bind (guard (now_t < t) ValueError) (\<lambda>_. Inr (Some t)))) (\<lambda>retry.
     bind (require_live_fence db i owner epoch now_t) (\<lambda>_.
     bind (fenced_update i owner epoch now_t (fail_row f retry now_t) db) (\<lambda>db1.
     bind (inject env ''failure.after_update'') (\<lambda>_.
     bind (job_by_id env db1 i) (\<lambda>j. Inr (j, db1))))))))"

definition fail_job ::
  "env \<Rightarrow> string \<Rightarrow> string \<Rightarrow> int \<Rightarrow> datetime \<Rightarrow> failure \<Rightarrow> db \<Rightarrow> (repo_error + job) \<times> db" where
  "fail_job env i owner epoch now f = transaction (fail_job_body env i owner epoch now f)"

section \<open>Recovery of expired leases\<close>

definition expired :: "int \<Rightarrow> job_row \<Rightarrow> bool" where
  "expired now r \<longleftrightarrow> jr_state r \<in> set WORKING_STATES \<and>
     (case jr_expires r of None \<Rightarrow> False | Some t \<Rightarrow> t \<le> now)"

definition recover_row :: "int \<Rightarrow> job_row \<Rightarrow> job_row" where
  "recover_row now r =
     r\<lparr>jr_state := PENDING, jr_candidate := None, jr_owner := None, jr_expires := None,
       jr_retry := None, jr_updated_at := now, jr_committed_at := None\<rparr>"

definition recover_one ::
  "env \<Rightarrow> int \<Rightarrow> string list \<times> db \<Rightarrow> string \<Rightarrow> repo_error + string list \<times> db" where
  "recover_one env now acc i = (case acc of (ids, db) \<Rightarrow>
     (let p = (\<lambda>r. jr_id r = i \<and> expired now r) in
      bind (update_jobs p (recover_row now) db) (\<lambda>db1.
      if rowcount p (db_jobs db) \<noteq> 1 then Inr (ids, db1)
      else bind (inject env ''recovery.after_update'') (\<lambda>_. Inr (ids @ [i], db1)))))"

definition expired_ids :: "int \<Rightarrow> db \<Rightarrow> string list" where
  "expired_ids now db =
     map jr_id (sort_key (\<lambda>r. (jr_created_at r, jr_id r)) (filter (expired now) (db_jobs db)))"

definition recover_expired_leases_body :: "env \<Rightarrow> datetime \<Rightarrow> db \<Rightarrow> repo_error + job list \<times> db" where
  "recover_expired_leases_body env now db =
     bind (normalize_datetime now) (\<lambda>now_t.
     bind (foldM (recover_one env now_t) ([], db) (expired_ids now_t db)) (\<lambda>(ids, db1).
     bind (traverse (job_by_id env db1) ids) (\<lambda>jobs. Inr (jobs, db1))))"

definition recover_expired_leases :: "env \<Rightarrow> datetime \<Rightarrow> db \<Rightarrow> (repo_error + job list) \<times> db" where
  "recover_expired_leases env now = transaction (recover_expired_leases_body env now)"

end
