(* ===== verification/Publication.thy ===== *)
theory Publication
  imports Jobs
begin

text \<open>
  \<^verbatim>\<open>TX_PUBLISH_SNAPSHOT\<close> of \<^verbatim>\<open>storage/repository.py\<close>: validation of a candidate under the live
  fence, savepoint-isolated insertion of its capsules, snapshot, membership, ledger and
  metrics, the compare-and-swap of the active pointer, the fenced terminal transition of the
  job and the preservation of a higher intent. The record checks of
  \<^verbatim>\<open>reorganization.py\<close> that publication relies on are here as well.
\<close>

section \<open>Reorganization records\<close>

record reorganization_record =
  rr_kind :: string
  rr_item :: string
  rr_source_capsule :: string
  rr_status :: reorganization_status
  rr_before :: int
  rr_after :: int
  rr_required :: bool

definition reorganization_record_ok :: "reorganization_record \<Rightarrow> bool" where
  "reorganization_record_ok r \<longleftrightarrow>
     py_strip (rr_kind r) \<noteq> [] \<and> py_strip (rr_item r) \<noteq> [] \<and>
     py_strip (rr_source_capsule r) \<noteq> [] \<and> rr_before r \<ge> 0 \<and> rr_after r \<ge> 0 \<and>
     (rr_required r \<longrightarrow> rr_status r = RETAINED)"

definition source_item_key :: "reorganization_record \<Rightarrow> string \<times> string \<times> string" where
  "source_item_key r = (rr_source_capsule r, rr_kind r, rr_item r)"

fun canonicalize_records ::
  "(string \<times> string \<times> string) list \<Rightarrow> reorganization_record list
   \<Rightarrow> repo_error + reorganization_record list" where
  "canonicalize_records seen [] = Inr []"
| "canonicalize_records seen (r # rs) =
     bind (guard (reorganization_record_ok r) RepositoryInvariantError) (\<lambda>_.
     bind (guard (source_item_key r \<notin> set seen) RepositoryInvariantError) (\<lambda>_.
     bind (canonicalize_records (source_item_key r # seen) rs) (\<lambda>out. Inr (r # out))))"

definition canonicalize_reorganization_records ::
  "reorganization_record list \<Rightarrow> repo_error + reorganization_record list" where
  "canonicalize_reorganization_records rs = canonicalize_records [] rs"

definition apply_quality_floor :: "report \<Rightarrow> reorganization_record list \<Rightarrow> report" where
  "apply_quality_floor rep rs =
     (let n = length (filter (\<lambda>r. rr_status r = RELEASED \<and> rr_kind r \<noteq> ''narrative_summary'') rs)
      in if n = 0 then rep
         else rep\<lparr>rep_passed := False,
                  rep_failure_codes := filter (\<lambda>c. c \<in> set (rep_failure_codes rep) \<or>
                     c = QUALITY_COVERAGE_GAP) all_failure_codes,
                  rep_coverage_gap := max (rep_coverage_gap rep) (int n)\<rparr>)"

section \<open>Candidate checks\<close>

record publication =
  pub_snapshot :: snapshot
  pub_memberships :: "membership list"
  pub_metrics :: "token_metric list option"
  pub_records :: "reorganization_record list"
  pub_token_ceiling :: int

definition validate_candidate_memberships :: "snapshot \<Rightarrow> membership list \<Rightarrow> repo_error + unit" where
  "validate_candidate_memberships s ms =
     guard (ms \<noteq> [] \<and> map mem_ordinal ms = range_list 0 (int (length ms)) \<and>
            (\<forall>m \<in> set ms. py_strip (mem_slot m) \<noteq> []) \<and>
            distinct (map mem_capsule_id ms) \<and>
            snap_capsule_ids s = map mem_capsule_id ms) RepositoryInvariantError"

definition validate_candidate_metrics ::
  "snapshot \<Rightarrow> membership list \<Rightarrow> token_metric list \<Rightarrow> repo_error + unit" where
  "validate_candidate_metrics s ms metrics =
     (let expected = remdups (map (\<lambda>m. (CAPSULE_ARTIFACT, mem_capsule_id m)) ms @
                              [(SNAPSHOT_ARTIFACT, snap_id s)]);
          actual = map (\<lambda>t. (tm_kind t, tm_artifact t)) metrics;
          profiles = remdups (map tm_profile metrics)
      in guard (length metrics = length expected \<and> set actual = set expected \<and>
                length profiles = 1) RepositoryInvariantError)"

section \<open>Writes inside the savepoint\<close>

definition capsule_row_of :: "env \<Rightarrow> capsule \<Rightarrow> repo_error + capsule_row" where
  "capsule_row_of env c =
     bind (seal env ''capsules'' ''canonical_capsule_json'' (cap_id c) c) (\<lambda>json.
     bind (encrypt_non_negative_int env ''capsules'' ''token_cost'' (cap_id c) (cap_token_cost c))
       (\<lambda>tokens.
     Inr \<lparr>cr_id = cap_id c, cr_hash = env_hash env (cap_session_key c), cr_level = cap_level c,
          cr_start = cap_covered_event_start c, cr_end = cap_covered_event_end c,
          cr_json = json, cr_tokens = tokens,
          cr_source_coverage = q_source_coverage (cap_quality c),
          cr_created_at = cap_created_at c\<rparr>))"

definition insert_or_verify_capsule :: "env \<Rightarrow> capsule \<Rightarrow> db \<Rightarrow> repo_error + db" where
  "insert_or_verify_capsule env c db =
     (case fetchone (\<lambda>r. cr_id r = cap_id c) (db_capsules db) of
        Some row \<Rightarrow>
          bind (unseal env ''capsules'' ''canonical_capsule_json'' (cap_id c) (cr_json row))
            (\<lambda>stored.
          bind (decrypt_non_negative_int env ''capsules'' ''token_cost'' (cap_id c)
                  (cr_tokens row)) (\<lambda>tokens.
          bind (guard (cr_hash row = env_hash env (cap_session_key c) \<and>
                       cr_level row = cap_level c \<and>
                       cr_start row = cap_covered_event_start c \<and>
                       cr_end row = cap_covered_event_end c \<and> stored = c \<and>
                       tokens = cap_token_cost c \<and>
                       cr_source_coverage row = q_source_coverage (cap_quality c) \<and>
                       cr_created_at row = cap_created_at c) IntegrityError) (\<lambda>_. Inr db)))
      | None \<Rightarrow> bind (capsule_row_of env c) (\<lambda>row. insert_capsule row db))"

definition snapshot_row_of :: "env \<Rightarrow> snapshot \<Rightarrow> repo_error + snapshot_row" where
  "snapshot_row_of env s =
     bind (option_or (snap_committed_at s) RepositoryInvariantError) (\<lambda>committed_at.
     bind (seal env ''snapshots'' ''exact_anchor_ids_json'' (snap_id s) (snap_exact_anchor_ids s))
       (\<lambda>anchors.
     bind (encrypt_text env ''snapshots'' ''rendered_context'' (snap_id s)
             (snap_rendered_context s)) (\<lambda>rendered.
     bind (encrypt_non_negative_int env ''snapshots'' ''token_cost'' (snap_id s)
             (snap_token_cost s)) (\<lambda>tokens.
     bind (seal env ''snapshots'' ''audit_outcome'' (snap_id s) (snap_audit_outcome s)) (\<lambda>audit.
     Inr \<lparr>nr_id = snap_id s, nr_hash = env_hash env (snap_session_key s),
          nr_base = snap_base_snapshot_id s, nr_covered_end = snap_covered_event_end s,
          nr_source_hwm = snap_source_high_water_mark s, nr_anchor_ids = anchors,
          nr_rendered = rendered, nr_tokens = tokens, nr_audit = audit,
          nr_state = SNAPSHOT_COMMITTED, nr_created_at = snap_created_at s,
          nr_committed_at = committed_at\<rparr>)))))"

definition insert_committed_snapshot :: "env \<Rightarrow> snapshot \<Rightarrow> db \<Rightarrow> repo_error + db" where
  "insert_committed_snapshot env s db =
     bind (snapshot_row_of env s) (\<lambda>row. insert_snapshot row db)"

text \<open>\<^verbatim>\<open>except sqlite3.IntegrityError: conflict = True\<close>: \<open>None\<close> is the conflict.\<close>

definition catch_integrity :: "repo_error + 'a \<Rightarrow> repo_error + 'a option" where
  "catch_integrity m =
     (case m of Inr d \<Rightarrow> Inr (Some d)
      | Inl e \<Rightarrow> (if e = IntegrityError then Inr None else Inl e))"

definition bind_staged ::
  "repo_error + 'a option \<Rightarrow> ('a \<Rightarrow> repo_error + 'b option) \<Rightarrow> repo_error + 'b option" where
  "bind_staged m f = bind m (\<lambda>r. case r of None \<Rightarrow> Inr None | Some d \<Rightarrow> f d)"

fun stage_capsules :: "env \<Rightarrow> membership list \<Rightarrow> db \<Rightarrow> repo_error + db option" where
  "stage_capsules env [] db = Inr (Some db)"
| "stage_capsules env (m # ms) db =
     bind_staged (catch_integrity (insert_or_verify_capsule env (mem_capsule m) db)) (\<lambda>db1.
     bind (inject env ''publish.after_capsule'') (\<lambda>_. stage_capsules env ms db1))"

fun stage_memberships :: "env \<Rightarrow> string \<Rightarrow> membership list \<Rightarrow> db \<Rightarrow> repo_error + db option" where
  "stage_memberships env sid [] db = Inr (Some db)"
| "stage_memberships env sid (m # ms) db =
     bind_staged (catch_integrity (insert_membership
       \<lparr>mr_snapshot = sid, mr_ordinal = mem_ordinal m, mr_capsule = mem_capsule_id m,
        mr_slot = mem_slot m\<rparr> db)) (\<lambda>db1.
     bind (inject env ''publish.after_membership'') (\<lambda>_. stage_memberships env sid ms db1))"

fun write_ledger :: "env \<Rightarrow> string \<Rightarrow> int \<Rightarrow> reorganization_record list \<Rightarrow> db \<Rightarrow> repo_error + db" where
  "write_ledger env sid n [] db = Inr db"
| "write_ledger env sid n (r # rs) db =
     bind (insert_ledger \<lparr>lr_snapshot = sid, lr_ordinal = n, lr_source_capsule = rr_source_capsule r,
             lr_kind = rr_kind r, lr_item = rr_item r, lr_status = rr_status r,
             lr_before = rr_before r, lr_after = rr_after r,
             lr_required = (if rr_required r then 1 else 0)\<rparr> db) (\<lambda>db1.
     bind (inject env ''publish.after_ledger'') (\<lambda>_. write_ledger env sid (n + 1) rs db1))"

definition write_publish_metric :: "env \<Rightarrow> int \<Rightarrow> db \<Rightarrow> token_metric \<Rightarrow> repo_error + db" where
  "write_publish_metric env now db m =
     bind (put_metric env m now db) (\<lambda>db1.
     let db2 = delete_intent (tm_kind m) (tm_artifact m) (tm_profile m) db1 in
     bind (inject env ''publish.after_metric'') (\<lambda>_. Inr db2))"

section \<open>Pointer, terminal transition, follow-up\<close>

definition cas_active_pointer :: "env \<Rightarrow> job \<Rightarrow> snapshot \<Rightarrow> int \<Rightarrow> db \<Rightarrow> repo_error + bool \<times> db" where
  "cas_active_pointer env j s now db =
     (let h = env_hash env (job_session_key j) in
      case job_base_snapshot_id j of
        None \<Rightarrow>
          if \<exists>p \<in> set (db_pointers db). pr_hash p = h then Inr (False, db)
          else bind (write_pointers (db_pointers db @
                 [\<lparr>pr_hash = h, pr_snapshot = snap_id s, pr_version = 1, pr_updated_at = now\<rparr>]) db)
               (\<lambda>db1. Inr (True, db1))
      | Some b \<Rightarrow>
          (let p = (\<lambda>r. pr_hash r = h \<and> pr_snapshot r = b \<and>
                        pr_version r = job_base_pointer_version j) in
           bind (write_pointers (update_where p (\<lambda>r. r\<lparr>pr_snapshot := snap_id s,
                   pr_version := pr_version r + 1, pr_updated_at := now\<rparr>) (db_pointers db)) db)
             (\<lambda>db1. Inr (rowcount p (db_pointers db) = 1, db1))))"

datatype publish_outcome = OUTCOME_COMMITTED | OUTCOME_SUPERSEDED

definition finish_where :: "job \<Rightarrow> string \<Rightarrow> int \<Rightarrow> int \<Rightarrow> job_row \<Rightarrow> bool" where
  "finish_where j owner epoch now r \<longleftrightarrow>
     jr_id r = job_id j \<and> jr_state r = READY_TO_COMMIT \<and>
     (jr_candidate r = job_candidate_snapshot_id j \<and> jr_candidate r \<noteq> None) \<and>
     jr_owner r = Some owner \<and> jr_epoch r = epoch \<and>
     (case jr_expires r of None \<Rightarrow> False | Some t \<Rightarrow> t > now)"

definition finish_row :: "publish_outcome \<Rightarrow> int \<Rightarrow> job_row \<Rightarrow> job_row" where
  "finish_row outcome now r =
     r\<lparr>jr_state := (if outcome = OUTCOME_COMMITTED then COMMITTED else SUPERSEDED),
       jr_owner := None, jr_expires := None, jr_retry := None, jr_updated_at := now,
       jr_committed_at := (if outcome = OUTCOME_COMMITTED then Some now else None)\<rparr>"

definition finish_publish_job ::
  "env \<Rightarrow> job \<Rightarrow> string \<Rightarrow> int \<Rightarrow> int \<Rightarrow> publish_outcome \<Rightarrow> db \<Rightarrow> repo_error + job \<times> db" where
  "finish_publish_job env j owner epoch now outcome db =
     bind (update_jobs (finish_where j owner epoch now) (finish_row outcome now) db) (\<lambda>db1.
     bind (guard (rowcount (finish_where j owner epoch now) (db_jobs db) = 1) StaleLeaseError)
       (\<lambda>_.
     bind (job_by_id env db1 (job_id j)) (\<lambda>j'. Inr (j', db1))))"

definition follow_up_id :: "env \<Rightarrow> string \<Rightarrow> string \<Rightarrow> int \<Rightarrow> int \<Rightarrow> string" where
  "follow_up_id env jid sid version intent =
     ''followup-'' @ take 32 (env_sha256 env
       (jid @ [CHR 0x00] @ sid @ [CHR 0x00] @ show_int version @ [CHR 0x00] @ show_int intent))"

definition preserve_follow_up ::
  "env \<Rightarrow> job \<Rightarrow> snapshot \<Rightarrow> int \<Rightarrow> int \<Rightarrow> db \<Rightarrow> repo_error + db" where
  "preserve_follow_up env terminal winner version now db =
     (let intent = job_intent_target_hwm terminal;
          h = env_hash env (job_session_key terminal)
      in if intent \<le> snap_covered_event_end winner then Inr db
         else
           (case find_nonterminal db h of
              Some existing \<Rightarrow>
                if intent > jr_intent existing then fold_intent (jr_id existing) intent now db
                else Inr db
            | None \<Rightarrow>
                insert_job (pending_job
                  (follow_up_id env (job_id terminal) (snap_id winner) version intent)
                  h intent (Some (snap_id winner)) version now) db))"

section \<open>The transaction\<close>

record publish_result =
  res_outcome :: publish_outcome
  res_job :: job
  res_winner :: snapshot
  res_pointer_version :: int

definition committed_form :: "snapshot \<Rightarrow> int \<Rightarrow> snapshot" where
  "committed_form s now = s\<lparr>snap_state := SNAPSHOT_COMMITTED, snap_committed_at := Some now\<rparr>"

text \<open>Everything between the fence and the savepoint: the checks and the permanent gate.\<close>

definition publish_gate_input ::
  "job \<Rightarrow> publication \<Rightarrow> snapshot option \<Rightarrow> membership list \<Rightarrow> event_envelope list \<Rightarrow> gate_input" where
  "publish_gate_input j pub prev prev_ms events =
     \<lparr>g_previous_snapshot = prev, g_previous_capsules = map mem_capsule prev_ms,
      g_snapshot = pub_snapshot pub, g_capsules = map mem_capsule (pub_memberships pub),
      g_events = events, g_target = job_target_hwm j,
      g_token_ceiling = pub_token_ceiling pub\<rparr>"

definition publish_checks ::
  "env \<Rightarrow> string \<Rightarrow> string \<Rightarrow> int \<Rightarrow> int \<Rightarrow> publication \<Rightarrow> db
   \<Rightarrow> repo_error + job \<times> snapshot \<times> reorganization_record list" where
  "publish_checks env i owner epoch now pub db =
     bind (require_live_fence db i owner epoch now) (\<lambda>row.
     bind (guard (jr_state row = READY_TO_COMMIT) JobTransitionError) (\<lambda>_.
     bind (guard (jr_candidate row = Some (snap_id (pub_snapshot pub))) JobTransitionError) (\<lambda>_.
     bind (guard (snap_state (pub_snapshot pub) = CANDIDATE) JobTransitionError) (\<lambda>_.
     bind (job_by_id env db i) (\<lambda>j.
     bind (guard (snap_session_key (pub_snapshot pub) = job_session_key j) JobTransitionError) (\<lambda>_.
     bind (validate_candidate_memberships (pub_snapshot pub) (pub_memberships pub)) (\<lambda>_.
     bind (canonicalize_reorganization_records (pub_records pub)) (\<lambda>records.
     bind (case pub_metrics pub of None \<Rightarrow> Inr ()
           | Some ms \<Rightarrow>
               validate_candidate_metrics (pub_snapshot pub) (pub_memberships pub) ms) (\<lambda>_.
     bind (case job_base_snapshot_id j of
             None \<Rightarrow> Inr (None, [])
           | Some b \<Rightarrow> bind (snapshot_bundle_by_id env db b (job_session_key j))
                         (\<lambda>(s, ms). Inr (Some s, ms))) (\<lambda>(prev, prev_ms).
     bind (events_between env db (job_session_key j)
             (case prev of None \<Rightarrow> 0 | Some s \<Rightarrow> snap_covered_event_end s)
             (job_target_hwm j)) (\<lambda>events.
     let rep = apply_quality_floor
                 (validate_permanent (publish_gate_input j pub prev prev_ms events)) records
     in bind (guard (rep_passed rep) (PublicationRejected rep)) (\<lambda>_.
        let committed = committed_form (pub_snapshot pub) now
        in bind (guard (valid_snapshot committed) ValueError) (\<lambda>_.
           Inr (j, committed, records))))))))))))))"

text \<open>The body of the savepoint; \<open>None\<close> is a conflict, whose writes are discarded.\<close>

definition stage_candidate ::
  "env \<Rightarrow> job \<Rightarrow> snapshot \<Rightarrow> reorganization_record list \<Rightarrow> publication \<Rightarrow> int \<Rightarrow> db
   \<Rightarrow> repo_error + db option" where
  "stage_candidate env j committed records pub now db =
     bind_staged (stage_capsules env (pub_memberships pub) db) (\<lambda>db1.
     bind_staged (catch_integrity (insert_committed_snapshot env committed db1)) (\<lambda>db2.
     bind (inject env ''publish.after_snapshot'') (\<lambda>_.
     bind_staged (stage_memberships env (snap_id committed) (pub_memberships pub) db2) (\<lambda>db3.
     bind (write_ledger env (snap_id committed) 0 records db3) (\<lambda>db4.
     bind (case pub_metrics pub of None \<Rightarrow> Inr db4
           | Some ms \<Rightarrow> foldM (write_publish_metric env now) db4 ms) (\<lambda>db5.
     bind (cas_active_pointer env j committed now db5) (\<lambda>(won, db6).
     Inr (if won then Some db6 else None))))))))"

definition publish_superseded ::
  "env \<Rightarrow> job \<Rightarrow> string \<Rightarrow> int \<Rightarrow> int \<Rightarrow> db \<Rightarrow> repo_error + publish_result \<times> db" where
  "publish_superseded env j owner epoch now db =
     bind (finish_publish_job env j owner epoch now OUTCOME_SUPERSEDED db) (\<lambda>(superseded, db1).
     bind (inject env ''publish.after_terminal'') (\<lambda>_.
     bind (active_snapshot_bundle env db1 (job_session_key j)) (\<lambda>(winner, version, _).
     bind (preserve_follow_up env superseded winner version now db1) (\<lambda>db2.
     bind (inject env ''publish.after_follow_up'') (\<lambda>_.
     Inr (\<lparr>res_outcome = OUTCOME_SUPERSEDED, res_job = superseded, res_winner = winner,
           res_pointer_version = version\<rparr>, db2))))))"

definition publish_committed ::
  "env \<Rightarrow> job \<Rightarrow> snapshot \<Rightarrow> string \<Rightarrow> int \<Rightarrow> int \<Rightarrow> db \<Rightarrow> repo_error + publish_result \<times> db" where
  "publish_committed env j committed owner epoch now db =
     (let version = job_base_pointer_version j + 1 in
      bind (inject env ''publish.after_pointer'') (\<lambda>_.
      bind (finish_publish_job env j owner epoch now OUTCOME_COMMITTED db) (\<lambda>(done, db1).
      bind (inject env ''publish.after_terminal'') (\<lambda>_.
      bind (preserve_follow_up env done committed version now db1) (\<lambda>db2.
      bind (inject env ''publish.after_follow_up'') (\<lambda>_.
      Inr (\<lparr>res_outcome = OUTCOME_COMMITTED, res_job = done, res_winner = committed,
            res_pointer_version = version\<rparr>, db2)))))))"

definition publish_snapshot_body ::
  "env \<Rightarrow> string \<Rightarrow> string \<Rightarrow> int \<Rightarrow> datetime \<Rightarrow> publication \<Rightarrow> db
   \<Rightarrow> repo_error + publish_result \<times> db" where
  "publish_snapshot_body env i owner epoch now pub db =
     bind (guard (pub_token_ceiling pub \<ge> 0) ValueError) (\<lambda>_.
     bind (normalize_datetime now) (\<lambda>now_t.
     bind (publish_checks env i owner epoch now_t pub db) (\<lambda>(j, committed, records).
     bind (inject env ''publish.before_savepoint'') (\<lambda>_.
     bind (stage_candidate env j committed records pub now_t db) (\<lambda>staged.
     case staged of
       None \<Rightarrow> publish_superseded env j owner epoch now_t db
     | Some db1 \<Rightarrow> publish_committed env j committed owner epoch now_t db1)))))"

definition publish_snapshot ::
  "env \<Rightarrow> string \<Rightarrow> string \<Rightarrow> int \<Rightarrow> datetime \<Rightarrow> publication \<Rightarrow> db
   \<Rightarrow> (repo_error + publish_result) \<times> db" where
  "publish_snapshot env i owner epoch now pub =
     transaction (publish_snapshot_body env i owner epoch now pub)"

end
