(* ===== verification/Repo_Invariant.thy ===== *)
theory Repo_Invariant
  imports Publication
begin

text \<open>
  The durable invariant of the repository database and what it gives the readers: stored
  identities decode, the journal of every session is contiguous from one to its high-water
  mark, every committed snapshot can be read back with its ordered capsules, the active
  pointer and every job refer to rows of their own session, and at most one job per session
  is not terminal.
\<close>

section \<open>Definition\<close>

definition stored_key :: "db \<Rightarrow> string \<Rightarrow> session_key option" where
  "stored_key db h = map_option (sealed_plain \<circ> ses_canonical) (find_session db h)"

definition high_water :: "db \<Rightarrow> string \<Rightarrow> int" where
  "high_water db h = (case find_session db h of None \<Rightarrow> 0 | Some s \<Rightarrow> ses_next_sequence s - 1)"

definition session_ok :: "env \<Rightarrow> session_row \<Rightarrow> bool" where
  "session_ok env s \<longleftrightarrow>
     (\<exists>k. ses_canonical s = Sealed (env_key_id env) ''sessions'' ''canonical_session_key_json''
            (ses_hash s) k \<and> valid_session_key k \<and> env_hash env k = ses_hash s) \<and>
     ses_next_sequence s \<ge> 1"

definition sessions_ok :: "env \<Rightarrow> db \<Rightarrow> bool" where
  "sessions_ok env db \<longleftrightarrow>
     distinct (map ses_hash (db_sessions db)) \<and> (\<forall>s \<in> set (db_sessions db). session_ok env s)"

definition event_ok :: "env \<Rightarrow> event_row \<Rightarrow> bool" where
  "event_ok env r \<longleftrightarrow>
     (\<exists>content. er_content r =
        Sealed (env_key_id env) ''journal_events'' ''content'' (er_id r) content) \<and>
     (\<exists>n \<ge> 0. er_tokens r =
        Sealed (env_key_id env) ''journal_events'' ''token_count'' (er_id r) n) \<and>
     er_id r \<noteq> [] \<and> er_idem r \<noteq> [] \<and> er_sequence r \<ge> 1 \<and>
     (er_role r, er_hook r) = event_mapping (er_type r)"

definition session_events :: "db \<Rightarrow> string \<Rightarrow> event_row list" where
  "session_events db h = filter (\<lambda>r. er_hash r = h) (db_events db)"

definition idempotency_tuple :: "event_row \<Rightarrow> string \<times> source_hook \<times> string" where
  "idempotency_tuple r = (er_hash r, er_hook r, er_idem r)"

definition journal_ok :: "env \<Rightarrow> db \<Rightarrow> bool" where
  "journal_ok env db \<longleftrightarrow>
     distinct (map er_id (db_events db)) \<and>
     distinct (map idempotency_tuple (db_events db)) \<and>
     (\<forall>r \<in> set (db_events db). event_ok env r) \<and>
     (\<forall>h. map er_sequence (session_events db h) = upto 1 (high_water db h))"

definition capsule_row_ok :: "env \<Rightarrow> db \<Rightarrow> capsule_row \<Rightarrow> bool" where
  "capsule_row_ok env db r \<longleftrightarrow>
     (\<exists>k. stored_key db (cr_hash r) = Some k \<and> (\<exists>c. capsule_from_row env k r = Inr c))"

definition snapshot_readable :: "env \<Rightarrow> db \<Rightarrow> snapshot_row \<Rightarrow> bool" where
  "snapshot_readable env db r \<longleftrightarrow>
     (\<exists>k ms s. stored_key db (nr_hash r) = Some k \<and>
        memberships_for_snapshot env db (nr_id r) k = Inr ms \<and>
        snapshot_from_row env k (map mem_capsule_id ms) r = Inr s \<and>
        validate_snapshot_memberships s ms = Inr ())"

definition snapshot_row_ok :: "env \<Rightarrow> db \<Rightarrow> snapshot_row \<Rightarrow> bool" where
  "snapshot_row_ok env db r \<longleftrightarrow>
     snapshot_readable env db r \<and> nr_state r = SNAPSHOT_COMMITTED \<and>
     nr_source_hwm r = nr_covered_end r \<and> nr_covered_end r \<le> high_water db (nr_hash r)"

definition content_ok :: "env \<Rightarrow> db \<Rightarrow> bool" where
  "content_ok env db \<longleftrightarrow>
     distinct (map cr_id (db_capsules db)) \<and>
     distinct (map nr_id (db_snapshots db)) \<and>
     (\<forall>r \<in> set (db_capsules db). capsule_row_ok env db r) \<and>
     (\<forall>m \<in> set (db_memberships db). snapshot_exists db (mr_snapshot m) \<and>
        (\<exists>c \<in> set (db_capsules db). cr_id c = mr_capsule m)) \<and>
     (\<forall>r \<in> set (db_snapshots db). snapshot_row_ok env db r)"

definition snapshot_of :: "db \<Rightarrow> string \<Rightarrow> string \<Rightarrow> bool" where
  "snapshot_of db h sid \<longleftrightarrow> (\<exists>s \<in> set (db_snapshots db). nr_id s = sid \<and> nr_hash s = h)"

definition pointers_ok :: "db \<Rightarrow> bool" where
  "pointers_ok db \<longleftrightarrow>
     distinct (map pr_hash (db_pointers db)) \<and>
     (\<forall>p \<in> set (db_pointers db). pr_version p \<ge> 1 \<and> snapshot_of db (pr_hash p) (pr_snapshot p))"

text \<open>A job's base is a committed snapshot of its session that ends before the job's target.\<close>

definition based_on :: "db \<Rightarrow> string \<Rightarrow> string option \<Rightarrow> int \<Rightarrow> bool" where
  "based_on db h base t \<longleftrightarrow> (\<forall>b. base = Some b \<longrightarrow>
     (\<exists>s \<in> set (db_snapshots db). nr_id s = b \<and> nr_hash s = h \<and> nr_covered_end s < t))"

definition job_row_ok :: "db \<Rightarrow> job_row \<Rightarrow> bool" where
  "job_row_ok db r \<longleftrightarrow>
     job_row_checks r \<and> session_exists db (jr_hash r) \<and>
     based_on db (jr_hash r) (jr_base r) (jr_target r) \<and>
     jr_intent r \<le> high_water db (jr_hash r)"

definition jobs_ok :: "db \<Rightarrow> bool" where
  "jobs_ok db \<longleftrightarrow>
     distinct (map jr_id (db_jobs db)) \<and> unique_nonterminal (db_jobs db) \<and>
     (\<forall>r \<in> set (db_jobs db). job_row_ok db r)"

definition db_ok :: "env \<Rightarrow> db \<Rightarrow> bool" where
  "db_ok env db \<longleftrightarrow>
     sessions_ok env db \<and> journal_ok env db \<and> content_ok env db \<and> pointers_ok db \<and> jobs_ok db"

lemma db_ok_empty: "db_ok env empty_db"
  by (simp add: db_ok_def sessions_ok_def journal_ok_def content_ok_def pointers_ok_def
      jobs_ok_def empty_db_def session_events_def high_water_def find_session_def fetchone_def
      unique_nonterminal_def)

section \<open>Frame laws\<close>

text \<open>Readers do not depend on the tables they do not read.\<close>

lemma frame_find_session [simp]:
  "find_session (db\<lparr>db_jobs := a\<rparr>) h = find_session db h"
  "find_session (db\<lparr>db_metrics := b\<rparr>) h = find_session db h"
  "find_session (db\<lparr>db_intents := c\<rparr>) h = find_session db h"
  "find_session (db\<lparr>db_events := d\<rparr>) h = find_session db h"
  "find_session (db\<lparr>db_capsules := e\<rparr>) h = find_session db h"
  "find_session (db\<lparr>db_snapshots := f\<rparr>) h = find_session db h"
  "find_session (db\<lparr>db_memberships := g\<rparr>) h = find_session db h"
  "find_session (db\<lparr>db_ledger := i\<rparr>) h = find_session db h"
  "find_session (db\<lparr>db_pointers := j\<rparr>) h = find_session db h"
  by (simp_all add: find_session_def)

lemma frame_find_snapshot [simp]:
  "find_snapshot (db\<lparr>db_jobs := a\<rparr>) h = find_snapshot db h"
  "find_snapshot (db\<lparr>db_metrics := b\<rparr>) h = find_snapshot db h"
  "find_snapshot (db\<lparr>db_intents := c\<rparr>) h = find_snapshot db h"
  "find_snapshot (db\<lparr>db_events := d\<rparr>) h = find_snapshot db h"
  "find_snapshot (db\<lparr>db_sessions := e\<rparr>) h = find_snapshot db h"
  by (simp_all add: find_snapshot_def)

lemma frame_exists [simp]:
  "session_exists (db\<lparr>db_jobs := a\<rparr>) h = session_exists db h"
  "session_exists (db\<lparr>db_metrics := b\<rparr>) h = session_exists db h"
  "session_exists (db\<lparr>db_intents := c\<rparr>) h = session_exists db h"
  "session_exists (db\<lparr>db_events := d\<rparr>) h = session_exists db h"
  "session_exists (db\<lparr>db_capsules := e\<rparr>) h = session_exists db h"
  "session_exists (db\<lparr>db_snapshots := f\<rparr>) h = session_exists db h"
  "session_exists (db\<lparr>db_memberships := g\<rparr>) h = session_exists db h"
  "session_exists (db\<lparr>db_ledger := i\<rparr>) h = session_exists db h"
  "session_exists (db\<lparr>db_pointers := j\<rparr>) h = session_exists db h"
  "snapshot_exists (db\<lparr>db_jobs := a\<rparr>) h = snapshot_exists db h"
  "snapshot_exists (db\<lparr>db_metrics := b\<rparr>) h = snapshot_exists db h"
  "snapshot_exists (db\<lparr>db_intents := c\<rparr>) h = snapshot_exists db h"
  "snapshot_exists (db\<lparr>db_events := d\<rparr>) h = snapshot_exists db h"
  "snapshot_exists (db\<lparr>db_sessions := k\<rparr>) h = snapshot_exists db h"
  "snapshot_exists (db\<lparr>db_capsules := e\<rparr>) h = snapshot_exists db h"
  "snapshot_exists (db\<lparr>db_memberships := g\<rparr>) h = snapshot_exists db h"
  "snapshot_exists (db\<lparr>db_ledger := i\<rparr>) h = snapshot_exists db h"
  "snapshot_exists (db\<lparr>db_pointers := j\<rparr>) h = snapshot_exists db h"
  by (simp_all add: session_exists_def snapshot_exists_def)

lemma frame_views [simp]:
  "stored_key (db\<lparr>db_jobs := a\<rparr>) h = stored_key db h"
  "stored_key (db\<lparr>db_metrics := b\<rparr>) h = stored_key db h"
  "stored_key (db\<lparr>db_intents := c\<rparr>) h = stored_key db h"
  "stored_key (db\<lparr>db_events := d\<rparr>) h = stored_key db h"
  "stored_key (db\<lparr>db_capsules := e\<rparr>) h = stored_key db h"
  "stored_key (db\<lparr>db_snapshots := f\<rparr>) h = stored_key db h"
  "stored_key (db\<lparr>db_memberships := g\<rparr>) h = stored_key db h"
  "stored_key (db\<lparr>db_ledger := i\<rparr>) h = stored_key db h"
  "stored_key (db\<lparr>db_pointers := j\<rparr>) h = stored_key db h"
  "high_water (db\<lparr>db_jobs := a\<rparr>) h = high_water db h"
  "high_water (db\<lparr>db_metrics := b\<rparr>) h = high_water db h"
  "high_water (db\<lparr>db_intents := c\<rparr>) h = high_water db h"
  "high_water (db\<lparr>db_events := d\<rparr>) h = high_water db h"
  "high_water (db\<lparr>db_capsules := e\<rparr>) h = high_water db h"
  "high_water (db\<lparr>db_snapshots := f\<rparr>) h = high_water db h"
  "high_water (db\<lparr>db_memberships := g\<rparr>) h = high_water db h"
  "high_water (db\<lparr>db_ledger := i\<rparr>) h = high_water db h"
  "high_water (db\<lparr>db_pointers := j\<rparr>) h = high_water db h"
  by (simp_all add: stored_key_def high_water_def)

lemma frame_memberships [simp]:
  "memberships_for_snapshot env (db\<lparr>db_jobs := a\<rparr>) sid k = memberships_for_snapshot env db sid k"
  "memberships_for_snapshot env (db\<lparr>db_metrics := b\<rparr>) sid k = memberships_for_snapshot env db sid k"
  "memberships_for_snapshot env (db\<lparr>db_intents := c\<rparr>) sid k = memberships_for_snapshot env db sid k"
  "memberships_for_snapshot env (db\<lparr>db_events := d\<rparr>) sid k = memberships_for_snapshot env db sid k"
  "memberships_for_snapshot env (db\<lparr>db_sessions := e\<rparr>) sid k = memberships_for_snapshot env db sid k"
  "memberships_for_snapshot env (db\<lparr>db_snapshots := f\<rparr>) sid k = memberships_for_snapshot env db sid k"
  "memberships_for_snapshot env (db\<lparr>db_ledger := g\<rparr>) sid k = memberships_for_snapshot env db sid k"
  "memberships_for_snapshot env (db\<lparr>db_pointers := i\<rparr>) sid k = memberships_for_snapshot env db sid k"
  by (simp_all add: memberships_for_snapshot_def membership_join_def)

lemma frame_snapshot_of [simp]:
  "snapshot_of (db\<lparr>db_jobs := a\<rparr>) h s = snapshot_of db h s"
  "snapshot_of (db\<lparr>db_metrics := b\<rparr>) h s = snapshot_of db h s"
  "snapshot_of (db\<lparr>db_intents := c\<rparr>) h s = snapshot_of db h s"
  "snapshot_of (db\<lparr>db_events := d\<rparr>) h s = snapshot_of db h s"
  "snapshot_of (db\<lparr>db_sessions := e\<rparr>) h s = snapshot_of db h s"
  "snapshot_of (db\<lparr>db_capsules := f\<rparr>) h s = snapshot_of db h s"
  "snapshot_of (db\<lparr>db_memberships := g\<rparr>) h s = snapshot_of db h s"
  "snapshot_of (db\<lparr>db_ledger := i\<rparr>) h s = snapshot_of db h s"
  "snapshot_of (db\<lparr>db_pointers := j\<rparr>) h s = snapshot_of db h s"
  by (simp_all add: snapshot_of_def)

lemma frame_based_on [simp]:
  "based_on (db\<lparr>db_jobs := a\<rparr>) h s t = based_on db h s t"
  "based_on (db\<lparr>db_metrics := b\<rparr>) h s t = based_on db h s t"
  "based_on (db\<lparr>db_intents := c\<rparr>) h s t = based_on db h s t"
  "based_on (db\<lparr>db_events := d\<rparr>) h s t = based_on db h s t"
  "based_on (db\<lparr>db_sessions := e\<rparr>) h s t = based_on db h s t"
  "based_on (db\<lparr>db_capsules := f\<rparr>) h s t = based_on db h s t"
  "based_on (db\<lparr>db_memberships := g\<rparr>) h s t = based_on db h s t"
  "based_on (db\<lparr>db_ledger := i\<rparr>) h s t = based_on db h s t"
  "based_on (db\<lparr>db_pointers := j\<rparr>) h s t = based_on db h s t"
  by (simp_all add: based_on_def)

lemma frame_session_events [simp]:
  "session_events (db\<lparr>db_jobs := a\<rparr>) h = session_events db h"
  "session_events (db\<lparr>db_metrics := b\<rparr>) h = session_events db h"
  "session_events (db\<lparr>db_intents := c\<rparr>) h = session_events db h"
  "session_events (db\<lparr>db_sessions := d\<rparr>) h = session_events db h"
  "session_events (db\<lparr>db_capsules := e\<rparr>) h = session_events db h"
  "session_events (db\<lparr>db_snapshots := f\<rparr>) h = session_events db h"
  "session_events (db\<lparr>db_memberships := g\<rparr>) h = session_events db h"
  "session_events (db\<lparr>db_ledger := i\<rparr>) h = session_events db h"
  "session_events (db\<lparr>db_pointers := j\<rparr>) h = session_events db h"
  by (simp_all add: session_events_def)

lemmas ok_defs = sessions_ok_def journal_ok_def content_ok_def pointers_ok_def jobs_ok_def
  capsule_row_ok_def snapshot_row_ok_def snapshot_readable_def job_row_ok_def

text \<open>The sidecar tables and the ledger are outside the invariant.\<close>

lemma db_ok_sidecar [simp]:
  "db_ok env (db\<lparr>db_metrics := b\<rparr>) = db_ok env db"
  "db_ok env (db\<lparr>db_intents := c\<rparr>) = db_ok env db"
  "db_ok env (db\<lparr>db_ledger := g\<rparr>) = db_ok env db"
  by (simp_all add: db_ok_def ok_defs)

text \<open>A change of the job table keeps everything but possibly \<open>jobs_ok\<close>.\<close>

lemma frame_ok_jobs [simp]:
  "sessions_ok env (db\<lparr>db_jobs := rows\<rparr>) = sessions_ok env db"
  "journal_ok env (db\<lparr>db_jobs := rows\<rparr>) = journal_ok env db"
  "content_ok env (db\<lparr>db_jobs := rows\<rparr>) = content_ok env db"
  "pointers_ok (db\<lparr>db_jobs := rows\<rparr>) = pointers_ok db"
  by (simp_all add: ok_defs)

lemma db_ok_jobs: "db_ok env (db\<lparr>db_jobs := rows\<rparr>) \<longleftrightarrow>
    sessions_ok env db \<and> journal_ok env db \<and> content_ok env db \<and> pointers_ok db \<and>
    jobs_ok (db\<lparr>db_jobs := rows\<rparr>)"
  by (simp add: db_ok_def)

section \<open>What the invariant gives the readers\<close>

lemma find_session_exists: "session_exists db h \<longleftrightarrow> find_session db h \<noteq> None"
  by (auto simp: session_exists_def find_session_def fetchone_None_iff)

lemma find_session_ok:
  assumes "db_ok env db" "find_session db h = Some s"
  shows "session_ok env s" "ses_hash s = h" "s \<in> set (db_sessions db)"
  using assms fetchone_SomeD[of _ _ s]
  by (auto simp: find_session_def db_ok_def sessions_ok_def)

lemma session_key_from_storage_ok:
  assumes "db_ok env db" "find_session db h = Some s"
  shows "\<exists>k. session_key_from_storage env h (ses_canonical s) = Inr k \<and>
    stored_key db h = Some k \<and> valid_session_key k \<and> env_hash env k = h"
  using find_session_ok[OF assms] assms(2)
  by (auto simp: session_ok_def session_key_from_storage_def result_simps stored_key_def)

lemma session_key_from_storage_stored:
  assumes "session_key_from_storage env h (ses_canonical s) = Inr k" "find_session db h = Some s"
  shows "stored_key db h = Some k \<and> valid_session_key k \<and> env_hash env k = h"
  using assms by (auto simp: session_key_from_storage_def result_simps stored_key_def)

lemma stored_keyD:
  assumes "db_ok env db" "stored_key db h = Some k"
  shows "env_hash env k = h" "valid_session_key k"
  using assms session_key_from_storage_ok[OF assms(1)]
  by (auto simp: stored_key_def)

lemma sql_nonblank_nonempty: "sql_nonblank s \<Longrightarrow> s \<noteq> []"
  by (auto simp: sql_nonblank_def strip_by_def)

lemma nonblank_optional_nonempty: "nonblank_optional x \<Longrightarrow> nonempty_optional x"
  using sql_nonblank_nonempty
  by (auto simp: nonblank_optional_def nonempty_optional_def split: option.splits)

lemma job_row_checks_valid:
  assumes ch: "job_row_checks r" and k: "valid_session_key k"
  shows "valid_job (job_envelope k r)"
proof -
  note c = ch[unfolded job_row_checks_def]
  from c have ids: "jr_id r \<noteq> []" using sql_nonblank_nonempty by blast
  from c have opts: "nonempty_optional (jr_base r)" "nonempty_optional (jr_candidate r)"
    "nonempty_optional (jr_owner r)" "nonempty_optional (jr_err_stage r)"
    "nonempty_optional (jr_err_code r)" "nonempty_optional (jr_err_message r)"
    using nonblank_optional_nonempty by blast+
  from c have nums: "1 \<le> jr_target r" "1 \<le> jr_intent r" "0 \<le> jr_base_version r"
    "0 \<le> jr_attempts r" "0 \<le> jr_epoch r" by linarith+
  from c have errs: "(jr_err_stage r = None \<longleftrightarrow> jr_err_code r = None)"
    "(jr_err_code r = None \<longleftrightarrow> jr_err_message r = None)" by argo+
  from c have base: "if jr_base r = None then jr_base_version r = 0 else 1 \<le> jr_base_version r"
    by argo
  from c have lease: "if jr_state r \<in> set WORKING_STATES
      then jr_owner r \<noteq> None \<and> 1 \<le> jr_epoch r \<and> jr_expires r \<noteq> None
      else jr_owner r = None \<and> jr_expires r = None" by argo
  from c have flags: "(jr_candidate r \<noteq> None \<longleftrightarrow> jr_state r \<in> set CANDIDATE_STATES)"
    "(jr_state r \<in> {RETRY_WAIT, FAILED} \<longrightarrow> jr_err_stage r \<noteq> None)"
    "(jr_retry r \<noteq> None \<longleftrightarrow> jr_state r = RETRY_WAIT)"
    "(jr_committed_at r \<noteq> None \<longleftrightarrow> jr_state r = COMMITTED)" by blast+
  show ?thesis
    unfolding valid_job_def job_envelope_def job.simps
    by (intro conjI ids k opts nums errs base lease flags)
qed

lemma job_by_id_ok:
  assumes ok: "db_ok env db" and r: "r \<in> set (db_jobs db)"
  shows "\<exists>k. job_by_id env db (jr_id r) = Inr (job_envelope k r) \<and>
    stored_key db (jr_hash r) = Some k \<and> env_hash env k = jr_hash r"
proof -
  from ok r have d: "distinct (map jr_id (db_jobs db))" and ch: "job_row_checks r"
    and ex: "session_exists db (jr_hash r)"
    by (auto simp: db_ok_def jobs_ok_def job_row_ok_def)
  from d r have f: "find_job db (jr_id r) = Some r"
    by (simp add: find_job_def fetchone_key)
  from ex obtain s where s: "find_session db (jr_hash r) = Some s"
    by (auto simp: find_session_exists)
  with session_key_from_storage_ok[OF ok s] job_row_checks_valid[OF ch] f
  show ?thesis by (auto simp: job_by_id_def job_from_row_def)
qed

lemma job_by_id_eq_Inr:
  assumes "job_by_id env db i = Inr j"
  obtains r k where "find_job db i = Some r" "r \<in> set (db_jobs db)" "jr_id r = i"
    "j = job_envelope k r" "stored_key db (jr_hash r) = Some k" "env_hash env k = jr_hash r"
    "valid_session_key k"
proof -
  from assms obtain r s k where "find_job db i = Some r" "find_session db (jr_hash r) = Some s"
    "session_key_from_storage env (jr_hash r) (ses_canonical s) = Inr k" "j = job_envelope k r"
    by (auto simp: job_by_id_def job_from_row_def result_simps)
  with that fetchone_SomeD[of "\<lambda>r. jr_id r = i" "db_jobs db" r]
    session_key_from_storage_stored[of env "jr_hash r" s k db]
  show thesis by (auto simp: find_job_def)
qed

end
