(* ===== verification/Job_Laws.thy ===== *)
theory Job_Laws
  imports Repo_Invariant
begin

text \<open>
  Preservation of the durable invariant by the job lane, and what each job operation does to
  the job table.
\<close>

section \<open>Updates and inserts of the job table\<close>

text \<open>
  A statement that rewrites job rows keeps the invariant if it keeps each row's identity and
  session, an intent below the high-water mark and a base below the target; the schema's
  constraints give the rest.
\<close>

lemma db_ok_update_jobs:
  assumes ok: "db_ok env db" and up: "update_jobs p f db = Inr db'"
    and id: "\<And>r. r \<in> set (db_jobs db) \<Longrightarrow> p r \<Longrightarrow> jr_id (f r) = jr_id r \<and> jr_hash (f r) = jr_hash r"
    and intent: "\<And>r. r \<in> set (db_jobs db) \<Longrightarrow> p r \<Longrightarrow> jr_intent (f r) \<le> high_water db (jr_hash r)"
    and base: "\<And>r. r \<in> set (db_jobs db) \<Longrightarrow> p r \<Longrightarrow>
      based_on db (jr_hash r) (jr_base (f r)) (jr_target (f r))"
  shows "db_ok env db'"
proof -
  let ?rows = "update_where p f (db_jobs db)"
  from up have db': "db' = db\<lparr>db_jobs := ?rows\<rparr>" and uniq: "unique_nonterminal ?rows"
    and ch: "\<And>r. r \<in> set (db_jobs db) \<Longrightarrow> p r \<Longrightarrow> job_row_checks (f r)"
    by (auto simp: update_jobs_eq_Inr)
  have "map jr_id ?rows = map jr_id (db_jobs db)"
    using id by (auto simp: update_where_def)
  then have d: "distinct (map jr_id ?rows)"
    using ok by (simp add: db_ok_def jobs_ok_def)
  have "job_row_ok db' r" if r: "r \<in> set ?rows" for r
  proof -
    from r obtain r0 where r0: "r0 \<in> set (db_jobs db)" "r = (if p r0 then f r0 else r0)"
      by (auto simp: update_where_def)
    from ok r0(1) have "job_row_ok db r0" by (simp add: db_ok_def jobs_ok_def)
    with r0 id[of r0] intent[of r0] base[of r0] ch[of r0] show ?thesis
      by (auto simp: job_row_ok_def db')
  qed
  with ok d uniq show ?thesis by (auto simp: db' db_ok_jobs db_ok_def jobs_ok_def)
qed

text \<open>The common case: target, intent and base are not touched.\<close>

lemma db_ok_update_jobs_same:
  assumes ok: "db_ok env db" and up: "update_jobs p f db = Inr db'"
    and same: "\<And>r. jr_id (f r) = jr_id r \<and> jr_hash (f r) = jr_hash r \<and> jr_intent (f r) = jr_intent r
      \<and> jr_base (f r) = jr_base r \<and> jr_target (f r) = jr_target r"
  shows "db_ok env db'"
proof (rule db_ok_update_jobs[OF ok up])
  fix r assume r: "r \<in> set (db_jobs db)"
  from ok r have "job_row_ok db r" by (simp add: db_ok_def jobs_ok_def)
  then show "jr_intent (f r) \<le> high_water db (jr_hash r)"
    "based_on db (jr_hash r) (jr_base (f r)) (jr_target (f r))"
    by (simp_all add: job_row_ok_def same)
qed (simp add: same)

lemma db_ok_insert_job:
  assumes ok: "db_ok env db" and ins: "insert_job r db = Inr db'"
    and intent: "jr_intent r \<le> high_water db (jr_hash r)"
    and base: "based_on db (jr_hash r) (jr_base r) (jr_target r)"
  shows "db_ok env db'"
proof -
  from ins have db': "db' = db\<lparr>db_jobs := db_jobs db @ [r]\<rparr>"
    and ch: "job_row_checks r" "session_exists db (jr_hash r)"
      "\<forall>o' \<in> set (db_jobs db). jr_id o' \<noteq> jr_id r" "unique_nonterminal (db_jobs db @ [r])"
    by (auto simp: insert_job_eq_Inr job_foreign_keys_def)
  with ok intent base show ?thesis
    by (auto simp: db' db_ok_jobs db_ok_def jobs_ok_def job_row_ok_def)
qed

text \<open>Which row an update leaves under an id, and the envelope read for it.\<close>

lemma find_jobD: "find_job db i = Some r \<Longrightarrow> r \<in> set (db_jobs db) \<and> jr_id r = i"
  by (auto simp: find_job_def dest: fetchone_SomeD)

lemma find_job_update:
  assumes "update_jobs p f db = Inr db'" "\<And>r. jr_id (f r) = jr_id r"
  shows "find_job db' i = map_option (\<lambda>r. if p r then f r else r) (find_job db i)"
  using assms by (simp add: update_jobs_eq_Inr find_job_def fetchone_update_where)

lemma job_by_id_find:
  assumes "db_ok env db" "find_job db i = Some r"
  obtains k where "job_by_id env db i = Inr (job_envelope k r)" "stored_key db (jr_hash r) = Some k"
    "env_hash env k = jr_hash r"
  using job_by_id_ok[OF assms(1)] find_jobD[OF assms(2)] by blast

text \<open>
  A statement whose row count must be one, over rows selected by id, rewrites exactly the row
  with that id.
\<close>

lemma find_job_update_one:
  assumes "update_jobs p f db = Inr db'" "\<And>r. jr_id (f r) = jr_id r"
    and "\<And>r. p r \<Longrightarrow> jr_id r = i" "rowcount p (db_jobs db) = 1" "db_ok env db"
  shows "\<exists>r. find_job db i = Some r \<and> p r \<and> find_job db' i = Some (f r)"
proof -
  from assms(4) obtain r where r: "r \<in> set (db_jobs db)" "p r"
    using rowcount_pos_iff[of p "db_jobs db"] by auto
  from assms(5) have "distinct (map jr_id (db_jobs db))" by (simp add: db_ok_def jobs_ok_def)
  from fetchone_key[OF this r(1)] assms(3)[OF r(2)] have "find_job db i = Some r"
    by (simp add: find_job_def)
  with r(2) find_job_update[OF assms(1,2), of i] show ?thesis by auto
qed

text \<open>The active base is a committed snapshot of the session, with its coverage.\<close>

lemma active_base_eq_Inr:
  assumes "active_base db h = Inr (base, version, covered)"
  shows "base = None \<and> version = 0 \<and> covered = 0 \<or>
    (\<exists>p s. find_pointer db h = Some p \<and> find_snapshot db (pr_snapshot p) = Some s \<and>
       nr_hash s = h \<and> base = Some (pr_snapshot p) \<and> version = pr_version p \<and>
       covered = nr_covered_end s)"
  using assms by (auto simp: active_base_def result_simps split: option.splits)

lemma find_snapshotD: "find_snapshot db i = Some s \<Longrightarrow> s \<in> set (db_snapshots db) \<and> nr_id s = i"
  by (auto simp: find_snapshot_def dest: fetchone_SomeD)

lemma active_base_based_on:
  assumes "active_base db h = Inr (base, version, covered)" "covered < t"
  shows "based_on db h base t"
  using active_base_eq_Inr[OF assms(1)] assms(2)
  by (auto simp: based_on_def dest!: find_snapshotD)

lemma pointer_snapshot_found:
  assumes ok: "db_ok env db" and p: "find_pointer db h = Some p"
  shows "\<exists>s. find_snapshot db (pr_snapshot p) = Some s \<and> nr_hash s = h"
proof -
  from p have "p \<in> set (db_pointers db)" "pr_hash p = h"
    by (auto simp: find_pointer_def dest: fetchone_SomeD)
  with ok obtain s where s: "s \<in> set (db_snapshots db)" "nr_id s = pr_snapshot p" "nr_hash s = h"
    by (fastforce simp: db_ok_def pointers_ok_def snapshot_of_def)
  from ok have "distinct (map nr_id (db_snapshots db))"
    by (simp add: db_ok_def content_ok_def)
  from fetchone_key[OF this s(1)] s(2,3) show ?thesis by (simp add: find_snapshot_def)
qed

lemma active_base_total:
  assumes "db_ok env db"
  shows "\<exists>base version covered. active_base db h = Inr (base, version, covered)"
  using pointer_snapshot_found[OF assms, of h]
  by (cases "find_pointer db h") (auto simp: active_base_def)

section \<open>Preservation by the job operations\<close>

lemma find_nonterminalD:
  assumes "find_nonterminal db h = Some r"
  shows "r \<in> set (db_jobs db)" "jr_hash r = h" "is_nonterminal (jr_state r)"
  using assms by (auto simp: find_nonterminal_def dest: fetchone_SomeD)

lemma find_session_high_water:
  "find_session db h = Some s \<Longrightarrow> high_water db h = ses_next_sequence s - 1"
  by (simp add: high_water_def)

lemma fold_intent_ok:
  assumes ok: "db_ok env db" and r: "r \<in> set (db_jobs db)"
    and up: "fold_intent (jr_id r) t now db = Inr db'" and hw: "t \<le> high_water db (jr_hash r)"
  shows "db_ok env db'"
proof (rule db_ok_update_jobs[OF ok up[unfolded fold_intent_def]])
  fix r' assume r': "r' \<in> set (db_jobs db)" "jr_id r' = jr_id r"
  from ok have "distinct (map jr_id (db_jobs db))" by (simp add: db_ok_def jobs_ok_def)
  from distinct_map_inj[OF this r'(1) r r'(2)] have "r' = r" .
  moreover from ok r have "job_row_ok db r" by (simp add: db_ok_def jobs_ok_def)
  ultimately show "jr_intent (r'\<lparr>jr_intent := t, jr_updated_at := now\<rparr>) \<le> high_water db (jr_hash r')"
    "based_on db (jr_hash r') (jr_base (r'\<lparr>jr_intent := t, jr_updated_at := now\<rparr>))
       (jr_target (r'\<lparr>jr_intent := t, jr_updated_at := now\<rparr>))"
    using hw by (simp_all add: job_row_ok_def)
qed simp

lemma raise_compaction_intent_body_ok:
  assumes ok: "db_ok env db" and run: "raise_compaction_intent_body env i k t now db = Inr (j, db')"
  shows "db_ok env db'"
proof -
  let ?h = "env_hash env k"
  from run obtain now_t s base version covered where
    s: "find_session db ?h = Some s" and t: "t \<le> ses_next_sequence s - 1" and
    act: "active_base db ?h = Inr (base, version, covered)" and
    rest: "(if t \<le> covered then Inr (None, db)
      else (case find_nonterminal db ?h of
          Some existing \<Rightarrow>
            bind (if t > jr_intent existing
                  then bind (fold_intent (jr_id existing) t now_t db) (\<lambda>db1.
                       bind (inject env ''intent.after_fold'') (\<lambda>_. Inr db1))
                  else Inr db) (\<lambda>db1.
            bind (job_by_id env db1 (jr_id existing)) (\<lambda>j. Inr (Some j, db1)))
        | None \<Rightarrow>
            bind (case insert_job (pending_job i ?h t base version now_t) db of
                    Inl _ \<Rightarrow> Inl RepositoryConflict | Inr d \<Rightarrow> Inr d) (\<lambda>db1.
            bind (inject env ''intent.after_insert'') (\<lambda>_.
            bind (job_by_id env db1 i) (\<lambda>j. Inr (Some j, db1)))))) = Inr (j, db')"
    by (auto simp: raise_compaction_intent_body_def bind_eq_Inr guard_eq_Inr option_or_eq_Inr
        normalize_datetime_eq_Inr)
  have hw: "t \<le> high_water db ?h" using t find_session_high_water[OF s] by simp
  show ?thesis
  proof (cases "t \<le> covered")
    case True
    with rest ok show ?thesis by simp
  next
    case False
    show ?thesis
    proof (cases "find_nonterminal db ?h")
      case None
      with rest False have "insert_job (pending_job i ?h t base version now_t) db = Inr db'"
        by (auto simp: bind_eq_Inr split: sum.splits)
      then show ?thesis
        using False hw active_base_based_on[OF act]
        by (intro db_ok_insert_job[OF ok]) (auto simp: pending_job_def)
    next
      case (Some r)
      from rest Some False have "db' = db \<or> fold_intent (jr_id r) t now_t db = Inr db'"
        by (auto simp: bind_eq_Inr split: if_splits)
      then show ?thesis
        using ok fold_intent_ok[OF ok find_nonterminalD(1)[OF Some]] hw find_nonterminalD(2)[OF Some]
        by auto
    qed
  qed
qed

text \<open>Fenced updates; what they require and what they change.\<close>

lemma fenced_update_eq_Inr:
  "fenced_update i owner epoch now f db = Inr db' \<longleftrightarrow>
     update_jobs (fence_where i owner epoch now) f db = Inr db' \<and>
     rowcount (fence_where i owner epoch now) (db_jobs db) = 1"
  by (auto simp: fenced_update_def bind_eq_Inr guard_eq_Inr)

lemma fenced_update_ok:
  assumes "db_ok env db" "fenced_update i owner epoch now f db = Inr db'"
    and "\<And>r. jr_id (f r) = jr_id r \<and> jr_hash (f r) = jr_hash r \<and> jr_intent (f r) = jr_intent r
      \<and> jr_base (f r) = jr_base r \<and> jr_target (f r) = jr_target r"
  shows "db_ok env db'"
  using db_ok_update_jobs_same[OF assms(1) _ assms(3)] assms(2) by (auto simp: fenced_update_eq_Inr)

lemma transition_job_body_ok:
  assumes "db_ok env db" "transition_job_body env i owner epoch to_state now c db = Inr (j, db')"
  shows "db_ok env db'"
  using assms(2)
  by (auto simp: transition_job_body_def bind_eq_Inr intro: fenced_update_ok[OF assms(1)])

lemma renew_job_lease_body_ok:
  assumes "db_ok env db" "renew_job_lease_body env i owner epoch now lease db = Inr (j, db')"
  shows "db_ok env db'"
  using assms(2)
  by (auto simp: renew_job_lease_body_def bind_eq_Inr intro: fenced_update_ok[OF assms(1)])

lemma fail_job_body_ok:
  assumes "db_ok env db" "fail_job_body env i owner epoch now f db = Inr (j, db')"
  shows "db_ok env db'"
  using assms(2)
  by (auto simp: fail_job_body_def bind_eq_Inr fail_row_def intro: fenced_update_ok[OF assms(1)])

lemma recover_one_ok:
  assumes "recover_one env now s i = Inr s'" "db_ok env (snd s)"
  shows "db_ok env (snd s')"
proof -
  from assms(1) have "update_jobs (\<lambda>r. jr_id r = i \<and> expired now r) (recover_row now) (snd s) =
      Inr (snd s')"
    by (auto simp: recover_one_def bind_eq_Inr split: prod.splits if_splits)
  then show ?thesis
    by (rule db_ok_update_jobs_same[OF assms(2)]) (simp add: recover_row_def)
qed

lemma recover_expired_leases_body_ok:
  assumes "db_ok env db" "recover_expired_leases_body env now db = Inr (js, db')"
  shows "db_ok env db'"
proof -
  from assms(2) obtain now_t ids where
    "foldM (recover_one env now_t) ([], db) (expired_ids now_t db) = Inr (ids, db')"
    by (auto simp: recover_expired_leases_body_def bind_eq_Inr)
  then have "db_ok env (snd (ids, db'))"
    by (rule foldM_invariant) (use assms(1) recover_one_ok in auto)
  then show ?thesis by simp
qed

lemma eligible_rows_ConsD:
  assumes "eligible_rows now db = row # rest"
  shows "row \<in> set (db_jobs db)" "eligible now row"
proof -
  have "row \<in> set (eligible_rows now db)" by (simp add: assms)
  then show "row \<in> set (db_jobs db)" "eligible now row" by (simp_all add: eligible_rows_def)
qed

lemma cancel_ok:
  assumes "db_ok env db" "update_jobs p (cancel_row now) db = Inr db'"
  shows "db_ok env db'"
  by (rule db_ok_update_jobs_same[OF assms]) (simp add: cancel_row_def)

lemma lease_ok:
  assumes ok: "db_ok env db" and row: "row \<in> set (db_jobs db)"
    and act: "active_base db (jr_hash row) = Inr (base, version, covered)"
    and beyond: "covered < jr_intent row"
    and up: "update_jobs (\<lambda>r. jr_id r = jr_id row \<and> q r) (lease_row base version worker lease now) db
      = Inr db'"
  shows "db_ok env db'"
proof (rule db_ok_update_jobs[OF ok up])
  fix r assume r: "r \<in> set (db_jobs db)" "jr_id r = jr_id row \<and> q r"
  from ok have "distinct (map jr_id (db_jobs db))" by (simp add: db_ok_def jobs_ok_def)
  with r row have "r = row" using distinct_map_inj by fastforce
  moreover from ok row have "job_row_ok db row" by (simp add: db_ok_def jobs_ok_def)
  ultimately show "jr_intent (lease_row base version worker lease now r) \<le> high_water db (jr_hash r)"
    "based_on db (jr_hash r) (jr_base (lease_row base version worker lease now r))
       (jr_target (lease_row base version worker lease now r))"
    using active_base_based_on[OF act beyond] by (simp_all add: lease_row_def job_row_ok_def)
qed (simp add: lease_row_def)

lemma claim_loop_ok:
  assumes "db_ok env db" "claim_loop n env worker now lease db = Some (Inr (j, db'))"
  shows "db_ok env db'"
  using assms
proof (induction n arbitrary: db)
  case (Suc n)
  show ?case
  proof (cases "eligible_rows now db")
    case Nil
    with Suc.prems show ?thesis by simp
  next
    case (Cons row rest)
    note row = eligible_rows_ConsD[OF Cons]
    obtain base version covered where
      act: "active_base db (jr_hash row) = Inr (base, version, covered)"
      using active_base_total[OF Suc.prems(1)] by metis
    show ?thesis
    proof (cases "jr_intent row \<le> covered")
      case True
      with Suc.prems(2) Cons act obtain db1 where
        "update_jobs (\<lambda>r. jr_id r = jr_id row) (cancel_row now) db = Inr db1"
        "claim_loop n env worker now lease db1 = Some (Inr (j, db'))"
        by (auto split: sum.splits)
      with Suc.IH cancel_ok[OF Suc.prems(1)] show ?thesis by blast
    next
      case False
      with Suc.prems(2) Cons act obtain db1 where
        up: "update_jobs (\<lambda>r. jr_id r = jr_id row \<and> eligible now r)
           (lease_row base version worker lease now) db = Inr db1" and
        rest: "claim_loop n env worker now lease db1 = Some (Inr (j, db')) \<or> db' = db1"
        by (auto split: sum.splits if_splits simp: bind_eq_Inr)
      from False lease_ok[OF Suc.prems(1) row(1) act _ up] have "db_ok env db1" by simp
      with rest Suc.IH show ?thesis by blast
    qed
  qed
qed simp

lemma claim_job_body_ok:
  assumes "db_ok env db" "claim_job_body env worker now lease db = Some (Inr (j, db'))"
  shows "db_ok env db'"
  using assms(2) claim_loop_ok[OF assms(1)]
  by (auto simp: claim_job_body_def split: sum.splits)

section \<open>The claim loop returns\<close>

definition eligible_count :: "int \<Rightarrow> db \<Rightarrow> nat" where
  "eligible_count now db = length (filter (eligible now) (db_jobs db))"

lemma cancel_decreases:
  assumes "row \<in> set (db_jobs db)" "eligible now row"
    and up: "update_jobs (\<lambda>r. jr_id r = jr_id row) (cancel_row now) db = Inr db1"
  shows "eligible_count now db1 < eligible_count now db"
proof -
  let ?p = "\<lambda>r. jr_id r = jr_id row"
  have "\<not> eligible now (cancel_row now r)" for r by (simp add: eligible_def cancel_row_def)
  from length_filter_update_where[of ?p "eligible now" "cancel_row now", OF this]
  have "length (filter (eligible now) (db_jobs db1)) +
      length (filter (\<lambda>r. ?p r \<and> eligible now r) (db_jobs db)) =
      length (filter (eligible now) (db_jobs db))"
    using up by (simp add: update_jobs_eq_Inr)
  moreover have "filter (\<lambda>r. ?p r \<and> eligible now r) (db_jobs db) \<noteq> []"
    using assms(1,2) by (auto simp: filter_empty_conv)
  then have "0 < length (filter (\<lambda>r. ?p r \<and> eligible now r) (db_jobs db))" by blast
  ultimately show ?thesis unfolding eligible_count_def by linarith
qed

lemma claim_rowcount:
  assumes "db_ok env db" "row \<in> set (db_jobs db)" "eligible now row"
  shows "rowcount (\<lambda>r. jr_id r = jr_id row \<and> eligible now r) (db_jobs db) = 1"
  by (rule rowcount_unique[of jr_id]) (use assms in \<open>auto simp: db_ok_def jobs_ok_def\<close>)

lemma claim_loop_returns:
  assumes "db_ok env db" "eligible_count now db < n"
  shows "\<exists>r. claim_loop n env worker now lease db = Some r"
  using assms
proof (induction n arbitrary: db)
  case (Suc n)
  show ?case
  proof (cases "eligible_rows now db")
    case (Cons row rest)
    note row = eligible_rows_ConsD[OF Cons]
    obtain base version covered where
      act: "active_base db (jr_hash row) = Inr (base, version, covered)"
      using active_base_total[OF Suc.prems(1)] by metis
    show ?thesis
    proof (cases "update_jobs (\<lambda>r. jr_id r = jr_id row) (cancel_row now) db")
      case (Inr db1)
      from cancel_decreases[OF row Inr] Suc.prems(2) have "eligible_count now db1 < n" by simp
      from Suc.IH[OF cancel_ok[OF Suc.prems(1) Inr] this] show ?thesis
        using Cons act Inr claim_rowcount[OF Suc.prems(1) row] by (auto split: sum.splits)
    qed (use Cons act claim_rowcount[OF Suc.prems(1) row] in \<open>auto split: sum.splits\<close>)
  qed simp
qed simp

lemma claim_job_body_returns:
  assumes "db_ok env db"
  shows "\<exists>r. claim_job_body env worker now lease db = Some r"
proof -
  have "eligible_count t db < claim_fuel t db" for t by (simp add: eligible_count_def claim_fuel_def)
  from claim_loop_returns[OF assms this] show ?thesis
    by (auto simp: claim_job_body_def simp del: claim_loop.simps split: sum.splits)
qed

end
