(* ===== verification/Journal_Laws.thy ===== *)
theory Journal_Laws
  imports Repo_Invariant
begin

text \<open>
  What the metric store and the capture transaction do to the database: preservation of the
  durable invariant, append-only growth of the journal, allocation of the next sequence
  number, idempotent replay and the conflicts that leave the database as it was.
\<close>

section \<open>Metrics touch only the sidecar tables\<close>

definition same_core :: "db \<Rightarrow> db \<Rightarrow> bool" where
  "same_core db db' \<longleftrightarrow>
     (\<exists>ms is. db' = db\<lparr>db_metrics := ms, db_intents := is\<rparr>)"

lemma same_core_refl [simp]: "same_core db db"
  unfolding same_core_def by (rule exI[of _ "db_metrics db"], rule exI[of _ "db_intents db"]) simp

lemma same_core_trans:
  assumes "same_core a b" "same_core b c"
  shows "same_core a c"
proof -
  from assms obtain ms ns ms' ns' where "b = a\<lparr>db_metrics := ms, db_intents := ns\<rparr>"
    "c = b\<lparr>db_metrics := ms', db_intents := ns'\<rparr>" by (auto simp: same_core_def)
  then have "c = a\<lparr>db_metrics := ms', db_intents := ns'\<rparr>" by simp
  then show ?thesis unfolding same_core_def by blast
qed

lemma same_core_ok: "same_core db db' \<Longrightarrow> db_ok env db' = db_ok env db"
  by (auto simp: same_core_def)

lemma same_core_tables:
  assumes "same_core db db'"
  shows "db_sessions db' = db_sessions db" "db_events db' = db_events db"
    "db_capsules db' = db_capsules db" "db_snapshots db' = db_snapshots db"
    "db_memberships db' = db_memberships db" "db_pointers db' = db_pointers db"
    "db_jobs db' = db_jobs db" "db_ledger db' = db_ledger db"
  using assms by (auto simp: same_core_def)

lemma same_core_updates [intro]:
  "same_core db (db\<lparr>db_metrics := ms\<rparr>)" "same_core db (db\<lparr>db_intents := is\<rparr>)"
proof -
  show "same_core db (db\<lparr>db_metrics := ms\<rparr>)"
    unfolding same_core_def by (rule exI[of _ ms], rule exI[of _ "db_intents db"]) simp
  show "same_core db (db\<lparr>db_intents := is\<rparr>)"
    unfolding same_core_def by (rule exI[of _ "db_metrics db"], rule exI[of _ "is"]) simp
qed

lemma put_metric_same_core: "put_metric env m t db = Inr db' \<Longrightarrow> same_core db db'"
  by (erule put_metric_cases) auto

lemma delete_intent_same_core [simp]: "same_core db (delete_intent k a p db)"
  by (auto simp: delete_intent_def)

lemma insert_intent_same_core: "insert_intent r db = Inr db' \<Longrightarrow> same_core db db'"
  by (auto simp: insert_intent_def result_simps split: if_splits)

lemma record_canonical_observation_same_core:
  assumes "record_canonical_observation env h a c t db = Inr db'"
  shows "same_core db db'"
  using assms
  by (auto simp: record_canonical_observation_def result_simps split: option.splits if_splits
      dest!: put_metric_same_core insert_intent_same_core
      intro: same_core_trans delete_intent_same_core)

lemma write_backfill_metric_same_core:
  assumes "write_backfill_metric env h t db m = Inr db'"
  shows "same_core db db'"
  using assms
  by (auto simp: write_backfill_metric_def result_simps dest!: put_metric_same_core
      intro: same_core_trans delete_intent_same_core)

lemma write_publish_metric_same_core:
  assumes "write_publish_metric env t db m = Inr db'"
  shows "same_core db db'"
  using assms
  by (auto simp: write_publish_metric_def result_simps dest!: put_metric_same_core
      intro: same_core_trans delete_intent_same_core)

lemma write_metric_backfill_batch_same_core:
  assumes "write_metric_backfill_batch_body env k metrics now db = Inr (x, db')"
  shows "same_core db db'"
proof -
  from assms obtain t where "foldM (write_backfill_metric env (env_hash env k) t) db metrics = Inr db'"
    by (auto simp: write_metric_backfill_batch_body_def result_simps)
  then show ?thesis
    by (rule foldM_invariant) (auto intro: same_core_trans write_backfill_metric_same_core)
qed

section \<open>Creating a session\<close>

text \<open>
  A change of the session and event tables that keeps every stored identity and lowers no
  high-water mark keeps the invariant as soon as it keeps the two tables it touches.
\<close>

lemma db_ok_grow:
  assumes ok: "db_ok env db" and tables: "db' = db\<lparr>db_sessions := ss, db_events := es\<rparr>"
    and s: "sessions_ok env db'" and e: "journal_ok env db'"
    and key: "\<And>h k. stored_key db h = Some k \<Longrightarrow> stored_key db' h = Some k"
    and hw: "\<And>h. high_water db h \<le> high_water db' h"
  shows "db_ok env db'"
proof -
  have ex: "session_exists db h \<Longrightarrow> session_exists db' h" for h
    using key[of h] by (fastforce simp: find_session_exists stored_key_def)
  have cap: "capsule_row_ok env db r \<Longrightarrow> capsule_row_ok env db' r" for r
    using key by (auto simp: capsule_row_ok_def)
  have "snapshot_row_ok env db r \<Longrightarrow> snapshot_row_ok env db' r" for r
    using key hw[of "nr_hash r"]
    by (fastforce simp: snapshot_row_ok_def snapshot_readable_def tables)
  with ok cap have c: "content_ok env db'"
    by (auto simp: db_ok_def content_ok_def snapshot_exists_def tables)
  have "job_row_ok db r \<Longrightarrow> job_row_ok db' r" for r
    using ex hw[of "jr_hash r"] by (auto simp: job_row_ok_def tables)
  with ok have j: "jobs_ok db'" by (auto simp: db_ok_def jobs_ok_def tables)
  have "pointers_ok db'" using ok by (simp add: db_ok_def pointers_ok_def tables)
  with s e c j show ?thesis by (simp add: db_ok_def)
qed

lemma find_session_append:
  assumes "find_session db (ses_hash s) = None"
  shows "find_session (db\<lparr>db_sessions := db_sessions db @ [s]\<rparr>) h =
    (if h = ses_hash s then Some s else find_session db h)"
  using assms by (auto simp: find_session_def fetchone_append split: option.splits)

lemma db_ok_new_session:
  assumes ok: "db_ok env db" and new: "find_session db (ses_hash s) = None"
    and s: "session_ok env s" "ses_next_sequence s = 1"
  shows "db_ok env (db\<lparr>db_sessions := db_sessions db @ [s]\<rparr>)" (is "db_ok env ?db'")
proof (rule db_ok_grow[OF ok])
  note find = find_session_append[OF new]
  show "?db' = db\<lparr>db_sessions := db_sessions db @ [s], db_events := db_events db\<rparr>" by simp
  from new have "ses_hash s \<notin> ses_hash ` set (db_sessions db)"
    by (auto simp: find_session_def fetchone_None_iff)
  with ok s show "sessions_ok env ?db'" by (auto simp: db_ok_def sessions_ok_def)
  have hw: "high_water ?db' h = high_water db h" for h
    using s new by (auto simp: high_water_def find)
  with ok show "journal_ok env ?db'" by (simp add: db_ok_def journal_ok_def)
  show "high_water db h \<le> high_water ?db' h" for h by (simp add: hw)
  show "stored_key db h = Some k \<Longrightarrow> stored_key ?db' h = Some k" for h k
    using new by (auto simp: stored_key_def find)
qed

lemma ensure_session_eq_Inr:
  assumes "ensure_session env k t db = Inr db'"
  obtains (existing) s where "find_session db (env_hash env k) = Some s" "db' = db"
      "stored_key db (env_hash env k) = Some k"
  | (fresh) s where "find_session db (env_hash env k) = None"
      "db' = db\<lparr>db_sessions := db_sessions db @ [s]\<rparr>" "ses_hash s = env_hash env k"
      "ses_next_sequence s = 1" "session_ok env s" "stored_key db' (env_hash env k) = Some k"
proof (cases "find_session db (env_hash env k)")
  case None
  with assms obtain s where s: "db' = db\<lparr>db_sessions := db_sessions db @ [s]\<rparr>"
    "ses_hash s = env_hash env k" "ses_next_sequence s = 1"
    "find_session db' (env_hash env k) = Some s"
    "session_key_from_storage env (env_hash env k) (ses_canonical s) = Inr k"
    by (auto simp: ensure_session_def result_simps find_session_append)
  from s(5) have "session_ok env s"
    by (auto simp: session_ok_def s(2,3) session_key_from_storage_def result_simps)
  moreover have "stored_key db' (env_hash env k) = Some k"
    using session_key_from_storage_stored[OF s(5,4)] by simp
  ultimately show thesis using fresh[OF None s(1-3)] by blast
next
  case (Some s)
  with assms have s: "db' = db" "session_key_from_storage env (env_hash env k) (ses_canonical s) = Inr k"
    by (auto simp: ensure_session_def result_simps)
  with session_key_from_storage_stored[OF s(2) Some] existing[OF Some s(1)] show thesis by simp
qed

lemma ensure_session_ok:
  assumes ok: "db_ok env db" and run: "ensure_session env k t db = Inr db'"
  shows "db_ok env db'" "stored_key db' (env_hash env k) = Some k" "db_events db' = db_events db"
proof -
  from run have "db_ok env db' \<and> stored_key db' (env_hash env k) = Some k \<and> db_events db' = db_events db"
  proof (cases rule: ensure_session_eq_Inr)
    case (existing s)
    with ok show ?thesis by simp
  next
    case (fresh s)
    from fresh(1,3) have "find_session db (ses_hash s) = None" by simp
    from db_ok_new_session[OF ok this fresh(5,4)] fresh(2,6) show ?thesis by simp
  qed
  then show "db_ok env db'" "stored_key db' (env_hash env k) = Some k" "db_events db' = db_events db"
    by simp_all
qed

section \<open>Appending an event\<close>

lemma allocate_sequence_find:
  assumes "find_session db h = Some s"
  shows "find_session (allocate_sequence h (ses_next_sequence s) t db) h' =
    (if h' = h then Some (s\<lparr>ses_next_sequence := ses_next_sequence s + 1, ses_updated_at := t\<rparr>)
     else find_session db h')"
proof -
  let ?q = "\<lambda>x. ses_hash x = h \<and> ses_next_sequence x = ses_next_sequence s"
  have "find_session (allocate_sequence h (ses_next_sequence s) t db) h' =
    map_option (\<lambda>r. if ?q r then r\<lparr>ses_next_sequence := ses_next_sequence r + 1, ses_updated_at := t\<rparr>
      else r) (find_session db h')"
    by (simp add: find_session_def allocate_sequence_def fetchone_update_where)
  moreover have "find_session db h' = Some x \<Longrightarrow> ses_hash x = h'" for x
    by (auto simp: find_session_def dest: fetchone_SomeD)
  ultimately show ?thesis using assms by (cases "find_session db h'") auto
qed

lemma allocate_sequence_sessions_ok:
  assumes "sessions_ok env db"
  shows "sessions_ok env (allocate_sequence h n t db)"
proof -
  have "map ses_hash (db_sessions (allocate_sequence h n t db)) = map ses_hash (db_sessions db)"
    by (auto simp: allocate_sequence_def intro: map_update_where_same)
  moreover have "session_ok env x" if "x \<in> set (db_sessions (allocate_sequence h n t db))" for x
    using that assms
    by (auto simp: allocate_sequence_def set_update_where sessions_ok_def session_ok_def)
  ultimately show ?thesis using assms by (simp add: sessions_ok_def)
qed

lemma event_row_of_ok:
  assumes "event_row_of env e = Inr r" "valid_event e"
  shows "event_ok env r"
  using assms by (auto simp: event_row_of_def result_simps event_ok_def valid_event_def)

lemma db_ok_append_event:
  assumes ok: "db_ok env db" and s: "find_session db h = Some s"
    and r: "event_ok env r" "er_hash r = h" "er_sequence r = ses_next_sequence s"
    and ins: "insert_event r (allocate_sequence h (ses_next_sequence s) t db) = Inr db'"
  shows "db_ok env db'"
proof -
  let ?db1 = "allocate_sequence h (ses_next_sequence s) t db"
  note find = allocate_sequence_find[OF s, of t]
  from ins have db': "db' = ?db1\<lparr>db_events := db_events ?db1 @ [r]\<rparr>"
    and con: "event_constraints ?db1 r" by (simp_all add: insert_event_eq_Inr)
  have evs: "db_events ?db1 = db_events db" by (simp add: allocate_sequence_def)
  have hw: "high_water db' h' = (if h' = h then high_water db h + 1 else high_water db h')" for h'
    using s by (simp add: db' high_water_def find)
  have events: "session_events db' h' = session_events db h' @ (if h' = h then [r] else [])" for h'
    using r(2) by (simp add: db' evs session_events_def)
  show ?thesis
  proof (rule db_ok_grow[OF ok])
    show "db' = db\<lparr>db_sessions := db_sessions ?db1, db_events := db_events db @ [r]\<rparr>"
      by (simp add: db' allocate_sequence_def)
    have "sessions_ok env ?db1" using ok by (simp add: db_ok_def allocate_sequence_sessions_ok)
    then show "sessions_ok env db'" by (simp add: db' sessions_ok_def)
    show "high_water db h' \<le> high_water db' h'" for h' by (simp add: hw)
    show "stored_key db h' = Some k \<Longrightarrow> stored_key db' h' = Some k" for h' k
      using s by (auto simp: stored_key_def db' find)
    have seq: "map er_sequence (session_events db' h') = upto 1 (high_water db' h')" for h'
    proof -
      have "map er_sequence (session_events db h') = upto 1 (high_water db h')"
        using ok by (simp add: db_ok_def journal_ok_def)
      moreover have "high_water db h = ses_next_sequence s - 1" "ses_next_sequence s \<ge> 1"
        using s find_session_ok(1)[OF ok s] by (simp_all add: high_water_def session_ok_def)
      ultimately show ?thesis
        using upto_snoc[of 1 "high_water db h"] r(3) unfolding hw events by auto
    qed
    have "er_id r \<notin> er_id ` set (db_events db)"
      "idempotency_tuple r \<notin> idempotency_tuple ` set (db_events db)"
      using con by (auto simp: event_constraints_def evs idempotency_tuple_def)
    with ok r(1) seq show "journal_ok env db'"
      by (auto simp: db_ok_def journal_ok_def db' evs)
  qed
qed

section \<open>The capture transaction\<close>

lemma request_event_eq_Inr:
  "request_event req n t = Inr e \<longleftrightarrow>
     valid_event e \<and> e = \<lparr>ev_id = req_event_id req, ev_session_key = req_session_key req,
       ev_sequence = n, ev_type = req_type req, ev_role = fst (event_mapping (req_type req)),
       ev_content = req_content req, ev_source_hook = snd (event_mapping (req_type req)),
       ev_idempotency_key = req_idem req, ev_token_count = req_tokens req, ev_created_at = t\<rparr>"
  by (auto simp: request_event_def create_event_def result_simps split: prod.splits if_splits)

lemma event_row_of_roundtrip:
  assumes "event_row_of env e = Inr r" "valid_event e"
  shows "event_from_row env (ev_session_key e) r = Inr e"
  using assms by (auto simp: event_row_of_def event_from_row_def result_simps valid_event_def)

lemma record_canonical_observation_idempotent:
  assumes "record_canonical_observation env h a c t db = Inr db'"
  shows "record_canonical_observation env h a c t db' = Inr db'"
proof (cases "co_count c")
  case None
  with assms obtain m where m: "get_metric env db EVENT_ARTIFACT a (co_profile c) = Inr m"
    by (auto simp: record_canonical_observation_def bind_eq_Inr)
  show ?thesis
  proof (cases m)
    case (Some _)
    with None m assms show ?thesis by (simp add: record_canonical_observation_def)
  next
    case m_None: None
    let ?r = "\<lparr>ir_hash = h, ir_kind = EVENT_ARTIFACT, ir_artifact = a, ir_profile = co_profile c,
      ir_created_at = t\<rparr>"
    from None m m_None assms have ins: "insert_intent ?r db = Inr db'"
      by (simp add: record_canonical_observation_def)
    then have "get_metric env db' EVENT_ARTIFACT a (co_profile c) = Inr None"
      "insert_intent ?r db' = Inr db'"
      using m m_None
      by (auto simp: insert_intent_def result_simps get_metric_def intent_matches_def
          split: if_splits)
    with None show ?thesis by (simp add: record_canonical_observation_def)
  qed
next
  case (Some n)
  let ?m = "\<lparr>tm_kind = EVENT_ARTIFACT, tm_artifact = a, tm_profile = co_profile c, tm_count = n\<rparr>"
  from Some assms obtain db1 where v: "valid_metric ?m" and put: "put_metric env ?m t db = Inr db1"
    and db': "db' = delete_intent EVENT_ARTIFACT a (co_profile c) db1"
    by (auto simp: record_canonical_observation_def result_simps)
  from v have "tm_count ?m \<ge> 0" by (simp add: valid_metric_def)
  from put_metric_get[OF this put] have "put_metric env ?m t db' = Inr db'"
    by (simp add: put_metric_def db' delete_intent_def get_metric_def)
  with v Some show ?thesis
    by (simp add: record_canonical_observation_def db' delete_intent_def delete_where_def)
qed

text \<open>The two ways a capture returns.\<close>

lemma capture_event_body_cases:
  assumes "capture_event_body env req db = Inr (e, db')"
  obtains t db1 requested where "req_created_at req = Aware t"
    "request_event req 1 t = Inr requested"
    "ensure_session env (req_session_key req) t db = Inr db1"
    "\<not> env_fault env ''capture.after_session''" "\<not> env_fault env ''capture.after_metric''"
    "find_idempotent_event env db1 (req_session_key req) (ev_source_hook requested) (req_idem req)
       = Inr (Some e)" "is_exact_replay e requested"
    "record_canonical_observation env (env_hash env (req_session_key req)) (ev_id e)
       (req_canonical req) t db1 = Inr db'"
  | t db1 requested s r db2 where "req_created_at req = Aware t"
    "request_event req 1 t = Inr requested"
    "ensure_session env (req_session_key req) t db = Inr db1"
    "\<not> env_fault env ''capture.after_session''" "\<not> env_fault env ''capture.after_metric''"
    "find_idempotent_event env db1 (req_session_key req) (ev_source_hook requested) (req_idem req)
       = Inr None"
    "find_session db1 (env_hash env (req_session_key req)) = Some s"
    "request_event req (ses_next_sequence s) t = Inr e" "event_row_of env e = Inr r"
    "insert_event r (allocate_sequence (env_hash env (req_session_key req)) (ses_next_sequence s) t
       db1) = Inr db2"
    "record_canonical_observation env (env_hash env (req_session_key req)) (ev_id e)
       (req_canonical req) t db2 = Inr db'"
proof -
  from assms obtain t requested db1 existing where c: "req_created_at req = Aware t"
    "request_event req 1 t = Inr requested"
    "ensure_session env (req_session_key req) t db = Inr db1"
    "\<not> env_fault env ''capture.after_session''"
    "find_idempotent_event env db1 (req_session_key req) (ev_source_hook requested) (req_idem req)
       = Inr existing"
    and rest: "(case existing of
       Some e \<Rightarrow>
         bind (guard (is_exact_replay e requested) IdempotencyConflict) (\<lambda>_.
         bind (record_canonical_observation env (env_hash env (req_session_key req)) (ev_id e)
                 (req_canonical req) t db1) (\<lambda>db2.
         bind (inject env ''capture.after_metric'') (\<lambda>_.
         Inr (e, db2))))
     | None \<Rightarrow> append_event env req t db1) = Inr (e, db')"
    unfolding capture_event_body_def bind_eq_Inr inject_eq_Inr normalize_datetime_eq_Inr by blast
  show thesis
  proof (cases existing)
    case None
    with rest have "append_event env req t db1 = Inr (e, db')" by simp
    then obtain s r db2 where
      "\<not> env_fault env ''capture.after_metric''"
      "find_session db1 (env_hash env (req_session_key req)) = Some s"
      "request_event req (ses_next_sequence s) t = Inr e" "event_row_of env e = Inr r"
      "insert_event r (allocate_sequence (env_hash env (req_session_key req)) (ses_next_sequence s)
         t db1) = Inr db2"
      "record_canonical_observation env (env_hash env (req_session_key req)) (ev_id e)
         (req_canonical req) t db2 = Inr db'"
      unfolding append_event_def Let_def bind_eq_Inr inject_eq_Inr option_or_eq_Inr recast_eq_Inr
      by auto
    with c None that(2) show thesis by blast
  next
    case (Some e')
    with rest have "is_exact_replay e requested" "e' = e" "\<not> env_fault env ''capture.after_metric''"
      "record_canonical_observation env (env_hash env (req_session_key req)) (ev_id e)
       (req_canonical req) t db1 = Inr db'"
      by (auto simp: result_simps)
    with c Some that(1) show thesis by blast
  qed
qed

lemma capture_append_event:
  assumes ok: "db_ok env db1" and s: "find_session db1 (env_hash env (req_session_key req)) = Some s"
    and e: "request_event req (ses_next_sequence s) t = Inr e" and r: "event_row_of env e = Inr r"
    and ins: "insert_event r (allocate_sequence (env_hash env (req_session_key req))
      (ses_next_sequence s) t db1) = Inr db2"
  shows "db_ok env db2" "db_events db2 = db_events db1 @ [r]"
    "event_from_row env (req_session_key req) r = Inr e"
    "er_hash r = env_hash env (req_session_key req)"
    "ev_sequence e = high_water db1 (env_hash env (req_session_key req)) + 1"
    "high_water db2 (env_hash env (req_session_key req)) = ev_sequence e"
proof -
  from e have v: "valid_event e" "ev_session_key e = req_session_key req"
    "ev_sequence e = ses_next_sequence s" by (auto simp: request_event_eq_Inr)
  from r v have h: "er_hash r = env_hash env (req_session_key req)"
    "er_sequence r = ses_next_sequence s" by (auto simp: event_row_of_def result_simps)
  show "db_ok env db2"
    using db_ok_append_event[OF ok s event_row_of_ok[OF r v(1)] h ins] .
  show "db_events db2 = db_events db1 @ [r]"
    using ins by (simp add: insert_event_eq_Inr allocate_sequence_def)
  show "event_from_row env (req_session_key req) r = Inr e"
    using event_row_of_roundtrip[OF r v(1)] v(2) by simp
  show "er_hash r = env_hash env (req_session_key req)" by fact
  show "ev_sequence e = high_water db1 (env_hash env (req_session_key req)) + 1"
    using v(3) s by (simp add: high_water_def)
  show "high_water db2 (env_hash env (req_session_key req)) = ev_sequence e"
    using ins s v(3) allocate_sequence_find[OF s, of t]
    by (simp add: insert_event_eq_Inr high_water_def)
qed

lemma capture_event_body_ok:
  assumes ok: "db_ok env db" and run: "capture_event_body env req db = Inr (e, db')"
  shows "db_ok env db'"
  using run
proof (cases rule: capture_event_body_cases)
  case (1 t db1 requested)
  from ensure_session_ok(1)[OF ok 1(3)] record_canonical_observation_same_core[OF 1(8)]
  show ?thesis by (simp add: same_core_ok)
next
  case (2 t db1 requested s r db2)
  from capture_append_event(1)[OF ensure_session_ok(1)[OF ok 2(3)] 2(7-10)]
    record_canonical_observation_same_core[OF 2(11)]
  show ?thesis by (simp add: same_core_ok)
qed

lemma ensure_session_existing:
  assumes ok: "db_ok env db" and key: "stored_key db (env_hash env k) = Some k"
  shows "ensure_session env k t db = Inr db"
proof -
  from key obtain s where s: "find_session db (env_hash env k) = Some s" by (auto simp: stored_key_def)
  from session_key_from_storage_ok[OF ok s] key
  have "session_key_from_storage env (env_hash env k) (ses_canonical s) = Inr k" by auto
  with s show ?thesis by (simp add: ensure_session_def)
qed

lemma same_core_stored_key: "same_core db db' \<Longrightarrow> stored_key db' h = stored_key db h"
  by (auto simp: same_core_def)

lemma find_idempotent_event_same:
  "db_events db' = db_events db \<Longrightarrow>
   find_idempotent_event env db' k hook i = find_idempotent_event env db k hook i"
  by (simp add: find_idempotent_event_def)

text \<open>A capture whose event is stored replays.\<close>

lemma capture_event_body_replays:
  assumes ok: "db_ok env db" and key: "stored_key db (env_hash env (req_session_key req)) = Some (req_session_key req)"
    and t: "req_created_at req = Aware t" "request_event req 1 t = Inr requested"
    and fault: "\<not> env_fault env ''capture.after_session''" "\<not> env_fault env ''capture.after_metric''"
    and idem: "find_idempotent_event env db (req_session_key req) (ev_source_hook requested) (req_idem req)
      = Inr (Some e)" "is_exact_replay e requested"
    and metric: "record_canonical_observation env (env_hash env (req_session_key req)) (ev_id e)
      (req_canonical req) t db = Inr db"
  shows "capture_event_body env req db = Inr (e, db)"
  using ensure_session_existing[OF ok key, of t] t fault idem metric
  by (simp add: capture_event_body_def normalize_datetime_def inject_def)

end
