(* ===== verification/Publication_Laws.thy ===== *)
theory Publication_Laws
  imports Job_Laws Journal_Laws
begin

text \<open>
  Publication keeps the durable invariant: the rows a committed candidate leaves behind can be
  read back as exactly the snapshot and the ordered capsules that were published, earlier
  snapshots stay readable, and a conflicting candidate leaves none of its rows.
\<close>

section \<open>Capsules\<close>

lemma capsule_row_of_roundtrip:
  assumes "capsule_row_of env c = Inr r" "valid_capsule c"
  shows "capsule_from_row env (cap_session_key c) r = Inr c" "cr_id r = cap_id c"
    "cr_hash r = env_hash env (cap_session_key c)"
  using assms by (auto simp: capsule_row_of_def capsule_from_row_def result_simps valid_capsule_def)

lemma capsule_constraints_ids:
  assumes "capsule_constraints db r" "distinct (map cr_id (db_capsules db))"
  shows "distinct (map cr_id (db_capsules db @ [r]))"
  using assms by (auto simp: capsule_constraints_def)

text \<open>The rows a sequence of capsule inserts adds, and that every capsule can then be read.\<close>

definition capsules_added :: "env \<Rightarrow> session_key \<Rightarrow> capsule_row list \<Rightarrow> db \<Rightarrow> db \<Rightarrow> bool" where
  "capsules_added env k rows db db' \<longleftrightarrow>
     db' = db\<lparr>db_capsules := db_capsules db @ rows\<rparr> \<and>
     (distinct (map cr_id (db_capsules db)) \<longrightarrow> distinct (map cr_id (db_capsules db'))) \<and>
     (\<forall>r \<in> set rows. cr_hash r = env_hash env k \<and> (\<exists>c. capsule_from_row env k r = Inr c))"

definition capsule_present :: "env \<Rightarrow> session_key \<Rightarrow> capsule \<Rightarrow> db \<Rightarrow> bool" where
  "capsule_present env k c db \<longleftrightarrow>
     (\<exists>r \<in> set (db_capsules db). cr_id r = cap_id c \<and> capsule_from_row env k r = Inr c)"

lemma insert_or_verify_capsule_effect:
  assumes run: "insert_or_verify_capsule env c db = Inr db'"
    and c: "valid_capsule c" "cap_session_key c = k"
  shows "\<exists>rows. capsules_added env k rows db db'" "capsule_present env k c db'"
proof -
  have "(\<exists>rows. capsules_added env k rows db db') \<and> capsule_present env k c db'"
  proof (cases "fetchone (\<lambda>r. cr_id r = cap_id c) (db_capsules db)")
    case None
    with run obtain row where row: "capsule_row_of env c = Inr row" "capsule_constraints db row"
      "db' = db\<lparr>db_capsules := db_capsules db @ [row]\<rparr>"
      by (auto simp: insert_or_verify_capsule_def result_simps)
    note rt = capsule_row_of_roundtrip[OF row(1) c(1), unfolded c(2)]
    have "capsules_added env k [row] db db'"
      using rt row capsule_constraints_ids[OF row(2)] by (auto simp: capsules_added_def)
    moreover have "capsule_present env k c db'" using rt row by (auto simp: capsule_present_def)
    ultimately show ?thesis by blast
  next
    case (Some row)
    then have row: "row \<in> set (db_capsules db)" "cr_id row = cap_id c"
      by (auto dest: fetchone_SomeD)
    from run Some have "db' = db" and "capsule_from_row env k row = Inr c"
      using c row(2)
      by (auto simp: insert_or_verify_capsule_def capsule_from_row_def result_simps)
    moreover from this(1) have "capsules_added env k [] db db'" by (simp add: capsules_added_def)
    ultimately show ?thesis using row by (auto simp: capsule_present_def)
  qed
  then show "\<exists>rows. capsules_added env k rows db db'" "capsule_present env k c db'" by auto
qed

lemma capsules_added_trans:
  assumes "capsules_added env k r1 a b" "capsules_added env k r2 b c"
  shows "capsules_added env k (r1 @ r2) a c"
  using assms by (auto simp: capsules_added_def simp del: map_append distinct_append)

lemma capsule_present_added:
  assumes "capsule_present env k c a" "capsules_added env k rows a b"
  shows "capsule_present env k c b"
  using assms by (auto simp: capsule_present_def capsules_added_def)

lemma catch_integrity_eq_Some [result_simps]:
  "catch_integrity m = Inr (Some d) \<longleftrightarrow> m = Inr d"
  by (auto simp: catch_integrity_def split: sum.splits)

lemma bind_staged_eq_Some [result_simps]:
  "bind_staged m f = Inr (Some d) \<longleftrightarrow> (\<exists>x. m = Inr (Some x) \<and> f x = Inr (Some d))"
  by (auto simp: bind_staged_def bind_eq_Inr split: option.splits)

lemma stage_capsules_effect:
  assumes "stage_capsules env ms db = Inr (Some db')"
    and "\<forall>m \<in> set ms. valid_capsule (mem_capsule m) \<and> cap_session_key (mem_capsule m) = k"
  shows "(\<exists>rows. capsules_added env k rows db db') \<and>
    (\<forall>m \<in> set ms. capsule_present env k (mem_capsule m) db')"
  using assms
proof (induction ms arbitrary: db)
  case Nil
  then have "capsules_added env k [] db db'" by (simp add: capsules_added_def)
  then show ?case by auto
next
  case (Cons m ms)
  then obtain db1 where one: "insert_or_verify_capsule env (mem_capsule m) db = Inr db1"
    and rest: "stage_capsules env ms db1 = Inr (Some db')"
    by (auto simp: result_simps)
  from Cons.prems(2) have c: "valid_capsule (mem_capsule m)" "cap_session_key (mem_capsule m) = k"
    by auto
  from insert_or_verify_capsule_effect[OF one c] obtain r1 where
    r1: "capsules_added env k r1 db db1" and p: "capsule_present env k (mem_capsule m) db1" by auto
  from Cons.IH[OF rest] Cons.prems(2) obtain r2 where
    r2: "capsules_added env k r2 db1 db'"
    and ps: "\<forall>m \<in> set ms. capsule_present env k (mem_capsule m) db'" by auto
  from capsules_added_trans[OF r1 r2] capsule_present_added[OF p r2] ps show ?case by auto
qed

section \<open>Membership rows\<close>

definition membership_row_of :: "string \<Rightarrow> membership \<Rightarrow> membership_row" where
  "membership_row_of sid m =
     \<lparr>mr_snapshot = sid, mr_ordinal = mem_ordinal m, mr_capsule = mem_capsule_id m,
      mr_slot = mem_slot m\<rparr>"

lemma stage_memberships_effect:
  assumes "stage_memberships env sid ms db = Inr (Some db')"
  shows "db' = db\<lparr>db_memberships := db_memberships db @ map (membership_row_of sid) ms\<rparr>"
  using assms
proof (induction ms arbitrary: db)
  case (Cons m ms)
  then obtain db1 where "insert_membership (membership_row_of sid m) db = Inr db1"
    "stage_memberships env sid ms db1 = Inr (Some db')"
    by (auto simp: result_simps membership_row_of_def)
  with Cons.IH[of db1] show ?case by (simp add: insert_membership_eq_Inr)
qed simp

lemma write_ledger_effect:
  assumes "write_ledger env sid n rs db = Inr db'"
  shows "\<exists>rows. db' = db\<lparr>db_ledger := rows\<rparr>"
  using assms
proof (induction rs arbitrary: n db)
  case Nil
  then show ?case by (intro exI[of _ "db_ledger db"]) simp
next
  case (Cons r rs)
  then obtain db1 row where "insert_ledger row db = Inr db1"
    "write_ledger env sid (n + 1) rs db1 = Inr db'" by (auto simp: result_simps)
  with Cons.IH[of "n + 1" db1] show ?case by (auto simp: insert_ledger_eq_Inr)
qed

text \<open>Reading the join back.\<close>

lemma decode_memberships_all:
  assumes "list_all2 (\<lambda>m (row, cr). row = membership_row_of sid m \<and>
      capsule_from_row env k cr = Inr (mem_capsule m)) ms pairs"
    and "map mem_ordinal ms = upto n (n + int (length ms) - 1)"
  shows "decode_memberships env k n pairs = Inr ms"
  using assms
proof (induction ms pairs arbitrary: n rule: list_all2_induct)
  case (Cons m ms p pairs)
  from Cons.prems have "mem_ordinal m = n" "map mem_ordinal ms = upto (n + 1) (n + 1 + int (length ms) - 1)"
    by (simp_all add: upto_rec1)
  with Cons show ?case by (cases p) (auto simp: membership_row_of_def)
qed simp

lemma sort_key_sorted:
  assumes "map f xs = upto a b"
  shows "sort_key f xs = xs"
proof -
  have "sorted (upto a b)" by (simp add: sorted_upto)
  then have "sorted (map f xs)" by (simp add: assms)
  then show ?thesis by (simp add: sort_key_id_if_sorted)
qed

text \<open>
  What a staged candidate adds to the content tables: capsule rows under fresh ids, one
  snapshot row under a fresh id, and that snapshot's membership rows.
\<close>

definition content_added ::
  "env \<Rightarrow> session_key \<Rightarrow> snapshot_row \<Rightarrow> membership list \<Rightarrow> db \<Rightarrow> db \<Rightarrow> bool" where
  "content_added env k row ms db db' \<longleftrightarrow>
     (\<exists>caps. db_capsules db' = db_capsules db @ caps \<and>
        (\<forall>r \<in> set caps. cr_hash r = env_hash env k \<and> (\<exists>c. capsule_from_row env k r = Inr c))) \<and>
     distinct (map cr_id (db_capsules db')) \<and>
     db_snapshots db' = db_snapshots db @ [row] \<and> distinct (map nr_id (db_snapshots db')) \<and>
     db_memberships db' = db_memberships db @ map (membership_row_of (nr_id row)) ms \<and>
     (\<forall>m \<in> set ms. capsule_present env k (mem_capsule m) db') \<and>
     map mem_ordinal ms = range_list 0 (int (length ms)) \<and>
     db_sessions db' = db_sessions db \<and> db_events db' = db_events db \<and> db_jobs db' = db_jobs db"

lemma content_added_old_join:
  assumes ok: "content_ok env db" and add: "content_added env k row ms db db'"
    and sid: "sid \<noteq> nr_id row"
  shows "membership_join db' sid = membership_join db sid"
proof -
  from add obtain caps where caps: "db_capsules db' = db_capsules db @ caps"
    and dis: "distinct (map cr_id (db_capsules db @ caps))"
    and mem: "db_memberships db' = db_memberships db @ map (membership_row_of (nr_id row)) ms"
    by (auto simp: content_added_def)
  have old: "filter (\<lambda>m. mr_snapshot m = sid) (db_memberships db') =
    filter (\<lambda>m. mr_snapshot m = sid) (db_memberships db)"
    using sid by (auto simp: mem membership_row_of_def filter_empty_conv)
  have "filter (\<lambda>c. cr_id c = mr_capsule m) caps = []" if m: "m \<in> set (db_memberships db)" for m
  proof -
    from ok m obtain c where "c \<in> set (db_capsules db)" "cr_id c = mr_capsule m"
      by (auto simp: content_ok_def)
    with dis show ?thesis
      by (simp add: filter_empty_conv) (metis IntI empty_iff imageI)
  qed
  then show ?thesis unfolding membership_join_def old
    by (intro arg_cong[where f = concat] map_cong) (simp_all add: caps)
qed

lemma content_added_new_memberships:
  assumes ok: "content_ok env db" and add: "content_added env k row ms db db'"
  shows "memberships_for_snapshot env db' (nr_id row) k = Inr ms"
proof -
  let ?rows = "map (membership_row_of (nr_id row)) ms"
  from add have dis: "distinct (map cr_id (db_capsules db'))"
    and present: "\<forall>m \<in> set ms. capsule_present env k (mem_capsule m) db'"
    and ord: "map mem_ordinal ms = range_list 0 (int (length ms))"
    and mem: "db_memberships db' = db_memberships db @ ?rows"
    and fresh: "nr_id row \<notin> nr_id ` set (db_snapshots db)"
    by (auto simp: content_added_def)
  have none: "mr_snapshot m \<noteq> nr_id row" if "m \<in> set (db_memberships db)" for m
  proof -
    from ok that obtain s where "s \<in> set (db_snapshots db)" "nr_id s = mr_snapshot m"
      by (auto simp: content_ok_def snapshot_exists_def)
    with fresh show ?thesis by (metis imageI)
  qed
  have own: "filter (\<lambda>m. mr_snapshot m = nr_id row) (db_memberships db') = ?rows"
    using none by (auto simp: mem membership_row_of_def filter_empty_conv)
  have "map mr_ordinal ?rows = range_list 0 (int (length ms))"
    using ord by (simp add: membership_row_of_def comp_def)
  then have sorted: "sort_key mr_ordinal ?rows = ?rows" by (rule sort_key_sorted)
  obtain f where f: "\<And>m. m \<in> set ms \<Longrightarrow> f m \<in> set (db_capsules db') \<and>
      cr_id (f m) = mem_capsule_id m \<and> capsule_from_row env k (f m) = Inr (mem_capsule m)"
    using present unfolding capsule_present_def by metis
  have one: "filter (\<lambda>c. cr_id c = mem_capsule_id m) (db_capsules db') = [f m]" if "m \<in> set ms" for m
  proof (rule filter_unique)
    show "distinct (db_capsules db')" using dis by (simp add: distinct_map)
    show "f m \<in> set (db_capsules db')" "cr_id (f m) = mem_capsule_id m" using f[OF that] by auto
    show "\<forall>r \<in> set (db_capsules db'). cr_id r = mem_capsule_id m \<longrightarrow> r = f m"
      using f[OF that] distinct_map_inj[OF dis] by fastforce
  qed
  have "concat (map (\<lambda>m. map (Pair m) (filter (\<lambda>c. cr_id c = mr_capsule m) (db_capsules db')))
      (map (membership_row_of (nr_id row)) xs)) = map (\<lambda>m. (membership_row_of (nr_id row) m, f m)) xs"
    if "set xs \<subseteq> set ms" for xs
    using that one by (induction xs) (simp_all add: membership_row_of_def)
  then have join: "membership_join db' (nr_id row) =
      map (\<lambda>m. (membership_row_of (nr_id row) m, f m)) ms"
    unfolding membership_join_def own sorted by simp
  show ?thesis unfolding memberships_for_snapshot_def join
  proof (rule decode_memberships_all)
    show "list_all2 (\<lambda>m (r, cr). r = membership_row_of (nr_id row) m \<and>
        capsule_from_row env k cr = Inr (mem_capsule m)) ms
        (map (\<lambda>m. (membership_row_of (nr_id row) m, f m)) ms)"
      using f by (auto simp: list_all2_conv_all_nth)
  qed (simp add: ord)
qed

lemma content_added_ok:
  assumes ok: "content_ok env db" and add: "content_added env k row ms db db'"
    and key: "stored_key db (env_hash env k) = Some k" and hash: "nr_hash row = env_hash env k"
    and new: "snapshot_from_row env k (map mem_capsule_id ms) row = Inr s"
      "validate_snapshot_memberships s ms = Inr ()" "nr_state row = SNAPSHOT_COMMITTED"
      "nr_source_hwm row = nr_covered_end row" "nr_covered_end row \<le> high_water db (env_hash env k)"
  shows "content_ok env db'"
proof -
  from add obtain caps where caps: "db_capsules db' = db_capsules db @ caps"
    "\<forall>r \<in> set caps. cr_hash r = env_hash env k \<and> (\<exists>c. capsule_from_row env k r = Inr c)"
    and ses: "db_sessions db' = db_sessions db" and snaps: "db_snapshots db' = db_snapshots db @ [row]"
    and mem: "db_memberships db' = db_memberships db @ map (membership_row_of (nr_id row)) ms"
    and present: "\<forall>m \<in> set ms. capsule_present env k (mem_capsule m) db'"
    and dis: "distinct (map cr_id (db_capsules db'))" "distinct (map nr_id (db_snapshots db'))"
    by (auto simp: content_added_def)
  have same: "stored_key db' h = stored_key db h" "high_water db' h = high_water db h" for h
    using ses by (simp_all add: stored_key_def high_water_def find_session_def)
  have cap: "capsule_row_ok env db' r" if "r \<in> set (db_capsules db')" for r
    using that ok caps key by (auto simp: content_ok_def capsule_row_ok_def same)
  have mems: "snapshot_exists db' (mr_snapshot m) \<and> (\<exists>c \<in> set (db_capsules db'). cr_id c = mr_capsule m)"
    if m: "m \<in> set (db_memberships db')" for m
  proof (cases "m \<in> set (db_memberships db)")
    case True
    with ok show ?thesis by (auto simp: content_ok_def snapshot_exists_def snaps caps(1))
  next
    case False
    with m mem present show ?thesis
      by (fastforce simp: membership_row_of_def snapshot_exists_def snaps capsule_present_def)
  qed
  have "snapshot_row_ok env db' r" if r: "r \<in> set (db_snapshots db')" for r
  proof (cases "r \<in> set (db_snapshots db)")
    case True
    from dis(2) snaps have "nr_id row \<notin> nr_id ` set (db_snapshots db)" by simp
    with True have "nr_id r \<noteq> nr_id row" by (metis imageI)
    from content_added_old_join[OF ok add this] have
      "memberships_for_snapshot env db' (nr_id r) k' = memberships_for_snapshot env db (nr_id r) k'" for k'
      by (simp add: memberships_for_snapshot_def)
    with ok True show ?thesis
      by (auto simp: content_ok_def snapshot_row_ok_def snapshot_readable_def same)
  next
    case False
    with r snaps have "r = row" by simp
    with content_added_new_memberships[OF ok add] key hash new show ?thesis
      by (auto simp: snapshot_row_ok_def snapshot_readable_def same)
  qed
  with cap mems dis show ?thesis by (simp add: content_ok_def)
qed

section \<open>Staging a candidate\<close>

lemma publish_checks_facts:
  assumes "publish_checks env i owner epoch now pub db = Inr (j, committed, records)"
  obtains row prev prev_ms events where
    "find_job db i = Some row" "fence_live row owner epoch now" "jr_state row = READY_TO_COMMIT"
    "jr_candidate row = Some (snap_id (pub_snapshot pub))" "job_by_id env db i = Inr j"
    "snap_session_key (pub_snapshot pub) = job_session_key j"
    "validate_candidate_memberships (pub_snapshot pub) (pub_memberships pub) = Inr ()"
    "committed = committed_form (pub_snapshot pub) now" "valid_snapshot committed"
    "rep_passed (validate_permanent (publish_gate_input j pub prev prev_ms events))"
    "case job_base_snapshot_id j of None \<Rightarrow> prev = None \<and> prev_ms = []
     | Some b \<Rightarrow> (\<exists>s. prev = Some s \<and>
         snapshot_bundle_by_id env db b (job_session_key j) = Inr (s, prev_ms))"
    "events_between env db (job_session_key j)
       (case prev of None \<Rightarrow> 0 | Some s \<Rightarrow> snap_covered_event_end s) (job_target_hwm j) = Inr events"
proof -
  have floor: "rep_passed (apply_quality_floor rep rs) \<Longrightarrow> rep_passed rep" for rep rs
    by (simp add: apply_quality_floor_def split: if_splits)
  from assms obtain row prev prev_ms events where
    "find_job db i = Some row" "fence_live row owner epoch now" "jr_state row = READY_TO_COMMIT"
    "jr_candidate row = Some (snap_id (pub_snapshot pub))" "job_by_id env db i = Inr j"
    "snap_session_key (pub_snapshot pub) = job_session_key j"
    "validate_candidate_memberships (pub_snapshot pub) (pub_memberships pub) = Inr ()"
    "committed = committed_form (pub_snapshot pub) now" "valid_snapshot committed"
    "rep_passed (validate_permanent (publish_gate_input j pub prev prev_ms events))"
    and base: "(case job_base_snapshot_id j of
             None \<Rightarrow> Inr (None, [])
           | Some b \<Rightarrow> bind (snapshot_bundle_by_id env db b (job_session_key j))
                         (\<lambda>(s, ms). Inr (Some s, ms))) = Inr (prev, prev_ms)"
    and "events_between env db (job_session_key j)
       (case prev of None \<Rightarrow> 0 | Some s \<Rightarrow> snap_covered_event_end s) (job_target_hwm j) = Inr events"
    unfolding publish_checks_def Let_def
    by (auto simp: bind_eq_Inr guard_eq_Inr require_live_fence_eq_Inr dest: floor)
  moreover from base have "case job_base_snapshot_id j of None \<Rightarrow> prev = None \<and> prev_ms = []
     | Some b \<Rightarrow> (\<exists>s. prev = Some s \<and>
         snapshot_bundle_by_id env db b (job_session_key j) = Inr (s, prev_ms))"
    by (auto simp: bind_eq_Inr split: option.splits)
  ultimately show thesis using that by blast
qed

text \<open>The effect of a compare-and-swap that wins.\<close>

definition pointer_won :: "env \<Rightarrow> job \<Rightarrow> snapshot \<Rightarrow> db \<Rightarrow> db \<Rightarrow> bool" where
  "pointer_won env j s db db' \<longleftrightarrow>
     (let h = env_hash env (job_session_key j) in
      db' = db\<lparr>db_pointers := db_pointers db'\<rparr> \<and> pointer_constraints db (db_pointers db') \<and>
      (\<forall>p \<in> set (db_pointers db'). p \<in> set (db_pointers db) \<or>
         pr_hash p = h \<and> pr_snapshot p = snap_id s) \<and>
      (\<exists>p. find_pointer db' h = Some p \<and> pr_snapshot p = snap_id s \<and>
         pr_version p = job_base_pointer_version j + 1) \<and>
      (\<forall>h'. h' \<noteq> h \<longrightarrow> find_pointer db' h' = find_pointer db h') \<and>
      job_base_snapshot_id j = map_option pr_snapshot (find_pointer db h) \<and>
      job_base_pointer_version j = (case find_pointer db h of None \<Rightarrow> 0 | Some p \<Rightarrow> pr_version p))"

lemma cas_active_pointer_won:
  assumes run: "cas_active_pointer env j s now db = Inr (True, db')"
    and version: "job_base_snapshot_id j = None \<Longrightarrow> job_base_pointer_version j = 0"
  shows "pointer_won env j s db db'"
proof (cases "job_base_snapshot_id j")
  case None
  let ?h = "env_hash env (job_session_key j)"
  let ?new = "\<lparr>pr_hash = ?h, pr_snapshot = snap_id s, pr_version = 1, pr_updated_at = now\<rparr>"
  from run None have absent: "\<forall>p \<in> set (db_pointers db). pr_hash p \<noteq> ?h"
    and db': "db' = db\<lparr>db_pointers := db_pointers db @ [?new]\<rparr>"
      "pointer_constraints db (db_pointers db @ [?new])"
    by (auto simp: cas_active_pointer_def result_simps split: if_splits)
  from absent have "find_pointer db ?h = None" by (simp add: find_pointer_def fetchone_None_iff)
  with None db' version show ?thesis
    by (auto simp: pointer_won_def find_pointer_def fetchone_append split: option.splits)
next
  case (Some b)
  let ?h = "env_hash env (job_session_key j)"
  let ?q = "\<lambda>r. pr_hash r = ?h \<and> pr_snapshot r = b \<and> pr_version r = job_base_pointer_version j"
  let ?f = "\<lambda>r. r\<lparr>pr_snapshot := snap_id s, pr_version := pr_version r + 1, pr_updated_at := now\<rparr>"
  from run Some have db': "db' = db\<lparr>db_pointers := update_where ?q ?f (db_pointers db)\<rparr>"
    "pointer_constraints db (update_where ?q ?f (db_pointers db))"
    and cnt: "rowcount ?q (db_pointers db) = 1"
    by (auto simp: cas_active_pointer_def result_simps)
  from cnt obtain p where p: "p \<in> set (db_pointers db)" "?q p"
    using rowcount_pos_iff[of ?q "db_pointers db"] by auto
  have "map pr_hash (update_where ?q ?f (db_pointers db)) = map pr_hash (db_pointers db)"
    by (auto intro: map_update_where_same)
  with db'(2) have "distinct (map pr_hash (db_pointers db))" by (simp add: pointer_constraints_def)
  from fetchone_key[OF this p(1)] p(2) have old: "find_pointer db ?h = Some p"
    by (simp add: find_pointer_def)
  have look: "find_pointer db' h = map_option (\<lambda>r. if ?q r then ?f r else r) (find_pointer db h)" for h
    unfolding find_pointer_def db'(1) by (simp add: fetchone_update_where)
  have other: "find_pointer db' h = find_pointer db h" if "h \<noteq> ?h" for h
  proof (cases "find_pointer db h")
    case (Some r)
    then have "pr_hash r = h" by (auto simp: find_pointer_def dest: fetchone_SomeD)
    with that Some show ?thesis by (simp add: look)
  qed (simp add: look)
  have members: "\<forall>p \<in> set (db_pointers db').
      p \<in> set (db_pointers db) \<or> pr_hash p = ?h \<and> pr_snapshot p = snap_id s"
    by (auto simp: db'(1) set_update_where)
  have "find_pointer db' ?h = Some (?f p)" using p(2) by (simp add: look old)
  with Some p(2) old other members db' show ?thesis by (simp add: pointer_won_def)
qed

lemma pointer_won_tables:
  assumes "pointer_won env j s db db'"
  shows "\<exists>rows. db' = db\<lparr>db_pointers := rows\<rparr>"
proof -
  from assms have "db' = db\<lparr>db_pointers := db_pointers db'\<rparr>"
    unfolding pointer_won_def Let_def by (rule conjunct1)
  then show ?thesis by (rule exI)
qed

lemma stage_candidate_effect:
  assumes run: "stage_candidate env j committed records pub now db = Inr (Some db')"
    and ok: "content_ok env db" and ms: "pub_memberships pub = ms"
    and caps: "\<forall>m \<in> set ms. valid_capsule (mem_capsule m) \<and> cap_session_key (mem_capsule m) = k"
    and ord: "map mem_ordinal ms = range_list 0 (int (length ms))"
  obtains row db5 where "snapshot_row_of env committed = Inr row"
    "content_added env k row ms db db5" "db_pointers db5 = db_pointers db"
    "cas_active_pointer env j committed now db5 = Inr (True, db')"
proof -
  from run ms obtain db1 db2 db3 db4 db5 row where
    st1: "stage_capsules env ms db = Inr (Some db1)" and
    st2: "snapshot_row_of env committed = Inr row" "insert_snapshot row db1 = Inr db2" and
    st3: "stage_memberships env (snap_id committed) ms db2 = Inr (Some db3)" and
    st4: "write_ledger env (snap_id committed) 0 records db3 = Inr db4" and
    st5: "(case pub_metrics pub of None \<Rightarrow> Inr db4
           | Some ms \<Rightarrow> foldM (write_publish_metric env now) db4 ms) = Inr db5" and
    st6: "cas_active_pointer env j committed now db5 = Inr (True, db')"
    by (auto simp: stage_candidate_def insert_committed_snapshot_def result_simps split: if_splits)
  from st2(1) have rid: "nr_id row = snap_id committed" by (auto simp: snapshot_row_of_def result_simps)
  from stage_capsules_effect[OF st1 caps] obtain rows where
    c1: "capsules_added env k rows db db1"
    and pres: "\<forall>m \<in> set ms. capsule_present env k (mem_capsule m) db1" by auto
  have db3: "db3 = db2\<lparr>db_memberships := db_memberships db2 @ map (membership_row_of (snap_id committed)) ms\<rparr>"
    using stage_memberships_effect[OF st3] .
  obtain led where db4: "db4 = db3\<lparr>db_ledger := led\<rparr>" using write_ledger_effect[OF st4] by auto
  have sc: "same_core db4 db5"
  proof (cases "pub_metrics pub")
    case (Some metrics)
    with st5 have "foldM (write_publish_metric env now) db4 metrics = Inr db5" by simp
    then show ?thesis
      by (rule foldM_invariant) (auto intro: same_core_trans write_publish_metric_same_core)
  qed (use st5 in simp)
  note t5 = same_core_tables[OF sc]
  from st2(2) have db2: "db2 = db1\<lparr>db_snapshots := db_snapshots db1 @ [row]\<rparr>"
    and fresh: "snapshot_constraints db1 row" by (simp_all add: insert_snapshot_eq_Inr)
  from c1 have db1: "db1 = db\<lparr>db_capsules := db_capsules db @ rows\<rparr>" by (simp add: capsules_added_def)
  have "content_added env k row ms db db5"
    using c1 ok pres fresh ord
    by (auto simp: content_added_def t5 db4 db3 db2 db1 rid capsules_added_def content_ok_def
        snapshot_constraints_def capsule_present_def)
  moreover have "db_pointers db5 = db_pointers db" by (simp add: t5 db4 db3 db2 db1)
  ultimately show thesis using that st2(1) st6 by blast
qed

lemma snapshot_row_of_roundtrip:
  assumes "snapshot_row_of env s = Inr row" "valid_snapshot s" "snap_capsule_ids s = ids"
    "snap_state s = SNAPSHOT_COMMITTED"
  shows "snapshot_from_row env (snap_session_key s) ids row = Inr s"
    "nr_hash row = env_hash env (snap_session_key s)" "nr_id row = snap_id s"
    "nr_state row = SNAPSHOT_COMMITTED" "nr_covered_end row = snap_covered_event_end s"
    "nr_source_hwm row = snap_source_high_water_mark s"
proof -
  let ?seal = "\<lambda>c. Sealed (env_key_id env) ''snapshots'' c (snap_id s)"
  from assms(1) obtain t where t: "snap_committed_at s = Some t" and
    row: "row = \<lparr>nr_id = snap_id s, nr_hash = env_hash env (snap_session_key s),
          nr_base = snap_base_snapshot_id s, nr_covered_end = snap_covered_event_end s,
          nr_source_hwm = snap_source_high_water_mark s,
          nr_anchor_ids = Sealed (env_key_id env) ''snapshots'' ''exact_anchor_ids_json'' (snap_id s)
            (snap_exact_anchor_ids s),
          nr_rendered = ?seal ''rendered_context'' (snap_rendered_context s),
          nr_tokens = Sealed (env_key_id env) ''snapshots'' ''token_cost'' (snap_id s) (snap_token_cost s),
          nr_audit = Sealed (env_key_id env) ''snapshots'' ''audit_outcome'' (snap_id s)
            (snap_audit_outcome s),
          nr_state = SNAPSHOT_COMMITTED, nr_created_at = snap_created_at s, nr_committed_at = t\<rparr>"
    and cost: "snap_token_cost s \<ge> 0"
    by (auto simp: snapshot_row_of_def result_simps)
  have s: "\<lparr>snap_id = snap_id s, snap_session_key = snap_session_key s,
      snap_base_snapshot_id = snap_base_snapshot_id s,
      snap_covered_event_end = snap_covered_event_end s,
      snap_source_high_water_mark = snap_source_high_water_mark s, snap_capsule_ids = ids,
      snap_exact_anchor_ids = snap_exact_anchor_ids s,
      snap_rendered_context = snap_rendered_context s, snap_token_cost = snap_token_cost s,
      snap_audit_outcome = snap_audit_outcome s, snap_state = SNAPSHOT_COMMITTED,
      snap_created_at = snap_created_at s, snap_committed_at = Some t\<rparr> = s"
    using t assms(3,4) by simp
  show "snapshot_from_row env (snap_session_key s) ids row = Inr s"
    using assms(2) cost
    by (simp add: snapshot_from_row_def row unseal_def decrypt_non_negative_int_def s)
  show "nr_hash row = env_hash env (snap_session_key s)" "nr_id row = snap_id s"
    "nr_state row = SNAPSHOT_COMMITTED" "nr_covered_end row = snap_covered_event_end s"
    "nr_source_hwm row = snap_source_high_water_mark s" by (simp_all add: row)
qed

lemma frame_ok_pointers [simp]:
  "sessions_ok env (db\<lparr>db_pointers := rows\<rparr>) = sessions_ok env db"
  "journal_ok env (db\<lparr>db_pointers := rows\<rparr>) = journal_ok env db"
  "content_ok env (db\<lparr>db_pointers := rows\<rparr>) = content_ok env db"
  "jobs_ok (db\<lparr>db_pointers := rows\<rparr>) = jobs_ok db"
  by (simp_all add: ok_defs)

lemma based_on_added:
  assumes "content_added env k row ms db db'" "based_on db h b t"
  shows "based_on db' h b t"
  using assms by (auto simp: content_added_def based_on_def)

lemma db_ok_staged:
  assumes ok: "db_ok env db" and add: "content_added env k row ms db db5"
    and content: "content_ok env db5" and hash: "nr_hash row = env_hash env k"
    and ptr: "db_pointers db5 = db_pointers db"
    and won: "pointer_won env j s db5 db'" and j: "job_session_key j = k" "snap_id s = nr_id row"
  shows "db_ok env db'"
proof -
  from add have tables: "db_sessions db5 = db_sessions db" "db_events db5 = db_events db"
    "db_jobs db5 = db_jobs db" "db_snapshots db5 = db_snapshots db @ [row]"
    by (auto simp: content_added_def)
  have same: "high_water db5 h = high_water db h" "session_exists db5 h = session_exists db h"
    "session_events db5 h = session_events db h" for h
    using tables by (simp_all add: high_water_def find_session_def session_exists_def session_events_def)
  have ses: "sessions_ok env db5" "journal_ok env db5"
    using ok tables same by (simp_all add: db_ok_def sessions_ok_def journal_ok_def)
  have "job_row_ok db r \<Longrightarrow> job_row_ok db5 r" for r
    using based_on_added[OF add] by (simp add: job_row_ok_def same)
  with ok tables have jobs: "jobs_ok db5" by (simp add: db_ok_def jobs_ok_def)
  from won have db': "db' = db5\<lparr>db_pointers := db_pointers db'\<rparr>"
    and con: "pointer_constraints db5 (db_pointers db')"
    and mem: "\<forall>p \<in> set (db_pointers db'). p \<in> set (db_pointers db5) \<or>
         pr_hash p = env_hash env k \<and> pr_snapshot p = nr_id row"
    using j by (simp_all add: pointer_won_def)
  have "snapshot_of db5 (pr_hash p) (pr_snapshot p)" if p: "p \<in> set (db_pointers db')" for p
  proof (cases "p \<in> set (db_pointers db)")
    case True
    with ok tables show ?thesis by (auto simp: db_ok_def pointers_ok_def snapshot_of_def)
  next
    case False
    with mem p ptr have "pr_hash p = env_hash env k" "pr_snapshot p = nr_id row" by auto
    with tables hash show ?thesis by (simp add: snapshot_of_def)
  qed
  with con have "pointers_ok (db5\<lparr>db_pointers := db_pointers db'\<rparr>)"
    by (simp add: pointers_ok_def pointer_constraints_def)
  with ses content jobs have "db_ok env (db5\<lparr>db_pointers := db_pointers db'\<rparr>)" by (simp add: db_ok_def)
  with db' show ?thesis by metis
qed

text \<open>What the checks before the savepoint give the writes inside it.\<close>

definition candidate_ok :: "env \<Rightarrow> db \<Rightarrow> job \<Rightarrow> snapshot \<Rightarrow> membership list \<Rightarrow> bool" where
  "candidate_ok env db j s ms \<longleftrightarrow>
     job_by_id env db (job_id j) = Inr j \<and>
     stored_key db (env_hash env (job_session_key j)) = Some (job_session_key j) \<and>
     (job_base_snapshot_id j = None \<longrightarrow> job_base_pointer_version j = 0) \<and>
     map mem_ordinal ms = range_list 0 (int (length ms)) \<and>
     (\<forall>m \<in> set ms. cap_session_key (mem_capsule m) = job_session_key j) \<and>
     valid_snapshot s \<and> snap_capsule_ids s = map mem_capsule_id ms \<and>
     snap_session_key s = job_session_key j \<and> snap_state s = SNAPSHOT_COMMITTED \<and>
     snap_source_high_water_mark s = snap_covered_event_end s \<and>
     snap_covered_event_end s = job_target_hwm j \<and>
     snap_covered_event_end s \<le> high_water db (env_hash env (job_session_key j)) \<and>
     validate_snapshot_memberships s ms = Inr ()"

lemma job_by_id_job:
  assumes ok: "db_ok env db" and j: "job_by_id env db i = Inr j"
  shows "job_id j = i"
    "stored_key db (env_hash env (job_session_key j)) = Some (job_session_key j)"
    "job_intent_target_hwm j \<le> high_water db (env_hash env (job_session_key j))"
    "job_target_hwm j \<le> job_intent_target_hwm j"
    "job_base_snapshot_id j = None \<Longrightarrow> job_base_pointer_version j = 0"
proof -
  from j obtain r k where r: "r \<in> set (db_jobs db)" "j = job_envelope k r"
    "env_hash env k = jr_hash r" "stored_key db (jr_hash r) = Some k" "jr_id r = i"
    by (rule job_by_id_eq_Inr)
  from ok r(1) have "job_row_ok db r" by (simp add: db_ok_def jobs_ok_def)
  then have "job_row_checks r" "jr_intent r \<le> high_water db (jr_hash r)"
    by (simp_all add: job_row_ok_def)
  then have "jr_target r \<le> jr_intent r" "jr_base r = None \<Longrightarrow> jr_base_version r = 0"
    "jr_intent r \<le> high_water db (jr_hash r)" unfolding job_row_checks_def by argo+
  with r(3-5) show "job_id j = i"
    "stored_key db (env_hash env (job_session_key j)) = Some (job_session_key j)"
    "job_intent_target_hwm j \<le> high_water db (env_hash env (job_session_key j))"
    "job_target_hwm j \<le> job_intent_target_hwm j"
    "job_base_snapshot_id j = None \<Longrightarrow> job_base_pointer_version j = 0"
    unfolding r(2) by (simp_all add: job_envelope_def)
qed

lemma publish_checks_candidate_ok:
  assumes ok: "db_ok env db"
    and checks: "publish_checks env i owner epoch now pub db = Inr (j, committed, records)"
  shows "candidate_ok env db j committed (pub_memberships pub)" "job_id j = i"
proof -
  from checks obtain prev prev_ms events where
    j: "job_by_id env db i = Inr j" and
    key: "snap_session_key (pub_snapshot pub) = job_session_key j" and
    vm: "validate_candidate_memberships (pub_snapshot pub) (pub_memberships pub) = Inr ()" and
    com: "committed = committed_form (pub_snapshot pub) now" "valid_snapshot committed" and
    gate: "rep_passed (validate_permanent (publish_gate_input j pub prev prev_ms events))"
    by (rule publish_checks_facts)
  note gs = publish_gate_input_def gate_input.simps
  note jf = job_by_id_job[OF ok j]
  have ck: "\<forall>m \<in> set (pub_memberships pub). cap_session_key (mem_capsule m) = job_session_key j"
  proof
    fix m assume "m \<in> set (pub_memberships pub)"
    then have "mem_capsule m \<in> set (g_capsules (publish_gate_input j pub prev prev_ms events))"
      by (simp add: gs)
    from passed_session(1)[OF gate this] key show "cap_session_key (mem_capsule m) = job_session_key j"
      by (simp add: gs)
  qed
  have ord: "map mem_ordinal (pub_memberships pub) = range_list 0 (int (length (pub_memberships pub)))"
    and ids: "snap_capsule_ids (pub_snapshot pub) = map mem_capsule_id (pub_memberships pub)"
    and ne: "pub_memberships pub \<noteq> []"
    using vm by (simp_all add: validate_candidate_memberships_def guard_eq_Inr)
  have cov: "snap_covered_event_end committed = job_target_hwm j"
    "snap_source_high_water_mark committed = job_target_hwm j"
    "snap_exact_anchor_ids committed =
       map anchor_id (active_anchors (map mem_capsule (pub_memberships pub)))"
    using passed_coverage(4,5)[OF gate] passed_membership(3)[OF gate]
    by (simp_all add: com(1) committed_form_def gs)
  have fields: "snap_capsule_ids committed = map mem_capsule_id (pub_memberships pub)"
    "snap_session_key committed = job_session_key j" "snap_state committed = SNAPSHOT_COMMITTED"
    using ids key by (simp_all add: com(1) committed_form_def)
  have "validate_snapshot_memberships committed (pub_memberships pub) = Inr ()"
    using ne fields(1) cov(3) by (simp add: validate_snapshot_memberships_def)
  with jf j ck ord cov(1,2) fields com(2) show "candidate_ok env db j committed (pub_memberships pub)"
    unfolding candidate_ok_def by simp
  show "job_id j = i" by (rule jf(1))
qed

text \<open>
  A staged candidate: the invariant holds, the published capsules and snapshot are the ones
  that can be read back, and the pointer names them.
\<close>

lemma stage_candidate_ok:
  assumes ok: "db_ok env db" and cand: "candidate_ok env db j committed ms"
    and ms: "pub_memberships pub = ms"
    and run: "stage_candidate env j committed records pub now db = Inr (Some db')"
    and valid: "\<forall>m \<in> set ms. valid_capsule (mem_capsule m)"
  obtains row db5 where "db_ok env db'" "snapshot_row_of env committed = Inr row"
    "content_added env (job_session_key j) row ms db db5"
    "db_pointers db5 = db_pointers db" "pointer_won env j committed db5 db'"
    "content_ok env db5"
proof -
  let ?k = "job_session_key j"
  note c = cand[unfolded candidate_ok_def]
  from ok have content: "content_ok env db" by (simp add: db_ok_def)
  from valid c have caps: "\<forall>m \<in> set ms. valid_capsule (mem_capsule m) \<and> cap_session_key (mem_capsule m) = ?k"
    by blast
  from c have ord: "map mem_ordinal ms = range_list 0 (int (length ms))" by blast
  obtain row db5 where row: "snapshot_row_of env committed = Inr row"
    and add: "content_added env ?k row ms db db5" and ptr: "db_pointers db5 = db_pointers db"
    and cas: "cas_active_pointer env j committed now db5 = Inr (True, db')"
    by (rule stage_candidate_effect[OF run content ms caps ord])
  from c have s: "valid_snapshot committed" "snap_capsule_ids committed = map mem_capsule_id ms"
    "snap_state committed = SNAPSHOT_COMMITTED" and key: "snap_session_key committed = ?k" by blast+
  note rt = snapshot_row_of_roundtrip[OF row s, unfolded key]
  have c5: "content_ok env db5"
    by (rule content_added_ok[OF content add _ rt(2,1)]) (use c rt(4-6) in simp_all)
  have won: "pointer_won env j committed db5 db'"
    by (rule cas_active_pointer_won[OF cas]) (use c in blast)
  have "db_ok env db'" by (rule db_ok_staged[OF ok add c5 rt(2) ptr won refl]) (simp add: rt(3))
  then show thesis using that row add ptr won c5 by blast
qed

section \<open>Terminal transition and follow-up\<close>

lemma finish_publish_job_ok:
  assumes ok: "db_ok env db"
    and run: "finish_publish_job env j owner epoch now outcome db = Inr (j', db')"
  obtains r k rows where "db_ok env db'" "db' = db\<lparr>db_jobs := rows\<rparr>"
    "find_job db (job_id j) = Some r" "finish_where j owner epoch now r"
    "find_job db' (job_id j) = Some (finish_row outcome now r)"
    "j' = job_envelope k (finish_row outcome now r)" "stored_key db (jr_hash r) = Some k"
    "job_by_id env db' (job_id j) = Inr j'"
proof -
  from run have up: "update_jobs (finish_where j owner epoch now) (finish_row outcome now) db = Inr db'"
    and cnt: "rowcount (finish_where j owner epoch now) (db_jobs db) = 1"
    and j': "job_by_id env db' (job_id j) = Inr j'"
    by (auto simp: finish_publish_job_def result_simps)
  have ok': "db_ok env db'"
    by (rule db_ok_update_jobs_same[OF ok up]) (simp add: finish_row_def)
  obtain rows where rows: "db' = db\<lparr>db_jobs := rows\<rparr>" using up by (auto simp: update_jobs_eq_Inr)
  from find_job_update_one[OF up _ _ cnt ok, of "job_id j"] obtain r where
    r: "find_job db (job_id j) = Some r" "finish_where j owner epoch now r"
      "find_job db' (job_id j) = Some (finish_row outcome now r)"
    by (auto simp: finish_row_def finish_where_def)
  from ok' r(3) obtain k where "job_by_id env db' (job_id j) = Inr (job_envelope k (finish_row outcome now r))"
    "stored_key db' (jr_hash (finish_row outcome now r)) = Some k" by (rule job_by_id_find)
  with j' rows have "j' = job_envelope k (finish_row outcome now r)" "stored_key db (jr_hash r) = Some k"
    by (simp_all add: finish_row_def)
  with that ok' rows r j' show thesis by blast
qed

lemma preserve_follow_up_ok:
  assumes ok: "db_ok env db"
    and intent: "job_intent_target_hwm j \<le> high_water db (env_hash env (job_session_key j))"
    and winner: "\<exists>s \<in> set (db_snapshots db). nr_id s = snap_id w \<and>
      nr_hash s = env_hash env (job_session_key j) \<and> nr_covered_end s = snap_covered_event_end w"
    and run: "preserve_follow_up env j w version now db = Inr db'"
  shows "db_ok env db'"
proof (cases "job_intent_target_hwm j \<le> snap_covered_event_end w")
  case True
  with run ok show ?thesis by (simp add: preserve_follow_up_def)
next
  case False
  let ?h = "env_hash env (job_session_key j)"
  show ?thesis
  proof (cases "find_nonterminal db ?h")
    case None
    let ?new = "pending_job (follow_up_id env (job_id j) (snap_id w) version (job_intent_target_hwm j))
      ?h (job_intent_target_hwm j) (Some (snap_id w)) version now"
    from run None False have "insert_job ?new db = Inr db'" by (simp add: preserve_follow_up_def)
    then show ?thesis
      using False intent winner
      by (intro db_ok_insert_job[OF ok]) (auto simp: pending_job_def based_on_def)
  next
    case (Some r)
    with run False have "db' = db \<or> fold_intent (jr_id r) (job_intent_target_hwm j) now db = Inr db'"
      by (auto simp: preserve_follow_up_def split: if_splits)
    then show ?thesis
      using ok fold_intent_ok[OF ok find_nonterminalD(1)[OF Some]] find_nonterminalD(2)[OF Some] intent
      by auto
  qed
qed

lemma snapshot_bundle_by_id_row:
  assumes "snapshot_bundle_by_id env db sid k = Inr (s, ms)"
  shows "\<exists>row \<in> set (db_snapshots db). nr_id row = snap_id s \<and> nr_id row = sid \<and>
    nr_hash row = env_hash env k \<and> nr_covered_end row = snap_covered_event_end s"
  using assms
  by (auto simp: snapshot_bundle_by_id_def snapshot_from_row_def result_simps dest!: find_snapshotD)

lemma active_snapshot_bundle_row:
  assumes "active_snapshot_bundle env db k = Inr (s, v, ms)"
  shows "\<exists>row \<in> set (db_snapshots db). nr_id row = snap_id s \<and> nr_hash row = env_hash env k \<and>
    nr_covered_end row = snap_covered_event_end s"
  using assms
  by (auto simp: active_snapshot_bundle_def result_simps split: prod.splits
      dest!: snapshot_bundle_by_id_row)

lemma finish_same_session:
  assumes "db_ok env db" "job_by_id env db (job_id j) = Inr j" "find_job db (job_id j) = Some r"
    "stored_key db (jr_hash r) = Some k" "j' = job_envelope k (finish_row outcome now r)"
  shows "job_session_key j' = job_session_key j" "job_intent_target_hwm j' = job_intent_target_hwm j"
proof -
  from assms(2) obtain r' k' where "find_job db (job_id j) = Some r'" and j: "j = job_envelope k' r'"
    and "stored_key db (jr_hash r') = Some k'" by (rule job_by_id_eq_Inr)
  with assms(3,4) have eq: "r' = r" "k' = k" by simp_all
  show "job_session_key j' = job_session_key j" "job_intent_target_hwm j' = job_intent_target_hwm j"
    unfolding assms(5) j eq by (simp_all add: job_envelope_def finish_row_def)
qed

lemma publish_superseded_ok:
  assumes ok: "db_ok env db" and j: "job_by_id env db (job_id j) = Inr j"
    and run: "publish_superseded env j owner epoch now db = Inr (res, db')"
  shows "db_ok env db'"
proof -
  from run obtain j1 db1 w v ms where
    fin: "finish_publish_job env j owner epoch now OUTCOME_SUPERSEDED db = Inr (j1, db1)" and
    act: "active_snapshot_bundle env db1 (job_session_key j) = Inr (w, v, ms)" and
    pf: "preserve_follow_up env j1 w v now db1 = Inr db'"
    by (auto simp: publish_superseded_def result_simps)
  from finish_publish_job_ok[OF ok fin] obtain r k where f: "db_ok env db1"
    "find_job db (job_id j) = Some r" "stored_key db (jr_hash r) = Some k"
    "j1 = job_envelope k (finish_row OUTCOME_SUPERSEDED now r)"
    "job_by_id env db1 (job_id j) = Inr j1" by metis
  note s = finish_same_session[OF ok j f(2-4)]
  show ?thesis
    by (rule preserve_follow_up_ok[OF f(1) job_by_id_job(3)[OF f(1,5)] _ pf])
       (use active_snapshot_bundle_row[OF act] s(1) in simp)
qed

lemma publish_committed_ok:
  assumes ok: "db_ok env db" and j: "job_by_id env db (job_id j) = Inr j"
    and w: "\<exists>s \<in> set (db_snapshots db). nr_id s = snap_id w \<and>
      nr_hash s = env_hash env (job_session_key j) \<and> nr_covered_end s = snap_covered_event_end w"
    and run: "publish_committed env j w owner epoch now db = Inr (res, db')"
  shows "db_ok env db'"
proof -
  from run obtain j1 db1 where
    fin: "finish_publish_job env j owner epoch now OUTCOME_COMMITTED db = Inr (j1, db1)" and
    pf: "preserve_follow_up env j1 w (job_base_pointer_version j + 1) now db1 = Inr db'"
    by (auto simp: publish_committed_def result_simps)
  from finish_publish_job_ok[OF ok fin] obtain r k rows where f: "db_ok env db1"
    "find_job db (job_id j) = Some r" "stored_key db (jr_hash r) = Some k"
    "j1 = job_envelope k (finish_row OUTCOME_COMMITTED now r)"
    "job_by_id env db1 (job_id j) = Inr j1" "db1 = db\<lparr>db_jobs := rows\<rparr>" by metis
  note s = finish_same_session[OF ok j f(2-4)]
  show ?thesis
    by (rule preserve_follow_up_ok[OF f(1) job_by_id_job(3)[OF f(1,5)] _ pf])
       (use w s(1) f(6) in simp)
qed

lemma content_added_job:
  assumes add: "content_added env k row ms db db5" and won: "pointer_won env j s db5 db'"
  shows "job_by_id env db' i = job_by_id env db i"
proof -
  obtain rows where "db' = db5\<lparr>db_pointers := rows\<rparr>" using pointer_won_tables[OF won] ..
  with add have "db_jobs db' = db_jobs db" "db_sessions db' = db_sessions db"
    by (simp_all add: content_added_def)
  then show ?thesis by (simp add: job_by_id_def find_job_def find_session_def)
qed

lemma publish_snapshot_body_cases:
  assumes ok: "db_ok env db" and run: "publish_snapshot_body env i owner epoch now pub db = Inr (res, db')"
    and valid: "\<forall>m \<in> set (pub_memberships pub). valid_capsule (mem_capsule m)"
  obtains (superseded) t j committed records where "now = Aware t"
      "publish_checks env i owner epoch t pub db = Inr (j, committed, records)"
      "publish_superseded env j owner epoch t db = Inr (res, db')"
      "job_by_id env db (job_id j) = Inr j"
  | (committed) t j committed records row db5 db1 where "now = Aware t"
      "publish_checks env i owner epoch t pub db = Inr (j, committed, records)"
      "candidate_ok env db j committed (pub_memberships pub)"
      "snapshot_row_of env committed = Inr row"
      "content_added env (job_session_key j) row (pub_memberships pub) db db5"
      "db_pointers db5 = db_pointers db" "pointer_won env j committed db5 db1"
      "content_ok env db5" "db_ok env db1"
      "publish_committed env j committed owner epoch t db1 = Inr (res, db')"
proof -
  from run obtain t j com records staged where t: "now = Aware t"
    and ch: "publish_checks env i owner epoch t pub db = Inr (j, com, records)"
    and st: "stage_candidate env j com records pub t db = Inr staged"
    and rest: "(case staged of
       None \<Rightarrow> publish_superseded env j owner epoch t db
     | Some db1 \<Rightarrow> publish_committed env j com owner epoch t db1) = Inr (res, db')"
    by (auto simp: publish_snapshot_body_def result_simps)
  note cand = publish_checks_candidate_ok(1)[OF ok ch]
  show thesis
  proof (cases staged)
    case None
    with rest t ch cand superseded show thesis by (simp add: candidate_ok_def)
  next
    case (Some db1)
    from st Some have "stage_candidate env j com records pub t db = Inr (Some db1)" by simp
    from stage_candidate_ok[OF ok cand refl this valid] rest Some t ch cand committed show thesis
      by (metis option.simps(5))
  qed
qed

lemma publish_snapshot_body_ok:
  assumes ok: "db_ok env db" and run: "publish_snapshot_body env i owner epoch now pub db = Inr (res, db')"
    and valid: "\<forall>m \<in> set (pub_memberships pub). valid_capsule (mem_capsule m)"
  shows "db_ok env db'"
  using ok run valid
proof (cases rule: publish_snapshot_body_cases)
  case (superseded t j committed records)
  then show ?thesis using publish_superseded_ok[OF ok] by blast
next
  case (committed t j com records row db5 db1)
  note c = committed(3)[unfolded candidate_ok_def]
  have s: "valid_snapshot com" "snap_capsule_ids com = map mem_capsule_id (pub_memberships pub)"
    "snap_state com = SNAPSHOT_COMMITTED" and key: "snap_session_key com = job_session_key j"
    using c by blast+
  note rt = snapshot_row_of_roundtrip[OF committed(4) s, unfolded key]
  have j1: "job_by_id env db1 (job_id j) = Inr j"
    using content_added_job[OF committed(5,7)] c by simp
  obtain rows where "db1 = db5\<lparr>db_pointers := rows\<rparr>" using pointer_won_tables[OF committed(7)] ..
  with committed(5) have "row \<in> set (db_snapshots db1)" by (simp add: content_added_def)
  with rt have "\<exists>s \<in> set (db_snapshots db1). nr_id s = snap_id com \<and>
      nr_hash s = env_hash env (job_session_key j) \<and> nr_covered_end s = snap_covered_event_end com"
    by blast
  from publish_committed_ok[OF committed(9) j1 this committed(10)] show ?thesis .
qed

end
