(* ===== verification/Repo_Evolution.thy ===== *)
theory Repo_Evolution
  imports Publication_Laws
begin

text \<open>
  How the database may change: the journal, the capsules, the snapshots and their membership
  only grow, sessions keep their identity, lease epochs and intents never go down, the base and
  the target of a job change only with its epoch, a terminal job never changes again, and the active pointer of a session only moves to a higher version
  with a higher coverage. Every repository transaction is shown to respect this order.
\<close>

section \<open>The order on databases\<close>

definition session_evolves :: "session_row \<Rightarrow> session_row \<Rightarrow> bool" where
  "session_evolves s s' \<longleftrightarrow>
     ses_hash s' = ses_hash s \<and> ses_canonical s' = ses_canonical s \<and>
     ses_next_sequence s \<le> ses_next_sequence s'"

text \<open>
  Within one lease epoch a job keeps its base and its target, an owner that is gone does not come
  back, and a job that is ready to commit keeps its candidate while it has an owner.
\<close>

definition lease_kept :: "job_row \<Rightarrow> job_row \<Rightarrow> bool" where
  "lease_kept r r' \<longleftrightarrow>
     jr_target r' = jr_target r \<and> jr_base r' = jr_base r \<and> jr_base_version r' = jr_base_version r \<and>
     (jr_owner r' \<noteq> None \<longrightarrow> jr_owner r \<noteq> None \<and>
        (jr_state r = READY_TO_COMMIT \<longrightarrow> jr_state r' = READY_TO_COMMIT \<and> jr_candidate r' = jr_candidate r))"

lemma lease_kept_refl [simp]: "lease_kept r r"
  by (simp add: lease_kept_def)

lemma lease_kept_trans: "lease_kept a b \<Longrightarrow> lease_kept b c \<Longrightarrow> lease_kept a c"
  unfolding lease_kept_def by (intro conjI impI; elim conjE) simp_all

definition job_evolves :: "job_row \<Rightarrow> job_row \<Rightarrow> bool" where
  "job_evolves r r' \<longleftrightarrow>
     jr_id r' = jr_id r \<and> jr_hash r' = jr_hash r \<and> jr_created_at r' = jr_created_at r \<and>
     jr_epoch r \<le> jr_epoch r' \<and> jr_intent r \<le> jr_intent r' \<and>
     (jr_epoch r' = jr_epoch r \<longrightarrow> lease_kept r r') \<and>
     (\<not> is_nonterminal (jr_state r) \<longrightarrow> r' = r)"

text \<open>Version and coverage of the active pointer of a session, zero without one.\<close>

definition pointer_version :: "db \<Rightarrow> string \<Rightarrow> int" where
  "pointer_version db h = (case find_pointer db h of None \<Rightarrow> 0 | Some p \<Rightarrow> pr_version p)"

definition coverage :: "db \<Rightarrow> string \<Rightarrow> int" where
  "coverage db h =
     (case find_pointer db h of
        None \<Rightarrow> 0
      | Some p \<Rightarrow> (case find_snapshot db (pr_snapshot p) of None \<Rightarrow> 0 | Some s \<Rightarrow> nr_covered_end s))"

text \<open>Membership rows are only ever added for snapshots that were not there before.\<close>

definition memberships_grow :: "db \<Rightarrow> db \<Rightarrow> bool" where
  "memberships_grow db db' \<longleftrightarrow>
     (\<exists>ws. db_memberships db' = db_memberships db @ ws \<and>
        (\<forall>m \<in> set ws. \<not> snapshot_exists db (mr_snapshot m)))"

definition db_extends :: "db \<Rightarrow> db \<Rightarrow> bool" where
  "db_extends db db' \<longleftrightarrow>
     grows (=) (db_events db) (db_events db') \<and>
     grows (=) (db_capsules db) (db_capsules db') \<and>
     grows (=) (db_snapshots db) (db_snapshots db') \<and>
     memberships_grow db db' \<and>
     grows session_evolves (db_sessions db) (db_sessions db') \<and>
     grows job_evolves (db_jobs db) (db_jobs db') \<and>
     (\<forall>h. pointer_version db h = pointer_version db' h \<and> coverage db h = coverage db' h \<or>
          pointer_version db h < pointer_version db' h \<and> coverage db h < coverage db' h)"

lemma session_evolves_refl [simp]: "session_evolves s s"
  by (simp add: session_evolves_def)

lemma session_evolves_trans: "session_evolves a b \<Longrightarrow> session_evolves b c \<Longrightarrow> session_evolves a c"
  by (simp add: session_evolves_def)

lemma job_evolves_refl [simp]: "job_evolves r r"
  by (simp add: job_evolves_def)

lemma job_evolves_trans:
  assumes "job_evolves a b" "job_evolves b c"
  shows "job_evolves a c"
proof -
  have "lease_kept a c" if "jr_epoch c = jr_epoch a"
  proof -
    from that assms have "jr_epoch b = jr_epoch a" "jr_epoch c = jr_epoch b" by (simp_all add: job_evolves_def)
    with assms lease_kept_trans show ?thesis by (simp add: job_evolves_def) blast
  qed
  with assms show ?thesis by (auto simp: job_evolves_def)
qed

lemma memberships_grow_same [simp]:
  "db_memberships db' = db_memberships db \<Longrightarrow> memberships_grow db db'"
  by (simp add: memberships_grow_def)

lemma snapshot_exists_grows:
  "grows (=) (db_snapshots a) (db_snapshots b) \<Longrightarrow> snapshot_exists a i \<Longrightarrow> snapshot_exists b i"
  by (auto simp: snapshot_exists_def grows_eq_iff)

lemma memberships_grow_trans:
  assumes "memberships_grow a b" "memberships_grow b c"
    and "grows (=) (db_snapshots a) (db_snapshots b)"
  shows "memberships_grow a c"
  using assms by (auto simp: memberships_grow_def) (metis snapshot_exists_grows)

lemma db_extends_refl [simp]: "db_extends db db"
  by (simp add: db_extends_def grows_refl)

lemma db_extends_trans:
  assumes "db_extends a b" "db_extends b c"
  shows "db_extends a c"
proof -
  from assms have "grows (=) (db_events a) (db_events c)" "grows (=) (db_capsules a) (db_capsules c)"
    "grows (=) (db_snapshots a) (db_snapshots c)"
    by (auto simp: db_extends_def grows_eq_iff)
  moreover from assms have "memberships_grow a c"
    by (auto simp: db_extends_def intro: memberships_grow_trans)
  moreover from assms have "grows session_evolves (db_sessions a) (db_sessions c)"
    "grows job_evolves (db_jobs a) (db_jobs c)"
    by (auto simp: db_extends_def intro: grows_trans session_evolves_trans job_evolves_trans)
  moreover have "pointer_version a h = pointer_version c h \<and> coverage a h = coverage c h \<or>
      pointer_version a h < pointer_version c h \<and> coverage a h < coverage c h" for h
  proof -
    from assms(1) have "pointer_version a h = pointer_version b h \<and> coverage a h = coverage b h \<or>
      pointer_version a h < pointer_version b h \<and> coverage a h < coverage b h"
      by (simp add: db_extends_def)
    moreover from assms(2) have "pointer_version b h = pointer_version c h \<and> coverage b h = coverage c h \<or>
      pointer_version b h < pointer_version c h \<and> coverage b h < coverage c h"
      by (simp add: db_extends_def)
    ultimately show ?thesis by linarith
  qed
  ultimately show ?thesis by (simp add: db_extends_def)
qed

section \<open>Job statements\<close>

lemma coverage_frame [simp]:
  "coverage (db\<lparr>db_jobs := a\<rparr>) h = coverage db h"
  "pointer_version (db\<lparr>db_jobs := a\<rparr>) h = pointer_version db h"
  "coverage (db\<lparr>db_sessions := b\<rparr>) h = coverage db h"
  "pointer_version (db\<lparr>db_sessions := b\<rparr>) h = pointer_version db h"
  "coverage (db\<lparr>db_events := c\<rparr>) h = coverage db h"
  "pointer_version (db\<lparr>db_events := c\<rparr>) h = pointer_version db h"
  "coverage (db\<lparr>db_metrics := d\<rparr>) h = coverage db h"
  "pointer_version (db\<lparr>db_metrics := d\<rparr>) h = pointer_version db h"
  "coverage (db\<lparr>db_intents := e\<rparr>) h = coverage db h"
  "pointer_version (db\<lparr>db_intents := e\<rparr>) h = pointer_version db h"
  by (simp_all add: coverage_def pointer_version_def find_pointer_def cong: option.case_cong)

lemma update_jobs_extends:
  assumes "update_jobs p f db = Inr db'"
    and "\<And>r. r \<in> set (db_jobs db) \<Longrightarrow> p r \<Longrightarrow> job_evolves r (f r)"
  shows "db_extends db db'"
  using assms by (auto simp: update_jobs_eq_Inr db_extends_def grows_refl intro: grows_update_where)

lemma insert_job_extends:
  assumes "insert_job r db = Inr db'"
  shows "db_extends db db'"
  using assms by (auto simp: insert_job_eq_Inr db_extends_def grows_refl intro: grows_append)

lemma same_core_extends: "same_core db db' \<Longrightarrow> db_extends db db'"
  by (auto simp: same_core_def db_extends_def grows_refl)

lemma db_ok_job_checks: "db_ok env db \<Longrightarrow> r \<in> set (db_jobs db) \<Longrightarrow> job_row_checks r"
  by (simp add: db_ok_def jobs_ok_def job_row_ok_def)

lemma working_nonterminal: "s \<in> set WORKING_STATES \<Longrightarrow> is_nonterminal s"
  by (auto simp: WORKING_STATES_def is_nonterminal_def)

text \<open>An owner is recorded only on a working job.\<close>

lemma owner_working:
  assumes "job_row_checks r" "jr_owner r = Some w"
  shows "jr_state r \<in> set WORKING_STATES"
  using assms unfolding job_row_checks_def by (metis option.distinct(1))

lemma fenced_update_extends:
  assumes ok: "db_ok env db" and run: "fenced_update i owner epoch now f db = Inr db'"
    and f: "\<And>r. jr_id (f r) = jr_id r \<and> jr_hash (f r) = jr_hash r \<and> jr_intent (f r) = jr_intent r
      \<and> jr_epoch (f r) = jr_epoch r \<and> jr_created_at (f r) = jr_created_at r"
    and kept: "\<And>r. r \<in> set (db_jobs db) \<Longrightarrow> fence_where i owner epoch now r \<Longrightarrow> lease_kept r (f r)"
  shows "db_extends db db'"
proof (rule update_jobs_extends)
  show "update_jobs (fence_where i owner epoch now) f db = Inr db'"
    using run by (simp add: fenced_update_eq_Inr)
  fix r assume r: "r \<in> set (db_jobs db)" "fence_where i owner epoch now r"
  from r(2) have "jr_owner r = Some owner" by (simp add: fence_where_def)
  from owner_working[OF db_ok_job_checks[OF ok r(1)] this] show "job_evolves r (f r)"
    by (simp add: job_evolves_def f working_nonterminal kept[OF r])
qed

lemma transition_job_body_extends:
  assumes "db_ok env db" "transition_job_body env i owner epoch to_state now c db = Inr (j, db')"
  shows "db_extends db db'"
proof -
  from assms(2) obtain t row db1 where row: "find_job db i = Some row"
    and allowed: "to_state \<in> set (allowed_worker_transitions (jr_state row))"
    and up: "fenced_update i owner epoch t (\<lambda>r. r\<lparr>jr_state := to_state, jr_candidate := c, jr_updated_at := t\<rparr>) db = Inr db1"
    and db': "db' = db1"
    by (auto simp: transition_job_body_def result_simps)
  have "lease_kept r (r\<lparr>jr_state := to_state, jr_candidate := c, jr_updated_at := t\<rparr>)"
    if "r \<in> set (db_jobs db)" "fence_where i owner epoch t r" for r
  proof -
    from that find_jobD[OF row] assms(1) have "r = row"
      by (auto simp: fence_where_def db_ok_def jobs_ok_def dest: distinct_map_inj)
    with allowed have "jr_state r \<noteq> READY_TO_COMMIT" by auto
    then show ?thesis by (simp add: lease_kept_def)
  qed
  with fenced_update_extends[OF assms(1) up] db' show ?thesis by simp
qed

lemma renew_job_lease_body_extends:
  assumes "db_ok env db" "renew_job_lease_body env i owner epoch now lease db = Inr (j, db')"
  shows "db_extends db db'"
  using assms(2)
  by (auto simp: renew_job_lease_body_def bind_eq_Inr lease_kept_def intro: fenced_update_extends[OF assms(1)])

lemma fail_job_body_extends:
  assumes "db_ok env db" "fail_job_body env i owner epoch now f db = Inr (j, db')"
  shows "db_extends db db'"
  using assms(2)
  by (auto simp: fail_job_body_def bind_eq_Inr fail_row_def lease_kept_def intro: fenced_update_extends[OF assms(1)])

lemma recover_one_extends:
  assumes "recover_one env now s i = Inr s'"
  shows "db_extends (snd s) (snd s')"
proof -
  from assms have up: "update_jobs (\<lambda>r. jr_id r = i \<and> expired now r) (recover_row now) (snd s) =
      Inr (snd s')"
    by (auto simp: recover_one_def bind_eq_Inr split: prod.splits if_splits)
  show ?thesis
    by (rule update_jobs_extends[OF up])
       (auto simp: job_evolves_def lease_kept_def recover_row_def expired_def dest: working_nonterminal)
qed

lemma recover_expired_leases_body_extends:
  assumes "recover_expired_leases_body env now db = Inr (js, db')"
  shows "db_extends db db'"
proof -
  from assms obtain now_t ids where
    "foldM (recover_one env now_t) ([], db) (expired_ids now_t db) = Inr (ids, db')"
    by (auto simp: recover_expired_leases_body_def bind_eq_Inr)
  then have "db_extends db (snd (ids, db'))"
    by (rule foldM_invariant) (use recover_one_extends db_extends_trans in auto)
  then show ?thesis by simp
qed

lemma fold_intent_extends:
  assumes ok: "db_ok env db" and r: "r \<in> set (db_jobs db)" "is_nonterminal (jr_state r)"
    and t: "jr_intent r \<le> t" and run: "fold_intent (jr_id r) t now db = Inr db'"
  shows "db_extends db db'"
proof (rule update_jobs_extends[OF run[unfolded fold_intent_def]])
  fix r' assume r': "r' \<in> set (db_jobs db)" "jr_id r' = jr_id r"
  from ok have "distinct (map jr_id (db_jobs db))" by (simp add: db_ok_def jobs_ok_def)
  from distinct_map_inj[OF this r'(1) r(1) r'(2)] r(2) t
  show "job_evolves r' (r'\<lparr>jr_intent := t, jr_updated_at := now\<rparr>)" by (simp add: job_evolves_def lease_kept_def)
qed

lemma raise_compaction_intent_body_cases:
  assumes "raise_compaction_intent_body env i k t now db = Inr (j, db')"
  obtains (covered) "j = None" "db' = db" "t \<le> coverage db (env_hash env k)"
  | (folded) now_t r j' where "find_nonterminal db (env_hash env k) = Some r" "j = Some j'"
      "db' = db \<and> t \<le> jr_intent r \<or> jr_intent r < t \<and> fold_intent (jr_id r) t now_t db = Inr db'"
      "job_by_id env db' (jr_id r) = Inr j'"
  | (inserted) now_t base version j' where "find_nonterminal db (env_hash env k) = None" "j = Some j'"
      "insert_job (pending_job i (env_hash env k) t base version now_t) db = Inr db'"
      "job_by_id env db' i = Inr j'"
proof -
  let ?h = "env_hash env k"
  from assms obtain now_t base version covered where
    act: "active_base db ?h = Inr (base, version, covered)" and
    rest: "(if t \<le> covered then Inr (None, db)
      else (case find_nonterminal db ?h of
          Some existing \<Rightarrow>
            bind (if t > jr_intent existing
                  then bind (fold_intent (jr_id existing) t now_t db) (\<lambda>db1.
                       bind (inject env ''intent.after_fold'') (\<lambda>_. Inr db1))
                  else Inr db) (\<lambda>db1.
            bind (job_by_id env db1 (jr_id existing)) (\<lambda>j. Inr (Some j, db1)))
        | None \<Rightarrow>
            bind (case insert_job (pending_job i ?h t base version now_t) db of
                    Inl _ \<Rightarrow> Inl RepositoryConflict | Inr d \<Rightarrow> Inr d) (\<lambda>db1.
            bind (inject env ''intent.after_insert'') (\<lambda>_.
            bind (job_by_id env db1 i) (\<lambda>j. Inr (Some j, db1)))))) = Inr (j, db')"
    by (auto simp: raise_compaction_intent_body_def bind_eq_Inr)
  have cov: "covered = coverage db ?h"
    using act by (auto simp: coverage_def active_base_def result_simps split: option.splits)
  show thesis
  proof (cases "t \<le> covered")
    case True
    with rest cov show thesis by (intro covered) auto
  next
    case False
    show thesis
    proof (cases "find_nonterminal db ?h")
      case None
      with rest False show thesis by (auto simp: bind_eq_Inr recast_eq_Inr intro: inserted)
    next
      case (Some r)
      with rest False show thesis
        by (auto simp: bind_eq_Inr split: if_splits intro: folded)
    qed
  qed
qed

lemma raise_compaction_intent_body_extends:
  assumes ok: "db_ok env db" and run: "raise_compaction_intent_body env i k t now db = Inr (j, db')"
  shows "db_extends db db'"
  using run
proof (cases rule: raise_compaction_intent_body_cases)
  case covered
  then show ?thesis by simp
next
  case (folded now_t r j')
  note r = find_nonterminalD[OF folded(1)]
  from folded(3) fold_intent_extends[OF ok r(1,3)] show ?thesis
    by (meson db_extends_refl less_imp_le)
next
  case (inserted now_t base version j')
  then show ?thesis by (auto intro: insert_job_extends)
qed

lemma eligible_nonterminal: "eligible now r \<Longrightarrow> is_nonterminal (jr_state r)"
  by (auto simp: eligible_def is_nonterminal_def)

lemma claim_loop_extends:
  assumes "db_ok env db" "claim_loop n env worker now lease db = Some (Inr (j, db'))"
  shows "db_extends db db'"
  using assms
proof (induction n arbitrary: db)
  case (Suc n)
  show ?case
  proof (cases "eligible_rows now db")
    case Nil
    with Suc.prems show ?thesis by simp
  next
    case (Cons row rest)
    note row = eligible_rows_ConsD[OF Cons]
    obtain base version covered where
      act: "active_base db (jr_hash row) = Inr (base, version, covered)"
      using active_base_total[OF Suc.prems(1)] by metis
    have uniq: "r = row" if "r \<in> set (db_jobs db)" "jr_id r = jr_id row" for r
      using Suc.prems(1) distinct_map_inj[OF _ that(1) row(1) that(2)]
      by (simp add: db_ok_def jobs_ok_def)
    show ?thesis
    proof (cases "jr_intent row \<le> covered")
      case True
      with Suc.prems(2) Cons act obtain db1 where
        up: "update_jobs (\<lambda>r. jr_id r = jr_id row) (cancel_row now) db = Inr db1" and
        rest: "claim_loop n env worker now lease db1 = Some (Inr (j, db'))"
        by (auto split: sum.splits)
      have "jr_state row \<noteq> READY_TO_COMMIT" using row(2) by (auto simp: eligible_def)
      then have "job_evolves row (cancel_row now row)"
        using eligible_nonterminal[OF row(2)] by (simp add: job_evolves_def lease_kept_def cancel_row_def)
      then have "db_extends db db1"
        by (intro update_jobs_extends[OF up]) (metis uniq)
      from this Suc.IH[OF cancel_ok[OF Suc.prems(1) up] rest] show ?thesis by (rule db_extends_trans)
    next
      case False
      with Suc.prems(2) Cons act obtain db1 where
        up: "update_jobs (\<lambda>r. jr_id r = jr_id row \<and> eligible now r)
           (lease_row base version worker lease now) db = Inr db1" and
        rest: "claim_loop n env worker now lease db1 = Some (Inr (j, db')) \<or> db' = db1"
        by (auto split: sum.splits if_splits simp: bind_eq_Inr)
      have "db_extends db db1"
        by (rule update_jobs_extends[OF up])
           (auto simp: job_evolves_def lease_row_def dest: eligible_nonterminal)
      moreover from False lease_ok[OF Suc.prems(1) row(1) act _ up] have "db_ok env db1" by simp
      ultimately show ?thesis using rest Suc.IH db_extends_trans by blast
    qed
  qed
qed simp

lemma claim_job_body_extends:
  assumes "db_ok env db" "claim_job_body env worker now lease db = Some (Inr (j, db'))"
  shows "db_extends db db'"
  using assms(2) claim_loop_extends[OF assms(1)]
  by (auto simp: claim_job_body_def split: sum.splits)

section \<open>Capture and publication\<close>

lemma ensure_session_extends:
  assumes "ensure_session env k t db = Inr db'"
  shows "db_extends db db'"
  using assms
  by (cases rule: ensure_session_eq_Inr) (auto simp: db_extends_def grows_refl intro: grows_append)

lemma capture_event_body_extends:
  assumes ok: "db_ok env db" and run: "capture_event_body env req db = Inr (e, db')"
  shows "db_extends db db'"
  using run
proof (cases rule: capture_event_body_cases)
  case (1 t db1 requested)
  from ensure_session_extends[OF 1(3)] same_core_extends[OF record_canonical_observation_same_core[OF 1(8)]]
  show ?thesis by (rule db_extends_trans)
next
  case (2 t db1 requested s r db2)
  have "db_extends db1 db2"
    using 2(10)
    by (auto simp: insert_event_eq_Inr allocate_sequence_def db_extends_def grows_refl
        session_evolves_def intro: grows_append grows_update_where)
  with ensure_session_extends[OF 2(3)] same_core_extends[OF record_canonical_observation_same_core[OF 2(11)]]
  show ?thesis by (blast intro: db_extends_trans)
qed

lemma finish_publish_job_extends:
  assumes "finish_publish_job env j owner epoch now outcome db = Inr (j', db')"
  shows "db_extends db db'"
proof -
  from assms have up: "update_jobs (finish_where j owner epoch now) (finish_row outcome now) db = Inr db'"
    by (auto simp: finish_publish_job_def result_simps)
  show ?thesis
    by (rule update_jobs_extends[OF up])
       (auto simp: job_evolves_def lease_kept_def finish_row_def finish_where_def is_nonterminal_def)
qed

lemma preserve_follow_up_extends:
  assumes ok: "db_ok env db" and run: "preserve_follow_up env j w version now db = Inr db'"
  shows "db_extends db db'"
proof (cases "find_nonterminal db (env_hash env (job_session_key j))")
  case None
  with run show ?thesis
    by (auto simp: preserve_follow_up_def split: if_splits intro: insert_job_extends)
next
  case (Some r)
  note r = find_nonterminalD[OF Some]
  from run Some have "db' = db \<or> jr_intent r < job_intent_target_hwm j \<and>
      fold_intent (jr_id r) (job_intent_target_hwm j) now db = Inr db'"
    by (auto simp: preserve_follow_up_def split: if_splits)
  with fold_intent_extends[OF ok r(1,3)] show ?thesis by (meson db_extends_refl less_imp_le)
qed

lemma publish_superseded_extends:
  assumes ok: "db_ok env db" and run: "publish_superseded env j owner epoch now db = Inr (res, db')"
  shows "db_extends db db'"
proof -
  from run obtain j1 db1 w v ms where
    fin: "finish_publish_job env j owner epoch now OUTCOME_SUPERSEDED db = Inr (j1, db1)" and
    pf: "preserve_follow_up env j1 w v now db1 = Inr db'"
    by (auto simp: publish_superseded_def result_simps)
  from finish_publish_job_ok[OF ok fin] have "db_ok env db1" .
  from db_extends_trans[OF finish_publish_job_extends[OF fin] preserve_follow_up_extends[OF this pf]]
  show ?thesis .
qed

lemma publish_committed_extends:
  assumes ok: "db_ok env db" and run: "publish_committed env j w owner epoch now db = Inr (res, db')"
  shows "db_extends db db'"
proof -
  from run obtain j1 db1 where
    fin: "finish_publish_job env j owner epoch now OUTCOME_COMMITTED db = Inr (j1, db1)" and
    pf: "preserve_follow_up env j1 w (job_base_pointer_version j + 1) now db1 = Inr db'"
    by (auto simp: publish_committed_def result_simps)
  from finish_publish_job_ok[OF ok fin] have "db_ok env db1" .
  from db_extends_trans[OF finish_publish_job_extends[OF fin] preserve_follow_up_extends[OF this pf]]
  show ?thesis .
qed

lemma find_snapshot_added:
  assumes "content_added env k row ms db db5"
  shows "find_snapshot db sid = Some s \<Longrightarrow> find_snapshot db5 sid = Some s"
    "find_snapshot db5 (nr_id row) = Some row"
proof -
  from assms have snaps: "db_snapshots db5 = db_snapshots db @ [row]"
    and dis: "distinct (map nr_id (db_snapshots db5))" by (auto simp: content_added_def)
  show "find_snapshot db sid = Some s \<Longrightarrow> find_snapshot db5 sid = Some s"
    by (simp add: find_snapshot_def snaps fetchone_append)
  have "row \<in> set (db_snapshots db5)" by (simp add: snaps)
  from fetchone_key[OF dis this] show "find_snapshot db5 (nr_id row) = Some row"
    by (simp add: find_snapshot_def)
qed

text \<open>The move of the pointer: one version up, and coverage from the base to the target.\<close>

lemma pointer_won_progress:
  assumes ok: "db_ok env db" and add: "content_added env k row ms db db5"
    and ptr: "db_pointers db5 = db_pointers db" and won: "pointer_won env j s db5 db'"
    and row: "snap_id s = nr_id row" "nr_covered_end row = job_target_hwm j"
    and j: "job_by_id env db i = Inr j" and h: "h = env_hash env (job_session_key j)"
  shows "pointer_version db' h = pointer_version db h + 1" "coverage db' h = job_target_hwm j"
    "coverage db h < job_target_hwm j"
    "\<And>h'. h' \<noteq> h \<Longrightarrow> pointer_version db' h' = pointer_version db h' \<and> coverage db' h' = coverage db h'"
proof -
  obtain rows where db': "db' = db5\<lparr>db_pointers := rows\<rparr>" using pointer_won_tables[OF won] ..
  have fs: "find_snapshot db' sid = find_snapshot db5 sid" for sid by (simp add: db' find_snapshot_def)
  have fp: "find_pointer db5 h' = find_pointer db h'" for h' by (simp add: find_pointer_def ptr)
  from won obtain p where p: "find_pointer db' h = Some p" "pr_snapshot p = snap_id s"
    "pr_version p = job_base_pointer_version j + 1"
    and other: "\<And>h'. h' \<noteq> h \<Longrightarrow> find_pointer db' h' = find_pointer db h'"
    and base: "job_base_snapshot_id j = map_option pr_snapshot (find_pointer db h)"
    and ver: "job_base_pointer_version j = pointer_version db h"
    unfolding pointer_won_def Let_def fp pointer_version_def h by blast
  show "pointer_version db' h = pointer_version db h + 1" using p ver by (simp add: pointer_version_def)
  show "coverage db' h = job_target_hwm j"
    using p row find_snapshot_added(2)[OF add] by (simp add: coverage_def fs)
  from j obtain r k' where r: "r \<in> set (db_jobs db)" "j = job_envelope k' r"
    "env_hash env k' = jr_hash r" by (rule job_by_id_eq_Inr)
  from ok r(1) have rok: "job_row_checks r" "based_on db (jr_hash r) (jr_base r) (jr_target r)"
    by (simp_all add: db_ok_def jobs_ok_def job_row_ok_def)
  have rf: "job_base_snapshot_id j = jr_base r" "job_target_hwm j = jr_target r"
    by (simp_all add: r(2) job_envelope_def)
  have "1 \<le> jr_target r" using rok(1) unfolding job_row_checks_def by blast
  moreover have "nr_covered_end x < jr_target r"
    if "find_pointer db h = Some q" "find_snapshot db (pr_snapshot q) = Some x" for q x
  proof -
    from that(1) base rf have "jr_base r = Some (pr_snapshot q)" by simp
    with rok(2) obtain y where y: "y \<in> set (db_snapshots db)" "nr_id y = pr_snapshot q"
      "nr_covered_end y < jr_target r" by (auto simp: based_on_def)
    from ok have "distinct (map nr_id (db_snapshots db))" by (simp add: db_ok_def content_ok_def)
    from fetchone_key[OF this y(1)] that(2) y(2,3) show ?thesis by (simp add: find_snapshot_def)
  qed
  ultimately show "coverage db h < job_target_hwm j"
    by (auto simp: coverage_def rf split: option.splits)
  show "pointer_version db' h' = pointer_version db h' \<and> coverage db' h' = coverage db h'" if "h' \<noteq> h" for h'
    using other[OF that] pointer_snapshot_found[OF ok, of h'] find_snapshot_added(1)[OF add]
    by (auto simp: pointer_version_def coverage_def fs split: option.splits)
qed

lemma stage_candidate_extends:
  assumes ok: "db_ok env db" and add: "content_added env (job_session_key j) row ms db db5"
    and ptr: "db_pointers db5 = db_pointers db" and won: "pointer_won env j s db5 db'"
    and row: "snap_id s = nr_id row" "nr_covered_end row = job_target_hwm j"
    and j: "job_by_id env db i = Inr j"
  shows "db_extends db db'"
proof -
  note pr = pointer_won_progress[OF ok add ptr won row j refl]
  obtain rows where "db' = db5\<lparr>db_pointers := rows\<rparr>" using pointer_won_tables[OF won] ..
  with add have "grows (=) (db_events db) (db_events db')" "grows (=) (db_capsules db) (db_capsules db')"
    "grows (=) (db_snapshots db) (db_snapshots db')" "memberships_grow db db'"
    "db_sessions db' = db_sessions db" "db_jobs db' = db_jobs db"
    by (auto simp: content_added_def grows_eq_iff memberships_grow_def membership_row_of_def
        snapshot_exists_def image_iff) metis
  moreover have "pointer_version db h = pointer_version db' h \<and> coverage db h = coverage db' h \<or>
      pointer_version db h < pointer_version db' h \<and> coverage db h < coverage db' h" for h
    using pr by (cases "h = env_hash env (job_session_key j)") simp_all
  ultimately show ?thesis by (simp add: db_extends_def grows_refl)
qed

lemma publish_snapshot_body_extends:
  assumes ok: "db_ok env db" and run: "publish_snapshot_body env i owner epoch now pub db = Inr (res, db')"
    and valid: "\<forall>m \<in> set (pub_memberships pub). valid_capsule (mem_capsule m)"
  shows "db_extends db db'"
  using ok run valid
proof (cases rule: publish_snapshot_body_cases)
  case (superseded t j committed records)
  then show ?thesis using publish_superseded_extends[OF ok] by blast
next
  case (committed t j com records row db5 db1)
  note c = committed(3)[unfolded candidate_ok_def]
  have s: "valid_snapshot com" "snap_capsule_ids com = map mem_capsule_id (pub_memberships pub)"
    "snap_state com = SNAPSHOT_COMMITTED" and j: "job_by_id env db (job_id j) = Inr j"
    using c by blast+
  note rt = snapshot_row_of_roundtrip[OF committed(4) s]
  have "db_extends db db1"
    by (rule stage_candidate_extends[OF ok committed(5-7) _ _ j]) (use rt c in simp_all)
  from this publish_committed_extends[OF committed(9,10)] show ?thesis by (rule db_extends_trans)
qed

section \<open>What the order gives the readers\<close>

lemma find_grows:
  assumes "grows (=) xs ys" "fetchone p xs = Some r"
  shows "fetchone p ys = Some r"
  using assms by (auto simp: grows_eq_iff fetchone_append)

lemma extends_find_snapshot:
  "db_extends db db' \<Longrightarrow> find_snapshot db i = Some s \<Longrightarrow> find_snapshot db' i = Some s"
  by (auto simp: db_extends_def find_snapshot_def intro: find_grows)

lemma extends_find_session:
  assumes "db_extends db db'" "db_ok env db'" "find_session db h = Some s"
  shows "\<exists>s'. find_session db' h = Some s' \<and> session_evolves s s'"
proof -
  from assms(3) have "s \<in> set (db_sessions db)" and h: "ses_hash s = h"
    by (auto simp: find_session_def dest: fetchone_SomeD)
  with assms(1) obtain s' where s': "s' \<in> set (db_sessions db')" "session_evolves s s'"
    unfolding db_extends_def by (meson growsD)
  from assms(2) have "distinct (map ses_hash (db_sessions db'))" by (simp add: db_ok_def sessions_ok_def)
  from fetchone_key[OF this s'(1)] s'(2) h show ?thesis
    by (auto simp: find_session_def session_evolves_def)
qed

lemma extends_membership_join:
  assumes ext: "db_extends db db'" and ok: "db_ok env db" "db_ok env db'"
    and sid: "snapshot_exists db sid"
  shows "membership_join db' sid = membership_join db sid"
proof -
  from ext obtain caps ws where caps: "db_capsules db' = db_capsules db @ caps"
    and ws: "db_memberships db' = db_memberships db @ ws" "\<forall>m \<in> set ws. \<not> snapshot_exists db (mr_snapshot m)"
    by (auto simp: db_extends_def grows_eq_iff memberships_grow_def)
  have "filter (\<lambda>m. mr_snapshot m = sid) ws = []" using ws(2) sid by (auto simp: filter_empty_conv)
  then have old: "filter (\<lambda>m. mr_snapshot m = sid) (db_memberships db') =
    filter (\<lambda>m. mr_snapshot m = sid) (db_memberships db)" by (simp add: ws(1))
  from ok(2) have dis: "distinct (map cr_id (db_capsules db @ caps))"
    by (simp add: db_ok_def content_ok_def caps)
  have "filter (\<lambda>c. cr_id c = mr_capsule m) caps = []" if m: "m \<in> set (db_memberships db)" for m
  proof -
    from ok(1) m obtain c where "c \<in> set (db_capsules db)" "cr_id c = mr_capsule m"
      by (auto simp: db_ok_def content_ok_def)
    with dis show ?thesis by (simp add: filter_empty_conv) (metis IntI empty_iff imageI)
  qed
  then show ?thesis unfolding membership_join_def old
    by (intro arg_cong[where f = concat] map_cong) (simp_all add: caps)
qed

lemma extends_snapshot_bundle:
  assumes ext: "db_extends db db'" and ok: "db_ok env db" "db_ok env db'"
    and run: "snapshot_bundle_by_id env db sid k = Inr b"
  shows "snapshot_bundle_by_id env db' sid k = Inr b"
proof -
  from run obtain row ses where row: "find_snapshot db sid = Some row"
    and ses: "find_session db (nr_hash row) = Some ses"
    by (auto simp: snapshot_bundle_by_id_def result_simps)
  from extends_find_session[OF ext ok(2) ses] obtain ses' where
    ses': "find_session db' (nr_hash row) = Some ses'" "ses_canonical ses' = ses_canonical ses"
    by (auto simp: session_evolves_def)
  have "snapshot_exists db sid" using find_snapshotD[OF row] by (auto simp: snapshot_exists_def)
  from extends_membership_join[OF ext ok this]
  have "memberships_for_snapshot env db' sid k = memberships_for_snapshot env db sid k"
    by (simp add: memberships_for_snapshot_def)
  with run row ses ses' extends_find_snapshot[OF ext row] show ?thesis
    by (simp add: snapshot_bundle_by_id_def)
qed

end
