(* ===== verification/Repo_Machine.thy ===== *)
theory Repo_Machine
  imports Repo_Evolution
begin

text \<open>
  The repository as a state machine. The contract of one transaction is a locale,
  interpreted for each public operation of \<^verbatim>\<open>storage/repository.py\<close>; the step relation lets any
  operation run at any time, with any injected fault, and the reachable databases are those
  an interleaving of transactions can produce from the empty one.
\<close>

section \<open>The contract of a transaction\<close>

locale repository_transaction =
  fixes env :: env
    and op :: "db \<Rightarrow> ((repo_error + 'a) \<times> db) option"
  assumes returns: "db_ok env db \<Longrightarrow> op db \<noteq> None"
    and rollback: "op db = Some (Inl e, db') \<Longrightarrow> db' = db"
    and commit_ok: "db_ok env db \<Longrightarrow> op db = Some (Inr x, db') \<Longrightarrow> db_ok env db'"
    and commit_extends: "db_ok env db \<Longrightarrow> op db = Some (Inr x, db') \<Longrightarrow> db_extends db db'"
begin

lemma keeps_ok:
  assumes "db_ok env db" "op db = Some (r, db')"
  shows "db_ok env db'"
  using assms rollback commit_ok by (cases r) blast+

lemma keeps_extends:
  assumes "db_ok env db" "op db = Some (r, db')"
  shows "db_extends db db'"
  using assms rollback commit_extends by (cases r) (metis db_extends_refl)+

text \<open>A committed snapshot reads the same after the transaction, whatever it did.\<close>

lemma keeps_snapshot_bundle:
  assumes "db_ok env db" "op db = Some (r, db')" "snapshot_bundle_by_id env db sid k = Inr b"
  shows "snapshot_bundle_by_id env db' sid k = Inr b"
  using extends_snapshot_bundle[OF keeps_extends[OF assms(1,2)] assms(1) keeps_ok[OF assms(1,2)] assms(3)] .

lemma keeps_terminal_job:
  assumes "db_ok env db" "op db = Some (r, db')" "row \<in> set (db_jobs db)"
    "\<not> is_nonterminal (jr_state row)"
  shows "row \<in> set (db_jobs db')"
proof -
  from keeps_extends[OF assms(1,2)] have "grows job_evolves (db_jobs db) (db_jobs db')"
    by (simp add: db_extends_def)
  from growsD[OF this assms(3)] assms(4) show ?thesis by (auto simp: job_evolves_def)
qed

end

text \<open>A transaction over a body that returns.\<close>

lemma transaction_contract:
  assumes "\<And>db x db'. db_ok env db \<Longrightarrow> body db = Inr (x, db') \<Longrightarrow> db_ok env db' \<and> db_extends db db'"
  shows "repository_transaction env (\<lambda>db. Some (transaction body db))"
  by unfold_locales (auto simp: transaction_eq_Inl transaction_eq_Inr dest: assms)

definition valid_publication :: "publication \<Rightarrow> bool" where
  "valid_publication pub \<longleftrightarrow>
     (\<forall>m \<in> set (pub_memberships pub). valid_capsule (mem_capsule m))"

interpretation capture: repository_transaction env "\<lambda>db. Some (capture_event env req db)" for env req
  unfolding capture_event_def
  by (rule transaction_contract) (blast intro: capture_event_body_ok capture_event_body_extends)

interpretation backfill: repository_transaction env
    "\<lambda>db. Some (write_metric_backfill_batch env k metrics now db)" for env k metrics now
  unfolding write_metric_backfill_batch_def
  by (rule transaction_contract)
     (use write_metric_backfill_batch_same_core same_core_ok same_core_extends in blast)

interpretation intent: repository_transaction env
    "\<lambda>db. Some (raise_compaction_intent env i k target now db)" for env i k target now
  unfolding raise_compaction_intent_def
  by (rule transaction_contract)
     (blast intro: raise_compaction_intent_body_ok raise_compaction_intent_body_extends)

interpretation claim: repository_transaction env "claim_job env worker now lease"
  for env worker now lease
proof
  show "db_ok env db \<Longrightarrow> claim_job env worker now lease db \<noteq> None" for db
    using claim_job_body_returns[of env db] by (auto simp: claim_job_def)
  show "claim_job env worker now lease db = Some (Inl e, db') \<Longrightarrow> db' = db" for db e db'
    by (auto simp: claim_job_def transaction_eq_Inl)
  show "db_ok env db \<Longrightarrow> claim_job env worker now lease db = Some (Inr x, db') \<Longrightarrow> db_ok env db'"
    for db x db'
    by (auto simp: claim_job_def transaction_eq_Inr intro: claim_job_body_ok)
  show "db_ok env db \<Longrightarrow> claim_job env worker now lease db = Some (Inr x, db') \<Longrightarrow> db_extends db db'"
    for db x db'
    by (auto simp: claim_job_def transaction_eq_Inr intro: claim_job_body_extends)
qed

interpretation transition: repository_transaction env
    "\<lambda>db. Some (transition_job env i owner epoch to_state now candidate db)"
  for env i owner epoch to_state now candidate
  unfolding transition_job_def
  by (rule transaction_contract) (blast intro: transition_job_body_ok transition_job_body_extends)

interpretation renew: repository_transaction env
    "\<lambda>db. Some (renew_job_lease env i owner epoch now lease db)" for env i owner epoch now lease
  unfolding renew_job_lease_def
  by (rule transaction_contract) (blast intro: renew_job_lease_body_ok renew_job_lease_body_extends)

interpretation fail: repository_transaction env
    "\<lambda>db. Some (fail_job env i owner epoch now f db)" for env i owner epoch now f
  unfolding fail_job_def
  by (rule transaction_contract) (blast intro: fail_job_body_ok fail_job_body_extends)

interpretation recover: repository_transaction env
    "\<lambda>db. Some (recover_expired_leases env now db)" for env now
  unfolding recover_expired_leases_def
  by (rule transaction_contract)
     (blast intro: recover_expired_leases_body_ok recover_expired_leases_body_extends)

lemma publish_contract:
  assumes "valid_publication pub"
  shows "repository_transaction env (\<lambda>db. Some (publish_snapshot env i owner epoch now pub db))"
  unfolding publish_snapshot_def
  by (rule transaction_contract)
     (use assms publish_snapshot_body_ok publish_snapshot_body_extends in
       \<open>auto simp: valid_publication_def\<close>)

section \<open>Faults are outside the invariant\<close>

lemma fault_frame [simp]:
  "env_hash (env\<lparr>env_fault := f\<rparr>) = env_hash env"
  "unseal (env\<lparr>env_fault := f\<rparr>) = unseal env"
  by (intro ext; simp add: env_hash_def unseal_def)+

lemma fault_frame_readers [simp]:
  "decrypt_non_negative_int (env\<lparr>env_fault := f\<rparr>) = decrypt_non_negative_int env"
  "capsule_from_row (env\<lparr>env_fault := f\<rparr>) = capsule_from_row env"
  "snapshot_from_row (env\<lparr>env_fault := f\<rparr>) = snapshot_from_row env"
  by (intro ext; simp add: decrypt_non_negative_int_def capsule_from_row_def snapshot_from_row_def)+

lemma fault_frame_memberships [simp]:
  "decode_memberships (env\<lparr>env_fault := f\<rparr>) k n ps = decode_memberships env k n ps"
  "memberships_for_snapshot (env\<lparr>env_fault := f\<rparr>) db sid k = memberships_for_snapshot env db sid k"
proof -
  show "decode_memberships (env\<lparr>env_fault := f\<rparr>) k n ps = decode_memberships env k n ps" for ps n
    by (induction ps arbitrary: n) auto
  then show "memberships_for_snapshot (env\<lparr>env_fault := f\<rparr>) db sid k =
      memberships_for_snapshot env db sid k"
    by (simp add: memberships_for_snapshot_def)
qed

lemma db_ok_fault [simp]: "db_ok (env\<lparr>env_fault := f\<rparr>) db = db_ok env db"
  by (simp add: db_ok_def ok_defs session_ok_def event_ok_def)

section \<open>Steps and reachable databases\<close>

inductive step :: "env \<Rightarrow> db \<Rightarrow> db \<Rightarrow> bool" for env where
  step_capture: "capture_event (env\<lparr>env_fault := f\<rparr>) req db = (r, db') \<Longrightarrow> step env db db'"
| step_backfill: "write_metric_backfill_batch (env\<lparr>env_fault := f\<rparr>) k ms now db = (r, db') \<Longrightarrow>
    step env db db'"
| step_intent: "raise_compaction_intent (env\<lparr>env_fault := f\<rparr>) i k target now db = (r, db') \<Longrightarrow>
    step env db db'"
| step_claim: "claim_job (env\<lparr>env_fault := f\<rparr>) worker now lease db = Some (r, db') \<Longrightarrow>
    step env db db'"
| step_transition: "transition_job (env\<lparr>env_fault := f\<rparr>) i owner epoch s now c db = (r, db') \<Longrightarrow>
    step env db db'"
| step_renew: "renew_job_lease (env\<lparr>env_fault := f\<rparr>) i owner epoch now lease db = (r, db') \<Longrightarrow>
    step env db db'"
| step_fail: "fail_job (env\<lparr>env_fault := f\<rparr>) i owner epoch now failure db = (r, db') \<Longrightarrow>
    step env db db'"
| step_recover: "recover_expired_leases (env\<lparr>env_fault := f\<rparr>) now db = (r, db') \<Longrightarrow>
    step env db db'"
| step_publish: "publish_snapshot (env\<lparr>env_fault := f\<rparr>) i owner epoch now pub db = (r, db') \<Longrightarrow>
    valid_publication pub \<Longrightarrow> step env db db'"

inductive reaches :: "env \<Rightarrow> db \<Rightarrow> db \<Rightarrow> bool" for env where
  reaches_refl: "reaches env db db"
| reaches_step: "reaches env db db1 \<Longrightarrow> step env db1 db2 \<Longrightarrow> reaches env db db2"

inductive_cases reaches_stepE: "reaches env db db'"

lemma contract_step:
  assumes "repository_transaction (env\<lparr>env_fault := f\<rparr>) op" "op db = Some (r, db')" "db_ok env db"
  shows "db_ok env db' \<and> db_extends db db'"
  using repository_transaction.keeps_ok[OF assms(1) _ assms(2)]
    repository_transaction.keeps_extends[OF assms(1) _ assms(2)] assms(3) by simp

lemma step_keeps:
  assumes "step env db db'" "db_ok env db"
  shows "db_ok env db' \<and> db_extends db db'"
  using assms
proof (induction rule: step.induct)
  case (step_capture f req db r db')
  then show ?case using contract_step[OF capture.repository_transaction_axioms] by simp
next
  case (step_backfill f k ms now db r db')
  then show ?case using contract_step[OF backfill.repository_transaction_axioms] by simp
next
  case (step_intent f i k target now db r db')
  then show ?case using contract_step[OF intent.repository_transaction_axioms] by simp
next
  case (step_claim f worker now lease db r db')
  then show ?case using contract_step[OF claim.repository_transaction_axioms] by blast
next
  case (step_transition f i owner epoch s now c db r db')
  then show ?case using contract_step[OF transition.repository_transaction_axioms] by simp
next
  case (step_renew f i owner epoch now lease db r db')
  then show ?case using contract_step[OF renew.repository_transaction_axioms] by simp
next
  case (step_fail f i owner epoch now failure db r db')
  then show ?case using contract_step[OF fail.repository_transaction_axioms] by simp
next
  case (step_recover f now db r db')
  then show ?case using contract_step[OF recover.repository_transaction_axioms] by simp
next
  case (step_publish f i owner epoch now pub db r db')
  then show ?case using contract_step[OF publish_contract[OF step_publish(2)]] by simp
qed

lemma reaches_trans [trans]:
  assumes "reaches env db1 db2" "reaches env db2 db3"
  shows "reaches env db1 db3"
  using assms(2,1) by (induction rule: reaches.induct) (auto intro: reaches_step)

lemma reaches_keeps:
  assumes "reaches env db db'" "db_ok env db"
  shows "db_ok env db' \<and> db_extends db db'"
  using assms
proof (induction rule: reaches.induct)
  case (reaches_step db db1 db2)
  with step_keeps[OF reaches_step(2)] db_extends_trans show ?case by blast
qed simp

section \<open>Properties of every execution\<close>

text \<open>
  C1. Whatever sequence of transactions runs, with whatever injected faults, starting from an
  empty database: the durable invariant holds. In particular the journal of every session is
  contiguous from one, every committed snapshot decodes to a valid snapshot with its ordered
  capsules, and at most one job per session is not terminal.
\<close>

theorem reachable_db_ok: "reaches env empty_db db \<Longrightarrow> db_ok env db"
  using reaches_keeps db_ok_empty by blast

text \<open>
  C2. Along every execution the journal, the capsules and the snapshots are append-only,
  lease epochs and intents never decrease, the base and the target a lease froze never change
  under its epoch, terminal jobs never change, and the active pointer of a session
  either stays or moves to a strictly higher version with strictly higher coverage.
\<close>

theorem execution_extends:
  "db_ok env db \<Longrightarrow> reaches env db db' \<Longrightarrow> db_extends db db'"
  using reaches_keeps by blast

text \<open>
  C3. A committed snapshot never changes: once its bundle can be read, every later database
  of any execution gives exactly the same snapshot and the same ordered capsules.
\<close>

theorem committed_snapshot_immutable:
  assumes "db_ok env db" "reaches env db db'" "snapshot_bundle_by_id env db sid k = Inr b"
  shows "snapshot_bundle_by_id env db' sid k = Inr b"
  using reaches_keeps[OF assms(2,1)] extends_snapshot_bundle[of db db' env sid k b] assms by blast

end
