(* ===== verification/Repo_Properties.thy ===== *)
theory Repo_Properties
  imports Repo_Machine
begin

text \<open>
  The properties of the single operations of \<^verbatim>\<open>storage/repository.py\<close> on a database that
  satisfies the durable invariant: capture, the job lane, publication and the consistent
  views.
\<close>

section \<open>Capture\<close>

text \<open>
  C8. A capture that returns either replays an event that is already stored and leaves the
  journal as it is, or appends exactly one row that decodes to the returned event, under the
  sequence number following the session's high-water mark, which it becomes.
\<close>

theorem capture_event_effect:
  assumes "db_ok env db" "capture_event env req db = (Inr e, db')"
  shows "db_ok env db' \<and>
    (db_events db' = db_events db \<and>
       (\<exists>r \<in> set (db_events db). event_from_row env (req_session_key req) r = Inr e) \<or>
     (\<exists>r. db_events db' = db_events db @ [r] \<and>
        event_from_row env (req_session_key req) r = Inr e \<and>
        ev_sequence e = high_water db (env_hash env (req_session_key req)) + 1 \<and>
        high_water db' (env_hash env (req_session_key req)) = ev_sequence e))"
proof -
  from assms(2) have run: "capture_event_body env req db = Inr (e, db')"
    by (simp add: capture_event_def transaction_eq_Inr)
  note ok' = capture_event_body_ok[OF assms(1) run]
  from run show ?thesis
  proof (cases rule: capture_event_body_cases)
    case (1 t db1 requested)
    note es = ensure_session_ok[OF assms(1) 1(3)]
    from record_canonical_observation_same_core[OF 1(8)] have "db_events db' = db_events db1"
      by (rule same_core_tables)
    moreover from 1(6) have "\<exists>r \<in> set (db_events db1). event_from_row env (req_session_key req) r = Inr e"
      by (auto simp: find_idempotent_event_def result_simps split: option.splits dest!: fetchone_SomeD)
    ultimately show ?thesis using ok' es(3) by simp
  next
    case (2 t db1 requested s r db2)
    note es = ensure_session_ok[OF assms(1) 2(3)]
    note ap = capture_append_event[OF es(1) 2(7-10)]
    note core = record_canonical_observation_same_core[OF 2(11)]
    have hw1: "high_water db1 h = high_water db h" for h
      using 2(3)
      by (cases rule: ensure_session_eq_Inr)
         (auto simp: high_water_def find_session_append split: option.splits)
    have hw: "high_water db' h = high_water db2 h" for h
      using core by (auto simp: same_core_def)
    have "db_events db' = db_events db @ [r]"
      using same_core_tables(2)[OF core] ap(2) es(3) by simp
    with ok' ap(3,5,6) hw hw1 show ?thesis by auto
  qed
qed

text \<open>
  C9. Capture is idempotent: repeating a capture that returned gives the same event and
  changes nothing, whatever was captured the first time (replay or append, metric or
  backfill intent).
\<close>

theorem capture_event_idempotent:
  assumes "db_ok env db" "capture_event env req db = (Inr e, db')"
  shows "capture_event env req db' = (Inr e, db')"
proof -
  from assms(2) have run: "capture_event_body env req db = Inr (e, db')"
    by (simp add: capture_event_def transaction_eq_Inr)
  note ok' = capture_event_body_ok[OF assms(1) run]
  from run have "capture_event_body env req db' = Inr (e, db')"
  proof (cases rule: capture_event_body_cases)
    case (1 t db1 requested)
    note es = ensure_session_ok[OF assms(1) 1(3)]
    note core = record_canonical_observation_same_core[OF 1(8)]
    show ?thesis
      by (rule capture_event_body_replays[OF ok' _ 1(1,2,4,5) _ 1(7)
            record_canonical_observation_idempotent[OF 1(8)]])
         (use es(2) same_core_stored_key[OF core] find_idempotent_event_same same_core_tables(2)[OF core]
            1(6) in \<open>simp_all cong: find_idempotent_event_same\<close>)
  next
    case (2 t db1 requested s r db2)
    note es = ensure_session_ok[OF assms(1) 2(3)]
    note ap = capture_append_event[OF es(1) 2(7-10)]
    note core = record_canonical_observation_same_core[OF 2(11)]
    have key2: "stored_key db2 (env_hash env (req_session_key req)) = Some (req_session_key req)"
      using 2(7,10) es(2) allocate_sequence_find[OF 2(7), of t]
      by (auto simp: stored_key_def insert_event_eq_Inr)
    have fields: "er_hook r = ev_source_hook requested" "er_idem r = req_idem req"
      using 2(2,8,9) by (auto simp: request_event_eq_Inr event_row_of_def result_simps)
    have "find_idempotent_event env db2 (req_session_key req) (ev_source_hook requested) (req_idem req)
        = Inr (Some e)"
      using 2(6) ap(2,3,4) fields
      by (auto simp: find_idempotent_event_def fetchone_append result_simps split: option.splits)
    moreover have "is_exact_replay e requested"
      using 2(2,8) by (auto simp: request_event_eq_Inr is_exact_replay_def)
    ultimately show ?thesis
      using key2 same_core_stored_key[OF core] same_core_tables(2)[OF core]
        find_idempotent_event_same[OF same_core_tables(2)[OF core]]
      by (intro capture_event_body_replays[OF ok' _ 2(1,2,4,5) _ _
            record_canonical_observation_idempotent[OF 2(11)]]) simp_all
  qed
  then show ?thesis by (simp add: capture_event_def transaction_eq_Inr)
qed

text \<open>
  A capture that reuses the idempotency key of a stored event with any different field is
  refused with \<^verbatim>\<open>IdempotencyConflict\<close> and changes nothing.
\<close>

theorem capture_event_conflict:
  assumes ok: "db_ok env db"
    and stored: "stored_key db (env_hash env (req_session_key req)) = Some (req_session_key req)"
    and row: "r \<in> set (db_events db)" "er_hash r = env_hash env (req_session_key req)"
      "er_hook r = snd (event_mapping (req_type req))" "er_idem r = req_idem req"
      "event_from_row env (req_session_key req) r = Inr e"
    and req: "req_created_at req = Aware t" "request_event req 1 t = Inr requested"
      "\<not> is_exact_replay e requested"
    and fault: "\<not> env_fault env ''capture.after_session''"
  shows "capture_event env req db = (Inl IdempotencyConflict, db)"
proof -
  let ?p = "\<lambda>r. er_hash r = env_hash env (req_session_key req) \<and> er_hook r = ev_source_hook requested
    \<and> er_idem r = req_idem req"
  have hook: "ev_source_hook requested = snd (event_mapping (req_type req))"
    using req(2) by (simp add: request_event_eq_Inr)
  have "fetchone ?p (db_events db) = Some r"
  proof (rule fetchone_unique)
    fix r' assume r': "r' \<in> set (db_events db)" "?p r'"
    from ok have "distinct (map idempotency_tuple (db_events db))"
      by (simp add: db_ok_def journal_ok_def)
    from distinct_map_inj[OF this r'(1) row(1)] r'(2) row hook show "r' = r"
      by (simp add: idempotency_tuple_def)
  qed (use row hook in simp_all)
  then have "find_idempotent_event env db (req_session_key req) (ev_source_hook requested)
      (req_idem req) = Inr (Some e)"
    using row(5) by (simp add: find_idempotent_event_def)
  with ensure_session_existing[OF ok stored, of t] req fault
  have "capture_event_body env req db = Inl IdempotencyConflict"
    by (simp add: capture_event_body_def normalize_datetime_def inject_def)
  then show ?thesis by (simp add: capture_event_def transaction_eq_Inl)
qed

section \<open>Fencing\<close>

text \<open>
  The contract every worker mutation meets: without a live lease of exactly this owner and
  epoch it raises \<^verbatim>\<open>StaleLeaseError\<close> and leaves the database as it is.
\<close>

definition lease_live :: "db \<Rightarrow> string \<Rightarrow> string \<Rightarrow> int \<Rightarrow> int \<Rightarrow> bool" where
  "lease_live db i owner epoch now \<longleftrightarrow>
     (\<exists>r. find_job db i = Some r \<and> fence_live r owner epoch now)"

text \<open>A lease that was overtaken by a later claim stays dead in every later database.\<close>

lemma overtaken_lease_dead:
  assumes ok: "db_ok env db" and reach: "reaches env db db'"
    and r: "find_job db i = Some r" "epoch < jr_epoch r"
  shows "\<not> lease_live db' i owner epoch now"
proof -
  from reaches_keeps[OF reach ok] have ok': "db_ok env db'"
    and "grows job_evolves (db_jobs db) (db_jobs db')" by (simp_all add: db_extends_def)
  from growsD[OF this(2)] find_jobD[OF r(1)] obtain r' where
    r': "r' \<in> set (db_jobs db')" "jr_id r' = i" "jr_epoch r \<le> jr_epoch r'"
    by (auto simp: job_evolves_def)
  from ok' have "distinct (map jr_id (db_jobs db'))" by (simp add: db_ok_def jobs_ok_def)
  from fetchone_key[OF this r'(1)] r'(2) have "find_job db' i = Some r'" by (simp add: find_job_def)
  with r'(3) r(2) show ?thesis by (auto simp: lease_live_def fence_live_def)
qed

locale fenced_mutation =
  fixes op :: "string \<Rightarrow> string \<Rightarrow> int \<Rightarrow> int \<Rightarrow> db \<Rightarrow> (repo_error + 'a) \<times> db"
  assumes fenced: "\<not> lease_live db i owner epoch now \<Longrightarrow>
    op i owner epoch now db = (Inl StaleLeaseError, db)"
begin

lemma expired_rejected:
  assumes "find_job db i = Some r" "jr_expires r = Some t" "t \<le> now"
  shows "op i owner epoch now db = (Inl StaleLeaseError, db)"
  using assms by (intro fenced) (simp add: lease_live_def fence_live_def)

lemma overtaken_rejected:
  assumes "db_ok env db" "reaches env db db'" "find_job db i = Some r" "epoch < jr_epoch r"
  shows "op i owner epoch now db' = (Inl StaleLeaseError, db')"
  using fenced[OF overtaken_lease_dead[OF assms]] .

end

lemma stale_fence: "\<not> lease_live db i owner epoch now \<Longrightarrow>
    require_live_fence db i owner epoch now = Inl StaleLeaseError"
  by (auto simp: lease_live_def require_live_fence_eq_Inl)

interpretation fenced_transition: fenced_mutation
    "\<lambda>i owner epoch now. transition_job env i owner epoch s (Aware now) c" for env s c
  by unfold_locales (simp add: transition_job_def transition_job_body_def stale_fence
      normalize_datetime_def transaction_eq_Inl)

interpretation fenced_renew: fenced_mutation
    "\<lambda>i owner epoch now. renew_job_lease env i owner epoch (Aware now) (Aware (now + 1 + int d))"
  for env d
  by unfold_locales (simp add: renew_job_lease_def renew_job_lease_body_def stale_fence
      normalize_datetime_def transaction_eq_Inl)

definition retry_after :: "failure \<Rightarrow> int \<Rightarrow> bool" where
  "retry_after f now \<longleftrightarrow>
     (case fail_retry_at f of None \<Rightarrow> True | Some d \<Rightarrow> \<exists>t. d = Aware t \<and> now < t)"

lemma fail_job_stale:
  assumes "\<not> lease_live db i owner epoch now" "valid_failure f" "retry_after f now"
  shows "fail_job env i owner epoch (Aware now) f db = (Inl StaleLeaseError, db)"
  using assms(2,3)
  by (auto simp: fail_job_def fail_job_body_def stale_fence[OF assms(1)] normalize_datetime_def
      transaction_eq_Inl retry_after_def split: option.splits)

lemma publish_fenced:
  assumes "pub_token_ceiling pub \<ge> 0"
  shows "fenced_mutation (\<lambda>i owner epoch now. publish_snapshot env i owner epoch (Aware now) pub)"
  by unfold_locales (use assms in \<open>simp add: publish_snapshot_def publish_snapshot_body_def
      publish_checks_def stale_fence normalize_datetime_def transaction_eq_Inl\<close>)

text \<open>
  C7. A worker whose lease was overtaken by a later claim is fenced out forever: in every
  later database each of its mutations (transition, renewal, failure, publication) raises
  \<^verbatim>\<open>StaleLeaseError\<close> and changes nothing.
\<close>

theorem overtaken_worker_rejected:
  assumes ok: "db_ok env db" and reach: "reaches env db db'"
    and r: "find_job db i = Some r" "epoch < jr_epoch r"
  shows "transition_job env i owner epoch s (Aware now) c db' = (Inl StaleLeaseError, db') \<and>
    (now < lease \<longrightarrow>
      renew_job_lease env i owner epoch (Aware now) (Aware lease) db' = (Inl StaleLeaseError, db')) \<and>
    (valid_failure f \<and> retry_after f now \<longrightarrow>
      fail_job env i owner epoch (Aware now) f db' = (Inl StaleLeaseError, db')) \<and>
    (pub_token_ceiling pub \<ge> 0 \<longrightarrow>
      publish_snapshot env i owner epoch (Aware now) pub db' = (Inl StaleLeaseError, db'))"
proof (intro conjI impI)
  show "transition_job env i owner epoch s (Aware now) c db' = (Inl StaleLeaseError, db')"
    by (rule fenced_transition.overtaken_rejected[OF ok reach r])
  show "renew_job_lease env i owner epoch (Aware now) (Aware lease) db' = (Inl StaleLeaseError, db')"
    if "now < lease"
    using fenced_renew.overtaken_rejected[OF ok reach r, of env owner now "nat (lease - now - 1)"] that
    by simp
  show "fail_job env i owner epoch (Aware now) f db' = (Inl StaleLeaseError, db')"
    if "valid_failure f \<and> retry_after f now"
    using fail_job_stale[OF overtaken_lease_dead[OF ok reach r]] that by blast
  show "publish_snapshot env i owner epoch (Aware now) pub db' = (Inl StaleLeaseError, db')"
    if "pub_token_ceiling pub \<ge> 0"
    using fenced_mutation.overtaken_rejected[OF publish_fenced[OF that] ok reach r] .
qed

section \<open>The job lane\<close>

lemma coverage_active_base:
  assumes "active_base db h = Inr (base, version, covered)"
  shows "covered = coverage db h"
  using assms by (auto simp: coverage_def active_base_def result_simps split: option.splits)

lemma active_base_jobs: "active_base (db\<lparr>db_jobs := rows\<rparr>) h = active_base db h"
  by (simp add: active_base_def find_pointer_def cong: option.case_cong)

text \<open>The order in which \<^verbatim>\<open>claim_job\<close> considers jobs.\<close>

definition claim_key :: "job_row \<Rightarrow> int \<times> string" where
  "claim_key r = (jr_created_at r, jr_id r)"

definition claimable :: "int \<Rightarrow> db \<Rightarrow> job_row \<Rightarrow> bool" where
  "claimable now db r \<longleftrightarrow> r \<in> set (db_jobs db) \<and> eligible now r \<and>
     coverage db (jr_hash r) < jr_intent r"

lemma eligible_rows_first:
  assumes "eligible_rows now db = row # rest" "r \<in> set (db_jobs db)" "eligible now r"
  shows "claim_key row \<le> claim_key r"
proof -
  have "sorted (map claim_key (eligible_rows now db))"
    unfolding eligible_rows_def claim_key_def by (rule sorted_sort_key)
  moreover have "r \<in> set (eligible_rows now db)" using assms(2,3) by (simp add: eligible_rows_def)
  ultimately show ?thesis using assms(1) by auto
qed

lemma cancel_claimable:
  assumes ok: "db_ok env db" and row: "row \<in> set (db_jobs db)"
    and covered: "jr_intent row \<le> coverage db (jr_hash row)"
    and up: "update_jobs (\<lambda>r. jr_id r = jr_id row) (cancel_row now) db = Inr db1"
  shows "claimable now db1 r \<longleftrightarrow> claimable now db r"
proof -
  from ok have d: "distinct (map jr_id (db_jobs db))" by (simp add: db_ok_def jobs_ok_def)
  have uniq: "r' = row" if "r' \<in> set (db_jobs db)" "jr_id r' = jr_id row" for r'
    using distinct_map_inj[OF d that(1) row that(2)] .
  from up have db1: "db1 = db\<lparr>db_jobs := update_where (\<lambda>r. jr_id r = jr_id row) (cancel_row now) (db_jobs db)\<rparr>"
    by (simp add: update_jobs_eq_Inr)
  have "\<not> eligible now (cancel_row now x)" for x by (simp add: eligible_def cancel_row_def)
  with uniq[of r] covered show ?thesis
    unfolding claimable_def by (auto simp: db1 set_update_where)
qed

lemma claim_loop_result:
  assumes "db_ok env db" "claim_loop n env worker now lease db = Some (Inr (res, db'))"
  shows "case res of
      None \<Rightarrow> \<forall>r. \<not> claimable now db r
    | Some j \<Rightarrow> \<exists>r base version k. claimable now db r \<and>
        (\<forall>r'. claimable now db r' \<longrightarrow> claim_key r \<le> claim_key r') \<and>
        active_base db (jr_hash r) = Inr (base, version, coverage db (jr_hash r)) \<and>
        find_job db' (jr_id r) = Some (lease_row base version worker lease now r) \<and>
        j = job_envelope k (lease_row base version worker lease now r)"
  using assms
proof (induction n arbitrary: db)
  case (Suc n)
  show ?case
  proof (cases "eligible_rows now db")
    case Nil
    then have "filter (eligible now) (db_jobs db) = []"
      unfolding eligible_rows_def by (metis length_0_conv length_sort)
    then have "\<not> claimable now db r" for r by (auto simp: claimable_def filter_empty_conv)
    with Nil Suc.prems show ?thesis by auto
  next
    case (Cons row rest)
    note row = eligible_rows_ConsD[OF Cons]
    obtain base version covered where
      act: "active_base db (jr_hash row) = Inr (base, version, covered)"
      using active_base_total[OF Suc.prems(1)] by metis
    note cov = coverage_active_base[OF act]
    show ?thesis
    proof (cases "jr_intent row \<le> covered")
      case True
      with Suc.prems(2) Cons act obtain db1 where
        up: "update_jobs (\<lambda>r. jr_id r = jr_id row) (cancel_row now) db = Inr db1" and
        rest: "claim_loop n env worker now lease db1 = Some (Inr (res, db'))"
        by (auto split: sum.splits)
      from True cov have cl: "claimable now db1 r = claimable now db r" for r
        using cancel_claimable[OF Suc.prems(1) row(1) _ up] by simp
      have same: "active_base db1 h = active_base db h" "coverage db1 h = coverage db h" for h
        using up by (auto simp: update_jobs_eq_Inr active_base_jobs)
      from Suc.IH[OF cancel_ok[OF Suc.prems(1) up] rest] show ?thesis unfolding cl same .
    next
      case False
      with Suc.prems(2) Cons act claim_rowcount[OF Suc.prems(1) row] obtain db1 j where
        up: "update_jobs (\<lambda>r. jr_id r = jr_id row \<and> eligible now r)
           (lease_row base version worker lease now) db = Inr db1" and
        fin: "res = Some j" "db' = db1" "job_by_id env db1 (jr_id row) = Inr j"
        by (auto split: sum.splits if_splits simp: bind_eq_Inr)
      from find_job_update_one[OF up _ _ claim_rowcount[OF Suc.prems(1) row] Suc.prems(1), of "jr_id row"]
      obtain r where "find_job db (jr_id row) = Some r"
        "find_job db1 (jr_id row) = Some (lease_row base version worker lease now r)"
        by (auto simp: lease_row_def)
      moreover from Suc.prems(1) row(1) have "find_job db (jr_id row) = Some row"
        by (simp add: find_job_def fetchone_key db_ok_def jobs_ok_def)
      ultimately have new: "find_job db1 (jr_id row) = Some (lease_row base version worker lease now row)"
        by simp
      from fin(3) new obtain k where "j = job_envelope k (lease_row base version worker lease now row)"
        by (auto elim: job_by_id_eq_Inr)
      moreover have "claimable now db row" using row False cov by (simp add: claimable_def)
      moreover have "\<forall>r'. claimable now db r' \<longrightarrow> claim_key row \<le> claim_key r'"
        using eligible_rows_first[OF Cons] by (simp add: claimable_def)
      ultimately show ?thesis using act cov new fin(1,2) by auto
    qed
  qed
qed simp


lemma nonterminal_only:
  assumes ok: "db_ok env db" and r: "find_nonterminal db h = Some r"
    and r': "r' \<in> set (db_jobs db)" "jr_hash r' = h" "is_nonterminal (jr_state r')"
  shows "r' = r"
proof -
  from ok have "distinct (map jr_hash (filter (is_nonterminal \<circ> jr_state) (db_jobs db)))"
    by (simp add: db_ok_def jobs_ok_def unique_nonterminal_def)
  from distinct_map_inj[OF this, of r' r] r' find_nonterminalD[OF r] show ?thesis by simp
qed

lemma nonterminal_envelope:
  assumes ok: "db_ok env db" and r: "find_nonterminal db h = Some r"
    and j: "job_by_id env db (jr_id r) = Inr j"
  shows "\<exists>k. j = job_envelope k r"
proof -
  from ok have "distinct (map jr_id (db_jobs db))" by (simp add: db_ok_def jobs_ok_def)
  from fetchone_key[OF this find_nonterminalD(1)[OF r]] have "find_job db (jr_id r) = Some r"
    by (simp add: find_job_def)
  moreover from j obtain r' k where "find_job db (jr_id r) = Some r'" "j = job_envelope k r'"
    by (rule job_by_id_eq_Inr)
  ultimately show ?thesis by auto
qed

lemma fold_intent_nonterminal:
  assumes "fold_intent (jr_id r) t now db = Inr db'" "find_nonterminal db h = Some r"
  shows "find_nonterminal db' h = Some (r\<lparr>jr_intent := t, jr_updated_at := now\<rparr>)"
  using assms unfolding find_nonterminal_def fold_intent_def
  by (simp add: update_jobs_eq_Inr fetchone_update_where)

lemma insert_pending_nonterminal:
  assumes "find_nonterminal db h = None" "insert_job (pending_job i h t base version now) db = Inr db'"
  shows "find_nonterminal db' h = Some (pending_job i h t base version now)"
  using assms
  by (simp add: insert_job_eq_Inr find_nonterminal_def fetchone_append pending_job_def is_nonterminal_def)

text \<open>
  C11. Raising an intent coalesces: with a job of the session under way the same job is kept
  and its intent becomes the maximum of the old and the new target; otherwise one pending job
  is created. In both cases the returned job is the session's only job that is not terminal.
  No job is returned only when the active snapshot covers the target.
\<close>

theorem raise_intent_coalesces:
  assumes ok: "db_ok env db" and run: "raise_compaction_intent env i k target now db = (Inr j, db')"
  shows "case j of
      None \<Rightarrow> db' = db \<and> target \<le> coverage db (env_hash env k)
    | Some j' \<Rightarrow> \<exists>r k'. j' = job_envelope k' r \<and> find_nonterminal db' (env_hash env k) = Some r \<and>
        (\<forall>r' \<in> set (db_jobs db'). jr_hash r' = env_hash env k \<and> is_nonterminal (jr_state r') \<longrightarrow> r' = r) \<and>
        (case find_nonterminal db (env_hash env k) of
           None \<Rightarrow> jr_id r = i \<and> jr_state r = PENDING \<and> jr_intent r = target \<and> jr_target r = target
         | Some r0 \<Rightarrow> jr_id r = jr_id r0 \<and> jr_state r = jr_state r0 \<and> jr_target r = jr_target r0 \<and>
             jr_intent r = max (jr_intent r0) target)"
proof -
  let ?h = "env_hash env k"
  from run have body: "raise_compaction_intent_body env i k target now db = Inr (j, db')"
    by (simp add: raise_compaction_intent_def transaction_eq_Inr)
  note ok' = raise_compaction_intent_body_ok[OF ok body]
  from body show ?thesis
  proof (cases rule: raise_compaction_intent_body_cases)
    case covered
    then show ?thesis by simp
  next
    case (folded now_t r j')
    define r1 where "r1 = (if target \<le> jr_intent r then r
      else r\<lparr>jr_intent := target, jr_updated_at := now_t\<rparr>)"
    have r1: "find_nonterminal db' ?h = Some r1"
      using folded(1,3) fold_intent_nonterminal[of r target now_t db db' ?h] by (auto simp: r1_def)
    moreover have id: "jr_id r1 = jr_id r" by (simp add: r1_def)
    from folded(4) have "job_by_id env db' (jr_id r1) = Inr j'" by (simp add: id)
    from nonterminal_envelope[OF ok' r1 this] obtain k' where "j' = job_envelope k' r1" ..
    moreover have "jr_state r1 = jr_state r" "jr_target r1 = jr_target r"
      "jr_intent r1 = max (jr_intent r) target" by (auto simp: r1_def)
    ultimately show ?thesis using folded(1,2) id nonterminal_only[OF ok' r1] by auto
  next
    case (inserted now_t base version j')
    note new = insert_pending_nonterminal[OF inserted(1,3)]
    have "jr_id (pending_job i ?h target base version now_t) = i" by (simp add: pending_job_def)
    with inserted(4) have "job_by_id env db' (jr_id (pending_job i ?h target base version now_t)) = Inr j'"
      by simp
    from nonterminal_envelope[OF ok' new this] obtain k' where
      "j' = job_envelope k' (pending_job i ?h target base version now_t)" ..
    with inserted(1,2) new nonterminal_only[OF ok' new] show ?thesis by (auto simp: pending_job_def)
  qed
qed

text \<open>
  Renewal strictly extends a live lease: on success the same owner holds the same epoch,
  the expiry is the requested one and later than the old one, and nothing else of the job or
  the database changed.
\<close>

theorem renew_extends_lease:
  assumes ok: "db_ok env db"
    and run: "renew_job_lease env i owner epoch (Aware now) (Aware lease) db = (Inr j, db')"
  shows "\<exists>r t. find_job db i = Some r \<and> jr_expires r = Some t \<and> now < t \<and> t < lease \<and>
    find_job db' i = Some (r\<lparr>jr_expires := Some lease, jr_updated_at := now\<rparr>) \<and>
    (\<forall>i'. i' \<noteq> i \<longrightarrow> find_job db' i' = find_job db i') \<and>
    db' = db\<lparr>db_jobs := db_jobs db'\<rparr> \<and> lease_live db' i owner epoch now"
proof -
  from run obtain row where fence: "find_job db i = Some row" "fence_live row owner epoch now"
    and ext: "case jr_expires row of None \<Rightarrow> False | Some t \<Rightarrow> t < lease"
    and up: "fenced_update i owner epoch now (\<lambda>r. r\<lparr>jr_expires := Some lease, jr_updated_at := now\<rparr>) db
      = Inr db'" and lt: "now < lease"
    by (auto simp: renew_job_lease_def transaction_eq_Inr renew_job_lease_body_def result_simps)
  from up have u: "update_jobs (fence_where i owner epoch now)
      (\<lambda>r. r\<lparr>jr_expires := Some lease, jr_updated_at := now\<rparr>) db = Inr db'"
    by (simp add: fenced_update_eq_Inr)
  have look: "find_job db' i' = map_option (\<lambda>r. if fence_where i owner epoch now r
      then r\<lparr>jr_expires := Some lease, jr_updated_at := now\<rparr> else r) (find_job db i')" for i'
    by (rule find_job_update[OF u]) simp
  have fw: "fence_where i owner epoch now row"
    using fence find_jobD[OF fence(1)] by (auto simp: fence_live_def fence_where_def split: option.splits)
  have new: "find_job db' i = Some (row\<lparr>jr_expires := Some lease, jr_updated_at := now\<rparr>)"
    by (simp add: look fence(1) fw)
  have other: "\<forall>i'. i' \<noteq> i \<longrightarrow> find_job db' i' = find_job db i'"
    by (auto simp: look fence_where_def dest!: find_jobD split: option.splits
        intro!: option.map_ident_strong)
  from u obtain rows where "db' = db\<lparr>db_jobs := rows\<rparr>" by (auto simp: update_jobs_eq_Inr)
  then have same: "db' = db\<lparr>db_jobs := db_jobs db'\<rparr>" by simp
  have "lease_live db' i owner epoch now"
    using new fence(2) lt by (auto simp: lease_live_def fence_live_def)
  with fence ext new other same show ?thesis
    by (auto simp: fence_live_def split: option.splits)
qed

section \<open>Recovery of expired leases\<close>

lemma recover_row_checks:
  assumes "job_row_checks r" "expired now r"
  shows "job_row_checks (recover_row now r)"
  using assms unfolding job_row_checks_def recover_row_def
  by (auto simp: WORKING_STATES_def CANDIDATE_STATES_def nonblank_optional_def)

lemma recover_unique:
  assumes "unique_nonterminal rows"
  shows "unique_nonterminal (update_where (\<lambda>r. q r \<and> expired now r) (recover_row now) rows)"
proof -
  have "map jr_hash (filter (is_nonterminal \<circ> jr_state)
      (update_where (\<lambda>r. q r \<and> expired now r) (recover_row now) rows)) =
    map jr_hash (filter (is_nonterminal \<circ> jr_state) rows)"
    by (induction rows)
       (auto simp: update_where_def recover_row_def expired_def is_nonterminal_def WORKING_STATES_def)
  with assms show ?thesis by (simp add: unique_nonterminal_def)
qed

lemma recover_one_success:
  assumes ok: "db_ok env db" and r: "r \<in> set (db_jobs db)" "expired now r"
    and fault: "\<not> env_fault env ''recovery.after_update''"
  shows "recover_one env now (ids, db) (jr_id r) = Inr (ids @ [jr_id r],
    db\<lparr>db_jobs := update_where (\<lambda>x. jr_id x = jr_id r \<and> expired now x) (recover_row now) (db_jobs db)\<rparr>)"
proof -
  let ?p = "\<lambda>x. jr_id x = jr_id r \<and> expired now x"
  have "\<forall>x \<in> set (db_jobs db). ?p x \<longrightarrow> job_row_checks (recover_row now x) \<and>
      job_foreign_keys db (recover_row now x)"
  proof clarify
    fix x assume x: "x \<in> set (db_jobs db)" "expired now x"
    from ok x(1) have "job_row_ok db x" by (simp add: db_ok_def jobs_ok_def)
    then show "job_row_checks (recover_row now x) \<and> job_foreign_keys db (recover_row now x)"
      using recover_row_checks[OF _ x(2)]
      by (auto simp: job_row_ok_def job_foreign_keys_def recover_row_def based_on_def
          snapshot_exists_def split: option.splits)
  qed
  moreover have "unique_nonterminal (update_where ?p (recover_row now) (db_jobs db))"
    using ok recover_unique by (simp add: db_ok_def jobs_ok_def)
  moreover have "rowcount ?p (db_jobs db) = 1"
    by (rule rowcount_unique[of jr_id]) (use ok r in \<open>auto simp: db_ok_def jobs_ok_def\<close>)
  ultimately show ?thesis using fault by (simp add: recover_one_def update_jobs_def inject_def)
qed

lemma update_where_compose:
  assumes "\<And>r. p r \<Longrightarrow> \<not> q (f r)"
  shows "update_where q f (update_where p f rows) = update_where (\<lambda>r. p r \<or> q r) f rows"
  using assms by (auto simp: update_where_def)

lemma recover_fold:
  assumes "db_ok env db" "distinct is"
    and "\<forall>i \<in> set is. \<exists>r \<in> set (db_jobs db). jr_id r = i \<and> expired now r"
    and fault: "\<not> env_fault env ''recovery.after_update''"
  shows "foldM (recover_one env now) (acc, db) is = Inr (acc @ is,
    db\<lparr>db_jobs := update_where (\<lambda>r. jr_id r \<in> set is \<and> expired now r) (recover_row now) (db_jobs db)\<rparr>)"
  using assms(1-3)
proof (induction "is" arbitrary: db acc)
  case Nil
  then show ?case by (simp add: update_where_def)
next
  case (Cons i rest)
  from Cons.prems(3) obtain r where r: "r \<in> set (db_jobs db)" "jr_id r = i" "expired now r" by auto
  let ?db1 = "db\<lparr>db_jobs := update_where (\<lambda>x. jr_id x = i \<and> expired now x) (recover_row now) (db_jobs db)\<rparr>"
  have one: "recover_one env now (acc, db) i = Inr (acc @ [i], ?db1)"
    using recover_one_success[OF Cons.prems(1) r(1,3) fault] r(2) by simp
  have ok1: "db_ok env ?db1" using recover_one_ok[OF one] Cons.prems(1) by simp
  have "\<exists>x \<in> set (db_jobs ?db1). jr_id x = i' \<and> expired now x" if i': "i' \<in> set rest" for i'
  proof -
    from Cons.prems(3) i' obtain x where x: "x \<in> set (db_jobs db)" "jr_id x = i'" "expired now x" by auto
    from Cons.prems(2) i' have "i' \<noteq> i" by auto
    with x show ?thesis by (auto simp: set_update_where)
  qed
  from Cons.IH[OF ok1 _ ballI[OF this], of "acc @ [i]"] Cons.prems(2) one
  have "foldM (recover_one env now) (acc, db) (i # rest) = Inr (acc @ i # rest,
    ?db1\<lparr>db_jobs := update_where (\<lambda>r. jr_id r \<in> set rest \<and> expired now r) (recover_row now) (db_jobs ?db1)\<rparr>)"
    by simp
  moreover have "update_where (\<lambda>r. jr_id r \<in> set rest \<and> expired now r) (recover_row now)
      (update_where (\<lambda>x. jr_id x = i \<and> expired now x) (recover_row now) (db_jobs db)) =
    update_where (\<lambda>r. jr_id r = i \<and> expired now r \<or> jr_id r \<in> set rest \<and> expired now r)
      (recover_row now) (db_jobs db)"
    by (rule update_where_compose) (simp add: recover_row_def expired_def WORKING_STATES_def)
  moreover have "(\<lambda>r. jr_id r = i \<and> expired now r \<or> jr_id r \<in> set rest \<and> expired now r) =
      (\<lambda>r. jr_id r \<in> set (i # rest) \<and> expired now r)" by auto
  ultimately show ?case by simp
qed

lemma recover_fold_all:
  assumes ok: "db_ok env db" and fault: "\<not> env_fault env ''recovery.after_update''"
  shows "foldM (recover_one env now) ([], db) (expired_ids now db) = Inr (expired_ids now db,
    db\<lparr>db_jobs := map (\<lambda>r. if expired now r then recover_row now r else r) (db_jobs db)\<rparr>)"
proof -
  let ?ids = "expired_ids now db"
  from ok have "distinct (map jr_id (db_jobs db))" by (simp add: db_ok_def jobs_ok_def)
  then have "distinct (map jr_id (filter (expired now) (db_jobs db)))" by (rule distinct_map_filter)
  then have d: "distinct ?ids" unfolding expired_ids_def distinct_map by simp
  have ids: "\<forall>i \<in> set ?ids. \<exists>r \<in> set (db_jobs db). jr_id r = i \<and> expired now r"
    by (auto simp: expired_ids_def)
  have "update_where (\<lambda>r. jr_id r \<in> set ?ids \<and> expired now r) (recover_row now) (db_jobs db) =
      map (\<lambda>r. if expired now r then recover_row now r else r) (db_jobs db)"
    by (auto simp: update_where_def expired_ids_def)
  with recover_fold[OF ok d ids fault, of "[]"] show ?thesis by simp
qed

lemma recovered_jobs_read:
  assumes "db_ok env db'"
    and "db_jobs db' = map (\<lambda>r. if expired now r then recover_row now r else r) (db_jobs db)"
  shows "\<exists>js. traverse (job_by_id env db') (expired_ids now db) = Inr js \<and>
    map job_id js = expired_ids now db"
proof -
  have "\<exists>j. job_by_id env db' i = Inr j \<and> job_id j = i" if "i \<in> set (expired_ids now db)" for i
  proof -
    from that obtain r where r: "r \<in> set (db_jobs db)" "jr_id r = i" "expired now r"
      by (auto simp: expired_ids_def)
    then have "recover_row now r \<in> set (db_jobs db')" unfolding assms(2) by force
    from job_by_id_ok[OF assms(1) this] r(2) show ?thesis
      by (auto simp: recover_row_def job_envelope_def)
  qed
  then obtain g where g: "\<And>i. i \<in> set (expired_ids now db) \<Longrightarrow>
      job_by_id env db' i = Inr (g i) \<and> job_id (g i) = i" by metis
  then have "traverse (job_by_id env db') (expired_ids now db) = Inr (map g (expired_ids now db))"
    by (intro traverse_total) simp
  moreover have "map job_id (map g (expired_ids now db)) = expired_ids now db"
    using g by (simp add: map_idI)
  ultimately show ?thesis by blast
qed

text \<open>
  Recovery always succeeds (barring an injected fault) and is complete: every job whose
  lease has expired becomes pending and unowned, keeping its epoch, attempts, target and
  intent; every other job and every other table stay as they are; and the recovered jobs are
  returned in creation order.
\<close>

theorem recover_expired_complete:
  assumes ok: "db_ok env db" and fault: "\<not> env_fault env ''recovery.after_update''"
  shows "\<exists>js. recover_expired_leases env (Aware now) db = (Inr js,
      db\<lparr>db_jobs := map (\<lambda>r. if expired now r then recover_row now r else r) (db_jobs db)\<rparr>) \<and>
    map job_id js = expired_ids now db"
proof -
  let ?db' = "db\<lparr>db_jobs := map (\<lambda>r. if expired now r then recover_row now r else r) (db_jobs db)\<rparr>"
  note fold = recover_fold_all[OF ok fault, of now]
  have "db_ok env (snd (expired_ids now db, ?db'))"
    by (rule foldM_invariant[OF fold]) (use ok recover_one_ok in auto)
  then have ok': "db_ok env ?db'" by simp
  obtain js where "traverse (job_by_id env ?db') (expired_ids now db) = Inr js"
    "map job_id js = expired_ids now db"
    using recovered_jobs_read[OF ok', of now db] by auto
  with fold show ?thesis
    by (simp add: recover_expired_leases_def recover_expired_leases_body_def transaction_def
        normalize_datetime_def)
qed

end
