(* ===== verification/Publication_Properties.thy ===== *)
theory Publication_Properties
  imports Repo_Properties
begin

text \<open>
  The properties of \<^verbatim>\<open>publish_snapshot\<close>: what a committed publication makes readable, that a
  conflicting one leaves nothing of its candidate behind, and that a higher intent raised
  while the worker was busy is never lost.
\<close>

section \<open>Effects of the two outcomes\<close>

lemma fold_intent_jobs: "fold_intent i t now db = Inr db' \<Longrightarrow> \<exists>rows. db' = db\<lparr>db_jobs := rows\<rparr>"
  by (auto simp: fold_intent_def update_jobs_eq_Inr)

lemma preserve_follow_up_jobs:
  assumes "preserve_follow_up env j w v now db = Inr db'"
  shows "\<exists>rows. db' = db\<lparr>db_jobs := rows\<rparr>"
proof -
  have self: "\<exists>rows. db = db\<lparr>db_jobs := rows\<rparr>" by (rule exI[of _ "db_jobs db"]) simp
  show ?thesis
    using assms self
    by (auto simp: preserve_follow_up_def insert_job_eq_Inr split: if_splits option.splits
        dest: fold_intent_jobs)
qed

lemma preserve_follow_up_intent:
  assumes run: "preserve_follow_up env j w v now db = Inr db'"
    and above: "snap_covered_event_end w < job_intent_target_hwm j"
  shows "\<exists>r. find_nonterminal db' (env_hash env (job_session_key j)) = Some r \<and>
    job_intent_target_hwm j \<le> jr_intent r"
proof (cases "find_nonterminal db (env_hash env (job_session_key j))")
  case None
  with run above insert_pending_nonterminal[OF None] show ?thesis
    by (fastforce simp: preserve_follow_up_def pending_job_def)
next
  case (Some r)
  show ?thesis
  proof (cases "jr_intent r < job_intent_target_hwm j")
    case True
    with run above Some have "fold_intent (jr_id r) (job_intent_target_hwm j) now db = Inr db'"
      by (simp add: preserve_follow_up_def)
    from fold_intent_nonterminal[OF this Some] show ?thesis by simp
  next
    case False
    with run above Some have "db' = db" by (simp add: preserve_follow_up_def)
    with Some False show ?thesis by simp
  qed
qed

lemma terminal_job_stays:
  assumes ok: "db_ok env db" "db_ok env db'" and ext: "db_extends db db'"
    and r: "find_job db i = Some r" "\<not> is_nonterminal (jr_state r)"
  shows "find_job db' i = Some r"
proof -
  from ext have "grows job_evolves (db_jobs db) (db_jobs db')" by (simp add: db_extends_def)
  from growsD[OF this] find_jobD[OF r(1)] r(2) have "r \<in> set (db_jobs db')" "jr_id r = i"
    by (auto simp: job_evolves_def)
  moreover from ok(2) have "distinct (map jr_id (db_jobs db'))" by (simp add: db_ok_def jobs_ok_def)
  ultimately show ?thesis using fetchone_key[of jr_id "db_jobs db'" r] by (simp add: find_job_def)
qed

text \<open>What the part after the savepoint does, in either outcome.\<close>

definition publish_finished ::
  "env \<Rightarrow> job \<Rightarrow> publish_outcome \<Rightarrow> snapshot \<Rightarrow> db \<Rightarrow> publish_result \<Rightarrow> db \<Rightarrow> bool" where
  "publish_finished env j outcome w db res db' \<longleftrightarrow>
     (\<exists>rows. db' = db\<lparr>db_jobs := rows\<rparr>) \<and> res_outcome res = outcome \<and> res_winner res = w \<and>
     (\<exists>r. find_job db' (job_id j) = Some r \<and>
        jr_state r = (if outcome = OUTCOME_COMMITTED then COMMITTED else SUPERSEDED)) \<and>
     (snap_covered_event_end w < job_intent_target_hwm j \<longrightarrow>
        (\<exists>r. find_nonterminal db' (env_hash env (job_session_key j)) = Some r \<and>
           job_intent_target_hwm j \<le> jr_intent r))"

lemma finish_and_follow_up:
  assumes ok: "db_ok env db" and j: "job_by_id env db (job_id j) = Inr j"
    and fin: "finish_publish_job env j owner epoch now outcome db = Inr (j1, db1)"
    and pf: "preserve_follow_up env j1 w v now db1 = Inr db'" and ok': "db_ok env db'"
    and res: "res_outcome res = outcome" "res_winner res = w"
  shows "publish_finished env j outcome w db res db'"
proof -
  from finish_publish_job_ok[OF ok fin] obtain r k rows where f: "db_ok env db1"
    "find_job db (job_id j) = Some r" "stored_key db (jr_hash r) = Some k"
    "j1 = job_envelope k (finish_row outcome now r)" "db1 = db\<lparr>db_jobs := rows\<rparr>"
    "find_job db1 (job_id j) = Some (finish_row outcome now r)" by metis
  note same = finish_same_session[OF ok j f(2-4)]
  have "\<not> is_nonterminal (jr_state (finish_row outcome now r))"
    by (simp add: finish_row_def is_nonterminal_def)
  from terminal_job_stays[OF f(1) ok' preserve_follow_up_extends[OF f(1) pf] f(6) this]
  have "find_job db' (job_id j) = Some (finish_row outcome now r)" .
  moreover from preserve_follow_up_jobs[OF pf] f(5) have "\<exists>rows. db' = db\<lparr>db_jobs := rows\<rparr>" by auto
  moreover have "\<exists>r. find_nonterminal db' (env_hash env (job_session_key j)) = Some r \<and>
      job_intent_target_hwm j \<le> jr_intent r" if "snap_covered_event_end w < job_intent_target_hwm j"
    using preserve_follow_up_intent[OF pf] that same by simp
  ultimately show ?thesis using res by (auto simp: publish_finished_def finish_row_def)
qed

lemma publish_superseded_finished:
  assumes ok: "db_ok env db" and j: "job_by_id env db (job_id j) = Inr j"
    and run: "publish_superseded env j owner epoch now db = Inr (res, db')"
  shows "\<exists>w v ms. publish_finished env j OUTCOME_SUPERSEDED w db res db' \<and>
    active_snapshot_bundle env db (job_session_key j) = Inr (w, v, ms) \<and> res_pointer_version res = v"
proof -
  from run obtain j1 db1 w v ms where
    fin: "finish_publish_job env j owner epoch now OUTCOME_SUPERSEDED db = Inr (j1, db1)" and
    act: "active_snapshot_bundle env db1 (job_session_key j) = Inr (w, v, ms)" and
    pf: "preserve_follow_up env j1 w v now db1 = Inr db'" and
    res: "res = \<lparr>res_outcome = OUTCOME_SUPERSEDED, res_job = j1, res_winner = w, res_pointer_version = v\<rparr>"
    by (auto simp: publish_superseded_def result_simps)
  have "publish_finished env j OUTCOME_SUPERSEDED w db res db'"
    by (rule finish_and_follow_up[OF ok j fin pf publish_superseded_ok[OF ok j run]]) (simp_all add: res)
  moreover obtain rows where db1: "db1 = db\<lparr>db_jobs := rows\<rparr>"
    using finish_publish_job_ok[OF ok fin] by metis
  have "active_snapshot_bundle env db1 k = active_snapshot_bundle env db k" for k
    by (simp add: db1 active_snapshot_bundle_def find_pointer_def snapshot_bundle_by_id_def)
  ultimately show ?thesis using act by (auto simp: res)
qed

lemma publish_committed_finished:
  assumes ok: "db_ok env db" "db_ok env db'" and j: "job_by_id env db (job_id j) = Inr j"
    and run: "publish_committed env j w owner epoch now db = Inr (res, db')"
  shows "publish_finished env j OUTCOME_COMMITTED w db res db'"
    "res_pointer_version res = job_base_pointer_version j + 1"
proof -
  from run obtain j1 db1 where
    fin: "finish_publish_job env j owner epoch now OUTCOME_COMMITTED db = Inr (j1, db1)" and
    pf: "preserve_follow_up env j1 w (job_base_pointer_version j + 1) now db1 = Inr db'" and
    res: "res = \<lparr>res_outcome = OUTCOME_COMMITTED, res_job = j1, res_winner = w,
      res_pointer_version = job_base_pointer_version j + 1\<rparr>"
    by (auto simp: publish_committed_def result_simps)
  show "publish_finished env j OUTCOME_COMMITTED w db res db'"
    by (rule finish_and_follow_up[OF ok(1) j fin pf ok(2)]) (simp_all add: res)
  show "res_pointer_version res = job_base_pointer_version j + 1" by (simp add: res)
qed

section \<open>Properties\<close>

text \<open>
  The job table after a publication ended: the published job is finished, and where its intent
  lies beyond the winner one pending job carries it on. The session has no other job that is
  not terminal, so there is nothing the intent could be folded into.
\<close>

definition follow_up_rows :: "env \<Rightarrow> job_row \<Rightarrow> snapshot \<Rightarrow> int \<Rightarrow> int \<Rightarrow> job_row list" where
  "follow_up_rows env r w v now =
     (if jr_intent r \<le> snap_covered_event_end w then []
      else [pending_job (follow_up_id env (jr_id r) (snap_id w) v (jr_intent r)) (jr_hash r) (jr_intent r)
              (Some (snap_id w)) v now])"

lemma finished_session_idle:
  assumes ok: "db_ok env db" and r: "find_job db i = Some r" "is_nonterminal (jr_state r)"
    and db1: "db1 = db\<lparr>db_jobs := update_where (\<lambda>x. jr_id x = i) (finish_row outcome now) (db_jobs db)\<rparr>"
  shows "find_nonterminal db1 (jr_hash r) = None"
proof -
  have un: "distinct (map jr_hash (filter (is_nonterminal \<circ> jr_state) (db_jobs db)))"
    using ok by (simp add: db_ok_def jobs_ok_def unique_nonterminal_def)
  have other: "x = r" if "x \<in> set (db_jobs db)" "is_nonterminal (jr_state x)" "jr_hash x = jr_hash r" for x
    by (rule distinct_map_inj[OF un]) (use that r(2) find_jobD[OF r(1)] in auto)
  have fin: "\<not> is_nonterminal (jr_state (finish_row outcome now x))" for x
    by (simp add: finish_row_def is_nonterminal_def)
  show ?thesis unfolding find_nonterminal_def fetchone_None_iff
    using other fin find_jobD[OF r(1)] by (auto simp: db1 update_where_def)
qed

lemma finish_publish_job_rows:
  assumes ok: "db_ok env db" and fin: "finish_publish_job env j owner epoch now outcome db = Inr (j1, db1)"
  obtains r k where "find_job db (job_id j) = Some r" "jr_state r = READY_TO_COMMIT" "stored_key db (jr_hash r) = Some k"
    "j1 = job_envelope k (finish_row outcome now r)"
    "db1 = db\<lparr>db_jobs := update_where (\<lambda>x. jr_id x = job_id j) (finish_row outcome now) (db_jobs db)\<rparr>"
proof -
  from fin have up: "db1 = db\<lparr>db_jobs := update_where (finish_where j owner epoch now) (finish_row outcome now) (db_jobs db)\<rparr>"
    by (auto simp: finish_publish_job_def result_simps)
  from finish_publish_job_ok[OF ok fin] obtain r k where r: "find_job db (job_id j) = Some r"
    "finish_where j owner epoch now r" "stored_key db (jr_hash r) = Some k" "j1 = job_envelope k (finish_row outcome now r)"
    by metis
  have ids: "distinct (map jr_id (db_jobs db))" using ok by (simp add: db_ok_def jobs_ok_def)
  have "finish_where j owner epoch now x = (jr_id x = job_id j)" if "x \<in> set (db_jobs db)" for x
    using distinct_map_inj[OF ids that, of r] r(2) find_jobD[OF r(1)] by (auto simp: finish_where_def)
  then have "db1 = db\<lparr>db_jobs := update_where (\<lambda>x. jr_id x = job_id j) (finish_row outcome now) (db_jobs db)\<rparr>"
    unfolding up by (auto simp: update_where_def)
  moreover have "jr_state r = READY_TO_COMMIT" using r(2) by (simp add: finish_where_def)
  ultimately show thesis using that r by blast
qed

lemma superseded_rows:
  assumes ok: "db_ok env db" and run: "publish_superseded env j owner epoch now db = Inr (res, db')"
  obtains r where "find_job db (job_id j) = Some r" "jr_state r = READY_TO_COMMIT"
    "db' = db\<lparr>db_jobs := update_where (\<lambda>x. jr_id x = job_id j) (finish_row OUTCOME_SUPERSEDED now) (db_jobs db) @
       follow_up_rows env r (res_winner res) (res_pointer_version res) now\<rparr>"
proof -
  from run obtain j1 db1 w v where
    fin: "finish_publish_job env j owner epoch now OUTCOME_SUPERSEDED db = Inr (j1, db1)" and
    pf: "preserve_follow_up env j1 w v now db1 = Inr db'" and res: "res_winner res = w" "res_pointer_version res = v"
    by (auto simp: publish_superseded_def result_simps)
  from ok fin obtain r k where r: "find_job db (job_id j) = Some r" "jr_state r = READY_TO_COMMIT"
    "stored_key db (jr_hash r) = Some k" "j1 = job_envelope k (finish_row OUTCOME_SUPERSEDED now r)"
    and db1: "db1 = db\<lparr>db_jobs := update_where (\<lambda>x. jr_id x = job_id j) (finish_row OUTCOME_SUPERSEDED now) (db_jobs db)\<rparr>"
    by (rule finish_publish_job_rows)
  have idle: "find_nonterminal db1 (jr_hash r) = None"
    by (rule finished_session_idle[OF ok r(1) _ db1]) (simp add: r(2) is_nonterminal_def)
  have j1: "env_hash env (job_session_key j1) = jr_hash r" "job_intent_target_hwm j1 = jr_intent r" "job_id j1 = jr_id r"
    using stored_keyD(1)[OF ok r(3)] by (simp_all add: r(4) job_envelope_def finish_row_def)
  from pf have "db' = db1\<lparr>db_jobs := db_jobs db1 @ follow_up_rows env r w v now\<rparr>"
    by (auto simp: preserve_follow_up_def Let_def j1 idle follow_up_rows_def insert_job_eq_Inr split: if_splits)
  with r that show thesis by (simp add: db1 res)
qed

lemma publish_conflict_facts:
  assumes ok: "db_ok env db" and valid: "valid_publication pub"
    and run: "publish_snapshot env i owner epoch (Aware now) pub db = (Inr res, db')"
    and lost: "res_outcome res = OUTCOME_SUPERSEDED"
  shows "(\<exists>r. find_job db i = Some r \<and> jr_state r = READY_TO_COMMIT \<and>
       db' = db\<lparr>db_jobs := update_where (\<lambda>x. jr_id x = i) (finish_row OUTCOME_SUPERSEDED now) (db_jobs db) @
         (if jr_intent r \<le> snap_covered_event_end (res_winner res) then []
          else [pending_job (follow_up_id env i (snap_id (res_winner res)) (res_pointer_version res) (jr_intent r))
                  (jr_hash r) (jr_intent r) (Some (snap_id (res_winner res))) (res_pointer_version res) now])\<rparr>) \<and>
    (\<exists>r. find_job db' i = Some r \<and> jr_state r = SUPERSEDED \<and> jr_owner r = None) \<and>
    (\<exists>ms. active_snapshot_bundle env db (snap_session_key (pub_snapshot pub)) =
       Inr (res_winner res, res_pointer_version res, ms))"
proof -
  from run have body: "publish_snapshot_body env i owner epoch (Aware now) pub db = Inr (res, db')"
    by (simp add: publish_snapshot_def transaction_eq_Inr)
  from ok body valid[unfolded valid_publication_def] show ?thesis
  proof (cases rule: publish_snapshot_body_cases)
    case (superseded t j committed records)
    from publish_checks_candidate_ok[OF ok superseded(2)] have i: "job_id j = i" by simp
    have t: "t = now" using superseded(1) by simp
    from ok superseded(3)[unfolded t] obtain r where r: "find_job db (job_id j) = Some r" "jr_state r = READY_TO_COMMIT"
      and db': "db' = db\<lparr>db_jobs := update_where (\<lambda>x. jr_id x = job_id j) (finish_row OUTCOME_SUPERSEDED now) (db_jobs db) @
        follow_up_rows env r (res_winner res) (res_pointer_version res) now\<rparr>"
      by (rule superseded_rows)
    have "find_job db' i = Some (finish_row OUTCOME_SUPERSEDED now r)"
      using r(1) find_jobD[OF r(1)] unfolding db' i find_job_def
      by (simp add: fetchone_append fetchone_update_where finish_row_def)
    moreover from superseded(2) have "snap_session_key (pub_snapshot pub) = job_session_key j"
      by (rule publish_checks_facts)
    moreover from publish_superseded_finished[OF ok superseded(4,3)] obtain w v ms where
      "publish_finished env j OUTCOME_SUPERSEDED w db res db'"
      "active_snapshot_bundle env db (job_session_key j) = Inr (w, v, ms)" "res_pointer_version res = v"
      by auto
    ultimately show ?thesis using r db' i find_jobD[OF r(1)]
      by (auto simp: publish_finished_def follow_up_rows_def finish_row_def)
  next
    case (committed t j com records row db5 db1)
    have ok': "db_ok env db'"
      using publish_snapshot_body_ok[OF ok body] valid by (simp add: valid_publication_def)
    have "job_by_id env db1 (job_id j) = Inr j"
      using content_added_job[OF committed(5,7)] committed(3) by (simp add: candidate_ok_def)
    from publish_committed_finished(1)[OF committed(9) ok' this committed(10)] lost
    show ?thesis by (simp add: publish_finished_def)
  qed
qed


lemma published_bundle:
  assumes cand: "candidate_ok env db j com ms" and row: "snapshot_row_of env com = Inr row"
    and add: "content_added env (job_session_key j) row ms db db5"
    and won: "pointer_won env j com db5 db1" and content: "content_ok env db"
    and ok1: "db_ok env db1"
  shows "active_snapshot_bundle env db1 (job_session_key j) = Inr (com, job_base_pointer_version j + 1, ms)"
proof -
  let ?k = "job_session_key j"
  note c = cand[unfolded candidate_ok_def]
  from c have s: "valid_snapshot com" "snap_capsule_ids com = map mem_capsule_id ms"
    "snap_state com = SNAPSHOT_COMMITTED" and key: "snap_session_key com = ?k"
    and stored: "stored_key db (env_hash env ?k) = Some ?k"
    and val: "validate_snapshot_memberships com ms = Inr ()" by blast+
  note rt = snapshot_row_of_roundtrip[OF row s, unfolded key]
  obtain rows where db1: "db1 = db5\<lparr>db_pointers := rows\<rparr>" using pointer_won_tables[OF won] ..
  from won obtain p where p: "find_pointer db1 (env_hash env ?k) = Some p" "pr_snapshot p = snap_id com"
    "pr_version p = job_base_pointer_version j + 1" unfolding pointer_won_def Let_def by blast
  have snap: "find_snapshot db1 (snap_id com) = Some row"
    using find_snapshot_added(2)[OF add] rt(3) by (simp add: db1 find_snapshot_def)
  from add have "db_sessions db1 = db_sessions db" by (simp add: db1 content_added_def)
  with stored obtain ses where ses: "find_session db1 (env_hash env ?k) = Some ses"
    and sk: "stored_key db1 (env_hash env ?k) = Some ?k" by (auto simp: stored_key_def find_session_def)
  have from_storage: "session_key_from_storage env (env_hash env ?k) (ses_canonical ses) = Inr ?k"
    using session_key_from_storage_ok[OF ok1 ses] sk by auto
  have mems: "memberships_for_snapshot env db1 (snap_id com) ?k = Inr ms"
    using content_added_new_memberships[OF content add] rt(3) by (simp add: db1)
  have "snapshot_bundle_by_id env db1 (snap_id com) ?k = Inr (com, ms)"
    unfolding snapshot_bundle_by_id_def
    by (simp add: snap rt(2) ses from_storage mems rt(1) val)
  with p key show ?thesis by (simp add: active_snapshot_bundle_def)
qed

lemma publish_checks_key:
  assumes "publish_checks env i owner epoch now pub db = Inr (j, com, records)"
  shows "snap_session_key (pub_snapshot pub) = job_session_key j"
    "com = committed_form (pub_snapshot pub) now"
proof -
  from assms show "snap_session_key (pub_snapshot pub) = job_session_key j"
    by (rule publish_checks_facts)
  from assms show "com = committed_form (pub_snapshot pub) now" by (rule publish_checks_facts)
qed

lemma publish_commit_facts:
  assumes ok: "db_ok env db" and valid: "valid_publication pub"
    and run: "publish_snapshot env i owner epoch (Aware now) pub db = (Inr res, db')"
    and won: "res_outcome res = OUTCOME_COMMITTED"
    and h: "h = env_hash env (snap_session_key (pub_snapshot pub))"
  shows "res_winner res = committed_form (pub_snapshot pub) now \<and>
    active_snapshot_bundle env db' (snap_session_key (pub_snapshot pub)) =
      Inr (res_winner res, res_pointer_version res, pub_memberships pub) \<and>
    res_pointer_version res = pointer_version db h + 1 \<and>
    pointer_version db' h = pointer_version db h + 1 \<and>
    coverage db h < coverage db' h \<and>
    coverage db' h = snap_covered_event_end (pub_snapshot pub) \<and>
    (\<forall>h'. h' \<noteq> h \<longrightarrow> pointer_version db' h' = pointer_version db h' \<and> coverage db' h' = coverage db h') \<and>
    (\<exists>r. find_job db' i = Some r \<and> jr_state r = COMMITTED)"
proof -
  from run have body: "publish_snapshot_body env i owner epoch (Aware now) pub db = Inr (res, db')"
    by (simp add: publish_snapshot_def transaction_eq_Inr)
  have ok': "db_ok env db'"
    using publish_snapshot_body_ok[OF ok body] valid by (simp add: valid_publication_def)
  from ok body valid[unfolded valid_publication_def] show ?thesis
  proof (cases rule: publish_snapshot_body_cases)
    case (superseded t j committed records)
    from publish_superseded_finished[OF ok superseded(4,3)] won show ?thesis
      by (auto simp: publish_finished_def)
  next
    case (committed t j com records row db5 db1)
    note c = committed(3)[unfolded candidate_ok_def]
    have jid: "job_id j = i" by (rule publish_checks_candidate_ok(2)[OF ok committed(2)])
    note key = publish_checks_key(1)[OF committed(2)] and com = publish_checks_key(2)[OF committed(2)]
    have jb: "job_by_id env db (job_id j) = Inr j" using c by blast
    from c have s: "valid_snapshot com" "snap_capsule_ids com = map mem_capsule_id (pub_memberships pub)"
      "snap_state com = SNAPSHOT_COMMITTED" and end_: "snap_covered_event_end com = job_target_hwm j" by blast+
    note rt = snapshot_row_of_roundtrip[OF committed(4) s]
    have rowc: "snap_id com = nr_id row" "nr_covered_end row = job_target_hwm j" by (simp_all add: rt end_)
    have hj: "h = env_hash env (job_session_key j)" by (simp add: h key)
    note pr = pointer_won_progress[OF ok committed(5-7) rowc jb hj]
    have jb1: "job_by_id env db1 (job_id j) = Inr j" using content_added_job[OF committed(5,7)] jb by simp
    note fin = publish_committed_finished[OF committed(9) ok' jb1 committed(10)]
    from fin(1) obtain rows where db': "db' = db1\<lparr>db_jobs := rows\<rparr>" by (auto simp: publish_finished_def)
    from ok have "content_ok env db" by (simp add: db_ok_def)
    from published_bundle[OF committed(3-5) committed(7) this committed(9)]
    have act: "active_snapshot_bundle env db' (job_session_key j) =
        Inr (com, job_base_pointer_version j + 1, pub_memberships pub)"
      by (simp add: db' active_snapshot_bundle_def find_pointer_def snapshot_bundle_by_id_def)
    have ver: "job_base_pointer_version j = pointer_version db h"
      using committed(6,7) unfolding pointer_won_def Let_def
      by (simp add: pointer_version_def find_pointer_def hj)
    have "snap_covered_event_end (pub_snapshot pub) = job_target_hwm j"
      using end_ by (simp add: com committed_form_def)
    moreover have "pointer_version db' h' = pointer_version db1 h'" "coverage db' h' = coverage db1 h'" for h'
      by (simp_all add: db')
    moreover have "res_winner res = com" "\<exists>r. find_job db' i = Some r \<and> jr_state r = COMMITTED"
      using fin(1) jid by (simp_all add: publish_finished_def)
    moreover have "t = now" using committed(1) by simp
    ultimately show ?thesis using act pr fin(2) ver key com by simp
  qed
qed

text \<open>
  C4. A committed publication is what readers see next: the active bundle of the session is
  exactly the published snapshot in committed form with the published ordered capsules; the
  pointer version is one higher, coverage moved strictly forward to the snapshot's end, the
  pointers of all other sessions did not move, and the job is committed.
\<close>

theorem publish_commit_visible:
  assumes ok: "db_ok env db" and valid: "valid_publication pub"
    and run: "publish_snapshot env i owner epoch (Aware now) pub db = (Inr res, db')"
    and won: "res_outcome res = OUTCOME_COMMITTED"
    and h: "h = env_hash env (snap_session_key (pub_snapshot pub))"
  shows "res_winner res = committed_form (pub_snapshot pub) now \<and>
    active_snapshot_bundle env db' (snap_session_key (pub_snapshot pub)) =
      Inr (res_winner res, res_pointer_version res, pub_memberships pub) \<and>
    res_pointer_version res = pointer_version db h + 1 \<and>
    pointer_version db' h = pointer_version db h + 1 \<and>
    coverage db h < coverage db' h \<and>
    coverage db' h = snap_covered_event_end (pub_snapshot pub) \<and>
    (\<forall>h'. h' \<noteq> h \<longrightarrow> pointer_version db' h' = pointer_version db h' \<and> coverage db' h' = coverage db h') \<and>
    (\<exists>r. find_job db' i = Some r \<and> jr_state r = COMMITTED)"
  by (rule publish_commit_facts[OF ok valid run won h])

text \<open>
  C6. No intent is lost by publication: whatever the outcome, if the published job carried an
  intent beyond the coverage of the snapshot that is active afterwards, the session has a job
  that is not terminal and whose intent reaches at least as far.
\<close>

theorem publish_preserves_intent:
  assumes ok: "db_ok env db" and valid: "valid_publication pub"
    and row: "find_job db i = Some r"
    and run: "publish_snapshot env i owner epoch (Aware now) pub db = (Inr res, db')"
    and above: "snap_covered_event_end (res_winner res) < jr_intent r"
  shows "\<exists>r'. find_nonterminal db' (jr_hash r) = Some r' \<and> jr_intent r \<le> jr_intent r'"
proof -
  from run have body: "publish_snapshot_body env i owner epoch (Aware now) pub db = Inr (res, db')"
    by (simp add: publish_snapshot_def transaction_eq_Inr)
  have ok': "db_ok env db'"
    using publish_snapshot_body_ok[OF ok body] valid by (simp add: valid_publication_def)
  have key: "env_hash env (job_session_key j) = jr_hash r \<and> job_intent_target_hwm j = jr_intent r"
    if j: "job_by_id env db i = Inr j" for j
  proof -
    from j obtain r' k where "find_job db i = Some r'" "j = job_envelope k r'" "env_hash env k = jr_hash r'"
      by (rule job_by_id_eq_Inr)
    with row show ?thesis by (simp add: job_envelope_def)
  qed
  from ok body valid[unfolded valid_publication_def] show ?thesis
  proof (cases rule: publish_snapshot_body_cases)
    case (superseded t j committed records)
    have "job_id j = i" by (rule publish_checks_candidate_ok(2)[OF ok superseded(2)])
    with superseded(4) key[of j] publish_superseded_finished[OF ok superseded(4,3)] above show ?thesis
      by (auto simp: publish_finished_def)
  next
    case (committed t j com records row' db5 db1)
    have jid: "job_id j = i" by (rule publish_checks_candidate_ok(2)[OF ok committed(2)])
    have jb: "job_by_id env db (job_id j) = Inr j" using committed(3) by (simp add: candidate_ok_def)
    have jb1: "job_by_id env db1 (job_id j) = Inr j" using content_added_job[OF committed(5,7)] jb by simp
    from publish_committed_finished(1)[OF committed(9) ok' jb1 committed(10)] key[of j] jb jid above
    show ?thesis by (auto simp: publish_finished_def)
  qed
qed

end
