(* ===== verification/Read_View.thy ===== *)
theory Read_View
  imports Repo_Machine
begin

text \<open>
  The request-side read port, \<^verbatim>\<open>runtime/read_view.py\<close>: the runtime reads one view from its
  source and checks it again. On a database that satisfies the durable invariant the
  repository's view is always available, contiguous, and accepted by these checks.
\<close>

section \<open>The runtime's validation\<close>

datatype view_error =
  TYPE_INVALID | SESSION_MISMATCH | BOOTSTRAP_INVALID | SNAPSHOT_INVALID | COVERAGE_INVALID
| DELTA_GAP | DELTA_IDENTITY_MISMATCH

definition validate_view_snapshot :: "request_view \<Rightarrow> session_key \<Rightarrow> view_error + unit" where
  "validate_view_snapshot v k =
     (case rv_snapshot v of
        None \<Rightarrow> guard (rv_pointer_version v = 0 \<and> rv_covered_event_end v = 0 \<and> rv_memberships v = [])
                 BOOTSTRAP_INVALID
      | Some s \<Rightarrow>
          guard (\<not> (rv_pointer_version v < 1 \<or> snap_state s \<noteq> SNAPSHOT_COMMITTED \<or>
                    snap_session_key s \<noteq> k \<or>
                    snap_covered_event_end s \<noteq> rv_covered_event_end v \<or>
                    snap_source_high_water_mark s \<noteq> rv_covered_event_end v \<or>
                    map mem_capsule_id (rv_memberships v) \<noteq> snap_capsule_ids s \<or>
                    map mem_ordinal (rv_memberships v) \<noteq> range_list 0 (int (length (rv_memberships v))) \<or>
                    (\<exists>m \<in> set (rv_memberships v). cap_session_key (mem_capsule m) \<noteq> k)))
            SNAPSHOT_INVALID)"

definition validate_view_delta :: "request_view \<Rightarrow> session_key \<Rightarrow> view_error + unit" where
  "validate_view_delta v k =
     bind (guard (\<not> (rv_covered_event_end v < 0 \<or> rv_high_water_mark v < rv_covered_event_end v))
             COVERAGE_INVALID) (\<lambda>_.
     bind (guard (\<not> (\<exists>e \<in> set (rv_delta v). ev_session_key e \<noteq> k)) DELTA_IDENTITY_MISMATCH) (\<lambda>_.
     guard (map ev_sequence (rv_delta v) =
              range_list (rv_covered_event_end v + 1) (rv_high_water_mark v + 1)) DELTA_GAP))"

text \<open>
  \<^verbatim>\<open>read_request_view(source, session_key)\<close>: the source may raise its own error, kept apart as
  \<open>Inl (Inl e)\<close>. The type test of the code is the type of \<open>source\<close>.
\<close>

definition runtime_read_request_view ::
  "(session_key \<Rightarrow> 'e + request_view) \<Rightarrow> session_key \<Rightarrow> ('e + view_error) + request_view" where
  "runtime_read_request_view source k =
     (case source k of
        Inl e \<Rightarrow> Inl (Inl e)
      | Inr v \<Rightarrow>
          (case bind (guard (rv_session_key v = k) SESSION_MISMATCH) (\<lambda>_.
                bind (validate_view_snapshot v k) (\<lambda>_.
                validate_view_delta v k)) of
             Inl e \<Rightarrow> Inl (Inr e)
           | Inr _ \<Rightarrow> Inr v))"

section \<open>The contract of a view source\<close>

text \<open>What a source promises in the states its owner keeps it in.\<close>

locale request_view_source =
  fixes source :: "'s \<Rightarrow> session_key \<Rightarrow> 'e + request_view"
    and good :: "'s \<Rightarrow> bool"
  assumes identity: "good s \<Longrightarrow> source s k = Inr v \<Longrightarrow> rv_session_key v = k"
    and bootstrap: "good s \<Longrightarrow> source s k = Inr v \<Longrightarrow> rv_snapshot v = None \<Longrightarrow>
      rv_pointer_version v = 0 \<and> rv_covered_event_end v = 0 \<and> rv_memberships v = []"
    and committed: "good s \<Longrightarrow> source s k = Inr v \<Longrightarrow> rv_snapshot v = Some n \<Longrightarrow>
      validate_view_snapshot v k = Inr ()"
    and delta: "good s \<Longrightarrow> source s k = Inr v \<Longrightarrow>
      0 \<le> rv_covered_event_end v \<and> rv_covered_event_end v \<le> rv_high_water_mark v \<and>
      map ev_sequence (rv_delta v) = upto (rv_covered_event_end v + 1) (rv_high_water_mark v) \<and>
      (\<forall>e \<in> set (rv_delta v). ev_session_key e = k)"
begin

lemma accepted:
  assumes "good s" "source s k = Inr v"
  shows "runtime_read_request_view (source s) k = Inr v"
proof -
  have "validate_view_snapshot v k = Inr ()"
    using bootstrap[OF assms] committed[OF assms]
    by (cases "rv_snapshot v") (simp_all add: validate_view_snapshot_def)
  moreover have "validate_view_delta v k = Inr ()"
    using delta[OF assms] by (auto simp: validate_view_delta_def)
  ultimately show ?thesis
    using assms(2) identity[OF assms] by (simp add: runtime_read_request_view_def)
qed

lemma never_invalid:
  assumes "good s"
  shows "runtime_read_request_view (source s) k \<noteq> Inl (Inr e)"
  using accepted[OF assms] by (cases "source s k") (auto simp: runtime_read_request_view_def)

end

section \<open>Reading the journal\<close>

lemma filter_upto:
  assumes "0 \<le> a" "b \<le> n"
  shows "filter (\<lambda>x. a < x \<and> x \<le> b) (upto 1 n) = upto (a + 1) b"
proof (rule sorted_distinct_set_unique)
  show "sorted (filter (\<lambda>x. a < x \<and> x \<le> b) [1..n])" by (simp add: sorted_wrt_filter)
qed (use assms in auto)

lemma event_from_row_ok:
  assumes "event_ok env r" "er_hash r = env_hash env k" "valid_session_key k"
  shows "\<exists>e. event_from_row env k r = Inr e \<and> ev_sequence e = er_sequence r \<and> ev_session_key e = k"
proof -
  from assms(1) obtain content n where
    "er_content r = Sealed (env_key_id env) ''journal_events'' ''content'' (er_id r) content"
    "er_tokens r = Sealed (env_key_id env) ''journal_events'' ''token_count'' (er_id r) n" "n \<ge> 0"
    and v: "er_id r \<noteq> []" "er_idem r \<noteq> []" "er_sequence r \<ge> 1"
      "(er_role r, er_hook r) = event_mapping (er_type r)" by (auto simp: event_ok_def)
  with assms(2,3) show ?thesis
    by (simp add: event_from_row_def unseal_def decrypt_non_negative_int_def valid_event_def)
qed

lemma events_between_ok:
  assumes ok: "db_ok env db" and key: "stored_key db (env_hash env k) = Some k"
    and range: "0 \<le> a" "b \<le> high_water db (env_hash env k)"
  shows "\<exists>es. events_between env db k a b = Inr es \<and> map ev_sequence es = upto (a + 1) b \<and>
    (\<forall>e \<in> set es. ev_session_key e = k)"
proof -
  let ?h = "env_hash env k"
  let ?rows = "filter (\<lambda>r. er_hash r = ?h \<and> er_sequence r > a \<and> er_sequence r \<le> b) (db_events db)"
  have "map er_sequence ?rows =
      filter (\<lambda>x. a < x \<and> x \<le> b) (map er_sequence (session_events db ?h))"
    by (simp add: session_events_def filter_map comp_def)
  also have "\<dots> = upto (a + 1) b"
    using ok range by (simp add: db_ok_def journal_ok_def filter_upto)
  finally have seq: "map er_sequence ?rows = upto (a + 1) b" .
  have good: "\<forall>r \<in> set (db_events db). event_ok env r" using ok by (simp add: db_ok_def journal_ok_def)
  define g where "g r = projr (event_from_row env k r)" for r
  have g: "event_from_row env k r = Inr (g r)" "ev_sequence (g r) = er_sequence r"
    "ev_session_key (g r) = k" if "r \<in> set ?rows" for r
    using event_from_row_ok[of env r k] that good stored_keyD(2)[OF ok key] by (auto simp: g_def)
  have "events_between env db k a b = Inr (map g ?rows)"
    unfolding events_between_def sort_key_sorted[OF seq] by (rule traverse_total) (rule g(1))
  moreover have "map ev_sequence (map g ?rows) = upto (a + 1) b"
    unfolding seq[symmetric] map_map by (rule map_cong) (simp_all add: g(2))
  moreover have "\<forall>e \<in> set (map g ?rows). ev_session_key e = k" using g(3) by auto
  ultimately show ?thesis by blast
qed

section \<open>The repository is such a source\<close>

text \<open>The view read through the active pointer.\<close>

lemma active_snapshot_ok:
  assumes ok: "db_ok env db" and key: "stored_key db (env_hash env k) = Some k"
    and p: "find_pointer db (env_hash env k) = Some p"
  obtains row ms s where "find_snapshot db (pr_snapshot p) = Some row" "nr_hash row = env_hash env k"
    "memberships_for_snapshot env db (nr_id row) k = Inr ms"
    "snapshot_from_row env k (map mem_capsule_id ms) row = Inr s"
    "validate_snapshot_memberships s ms = Inr ()" "nr_state row = SNAPSHOT_COMMITTED"
    "nr_source_hwm row = nr_covered_end row" "nr_covered_end row \<le> high_water db (env_hash env k)"
proof -
  from pointer_snapshot_found[OF ok p] obtain row where
    row: "find_snapshot db (pr_snapshot p) = Some row" "nr_hash row = env_hash env k" by auto
  from ok find_snapshotD[OF row(1)] have "snapshot_row_ok env db row" by (simp add: db_ok_def content_ok_def)
  with row(2) key that[OF row] show thesis by (auto simp: snapshot_row_ok_def snapshot_readable_def)
qed

lemma decode_memberships_facts:
  assumes "decode_memberships env k n ps = Inr ms"
  shows "map mem_ordinal ms = upto n (n + int (length ms) - 1) \<and>
    (\<forall>m \<in> set ms. cap_session_key (mem_capsule m) = k)"
  using assms
proof (induction ps arbitrary: n ms)
  case (Cons p ps)
  obtain m row where p: "p = (m, row)" by (cases p)
  from Cons.prems p obtain c ms' where c: "capsule_from_row env k row = Inr c"
    and ms': "decode_memberships env k (n + 1) ps = Inr ms'"
    and ms: "ms = \<lparr>mem_ordinal = n, mem_slot = mr_slot m, mem_capsule = c\<rparr> # ms'"
    by (auto simp: result_simps)
  from c have "cap_session_key c = k" by (auto simp: capsule_from_row_def result_simps)
  with Cons.IH[OF ms'] ms show ?case by (simp add: upto_rec1)
qed simp

lemma snapshot_from_row_fields:
  assumes "snapshot_from_row env k ids row = Inr s"
  shows "snap_session_key s = k" "snap_capsule_ids s = ids" "snap_state s = nr_state row"
    "snap_covered_event_end s = nr_covered_end row"
    "snap_source_high_water_mark s = nr_source_hwm row" "valid_snapshot s" "snap_id s = nr_id row"
  using assms by (auto simp: snapshot_from_row_def bind_eq_Inr guard_eq_Inr)

text \<open>Every view the repository returns, field by field.\<close>

definition view_matches :: "env \<Rightarrow> db \<Rightarrow> session_key \<Rightarrow> request_view \<Rightarrow> bool" where
  "view_matches env db k v \<longleftrightarrow>
     (let h = env_hash env k in
      rv_session_key v = k \<and> rv_pointer_version v = pointer_version db h \<and>
      rv_covered_event_end v = coverage db h \<and> rv_high_water_mark v = high_water db h \<and>
      map ev_sequence (rv_delta v) = upto (coverage db h + 1) (high_water db h) \<and>
      (\<forall>e \<in> set (rv_delta v). ev_session_key e = k) \<and>
      0 \<le> coverage db h \<and> coverage db h \<le> high_water db h \<and>
      validate_view_snapshot v k = Inr ())"

lemma read_active_snapshot_ok:
  assumes ok: "db_ok env db" and key: "stored_key db (env_hash env k) = Some k"
  obtains s ms where "read_active_snapshot env db k =
      Inr (s, ms, pointer_version db (env_hash env k), coverage db (env_hash env k))"
    "0 \<le> coverage db (env_hash env k)" "coverage db (env_hash env k) \<le> high_water db (env_hash env k)"
    "\<And>v. rv_snapshot v = s \<Longrightarrow> rv_memberships v = ms \<Longrightarrow>
       rv_pointer_version v = pointer_version db (env_hash env k) \<Longrightarrow>
       rv_covered_event_end v = coverage db (env_hash env k) \<Longrightarrow> validate_view_snapshot v k = Inr ()"
proof (cases "find_pointer db (env_hash env k)")
  case None
  from key obtain ses where ses: "find_session db (env_hash env k) = Some ses" by (auto simp: stored_key_def)
  with find_session_ok(1)[OF ok ses] have "0 \<le> high_water db (env_hash env k)"
    by (simp add: high_water_def session_ok_def)
  with None show thesis
    by (intro that[of None "[]"])
       (simp_all add: read_active_snapshot_def pointer_version_def coverage_def validate_view_snapshot_def)
next
  case (Some p)
  from active_snapshot_ok[OF ok key Some] obtain row ms s where
    row: "find_snapshot db (pr_snapshot p) = Some row" "memberships_for_snapshot env db (nr_id row) k = Inr ms"
    and s: "snapshot_from_row env k (map mem_capsule_id ms) row = Inr s"
    and val: "validate_snapshot_memberships s ms = Inr ()"
    and st: "nr_state row = SNAPSHOT_COMMITTED" "nr_source_hwm row = nr_covered_end row"
      "nr_covered_end row \<le> high_water db (env_hash env k)" by metis
  note f = snapshot_from_row_fields[OF s]
  note d = decode_memberships_facts[OF row(2)[unfolded memberships_for_snapshot_def]]
  have cov: "coverage db (env_hash env k) = nr_covered_end row"
    "pointer_version db (env_hash env k) = pr_version p" using Some row by (simp_all add: coverage_def pointer_version_def)
  have "p \<in> set (db_pointers db)" using Some by (auto simp: find_pointer_def dest: fetchone_SomeD)
  with ok have ver: "1 \<le> pr_version p" by (simp add: db_ok_def pointers_ok_def)
  have pos: "1 \<le> nr_covered_end row" using f(4,6) by (simp add: valid_snapshot_def)
  show thesis
  proof (rule that[of "Some s" ms])
    show "read_active_snapshot env db k =
        Inr (Some s, ms, pointer_version db (env_hash env k), coverage db (env_hash env k))"
      using Some row s val f(4) cov by (simp add: read_active_snapshot_def)
    show "0 \<le> coverage db (env_hash env k)" "coverage db (env_hash env k) \<le> high_water db (env_hash env k)"
      using cov pos st by simp_all
    show "validate_view_snapshot v k = Inr ()" if "rv_snapshot v = Some s" "rv_memberships v = ms"
      "rv_pointer_version v = pointer_version db (env_hash env k)"
      "rv_covered_event_end v = coverage db (env_hash env k)" for v
      using that f d st ver cov by (simp add: validate_view_snapshot_def)
  qed
qed

lemma read_request_view_matches:
  assumes ok: "db_ok env db" and key: "stored_key db (env_hash env k) = Some k"
    and fault: "\<not> env_fault env ''read.after_high_water''" "\<not> env_fault env ''read.after_pointer''"
  shows "\<exists>v. read_request_view env db k = Inr v \<and> view_matches env db k v"
proof -
  let ?h = "env_hash env k"
  from key obtain ses where ses: "find_session db ?h = Some ses" by (auto simp: stored_key_def)
  from session_key_from_storage_ok[OF ok ses] key
  have st: "session_key_from_storage env ?h (ses_canonical ses) = Inr k" by auto
  have hw: "high_water db ?h = ses_next_sequence ses - 1" by (simp add: high_water_def ses)
  from ok key obtain s ms where
    act: "read_active_snapshot env db k = Inr (s, ms, pointer_version db ?h, coverage db ?h)"
    and cov: "0 \<le> coverage db ?h" "coverage db ?h \<le> high_water db ?h"
    and val: "\<And>v. rv_snapshot v = s \<Longrightarrow> rv_memberships v = ms \<Longrightarrow>
       rv_pointer_version v = pointer_version db ?h \<Longrightarrow> rv_covered_event_end v = coverage db ?h \<Longrightarrow>
       validate_view_snapshot v k = Inr ()"
    by (rule read_active_snapshot_ok) blast
  from events_between_ok[OF ok key cov(1) order_refl] obtain es where
    es: "events_between env db k (coverage db ?h) (high_water db ?h) = Inr es"
      "map ev_sequence es = upto (coverage db ?h + 1) (high_water db ?h)" "\<forall>e \<in> set es. ev_session_key e = k"
    by auto
  let ?v = "\<lparr>rv_session_key = k, rv_snapshot = s, rv_memberships = ms,
    rv_pointer_version = pointer_version db ?h, rv_covered_event_end = coverage db ?h,
    rv_high_water_mark = high_water db ?h, rv_delta = es\<rparr>"
  have "read_request_view env db k = Inr ?v"
    using ses st fault act cov es by (simp add: read_request_view_def inject_def hw)
  moreover have "view_matches env db k ?v"
    using cov es val[of ?v] by (simp add: view_matches_def)
  ultimately show ?thesis by blast
qed

lemma read_request_view_cases:
  assumes ok: "db_ok env db" and run: "read_request_view env db k = Inr v"
  shows "view_matches env db k v"
proof (cases "find_session db (env_hash env k)")
  case None
  have p: "find_pointer db (env_hash env k) = None"
  proof (rule ccontr)
    assume "find_pointer db (env_hash env k) \<noteq> None"
    then obtain p where "find_pointer db (env_hash env k) = Some p" by auto
    from pointer_snapshot_found[OF ok this] obtain s where
      "find_snapshot db (pr_snapshot p) = Some s" "nr_hash s = env_hash env k" by auto
    with ok find_snapshotD[of db "pr_snapshot p" s] have "stored_key db (env_hash env k) \<noteq> None"
      by (auto simp: db_ok_def content_ok_def snapshot_row_ok_def snapshot_readable_def)
    with None show False by (simp add: stored_key_def)
  qed
  from None run have "v = \<lparr>rv_session_key = k, rv_snapshot = None, rv_memberships = [],
      rv_pointer_version = 0, rv_covered_event_end = 0, rv_high_water_mark = 0, rv_delta = []\<rparr>"
    by (simp add: read_request_view_def)
  with None p show ?thesis
    by (simp add: view_matches_def pointer_version_def coverage_def high_water_def validate_view_snapshot_def)
next
  case (Some ses)
  with run have "session_key_from_storage env (env_hash env k) (ses_canonical ses) = Inr k"
    and fault: "\<not> env_fault env ''read.after_high_water''" "\<not> env_fault env ''read.after_pointer''"
    by (auto simp: read_request_view_def bind_eq_Inr guard_eq_Inr inject_eq_Inr)
  from session_key_from_storage_stored[OF this(1) Some] have key: "stored_key db (env_hash env k) = Some k"
    by simp
  from read_request_view_matches[OF ok key fault] run show ?thesis by auto
qed

interpretation repository: request_view_source "read_request_view env" "db_ok env" for env
proof
  fix db k v n
  assume ok: "db_ok env db" and run: "read_request_view env db k = Inr v"
  note m = read_request_view_cases[OF ok run, unfolded view_matches_def Let_def]
  show "rv_session_key v = k" using m by blast
  show "rv_snapshot v = None \<Longrightarrow>
      rv_pointer_version v = 0 \<and> rv_covered_event_end v = 0 \<and> rv_memberships v = []"
    using m by (simp add: validate_view_snapshot_def guard_eq_Inr)
  show "rv_snapshot v = Some n \<Longrightarrow> validate_view_snapshot v k = Inr ()" using m by blast
  show "0 \<le> rv_covered_event_end v \<and> rv_covered_event_end v \<le> rv_high_water_mark v \<and>
      map ev_sequence (rv_delta v) = upto (rv_covered_event_end v + 1) (rv_high_water_mark v) \<and>
      (\<forall>e \<in> set (rv_delta v). ev_session_key e = k)"
    using m by simp
qed

section \<open>Properties\<close>

text \<open>
  The request view is always available and complete: for a session the database knows
  under this key, the read succeeds and shows the active snapshot at its pointer version and
  the events from just after its coverage up to the journal's high-water mark, with no gap.
\<close>

theorem request_view_available:
  assumes "db_ok env db" "stored_key db (env_hash env k) = Some k"
    and "\<not> env_fault env ''read.after_high_water''" "\<not> env_fault env ''read.after_pointer''"
  shows "\<exists>v. read_request_view env db k = Inr v \<and> rv_session_key v = k \<and>
    rv_pointer_version v = pointer_version db (env_hash env k) \<and>
    rv_covered_event_end v = coverage db (env_hash env k) \<and>
    rv_high_water_mark v = high_water db (env_hash env k) \<and>
    map ev_sequence (rv_delta v) =
      upto (coverage db (env_hash env k) + 1) (high_water db (env_hash env k))"
  using read_request_view_matches[OF assms] by (auto simp: view_matches_def)

text \<open>
  C12. The runtime never rejects a view the repository returns: on every database that
  satisfies the durable invariant its second validation accepts exactly what was read, for
  every session key, bootstrap included.
\<close>

theorem runtime_accepts_repository_view:
  assumes "db_ok env db" "read_request_view env db k = Inr v"
  shows "runtime_read_request_view (read_request_view env db) k = Inr v"
  using repository.accepted[OF assms] .

section \<open>The view a worker compiles from\<close>

lemma snapshot_bundle_available:
  assumes ok: "db_ok env db" and row: "row \<in> set (db_snapshots db)" "nr_hash row = env_hash env k"
    and key: "stored_key db (env_hash env k) = Some k"
  shows "\<exists>s ms. snapshot_bundle_by_id env db (nr_id row) k = Inr (s, ms) \<and>
    snap_covered_event_end s = nr_covered_end row \<and> snap_state s = SNAPSHOT_COMMITTED \<and>
    0 \<le> nr_covered_end row"
proof -
  from ok row(1) have "snapshot_row_ok env db row" by (simp add: db_ok_def content_ok_def)
  then obtain ms s where r: "memberships_for_snapshot env db (nr_id row) k = Inr ms"
    and s: "snapshot_from_row env k (map mem_capsule_id ms) row = Inr s"
    and val: "validate_snapshot_memberships s ms = Inr ()" and st: "nr_state row = SNAPSHOT_COMMITTED"
    using row(2) key by (auto simp: snapshot_row_ok_def snapshot_readable_def)
  from ok have "distinct (map nr_id (db_snapshots db))" by (simp add: db_ok_def content_ok_def)
  from fetchone_key[OF this row(1)] have f: "find_snapshot db (nr_id row) = Some row"
    by (simp add: find_snapshot_def)
  from key obtain ses where ses: "find_session db (env_hash env k) = Some ses" by (auto simp: stored_key_def)
  with session_key_from_storage_ok[OF ok ses] key
  have "session_key_from_storage env (env_hash env k) (ses_canonical ses) = Inr k" by auto
  with f ses row(2) r s val have "snapshot_bundle_by_id env db (nr_id row) k = Inr (s, ms)"
    by (simp add: snapshot_bundle_by_id_def)
  moreover note snapshot_from_row_fields[OF s]
  ultimately show ?thesis using st by (auto simp: valid_snapshot_def)
qed

lemma compaction_base_available:
  assumes ok: "db_ok env db" and jr: "job_row_ok db r"
    and k: "stored_key db (jr_hash r) = Some k" "env_hash env k = jr_hash r"
  shows "\<exists>s ms covered. (case jr_base r of
      None \<Rightarrow> bind (guard (jr_base_version r = 0) RepositoryInvariantError) (\<lambda>_. Inr (None, [], 0))
    | Some b \<Rightarrow> bind (snapshot_bundle_by_id env db b k) (\<lambda>(s, ms).
        bind (guard (snap_state s = SNAPSHOT_COMMITTED) RepositoryInvariantError) (\<lambda>_.
        Inr (Some s, ms, snap_covered_event_end s)))) = Inr (s, ms, covered) \<and>
    map_option snap_id s = jr_base r \<and> 0 \<le> covered \<and> covered < jr_target r"
proof (cases "jr_base r")
  case None
  from jr have "1 \<le> jr_target r" "jr_base r = None \<Longrightarrow> jr_base_version r = 0"
    unfolding job_row_ok_def job_row_checks_def by argo+
  with None show ?thesis by auto
next
  case (Some b)
  with jr obtain n where n: "n \<in> set (db_snapshots db)" "nr_id n = b" "nr_hash n = jr_hash r"
    "nr_covered_end n < jr_target r" by (auto simp: job_row_ok_def based_on_def)
  from snapshot_bundle_available[OF ok n(1), of k] n(2,3) k obtain s ms where
    b: "snapshot_bundle_by_id env db b k = Inr (s, ms)" "snap_covered_event_end s = nr_covered_end n"
      "snap_state s = SNAPSHOT_COMMITTED" "0 \<le> nr_covered_end n" by auto
  from snapshot_bundle_by_id_row[OF b(1)] have "snap_id s = b" by auto
  with Some b n(4) show ?thesis by simp
qed

text \<open>
  A worker that holds a live lease on a compiling or auditing job always gets its frozen
  input: the base snapshot recorded at claim time and every event from just after the base's
  coverage up to the job's target, with no gap, however far the journal has moved on.
\<close>

theorem compaction_view_available:
  assumes ok: "db_ok env db" and row: "find_job db i = Some r" "fence_live r owner epoch now"
    and st: "jr_state r = COMPILING \<or> jr_state r = AUDITING"
  shows "\<exists>v. read_compaction_view env db i owner epoch (Aware now) = Inr v \<and>
    map_option snap_id (rv_snapshot v) = jr_base r \<and> rv_pointer_version v = jr_base_version r \<and>
    rv_high_water_mark v = jr_target r \<and> rv_covered_event_end v < jr_target r \<and>
    map ev_sequence (rv_delta v) = upto (rv_covered_event_end v + 1) (jr_target r)"
proof -
  from ok row(1) obtain k where j: "job_by_id env db i = Inr (job_envelope k r)"
    and k: "stored_key db (jr_hash r) = Some k" "env_hash env k = jr_hash r" by (rule job_by_id_find)
  from ok find_jobD[OF row(1)] have jr: "job_row_ok db r" by (simp add: db_ok_def jobs_ok_def)
  then have "jr_target r \<le> high_water db (env_hash env k)"
    using k(2) by (simp add: job_row_ok_def job_row_checks_def)
  moreover obtain s ms covered where c: "(case jr_base r of
      None \<Rightarrow> bind (guard (jr_base_version r = 0) RepositoryInvariantError) (\<lambda>_. Inr (None, [], 0))
    | Some b \<Rightarrow> bind (snapshot_bundle_by_id env db b k) (\<lambda>(s, ms).
        bind (guard (snap_state s = SNAPSHOT_COMMITTED) RepositoryInvariantError) (\<lambda>_.
        Inr (Some s, ms, snap_covered_event_end s)))) = Inr (s, ms, covered)"
    "map_option snap_id s = jr_base r" "0 \<le> covered" "covered < jr_target r"
    using compaction_base_available[OF ok jr k] by blast
  ultimately obtain es where es: "events_between env db k covered (jr_target r) = Inr es"
      "map ev_sequence es = upto (covered + 1) (jr_target r)"
    using events_between_ok[OF ok, of k covered "jr_target r"] k by auto
  have je: "job_base_snapshot_id (job_envelope k r) = jr_base r" "job_session_key (job_envelope k r) = k"
    "job_base_pointer_version (job_envelope k r) = jr_base_version r"
    "job_target_hwm (job_envelope k r) = jr_target r" by (simp_all add: job_envelope_def)
  have "require_live_fence db i owner epoch now = Inr r" using row by (simp add: require_live_fence_eq_Inr)
  then have "read_compaction_view env db i owner epoch (Aware now) =
      Inr \<lparr>rv_session_key = k, rv_snapshot = s, rv_memberships = ms,
          rv_pointer_version = jr_base_version r, rv_covered_event_end = covered,
          rv_high_water_mark = jr_target r, rv_delta = es\<rparr>"
    using st j c(1,4) es by (simp add: read_compaction_view_def normalize_datetime_def je cong: option.case_cong)
  with c es show ?thesis by auto
qed

end
