(* ===== verification/Scenario.thy ===== *)
theory Scenario
  imports Publication_Properties Read_View
begin

text \<open>
  A concrete run of the repository, evaluated step by step: one captured message, a raised
  intent, a claim, the worker transitions and a publication. It shows that the hypotheses of
  the properties are satisfiable on states the code reaches.
\<close>

definition demo_h :: string where
  "demo_h = replicate 64 (CHR ''a'')"

definition demo_env :: env where
  "demo_env = \<lparr>env_sha256 = (\<lambda>s. demo_h), env_key_id = ''k1'', env_max_plaintext = 1000,
     env_fault = (\<lambda>_. False)\<rparr>"

definition demo_key :: session_key where
  "demo_key = \<lparr>platform_instance_id = ''p'', message_type = ''m'', session_id = ''s'',
     group_id = None, user_id = ''u'', conversation_id = ''c'', persona_id = None\<rparr>"

definition demo_request :: capture_request where
  "demo_request = \<lparr>req_event_id = ''e1'', req_session_key = demo_key, req_type = USER_MESSAGE,
     req_content = ''hello'', req_idem = ''i1'', req_tokens = 2,
     req_canonical = \<lparr>co_profile = ''t'', co_count = None\<rparr>, req_created_at = Aware 10\<rparr>"

lemma bind_weak_cong: "m = m' \<Longrightarrow> bind m f = bind m' f"
  by simp

lemmas demo_defs = demo_env_def demo_key_def demo_request_def

lemma demo_hash [simp]: "env_hash demo_env k = demo_h"
  by (simp add: env_hash_def session_key_hash_def demo_env_def)

lemma demo_h_ok [simp]: "aad_field_ok demo_h" "session_hash_ok demo_h"
  by (simp_all add: aad_field_ok_def session_hash_ok_def demo_h_def utf8_length_def sum_list_replicate)

lemma demo_env_simps [simp]:
  "env_key_id demo_env = ''k1''" "env_max_plaintext demo_env = 1000"
  by (simp_all add: demo_env_def)

lemma empty_db_simps [simp]:
  "db_sessions empty_db = []" "db_events empty_db = []" "db_capsules empty_db = []"
  "db_snapshots empty_db = []" "db_memberships empty_db = []" "db_ledger empty_db = []"
  "db_pointers empty_db = []" "db_jobs empty_db = []" "db_metrics empty_db = []"
  "db_intents empty_db = []"
  by (simp_all add: empty_db_def)

lemma demo_inject [simp]: "inject demo_env b = Inr ()"
  by (simp add: inject_def demo_env_def)

lemma demo_key_valid [simp]: "valid_session_key demo_key"
  by (simp add: valid_session_key_def demo_key_def nonempty_optional_def)

lemma demo_seal: "aad_field_ok t \<Longrightarrow> aad_field_ok c \<Longrightarrow> aad_field_ok r \<Longrightarrow>
    seal demo_env t c r p = Inr (Sealed ''k1'' t c r p)"
  by (simp add: seal_def demo_env_def)

lemma aad_ok [simp]:
  "aad_field_ok ''sessions''" "aad_field_ok ''canonical_session_key_json''"
  "aad_field_ok ''platform_instance_id''" "aad_field_ok ''message_type''"
  "aad_field_ok ''session_id''" "aad_field_ok ''user_id''" "aad_field_ok ''conversation_id''"
  "aad_field_ok ''journal_events''" "aad_field_ok ''content''" "aad_field_ok ''token_count''"
  "aad_field_ok ''c1''" "aad_field_ok ''n1''" "aad_field_ok ''capsules''" "aad_field_ok ''snapshots''"
  "aad_field_ok ''canonical_capsule_json''" "aad_field_ok ''token_cost''"
  "aad_field_ok ''exact_anchor_ids_json''" "aad_field_ok ''rendered_context''"
  "aad_field_ok ''audit_outcome''"
  "aad_field_ok ''e1''" "aad_field_ok ''e2''" "aad_field_ok ''token_metrics''" "aad_field_ok ''metric_envelope''"
  by (simp_all add: aad_field_ok_def utf8_length_def)

definition demo_session :: "int \<Rightarrow> int \<Rightarrow> session_row" where
  "demo_session next now =
     \<lparr>ses_hash = demo_h, ses_canonical = Sealed ''k1'' ''sessions'' ''canonical_session_key_json'' demo_h demo_key,
      ses_identity = [Some (Sealed ''k1'' ''sessions'' ''platform_instance_id'' demo_h ''p''),
        Some (Sealed ''k1'' ''sessions'' ''message_type'' demo_h ''m''),
        Some (Sealed ''k1'' ''sessions'' ''session_id'' demo_h ''s''), None,
        Some (Sealed ''k1'' ''sessions'' ''user_id'' demo_h ''u''),
        Some (Sealed ''k1'' ''sessions'' ''conversation_id'' demo_h ''c''), None],
      ses_next_sequence = next, ses_created_at = 10, ses_updated_at = now\<rparr>"

lemma demo_nonblank [simp]:
  "sql_nonblank ''e2''" "sql_nonblank ''i2''" "sql_nonblank ''e1''" "sql_nonblank ''i1''" "sql_nonblank ''t''" "sql_nonblank ''j1''"
  "sql_nonblank ''w''" "sql_nonblank ''n1''" "sql_nonblank ''c1''" "sql_nonblank ''slot''"
  by (simp_all add: sql_nonblank_def strip_by_def)

lemma demo_strip [simp]:
  "py_strip ''e2'' \<noteq> []" "py_strip ''e1'' \<noteq> []" "py_strip ''t'' \<noteq> []" "py_strip ''j1'' \<noteq> []" "py_strip ''w'' \<noteq> []"
  "py_strip ''n1'' \<noteq> []" "py_strip ''slot'' \<noteq> []"
  by (simp_all add: py_strip_def strip_by_def py_isspace_def)

lemma demo_ensure_session:
  "ensure_session demo_env demo_key 10 empty_db = Inr (empty_db\<lparr>db_sessions := [demo_session 1 10]\<rparr>)"
  by (simp add: ensure_session_def find_session_def fetchone_def
      session_identity_values_def encrypt_identity_def encrypt_text_def demo_seal demo_key_def
      session_key_from_storage_def demo_session_def utf8_length_def unseal_def valid_session_key_def
      nonempty_optional_def
      cong: bind_weak_cong)

definition demo_event :: event_envelope where
  "demo_event = \<lparr>ev_id = ''e1'', ev_session_key = demo_key, ev_sequence = 1, ev_type = USER_MESSAGE,
     ev_role = USER, ev_content = ''hello'', ev_source_hook = ON_LLM_REQUEST,
     ev_idempotency_key = ''i1'', ev_token_count = 2, ev_created_at = 10\<rparr>"

definition demo_event_row :: event_row where
  "demo_event_row = \<lparr>er_id = ''e1'', er_hash = demo_h, er_sequence = 1, er_type = USER_MESSAGE,
     er_role = USER, er_content = Sealed ''k1'' ''journal_events'' ''content'' ''e1'' ''hello'',
     er_hook = ON_LLM_REQUEST, er_idem = ''i1'',
     er_tokens = Sealed ''k1'' ''journal_events'' ''token_count'' ''e1'' 2, er_created_at = 10\<rparr>"

definition demo_db1 :: db where
  "demo_db1 = empty_db\<lparr>db_sessions := [demo_session 2 10], db_events := [demo_event_row],
     db_intents := [\<lparr>ir_hash = demo_h, ir_kind = EVENT_ARTIFACT, ir_artifact = ''e1'',
       ir_profile = ''t'', ir_created_at = 10\<rparr>]\<rparr>"

lemma demo_capture: "capture_event demo_env demo_request empty_db = (Inr demo_event, demo_db1)"
  by (simp add: capture_event_def transaction_def capture_event_body_def demo_request_def
      normalize_datetime_def request_event_def create_event_def valid_event_def demo_ensure_session
      find_idempotent_event_def fetchone_def append_event_def find_session_def
      demo_session_def allocate_sequence_def update_where_def event_row_of_def encrypt_text_def
      encrypt_non_negative_int_def demo_seal insert_event_def event_constraints_def
      session_exists_def record_canonical_observation_def get_metric_def required_identifier_def
      insert_intent_def utf8_length_def demo_event_def demo_event_row_def demo_db1_def
      cong: bind_weak_cong)

lemma demo_db1_ok: "db_ok demo_env demo_db1"
  using capture.keeps_ok[OF db_ok_empty, of demo_env demo_request] demo_capture by simp

definition demo_job :: "job_state \<Rightarrow> string option \<Rightarrow> int \<Rightarrow> string option \<Rightarrow> int option \<Rightarrow> int \<Rightarrow> int option \<Rightarrow> job_row" where
  "demo_job st owner epoch cand expires now committed =
     \<lparr>jr_id = ''j1'', jr_hash = demo_h, jr_state = st, jr_target = 1, jr_intent = 1,
      jr_base = None, jr_base_version = 0, jr_candidate = cand, jr_owner = owner,
      jr_epoch = epoch, jr_expires = expires, jr_attempts = epoch, jr_retry = None, jr_err_stage = None,
      jr_err_code = None, jr_err_message = None, jr_created_at = 20, jr_updated_at = now,
      jr_committed_at = committed\<rparr>"

lemmas demo_eval = transaction_def normalize_datetime_def find_session_def fetchone_def
  demo_session_def session_key_from_storage_def unseal_def active_base_def find_pointer_def
  find_nonterminal_def insert_job_def job_row_checks_def nonblank_optional_def
  job_foreign_keys_def session_exists_def unique_nonterminal_def is_nonterminal_def
  WORKING_STATES_def CANDIDATE_STATES_def
  job_by_id_def find_job_def job_from_row_def job_envelope_def valid_job_def nonempty_optional_def
  update_jobs_def update_where_def rowcount_def require_live_fence_def fence_live_def
  fenced_update_def fence_where_def

definition demo_pending :: db where
  "demo_pending = demo_db1\<lparr>db_jobs := [demo_job PENDING None 0 None None 20 None]\<rparr>"

lemma demo_db1_simps [simp]:
  "db_sessions demo_db1 = [demo_session 2 10]" "db_events demo_db1 = [demo_event_row]"
  "db_capsules demo_db1 = []" "db_snapshots demo_db1 = []" "db_memberships demo_db1 = []"
  "db_ledger demo_db1 = []" "db_pointers demo_db1 = []" "db_jobs demo_db1 = []"
  "db_metrics demo_db1 = []"
  by (simp_all add: demo_db1_def)

lemma demo_raise: "raise_compaction_intent demo_env ''j1'' demo_key 1 (Aware 20) demo_db1 =
    (Inr (Some (job_envelope demo_key (demo_job PENDING None 0 None None 20 None))), demo_pending)"
  by (simp add: raise_compaction_intent_def raise_compaction_intent_body_def demo_eval
      pending_job_def demo_pending_def demo_job_def cong: bind_weak_cong)

definition demo_leased :: db where
  "demo_leased = demo_db1\<lparr>db_jobs := [demo_job LEASED (Some ''w'') 1 None (Some 1000) 30 None]\<rparr>"

lemma demo_claim: "claim_job demo_env ''w'' (Aware 30) (Aware 1000) demo_pending =
    Some (Inr (Some (job_envelope demo_key (demo_job LEASED (Some ''w'') 1 None (Some 1000) 30 None))),
      demo_leased)"
  by (simp add: claim_job_def claim_job_body_def claim_fuel_def demo_eval eligible_rows_def
      eligible_def lease_row_def demo_pending_def demo_leased_def demo_job_def cong: bind_weak_cong)

definition demo_compiling :: db where
  "demo_compiling = demo_db1\<lparr>db_jobs := [demo_job COMPILING (Some ''w'') 1 None (Some 1000) 40 None]\<rparr>"

lemma demo_transition: "transition_job demo_env ''j1'' ''w'' 1 COMPILING (Aware 40) None demo_leased =
    (Inr (job_envelope demo_key (demo_job COMPILING (Some ''w'') 1 None (Some 1000) 40 None)),
      demo_compiling)"
  by (simp add: transition_job_def transition_job_body_def demo_eval
      demo_compiling_def demo_leased_def demo_job_def cong: bind_weak_cong)

definition demo_ready :: db where
  "demo_ready = demo_db1\<lparr>db_jobs := [demo_job READY_TO_COMMIT (Some ''w'') 1 (Some ''n1'') (Some 1000) 50 None]\<rparr>"

lemma demo_ready_transition:
  "transition_job demo_env ''j1'' ''w'' 1 READY_TO_COMMIT (Aware 50) (Some ''n1'') demo_compiling =
    (Inr (job_envelope demo_key (demo_job READY_TO_COMMIT (Some ''w'') 1 (Some ''n1'') (Some 1000) 50 None)),
      demo_ready)"
  by (simp add: transition_job_def transition_job_body_def demo_eval
      demo_compiling_def demo_ready_def demo_job_def cong: bind_weak_cong)

definition demo_capsule :: capsule where
  "demo_capsule = \<lparr>cap_id = ''c1'', cap_schema_version = ''1'', cap_level = MICRO,
     cap_session_key = demo_key, cap_covered_event_start = 1, cap_covered_event_end = 1,
     cap_sources = [''e1''],
     cap_goals = [\<lparr>claim_id = ''g1'', claim_text = ''greet'', claim_status = ACTIVE,
        claim_confidence = 1, claim_sources = [''e1'']\<rparr>],
     cap_constraints = [], cap_decisions = [], cap_progress = [], cap_open_loops = [],
     cap_preferences = [], cap_entities = [], cap_emotional_context = [],
     cap_exact_anchors = [\<lparr>anchor_id = ''a1'', anchor_kind = NAME, anchor_text = ''hello'',
        anchor_sources = [''e1''], anchor_state = ANCHOR_ACTIVE, anchor_importance = 1\<rparr>],
     cap_dependencies = [], cap_narrative_summary = ''hi'', cap_token_cost = 3,
     cap_quality = \<lparr>q_mechanical_passed = True, q_source_coverage = 1, q_anchor_recall = 1,
        q_unsupported_critical_claims = 0, q_coverage_gap = 0\<rparr>, cap_created_at = 45\<rparr>"

definition demo_snapshot :: snapshot where
  "demo_snapshot = \<lparr>snap_id = ''n1'', snap_session_key = demo_key, snap_base_snapshot_id = None,
     snap_covered_event_end = 1, snap_source_high_water_mark = 1, snap_capsule_ids = [''c1''],
     snap_exact_anchor_ids = [''a1''], snap_rendered_context = ''hi'', snap_token_cost = 3,
     snap_audit_outcome = \<lparr>ao_mechanical_passed = True, ao_semantic_status = NOT_RUN,
        ao_failure_codes = []\<rparr>, snap_state = CANDIDATE, snap_created_at = 45,
     snap_committed_at = None\<rparr>"

definition demo_publication :: publication where
  "demo_publication = \<lparr>pub_snapshot = demo_snapshot,
     pub_memberships = [\<lparr>mem_ordinal = 0, mem_slot = ''slot'', mem_capsule = demo_capsule\<rparr>],
     pub_metrics = None, pub_records = [], pub_token_ceiling = 100\<rparr>"

lemma demo_capsule_valid [simp]: "valid_capsule demo_capsule"
  by (simp add: valid_capsule_def demo_capsule_def valid_sources_def valid_claim_def unit_float_def
      valid_anchor_def valid_quality_def)

lemma demo_publication_valid: "valid_publication demo_publication"
  by (simp add: valid_publication_def demo_publication_def)

lemma demo_gate:
  "rep_passed (validate_permanent (publish_gate_input
     (job_envelope demo_key (demo_job READY_TO_COMMIT (Some ''w'') 1 (Some ''n1'') (Some 1000) 50 None))
     demo_publication None [] [demo_event]))"
  unfolding rep_passed_iff
proof
  fix c
  show "\<not> failure_holds (publish_gate_input
     (job_envelope demo_key (demo_job READY_TO_COMMIT (Some ''w'') 1 (Some ''n1'') (Some 1000) 50 None))
     demo_publication None [] [demo_event]) c"
    by (cases c) (simp_all add: failure_holds_def publish_gate_input_def demo_publication_def
        demo_snapshot_def demo_capsule_def demo_event_def job_envelope_def demo_job_def
        g_session_mismatch_def g_coverage_gap_def g_base_coverage_def g_expected_sequences_def
        active_anchors_def g_invalid_capsule_coverage_def g_unsupported_def g_provenance_def
        active_semantics_def semantic_records_def capsule_semantic_records_def claim_record_def
        g_transition_records_def g_valid_ids_def g_current_ids_def g_capsule_source_mismatch_def
        g_missing_prior_semantic_def g_computed_anchor_recall_def g_source_coverage_def
        g_computed_source_coverage_def min_default_def g_anchor_recall_def g_unsupported_count_def
        g_declared_coverage_gap_def)
qed

abbreviation demo_ready_job :: job where
  "demo_ready_job \<equiv> job_envelope demo_key
     (demo_job READY_TO_COMMIT (Some ''w'') 1 (Some ''n1'') (Some 1000) 50 None)"

lemma demo_ready_simps [simp]:
  "db_sessions demo_ready = [demo_session 2 10]" "db_events demo_ready = [demo_event_row]"
  "db_capsules demo_ready = []" "db_snapshots demo_ready = []" "db_memberships demo_ready = []"
  "db_ledger demo_ready = []" "db_pointers demo_ready = []" "db_metrics demo_ready = []"
  "db_jobs demo_ready = [demo_job READY_TO_COMMIT (Some ''w'') 1 (Some ''n1'') (Some 1000) 50 None]"
  by (simp_all add: demo_ready_def)

lemma demo_ready_job_read: "job_by_id demo_env demo_ready ''j1'' = Inr demo_ready_job"
  by (simp add: demo_eval demo_job_def cong: bind_weak_cong)

lemma demo_events: "events_between demo_env demo_ready demo_key 0 1 = Inr [demo_event]"
  by (simp add: events_between_def demo_event_row_def event_from_row_def unseal_def
      decrypt_non_negative_int_def valid_event_def demo_event_def cong: bind_weak_cong)

definition demo_committed :: snapshot where
  "demo_committed = demo_snapshot\<lparr>snap_state := SNAPSHOT_COMMITTED, snap_committed_at := Some 60\<rparr>"

lemma demo_checks: "publish_checks demo_env ''j1'' ''w'' 1 60 demo_publication demo_ready =
    Inr (demo_ready_job, demo_committed, [])"
proof -
  have pub: "pub_memberships demo_publication = [\<lparr>mem_ordinal = 0, mem_slot = ''slot'', mem_capsule = demo_capsule\<rparr>]"
    "pub_snapshot demo_publication = demo_snapshot" "pub_metrics demo_publication = None"
    "pub_records demo_publication = []" by (simp_all add: demo_publication_def)
  have fence: "require_live_fence demo_ready ''j1'' ''w'' 1 60 =
      Inr (demo_job READY_TO_COMMIT (Some ''w'') 1 (Some ''n1'') (Some 1000) 50 None)"
    by (simp add: demo_eval demo_job_def)
  have j: "job_session_key demo_ready_job = demo_key" "job_base_snapshot_id demo_ready_job = None"
    "job_target_hwm demo_ready_job = 1" by (simp_all add: job_envelope_def demo_job_def)
  have c: "valid_snapshot demo_committed"
    by (simp add: valid_snapshot_def demo_committed_def demo_snapshot_def nonempty_optional_def
        valid_audit_outcome_def)
  have ms: "validate_candidate_memberships demo_snapshot
      [\<lparr>mem_ordinal = 0, mem_slot = ''slot'', mem_capsule = demo_capsule\<rparr>] = Inr ()"
    by (simp add: validate_candidate_memberships_def demo_snapshot_def demo_capsule_def)
  have f: "jr_state (demo_job st owner epoch cand expires now com) = st"
    "jr_candidate (demo_job st owner epoch cand expires now com) = cand"
    "snap_id demo_snapshot = ''n1''" "snap_state demo_snapshot = CANDIDATE"
    "snap_session_key demo_snapshot = demo_key" for st owner epoch cand expires now com
    by (simp_all add: demo_job_def demo_snapshot_def)
  show ?thesis
    by (simp add: publish_checks_def fence pub demo_ready_job_read ms j demo_events f
        canonicalize_reorganization_records_def apply_quality_floor_def demo_gate
        committed_form_def demo_committed_def[symmetric] c cong: bind_weak_cong)
qed

definition demo_capsule_row :: capsule_row where
  "demo_capsule_row = \<lparr>cr_id = ''c1'', cr_hash = demo_h, cr_level = MICRO, cr_start = 1, cr_end = 1,
     cr_json = Sealed ''k1'' ''capsules'' ''canonical_capsule_json'' ''c1'' demo_capsule,
     cr_tokens = Sealed ''k1'' ''capsules'' ''token_cost'' ''c1'' 3, cr_source_coverage = 1,
     cr_created_at = 45\<rparr>"

definition demo_snapshot_row :: snapshot_row where
  "demo_snapshot_row = \<lparr>nr_id = ''n1'', nr_hash = demo_h, nr_base = None, nr_covered_end = 1,
     nr_source_hwm = 1,
     nr_anchor_ids = Sealed ''k1'' ''snapshots'' ''exact_anchor_ids_json'' ''n1'' [''a1''],
     nr_rendered = Sealed ''k1'' ''snapshots'' ''rendered_context'' ''n1'' ''hi'',
     nr_tokens = Sealed ''k1'' ''snapshots'' ''token_cost'' ''n1'' 3,
     nr_audit = Sealed ''k1'' ''snapshots'' ''audit_outcome'' ''n1''
       \<lparr>ao_mechanical_passed = True, ao_semantic_status = NOT_RUN, ao_failure_codes = []\<rparr>,
     nr_state = SNAPSHOT_COMMITTED, nr_created_at = 45, nr_committed_at = 60\<rparr>"

definition demo_staged :: db where
  "demo_staged = demo_ready\<lparr>db_capsules := [demo_capsule_row], db_snapshots := [demo_snapshot_row],
     db_memberships := [\<lparr>mr_snapshot = ''n1'', mr_ordinal = 0, mr_capsule = ''c1'', mr_slot = ''slot''\<rparr>],
     db_pointers := [\<lparr>pr_hash = demo_h, pr_snapshot = ''n1'', pr_version = 1, pr_updated_at = 60\<rparr>]\<rparr>"

lemma demo_stage: "stage_candidate demo_env demo_ready_job demo_committed [] demo_publication 60 demo_ready =
    Inr (Some demo_staged)"
proof -
  have c: "cap_id demo_capsule = ''c1''" by (simp add: demo_capsule_def)
  have cr: "capsule_row_of demo_env demo_capsule = Inr demo_capsule_row"
    by (simp add: capsule_row_of_def demo_seal encrypt_non_negative_int_def demo_capsule_row_def c
        cong: bind_weak_cong) (simp add: demo_capsule_def demo_seal)
  have sr: "snapshot_row_of demo_env demo_committed = Inr demo_snapshot_row"
    by (simp add: snapshot_row_of_def demo_committed_def demo_snapshot_def demo_seal encrypt_text_def
        encrypt_non_negative_int_def demo_snapshot_row_def utf8_length_def cong: bind_weak_cong)
  have s: "snap_id demo_committed = ''n1''" by (simp add: demo_committed_def demo_snapshot_def)
  show ?thesis
    by (simp add: stage_candidate_def demo_publication_def bind_staged_def catch_integrity_def
        insert_or_verify_capsule_def fetchone_def cr c insert_capsule_def capsule_constraints_def
        demo_capsule_row_def session_exists_def demo_session_def insert_committed_snapshot_def sr s
        insert_snapshot_def snapshot_constraints_def demo_snapshot_row_def nonblank_optional_def
        insert_membership_def membership_constraints_def snapshot_exists_def
        cas_active_pointer_def job_envelope_def demo_job_def write_pointers_def
        pointer_constraints_def demo_staged_def cong: bind_weak_cong)
qed

definition demo_published :: db where
  "demo_published = demo_staged\<lparr>db_jobs := [demo_job COMMITTED None 1 (Some ''n1'') None 60 (Some 60)]\<rparr>"

lemma demo_publish: "publish_snapshot demo_env ''j1'' ''w'' 1 (Aware 60) demo_publication demo_ready =
    (Inr \<lparr>res_outcome = OUTCOME_COMMITTED,
          res_job = job_envelope demo_key (demo_job COMMITTED None 1 (Some ''n1'') None 60 (Some 60)),
          res_winner = demo_committed, res_pointer_version = 1\<rparr>, demo_published)"
proof -
  have st: "db_jobs demo_staged = [demo_job READY_TO_COMMIT (Some ''w'') 1 (Some ''n1'') (Some 1000) 50 None]"
    "db_sessions demo_staged = [demo_session 2 10]" by (simp_all add: demo_staged_def)
  have s: "snap_covered_event_end demo_committed = 1" by (simp add: demo_committed_def demo_snapshot_def)
  have c: "publish_committed demo_env demo_ready_job demo_committed ''w'' 1 60 demo_staged =
    Inr (\<lparr>res_outcome = OUTCOME_COMMITTED,
          res_job = job_envelope demo_key (demo_job COMMITTED None 1 (Some ''n1'') None 60 (Some 60)),
          res_winner = demo_committed, res_pointer_version = 1\<rparr>, demo_published)"
    by (simp add: publish_committed_def finish_publish_job_def finish_where_def finish_row_def
        demo_eval st demo_job_def preserve_follow_up_def s demo_published_def cong: bind_weak_cong)
  have ceiling: "pub_token_ceiling demo_publication = 100" by (simp add: demo_publication_def)
  show ?thesis
    by (simp add: publish_snapshot_def transaction_def publish_snapshot_body_def demo_checks
        demo_stage c ceiling normalize_datetime_def cong: bind_weak_cong)
qed

text \<open>The published snapshot reads back, and a second message arrives after it.\<close>

definition demo_membership :: membership where
  "demo_membership = \<lparr>mem_ordinal = 0, mem_slot = ''slot'', mem_capsule = demo_capsule\<rparr>"

lemma demo_published_simps [simp]:
  "db_sessions demo_published = [demo_session 2 10]" "db_events demo_published = [demo_event_row]"
  "db_capsules demo_published = [demo_capsule_row]" "db_snapshots demo_published = [demo_snapshot_row]"
  "db_memberships demo_published =
     [\<lparr>mr_snapshot = ''n1'', mr_ordinal = 0, mr_capsule = ''c1'', mr_slot = ''slot''\<rparr>]"
  "db_pointers demo_published = [\<lparr>pr_hash = demo_h, pr_snapshot = ''n1'', pr_version = 1, pr_updated_at = 60\<rparr>]"
  "db_jobs demo_published = [demo_job COMMITTED None 1 (Some ''n1'') None 60 (Some 60)]"
  "db_metrics demo_published = []"
  by (simp_all add: demo_published_def demo_staged_def)

lemma demo_capsule_read: "capsule_from_row demo_env demo_key demo_capsule_row = Inr demo_capsule"
  by (simp add: capsule_from_row_def demo_capsule_row_def unseal_def decrypt_non_negative_int_def
      cong: bind_weak_cong) (simp add: demo_capsule_def)

lemma demo_bundle:
  "snapshot_bundle_by_id demo_env demo_published ''n1'' demo_key = Inr (demo_committed, [demo_membership])"
proof -
  have row: "find_snapshot demo_published ''n1'' = Some demo_snapshot_row"
    by (simp add: find_snapshot_def fetchone_def demo_snapshot_row_def)
  have h: "nr_hash demo_snapshot_row = demo_h" by (simp add: demo_snapshot_row_def)
  have ses: "find_session demo_published demo_h = Some (demo_session 2 10)"
    by (simp add: find_session_def fetchone_def demo_session_def)
  have key: "session_key_from_storage demo_env demo_h (ses_canonical (demo_session 2 10)) = Inr demo_key"
    by (simp add: session_key_from_storage_def demo_session_def unseal_def cong: bind_weak_cong)
  have ms: "memberships_for_snapshot demo_env demo_published ''n1'' demo_key = Inr [demo_membership]"
    by (simp add: memberships_for_snapshot_def membership_join_def demo_membership_def
        demo_capsule_read cong: bind_weak_cong) (simp add: demo_capsule_row_def)
  have id: "mem_capsule_id demo_membership = ''c1''" by (simp add: demo_membership_def demo_capsule_def)
  have v: "valid_snapshot demo_committed"
    by (simp add: valid_snapshot_def demo_committed_def demo_snapshot_def nonempty_optional_def
        valid_audit_outcome_def)
  have sn: "snapshot_from_row demo_env demo_key [''c1''] demo_snapshot_row = Inr demo_committed"
    using v by (simp add: snapshot_from_row_def demo_snapshot_row_def unseal_def
        decrypt_non_negative_int_def demo_committed_def demo_snapshot_def cong: bind_weak_cong)
  have val: "validate_snapshot_memberships demo_committed [demo_membership] = Inr ()"
    by (simp add: validate_snapshot_memberships_def demo_committed_def demo_snapshot_def id)
       (simp add: active_anchors_def demo_membership_def demo_capsule_def)
  show ?thesis
    by (simp add: snapshot_bundle_by_id_def row h ses key ms id sn val cong: bind_weak_cong)
qed

definition demo_request2 :: capture_request where
  "demo_request2 = demo_request\<lparr>req_event_id := ''e2'', req_idem := ''i2'', req_created_at := Aware 70\<rparr>"

definition demo_later :: db where
  "demo_later = demo_published\<lparr>db_sessions := [demo_session 3 70],
     db_events := [demo_event_row, demo_event_row\<lparr>er_id := ''e2'', er_sequence := 2, er_idem := ''i2'',
       er_content := Sealed ''k1'' ''journal_events'' ''content'' ''e2'' ''hello'',
       er_tokens := Sealed ''k1'' ''journal_events'' ''token_count'' ''e2'' 2, er_created_at := 70\<rparr>],
     db_intents := db_intents demo_published @ [\<lparr>ir_hash = demo_h, ir_kind = EVENT_ARTIFACT,
       ir_artifact = ''e2'', ir_profile = ''t'', ir_created_at = 70\<rparr>]\<rparr>"

lemma demo_capture2: "capture_event demo_env demo_request2 demo_published =
    (Inr (demo_event\<lparr>ev_id := ''e2'', ev_sequence := 2, ev_idempotency_key := ''i2'', ev_created_at := 70\<rparr>),
     demo_later)"
proof -
  have es: "ensure_session demo_env demo_key 70 demo_published = Inr demo_published"
    by (simp add: ensure_session_def find_session_def fetchone_def session_key_from_storage_def
        demo_session_def unseal_def cong: bind_weak_cong)
  have i: "db_intents demo_published = [\<lparr>ir_hash = demo_h, ir_kind = EVENT_ARTIFACT,
      ir_artifact = ''e1'', ir_profile = ''t'', ir_created_at = 10\<rparr>]"
    by (simp add: demo_published_def demo_staged_def demo_ready_def demo_db1_def)
  show ?thesis
    by (simp add: capture_event_def transaction_def capture_event_body_def demo_request_def
      demo_request2_def normalize_datetime_def request_event_def create_event_def valid_event_def es
      find_idempotent_event_def fetchone_def append_event_def find_session_def
      demo_session_def allocate_sequence_def update_where_def event_row_of_def encrypt_text_def
      encrypt_non_negative_int_def demo_seal insert_event_def event_constraints_def
      session_exists_def record_canonical_observation_def get_metric_def required_identifier_def
      insert_intent_def intent_matches_def utf8_length_def demo_event_def demo_event_row_def
      demo_later_def i cong: bind_weak_cong)
qed

section \<open>The run as an execution\<close>

lemma demo_env_no_fault: "demo_env\<lparr>env_fault := (\<lambda>_. False)\<rparr> = demo_env"
  by (simp add: demo_env_def)

lemmas demo_rules =
  step_capture[where env = demo_env and f = "\<lambda>_. False", unfolded demo_env_no_fault]
  step_intent[where env = demo_env and f = "\<lambda>_. False", unfolded demo_env_no_fault]
  step_claim[where env = demo_env and f = "\<lambda>_. False", unfolded demo_env_no_fault]
  step_transition[where env = demo_env and f = "\<lambda>_. False", unfolded demo_env_no_fault]
  step_publish[where env = demo_env and f = "\<lambda>_. False", unfolded demo_env_no_fault]

lemma demo_step_capture: "step demo_env empty_db demo_db1"
  by (rule demo_rules(1)[OF demo_capture])

lemma demo_steps:
  "step demo_env demo_db1 demo_pending" "step demo_env demo_pending demo_leased"
  "step demo_env demo_leased demo_compiling" "step demo_env demo_compiling demo_ready"
  "step demo_env demo_ready demo_published"
  by (rule demo_rules(2)[OF demo_raise] demo_rules(3)[OF demo_claim]
      demo_rules(4)[OF demo_transition] demo_rules(4)[OF demo_ready_transition]
      demo_rules(5)[OF demo_publish demo_publication_valid])+

lemma demo_reaches_ready: "reaches demo_env empty_db demo_ready"
  using demo_step_capture demo_steps by (meson reaches_refl reaches_step)

lemma demo_reaches: "reaches demo_env empty_db demo_published"
  using demo_reaches_ready demo_steps(5) by (rule reaches_step)

lemma demo_ready_ok: "db_ok demo_env demo_ready"
  using reaches_keeps[OF demo_reaches_ready db_ok_empty] by simp

lemma demo_published_ok: "db_ok demo_env demo_published"
  using reaches_keeps[OF demo_reaches db_ok_empty] by simp

section \<open>Witnesses\<close>

theorem reachable_db_ok_witness:
  "reaches demo_env empty_db demo_published \<and> db_ok demo_env demo_published"
  using reachable_db_ok[OF demo_reaches] demo_reaches by simp

theorem execution_extends_witness:
  "db_extends demo_db1 demo_published \<and> db_events demo_published = db_events demo_db1 \<and>
   pointer_version demo_db1 demo_h = 0 \<and> pointer_version demo_published demo_h = 1"
proof -
  have "reaches demo_env demo_db1 demo_published"
    using demo_steps by (meson reaches_refl reaches_step)
  from execution_extends[OF demo_db1_ok this] show ?thesis
    by (simp add: demo_published_def demo_staged_def pointer_version_def find_pointer_def fetchone_def)
qed

lemma demo_reaches_later: "reaches demo_env demo_published demo_later"
  using demo_rules(1)[OF demo_capture2] by (meson reaches_refl reaches_step)

theorem committed_snapshot_immutable_witness:
  "snapshot_bundle_by_id demo_env demo_later ''n1'' demo_key = Inr (demo_committed, [demo_membership])"
  using committed_snapshot_immutable[OF demo_published_ok demo_reaches_later demo_bundle] .

theorem capture_event_idempotent_witness:
  "capture_event demo_env demo_request demo_db1 = (Inr demo_event, demo_db1)"
  using capture_event_idempotent[OF db_ok_empty demo_capture] .

theorem capture_event_effect_witness:
  "db_ok demo_env demo_db1 \<and> db_events demo_db1 = db_events empty_db @ [demo_event_row] \<and>
   ev_sequence demo_event = 1"
  using capture_event_effect[OF db_ok_empty demo_capture] by (simp add: demo_event_def)

end
