(* ===== verification/Second_Cycle.thy ===== *)
theory Second_Cycle
  imports Scenario
begin

text \<open>
  The run of Scenario, continued with a second compaction whose publication is superseded: its
  capsule reuses the identifier of a stored capsule with another content. The job's intent is
  above the winner's coverage, so a follow-up job takes it over.
\<close>

definition demo_job2 :: "job_state \<Rightarrow> string option \<Rightarrow> int \<Rightarrow> string option \<Rightarrow> int option \<Rightarrow> int \<Rightarrow> job_row" where
  "demo_job2 st owner epoch cand expires now =
     \<lparr>jr_id = ''j2'', jr_hash = demo_h, jr_state = st, jr_target = 2, jr_intent = 2,
      jr_base = Some ''n1'', jr_base_version = 1, jr_candidate = cand, jr_owner = owner,
      jr_epoch = epoch, jr_expires = expires, jr_attempts = epoch, jr_retry = None, jr_err_stage = None,
      jr_err_code = None, jr_err_message = None, jr_created_at = 80, jr_updated_at = now,
      jr_committed_at = None\<rparr>"

definition demo_done :: job_row where
  "demo_done = demo_job COMMITTED None 1 (Some ''n1'') None 60 (Some 60)"

definition demo_with_job :: "job_row \<Rightarrow> db" where
  "demo_with_job r = demo_later\<lparr>db_jobs := [demo_done, r]\<rparr>"

definition demo_event_row2 :: event_row where
  "demo_event_row2 = demo_event_row\<lparr>er_id := ''e2'', er_sequence := 2, er_idem := ''i2'',
       er_content := Sealed ''k1'' ''journal_events'' ''content'' ''e2'' ''hello'',
       er_tokens := Sealed ''k1'' ''journal_events'' ''token_count'' ''e2'' 2, er_created_at := 70\<rparr>"

definition demo_event2 :: event_envelope where
  "demo_event2 = demo_event\<lparr>ev_id := ''e2'', ev_sequence := 2, ev_idempotency_key := ''i2'', ev_created_at := 70\<rparr>"

lemma demo_later_simps [simp]:
  "db_sessions demo_later = [demo_session 3 70]" "db_events demo_later = [demo_event_row, demo_event_row2]"
  "db_capsules demo_later = [demo_capsule_row]" "db_snapshots demo_later = [demo_snapshot_row]"
  "db_memberships demo_later =
     [\<lparr>mr_snapshot = ''n1'', mr_ordinal = 0, mr_capsule = ''c1'', mr_slot = ''slot''\<rparr>]"
  "db_pointers demo_later = [\<lparr>pr_hash = demo_h, pr_snapshot = ''n1'', pr_version = 1, pr_updated_at = 60\<rparr>]"
  "db_jobs demo_later = [demo_done]" "db_metrics demo_later = []"
  by (simp_all add: demo_later_def demo_done_def demo_event_row2_def)

lemma demo_with_job_simps [simp]:
  "db_sessions (demo_with_job r) = [demo_session 3 70]"
  "db_events (demo_with_job r) = [demo_event_row, demo_event_row2]"
  "db_capsules (demo_with_job r) = [demo_capsule_row]" "db_snapshots (demo_with_job r) = [demo_snapshot_row]"
  "db_memberships (demo_with_job r) =
     [\<lparr>mr_snapshot = ''n1'', mr_ordinal = 0, mr_capsule = ''c1'', mr_slot = ''slot''\<rparr>]"
  "db_pointers (demo_with_job r) = [\<lparr>pr_hash = demo_h, pr_snapshot = ''n1'', pr_version = 1, pr_updated_at = 60\<rparr>]"
  "db_jobs (demo_with_job r) = [demo_done, r]" "db_metrics (demo_with_job r) = []"
  by (simp_all add: demo_with_job_def)

lemma demo2_nonblank [simp]:
  "sql_nonblank ''j2''" "sql_nonblank ''n2''" "py_strip ''j2'' \<noteq> []" "py_strip ''n2'' \<noteq> []"
  by (simp_all add: sql_nonblank_def strip_by_def py_strip_def py_isspace_def)

lemma demo2_raise: "raise_compaction_intent demo_env ''j2'' demo_key 2 (Aware 80) demo_later =
    (Inr (Some (job_envelope demo_key (demo_job2 PENDING None 0 None None 80))),
     demo_with_job (demo_job2 PENDING None 0 None None 80))"
  by (simp add: raise_compaction_intent_def raise_compaction_intent_body_def demo_eval demo_done_def
      pending_job_def demo_job2_def demo_job_def demo_with_job_def find_snapshot_def
      demo_snapshot_row_def snapshot_exists_def cong: bind_weak_cong)

lemma demo2_claim: "claim_job demo_env ''w'' (Aware 81) (Aware 1000) (demo_with_job (demo_job2 PENDING None 0 None None 80)) =
    Some (Inr (Some (job_envelope demo_key (demo_job2 LEASED (Some ''w'') 1 None (Some 1000) 81))),
      demo_with_job (demo_job2 LEASED (Some ''w'') 1 None (Some 1000) 81))"
  by (simp add: claim_job_def claim_job_body_def claim_fuel_def demo_eval eligible_rows_def
      eligible_def lease_row_def demo_with_job_def demo_job_def demo_job2_def demo_done_def find_snapshot_def
      demo_snapshot_row_def snapshot_exists_def cong: bind_weak_cong)

lemma demo2_transition: "transition_job demo_env ''j2'' ''w'' 1 COMPILING (Aware 82) None
      (demo_with_job (demo_job2 LEASED (Some ''w'') 1 None (Some 1000) 81)) =
    (Inr (job_envelope demo_key (demo_job2 COMPILING (Some ''w'') 1 None (Some 1000) 82)),
      demo_with_job (demo_job2 COMPILING (Some ''w'') 1 None (Some 1000) 82))"
  by (simp add: transition_job_def transition_job_body_def demo_eval demo_with_job_def
      demo_job_def demo_job2_def demo_done_def demo_snapshot_row_def snapshot_exists_def cong: bind_weak_cong)

abbreviation demo2_ready_row :: job_row where
  "demo2_ready_row \<equiv> demo_job2 READY_TO_COMMIT (Some ''w'') 1 (Some ''n2'') (Some 1000) 83"

definition demo2_ready :: db where
  "demo2_ready = demo_with_job demo2_ready_row"

lemma demo2_ready_transition:
  "transition_job demo_env ''j2'' ''w'' 1 READY_TO_COMMIT (Aware 83) (Some ''n2'')
      (demo_with_job (demo_job2 COMPILING (Some ''w'') 1 None (Some 1000) 82)) =
    (Inr (job_envelope demo_key demo2_ready_row), demo2_ready)"
  by (simp add: transition_job_def transition_job_body_def demo_eval demo_with_job_def demo2_ready_def
      demo_job_def demo_job2_def demo_done_def demo_snapshot_row_def snapshot_exists_def cong: bind_weak_cong)

lemma demo2_reaches: "reaches demo_env empty_db demo2_ready"
proof -
  from demo_reaches demo_reaches_later have "reaches demo_env empty_db demo_later" by (rule reaches_trans)
  then show ?thesis
    using demo_rules(2)[OF demo2_raise] demo_rules(3)[OF demo2_claim] demo_rules(4)[OF demo2_transition]
      demo_rules(4)[OF demo2_ready_transition] by (meson reaches_step)
qed

lemma demo2_ready_ok: "db_ok demo_env demo2_ready"
  using reaches_keeps[OF demo2_reaches db_ok_empty] by simp

section \<open>The superseded publication\<close>

definition demo_capsule2 :: capsule where
  "demo_capsule2 = demo_capsule\<lparr>cap_covered_event_end := 2, cap_sources := [''e1'', ''e2'']\<rparr>"

definition demo_snapshot2 :: snapshot where
  "demo_snapshot2 = demo_snapshot\<lparr>snap_id := ''n2'', snap_base_snapshot_id := Some ''n1'',
     snap_covered_event_end := 2, snap_source_high_water_mark := 2\<rparr>"

definition demo_membership2 :: membership where
  "demo_membership2 = \<lparr>mem_ordinal = 0, mem_slot = ''slot'', mem_capsule = demo_capsule2\<rparr>"

definition demo_publication2 :: publication where
  "demo_publication2 = \<lparr>pub_snapshot = demo_snapshot2, pub_memberships = [demo_membership2],
     pub_metrics = None, pub_records = [], pub_token_ceiling = 100\<rparr>"

lemma demo_publication2_valid: "valid_publication demo_publication2"
  by (simp add: valid_publication_def demo_publication2_def demo_membership2_def demo_capsule2_def
      valid_capsule_def demo_capsule_def valid_sources_def valid_claim_def unit_float_def
      valid_anchor_def valid_quality_def)

abbreviation demo2_gate_input :: gate_input where
  "demo2_gate_input \<equiv> publish_gate_input (job_envelope demo_key demo2_ready_row) demo_publication2
     (Some demo_committed) [demo_membership] [demo_event2]"

lemma demo2_gate: "rep_passed (validate_permanent demo2_gate_input)"
  unfolding rep_passed_iff
proof
  fix c
  show "\<not> failure_holds demo2_gate_input c"
    by (cases c) (simp_all add: failure_holds_def publish_gate_input_def demo_publication2_def
        demo_snapshot2_def demo_capsule2_def demo_membership2_def demo_membership_def demo_committed_def
        demo_event2_def demo_job2_def
        demo_snapshot_def demo_capsule_def demo_event_def job_envelope_def
        g_session_mismatch_def g_coverage_gap_def g_base_coverage_def g_expected_sequences_def
        active_anchors_def g_invalid_capsule_coverage_def g_unsupported_def g_provenance_def
        active_semantics_def semantic_records_def capsule_semantic_records_def claim_record_def
        g_transition_records_def g_valid_ids_def g_current_ids_def g_capsule_source_mismatch_def
        g_missing_prior_semantic_def g_computed_anchor_recall_def g_preserved_anchor_count_def
        g_source_coverage_def
        g_computed_source_coverage_def min_default_def g_anchor_recall_def g_unsupported_count_def
        g_declared_coverage_gap_def)
qed

text \<open>The published bundle is still there in every later state of the run.\<close>

lemma demo2_bundle:
  "snapshot_bundle_by_id demo_env (demo_with_job r) ''n1'' demo_key = Inr (demo_committed, [demo_membership])"
proof -
  have "snapshot_bundle_by_id demo_env (demo_with_job r) ''n1'' demo_key =
      snapshot_bundle_by_id demo_env demo_published ''n1'' demo_key"
    by (simp add: snapshot_bundle_by_id_def find_snapshot_def find_session_def fetchone_def
        memberships_for_snapshot_def membership_join_def demo_session_def)
  then show ?thesis by (simp add: demo_bundle)
qed

lemma demo2_events: "events_between demo_env demo2_ready demo_key 1 2 = Inr [demo_event2]"
  by (simp add: demo2_ready_def events_between_def demo_event_row_def demo_event_row2_def event_from_row_def unseal_def
      decrypt_non_negative_int_def valid_event_def demo_event_def demo_event2_def cong: bind_weak_cong)

lemma demo2_checks: "publish_checks demo_env ''j2'' ''w'' 1 90 demo_publication2 demo2_ready =
    Inr (job_envelope demo_key demo2_ready_row, committed_form demo_snapshot2 90, [])"
proof -
  have pub: "pub_memberships demo_publication2 = [demo_membership2]"
    "pub_snapshot demo_publication2 = demo_snapshot2" "pub_metrics demo_publication2 = None"
    "pub_records demo_publication2 = []" by (simp_all add: demo_publication2_def)
  have fence: "require_live_fence demo2_ready ''j2'' ''w'' 1 90 = Inr demo2_ready_row"
    by (simp add: demo_eval demo_job_def demo_job2_def demo2_ready_def demo_done_def)
  have j: "job_by_id demo_env demo2_ready ''j2'' = Inr (job_envelope demo_key demo2_ready_row)"
    by (simp add: demo_eval demo_job_def demo_job2_def demo2_ready_def demo_done_def cong: bind_weak_cong)
  have jf: "job_session_key (job_envelope demo_key demo2_ready_row) = demo_key"
    "job_base_snapshot_id (job_envelope demo_key demo2_ready_row) = Some ''n1''"
    "job_target_hwm (job_envelope demo_key demo2_ready_row) = 2"
    by (simp_all add: job_envelope_def demo_job2_def)
  have c: "valid_snapshot (committed_form demo_snapshot2 90)"
    by (simp add: valid_snapshot_def committed_form_def demo_snapshot2_def demo_snapshot_def
        nonempty_optional_def valid_audit_outcome_def)
  have ms: "validate_candidate_memberships demo_snapshot2 [demo_membership2] = Inr ()"
    by (simp add: validate_candidate_memberships_def demo_snapshot2_def demo_snapshot_def
        demo_membership2_def demo_capsule2_def demo_capsule_def)
  have f: "jr_state demo2_ready_row = READY_TO_COMMIT" "jr_candidate demo2_ready_row = Some ''n2''"
    "snap_id demo_snapshot2 = ''n2''" "snap_state demo_snapshot2 = CANDIDATE"
    "snap_session_key demo_snapshot2 = demo_key" "snap_covered_event_end demo_committed = 1"
    by (simp_all add: demo_job2_def demo_snapshot2_def demo_snapshot_def demo_committed_def)
  show ?thesis
    by (simp add: publish_checks_def fence pub j ms jf demo2_events f demo2_gate c
        demo2_bundle[of demo2_ready_row, folded demo2_ready_def]
        canonicalize_reorganization_records_def apply_quality_floor_def cong: bind_weak_cong)
qed

lemma demo2_stage: "stage_candidate demo_env j s rs demo_publication2 90 demo2_ready = Inr None"
proof -
  have ids: "cap_id demo_capsule2 = ''c1''" "cap_session_key demo_capsule2 = demo_key"
    "cap_covered_event_end demo_capsule2 = 2"
    by (simp_all add: demo_capsule2_def demo_capsule_def)
  show ?thesis
    by (simp add: stage_candidate_def demo_publication2_def bind_staged_def catch_integrity_def
        demo_membership2_def insert_or_verify_capsule_def fetchone_def ids demo2_ready_def
        demo_capsule_row_def unseal_def decrypt_non_negative_int_def cong: bind_weak_cong)
qed

definition demo2_lost_row :: job_row where
  "demo2_lost_row = demo_job2 SUPERSEDED None 1 (Some ''n2'') None 90"

definition demo2_follow_up :: job_row where
  "demo2_follow_up = pending_job (''followup-'' @ replicate 32 (CHR ''a'')) demo_h 2 (Some ''n1'') 1 90"

definition demo2_superseded :: db where
  "demo2_superseded = demo_later\<lparr>db_jobs := [demo_done, demo2_lost_row, demo2_follow_up]\<rparr>"

lemma demo2_active: "active_snapshot_bundle demo_env (demo_with_job r) demo_key =
    Inr (demo_committed, 1, [demo_membership])"
  by (simp add: active_snapshot_bundle_def find_pointer_def fetchone_def demo2_bundle cong: bind_weak_cong)
     (simp add: demo_committed_def demo_snapshot_def)

lemma demo2_finish: "finish_publish_job demo_env (job_envelope demo_key demo2_ready_row) ''w'' 1 90
    OUTCOME_SUPERSEDED demo2_ready = Inr (job_envelope demo_key demo2_lost_row, demo_with_job demo2_lost_row)"
  by (simp add: finish_publish_job_def finish_where_def finish_row_def demo_eval demo_job2_def demo_job_def
      demo_done_def demo2_ready_def demo2_lost_row_def demo_with_job_def demo_snapshot_row_def
      snapshot_exists_def cong: bind_weak_cong)

lemma demo2_follow: "preserve_follow_up demo_env (job_envelope demo_key demo2_lost_row) demo_committed 1 90
    (demo_with_job demo2_lost_row) = Inr demo2_superseded"
proof -
  have id: "follow_up_id demo_env a b c d = ''followup-'' @ replicate 32 (CHR ''a'')" for a b c d
    by (simp add: follow_up_id_def demo_env_def demo_h_def)
  have nb: "sql_nonblank (''followup-'' @ replicate 32 (CHR ''a''))"
    by (simp add: sql_nonblank_def strip_by_def numeral_eq_Suc)
  have s: "snap_covered_event_end demo_committed = 1" "snap_id demo_committed = ''n1''"
    by (simp_all add: demo_committed_def demo_snapshot_def)
  have j: "job_intent_target_hwm (job_envelope demo_key demo2_lost_row) = 2"
    "job_session_key (job_envelope demo_key demo2_lost_row) = demo_key"
    by (simp_all add: job_envelope_def demo2_lost_row_def demo_job2_def)
  have none: "find_nonterminal (demo_with_job demo2_lost_row) demo_h = None"
    by (simp add: find_nonterminal_def fetchone_def is_nonterminal_def demo_done_def demo_job_def
        demo2_lost_row_def demo_job2_def)
  have ins: "insert_job demo2_follow_up (demo_with_job demo2_lost_row) = Inr demo2_superseded"
    using nb by (simp add: insert_job_def demo2_follow_up_def pending_job_def job_row_checks_def
        nonblank_optional_def job_foreign_keys_def session_exists_def demo_session_def snapshot_exists_def
        demo_snapshot_row_def unique_nonterminal_def is_nonterminal_def demo_done_def demo_job_def
        demo2_lost_row_def demo_job2_def demo_with_job_def demo2_superseded_def WORKING_STATES_def
        CANDIDATE_STATES_def)
  have row: "demo2_follow_up = pending_job (follow_up_id demo_env a b c d) demo_h 2 (Some ''n1'') 1 90"
    for a b c d by (simp add: demo2_follow_up_def id)
  show ?thesis
    by (simp add: preserve_follow_up_def s j none row[symmetric] ins)
qed

definition demo2_result :: publish_result where
  "demo2_result = \<lparr>res_outcome = OUTCOME_SUPERSEDED, res_job = job_envelope demo_key demo2_lost_row,
     res_winner = demo_committed, res_pointer_version = 1\<rparr>"

lemma demo2_publish: "publish_snapshot demo_env ''j2'' ''w'' 1 (Aware 90) demo_publication2 demo2_ready =
    (Inr demo2_result, demo2_superseded)"
proof -
  have jf: "job_session_key (job_envelope demo_key demo2_ready_row) = demo_key"
    by (simp add: job_envelope_def)
  have ceiling: "pub_token_ceiling demo_publication2 = 100" by (simp add: demo_publication2_def)
  have "publish_superseded demo_env (job_envelope demo_key demo2_ready_row) ''w'' 1 90 demo2_ready =
      Inr (demo2_result, demo2_superseded)"
    by (simp add: publish_superseded_def demo2_finish demo2_active jf demo2_follow demo2_result_def
        cong: bind_weak_cong)
  then show ?thesis
    by (simp add: publish_snapshot_def transaction_def publish_snapshot_body_def demo2_checks
        demo2_stage normalize_datetime_def ceiling cong: bind_weak_cong)
qed

end
