(* ===== verification/Witnesses.thy ===== *)
theory Witnesses
  imports Second_Cycle
begin

text \<open>
  The repository properties applied to states of the concrete runs of Scenario and
  Second_Cycle.
\<close>

definition demo_clash :: capture_request where
  "demo_clash = demo_request\<lparr>req_content := ''other''\<rparr>"

theorem capture_event_conflict_witness:
  "capture_event demo_env demo_clash demo_db1 = (Inl IdempotencyConflict, demo_db1)"
proof (rule capture_event_conflict[OF demo_db1_ok])
  show "stored_key demo_db1 (env_hash demo_env (req_session_key demo_clash)) = Some (req_session_key demo_clash)"
    by (simp add: stored_key_def find_session_def fetchone_def demo_session_def demo_clash_def demo_request_def)
  show "demo_event_row \<in> set (db_events demo_db1)" by simp
  show "er_hash demo_event_row = env_hash demo_env (req_session_key demo_clash)"
    "er_hook demo_event_row = snd (event_mapping (req_type demo_clash))"
    "er_idem demo_event_row = req_idem demo_clash"
    by (simp_all add: demo_event_row_def demo_clash_def demo_request_def)
  show "event_from_row demo_env (req_session_key demo_clash) demo_event_row = Inr demo_event"
    by (simp add: demo_event_row_def event_from_row_def unseal_def demo_clash_def demo_request_def
      decrypt_non_negative_int_def valid_event_def demo_event_def cong: bind_weak_cong)
  show "req_created_at demo_clash = Aware 10" by (simp add: demo_clash_def demo_request_def)
  show "request_event demo_clash 1 10 = Inr (demo_event\<lparr>ev_content := ''other''\<rparr>)"
    by (simp add: request_event_def create_event_def valid_event_def demo_clash_def demo_request_def
        demo_event_def cong: bind_weak_cong)
  show "\<not> is_exact_replay demo_event (demo_event\<lparr>ev_content := ''other''\<rparr>)"
    by (simp add: is_exact_replay_def demo_event_def)
  show "\<not> env_fault demo_env ''capture.after_session''" by (simp add: demo_env_def)
qed

text \<open>The lease of epoch 0 was overtaken by the claim, and is refused up to the publication.\<close>

theorem overtaken_worker_rejected_witness:
  "transition_job demo_env ''j1'' ''old'' 0 AUDITING (Aware 41) None demo_ready =
     (Inl StaleLeaseError, demo_ready) \<and>
   renew_job_lease demo_env ''j1'' ''old'' 0 (Aware 41) (Aware 99) demo_ready =
     (Inl StaleLeaseError, demo_ready) \<and>
   publish_snapshot demo_env ''j1'' ''old'' 0 (Aware 41) demo_publication demo_ready =
     (Inl StaleLeaseError, demo_ready)"
proof -
  have ok: "db_ok demo_env demo_leased"
    using reaches_keeps[OF _ demo_db1_ok] demo_steps by (meson reaches_refl reaches_step)
  have reach: "reaches demo_env demo_leased demo_ready"
    using demo_steps(3,4) by (meson reaches_refl reaches_step)
  have r: "find_job demo_leased ''j1'' = Some (demo_job LEASED (Some ''w'') 1 None (Some 1000) 30 None)"
    "0 < jr_epoch (demo_job LEASED (Some ''w'') 1 None (Some 1000) 30 None)"
    by (simp_all add: find_job_def fetchone_def demo_leased_def demo_job_def)
  have "pub_token_ceiling demo_publication \<ge> 0" by (simp add: demo_publication_def)
  then show ?thesis
    using overtaken_worker_rejected[OF ok reach r, of "''old''" AUDITING 41 None 99 undefined demo_publication]
    by simp
qed

lemma demo_pending_ok: "db_ok demo_env demo_pending"
  using reaches_keeps[OF _ demo_db1_ok] demo_steps(1) by (meson reaches_refl reaches_step)


theorem raise_intent_coalesces_witness:
  "\<exists>r. find_nonterminal demo_pending demo_h = Some r \<and> jr_id r = ''j1'' \<and> jr_intent r = 1 \<and>
     (\<forall>r' \<in> set (db_jobs demo_pending). jr_hash r' = demo_h \<and> is_nonterminal (jr_state r') \<longrightarrow> r' = r)"
  using raise_intent_coalesces[OF demo_db1_ok demo_raise]
  by (auto simp: find_nonterminal_def fetchone_def)

lemma demo_leased_ok: "db_ok demo_env demo_leased"
  using reaches_keeps[OF _ demo_pending_ok] demo_steps(2) by (meson reaches_refl reaches_step)

definition demo_renewed :: db where
  "demo_renewed = demo_db1\<lparr>db_jobs := [demo_job LEASED (Some ''w'') 1 None (Some 2000) 35 None]\<rparr>"

lemma demo_renew: "renew_job_lease demo_env ''j1'' ''w'' 1 (Aware 35) (Aware 2000) demo_leased =
    (Inr (job_envelope demo_key (demo_job LEASED (Some ''w'') 1 None (Some 2000) 35 None)), demo_renewed)"
  by (simp add: renew_job_lease_def renew_job_lease_body_def demo_eval
      demo_renewed_def demo_leased_def demo_job_def cong: bind_weak_cong)

theorem renew_extends_lease_witness:
  "lease_live demo_renewed ''j1'' ''w'' 1 35 \<and>
   (\<exists>r t. find_job demo_leased ''j1'' = Some r \<and> jr_expires r = Some t \<and> t < 2000)"
  using renew_extends_lease[OF demo_leased_ok demo_renew] by auto

theorem recover_expired_complete_witness:
  "\<exists>js. recover_expired_leases demo_env (Aware 1000) demo_leased =
     (Inr js, demo_db1\<lparr>db_jobs := [demo_job PENDING None 1 None None 1000 None]\<rparr>) \<and> map job_id js = [''j1'']"
proof -
  have "\<not> env_fault demo_env ''recovery.after_update''" by (simp add: demo_env_def)
  from recover_expired_complete[OF demo_leased_ok this, of 1000] show ?thesis
    by (simp add: demo_leased_def demo_job_def expired_def recover_row_def expired_ids_def WORKING_STATES_def)
qed


theorem publish_commit_visible_witness:
  "active_snapshot_bundle demo_env demo_published demo_key =
     Inr (demo_committed, 1, [demo_membership]) \<and>
   coverage demo_ready demo_h < coverage demo_published demo_h \<and> coverage demo_published demo_h = 1"
  using publish_commit_visible[OF demo_ready_ok demo_publication_valid demo_publish _ refl]
  by (simp add: demo_publication_def demo_snapshot_def demo_membership_def)

theorem publish_preserves_intent_witness:
  "\<exists>r'. find_nonterminal demo2_superseded demo_h = Some r' \<and> 2 \<le> jr_intent r'"
proof -
  have row: "find_job demo2_ready ''j2'' = Some demo2_ready_row"
    by (simp add: find_job_def fetchone_def demo2_ready_def demo_done_def demo_job_def demo_job2_def)
  have "snap_covered_event_end (res_winner demo2_result) < jr_intent demo2_ready_row"
    by (simp add: demo2_result_def demo_committed_def demo_snapshot_def demo_job2_def)
  from publish_preserves_intent[OF demo2_ready_ok demo_publication2_valid row demo2_publish this]
  show ?thesis by (simp add: demo_job2_def)
qed

section \<open>Views\<close>

lemma demo_later_ok: "db_ok demo_env demo_later"
  using reaches_keeps[OF demo_reaches_later demo_published_ok] by simp

lemma demo_later_key: "stored_key demo_later (env_hash demo_env demo_key) = Some demo_key"
  by (simp add: stored_key_def find_session_def fetchone_def demo_session_def)

lemma demo_later_marks: "coverage demo_later demo_h = 1" "high_water demo_later demo_h = 2"
  by (simp_all add: coverage_def high_water_def find_pointer_def find_snapshot_def fetchone_def
      find_session_def demo_session_def demo_snapshot_row_def)

theorem request_view_available_witness:
  "\<exists>v. read_request_view demo_env demo_later demo_key = Inr v \<and> rv_covered_event_end v = 1 \<and>
     rv_high_water_mark v = 2 \<and> map ev_sequence (rv_delta v) = [2]"
proof -
  have "\<not> env_fault demo_env b" for b by (simp add: demo_env_def)
  from request_view_available[OF demo_later_ok demo_later_key this this] show ?thesis
    by (simp add: demo_later_marks) (auto simp: upto.simps)
qed

theorem runtime_accepts_repository_view_witness:
  "\<exists>v. read_request_view demo_env demo_later demo_key = Inr v \<and>
     runtime_read_request_view (read_request_view demo_env demo_later) demo_key = Inr v"
proof -
  have "\<not> env_fault demo_env b" for b by (simp add: demo_env_def)
  from read_request_view_matches[OF demo_later_ok demo_later_key this this]
  obtain v where v: "read_request_view demo_env demo_later demo_key = Inr v" by blast
  with runtime_accepts_repository_view[OF demo_later_ok v] show ?thesis by blast
qed

theorem compaction_view_available_witness:
  "\<exists>v. read_compaction_view demo_env demo_compiling ''j1'' ''w'' 1 (Aware 41) = Inr v \<and>
     rv_snapshot v = None \<and> rv_high_water_mark v = 1 \<and> rv_covered_event_end v < 1"
proof -
  let ?r = "demo_job COMPILING (Some ''w'') 1 None (Some 1000) 40 None"
  have ok: "db_ok demo_env demo_compiling"
    using reaches_keeps[OF _ demo_leased_ok] demo_steps(3) by (meson reaches_refl reaches_step)
  have r: "find_job demo_compiling ''j1'' = Some ?r" "fence_live ?r ''w'' 1 41"
      "jr_state ?r = COMPILING \<or> jr_state ?r = AUDITING"
    by (simp_all add: find_job_def fetchone_def demo_compiling_def demo_job_def fence_live_def WORKING_STATES_def)
  from compaction_view_available[OF ok r] show ?thesis by (auto simp: demo_job_def)
qed

end
