(* ===== verification/Closure.thy ===== *)
theory Closure
  imports Domain
begin

text \<open>
  The candidate blocks of \<^verbatim>\<open>runtime/types.py\<close> and \<^verbatim>\<open>context_graph/closure.py\<close>: structural
  dependency groups, the bounded dependency closure and its validation. Python sets of
  indexes and identifiers are lists used as sets; the results do not depend on their order.
\<close>

section \<open>Candidate blocks\<close>

datatype runtime_slot =
  ACTIVE_GOAL | HARD_CONSTRAINT | RAW_DELTA | EXACT_ANCHOR_SLOT | RECENT_RAW | ACTIVE_TASK
| RELEVANT_EVIDENCE | EPISODE_BACKGROUND_SLOT | GLOBAL_BACKGROUND_SLOT

definition RUNTIME_SLOT_PRIORITY :: "runtime_slot list" where
  "RUNTIME_SLOT_PRIORITY =
     [ACTIVE_GOAL, HARD_CONSTRAINT, RAW_DELTA, EXACT_ANCHOR_SLOT, RECENT_RAW, ACTIVE_TASK,
      RELEVANT_EVIDENCE, EPISODE_BACKGROUND_SLOT, GLOBAL_BACKGROUND_SLOT]"

datatype candidate_kind =
  GOAL | CONSTRAINT | RAW_EVENT | EXACT_ANCHOR | TASK_CONTEXT | DECISION | ENTITY | DEPENDENCY
| EPISODE_BACKGROUND | GLOBAL_BACKGROUND

record candidate_block =
  cb_id :: string
  cb_slot :: runtime_slot
  cb_kind :: candidate_kind
  cb_text :: string
  cb_sources :: "string list"
  cb_score :: rat
  cb_reason :: string
  cb_required :: bool
  cb_capsule :: "string option"
  cb_sequence :: "int option"
  cb_event_type :: "event_type option"
  cb_tool_name :: "string option"
  cb_selection_complete :: bool

section \<open>Companions and groups\<close>

definition companions :: "candidate_block \<Rightarrow> candidate_block \<Rightarrow> bool" where
  "companions left right \<longleftrightarrow>
     (cb_kind left = DEPENDENCY \<or> cb_kind right = DEPENDENCY) \<and>
     (cb_capsule left \<noteq> None \<and> cb_capsule left = cb_capsule right \<or>
      (\<exists>s \<in> set (cb_sources left). s \<in> set (cb_sources right)))"

datatype closure_error =
  DEPENDENCY_GROUP_DUPLICATE_BLOCK | DEPENDENCY_CLOSURE_DUPLICATE_BLOCK
| DEPENDENCY_CLOSURE_UNKNOWN_BLOCK | DEPENDENCY_CLOSURE_CAPACITY_EXCEEDED | MAX_BLOCKS_INVALID

text \<open>
  The inner \<^verbatim>\<open>while pending\<close>: the stack, the component found so far and the indexes not yet
  placed. The result is the component and what remains.
\<close>

function component_loop ::
  "candidate_block list \<Rightarrow> nat list \<Rightarrow> nat list \<Rightarrow> nat list \<Rightarrow> nat list \<times> nat list" where
  "component_loop cs [] component remaining = (component, remaining)"
| "component_loop cs (index # pending) component remaining =
     (if index \<in> set component then component_loop cs pending component remaining
      else (let remaining' = filter (\<lambda>i. i \<noteq> index) remaining in
            component_loop cs
              (rev (filter (\<lambda>other. companions (cs ! index) (cs ! other)) remaining') @ pending)
              (index # component) remaining'))"
  by pat_completeness auto
termination
proof (relation "measures [\<lambda>(cs, p, c, r). card ((set p \<union> set r) - set c), \<lambda>(cs, p, c, r). length p]")
  fix cs :: "candidate_block list" and index :: nat and pending component remaining remaining' :: "nat list"
  assume "index \<notin> set component" "remaining' = filter (\<lambda>i. i \<noteq> index) remaining"
  then have "(set (rev (filter (\<lambda>other. companions (cs ! index) (cs ! other)) remaining') @ pending) \<union>
      set remaining') - set (index # component) \<subset> (set (index # pending) \<union> set remaining) - set component"
    by auto
  then show "((cs, rev (filter (\<lambda>other. companions (cs ! index) (cs ! other)) remaining') @ pending,
      index # component, remaining'), cs, index # pending, component, remaining)
    \<in> measures [\<lambda>(cs, p, c, r). card ((set p \<union> set r) - set c), \<lambda>(cs, p, c, r). length p]"
    by (intro measures_less) (simp only: case_prod_conv, rule psubset_card_mono, auto)
next
  fix cs :: "candidate_block list" and index :: nat and pending component remaining :: "nat list"
  assume "index \<in> set component"
  then show "((cs, pending, component, remaining), cs, index # pending, component, remaining)
    \<in> measures [\<lambda>(cs, p, c, r). card ((set p \<union> set r) - set c), \<lambda>(cs, p, c, r). length p]"
    by (simp add: insert_Diff_if)
qed simp

lemma component_loop_fst:
  "set pending \<union> set component \<subseteq> set (fst (component_loop cs pending component remaining))"
  by (induction cs pending component remaining rule: component_loop.induct) auto

lemma component_loop_snd:
  assumes "set component \<inter> set remaining = {}"
  shows "snd (component_loop cs pending component remaining) =
    filter (\<lambda>i. i \<notin> set (fst (component_loop cs pending component remaining))) remaining"
  using assms
proof (induction cs pending component remaining rule: component_loop.induct)
  case (1 cs component remaining)
  then show ?case by (auto intro!: filter_True[symmetric])
next
  case (2 cs index pending component remaining)
  show ?case
  proof (cases "index \<in> set component")
    case False
    let ?rem = "filter (\<lambda>i. i \<noteq> index) remaining"
    let ?res = "component_loop cs (rev (filter (\<lambda>other. companions (cs ! index) (cs ! other)) ?rem) @ pending)
      (index # component) ?rem"
    have "index \<in> set (fst ?res)" using component_loop_fst[of _ "index # component" cs ?rem] by auto
    then have "filter (\<lambda>i. i \<notin> set (fst ?res)) ?rem = filter (\<lambda>i. i \<notin> set (fst ?res)) remaining"
      by (auto simp: filter_filter intro: filter_cong)
    moreover have "snd ?res = filter (\<lambda>i. i \<notin> set (fst ?res)) ?rem"
      using 2(2)[OF False refl] 2(3) by auto
    ultimately show ?thesis using False by simp
  qed (use 2 in simp)
qed

text \<open>The outer \<^verbatim>\<open>while remaining\<close>, starting each component at the least index left.\<close>

function groups_loop :: "candidate_block list \<Rightarrow> nat list \<Rightarrow> candidate_block list list" where
  "groups_loop cs remaining =
     (if remaining = [] then []
      else (let (component, rest) = component_loop cs [Min (set remaining)] [] remaining in
            map (nth cs) (sort component) # groups_loop cs rest))"
  by pat_completeness auto
termination
proof (relation "measure (\<lambda>(cs, r). length r)")
  fix cs :: "candidate_block list" and remaining component rest :: "nat list" and z
  assume ne: "remaining \<noteq> []" and z: "z = component_loop cs [Min (set remaining)] [] remaining" "(component, rest) = z"
  then have "rest = filter (\<lambda>i. i \<notin> set component) remaining"
    using component_loop_snd[of "[]" remaining cs "[Min (set remaining)]"] by (metis Int_empty_left fst_conv list.set(1) snd_conv)
  moreover have "Min (set remaining) \<in> set component"
    using component_loop_fst[of "[Min (set remaining)]" "[]" cs remaining] z by (metis Un_subset_iff fst_conv list.set_intros(1) subsetD)
  moreover have "Min (set remaining) \<in> set remaining" using ne by simp
  ultimately have "length rest < length remaining" by (metis length_filter_less)
  then show "((cs, rest), cs, remaining) \<in> measure (\<lambda>(cs, r). length r)" by simp
qed simp

declare groups_loop.simps [simp del]

definition dependency_groups :: "candidate_block list \<Rightarrow> closure_error + candidate_block list list" where
  "dependency_groups candidates =
     bind (guard (distinct (map cb_id candidates)) DEPENDENCY_GROUP_DUPLICATE_BLOCK) (\<lambda>_.
     Inr (groups_loop candidates [0 ..< length candidates]))"

definition removable_dependency_groups ::
  "candidate_block list \<Rightarrow> closure_error + candidate_block list list" where
  "removable_dependency_groups candidates =
     bind (dependency_groups candidates) (\<lambda>groups.
     Inr (filter (\<lambda>g. \<not> (\<exists>c \<in> set g. cb_required c)) groups))"

section \<open>Bounded closure\<close>

text \<open>The two nested \<^verbatim>\<open>for\<close> loops of one pass: over the blocks active at its start and the universe.\<close>

fun close_right ::
  "int \<Rightarrow> candidate_block \<Rightarrow> candidate_block list \<Rightarrow> string list \<Rightarrow> closure_error + string list" where
  "close_right max_blocks left [] selected = Inr selected"
| "close_right max_blocks left (right # rs) selected =
     (if cb_id right \<in> set selected \<or> \<not> companions left right
      then close_right max_blocks left rs selected
      else if int (length selected) \<ge> max_blocks then Inl DEPENDENCY_CLOSURE_CAPACITY_EXCEEDED
      else close_right max_blocks left rs (cb_id right # selected))"

fun close_pass ::
  "int \<Rightarrow> candidate_block list \<Rightarrow> candidate_block list \<Rightarrow> string list \<Rightarrow> closure_error + string list" where
  "close_pass max_blocks universe [] selected = Inr selected"
| "close_pass max_blocks universe (left # ls) selected =
     bind (close_right max_blocks left universe selected) (\<lambda>selected'.
     close_pass max_blocks universe ls selected')"

text \<open>A pass only adds identifiers of the universe that were not selected.\<close>

definition adds :: "candidate_block list \<Rightarrow> string list \<Rightarrow> string list \<Rightarrow> bool" where
  "adds u sel sel' \<longleftrightarrow> (\<exists>new. sel' = new @ sel \<and> distinct new \<and> set new \<inter> set sel = {} \<and> set new \<subseteq> cb_id ` set u)"

lemma adds_refl [simp]: "adds u sel sel"
  by (simp add: adds_def)

lemma adds_trans: "adds u a b \<Longrightarrow> adds u b c \<Longrightarrow> adds u a c"
  unfolding adds_def by auto

lemma adds_one: "c \<in> set u \<Longrightarrow> cb_id c \<notin> set sel \<Longrightarrow> adds u sel (cb_id c # sel)"
  unfolding adds_def by (intro exI[of _ "[cb_id c]"]) auto

lemma adds_grows: "adds u a b \<Longrightarrow> length a \<noteq> length b \<Longrightarrow> cb_id ` set u - set b \<subset> cb_id ` set u - set a"
proof -
  assume "adds u a b" "length a \<noteq> length b"
  then obtain x new where "b = x # new @ a" "x \<notin> set a" "set (x # new) \<subseteq> cb_id ` set u"
    unfolding adds_def by (auto simp: neq_Nil_conv)
  then have "x \<in> cb_id ` set u - set a" "x \<notin> cb_id ` set u - set b" "set a \<subseteq> set b" by auto
  then show ?thesis by blast
qed

lemma close_right_adds: "close_right m left rs sel = Inr sel' \<Longrightarrow> set rs \<subseteq> set u \<Longrightarrow> adds u sel sel'"
proof (induction rs arbitrary: sel)
  case (Cons c rs)
  show ?case
  proof (cases "cb_id c \<in> set sel \<or> \<not> companions left c")
    case False
    then have "adds u sel (cb_id c # sel)" using Cons.prems(2) by (intro adds_one) auto
    with False Cons show ?thesis by (auto split: if_splits intro: adds_trans)
  qed (use Cons in auto)
qed simp

lemma close_pass_adds: "close_pass m u ls sel = Inr sel' \<Longrightarrow> adds u sel sel'"
  by (induction ls arbitrary: sel) (auto simp: bind_eq_Inr intro: adds_trans close_right_adds[OF _ order_refl])

text \<open>The \<^verbatim>\<open>while changed\<close> loop.\<close>

function close_loop :: "int \<Rightarrow> candidate_block list \<Rightarrow> string list \<Rightarrow> closure_error + string list" where
  "close_loop max_blocks universe selected =
     (case close_pass max_blocks universe
             (filter (\<lambda>c. cb_id c \<in> set selected) universe) selected of
        Inl e \<Rightarrow> Inl e
      | Inr selected' \<Rightarrow>
          if length selected' = length selected then Inr selected'
          else close_loop max_blocks universe selected')"
  by pat_completeness auto
termination
proof (relation "measure (\<lambda>(m, u, sel). card (cb_id ` set u - set sel))")
  fix m u sel sel'
  assume "close_pass m u (filter (\<lambda>c. cb_id c \<in> set sel) u) sel = Inr sel'" "length sel' \<noteq> length sel"
  from adds_grows[OF close_pass_adds[OF this(1)]] this(2)
  have "cb_id ` set u - set sel' \<subset> cb_id ` set u - set sel" by simp
  then have "card (cb_id ` set u - set sel') < card (cb_id ` set u - set sel)" by (intro psubset_card_mono) auto
  then show "((m, u, sel'), m, u, sel) \<in> measure (\<lambda>(m, u, sel). card (cb_id ` set u - set sel))" by simp
qed simp

declare close_loop.simps [simp del]

definition close_dependency_closure ::
  "candidate_block list \<Rightarrow> candidate_block list \<Rightarrow> int \<Rightarrow> closure_error + candidate_block list" where
  "close_dependency_closure selected_blocks universe max_blocks =
     bind (guard (max_blocks \<ge> 1) MAX_BLOCKS_INVALID) (\<lambda>_.
     bind (guard (distinct (map cb_id universe)) DEPENDENCY_CLOSURE_DUPLICATE_BLOCK) (\<lambda>_.
     bind (guard (\<forall>c \<in> set selected_blocks. cb_id c \<in> cb_id ` set universe)
       DEPENDENCY_CLOSURE_UNKNOWN_BLOCK) (\<lambda>_.
     let selected = remdups (map cb_id selected_blocks @ map cb_id (filter cb_required universe)) in
     bind (guard (int (length selected) \<le> max_blocks) DEPENDENCY_CLOSURE_CAPACITY_EXCEEDED) (\<lambda>_.
     bind (close_loop max_blocks universe selected) (\<lambda>ids.
     Inr (filter (\<lambda>c. cb_id c \<in> set ids) universe))))))"

definition validate_dependency_closure ::
  "candidate_block list \<Rightarrow> candidate_block list \<Rightarrow> int \<Rightarrow> bool" where
  "validate_dependency_closure packed universe max_blocks =
     (case close_dependency_closure packed universe max_blocks of
        Inl e \<Rightarrow> False
      | Inr blocks \<Rightarrow> map cb_id packed = map cb_id blocks)"

end
