(* ===== verification/Closure_Laws.thy ===== *)
theory Closure_Laws
  imports Closure
begin

text \<open>
  Correctness of dependency groups and of the bounded closure against graph-theoretic
  descriptions: groups are the connected components of the companion relation, and the
  closure is the least set that contains the selected and required blocks and is closed
  under companions.
\<close>

section \<open>Dependency groups are connected components\<close>

lemma companions_sym: "companions a b = companions b a"
  by (auto simp: companions_def)

text \<open>Reachability between positions of the candidate list.\<close>

definition edge :: "candidate_block list \<Rightarrow> nat \<Rightarrow> nat \<Rightarrow> bool" where
  "edge cs i j \<longleftrightarrow> i < length cs \<and> j < length cs \<and> companions (cs ! i) (cs ! j)"

definition linked :: "candidate_block list \<Rightarrow> nat \<Rightarrow> nat \<Rightarrow> bool" where
  "linked cs = (edge cs)\<^sup>*\<^sup>*"

lemma linked_sym: "linked cs i j \<Longrightarrow> linked cs j i"
  unfolding linked_def
  by (rule sympD[OF symp_rtranclp]) (auto simp: edge_def companions_sym intro!: sympI)

lemma linked_trans: "linked cs i j \<Longrightarrow> linked cs j k \<Longrightarrow> linked cs i k"
  unfolding linked_def by (rule rtranclp_trans)

text \<open>
  The invariant of the inner loop, for a start index \<open>i\<close>: everything in hand is linked to
  the start, and an edge out of the component leads into it or to the stack.
\<close>

definition component_inv ::
  "candidate_block list \<Rightarrow> nat \<Rightarrow> nat list \<Rightarrow> nat list \<Rightarrow> nat list \<Rightarrow> bool" where
  "component_inv cs i pending component remaining \<longleftrightarrow>
     set component \<inter> set remaining = {} \<and> set pending \<subseteq> set component \<union> set remaining \<and>
     distinct component \<and> set component \<union> set remaining \<subseteq> {..< length cs} \<and>
     (\<forall>j \<in> set pending \<union> set component. linked cs i j) \<and>
     (\<forall>a \<in> set component. \<forall>b \<in> set remaining. edge cs a b \<longrightarrow> b \<in> set pending)"

lemma component_inv_skip:
  "component_inv cs i (j # pending) component remaining \<Longrightarrow> j \<in> set component \<Longrightarrow>
     component_inv cs i pending component remaining"
  unfolding component_inv_def by (auto simp: disjoint_iff, blast)

lemma component_inv_take:
  assumes "component_inv cs i (j # pending) component remaining" "j \<notin> set component"
    and rem: "rem = filter (\<lambda>k. k \<noteq> j) remaining"
  shows "component_inv cs i (rev (filter (\<lambda>k. companions (cs ! j) (cs ! k)) rem) @ pending) (j # component) rem"
proof -
  have j: "j \<in> set remaining" "j < length cs" "linked cs i j"
    using assms(1,2) by (auto simp: component_inv_def)
  have "linked cs i k" if "k \<in> set rem" "companions (cs ! j) (cs ! k)" for k
  proof -
    have "edge cs j k" using that assms(1) j(2) rem by (auto simp: edge_def component_inv_def)
    with j(3) show ?thesis unfolding linked_def by (rule rtranclp.rtrancl_into_rtrancl)
  qed
  with assms j show ?thesis unfolding component_inv_def by (auto simp: edge_def)
qed

lemma component_loop_inv:
  assumes "component_inv cs i pending component remaining"
    and "component_loop cs pending component remaining = (c, r)"
  shows "component_inv cs i [] c r \<and> set c \<union> set r = set component \<union> set remaining"
  using assms
proof (induction cs pending component remaining rule: component_loop.induct)
  case (2 cs j pending component remaining)
  show ?case
  proof (cases "j \<in> set component")
    case True
    with 2(1)[OF True component_inv_skip[OF 2(3) True]] 2(4) show ?thesis by simp
  next
    case False
    have "j \<in> set remaining" using 2(3) False by (auto simp: component_inv_def)
    with 2(2)[OF False refl component_inv_take[OF 2(3) False refl]] 2(4) False show ?thesis by auto
  qed
qed simp

text \<open>One component, started at an index whose class lies in the remaining indexes.\<close>

lemma component_is_class:
  assumes i: "i \<in> set remaining" "set remaining \<subseteq> {..< length cs}"
    and closed: "\<And>a b. a \<in> set remaining \<Longrightarrow> edge cs a b \<Longrightarrow> b \<in> set remaining"
    and loop: "component_loop cs [i] [] remaining = (c, r)"
  shows "distinct c" "set c = {j \<in> set remaining. linked cs i j}" "set r = set remaining - set c"
proof -
  have "component_inv cs i [i] [] remaining" using i by (auto simp: component_inv_def linked_def)
  from component_loop_inv[OF this loop]
  have inv: "component_inv cs i [] c r" and un: "set c \<union> set r = set remaining" by auto
  show "distinct c" using inv by (simp add: component_inv_def)
  show r: "set r = set remaining - set c" using inv un by (auto simp: component_inv_def)
  have ic: "i \<in> set c" using component_loop_fst[of "[i]" "[]" cs remaining] loop by simp
  have "j \<in> set c \<and> j \<in> set remaining" if "linked cs i j" for j
    using that unfolding linked_def
  proof (induction rule: rtranclp_induct)
    case (step a b)
    then have b: "b \<in> set remaining" using closed by blast
    have "\<not> edge cs a b \<or> b \<notin> set r" using inv step.IH by (auto simp: component_inv_def)
    with b step.hyps(2) r show ?case by simp
  qed (use ic i in simp)
  then show "set c = {j \<in> set remaining. linked cs i j}"
    using inv un by (auto simp: component_inv_def)
qed

lemma remaining_closed:
  assumes "\<And>a b. a \<in> R \<Longrightarrow> edge cs a b \<Longrightarrow> b \<in> R"
    and "C = {j \<in> R. linked cs i j}" "a \<in> R - C" "edge cs a b"
  shows "b \<in> R - C"
proof -
  have "edge cs b a" using assms(4) by (simp add: edge_def companions_sym)
  then have "linked cs i b \<Longrightarrow> linked cs i a"
    unfolding linked_def by (rule rtranclp.rtrancl_into_rtrancl[rotated])
  with assms show ?thesis by blast
qed

text \<open>The groups as lists of positions.\<close>

lemma groups_loop_classes:
  assumes "set remaining \<subseteq> {..< length cs}" "\<And>a b. a \<in> set remaining \<Longrightarrow> edge cs a b \<Longrightarrow> b \<in> set remaining"
  shows "\<exists>jss. groups_loop cs remaining = map (map (nth cs)) jss \<and> set (concat jss) = set remaining \<and>
    distinct (concat jss) \<and> (\<forall>js \<in> set jss. js \<noteq> [] \<and> sorted js \<and>
      (\<forall>a \<in> set js. set js = {j. j < length cs \<and> linked cs a j}))"
  using assms
proof (induction cs remaining rule: groups_loop.induct)
  case (1 cs remaining)
  show ?case
  proof (cases "remaining = []")
    case True
    then show ?thesis by (intro exI[of _ "[]"]) (simp add: groups_loop.simps)
  next
    case False
    let ?i = "Min (set remaining)"
    obtain c r where cr: "component_loop cs [?i] [] remaining = (c, r)" by (rule prod.exhaust)
    have i: "?i \<in> set remaining" using False by simp
    have cls: "distinct c" "set c = {j \<in> set remaining. linked cs ?i j}" "set r = set remaining - set c"
      by (rule component_is_class[OF i 1(2) _ cr]; use 1(3) in blast)+
    have "set r \<subseteq> {..< length cs}" unfolding cls(3) using 1(2) by (rule subset_trans[OF Diff_subset])
    moreover have "\<And>a b. a \<in> set r \<Longrightarrow> edge cs a b \<Longrightarrow> b \<in> set r"
      unfolding cls(3) by (rule remaining_closed[OF 1(3) cls(2)])
    ultimately obtain jss where jss: "groups_loop cs r = map (map (nth cs)) jss" "set (concat jss) = set r"
      "distinct (concat jss)" "\<forall>js \<in> set jss. js \<noteq> [] \<and> sorted js \<and>
      (\<forall>a \<in> set js. set js = {j. j < length cs \<and> linked cs a j})"
      using 1(1)[OF False cr[symmetric] refl] by auto
    have ne: "sort c \<noteq> []"
    proof
      assume "sort c = []"
      then have "set c = {}" by (metis set_sort list.set(1))
      with cls(2) i show False by (auto simp: linked_def)
    qed
    have "set (sort c) = {j. j < length cs \<and> linked cs a j}" if a: "a \<in> set (sort c)" for a
    proof -
      have ia: "linked cs ?i a" using a cls(2) by simp
      have "j \<in> set remaining" if "linked cs ?i j" for j
        using that i unfolding linked_def by (induction rule: rtranclp_induct) (use 1(3) in auto)
      then show ?thesis using cls(2) 1(2) linked_trans[OF ia] linked_trans[OF linked_sym[OF ia]] by auto
    qed
    moreover have "groups_loop cs remaining = map (nth cs) (sort c) # groups_loop cs r"
      using False cr by (subst groups_loop.simps) simp
    moreover have "set (concat (sort c # jss)) = set remaining" "distinct (concat (sort c # jss))"
      using jss(2,3) cls by auto
    ultimately show ?thesis using jss ne by (intro exI[of _ "sort c # jss"]) auto
  qed
qed

text \<open>The same relation between blocks.\<close>

definition related :: "candidate_block list \<Rightarrow> candidate_block \<Rightarrow> candidate_block \<Rightarrow> bool" where
  "related cs = (\<lambda>a b. a \<in> set cs \<and> b \<in> set cs \<and> companions a b)\<^sup>*\<^sup>*"

lemma linked_related:
  assumes "distinct cs" "i < length cs" "j < length cs"
  shows "linked cs i j \<longleftrightarrow> related cs (cs ! i) (cs ! j)"
proof
  assume "linked cs i j"
  then show "related cs (cs ! i) (cs ! j)" unfolding linked_def related_def
    by (induction rule: rtranclp_induct) (auto simp: edge_def intro: rtranclp.rtrancl_into_rtrancl)
next
  have "\<forall>j < length cs. cs ! j = y \<longrightarrow> linked cs i j" if "related cs (cs ! i) y" for y
    using that unfolding related_def
  proof (induction rule: rtranclp_induct)
    case base
    then show ?case using assms by (auto simp: linked_def nth_eq_iff_index_eq)
  next
    case (step a b)
    then obtain k where k: "k < length cs" "cs ! k = a" by (auto simp: in_set_conv_nth)
    with step have "linked cs i k" by blast
    with k step(2) show ?case unfolding linked_def
      by (auto simp: edge_def intro: rtranclp.rtrancl_into_rtrancl)
  qed
  then show "related cs (cs ! i) (cs ! j) \<Longrightarrow> linked cs i j" using assms(3) by blast
qed

lemma class_as_filter:
  assumes "distinct cs" "sorted js" "distinct js" "a \<in> set js" "set js = {j. j < length cs \<and> linked cs a j}"
  shows "map (nth cs) js = filter (related cs (cs ! a)) cs"
proof -
  have a: "a < length cs" using assms(4,5) by blast
  have "js = filter (\<lambda>j. related cs (cs ! a) (cs ! j)) [0 ..< length cs]"
    using assms(2,3,5) linked_related[OF assms(1) a]
    by (intro sorted_distinct_set_unique) (auto simp: sorted_wrt_filter)
  then show ?thesis using filter_nth_conv[of cs "related cs (cs ! a)"] by simp
qed

lemma groups_facts:
  assumes "dependency_groups cs = Inr gs"
  shows "distinct (map cb_id cs)" "distinct (concat gs)" "set (concat gs) = set cs"
    "g \<in> set gs \<Longrightarrow> g \<noteq> []" "g \<in> set gs \<Longrightarrow> x \<in> set g \<Longrightarrow> g = filter (related cs x) cs"
proof -
  from assms show ids: "distinct (map cb_id cs)" by (simp add: dependency_groups_def result_simps)
  then have d: "distinct cs" by (simp add: distinct_map)
  from assms have gs: "gs = groups_loop cs [0 ..< length cs]" by (simp add: dependency_groups_def result_simps)
  have "\<exists>jss. groups_loop cs [0 ..< length cs] = map (map (nth cs)) jss \<and> set (concat jss) = set [0 ..< length cs] \<and>
    distinct (concat jss) \<and> (\<forall>js \<in> set jss. js \<noteq> [] \<and> sorted js \<and>
      (\<forall>a \<in> set js. set js = {j. j < length cs \<and> linked cs a j}))"
    by (rule groups_loop_classes) (auto simp: edge_def)
  then obtain jss where jss: "gs = map (map (nth cs)) jss"
    "set (concat jss) = {0 ..< length cs}" "distinct (concat jss)"
    "\<forall>js \<in> set jss. js \<noteq> [] \<and> sorted js \<and> (\<forall>a \<in> set js. set js = {j. j < length cs \<and> linked cs a j})"
    unfolding gs set_upt by blast
  have conc: "concat gs = map (nth cs) (concat jss)" by (simp add: jss(1) map_concat)
  have "inj_on (nth cs) (set (concat jss))" unfolding jss(2) using d by (auto intro: inj_on_nth)
  then show "distinct (concat gs)" unfolding conc using jss(3) by (simp only: distinct_map)
  show "set (concat gs) = set cs" unfolding conc set_map jss(2) by (auto simp: set_conv_nth)
  show "g \<in> set gs \<Longrightarrow> g \<noteq> []" using jss(1,4) by auto
  assume g: "g \<in> set gs" "x \<in> set g"
  then obtain js where js: "js \<in> set jss" "g = map (nth cs) js" by (auto simp: jss(1))
  with g(2) obtain a where a: "a \<in> set js" "x = cs ! a" by auto
  have "distinct js" using jss(3) js(1) by (simp add: distinct_concat_iff)
  then show "g = filter (related cs x) cs"
    using class_as_filter[OF d _ _ a(1)] jss(4) js a by blast
qed

section \<open>The closure is least\<close>

definition closed_under :: "candidate_block list \<Rightarrow> string set \<Rightarrow> bool" where
  "closed_under u C \<longleftrightarrow> (\<forall>x \<in> set u. \<forall>y \<in> set u. cb_id x \<in> C \<and> companions x y \<longrightarrow> cb_id y \<in> C)"

text \<open>The identifiers that companion chains reach from a set of identifiers.\<close>

definition closure_ids :: "candidate_block list \<Rightarrow> string set \<Rightarrow> string set" where
  "closure_ids u S = {cb_id y |x y. x \<in> set u \<and> cb_id x \<in> S \<and> y \<in> set u \<and> related u x y}"

lemma closure_ids_closed: "distinct (map cb_id u) \<Longrightarrow> closed_under u (closure_ids u S)"
  unfolding closed_under_def closure_ids_def
proof clarify
  fix x y a b
  assume u: "distinct (map cb_id u)" "x \<in> set u" "y \<in> set u" "companions x y"
    and ab: "cb_id x = cb_id b" "a \<in> set u" "cb_id a \<in> S" "b \<in> set u" "related u a b"
  have "x = b" using u(1,2) ab(1,4) by (auto simp: distinct_map dest: inj_onD)
  with ab(5) u have "related u a y" unfolding related_def by (auto intro: rtranclp.rtrancl_into_rtrancl)
  with u ab show "\<exists>x' y'. cb_id y = cb_id y' \<and> x' \<in> set u \<and> cb_id x' \<in> S \<and> y' \<in> set u \<and> related u x' y'" by blast
qed

lemma closure_ids_base: "S \<subseteq> cb_id ` set u \<Longrightarrow> S \<subseteq> closure_ids u S"
proof
  fix i assume "S \<subseteq> cb_id ` set u" "i \<in> S"
  then obtain x where "x \<in> set u" "i = cb_id x" by blast
  with \<open>i \<in> S\<close> show "i \<in> closure_ids u S" by (auto simp: closure_ids_def related_def)
qed

lemma closure_ids_least:
  assumes "closed_under u C" "S \<subseteq> C"
  shows "closure_ids u S \<subseteq> C"
proof
  fix i assume "i \<in> closure_ids u S"
  then obtain x y where xy: "i = cb_id y" "cb_id x \<in> S" "related u x y" by (auto simp: closure_ids_def)
  from xy(3) have "cb_id y \<in> C" unfolding related_def
    by (induction rule: rtranclp_induct) (use assms xy(2) in \<open>auto simp: closed_under_def\<close>)
  with xy(1) show "i \<in> C" by simp
qed

lemma closure_ids_finite: "closure_ids u S \<subseteq> cb_id ` set u" "finite (closure_ids u S)"
proof -
  show "closure_ids u S \<subseteq> cb_id ` set u" by (auto simp: closure_ids_def)
  then show "finite (closure_ids u S)" by (rule finite_subset) simp
qed

text \<open>
  What every loop of the closure does, for any closed set \<open>C\<close> around the selection: it stays
  inside \<open>C\<close> and within the bound, and the bound stops it only if \<open>C\<close> is larger.
\<close>

definition bounded_growth :: "int \<Rightarrow> string set \<Rightarrow> string list \<Rightarrow> closure_error + string list \<Rightarrow> bool" where
  "bounded_growth m C sel res = (case res of
     Inl e \<Rightarrow> e = DEPENDENCY_CLOSURE_CAPACITY_EXCEEDED \<and> m < int (card C)
   | Inr sel' \<Rightarrow> distinct sel' \<and> set sel \<subseteq> set sel' \<and> set sel' \<subseteq> C \<and>
       (int (length sel) \<le> m \<longrightarrow> int (length sel') \<le> m))"

lemma bounded_growth_trans:
  assumes "bounded_growth m C sel (Inr sel')" "bounded_growth m C sel' res"
  shows "bounded_growth m C sel res"
  using assms by (auto simp: bounded_growth_def split: sum.splits)

lemma close_right_bounded:
  assumes C: "closed_under u C" "finite C" and left: "left \<in> set u"
  shows "set rs \<subseteq> set u \<Longrightarrow> cb_id left \<in> set sel \<Longrightarrow> distinct sel \<Longrightarrow> set sel \<subseteq> C \<Longrightarrow>
    bounded_growth m C sel (close_right m left rs sel) \<and>
    (\<forall>sel'. close_right m left rs sel = Inr sel' \<longrightarrow> (\<forall>r \<in> set rs. companions left r \<longrightarrow> cb_id r \<in> set sel'))"
proof (induction rs arbitrary: sel)
  case Nil
  then show ?case by (simp add: bounded_growth_def)
next
  case (Cons r rs)
  show ?case
  proof (cases "cb_id r \<in> set sel \<or> \<not> companions left r")
    case True
    have IH: "bounded_growth m C sel (close_right m left rs sel)"
      "\<And>sel'. close_right m left rs sel = Inr sel' \<Longrightarrow> \<forall>r \<in> set rs. companions left r \<longrightarrow> cb_id r \<in> set sel'"
      using Cons by auto
    have "set sel \<subseteq> set sel'" if "close_right m left rs sel = Inr sel'" for sel'
      using IH(1) that by (simp add: bounded_growth_def)
    with True IH show ?thesis by auto
  next
    case False
    have r: "cb_id r \<in> C" using C(1) left Cons.prems False by (auto simp: closed_under_def)
    show ?thesis
    proof (cases "int (length sel) \<ge> m")
      case True
      have "card (insert (cb_id r) (set sel)) \<le> card C" using C(2) r Cons.prems(4) by (intro card_mono) auto
      then have "length sel < card C" using False Cons.prems(3) by (simp add: distinct_card)
      with True False show ?thesis by (auto simp: bounded_growth_def)
    next
      case within: False
      let ?sel = "cb_id r # sel"
      have step: "bounded_growth m C sel (Inr ?sel)"
        using within False r Cons.prems by (auto simp: bounded_growth_def)
      have IH: "bounded_growth m C ?sel (close_right m left rs ?sel)"
        "\<And>sel'. close_right m left rs ?sel = Inr sel' \<Longrightarrow> \<forall>r \<in> set rs. companions left r \<longrightarrow> cb_id r \<in> set sel'"
        using Cons.IH[of ?sel] Cons.prems r False by auto
      have "cb_id r \<in> set sel'" if "close_right m left rs ?sel = Inr sel'" for sel'
        using IH(1) that by (simp add: bounded_growth_def)
      with within False IH bounded_growth_trans[OF step IH(1)] show ?thesis by auto
    qed
  qed
qed

lemma close_pass_bounded:
  assumes C: "closed_under u C" "finite C"
  shows "set ls \<subseteq> set u \<Longrightarrow> cb_id ` set ls \<subseteq> set sel \<Longrightarrow> distinct sel \<Longrightarrow> set sel \<subseteq> C \<Longrightarrow>
    bounded_growth m C sel (close_pass m u ls sel) \<and>
    (\<forall>sel'. close_pass m u ls sel = Inr sel' \<longrightarrow>
       (\<forall>l \<in> set ls. \<forall>r \<in> set u. companions l r \<longrightarrow> cb_id r \<in> set sel'))"
proof (induction ls arbitrary: sel)
  case Nil
  then show ?case by (simp add: bounded_growth_def)
next
  case (Cons l ls)
  have l: "l \<in> set u" "cb_id l \<in> set sel" using Cons.prems by auto
  note right = close_right_bounded[OF C l(1) order_refl l(2) Cons.prems(3,4), of m]
  show ?case
  proof (cases "close_right m l u sel")
    case (Inl e)
    with right show ?thesis by (auto simp: bounded_growth_def)
  next
    case (Inr s1)
    from right Inr have s1: "distinct s1" "set sel \<subseteq> set s1" "set s1 \<subseteq> C" by (auto simp: bounded_growth_def)
    have IH: "bounded_growth m C s1 (close_pass m u ls s1)"
      "\<And>sel'. close_pass m u ls s1 = Inr sel' \<Longrightarrow> \<forall>l \<in> set ls. \<forall>r \<in> set u. companions l r \<longrightarrow> cb_id r \<in> set sel'"
      using Cons.IH[of s1] Cons.prems s1 by auto
    have "set s1 \<subseteq> set sel'" if "close_pass m u ls s1 = Inr sel'" for sel'
      using IH(1) that by (simp add: bounded_growth_def)
    moreover have "\<forall>r \<in> set u. companions l r \<longrightarrow> cb_id r \<in> set s1" using right Inr by blast
    moreover have "bounded_growth m C sel (Inr s1)" using right Inr by simp
    ultimately show ?thesis using Inr IH bounded_growth_trans[of m C sel s1] by (simp, blast)
  qed
qed

lemma close_loop_bounded:
  assumes "closed_under u C" "finite C" "distinct sel" "set sel \<subseteq> C" "set sel \<subseteq> cb_id ` set u"
  shows "bounded_growth m C sel (close_loop m u sel) \<and>
    (\<forall>sel'. close_loop m u sel = Inr sel' \<longrightarrow> closed_under u (set sel'))"
  using assms
proof (induction m u sel rule: close_loop.induct)
  case (1 m u sel)
  let ?act = "filter (\<lambda>c. cb_id c \<in> set sel) u"
  note pass = close_pass_bounded[OF 1(2,3), of ?act sel m]
  have "set ?act \<subseteq> set u" "cb_id ` set ?act \<subseteq> set sel" by auto
  note p = pass[OF this 1(4,5), THEN conjunct1] pass[OF this 1(4,5), THEN conjunct2, rule_format]
  show ?case
  proof (cases "close_pass m u ?act sel")
    case (Inl e)
    then have "close_loop m u sel = Inl e" by (subst close_loop.simps) simp
    with Inl p(1) show ?thesis by (simp add: bounded_growth_def)
  next
    case (Inr s1)
    from p(1) Inr have s1: "distinct s1" "set sel \<subseteq> set s1" "set s1 \<subseteq> C" by (auto simp: bounded_growth_def)
    have u1: "set s1 \<subseteq> cb_id ` set u" using close_pass_adds[OF Inr] 1(6) by (auto simp: adds_def)
    show ?thesis
    proof (cases "length s1 = length sel")
      case True
      then have eq: "s1 = sel" using close_pass_adds[OF Inr] by (auto simp: adds_def)
      then have l: "close_loop m u sel = Inr sel" using Inr by (subst close_loop.simps) simp
      have "closed_under u (set sel)" unfolding closed_under_def
        using p(2)[OF Inr] by (auto simp: eq)
      with p(1) show ?thesis by (simp add: Inr eq l)
    next
      case False
      from 1(1)[OF Inr False 1(2,3) s1(1,3) u1]
      have "bounded_growth m C s1 (close_loop m u s1)" "\<forall>sel'. close_loop m u s1 = Inr sel' \<longrightarrow> closed_under u (set sel')"
        by auto
      moreover have "close_loop m u sel = close_loop m u s1"
        using Inr False by (subst close_loop.simps) simp
      ultimately show ?thesis using bounded_growth_trans[OF p(1)[unfolded Inr]] by simp
    qed
  qed
qed

section \<open>Properties\<close>

text \<open>
  C16. Dependency groups are exactly the connected components of the companion relation: every
  candidate is in exactly one group, each group is, in candidate order, everything that a
  chain of companions links to any of its members, and grouping fails only on a repeated
  block identifier.
\<close>

theorem dependency_groups_components:
  "(distinct (map cb_id cs) \<longrightarrow> (\<exists>gs. dependency_groups cs = Inr gs \<and>
      distinct (concat gs) \<and> set (concat gs) = set cs \<and>
      (\<forall>g \<in> set gs. g \<noteq> [] \<and> (\<forall>x \<in> set g. g = filter (related cs x) cs)))) \<and>
   (\<not> distinct (map cb_id cs) \<longrightarrow> dependency_groups cs = Inl DEPENDENCY_GROUP_DUPLICATE_BLOCK)"
proof (cases "distinct (map cb_id cs)")
  case True
  then obtain gs where gs: "dependency_groups cs = Inr gs" by (simp add: dependency_groups_def)
  from groups_facts[OF gs] gs True show ?thesis by blast
qed (simp add: dependency_groups_def)

lemma closure_is_least:
  assumes m: "max_blocks \<ge> 1" and u: "distinct (map cb_id universe)"
    and sel: "cb_id ` set selected \<subseteq> cb_id ` set universe"
    and C: "C = closure_ids universe (cb_id ` set selected \<union> cb_id ` {c \<in> set universe. cb_required c})"
  shows "close_dependency_closure selected universe max_blocks =
    (if int (card C) \<le> max_blocks then Inr (filter (\<lambda>c. cb_id c \<in> C) universe)
     else Inl DEPENDENCY_CLOSURE_CAPACITY_EXCEEDED)"
proof -
  define ids where "ids = remdups (map cb_id selected @ map cb_id (filter cb_required universe))"
  have ids: "set ids = cb_id ` set selected \<union> cb_id ` {c \<in> set universe. cb_required c}" "distinct ids"
    by (auto simp: ids_def)
  have sub: "set ids \<subseteq> cb_id ` set universe" using sel by (auto simp: ids(1))
  have base: "set ids \<subseteq> C" unfolding C ids(1)[symmetric] by (rule closure_ids_base[OF sub])
  have fin: "finite C" unfolding C by (rule closure_ids_finite(2))
  note loop = close_loop_bounded[OF closure_ids_closed[OF u, of "set ids", unfolded ids(1), folded C] fin ids(2) base sub, of max_blocks]
  have ok: "close_dependency_closure selected universe max_blocks =
      bind (guard (int (length ids) \<le> max_blocks) DEPENDENCY_CLOSURE_CAPACITY_EXCEEDED) (\<lambda>_.
      bind (close_loop max_blocks universe ids) (\<lambda>ids. Inr (filter (\<lambda>c. cb_id c \<in> set ids) universe)))"
    using m u sel unfolding close_dependency_closure_def ids_def by (simp add: image_subset_iff)
  have len: "int (length ids) \<le> int (card C)"
    using card_mono[OF fin base] ids(2) by (simp add: distinct_card)
  show ?thesis
  proof (cases "close_loop max_blocks universe ids")
    case (Inl e)
    with loop have "e = DEPENDENCY_CLOSURE_CAPACITY_EXCEEDED" "\<not> int (card C) \<le> max_blocks"
      by (simp_all add: bounded_growth_def)
    with Inl ok show ?thesis by (simp add: guard_def)
  next
    case (Inr s)
    with loop have s: "distinct s" "set ids \<subseteq> set s" "set s \<subseteq> C" "closed_under universe (set s)"
      "int (length ids) \<le> max_blocks \<longrightarrow> int (length s) \<le> max_blocks" by (auto simp: bounded_growth_def)
    have "C \<subseteq> set s" unfolding C using closure_ids_least[OF s(4)] s(2) ids(1) by simp
    with s(3) have "set s = C" by blast
    moreover from this s(1) have "int (length s) = int (card C)" by (metis distinct_card)
    ultimately show ?thesis using Inr ok s(5) len by (auto simp: guard_def)
  qed
qed

text \<open>
  C17. The bounded closure computes the least closed set. On a universe without repeated
  identifiers that contains the selection, the result is, in universe order, exactly the
  blocks that companion chains reach from the selected and required blocks; the capacity
  error is raised if and only if that set is larger than the bound. No other outcome exists.
\<close>

theorem close_dependency_closure_least:
  assumes m: "max_blocks \<ge> 1" and u: "distinct (map cb_id universe)"
    and sel: "cb_id ` set selected \<subseteq> cb_id ` set universe"
    and C: "C = closure_ids universe (cb_id ` set selected \<union> cb_id ` {c \<in> set universe. cb_required c})"
  shows "close_dependency_closure selected universe max_blocks =
    (if int (card C) \<le> max_blocks then Inr (filter (\<lambda>c. cb_id c \<in> C) universe)
     else Inl DEPENDENCY_CLOSURE_CAPACITY_EXCEEDED)"
  using assms by (rule closure_is_least)

text \<open>A closure that was computed holds the selection and the required blocks and is closed.\<close>

lemma close_dependency_closure_eq_Inr:
  assumes "close_dependency_closure selected universe max_blocks = Inr out"
  shows "distinct (map cb_id universe)" "cb_id ` set selected \<subseteq> cb_id ` set out" "set out \<subseteq> set universe"
    "{c \<in> set universe. cb_required c} \<subseteq> set out" "closed_under universe (cb_id ` set out)"
proof -
  let ?S = "cb_id ` set selected \<union> cb_id ` {c \<in> set universe. cb_required c}"
  from assms have m: "max_blocks \<ge> 1" and u: "distinct (map cb_id universe)" and s: "cb_id ` set selected \<subseteq> cb_id ` set universe"
    by (auto simp: close_dependency_closure_def result_simps)
  have out: "out = filter (\<lambda>c. cb_id c \<in> closure_ids universe ?S) universe"
    using assms closure_is_least[OF m u s refl] by (auto split: if_splits)
  have base: "?S \<subseteq> closure_ids universe ?S" by (rule closure_ids_base) (use s in auto)
  have sub: "closure_ids universe ?S \<subseteq> cb_id ` set universe" by (auto simp: closure_ids_def)
  have ids: "cb_id ` set out = closure_ids universe ?S" using sub by (auto simp: out)
  show "distinct (map cb_id universe)" by fact
  show "cb_id ` set selected \<subseteq> cb_id ` set out" using base unfolding ids by blast
  show "set out \<subseteq> set universe" by (auto simp: out)
  show "{c \<in> set universe. cb_required c} \<subseteq> set out" using base by (auto simp: out)
  show "closed_under universe (cb_id ` set out)" unfolding ids by (rule closure_ids_closed[OF u])
qed

end
