(* ===== verification/Budget.thy ===== *)
theory Budget
  imports Closure_Laws Repo_Read "HOL-Library.Product_Lexorder"
begin

text \<open>
  \<^verbatim>\<open>runtime/budget.py\<close>: the deterministic assembly of one projection within the request budget.
  The token counter is an argument: a function from texts to what the call does (count, raise,
  or return something that is not a non-negative integer).
\<close>

section \<open>Counter, configuration, results\<close>

datatype count_outcome = Counted int | Count_Not_Int | Count_Raises | Count_Raises_Tokenizer

type_synonym token_counter = "string \<Rightarrow> count_outcome"

datatype budget_error =
  OPAQUE_TOKEN_COST_INVALID | FIXED_REQUIRED_COST_INVALID | TOKEN_COUNTER_INVALID
| TOKEN_COUNTER_FAILURE | REQUIRED_INPUT_EXCEEDS_BUDGET | INTERNAL_BUDGET_INVARIANT
| TokenizerError | GroupingError closure_error

datatype assembly_mode = NORMAL | EMERGENCY_ASSEMBLY

record budget_config =
  target_input_budget :: int
  hard_input_ceiling :: int
  model_context_limit :: int
  reserved_output_and_tools :: int
  safety_margin :: int

definition valid_budget_config :: "budget_config \<Rightarrow> bool" where
  "valid_budget_config c \<longleftrightarrow> target_input_budget c \<ge> 1 \<and> hard_input_ceiling c \<ge> 1 \<and>
     model_context_limit c \<ge> 1 \<and> reserved_output_and_tools c \<ge> 0 \<and> safety_margin c \<ge> 0 \<and>
     reserved_output_and_tools c \<le> model_context_limit c"

text \<open>\<^verbatim>\<open>BlockSelection\<close> and \<^verbatim>\<open>BlockRejection\<close> have the same fields.\<close>

record block_trace =
  bt_id :: string
  bt_slot :: runtime_slot
  bt_sources :: "string list"
  bt_cost :: int
  bt_score :: rat
  bt_reason :: string

record assembly_trace =
  at_mode :: assembly_mode
  at_snapshot_id :: "string option"
  at_pointer_version :: int
  at_covered_event_end :: int
  at_high_water_mark :: int
  at_b_input :: int
  at_current_input_cost :: int
  at_fixed_required_cost :: int
  at_safety_margin :: int
  at_b_required :: int
  at_opaque_token_cost :: int
  at_b_ac :: int
  at_ac_selected_cost :: int
  at_projection_overhead_cost :: int
  at_total_input_cost :: int
  at_slot_token_costs :: "(runtime_slot \<times> int) list"
  at_selections :: "block_trace list"
  at_rejections :: "block_trace list"

record assembly_result =
  ar_projected_text :: string
  ar_selected_blocks :: "candidate_block list"
  ar_trace :: assembly_trace

definition count_text :: "token_counter \<Rightarrow> string \<Rightarrow> budget_error + int" where
  "count_text counter text =
     (case counter text of
        Count_Raises_Tokenizer \<Rightarrow> Inl TokenizerError
      | Count_Raises \<Rightarrow> Inl TOKEN_COUNTER_FAILURE
      | Count_Not_Int \<Rightarrow> Inl TOKEN_COUNTER_INVALID
      | Counted n \<Rightarrow> if n < 0 then Inl TOKEN_COUNTER_INVALID else Inr n)"

definition utf8_byte_counter :: token_counter where
  "utf8_byte_counter text = Counted (int (utf8_length text))"

section \<open>Order and deduplication\<close>

definition SEPARATOR :: string where
  "SEPARATOR = [CHR 0x0A, CHR 0x0A]"

fun slot_rank :: "runtime_slot \<Rightarrow> nat" where
  "slot_rank ACTIVE_GOAL = 0"
| "slot_rank HARD_CONSTRAINT = 1"
| "slot_rank RAW_DELTA = 2"
| "slot_rank EXACT_ANCHOR_SLOT = 3"
| "slot_rank RECENT_RAW = 4"
| "slot_rank ACTIVE_TASK = 5"
| "slot_rank RELEVANT_EVIDENCE = 6"
| "slot_rank EPISODE_BACKGROUND_SLOT = 7"
| "slot_rank GLOBAL_BACKGROUND_SLOT = 8"

fun kind_value :: "candidate_kind \<Rightarrow> string" where
  "kind_value GOAL = ''goal''"
| "kind_value CONSTRAINT = ''constraint''"
| "kind_value RAW_EVENT = ''raw_event''"
| "kind_value EXACT_ANCHOR = ''exact_anchor''"
| "kind_value TASK_CONTEXT = ''task_context''"
| "kind_value DECISION = ''decision''"
| "kind_value ENTITY = ''entity''"
| "kind_value DEPENDENCY = ''dependency''"
| "kind_value EPISODE_BACKGROUND = ''episode_background''"
| "kind_value GLOBAL_BACKGROUND = ''global_background''"

definition raw_slot :: "runtime_slot \<Rightarrow> bool" where
  "raw_slot s \<longleftrightarrow> s = RAW_DELTA \<or> s = RECENT_RAW"

definition candidate_sort_key ::
  "candidate_block \<Rightarrow> nat \<times> int \<times> rat \<times> string \<times> string \<times> string \<times> string list \<times> string \<times> bool \<times> string" where
  "candidate_sort_key c =
     (slot_rank (cb_slot c),
      (if raw_slot (cb_slot c) then (case cb_sequence c of None \<Rightarrow> 0 | Some n \<Rightarrow> n) else 0),
      (if raw_slot (cb_slot c) then 0 else - cb_score c),
      cb_id c, kind_value (cb_kind c), cb_text c, cb_sources c, cb_reason c, cb_required c,
      (case cb_capsule c of None \<Rightarrow> [] | Some i \<Rightarrow> i))"

definition ordered :: "candidate_block list \<Rightarrow> candidate_block list" where
  "ordered cs = sort_key candidate_sort_key cs"

fun dedup_loop ::
  "candidate_block list \<Rightarrow> string list \<Rightarrow> candidate_block list \<times> candidate_block list" where
  "dedup_loop [] seen = ([], [])"
| "dedup_loop (c # cs) seen =
     (if cb_id c \<in> set seen
      then (let (unique, dups) = dedup_loop cs seen in (unique, c # dups))
      else (let (unique, dups) = dedup_loop cs (cb_id c # seen) in (c # unique, dups)))"

definition deduplicate :: "candidate_block list \<Rightarrow> candidate_block list \<times> candidate_block list" where
  "deduplicate cs = dedup_loop (ordered cs) []"

definition canonical_candidates :: "candidate_block list \<Rightarrow> candidate_block list" where
  "canonical_candidates cs = fst (deduplicate cs)"

definition projection_text :: "candidate_block list \<Rightarrow> string" where
  "projection_text cs =
     (case cs of [] \<Rightarrow> [] | c # rest \<Rightarrow> cb_text c @ concat (map (\<lambda>d. SEPARATOR @ cb_text d) rest))"

section \<open>Costs\<close>

fun count_blocks ::
  "candidate_block list \<Rightarrow> token_counter \<Rightarrow> (string \<times> int) list \<Rightarrow> budget_error + (string \<times> int) list" where
  "count_blocks [] counter counts = Inr counts"
| "count_blocks (c # cs) counter counts =
     bind (guard (cb_id c \<notin> fst ` set counts) INTERNAL_BUDGET_INVARIANT) (\<lambda>_.
     bind (count_text counter (cb_text c)) (\<lambda>n.
     count_blocks cs counter (counts @ [(cb_id c, n)])))"

definition count_candidate_blocks ::
  "candidate_block list \<Rightarrow> token_counter \<Rightarrow> budget_error + (string \<times> int) list" where
  "count_candidate_blocks cs counter = count_blocks cs counter []"

definition non_negative_cost :: "int \<Rightarrow> budget_error \<Rightarrow> budget_error + int" where
  "non_negative_cost n e = (if n < 0 then Inl e else Inr n)"

definition provided_count ::
  "(string \<times> int) list \<Rightarrow> candidate_block \<Rightarrow> budget_error + string \<times> int" where
  "provided_count provided c =
     (case map_of provided (cb_id c) of
        None \<Rightarrow> Inl TOKEN_COUNTER_INVALID
      | Some n \<Rightarrow> bind (non_negative_cost n TOKEN_COUNTER_INVALID) (\<lambda>m. Inr (cb_id c, m)))"

definition validated_block_token_counts ::
  "candidate_block list \<Rightarrow> token_counter \<Rightarrow> (string \<times> int) list option
   \<Rightarrow> budget_error + (string \<times> int) list" where
  "validated_block_token_counts cs counter provided =
     (case provided of
        None \<Rightarrow> count_candidate_blocks cs counter
      | Some p \<Rightarrow> traverse (provided_count p) cs)"

definition block_cost :: "(string \<times> int) list \<Rightarrow> candidate_block \<Rightarrow> int" where
  "block_cost counts c = the (map_of counts (cb_id c))"

definition rejection :: "(string \<times> int) list \<Rightarrow> string \<Rightarrow> candidate_block \<Rightarrow> block_trace" where
  "rejection counts reason c =
     \<lparr>bt_id = cb_id c, bt_slot = cb_slot c, bt_sources = cb_sources c, bt_cost = block_cost counts c,
      bt_score = cb_score c, bt_reason = reason\<rparr>"

section \<open>Selection\<close>

text \<open>The local variables that the selection loops share.\<close>

record selection_state =
  ss_selected :: "string list"
  ss_cost :: int
  ss_count :: int
  ss_rejected :: "block_trace list"
  ss_handled :: "string list"
  ss_missing :: bool

definition selection_init :: selection_state where
  "selection_init = \<lparr>ss_selected = [], ss_cost = 0, ss_count = 0, ss_rejected = [], ss_handled = [],
     ss_missing = False\<rparr>"

text \<open>\<^verbatim>\<open>group_by_id.get(candidate.block_id, (candidate,))\<close>\<close>

definition group_of :: "candidate_block list list \<Rightarrow> candidate_block \<Rightarrow> candidate_block list" where
  "group_of groups c =
     (case find (\<lambda>g. \<exists>x \<in> set g. cb_id x = cb_id c) groups of None \<Rightarrow> [c] | Some g \<Rightarrow> g)"

definition group_cost :: "(string \<times> int) list \<Rightarrow> int \<Rightarrow> candidate_block list \<Rightarrow> selection_state \<Rightarrow> int" where
  "group_cost counts sep g s =
     sum_list (map (block_cost counts) g) + sep * (int (length g) - 1) + (if ss_count s \<noteq> 0 then sep else 0)"

text \<open>Take a whole group if it fits, or reject all of it with the given reason.\<close>

definition try_group ::
  "(string \<times> int) list \<Rightarrow> int \<Rightarrow> int \<Rightarrow> string \<Rightarrow> candidate_block list \<Rightarrow> selection_state \<Rightarrow> selection_state" where
  "try_group counts sep b_ac reason g s =
     (let cost = group_cost counts sep g s in
      if ss_cost s + cost \<le> b_ac
      then s\<lparr>ss_selected := map cb_id g @ ss_selected s, ss_cost := ss_cost s + cost,
             ss_count := ss_count s + int (length g)\<rparr>
      else s\<lparr>ss_rejected := ss_rejected s @ map (rejection counts reason) g,
             ss_missing := ss_missing s \<or> (\<exists>c \<in> set g. cb_required c)\<rparr>)"

definition handle :: "candidate_block list \<Rightarrow> selection_state \<Rightarrow> selection_state" where
  "handle g s = s\<lparr>ss_handled := map cb_id g @ ss_handled s\<rparr>"

fun normal_loop ::
  "candidate_block list list \<Rightarrow> (string \<times> int) list \<Rightarrow> int \<Rightarrow> int \<Rightarrow> candidate_block list \<Rightarrow> selection_state
   \<Rightarrow> selection_state" where
  "normal_loop groups counts sep b_ac [] s = s"
| "normal_loop groups counts sep b_ac (c # cs) s =
     normal_loop groups counts sep b_ac cs
       (if cb_id c \<in> set (ss_handled s) then s
        else (let g = group_of groups c in try_group counts sep b_ac ''INSUFFICIENT_AC_BUDGET'' g (handle g s)))"

definition lift_groups :: "closure_error + 'a \<Rightarrow> budget_error + 'a" where
  "lift_groups r = (case r of Inl e \<Rightarrow> Inl (GroupingError e) | Inr x \<Rightarrow> Inr x)"

definition chosen :: "candidate_block list \<Rightarrow> selection_state \<Rightarrow> candidate_block list" where
  "chosen cs s = filter (\<lambda>c. cb_id c \<in> set (ss_selected s)) cs"

definition normal_selection ::
  "candidate_block list \<Rightarrow> (string \<times> int) list \<Rightarrow> int \<Rightarrow> int
   \<Rightarrow> budget_error + candidate_block list \<times> block_trace list \<times> bool" where
  "normal_selection cs counts sep b_ac =
     bind (lift_groups (dependency_groups cs)) (\<lambda>groups.
     let s = normal_loop groups counts sep b_ac cs selection_init in
     Inr (chosen cs s, ss_rejected s, ss_missing s))"

fun tail_back :: "candidate_block list \<Rightarrow> candidate_block list" where
  "tail_back [] = []"
| "tail_back [x] = [x]"
| "tail_back (x # y # ys) =
     x # (if the (cb_sequence y) + int (length (cb_sources y)) = the (cb_sequence x)
          then tail_back (y # ys) else [])"

definition contiguous_raw_tail :: "candidate_block list \<Rightarrow> candidate_block list" where
  "contiguous_raw_tail cs = rev (tail_back (rev (filter (\<lambda>c. cb_sequence c \<noteq> None) cs)))"

definition estimated_cost :: "(string \<times> int) list \<Rightarrow> int \<Rightarrow> candidate_block list \<Rightarrow> int" where
  "estimated_cost counts sep cs =
     sum_list (map (block_cost counts) cs) + (if cs = [] then 0 else sep * (int (length cs) - 1))"

text \<open>
  The source keeps suffix sums in two arrays; here the cost of each suffix is summed anew.
\<close>

fun longest_raw_suffix ::
  "candidate_block list \<Rightarrow> candidate_block list \<Rightarrow> (string \<times> int) list \<Rightarrow> int \<Rightarrow> int \<Rightarrow> candidate_block list" where
  "longest_raw_suffix critical [] counts sep b_ac = []"
| "longest_raw_suffix critical (c # tail) counts sep b_ac =
     (if estimated_cost counts sep (critical @ c # tail) \<le> b_ac then c # tail
      else longest_raw_suffix critical tail counts sep b_ac)"

fun atomic_groups ::
  "candidate_block list list \<Rightarrow> candidate_block list \<Rightarrow> string list \<Rightarrow> candidate_block list list" where
  "atomic_groups groups [] seen = []"
| "atomic_groups groups (c # cs) seen =
     (let g = group_of groups c in
      if length g = 1 \<or> cb_id c \<in> set seen then atomic_groups groups cs seen
      else g # atomic_groups groups cs (map cb_id g @ seen))"

text \<open>An all-optional group is omitted, any other is tried.\<close>

definition emergency_group ::
  "(string \<times> int) list \<Rightarrow> int \<Rightarrow> int \<Rightarrow> candidate_block list \<Rightarrow> selection_state \<Rightarrow> selection_state" where
  "emergency_group counts sep b_ac g s0 =
     (let s = handle g s0 in
      if \<not> (\<exists>c \<in> set g. cb_required c)
      then s\<lparr>ss_rejected := ss_rejected s @ map (rejection counts ''EMERGENCY_OPTIONAL_OMITTED'') g\<rparr>
      else try_group counts sep b_ac ''EMERGENCY_REQUIRED_NOT_FIT'' g s)"

definition take_raw :: "(string \<times> int) list \<Rightarrow> int \<Rightarrow> selection_state \<Rightarrow> candidate_block \<Rightarrow> selection_state" where
  "take_raw counts sep s c =
     s\<lparr>ss_cost := ss_cost s + (if ss_count s \<noteq> 0 then sep else 0) + block_cost counts c,
       ss_count := ss_count s + 1, ss_selected := cb_id c # ss_selected s\<rparr>"

definition emergency_raw ::
  "candidate_block list \<Rightarrow> candidate_block list list \<Rightarrow> (string \<times> int) list \<Rightarrow> int \<Rightarrow> int \<Rightarrow> candidate_block list
   \<Rightarrow> selection_state \<Rightarrow> selection_state" where
  "emergency_raw cs groups counts sep b_ac slot_candidates s0 =
     (let s1 = fold (emergency_group counts sep b_ac) (atomic_groups groups slot_candidates []) s0;
          left = filter (\<lambda>c. cb_id c \<notin> set (ss_handled s1)) slot_candidates;
          raw = longest_raw_suffix (chosen cs s1) (contiguous_raw_tail left) counts sep b_ac;
          s2 = foldl (take_raw counts sep) s1 raw;
          s3 = handle left s2
      in s3\<lparr>ss_rejected := ss_rejected s3 @ map (rejection counts ''EMERGENCY_RAW_PREFIX_OMITTED'')
             (filter (\<lambda>c. cb_id c \<notin> cb_id ` set raw) left)\<rparr>)"

fun emergency_plain ::
  "candidate_block list list \<Rightarrow> (string \<times> int) list \<Rightarrow> int \<Rightarrow> int \<Rightarrow> candidate_block list \<Rightarrow> selection_state
   \<Rightarrow> selection_state" where
  "emergency_plain groups counts sep b_ac [] s = s"
| "emergency_plain groups counts sep b_ac (c # cs) s =
     emergency_plain groups counts sep b_ac cs
       (if cb_id c \<in> set (ss_handled s) then s
        else emergency_group counts sep b_ac (group_of groups c) s)"

definition emergency_slot ::
  "candidate_block list \<Rightarrow> candidate_block list list \<Rightarrow> (string \<times> int) list \<Rightarrow> int \<Rightarrow> int \<Rightarrow> runtime_slot
   \<Rightarrow> selection_state \<Rightarrow> selection_state" where
  "emergency_slot cs groups counts sep b_ac slot s =
     (let slot_candidates = filter (\<lambda>c. cb_slot c = slot \<and> cb_id c \<notin> set (ss_handled s)) cs in
      if raw_slot slot then emergency_raw cs groups counts sep b_ac slot_candidates s
      else emergency_plain groups counts sep b_ac slot_candidates s)"

definition emergency_selection ::
  "candidate_block list \<Rightarrow> (string \<times> int) list \<Rightarrow> int \<Rightarrow> int
   \<Rightarrow> budget_error + candidate_block list \<times> block_trace list" where
  "emergency_selection cs counts sep b_ac =
     bind (lift_groups (dependency_groups cs)) (\<lambda>groups.
     let s = fold (emergency_slot cs groups counts sep b_ac) RUNTIME_SLOT_PRIORITY selection_init in
     Inr (chosen cs s, ss_rejected s))"

section \<open>Exact fit\<close>

definition position_of :: "candidate_block list \<Rightarrow> candidate_block \<Rightarrow> nat" where
  "position_of selected c = length (takeWhile (\<lambda>x. cb_id x \<noteq> cb_id c) selected)"

definition group_key :: "candidate_block list \<Rightarrow> candidate_block list \<Rightarrow> nat \<times> string list" where
  "group_key selected g = (Min (set (map (position_of selected) g)), map cb_id g)"

text \<open>\<^verbatim>\<open>max(groups, key=..)\<close>: the first group with the greatest key.\<close>

fun max_by :: "('a \<Rightarrow> 'k::linorder) \<Rightarrow> 'a \<Rightarrow> 'a list \<Rightarrow> 'a" where
  "max_by key best [] = best"
| "max_by key best (x # xs) = max_by key (if key best < key x then x else best) xs"

definition lowest_priority_optional_group ::
  "candidate_block list \<Rightarrow> budget_error + candidate_block list option" where
  "lowest_priority_optional_group selected =
     bind (lift_groups (removable_dependency_groups selected)) (\<lambda>groups.
     Inr (case groups of [] \<Rightarrow> None | g # gs \<Rightarrow> Some (max_by (group_key selected) g gs)))"

lemma max_by_in: "max_by key best xs \<in> insert best (set xs)"
  by (induction xs arbitrary: best) auto

lemma lift_groups_eq_Inr [result_simps]: "lift_groups r = Inr x \<longleftrightarrow> r = Inr x"
  by (auto simp: lift_groups_def split: sum.splits)

lemma lowest_group_facts:
  assumes "lowest_priority_optional_group selected = Inr (Some g)"
  shows "g \<noteq> []" "set g \<subseteq> set selected" "\<not> (\<exists>c \<in> set g. cb_required c)"
    "\<exists>x. g = filter (related selected x) selected \<and> x \<in> set g"
proof -
  from assms obtain gs y ys where gs: "dependency_groups selected = Inr gs"
    and f: "filter (\<lambda>g. \<not> (\<exists>c \<in> set g. cb_required c)) gs = y # ys" "g = max_by (group_key selected) y ys"
  proof -
    from assms obtain rs where rs: "removable_dependency_groups selected = Inr rs"
      "(case rs of [] \<Rightarrow> None | g # gs \<Rightarrow> Some (max_by (group_key selected) g gs)) = Some g"
      by (auto simp: lowest_priority_optional_group_def result_simps)
    then obtain y ys where "rs = y # ys" "g = max_by (group_key selected) y ys" by (cases rs) auto
    with rs(1) that show thesis by (auto simp: removable_dependency_groups_def result_simps)
  qed
  have "g \<in> set (y # ys)" using max_by_in[of "group_key selected" y ys] f(2) by simp
  then have g: "g \<in> set gs" "\<not> (\<exists>c \<in> set g. cb_required c)" unfolding f(1)[symmetric] by auto
  from g show "\<not> (\<exists>c \<in> set g. cb_required c)" by simp
  show ne: "g \<noteq> []" by (rule groups_facts(4)[OF gs g(1)])
  then obtain x where "x \<in> set g" by (cases g) auto
  with groups_facts(5)[OF gs g(1)] show "\<exists>x. g = filter (related selected x) selected \<and> x \<in> set g" by blast
  then show "set g \<subseteq> set selected" by auto
qed

lemma lowest_group_shrinks:
  assumes "lowest_priority_optional_group selected = Inr (Some g)"
  shows "length (filter (\<lambda>c. cb_id c \<notin> cb_id ` set g) selected) < length selected"
proof -
  from lowest_group_facts[OF assms] obtain x where "x \<in> set g" "x \<in> set selected" by (cases g) auto
  then show ?thesis by (intro length_filter_less) auto
qed

function exact_final_selection ::
  "candidate_block list \<Rightarrow> token_counter \<Rightarrow> (string \<times> int) list \<Rightarrow> int \<Rightarrow> block_trace list
   \<Rightarrow> budget_error + candidate_block list \<times> string \<times> int \<times> block_trace list" where
  "exact_final_selection selected counter counts b_ac removed =
     (case count_text counter (projection_text selected) of
        Inl e \<Rightarrow> Inl e
      | Inr exact_cost \<Rightarrow>
          if exact_cost \<le> b_ac then Inr (selected, projection_text selected, exact_cost, removed)
          else (case lowest_priority_optional_group selected of
                  Inl e \<Rightarrow> Inl e
                | Inr None \<Rightarrow> Inl REQUIRED_INPUT_EXCEEDS_BUDGET
                | Inr (Some g) \<Rightarrow>
                    exact_final_selection (filter (\<lambda>c. cb_id c \<notin> cb_id ` set g) selected) counter counts b_ac
                      (removed @ map (rejection counts ''EXACT_BUDGET_COMPONENT_REMOVED'') g)))"
  by pat_completeness auto
termination
  by (relation "measure (\<lambda>(selected, _). length selected)") (auto dest: lowest_group_shrinks)

declare exact_final_selection.simps [simp del]

section \<open>Assembly\<close>

definition rejection_sort_key :: "block_trace \<Rightarrow> nat \<times> string \<times> string \<times> rat" where
  "rejection_sort_key r = (slot_rank (bt_slot r), bt_id r, bt_reason r, - bt_score r)"

definition slot_costs :: "block_trace list \<Rightarrow> (runtime_slot \<times> int) list" where
  "slot_costs selections =
     filter (\<lambda>(s, n). n \<noteq> 0) (map (\<lambda>s. (s, sum_list (map bt_cost (filter (\<lambda>t. bt_slot t = s) selections))))
       RUNTIME_SLOT_PRIORITY)"

definition b_input_of :: "budget_config \<Rightarrow> int" where
  "b_input_of cfg = min (target_input_budget cfg)
     (min (hard_input_ceiling cfg) (model_context_limit cfg - reserved_output_and_tools cfg))"

definition trace ::
  "request_view \<Rightarrow> candidate_block list \<Rightarrow> block_trace list \<Rightarrow> assembly_mode \<Rightarrow> (string \<times> int) list \<Rightarrow> int
   \<Rightarrow> int \<Rightarrow> int \<Rightarrow> int \<Rightarrow> int \<Rightarrow> int \<Rightarrow> int \<Rightarrow> int \<Rightarrow> budget_error + assembly_trace" where
  "trace view selected rejections mode counts exact b_input current fixed margin b_required opaque b_ac =
     (let reason = (if mode = NORMAL then ''SELECTED_NORMAL'' else ''SELECTED_EMERGENCY'');
          selections = map (rejection counts reason) selected;
          total = opaque + b_required + exact
      in bind (guard (total \<le> b_input) INTERNAL_BUDGET_INVARIANT) (\<lambda>_.
         Inr \<lparr>at_mode = mode, at_snapshot_id = map_option snap_id (rv_snapshot view),
              at_pointer_version = rv_pointer_version view, at_covered_event_end = rv_covered_event_end view,
              at_high_water_mark = rv_high_water_mark view, at_b_input = b_input,
              at_current_input_cost = current, at_fixed_required_cost = fixed, at_safety_margin = margin,
              at_b_required = b_required, at_opaque_token_cost = opaque, at_b_ac = b_ac,
              at_ac_selected_cost = exact,
              at_projection_overhead_cost = exact - sum_list (map bt_cost selections),
              at_total_input_cost = total, at_slot_token_costs = slot_costs selections,
              at_selections = selections, at_rejections = sort_key rejection_sort_key rejections\<rparr>))"

definition duplicate_rejection :: "token_counter \<Rightarrow> candidate_block \<Rightarrow> budget_error + block_trace" where
  "duplicate_rejection counter c =
     bind (count_text counter (cb_text c)) (\<lambda>n.
     Inr \<lparr>bt_id = cb_id c, bt_slot = cb_slot c, bt_sources = cb_sources c, bt_cost = n,
          bt_score = cb_score c, bt_reason = ''DUPLICATE_BLOCK_ID''\<rparr>)"

text \<open>The choice of mode and the check that no required block is left out.\<close>

definition select_blocks ::
  "candidate_block list \<Rightarrow> (string \<times> int) list \<Rightarrow> int \<Rightarrow> int
   \<Rightarrow> budget_error + assembly_mode \<times> candidate_block list \<times> block_trace list" where
  "select_blocks unique counts sep b_ac =
     bind (normal_selection unique counts sep b_ac) (\<lambda>(normal, normal_rejections, required_missing).
     bind (if required_missing
           then bind (emergency_selection unique counts sep b_ac) (\<lambda>(sel, rej). Inr (EMERGENCY_ASSEMBLY, sel, rej))
           else Inr (NORMAL, normal, normal_rejections)) (\<lambda>(mode, selected, rejections).
     bind (guard (\<forall>c \<in> set unique. cb_required c \<longrightarrow> cb_id c \<in> cb_id ` set selected)
       REQUIRED_INPUT_EXCEEDS_BUDGET) (\<lambda>_.
     Inr (mode, selected, rejections))))"

definition assemble ::
  "request_view \<Rightarrow> candidate_block list \<Rightarrow> string \<Rightarrow> int \<Rightarrow> int \<Rightarrow> token_counter \<Rightarrow> budget_config
   \<Rightarrow> (string \<times> int) list option \<Rightarrow> budget_error + assembly_result" where
  "assemble view candidates current_input opaque_token_cost fixed_required_cost counter cfg provided =
     bind (non_negative_cost opaque_token_cost OPAQUE_TOKEN_COST_INVALID) (\<lambda>opaque.
     bind (non_negative_cost fixed_required_cost FIXED_REQUIRED_COST_INVALID) (\<lambda>fixed.
     bind (count_text counter current_input) (\<lambda>current.
     let b_input = b_input_of cfg;
         b_required = current + fixed + safety_margin cfg;
         b_ac = max 0 (b_input - opaque - b_required);
         (unique, duplicates) = deduplicate candidates in
     bind (guard (opaque + b_required \<le> b_input) REQUIRED_INPUT_EXCEEDS_BUDGET) (\<lambda>_.
     bind (validated_block_token_counts unique counter provided) (\<lambda>counts.
     bind (count_text counter SEPARATOR) (\<lambda>sep.
     bind (traverse (duplicate_rejection counter) duplicates) (\<lambda>dup_rejections.
     bind (select_blocks unique counts sep b_ac) (\<lambda>(mode, selected0, rejections).
     bind (exact_final_selection selected0 counter counts b_ac []) (\<lambda>(selected, text, exact, removed).
     bind (trace view selected (dup_rejections @ rejections @ removed) mode counts exact b_input current
             fixed (safety_margin cfg) b_required opaque b_ac) (\<lambda>t.
     Inr \<lparr>ar_projected_text = text, ar_selected_blocks = selected, ar_trace = t\<rparr>))))))))))"

end
