(* ===== verification/Budget_Laws.thy ===== *)
theory Budget_Laws
  imports Budget
begin

text \<open>
  Properties of the budget assembly: the result fits the budget, keeps every required block,
  never splits a dependency group, and no internal budget failure can occur.
\<close>

section \<open>Deduplication\<close>

lemma dedup_loop_facts:
  assumes "dedup_loop cs seen = (unique, dups)"
  shows "distinct (map cb_id unique)" "cb_id ` set unique \<inter> set seen = {}"
    "cb_id ` set unique \<union> set seen = cb_id ` set cs \<union> set seen" "set unique \<subseteq> set cs"
proof -
  have "distinct (map cb_id unique) \<and> cb_id ` set unique \<inter> set seen = {} \<and>
    cb_id ` set unique \<union> set seen = cb_id ` set cs \<union> set seen \<and> set unique \<subseteq> set cs"
    using assms
  proof (induction cs arbitrary: seen unique dups)
    case (Cons c cs)
    show ?case
    proof (cases "cb_id c \<in> set seen")
      case True
      then obtain d where "dedup_loop cs seen = (unique, d)" using Cons.prems by (auto split: prod.splits)
      from Cons.IH[OF this] True show ?thesis by auto
    next
      case False
      then obtain u where "dedup_loop cs (cb_id c # seen) = (u, dups)" "unique = c # u"
        using Cons.prems by (auto split: prod.splits)
      with Cons.IH[OF this(1)] False show ?thesis by auto
    qed
  qed simp
  then show "distinct (map cb_id unique)" "cb_id ` set unique \<inter> set seen = {}"
    "cb_id ` set unique \<union> set seen = cb_id ` set cs \<union> set seen" "set unique \<subseteq> set cs" by auto
qed

lemma deduplicate_facts:
  assumes "deduplicate cs = (unique, dups)"
  shows "distinct (map cb_id unique)" "cb_id ` set unique = cb_id ` set cs" "set unique \<subseteq> set cs"
  using dedup_loop_facts[OF assms[unfolded deduplicate_def]] by (auto simp: ordered_def)

section \<open>Groups stay whole\<close>

text \<open>A set of identifiers that companions cannot leave.\<close>

lemma group_of_class:
  assumes "dependency_groups cs = Inr groups" "c \<in> set cs"
  shows "group_of groups c = filter (related cs c) cs"
proof -
  note gf = groups_facts[OF assms(1)]
  from assms(2) gf(3) have "c \<in> set (concat groups)" by simp
  then obtain g where g: "g \<in> set groups" "c \<in> set g" by auto
  then have "find (\<lambda>g. \<exists>x \<in> set g. cb_id x = cb_id c) groups \<noteq> None" by (auto simp: find_None_iff)
  then obtain h where h: "find (\<lambda>g. \<exists>x \<in> set g. cb_id x = cb_id c) groups = Some h" by auto
  then obtain x where x: "h \<in> set groups" "x \<in> set h" "cb_id x = cb_id c"
    by (auto simp: find_Some_iff)
  have "x \<in> set cs" using x(1,2) gf(3) by auto
  then have "x = c" using gf(1) assms(2) x(3) by (auto simp: distinct_map dest: inj_onD)
  with gf(5)[OF x(1,2)] h show ?thesis by (simp add: group_of_def)
qed

lemma related_sym: "related cs x y \<Longrightarrow> related cs y x"
  unfolding related_def
  by (rule sympD[OF symp_rtranclp]) (auto simp: companions_sym intro!: sympI)

lemma related_step: "related cs x y \<Longrightarrow> y \<in> set cs \<Longrightarrow> z \<in> set cs \<Longrightarrow> companions y z \<Longrightarrow> related cs x z"
  unfolding related_def by (auto intro: rtranclp.rtrancl_into_rtrancl)

lemma closed_under_class:
  assumes "distinct (map cb_id cs)" "closed_under cs S"
  shows "closed_under cs (cb_id ` set (filter (related cs c) cs) \<union> S)"
  unfolding closed_under_def
proof clarify
  fix x y assume xy: "x \<in> set cs" "y \<in> set cs" "companions x y" "cb_id y \<notin> S"
    and x: "cb_id x \<in> cb_id ` set (filter (related cs c) cs) \<union> S"
  have "cb_id x \<notin> S" using assms(2) xy unfolding closed_under_def by blast
  with x obtain z where z: "z \<in> set cs" "related cs c z" "cb_id x = cb_id z" by auto
  have "x = z" using assms(1) xy(1) z(1,3) by (auto simp: distinct_map dest: inj_onD)
  with z xy have "related cs c y" by (auto intro: related_step)
  with xy(2) show "cb_id y \<in> cb_id ` set (filter (related cs c) cs)" by simp
qed

text \<open>The state of the selection loops: companions of selected blocks are selected.\<close>

definition whole :: "candidate_block list \<Rightarrow> selection_state \<Rightarrow> bool" where
  "whole cs s \<longleftrightarrow> closed_under cs (set (ss_selected s))"

lemma whole_handle [simp]: "whole cs (handle g s) = whole cs s"
  by (simp add: whole_def handle_def)

lemma whole_try_group:
  assumes "distinct (map cb_id cs)" "whole cs s" "g = filter (related cs c) cs"
  shows "whole cs (try_group counts sep b_ac reason g s)"
  using closed_under_class[OF assms(1), of "set (ss_selected s)" c] assms(2,3)
  by (auto simp: whole_def try_group_def)

lemma whole_emergency_group:
  assumes "distinct (map cb_id cs)" "whole cs s" "g = filter (related cs c) cs"
  shows "whole cs (emergency_group counts sep b_ac g s)"
  using whole_try_group[OF assms(1) _ assms(3), of "handle g s"] assms(2)
  by (simp add: emergency_group_def) (simp add: whole_def handle_def)

lemma whole_normal_loop:
  assumes d: "distinct (map cb_id cs)" and groups: "dependency_groups cs = Inr groups"
  shows "set cs' \<subseteq> set cs \<Longrightarrow> whole cs s \<Longrightarrow> whole cs (normal_loop groups counts sep b_ac cs' s)"
proof (induction cs' arbitrary: s)
  case (Cons c cs')
  have "whole cs (try_group counts sep b_ac r (group_of groups c) (handle g s))" for g r
    using whole_try_group[OF d _ group_of_class[OF groups]] Cons.prems by simp
  with Cons show ?case by simp
qed simp

lemma whole_fold_groups:
  assumes "distinct (map cb_id cs)" "\<forall>g \<in> set gs. \<exists>c. g = filter (related cs c) cs" "whole cs s"
  shows "whole cs (fold (emergency_group counts sep b_ac) gs s)"
  using assms(2,3)
proof (induction gs arbitrary: s)
  case (Cons g gs)
  then obtain c where "g = filter (related cs c) cs" by auto
  with whole_emergency_group[OF assms(1) Cons.prems(2) this] Cons show ?case by simp
qed simp

lemma atomic_groups_facts:
  assumes "dependency_groups cs = Inr groups"
  shows "set xs \<subseteq> set cs \<Longrightarrow> g \<in> set (atomic_groups groups xs seen) \<Longrightarrow>
      \<exists>c \<in> set xs. g = filter (related cs c) cs"
    "set xs \<subseteq> set cs \<Longrightarrow> c \<in> set xs \<Longrightarrow> length (group_of groups c) = 1 \<or>
      cb_id c \<in> set seen \<union> (\<Union>g \<in> set (atomic_groups groups xs seen). cb_id ` set g)"
proof -
  show "set xs \<subseteq> set cs \<Longrightarrow> g \<in> set (atomic_groups groups xs seen) \<Longrightarrow> \<exists>c \<in> set xs. g = filter (related cs c) cs"
  proof (induction xs arbitrary: seen)
    case (Cons x xs)
    then show ?case using group_of_class[OF assms, of x] by (auto split: if_splits)
  qed simp
  show "set xs \<subseteq> set cs \<Longrightarrow> c \<in> set xs \<Longrightarrow> length (group_of groups c) = 1 \<or>
      cb_id c \<in> set seen \<union> (\<Union>g \<in> set (atomic_groups groups xs seen). cb_id ` set g)"
  proof (induction xs arbitrary: seen)
    case (Cons x xs)
    have x: "x \<in> set (group_of groups x)"
      using group_of_class[OF assms, of x] Cons.prems(1) by (simp add: related_def)
    show ?case
    proof (cases "length (group_of groups x) = 1 \<or> cb_id x \<in> set seen")
      case True
      then show ?thesis using Cons by auto
    next
      case False
      then have e: "atomic_groups groups (x # xs) seen =
          group_of groups x # atomic_groups groups xs (map cb_id (group_of groups x) @ seen)" by simp
      show ?thesis
      proof (cases "c = x")
        case True
        with x show ?thesis unfolding e by auto
      next
        case False
        with Cons.IH[of "map cb_id (group_of groups x) @ seen"] Cons.prems show ?thesis unfolding e by auto
      qed
    qed
  qed simp
qed

lemma fold_groups_handled:
  "set (ss_handled (fold (emergency_group counts sep b_ac) gs s)) =
     set (ss_handled s) \<union> (\<Union>g \<in> set gs. cb_id ` set g)"
  by (induction gs arbitrary: s) (auto simp: emergency_group_def try_group_def handle_def)

lemma tail_back_subset: "set (tail_back xs) \<subseteq> set xs"
  by (induction xs rule: tail_back.induct) auto

lemma longest_raw_suffix_subset: "set (longest_raw_suffix crit xs counts sep b_ac) \<subseteq> set xs"
  by (induction xs) auto

lemma take_raw_selected:
  "ss_selected (foldl (take_raw counts sep) s xs) = rev (map cb_id xs) @ ss_selected s"
  by (induction xs arbitrary: s) (auto simp: take_raw_def)

lemma closed_under_singletons:
  assumes "distinct (map cb_id cs)" "closed_under cs S" "set xs \<subseteq> set cs"
    and "\<forall>c \<in> set xs. filter (related cs c) cs = [c]"
  shows "closed_under cs (cb_id ` set xs \<union> S)"
  using assms(3,4)
proof (induction xs)
  case (Cons x xs)
  then have IH: "closed_under cs (cb_id ` set xs \<union> S)" and x: "filter (related cs x) cs = [x]" by auto
  from closed_under_class[OF assms(1) IH, of x] show ?case unfolding x by simp
qed (use assms in simp)

lemma whole_emergency_raw:
  assumes d: "distinct (map cb_id cs)" and groups: "dependency_groups cs = Inr groups"
    and sub: "set xs \<subseteq> set cs" and w: "whole cs s"
  shows "whole cs (emergency_raw cs groups counts sep b_ac xs s)"
proof -
  define s1 where "s1 = fold (emergency_group counts sep b_ac) (atomic_groups groups xs []) s"
  define left where "left = filter (\<lambda>c. cb_id c \<notin> set (ss_handled s1)) xs"
  define raw where "raw = longest_raw_suffix (chosen cs s1) (contiguous_raw_tail left) counts sep b_ac"
  have w1: "whole cs s1" unfolding s1_def
    using whole_fold_groups[OF d _ w] atomic_groups_facts(1)[OF groups sub] by blast
  have "set raw \<subseteq> set (contiguous_raw_tail left)" unfolding raw_def by (rule longest_raw_suffix_subset)
  then have raw: "set raw \<subseteq> set left" using tail_back_subset by (force simp: contiguous_raw_tail_def)
  have "filter (related cs c) cs = [c]" if c: "c \<in> set raw" for c
  proof -
    from c raw have l: "c \<in> set xs" "cb_id c \<notin> set (ss_handled s1)" by (auto simp: left_def)
    then have cs: "c \<in> set cs" using sub by auto
    have "length (group_of groups c) = 1"
      using atomic_groups_facts(2)[OF groups sub l(1), of "[]"] l(2)
      by (auto simp: s1_def fold_groups_handled)
    then have "length (filter (related cs c) cs) = 1" by (simp add: group_of_class[OF groups cs])
    moreover have "c \<in> set (filter (related cs c) cs)" using cs by (simp add: related_def)
    ultimately show ?thesis by (cases "filter (related cs c) cs") auto
  qed
  then have "closed_under cs (cb_id ` set raw \<union> set (ss_selected s1))"
    using closed_under_singletons[OF d, of "set (ss_selected s1)" raw] w1 raw sub
    by (auto simp: whole_def left_def)
  then show ?thesis
    by (simp add: emergency_raw_def whole_def handle_def take_raw_selected
        s1_def[symmetric] left_def[symmetric] raw_def[symmetric])
qed

lemma whole_emergency_plain:
  assumes d: "distinct (map cb_id cs)" and groups: "dependency_groups cs = Inr groups"
  shows "set xs \<subseteq> set cs \<Longrightarrow> whole cs s \<Longrightarrow> whole cs (emergency_plain groups counts sep b_ac xs s)"
proof (induction xs arbitrary: s)
  case (Cons c xs)
  have "whole cs (emergency_group counts sep b_ac (group_of groups c) s)"
    using whole_emergency_group[OF d _ group_of_class[OF groups]] Cons.prems by simp
  with Cons show ?case by simp
qed simp

lemma whole_emergency_slots:
  assumes "distinct (map cb_id cs)" "dependency_groups cs = Inr groups" "whole cs s"
  shows "whole cs (fold (emergency_slot cs groups counts sep b_ac) slots s)"
  using assms(3)
proof (induction slots arbitrary: s)
  case (Cons slot slots)
  have "whole cs (emergency_slot cs groups counts sep b_ac slot s)"
    using whole_emergency_raw[OF assms(1,2)] whole_emergency_plain[OF assms(1,2)] Cons.prems
    by (simp add: emergency_slot_def)
  with Cons show ?case by simp
qed simp

section \<open>What is selected\<close>

text \<open>
  A good selection: in candidate order, closed under companions, with every required block.
\<close>

definition good_selection :: "candidate_block list \<Rightarrow> candidate_block list \<Rightarrow> bool" where
  "good_selection unique sel \<longleftrightarrow>
     (\<exists>S. sel = filter (\<lambda>c. cb_id c \<in> S) unique) \<and>
     (\<forall>x \<in> set sel. \<forall>y \<in> set unique. companions x y \<longrightarrow> y \<in> set sel) \<and>
     (\<forall>c \<in> set unique. cb_required c \<longrightarrow> c \<in> set sel)"

lemma chosen_closed:
  assumes "whole cs s"
  shows "\<forall>x \<in> set (chosen cs s). \<forall>y \<in> set cs. companions x y \<longrightarrow> y \<in> set (chosen cs s)"
  using assms unfolding whole_def closed_under_def chosen_def set_filter mem_Collect_eq by blast

lemma whole_init: "whole cs selection_init"
  by (simp add: whole_def closed_under_def selection_init_def)

lemma select_blocks_good:
  assumes "distinct (map cb_id unique)" "select_blocks unique counts sep b_ac = Inr (mode, sel, rej)"
  shows "good_selection unique sel"
proof -
  obtain groups where groups: "dependency_groups unique = Inr groups"
    using assms(1) by (simp add: dependency_groups_def)
  let ?n = "normal_loop groups counts sep b_ac unique selection_init"
  let ?e = "fold (emergency_slot unique groups counts sep b_ac) RUNTIME_SLOT_PRIORITY selection_init"
  have "sel = chosen unique ?n \<or> sel = chosen unique ?e"
    using assms(2)
    by (auto simp: select_blocks_def normal_selection_def emergency_selection_def result_simps groups
        lift_groups_def split: if_splits)
  moreover have "whole unique ?n" "whole unique ?e"
    using whole_normal_loop[OF assms(1) groups order_refl whole_init]
      whole_emergency_slots[OF assms(1) groups whole_init] by simp_all
  ultimately obtain s where s: "whole unique s" "sel = chosen unique s" by blast
  from assms(2) have req: "\<forall>c \<in> set unique. cb_required c \<longrightarrow> cb_id c \<in> cb_id ` set sel"
    by (auto simp: select_blocks_def result_simps split: if_splits prod.splits)
  have "c \<in> set sel" if "c \<in> set unique" "cb_required c" for c
    using req that s(2) by (auto simp: chosen_def)
  with chosen_closed[OF s(1)] s(2) show ?thesis
    by (auto simp: good_selection_def chosen_def intro!: exI[of _ "set (ss_selected s)"])
qed

lemma remove_group_good:
  assumes d: "distinct (map cb_id unique)" and good: "good_selection unique sel"
    and g: "lowest_priority_optional_group sel = Inr (Some g)"
  shows "good_selection unique (filter (\<lambda>c. cb_id c \<notin> cb_id ` set g) sel)"
proof -
  let ?rest = "filter (\<lambda>c. cb_id c \<notin> cb_id ` set g) sel"
  from lowest_group_facts[OF g] obtain x where gx: "g = filter (related sel x) sel"
    and opt: "\<not> (\<exists>c \<in> set g. cb_required c)" by blast
  from good obtain S where S: "sel = filter (\<lambda>c. cb_id c \<in> S) unique" by (auto simp: good_selection_def)
  have inj: "a = b" if "a \<in> set sel" "b \<in> set sel" "cb_id a = cb_id b" for a b
    using that d by (auto simp: S distinct_map dest: inj_onD)
  have mem: "c \<in> set ?rest \<longleftrightarrow> c \<in> set sel \<and> c \<notin> set g" for c
    using inj by (auto simp: gx)
  have "b \<in> set ?rest" if a: "a \<in> set ?rest" and b: "b \<in> set unique" "companions a b" for a b
  proof -
    from a mem have as: "a \<in> set sel" "a \<notin> set g" by blast+
    with good b have bs: "b \<in> set sel" by (auto simp: good_selection_def)
    have "b \<notin> set g"
    proof
      assume "b \<in> set g"
      then have "related sel x b" by (simp add: gx)
      then have "related sel x a" using related_step bs as(1) b(2) by (simp add: companions_sym)
      with as show False by (simp add: gx)
    qed
    with bs mem show ?thesis by blast
  qed
  moreover have "c \<in> set ?rest" if "c \<in> set unique" "cb_required c" for c
    using that good opt mem by (auto simp: good_selection_def)
  moreover have "\<exists>T. ?rest = filter (\<lambda>c. cb_id c \<in> T) unique"
    by (intro exI[of _ "S - cb_id ` set g"]) (auto simp: S filter_filter intro: filter_cong)
  ultimately show ?thesis unfolding good_selection_def by blast
qed

lemma exact_final_facts:
  assumes "exact_final_selection sel counter counts b_ac removed = Inr (sel', text, cost, removed')"
    and "distinct (map cb_id unique)" "good_selection unique sel"
  shows "good_selection unique sel' \<and> text = projection_text sel' \<and> count_text counter text = Inr cost \<and> cost \<le> b_ac"
  using assms
proof (induction sel counter counts b_ac removed rule: exact_final_selection.induct)
  case (1 sel counter counts b_ac removed)
  from 1(2) obtain n where n: "count_text counter (projection_text sel) = Inr n"
    by (subst (asm) exact_final_selection.simps) (auto split: sum.splits)
  show ?case
  proof (cases "n \<le> b_ac")
    case True
    with 1(2,4) n show ?thesis by (subst (asm) exact_final_selection.simps) auto
  next
    case False
    with 1(2) n obtain g where g: "lowest_priority_optional_group sel = Inr (Some g)"
      and rest: "exact_final_selection (filter (\<lambda>c. cb_id c \<notin> cb_id ` set g) sel) counter counts b_ac
        (removed @ map (rejection counts ''EXACT_BUDGET_COMPONENT_REMOVED'') g) = Inr (sel', text, cost, removed')"
      by (subst (asm) exact_final_selection.simps) (auto split: sum.splits option.splits)
    show ?thesis by (rule 1(1)[OF n False g refl rest 1(3) remove_group_good[OF 1(3,4) g]])
  qed
qed

section \<open>Failures\<close>

text \<open>The failures that the counter, the counts that are passed in and the required input can cause.\<close>

definition external_failure ::
  "int \<Rightarrow> int \<Rightarrow> token_counter \<Rightarrow> candidate_block list \<Rightarrow> (string \<times> int) list option \<Rightarrow> budget_error \<Rightarrow> bool" where
  "external_failure opaque fixed counter cs provided e \<longleftrightarrow>
     e = REQUIRED_INPUT_EXCEEDS_BUDGET \<or> e = OPAQUE_TOKEN_COST_INVALID \<and> opaque < 0 \<or>
     e = FIXED_REQUIRED_COST_INVALID \<and> fixed < 0 \<or>
     (\<exists>t. count_text counter t = Inl e) \<or>
     e = TOKEN_COUNTER_INVALID \<and> (\<exists>p. provided = Some p \<and> (\<exists>c \<in> set cs. \<forall>n. map_of p (cb_id c) = Some n \<longrightarrow> n < 0))"

lemma count_text_failure: "count_text counter t = Inl e \<Longrightarrow> external_failure opaque fixed counter cs provided e"
  by (auto simp: external_failure_def)

lemma external_failure_mono: "external_failure opaque fixed counter us provided e \<Longrightarrow> set us \<subseteq> set cs \<Longrightarrow> external_failure opaque fixed counter cs provided e"
  unfolding external_failure_def by blast

lemma count_blocks_failure:
  assumes "count_blocks cs counter counts = Inl e" "distinct (map cb_id cs)" "cb_id ` set cs \<inter> fst ` set counts = {}"
  shows "external_failure opaque fixed counter us provided e"
  using assms
proof (induction cs arbitrary: counts)
  case (Cons c cs)
  then show ?case by (fastforce simp: bind_eq_Inl guard_eq_Inl dest: count_text_failure)
qed simp

lemma traverse_eq_Inl: "traverse f xs = Inl e \<Longrightarrow> \<exists>x \<in> set xs. f x = Inl e"
  by (induction xs) (auto simp: bind_eq_Inl)

lemma counts_failure:
  assumes "validated_block_token_counts cs counter provided = Inl e" "distinct (map cb_id cs)"
  shows "external_failure opaque fixed counter cs provided e"
proof (cases provided)
  case None
  with assms show ?thesis
    by (auto simp: validated_block_token_counts_def count_candidate_blocks_def intro: count_blocks_failure)
next
  case (Some p)
  with assms(1) obtain c where "c \<in> set cs" "provided_count p c = Inl e"
    by (auto simp: validated_block_token_counts_def dest: traverse_eq_Inl)
  then have "e = TOKEN_COUNTER_INVALID" "\<forall>n. map_of p (cb_id c) = Some n \<longrightarrow> n < 0"
    by (auto simp: provided_count_def non_negative_cost_def bind_eq_Inl split: option.splits if_splits)
  with \<open>c \<in> set cs\<close> Some show ?thesis unfolding external_failure_def by blast
qed

lemma select_blocks_failure:
  assumes "distinct (map cb_id unique)" "select_blocks unique counts sep b_ac = Inl e"
  shows "external_failure opaque fixed counter cs provided e"
proof -
  obtain groups where groups: "dependency_groups unique = Inr groups"
    using assms(1) by (simp add: dependency_groups_def)
  with assms(2) show ?thesis
    by (auto simp: select_blocks_def normal_selection_def emergency_selection_def result_simps lift_groups_def
        external_failure_def split: if_splits)
qed

lemma lowest_group_total:
  assumes "distinct (map cb_id sel)"
  shows "\<exists>g. lowest_priority_optional_group sel = Inr g"
  using assms by (simp add: lowest_priority_optional_group_def removable_dependency_groups_def
      dependency_groups_def lift_groups_def)

lemma exact_final_failure:
  assumes "exact_final_selection sel counter counts b_ac removed = Inl e" "distinct (map cb_id sel)"
  shows "external_failure opaque fixed counter cs provided e"
  using assms
proof (induction sel counter counts b_ac removed rule: exact_final_selection.induct)
  case (1 sel counter counts b_ac removed)
  show ?case
  proof (cases "count_text counter (projection_text sel)")
    case (Inl x)
    with 1(2) count_text_failure show ?thesis by (subst (asm) exact_final_selection.simps) auto
  next
    case (Inr n)
    obtain g where g: "lowest_priority_optional_group sel = Inr g" using lowest_group_total[OF 1(3)] by blast
    show ?thesis
    proof (cases g)
      case None
      with 1(2) Inr g show ?thesis
        by (subst (asm) exact_final_selection.simps) (auto simp: external_failure_def split: if_splits)
    next
      case (Some h)
      have n: "\<not> n \<le> b_ac" and rest: "exact_final_selection (filter (\<lambda>c. cb_id c \<notin> cb_id ` set h) sel) counter counts b_ac
        (removed @ map (rejection counts ''EXACT_BUDGET_COMPONENT_REMOVED'') h) = Inl e"
        using 1(2) Inr g Some by (subst (asm) exact_final_selection.simps, auto split: if_splits)+
      show ?thesis
        by (rule 1(1)[OF Inr n g Some rest]) (use 1(3) in \<open>simp add: distinct_map_filter\<close>)
    qed
  qed
qed

section \<open>Properties\<close>

lemma trace_facts:
  assumes "trace view sel rej mode counts exact b_input current fixed margin b_required opaque b_ac = Inr t"
  shows "at_ac_selected_cost t = exact" "at_total_input_cost t = opaque + b_required + exact"
    "at_total_input_cost t \<le> b_input" "map bt_id (at_selections t) = map cb_id sel" "set (at_rejections t) = set rej"
  using assms by (auto simp: trace_def result_simps rejection_def)

lemma assemble_eq_Inr:
  assumes "assemble view candidates input opaque fixed counter cfg provided = Inr res"
  obtains current unique dups counts sep mode sel0 rej removed exact dup_rej where
    "opaque \<ge> 0" "fixed \<ge> 0" "count_text counter input = Inr current" "deduplicate candidates = (unique, dups)"
    "opaque + (current + fixed + safety_margin cfg) \<le> b_input_of cfg"
    "validated_block_token_counts unique counter provided = Inr counts"
    "select_blocks unique counts sep (b_input_of cfg - opaque - (current + fixed + safety_margin cfg)) = Inr (mode, sel0, rej)"
    "exact_final_selection sel0 counter counts (b_input_of cfg - opaque - (current + fixed + safety_margin cfg)) [] =
       Inr (ar_selected_blocks res, ar_projected_text res, exact, removed)"
    "trace view (ar_selected_blocks res) (dup_rej @ rej @ removed) mode counts exact (b_input_of cfg) current fixed
       (safety_margin cfg) (current + fixed + safety_margin cfg) opaque
       (b_input_of cfg - opaque - (current + fixed + safety_margin cfg)) = Inr (ar_trace res)"
    "traverse (duplicate_rejection counter) dups = Inr dup_rej"
proof -
  obtain unique dups where d: "deduplicate candidates = (unique, dups)" by (rule prod.exhaust)
  have m: "max 0 (x - opaque - y) = x - opaque - y" if "opaque + y \<le> x" for x y :: int using that by simp
  from assms d show thesis
    by (auto simp: assemble_def non_negative_cost_def result_simps m intro!: that split: if_splits)
qed

text \<open>What an assembly gives its callers.\<close>

lemma assemble_fits:
  assumes "assemble view candidates input opaque fixed counter cfg provided = Inr res"
  shows "\<exists>current. count_text counter input = Inr current \<and>
    ar_projected_text res = projection_text (ar_selected_blocks res) \<and>
    count_text counter (ar_projected_text res) = Inr (at_ac_selected_cost (ar_trace res)) \<and>
    at_total_input_cost (ar_trace res) =
      opaque + current + fixed + safety_margin cfg + at_ac_selected_cost (ar_trace res) \<and>
    at_total_input_cost (ar_trace res) \<le> target_input_budget cfg \<and>
    at_total_input_cost (ar_trace res) \<le> hard_input_ceiling cfg \<and>
    at_total_input_cost (ar_trace res) + reserved_output_and_tools cfg \<le> model_context_limit cfg"
proof -
  from assms obtain current unique dups counts sep mode sel0 rej removed exact dup_rej where
    c: "count_text counter input = Inr current" and d: "deduplicate candidates = (unique, dups)"
    and s: "select_blocks unique counts sep (b_input_of cfg - opaque - (current + fixed + safety_margin cfg)) = Inr (mode, sel0, rej)"
    and e: "exact_final_selection sel0 counter counts (b_input_of cfg - opaque - (current + fixed + safety_margin cfg)) [] =
       Inr (ar_selected_blocks res, ar_projected_text res, exact, removed)"
    and t: "trace view (ar_selected_blocks res) (dup_rej @ rej @ removed) mode counts exact (b_input_of cfg) current fixed
       (safety_margin cfg) (current + fixed + safety_margin cfg) opaque
       (b_input_of cfg - opaque - (current + fixed + safety_margin cfg)) = Inr (ar_trace res)"
    by (rule assemble_eq_Inr)
  note ids = deduplicate_facts(1)[OF d]
  from trace_facts[OF t] exact_final_facts[OF e ids select_blocks_good[OF ids s]] c show ?thesis
    by (auto simp: b_input_of_def)
qed

lemma assemble_good:
  assumes "assemble view candidates input opaque fixed counter cfg provided = Inr res"
  shows "good_selection (canonical_candidates candidates) (ar_selected_blocks res) \<and>
    cb_id ` set (canonical_candidates candidates) = cb_id ` set candidates"
proof -
  from assms obtain current unique dups counts sep mode sel0 rej removed exact where
    d: "deduplicate candidates = (unique, dups)"
    and s: "select_blocks unique counts sep (b_input_of cfg - opaque - (current + fixed + safety_margin cfg)) = Inr (mode, sel0, rej)"
    and e: "exact_final_selection sel0 counter counts (b_input_of cfg - opaque - (current + fixed + safety_margin cfg)) [] =
       Inr (ar_selected_blocks res, ar_projected_text res, exact, removed)"
    by (rule assemble_eq_Inr)
  note ids = deduplicate_facts(1)[OF d]
  from exact_final_facts[OF e ids select_blocks_good[OF ids s]] deduplicate_facts(2)[OF d] d show ?thesis
    by (simp add: canonical_candidates_def)
qed

text \<open>
  C18. The assembled projection fits: its text is the selected blocks joined by the separator,
  its cost is the exact count of that text, and together with the opaque, current, fixed and
  safety costs it stays within the input budget, the least of the target, the ceiling and the
  context limit less the reserve.
\<close>

theorem assemble_fits_budget:
  assumes "assemble view candidates input opaque fixed counter cfg provided = Inr res"
  shows "\<exists>current. count_text counter input = Inr current \<and>
    ar_projected_text res = projection_text (ar_selected_blocks res) \<and>
    count_text counter (ar_projected_text res) = Inr (at_ac_selected_cost (ar_trace res)) \<and>
    at_total_input_cost (ar_trace res) =
      opaque + current + fixed + safety_margin cfg + at_ac_selected_cost (ar_trace res) \<and>
    at_total_input_cost (ar_trace res) \<le> target_input_budget cfg \<and>
    at_total_input_cost (ar_trace res) \<le> hard_input_ceiling cfg \<and>
    at_total_input_cost (ar_trace res) + reserved_output_and_tools cfg \<le> model_context_limit cfg"
  using assms by (rule assemble_fits)

text \<open>
  C19. What is selected is sound: the blocks are candidates in canonical order, every required
  block is among them, and a block is never selected without its structural companions, in
  normal and in emergency mode and after the exact fit removed components.
\<close>

theorem assemble_selection_sound:
  assumes "assemble view candidates input opaque fixed counter cfg provided = Inr res"
  shows "good_selection (canonical_candidates candidates) (ar_selected_blocks res) \<and>
    cb_id ` set (canonical_candidates candidates) = cb_id ` set candidates"
  using assms by (rule assemble_good)

lemma assemble_external:
  assumes "assemble view candidates input opaque fixed counter cfg provided = Inl e"
  shows "external_failure opaque fixed counter candidates provided e"
proof -
  obtain unique dups where d: "deduplicate candidates = (unique, dups)" by (rule prod.exhaust)
  note ids = deduplicate_facts(1)[OF d]
  show ?thesis
  proof (rule ccontr)
    assume no: "\<not> external_failure opaque fixed counter candidates provided e"
    have neg: "non_negative_cost opaque OPAQUE_TOKEN_COST_INVALID \<noteq> Inl e"
      "non_negative_cost fixed FIXED_REQUIRED_COST_INVALID \<noteq> Inl e" "REQUIRED_INPUT_EXCEEDS_BUDGET \<noteq> e"
      using no by (auto simp: non_negative_cost_def external_failure_def)
    have dup: "traverse (duplicate_rejection counter) dups \<noteq> Inl e"
      using no by (auto simp: duplicate_rejection_def bind_eq_Inl dest!: traverse_eq_Inl count_text_failure)
    have ct: "count_text counter t \<noteq> Inl e" for t using no count_text_failure by blast
    have cf: "validated_block_token_counts unique counter provided \<noteq> Inl e" using no external_failure_mono[OF counts_failure[OF _ ids]] deduplicate_facts(3)[OF d] by blast
    have sf: "select_blocks unique counts sep b \<noteq> Inl e" for counts sep b using no select_blocks_failure ids by blast
    from assms d neg ct cf dup sf obtain current counts sep mode sel0 rej dup_rej b where
      b: "opaque + (current + fixed + safety_margin cfg) \<le> b_input_of cfg"
        "b = max 0 (b_input_of cfg - opaque - (current + fixed + safety_margin cfg))"
      and s: "select_blocks unique counts sep b = Inr (mode, sel0, rej)"
      and rest: "bind (exact_final_selection sel0 counter counts b []) (\<lambda>(selected, text, exact, removed).
         bind (trace view selected (dup_rej @ rej @ removed) mode counts exact (b_input_of cfg) current
             fixed (safety_margin cfg) (current + fixed + safety_margin cfg) opaque b) (\<lambda>t.
         Inr \<lparr>ar_projected_text = text, ar_selected_blocks = selected, ar_trace = t\<rparr>)) = Inl e"
      by (auto simp: assemble_def bind_eq_Inl guard_eq_Inl guard_eq_Inr non_negative_cost_def split: if_splits)
    note good = select_blocks_good[OF ids s]
    then have "distinct (map cb_id sel0)" using ids by (auto simp: good_selection_def distinct_map_filter)
    with rest exact_final_failure no obtain sel body exact removed where
      ex: "exact_final_selection sel0 counter counts b [] = Inr (sel, body, exact, removed)"
      and tr: "trace view sel (dup_rej @ rej @ removed) mode counts exact (b_input_of cfg) current
             fixed (safety_margin cfg) (current + fixed + safety_margin cfg) opaque b = Inl e"
      by (auto simp: bind_eq_Inl)
    from exact_final_facts[OF ex ids good] b have "opaque + (current + fixed + safety_margin cfg) + exact \<le> b_input_of cfg"
      by simp
    with tr show False by (simp add: trace_def)
  qed
qed

text \<open>
  C20. Assembly terminates with a result or with a failure the caller can cause: invalid
  costs, a text on which this very counter raises or returns no non-negative integer, invalid
  counts that were passed in, or required input that exceeds the budget. The internal budget failure and grouping failures never occur.
\<close>

theorem assemble_failure_external:
  assumes "assemble view candidates input opaque fixed counter cfg provided = Inl e"
  shows "external_failure opaque fixed counter candidates provided e"
  using assms by (rule assemble_external)

end
