(* ===== verification/Budget_Accounting.thy ===== *)
theory Budget_Accounting
  imports Budget_Laws
begin

text \<open>
  The trace of an assembly accounts for every candidate: no block is dropped silently, and
  only a duplicate can be both selected and rejected.
\<close>

section \<open>Handled blocks\<close>

lemma closed_related:
  assumes "closed_under cs S" "related cs x y" "cb_id x \<in> S"
  shows "cb_id y \<in> S"
  using assms(2,3) unfolding related_def
  by (induction rule: rtranclp_induct) (use assms(1) in \<open>auto simp: closed_under_def\<close>)

text \<open>A handled block is selected or rejected, not both, together with its whole group.\<close>

definition accounted :: "candidate_block list \<Rightarrow> selection_state \<Rightarrow> bool" where
  "accounted cs s \<longleftrightarrow> set (ss_handled s) = set (ss_selected s) \<union> bt_id ` set (ss_rejected s) \<and>
     set (ss_selected s) \<inter> bt_id ` set (ss_rejected s) = {} \<and> closed_under cs (set (ss_handled s)) \<and>
     set (ss_handled s) \<subseteq> cb_id ` set cs"

lemma accounted_init: "accounted cs selection_init"
  by (simp add: accounted_def selection_init_def closed_under_def)

lemma rejection_id [simp]: "bt_id (rejection counts r c) = cb_id c"
  by (simp add: rejection_def)

lemma group_unhandled:
  assumes "closed_under cs S" "g = filter (related cs c) cs" "cb_id c \<notin> S"
  shows "cb_id ` set g \<inter> S = {}"
  using assms closed_related[OF assms(1) related_sym] by auto

lemma accounted_place:
  assumes d: "distinct (map cb_id cs)" and a: "accounted cs s"
    and g: "g = filter (related cs c) cs" "cb_id c \<notin> set (ss_handled s)"
    and s': "set (ss_handled s') = cb_id ` set g \<union> set (ss_handled s)"
      "set (ss_selected s') = cb_id ` set g \<union> set (ss_selected s) \<and> ss_rejected s' = ss_rejected s \<or>
       ss_selected s' = ss_selected s \<and> bt_id ` set (ss_rejected s') = bt_id ` set (ss_rejected s) \<union> cb_id ` set g"
  shows "accounted cs s'"
proof -
  have h: "closed_under cs (set (ss_handled s))" using a unfolding accounted_def by blast
  from group_unhandled[OF h g] have disj: "cb_id ` set g \<inter> set (ss_handled s) = {}" .
  have "closed_under cs (set (ss_handled s'))" unfolding s'(1) g(1) by (rule closed_under_class[OF d h])
  moreover have "set (ss_handled s') \<subseteq> cb_id ` set cs" using a unfolding s'(1) g(1) accounted_def by auto
  moreover have "set (ss_handled s') = set (ss_selected s') \<union> bt_id ` set (ss_rejected s') \<and>
      set (ss_selected s') \<inter> bt_id ` set (ss_rejected s') = {}"
    using s'(2) a disj unfolding s'(1) accounted_def by (elim disjE conjE) (simp_all, blast+)
  ultimately show ?thesis unfolding accounted_def by blast
qed

lemma try_group_handled:
  "set (ss_handled (try_group counts sep b_ac r g (handle g s))) = cb_id ` set g \<union> set (ss_handled s)"
  by (auto simp: try_group_def handle_def)

lemma accounted_try_group:
  assumes "distinct (map cb_id cs)" "accounted cs s" "g = filter (related cs c) cs" "cb_id c \<notin> set (ss_handled s)"
  shows "accounted cs (try_group counts sep b_ac r g (handle g s))"
  by (rule accounted_place[OF assms try_group_handled])
     (auto simp: try_group_def handle_def image_Un image_image)

lemma emergency_group_handled:
  "set (ss_handled (emergency_group counts sep b_ac g s)) = cb_id ` set g \<union> set (ss_handled s)"
  by (auto simp: emergency_group_def try_group_def handle_def)

lemma accounted_emergency_group:
  assumes "distinct (map cb_id cs)" "accounted cs s" "g = filter (related cs c) cs" "cb_id c \<notin> set (ss_handled s)"
  shows "accounted cs (emergency_group counts sep b_ac g s)"
  by (rule accounted_place[OF assms emergency_group_handled])
     (auto simp: emergency_group_def try_group_def handle_def image_Un image_image)

lemma self_in_class: "c \<in> set cs \<Longrightarrow> cb_id c \<in> cb_id ` set (filter (related cs c) cs)"
  by (rule imageI) (simp add: related_def)

lemma accounted_normal:
  assumes d: "distinct (map cb_id cs)" and groups: "dependency_groups cs = Inr groups"
  shows "set xs \<subseteq> set cs \<Longrightarrow> accounted cs s \<Longrightarrow>
    accounted cs (normal_loop groups counts sep b_ac xs s) \<and>
    cb_id ` set xs \<union> set (ss_handled s) \<subseteq> set (ss_handled (normal_loop groups counts sep b_ac xs s))"
proof (induction xs arbitrary: s)
  case (Cons c xs)
  let ?s = "if cb_id c \<in> set (ss_handled s) then s else try_group counts sep b_ac ''INSUFFICIENT_AC_BUDGET''
    (group_of groups c) (handle (group_of groups c) s)"
  have c: "c \<in> set cs" using Cons.prems by simp
  have "accounted cs ?s"
    using accounted_try_group[OF d Cons.prems(2) group_of_class[OF groups c]] Cons.prems(2) by simp
  moreover have "insert (cb_id c) (set (ss_handled s)) \<subseteq> set (ss_handled ?s)"
    using self_in_class[OF c] by (auto simp: try_group_handled group_of_class[OF groups c])
  ultimately show ?case using Cons.IH[of ?s] Cons.prems by auto
qed simp

lemma accounted_plain:
  assumes d: "distinct (map cb_id cs)" and groups: "dependency_groups cs = Inr groups"
  shows "set xs \<subseteq> set cs \<Longrightarrow> accounted cs s \<Longrightarrow>
    accounted cs (emergency_plain groups counts sep b_ac xs s) \<and>
    cb_id ` set xs \<union> set (ss_handled s) \<subseteq> set (ss_handled (emergency_plain groups counts sep b_ac xs s))"
proof (induction xs arbitrary: s)
  case (Cons c xs)
  let ?s = "if cb_id c \<in> set (ss_handled s) then s else emergency_group counts sep b_ac (group_of groups c) s"
  have c: "c \<in> set cs" using Cons.prems by simp
  have "accounted cs ?s"
    using accounted_emergency_group[OF d Cons.prems(2) group_of_class[OF groups c]] Cons.prems(2) by simp
  moreover have "insert (cb_id c) (set (ss_handled s)) \<subseteq> set (ss_handled ?s)"
    using self_in_class[OF c] by (auto simp: emergency_group_handled group_of_class[OF groups c])
  ultimately show ?case using Cons.IH[of ?s] Cons.prems by auto
qed simp

lemma accounted_atomic:
  assumes d: "distinct (map cb_id cs)" and groups: "dependency_groups cs = Inr groups"
  shows "set xs \<subseteq> set cs \<Longrightarrow> accounted cs s \<Longrightarrow> (\<forall>c \<in> set xs. cb_id c \<in> set (ss_handled s) \<longrightarrow> cb_id c \<in> set seen) \<Longrightarrow>
    accounted cs (fold (emergency_group counts sep b_ac) (atomic_groups groups xs seen) s)"
proof (induction xs arbitrary: s seen)
  case (Cons c xs)
  have c: "c \<in> set cs" using Cons.prems by simp
  show ?case
  proof (cases "length (group_of groups c) = 1 \<or> cb_id c \<in> set seen")
    case True
    with Cons show ?thesis by simp
  next
    case False
    then have "accounted cs (emergency_group counts sep b_ac (group_of groups c) s)"
      using accounted_emergency_group[OF d Cons.prems(2) group_of_class[OF groups c]] Cons.prems(3) by auto
    with Cons.IH[OF _ this, of "map cb_id (group_of groups c) @ seen"] Cons.prems False show ?thesis
      by (auto simp: emergency_group_handled)
  qed
qed simp

lemma take_raw_frame:
  "ss_handled (foldl (take_raw counts sep) s xs) = ss_handled s"
  "ss_rejected (foldl (take_raw counts sep) s xs) = ss_rejected s"
  by (induction xs arbitrary: s) (auto simp: take_raw_def)

lemma accounted_sets:
  "H = S \<union> R \<Longrightarrow> S \<inter> R = {} \<Longrightarrow> L \<inter> H = {} \<Longrightarrow> Q \<subseteq> L \<Longrightarrow>
   L \<union> H = (Q \<union> S) \<union> (R \<union> (L - Q)) \<and> (Q \<union> S) \<inter> (R \<union> (L - Q)) = {}"
  by blast

text \<open>The raw slots: what is left after the atomic groups are single-block groups.\<close>

lemma accounted_raw:
  assumes d: "distinct (map cb_id cs)" and groups: "dependency_groups cs = Inr groups"
    and xs: "set xs \<subseteq> set cs" "\<forall>c \<in> set xs. cb_id c \<notin> set (ss_handled s)" and a: "accounted cs s"
  shows "accounted cs (emergency_raw cs groups counts sep b_ac xs s) \<and>
    cb_id ` set xs \<union> set (ss_handled s) \<subseteq> set (ss_handled (emergency_raw cs groups counts sep b_ac xs s))"
proof -
  define s1 where "s1 = fold (emergency_group counts sep b_ac) (atomic_groups groups xs []) s"
  define left where "left = filter (\<lambda>c. cb_id c \<notin> set (ss_handled s1)) xs"
  define raw where "raw = longest_raw_suffix (chosen cs s1) (contiguous_raw_tail left) counts sep b_ac"
  define res where "res = emergency_raw cs groups counts sep b_ac xs s"
  have a1: "accounted cs s1" unfolding s1_def using accounted_atomic[OF d groups xs(1) a, of "[]"] xs(2) by simp
  have raw: "set raw \<subseteq> set left"
    using longest_raw_suffix_subset[of "chosen cs s1" "contiguous_raw_tail left" counts sep b_ac] tail_back_subset
    by (force simp: raw_def contiguous_raw_tail_def)
  have single: "filter (related cs c) cs = [c]" if "c \<in> set left" for c
  proof -
    have c: "c \<in> set xs" "c \<in> set cs" "cb_id c \<notin> set (ss_handled s1)" using that xs(1) by (auto simp: left_def)
    have "length (group_of groups c) = 1"
      using atomic_groups_facts(2)[OF groups xs(1) c(1), of "[]"] c(3) by (auto simp: s1_def fold_groups_handled)
    then have "length (filter (related cs c) cs) = 1" by (simp add: group_of_class[OF groups c(2)])
    moreover have "c \<in> set (filter (related cs c) cs)" using c(2) by (simp add: related_def)
    ultimately show ?thesis by (cases "filter (related cs c) cs") auto
  qed
  have fields: "set (ss_handled res) = cb_id ` set left \<union> set (ss_handled s1)"
    "set (ss_selected res) = cb_id ` set raw \<union> set (ss_selected s1)"
    "bt_id ` set (ss_rejected res) = bt_id ` set (ss_rejected s1) \<union> cb_id ` {c \<in> set left. cb_id c \<notin> cb_id ` set raw}"
    unfolding res_def emergency_raw_def Let_def s1_def[symmetric] left_def[symmetric] raw_def[symmetric]
    by (auto simp: handle_def take_raw_frame take_raw_selected image_Un image_image)
  have "closed_under cs (cb_id ` set left \<union> set (ss_handled s1))"
  proof (rule closed_under_singletons[OF d])
    show "closed_under cs (set (ss_handled s1))" using a1 unfolding accounted_def by blast
    show "set left \<subseteq> set cs" using xs(1) by (auto simp: left_def)
  qed (use single in blast)
  moreover have disj: "cb_id ` set left \<inter> set (ss_handled s1) = {}" by (auto simp: left_def)
  have ids: "cb_id ` set raw \<subseteq> cb_id ` set left" by (rule image_mono[OF raw])
  have cs: "cb_id ` set left \<subseteq> cb_id ` set cs" using xs(1) by (auto simp: left_def)
  have out: "cb_id ` {c \<in> set left. cb_id c \<notin> Q} = cb_id ` set left - Q" for Q by blast
  have s1: "set (ss_handled s1) = set (ss_selected s1) \<union> bt_id ` set (ss_rejected s1)"
    "set (ss_selected s1) \<inter> bt_id ` set (ss_rejected s1) = {}" "set (ss_handled s1) \<subseteq> cb_id ` set cs"
    using a1 unfolding accounted_def by - (elim conjE, assumption)+
  moreover note accounted_sets[OF s1(1,2) disj ids]
  ultimately have "accounted cs res" using cs s1(3) order.trans[OF ids cs] order.trans[OF Diff_subset cs]
    unfolding accounted_def fields out by (simp only: Un_subset_iff simp_thms)
  moreover have "cb_id ` set xs \<union> set (ss_handled s) \<subseteq> set (ss_handled res)"
    unfolding fields by (auto simp: left_def s1_def fold_groups_handled)
  ultimately show ?thesis by (simp add: res_def)
qed

lemma accounted_slots:
  assumes d: "distinct (map cb_id cs)" and groups: "dependency_groups cs = Inr groups"
  shows "accounted cs s \<Longrightarrow> accounted cs (fold (emergency_slot cs groups counts sep b_ac) slots s) \<and>
    set (ss_handled s) \<union> cb_id ` {c \<in> set cs. cb_slot c \<in> set slots}
      \<subseteq> set (ss_handled (fold (emergency_slot cs groups counts sep b_ac) slots s))"
proof (induction slots arbitrary: s)
  case (Cons slot slots)
  let ?xs = "filter (\<lambda>c. cb_slot c = slot \<and> cb_id c \<notin> set (ss_handled s)) cs"
  let ?s = "emergency_slot cs groups counts sep b_ac slot s"
  have xs: "set ?xs \<subseteq> set cs" "\<forall>c \<in> set ?xs. cb_id c \<notin> set (ss_handled s)" by auto
  have step: "accounted cs ?s \<and> cb_id ` set ?xs \<union> set (ss_handled s) \<subseteq> set (ss_handled ?s)"
  proof (cases "raw_slot slot")
    case True
    then have "?s = emergency_raw cs groups counts sep b_ac ?xs s" by (simp add: emergency_slot_def)
    with accounted_raw[OF d groups xs Cons.prems] show ?thesis by (simp only:)
  next
    case False
    then have "?s = emergency_plain groups counts sep b_ac ?xs s" by (simp add: emergency_slot_def)
    with accounted_plain[OF d groups xs(1) Cons.prems] show ?thesis by (simp only:)
  qed
  then have "accounted cs ?s" "cb_id ` {c \<in> set cs. cb_slot c = slot} \<union> set (ss_handled s) \<subseteq> set (ss_handled ?s)"
    by auto
  with Cons.IH[of ?s] show ?case by auto
qed simp

lemma all_slots: "set RUNTIME_SLOT_PRIORITY = UNIV"
proof -
  have "s \<in> set RUNTIME_SLOT_PRIORITY" for s by (cases s) (simp_all add: RUNTIME_SLOT_PRIORITY_def)
  then show ?thesis by auto
qed

text \<open>Selected and rejected identifiers split the candidates.\<close>

definition splits :: "string set \<Rightarrow> candidate_block list \<Rightarrow> block_trace list \<Rightarrow> bool" where
  "splits ids sel rej \<longleftrightarrow> cb_id ` set sel \<union> bt_id ` set rej = ids \<and> cb_id ` set sel \<inter> bt_id ` set rej = {}"

lemma accounted_all:
  assumes "accounted cs s" "cb_id ` set cs \<subseteq> set (ss_handled s)"
  shows "splits (cb_id ` set cs) (chosen cs s) (ss_rejected s)"
proof -
  have h: "set (ss_handled s) = cb_id ` set cs" using assms unfolding accounted_def by blast
  have "set (ss_selected s) \<subseteq> cb_id ` set cs" using assms(1) unfolding accounted_def h by blast
  then have "cb_id ` set (chosen cs s) = set (ss_selected s)" by (auto simp: chosen_def)
  with assms(1) show ?thesis unfolding splits_def accounted_def h by simp
qed

lemma select_blocks_splits:
  assumes d: "distinct (map cb_id unique)" and sel: "select_blocks unique counts sep b_ac = Inr (mode, sel, rej)"
  shows "splits (cb_id ` set unique) sel rej"
proof -
  obtain groups where groups: "dependency_groups unique = Inr groups"
    using d by (simp add: dependency_groups_def)
  let ?n = "normal_loop groups counts sep b_ac unique selection_init"
  let ?e = "fold (emergency_slot unique groups counts sep b_ac) RUNTIME_SLOT_PRIORITY selection_init"
  have "(sel, rej) = (chosen unique ?n, ss_rejected ?n) \<or> (sel, rej) = (chosen unique ?e, ss_rejected ?e)"
    using sel
    by (auto simp: select_blocks_def normal_selection_def emergency_selection_def result_simps groups
        lift_groups_def split: if_splits)
  moreover have "splits (cb_id ` set unique) (chosen unique ?n) (ss_rejected ?n)"
    using accounted_normal[OF d groups order.refl accounted_init, of counts sep b_ac] by (intro accounted_all) simp_all
  moreover have "splits (cb_id ` set unique) (chosen unique ?e) (ss_rejected ?e)"
    using accounted_slots[OF d groups accounted_init, of counts sep b_ac RUNTIME_SLOT_PRIORITY]
    by (intro accounted_all) (simp_all add: all_slots)
  ultimately show ?thesis by (elim disjE) simp_all
qed

section \<open>The exact fit\<close>

lemma remove_group_splits:
  assumes "splits ids sel rej" "set g \<subseteq> set sel"
  shows "splits ids (filter (\<lambda>c. cb_id c \<notin> cb_id ` set g) sel) (rej @ map (rejection counts r) g)"
proof -
  have "cb_id ` set (filter (\<lambda>c. cb_id c \<notin> cb_id ` set g) sel) = cb_id ` set sel - cb_id ` set g" by auto
  moreover have "cb_id ` set g \<subseteq> cb_id ` set sel" using assms(2) by blast
  moreover have "bt_id ` set (rej @ map (rejection counts r) g) = bt_id ` set rej \<union> cb_id ` set g"
    by (simp add: image_Un image_image)
  ultimately show ?thesis using assms(1) unfolding splits_def by (simp only:) blast
qed

lemma exact_final_splits:
  assumes "exact_final_selection sel counter counts b_ac removed = Inr (sel', body, cost, removed')"
    and "splits ids sel (rej @ removed)"
  shows "splits ids sel' (rej @ removed')"
  using assms
proof (induction sel counter counts b_ac removed rule: exact_final_selection.induct)
  case (1 sel counter counts b_ac removed)
  from 1(2) obtain n where n: "count_text counter (projection_text sel) = Inr n"
    by (subst (asm) exact_final_selection.simps) (auto split: sum.splits)
  show ?case
  proof (cases "n \<le> b_ac")
    case True
    with 1(2,3) n show ?thesis by (subst (asm) exact_final_selection.simps) auto
  next
    case False
    with 1(2) n obtain g where g: "lowest_priority_optional_group sel = Inr (Some g)"
      and rest: "exact_final_selection (filter (\<lambda>c. cb_id c \<notin> cb_id ` set g) sel) counter counts b_ac
        (removed @ map (rejection counts ''EXACT_BUDGET_COMPONENT_REMOVED'') g) = Inr (sel', body, cost, removed')"
      by (subst (asm) exact_final_selection.simps) (auto split: sum.splits option.splits)
    from remove_group_splits[OF 1(3) lowest_group_facts(2)[OF g]]
    have "splits ids (filter (\<lambda>c. cb_id c \<notin> cb_id ` set g) sel)
      (rej @ removed @ map (rejection counts ''EXACT_BUDGET_COMPONENT_REMOVED'') g)" by (simp only: append.assoc)
    from 1(1)[OF n False g refl rest this] show ?thesis .
  qed
qed

lemma duplicate_rejection_facts:
  assumes "traverse (duplicate_rejection counter) dups = Inr rejs"
  shows "map bt_id rejs = map cb_id dups" "\<forall>r \<in> set rejs. bt_reason r = ''DUPLICATE_BLOCK_ID''"
  using assms by (induction dups arbitrary: rejs) (auto simp: result_simps duplicate_rejection_def)

lemma dedup_loop_ids: "dedup_loop cs seen = (unique, dups) \<Longrightarrow> set unique \<union> set dups = set cs"
proof (induction cs arbitrary: seen unique dups)
  case (Cons c cs)
  obtain u d where ud: "dedup_loop cs (if cb_id c \<in> set seen then seen else cb_id c # seen) = (u, d)"
    by (rule prod.exhaust)
  with Cons.prems have "(unique, dups) = (if cb_id c \<in> set seen then (u, c # d) else (c # u, d))" by auto
  with Cons.IH[OF ud] show ?case by (cases "cb_id c \<in> set seen") auto
qed simp

text \<open>
  The trace of an assembly accounts for every candidate. The identifiers it selects and
  rejects are exactly those of the candidates, the selections are the assembled blocks in
  order, and an identifier that is both selected and rejected was only rejected as a duplicate.
\<close>

theorem assemble_accounts:
  assumes "assemble view candidates input opaque fixed counter cfg provided = Inr res"
  shows "map bt_id (at_selections (ar_trace res)) = map cb_id (ar_selected_blocks res) \<and>
    bt_id ` (set (at_selections (ar_trace res)) \<union> set (at_rejections (ar_trace res))) = cb_id ` set candidates \<and>
    (\<forall>r \<in> set (at_rejections (ar_trace res)).
       bt_id r \<in> bt_id ` set (at_selections (ar_trace res)) \<longrightarrow> bt_reason r = ''DUPLICATE_BLOCK_ID'')"
proof -
  from assms obtain current unique dups counts sep mode sel0 rej removed exact dup_rej where
    d: "deduplicate candidates = (unique, dups)"
    and s: "select_blocks unique counts sep (b_input_of cfg - opaque - (current + fixed + safety_margin cfg)) = Inr (mode, sel0, rej)"
    and e: "exact_final_selection sel0 counter counts (b_input_of cfg - opaque - (current + fixed + safety_margin cfg)) [] =
       Inr (ar_selected_blocks res, ar_projected_text res, exact, removed)"
    and t: "trace view (ar_selected_blocks res) (dup_rej @ rej @ removed) mode counts exact (b_input_of cfg) current fixed
       (safety_margin cfg) (current + fixed + safety_margin cfg) opaque
       (b_input_of cfg - opaque - (current + fixed + safety_margin cfg)) = Inr (ar_trace res)"
    and r: "traverse (duplicate_rejection counter) dups = Inr dup_rej"
    by (rule assemble_eq_Inr)
  note ids = deduplicate_facts(1,2)[OF d]
  have sp: "splits (cb_id ` set unique) (ar_selected_blocks res) (rej @ removed)"
    by (rule exact_final_splits[OF e]) (simp add: select_blocks_splits[OF ids(1) s])
  have sel: "bt_id ` set (at_selections (ar_trace res)) = cb_id ` set (ar_selected_blocks res)"
    using trace_facts(4)[OF t] by (metis list.set_map)
  have dup: "bt_id ` set dup_rej = cb_id ` set dups"
    using duplicate_rejection_facts(1)[OF r] by (metis list.set_map)
  have "set dups \<subseteq> set candidates"
    using dedup_loop_ids[of "ordered candidates" "[]" unique dups] d by (auto simp: deduplicate_def ordered_def)
  then have "cb_id ` set dups \<subseteq> cb_id ` set unique" unfolding ids(2) by blast
  moreover have "cb_id ` set (ar_selected_blocks res) \<union> bt_id ` set (rej @ removed) = cb_id ` set candidates"
    and apart: "cb_id ` set (ar_selected_blocks res) \<inter> bt_id ` set (rej @ removed) = {}"
    using sp by (simp_all only: splits_def ids(2))
  ultimately have "bt_id ` (set (at_selections (ar_trace res)) \<union> set (at_rejections (ar_trace res))) = cb_id ` set candidates"
    unfolding image_Un sel trace_facts(5)[OF t] set_append dup ids(2) by blast
  moreover have "bt_reason x = ''DUPLICATE_BLOCK_ID''"
    if "x \<in> set (at_rejections (ar_trace res))" "bt_id x \<in> bt_id ` set (at_selections (ar_trace res))" for x
  proof -
    from that(2) apart have "x \<notin> set (rej @ removed)" unfolding sel by blast
    with that(1) duplicate_rejection_facts(2)[OF r] show ?thesis by (auto simp: trace_facts(5)[OF t])
  qed
  ultimately show ?thesis using trace_facts(4)[OF t] by blast
qed

end
