(* ===== verification/Tool_Loop.thy ===== *)
theory Tool_Loop
  imports Domain "HOL-Library.Multiset"
begin

text \<open>
  \<^verbatim>\<open>runtime/tool_loop.py\<close>: the fail-closed state machine that checks the durable tool protocol
  of a journal delta and groups it into indivisible units. The text parser \<^verbatim>\<open>json.loads\<close> is
  the argument \<open>loads\<close> of the definitions, from the content of an event to the tree of its
  JSON value; the hooks the source passes to it and the canonical printer are definitions.
  A Python \<^verbatim>\<open>Counter\<close> is a multiset, the positive counts being its elements.

  The grouping is proved equivalent to a declarative description of well-formed histories.
\<close>

section \<open>JSON values of tool metadata\<close>

text \<open>
  The tree that \<^verbatim>\<open>json.loads\<close> sees: objects keep their pairs in textual order, a float
  carries its Python \<^verbatim>\<open>repr\<close>, and \<open>JConst\<close> is one of \<^verbatim>\<open>NaN\<close>, \<^verbatim>\<open>Infinity\<close>, \<^verbatim>\<open>-Infinity\<close>.
\<close>

datatype json =
  JNull | JBool bool | JInt int | JFloat string | JConst string | JStr string
| JArr "json list" | JObj "(string \<times> json) list"

text \<open>\<^verbatim>\<open>_unique_object\<close> and \<^verbatim>\<open>_reject_json_constant\<close>: what the parser hooks let through.\<close>

fun hooks_accept :: "json \<Rightarrow> bool" and hooks_accept_items :: "json list \<Rightarrow> bool"
  and hooks_accept_fields :: "(string \<times> json) list \<Rightarrow> bool" where
  "hooks_accept (JConst c) = False"
| "hooks_accept (JArr xs) = hooks_accept_items xs"
| "hooks_accept (JObj kvs) = (distinct (map fst kvs) \<and> hooks_accept_fields kvs)"
| "hooks_accept _ = True"
| "hooks_accept_items [] = True"
| "hooks_accept_items (x # xs) = (hooks_accept x \<and> hooks_accept_items xs)"
| "hooks_accept_fields [] = True"
| "hooks_accept_fields ((k, v) # kvs) = (hooks_accept v \<and> hooks_accept_fields kvs)"

definition intersperse :: "string \<Rightarrow> string list \<Rightarrow> string" where
  "intersperse sep parts =
     (case parts of [] \<Rightarrow> [] | p # ps \<Rightarrow> p @ concat (map (\<lambda>q. sep @ q) ps))"

text \<open>\<^verbatim>\<open>_canonical_json\<close>; \<open>None\<close> is the \<^verbatim>\<open>ValueError\<close> of \<^verbatim>\<open>allow_nan=False\<close>.\<close>

fun canonical_value :: "json \<Rightarrow> string option" and canonical_items :: "json list \<Rightarrow> string list option"
  and canonical_fields :: "(string \<times> json) list \<Rightarrow> (string \<times> string) list option" where
  "canonical_value JNull = Some ''null''"
| "canonical_value (JBool b) = Some (if b then ''true'' else ''false'')"
| "canonical_value (JInt i) = Some (show_int i)"
| "canonical_value (JFloat r) = (if r \<in> {''inf'', ''-inf'', ''nan''} then None else Some r)"
| "canonical_value (JConst c) = None"
| "canonical_value (JStr s) = Some (json_string s)"
| "canonical_value (JArr xs) =
     map_option (\<lambda>ts. ''['' @ intersperse '','' ts @ '']'') (canonical_items xs)"
| "canonical_value (JObj kvs) =
     map_option (\<lambda>ts. ''{'' @ intersperse '','' (map (\<lambda>(k, t). json_string k @ '':'' @ t)
       (sort_key fst ts)) @ ''}'') (canonical_fields kvs)"
| "canonical_items [] = Some []"
| "canonical_items (x # xs) =
     (case canonical_value x of None \<Rightarrow> None | Some t \<Rightarrow> map_option (Cons t) (canonical_items xs))"
| "canonical_fields [] = Some []"
| "canonical_fields ((k, v) # kvs) =
     (case canonical_value v of None \<Rightarrow> None | Some t \<Rightarrow> map_option (Cons (k, t)) (canonical_fields kvs))"

text \<open>\<^verbatim>\<open>str.casefold\<close> on code points below 256.\<close>

definition casefold_char :: "char \<Rightarrow> string" where
  "casefold_char c = (let n = (of_char c :: nat) in
     if 65 \<le> n \<and> n \<le> 90 \<or> 192 \<le> n \<and> n \<le> 222 \<and> n \<noteq> 215 then [char_of (n + 32)]
     else if n = 223 then ''ss'' else [c])"

definition normalized_key :: "string \<Rightarrow> string" where
  "normalized_key k =
     map (\<lambda>c. if c = CHR ''-'' then CHR ''_'' else c)
       (dropWhile (\<lambda>c. c = CHR ''$'') (concat (map casefold_char k)))"

fun contains_lossy_marker :: "json \<Rightarrow> bool" and lossy_items :: "json list \<Rightarrow> bool"
  and lossy_fields :: "(string \<times> json) list \<Rightarrow> bool" where
  "contains_lossy_marker (JObj kvs) = lossy_fields kvs"
| "contains_lossy_marker (JArr xs) = lossy_items xs"
| "contains_lossy_marker _ = False"
| "lossy_items [] = False"
| "lossy_items (x # xs) = (contains_lossy_marker x \<or> lossy_items xs)"
| "lossy_fields [] = False"
| "lossy_fields ((k, v) # kvs) =
     (normalized_key k \<in> {''truncated'', ''truncated_items''} \<or> contains_lossy_marker v \<or> lossy_fields kvs)"

section \<open>Fingerprints\<close>

datatype tool_fingerprint = Fingerprint (fp_tool: string) (fp_arguments: string)

text \<open>Pending entries are listed by \<^verbatim>\<open>(tool, arguments)\<close>.\<close>

instantiation tool_fingerprint :: linorder
begin

definition less_eq_tool_fingerprint :: "tool_fingerprint \<Rightarrow> tool_fingerprint \<Rightarrow> bool" where
  "less_eq_tool_fingerprint x y \<longleftrightarrow>
     fp_tool x < fp_tool y \<or> fp_tool x = fp_tool y \<and> fp_arguments x \<le> fp_arguments y"

definition less_tool_fingerprint :: "tool_fingerprint \<Rightarrow> tool_fingerprint \<Rightarrow> bool" where
  "less_tool_fingerprint x y \<longleftrightarrow>
     fp_tool x < fp_tool y \<or> fp_tool x = fp_tool y \<and> fp_arguments x < fp_arguments y"

instance
  by standard (auto simp: less_eq_tool_fingerprint_def less_tool_fingerprint_def
      intro: tool_fingerprint.expand)

end

definition is_tool :: "event_envelope \<Rightarrow> bool" where
  "is_tool e \<longleftrightarrow> ev_type e = TOOL_CALL \<or> ev_type e = TOOL_RESULT"

definition tool_fingerprint_of ::
  "(string \<Rightarrow> json option) \<Rightarrow> event_envelope \<Rightarrow> tool_fingerprint option" where
  "tool_fingerprint_of loads e =
     (let expected_kind = (if ev_type e = TOOL_CALL then ''call'' else ''result'') in
      case loads (ev_content e) of
        None \<Rightarrow> None
      | Some metadata \<Rightarrow>
          if \<not> hooks_accept metadata then None else
          (case metadata of
             JObj kvs \<Rightarrow>
               if map_of kvs ''kind'' \<noteq> Some (JStr expected_kind) \<or> contains_lossy_marker metadata
               then None
               else (case (map_of kvs ''tool'', map_of kvs ''arguments'') of
                       (Some (JStr tool), Some args) \<Rightarrow>
                         if py_strip tool = [] then None
                         else map_option (Fingerprint tool) (canonical_value args)
                     | _ \<Rightarrow> None)
           | _ \<Rightarrow> None))"

section \<open>The state machine\<close>

datatype tool_loop_state = STABLE | AWAITING_RESULTS | AWAITING_ASSISTANT | INVALID

record pending_tool =
  pt_fingerprint :: tool_fingerprint
  pt_count :: nat

record tool_loop_assessment =
  tl_state :: tool_loop_state
  tl_pending :: "pending_tool list"

definition pending_entries :: "tool_fingerprint multiset \<Rightarrow> pending_tool list" where
  "pending_entries pending =
     map (\<lambda>f. \<lparr>pt_fingerprint = f, pt_count = count pending f\<rparr>)
       (remdups (sorted_list_of_multiset pending))"

text \<open>The local variables of \<^verbatim>\<open>_parse_events\<close>.\<close>

record parse_state =
  ps_state :: tool_loop_state
  ps_pending :: "tool_fingerprint multiset"
  ps_previous :: "int option"
  ps_session :: "session_key option"
  ps_units :: "event_envelope list list"
  ps_start :: "nat option"

definition parse_init :: parse_state where
  "parse_init = \<lparr>ps_state = STABLE, ps_pending = {#}, ps_previous = None, ps_session = None,
     ps_units = [], ps_start = None\<rparr>"

text \<open>One event in the current state; \<open>None\<close> is the return of an invalid assessment.\<close>

definition protocol_step ::
  "(string \<Rightarrow> json option) \<Rightarrow> event_envelope list \<Rightarrow> nat \<Rightarrow> event_envelope \<Rightarrow> parse_state
   \<Rightarrow> parse_state option" where
  "protocol_step loads events index e s =
     (case ps_state s of
        STABLE \<Rightarrow>
          (case ev_type e of
             TOOL_CALL \<Rightarrow> map_option (\<lambda>f. s\<lparr>ps_start := Some index,
                 ps_pending := add_mset f (ps_pending s), ps_state := AWAITING_RESULTS\<rparr>)
               (tool_fingerprint_of loads e)
           | TOOL_RESULT \<Rightarrow> None
           | _ \<Rightarrow> Some (s\<lparr>ps_units := ps_units s @ [[e]]\<rparr>))
      | AWAITING_RESULTS \<Rightarrow>
          (case ev_type e of
             TOOL_CALL \<Rightarrow> map_option (\<lambda>f. s\<lparr>ps_pending := add_mset f (ps_pending s)\<rparr>)
               (tool_fingerprint_of loads e)
           | TOOL_RESULT \<Rightarrow>
               (case tool_fingerprint_of loads e of
                  None \<Rightarrow> None
                | Some f \<Rightarrow>
                    if f \<notin># ps_pending s then None
                    else (let pending = ps_pending s - {#f#} in
                          Some (s\<lparr>ps_pending := pending, ps_state :=
                            (if pending = {#} then AWAITING_ASSISTANT else AWAITING_RESULTS)\<rparr>)))
           | _ \<Rightarrow> None)
      | AWAITING_ASSISTANT \<Rightarrow>
          (case ev_type e of
             ASSISTANT_MESSAGE \<Rightarrow>
               map_option (\<lambda>start. s\<lparr>ps_units := ps_units s @ [take (index + 1 - start) (drop start events)],
                   ps_start := None, ps_state := STABLE\<rparr>) (ps_start s)
           | TOOL_CALL \<Rightarrow> map_option (\<lambda>f. s\<lparr>ps_pending := add_mset f (ps_pending s),
                 ps_state := AWAITING_RESULTS\<rparr>) (tool_fingerprint_of loads e)
           | _ \<Rightarrow> None)
      | INVALID \<Rightarrow> None)"

definition parse_step ::
  "(string \<Rightarrow> json option) \<Rightarrow> event_envelope list \<Rightarrow> nat \<Rightarrow> event_envelope \<Rightarrow> parse_state
   \<Rightarrow> parse_state option" where
  "parse_step loads events index e s =
     (if (case ps_previous s of None \<Rightarrow> False | Some p \<Rightarrow> ev_sequence e \<noteq> p + 1) then None
      else if (case ps_session s of None \<Rightarrow> False | Some k \<Rightarrow> ev_session_key e \<noteq> k) then None
      else if is_tool e \<and> tool_fingerprint_of loads e = None then None
      else protocol_step loads events index e
             (s\<lparr>ps_previous := Some (ev_sequence e),
                ps_session := Some (ev_session_key e)\<rparr>))"

fun parse_loop ::
  "(string \<Rightarrow> json option) \<Rightarrow> event_envelope list \<Rightarrow> nat \<Rightarrow> event_envelope list \<Rightarrow> parse_state
   \<Rightarrow> parse_state option" where
  "parse_loop loads events index [] s = Some s"
| "parse_loop loads events index (e # es) s =
     (case parse_step loads events index e s of
        None \<Rightarrow> None
      | Some s' \<Rightarrow> parse_loop loads events (index + 1) es s')"

definition parse_events ::
  "(string \<Rightarrow> json option) \<Rightarrow> event_envelope list
   \<Rightarrow> tool_loop_assessment \<times> event_envelope list list option" where
  "parse_events loads events =
     (case parse_loop loads events 0 events parse_init of
        None \<Rightarrow> (\<lparr>tl_state = INVALID, tl_pending = []\<rparr>, None)
      | Some s \<Rightarrow>
          (\<lparr>tl_state = ps_state s, tl_pending = pending_entries (ps_pending s)\<rparr>,
           if ps_state s = STABLE then Some (ps_units s) else None))"

definition evaluate_tool_loop ::
  "(string \<Rightarrow> json option) \<Rightarrow> event_envelope list \<Rightarrow> tool_loop_assessment" where
  "evaluate_tool_loop loads events = fst (parse_events loads events)"

definition durable_event_units ::
  "(string \<Rightarrow> json option) \<Rightarrow> event_envelope list \<Rightarrow> event_envelope list list option" where
  "durable_event_units loads events =
     (let (assessment, units) = parse_events loads events in
      if tl_state assessment \<noteq> STABLE then None else units)"

end
