(* ===== verification/Tool_Loop_Laws.thy ===== *)
theory Tool_Loop_Laws
  imports Tool_Loop
begin

text \<open>
  The declarative description of well-formed tool histories, and the proof that the state
  machine of Tool_Loop accepts exactly those and cuts them into exactly the described units.
\<close>

section \<open>Well-formed histories\<close>

definition calls :: "(string \<Rightarrow> json option) \<Rightarrow> event_envelope list \<Rightarrow> tool_fingerprint multiset" where
  "calls loads es = image_mset (the \<circ> tool_fingerprint_of loads) (filter_mset (\<lambda>e. ev_type e = TOOL_CALL) (mset es))"

definition results :: "(string \<Rightarrow> json option) \<Rightarrow> event_envelope list \<Rightarrow> tool_fingerprint multiset" where
  "results loads es = image_mset (the \<circ> tool_fingerprint_of loads) (filter_mset (\<lambda>e. ev_type e = TOOL_RESULT) (mset es))"

text \<open>
  A run of tool events in which no result comes before its call: every event has a
  fingerprint, and in every prefix the results are among the calls.
\<close>

definition tool_run :: "(string \<Rightarrow> json option) \<Rightarrow> event_envelope list \<Rightarrow> bool" where
  "tool_run loads ts \<longleftrightarrow>
     (\<forall>e \<in> set ts. is_tool e \<and> tool_fingerprint_of loads e \<noteq> None) \<and>
     (\<forall>n \<le> length ts. results loads (take n ts) \<subseteq># calls loads (take n ts))"

text \<open>
  A unit is one ordinary message, or a run of tool events that answers every call, closed by
  an assistant message.
\<close>

definition unit_ok :: "(string \<Rightarrow> json option) \<Rightarrow> event_envelope list \<Rightarrow> bool" where
  "unit_ok loads u \<longleftrightarrow>
     (\<exists>e. u = [e] \<and> \<not> is_tool e) \<or>
     (\<exists>ts a. u = ts @ [a] \<and> ts \<noteq> [] \<and> tool_run loads ts \<and> results loads ts = calls loads ts \<and>
        ev_type a = ASSISTANT_MESSAGE)"

definition one_session :: "event_envelope list \<Rightarrow> bool" where
  "one_session = successively (\<lambda>e e'. ev_session_key e' = ev_session_key e)"

definition contiguous :: "event_envelope list \<Rightarrow> bool" where
  "contiguous = successively (\<lambda>e e'. ev_sequence e' = ev_sequence e + 1)"

lemma calls_simps [simp]:
  "calls loads [] = {#}" "results loads [] = {#}"
  "calls loads (es @ es') = calls loads es + calls loads es'"
  "results loads (es @ es') = results loads es + results loads es'"
  by (simp_all add: calls_def results_def)

lemma calls_Cons [simp]:
  "calls loads (e # es) =
     (if ev_type e = TOOL_CALL then {#the (tool_fingerprint_of loads e)#} else {#}) + calls loads es"
  "results loads (e # es) =
     (if ev_type e = TOOL_RESULT then {#the (tool_fingerprint_of loads e)#} else {#}) + results loads es"
  by (simp_all add: calls_def results_def)

lemma contiguous_snoc:
  "contiguous (es @ [e]) \<longleftrightarrow> contiguous es \<and> (es = [] \<or> ev_sequence e = ev_sequence (last es) + 1)"
  by (auto simp: contiguous_def successively_append_iff)

lemma one_session_snoc:
  "one_session (es @ [e]) \<longleftrightarrow> one_session es \<and> (es = [] \<or> ev_session_key e = ev_session_key (last es))"
  by (auto simp: one_session_def successively_append_iff)

lemma tool_run_snoc:
  "tool_run loads (ts @ [e]) \<longleftrightarrow> tool_run loads ts \<and> is_tool e \<and> tool_fingerprint_of loads e \<noteq> None \<and>
     results loads (ts @ [e]) \<subseteq># calls loads (ts @ [e])"
  unfolding tool_run_def by (auto simp: le_Suc_eq take_append all_conj_distrib)

lemma tool_run_balance: "tool_run loads ts \<Longrightarrow> results loads ts \<subseteq># calls loads ts"
  unfolding tool_run_def by (metis order_refl take_all)

lemma tool_run_Nil [simp]: "tool_run loads []"
  by (simp add: tool_run_def)

section \<open>The invariant of the loop\<close>

text \<open>
  After the prefix \<open>p\<close>: the closed units and the open run make up \<open>p\<close>, and the pending
  multiset is what the open run has called but not yet answered.
\<close>

definition parse_inv :: "(string \<Rightarrow> json option) \<Rightarrow> event_envelope list \<Rightarrow> parse_state \<Rightarrow> bool" where
  "parse_inv loads p s \<longleftrightarrow> contiguous p \<and> one_session p \<and>
     ps_previous s = (if p = [] then None else Some (ev_sequence (last p))) \<and>
     ps_session s = (if p = [] then None else Some (ev_session_key (last p))) \<and>
     (\<forall>u \<in> set (ps_units s). unit_ok loads u) \<and>
     (\<exists>open_run. p = concat (ps_units s) @ open_run \<and> tool_run loads open_run \<and>
        calls loads open_run = ps_pending s + results loads open_run \<and>
        ps_start s = (if open_run = [] then None else Some (length (concat (ps_units s)))) \<and>
        ps_state s = (if open_run = [] then STABLE
          else if ps_pending s = {#} then AWAITING_ASSISTANT else AWAITING_RESULTS))"

lemma parse_inv_init: "parse_inv loads [] parse_init"
  by (simp add: parse_inv_def parse_init_def contiguous_def one_session_def)

lemma is_tool_cases: "is_tool e \<Longrightarrow> ev_type e \<noteq> USER_MESSAGE \<and> ev_type e \<noteq> ASSISTANT_MESSAGE"
  by (auto simp: is_tool_def)

text \<open>What one event does to the protocol part, seen from the open run.\<close>

lemma run_snoc_call:
  assumes "tool_run loads r" "ev_type e = TOOL_CALL" "tool_fingerprint_of loads e = Some f"
  shows "tool_run loads (r @ [e])" "calls loads (r @ [e]) = add_mset f (calls loads r)"
    "results loads (r @ [e]) = results loads r"
  using assms tool_run_balance[OF assms(1)]
  by (auto simp: tool_run_snoc is_tool_def intro: subset_mset.order_trans)

lemma run_snoc_result:
  assumes "tool_run loads r" "ev_type e = TOOL_RESULT" "tool_fingerprint_of loads e = Some f"
    "calls loads r = m + results loads r" "f \<in># m"
  shows "tool_run loads (r @ [e])" "calls loads (r @ [e]) = (m - {#f#}) + results loads (r @ [e])"
proof -
  from assms(5) obtain m' where "m = add_mset f m'" by (metis insert_DiffM)
  with assms show "tool_run loads (r @ [e])" "calls loads (r @ [e]) = (m - {#f#}) + results loads (r @ [e])"
    by (auto simp: tool_run_snoc is_tool_def)
qed

lemma parse_step_inv:
  assumes inv: "parse_inv loads p s" and st: "parse_step loads (p @ e # rest) (length p) e s = Some s'"
  shows "parse_inv loads (p @ [e]) s'"
proof -
  from inv obtain r where r: "p = concat (ps_units s) @ r" "tool_run loads r"
    "calls loads r = ps_pending s + results loads r"
    "ps_start s = (if r = [] then None else Some (length (concat (ps_units s))))"
    "ps_state s = (if r = [] then STABLE else if ps_pending s = {#} then AWAITING_ASSISTANT else AWAITING_RESULTS)"
    by (auto simp: parse_inv_def)
  let ?s = "s\<lparr>ps_previous := Some (ev_sequence e), ps_session := Some (ev_session_key e)\<rparr>"
  from st have seq: "p = [] \<or> ev_sequence e = ev_sequence (last p) + 1"
    "p = [] \<or> ev_session_key e = ev_session_key (last p)"
    and ps: "protocol_step loads (p @ e # rest) (length p) e ?s = Some s'"
    using inv by (auto simp: parse_step_def parse_inv_def split: if_splits)
  have base: "contiguous (p @ [e])" "one_session (p @ [e])" using seq inv
    by (auto simp: parse_inv_def contiguous_snoc one_session_snoc)
  have units: "\<forall>u \<in> set (ps_units s). unit_ok loads u" using inv by (simp add: parse_inv_def)
  have prev: "ps_previous s' = Some (ev_sequence e)" "ps_session s' = Some (ev_session_key e)"
    using ps by (auto simp: protocol_step_def split: tool_loop_state.splits event_type.splits option.splits if_splits)
  consider (message) "r = []" "\<not> is_tool e" "s' = ?s\<lparr>ps_units := ps_units s @ [[e]]\<rparr>"
  | (call) f where "ev_type e = TOOL_CALL" "tool_fingerprint_of loads e = Some f"
      "ps_units s' = ps_units s" "ps_pending s' = add_mset f (ps_pending s)" "ps_state s' = AWAITING_RESULTS"
      "ps_start s' = Some (length (concat (ps_units s)))"
  | (result) f where "ev_type e = TOOL_RESULT" "tool_fingerprint_of loads e = Some f" "f \<in># ps_pending s"
      "r \<noteq> []" "ps_units s' = ps_units s" "ps_pending s' = ps_pending s - {#f#}" "ps_start s' = ps_start s"
      "ps_state s' = (if ps_pending s' = {#} then AWAITING_ASSISTANT else AWAITING_RESULTS)"
  | (close) "ev_type e = ASSISTANT_MESSAGE" "ps_pending s = {#}" "r \<noteq> []"
      "ps_units s' = ps_units s @ [r @ [e]]" "ps_pending s' = {#}" "ps_start s' = None" "ps_state s' = STABLE"
    using ps r
    by (auto simp: protocol_step_def is_tool_def split: tool_loop_state.splits event_type.splits option.splits if_splits)
  then show ?thesis
  proof cases
    case message
    then show ?thesis using base prev units r by (auto simp: parse_inv_def unit_ok_def)
  next
    case call
    from run_snoc_call[OF r(2) call(1,2)] show ?thesis
      using base prev units r call unfolding parse_inv_def
      by (intro conjI exI[of _ "r @ [e]"]) auto
  next
    case result
    from run_snoc_result[OF r(2) result(1,2) r(3) result(3)] show ?thesis
      using base prev units r result unfolding parse_inv_def
      by (intro conjI exI[of _ "r @ [e]"]) auto
  next
    case close
    have "unit_ok loads (r @ [e])" using close r(2,3) by (auto simp: unit_ok_def)
    then show ?thesis using base prev units r close unfolding parse_inv_def
      by (intro conjI exI[of _ "[]"]) auto
  qed
qed

lemma parse_loop_inv:
  assumes "parse_inv loads p s" "parse_loop loads (p @ es @ rest) (length p) es s = Some s'"
  shows "parse_inv loads (p @ es) s'"
  using assms
proof (induction es arbitrary: p s)
  case (Cons e es)
  then obtain s1 where s1: "parse_step loads (p @ e # es @ rest) (length p) e s = Some s1"
    "parse_loop loads (p @ e # es @ rest) (Suc (length p)) es s1 = Some s'" by (auto split: option.splits)
  from Cons.IH[OF parse_step_inv[OF Cons.prems(1) s1(1)]] s1(2) show ?case by simp
qed simp

lemma parse_loop_append:
  "parse_loop loads events n (xs @ ys) s =
     (case parse_loop loads events n xs s of None \<Rightarrow> None
      | Some s' \<Rightarrow> parse_loop loads events (n + length xs) ys s')"
  by (induction xs arbitrary: n s) (simp_all split: option.split)

section \<open>Completeness\<close>

text \<open>An event in sequence reaches the protocol part.\<close>

lemma parse_step_in_sequence:
  assumes "parse_inv loads p s" "contiguous (p @ [e])" "one_session (p @ [e])"
    and "is_tool e \<Longrightarrow> tool_fingerprint_of loads e \<noteq> None"
  shows "parse_step loads events n e s = protocol_step loads events n e
    (s\<lparr>ps_previous := Some (ev_sequence e), ps_session := Some (ev_session_key e)\<rparr>)"
  using assms by (auto simp: parse_step_def parse_inv_def contiguous_snoc one_session_snoc)

definition accepts_run ::
  "(string \<Rightarrow> json option) \<Rightarrow> event_envelope list \<Rightarrow> event_envelope list \<Rightarrow> event_envelope list
   \<Rightarrow> parse_state \<Rightarrow> parse_state \<Rightarrow> bool" where
  "accepts_run loads p ts rest s s' \<longleftrightarrow>
     parse_loop loads (p @ ts @ rest) (length p) ts s = Some s' \<and> ps_units s' = ps_units s \<and>
     calls loads ts = ps_pending s' + results loads ts \<and>
     ps_start s' = (if ts = [] then None else Some (length p)) \<and>
     ps_state s' = (if ts = [] then STABLE
          else if ps_pending s' = {#} then AWAITING_ASSISTANT else AWAITING_RESULTS)"

lemma stable_units: "parse_inv loads p s \<Longrightarrow> ps_state s = STABLE \<Longrightarrow>
    p = concat (ps_units s) \<and> ps_pending s = {#} \<and> ps_start s = None"
  by (auto simp: parse_inv_def split: if_splits)

lemma contiguous_prefix: "contiguous (xs @ ys) \<Longrightarrow> contiguous xs"
  by (simp add: contiguous_def successively_append_iff)

lemma one_session_prefix: "one_session (xs @ ys) \<Longrightarrow> one_session xs"
  by (simp add: one_session_def successively_append_iff)

lemma result_pending:
  assumes "tool_run loads (ts @ [e])" "ev_type e = TOOL_RESULT" "tool_fingerprint_of loads e = Some f"
    "calls loads ts = m + results loads ts"
  shows "f \<in># m"
  using assms by (auto simp: tool_run_snoc)

lemma accepts_tool_run:
  assumes inv: "parse_inv loads p s" and stable: "ps_state s = STABLE" and run: "tool_run loads ts"
    and seq: "contiguous (p @ ts)" "one_session (p @ ts)"
  shows "\<exists>s'. accepts_run loads p ts rest s s'"
  using run seq
proof (induction ts arbitrary: rest rule: rev_induct)
  case Nil
  with stable_units[OF inv stable] stable show ?case by (simp add: accepts_run_def)
next
  case (snoc e ts)
  have "tool_run loads ts" using snoc.prems(1) by (simp add: tool_run_snoc)
  then obtain s1 where a1: "accepts_run loads p ts (e # rest) s s1"
    using snoc.IH[of "e # rest"] snoc.prems(2,3) contiguous_prefix[of "p @ ts" "[e]"]
      one_session_prefix[of "p @ ts" "[e]"] by auto
  then have l1: "parse_loop loads (p @ ts @ e # rest) (length p) ts s = Some s1" by (simp add: accepts_run_def)
  then have inv1: "parse_inv loads (p @ ts) s1" using parse_loop_inv[OF inv, of ts "e # rest"] by simp
  from snoc.prems(1) obtain f where e: "is_tool e" "tool_fingerprint_of loads e = Some f"
    by (auto simp: tool_run_snoc)
  have step: "parse_step loads (p @ ts @ e # rest) (length p + length ts) e s1 =
      protocol_step loads (p @ ts @ e # rest) (length p + length ts) e
       (s1\<lparr>ps_previous := Some (ev_sequence e), ps_session := Some (ev_session_key e)\<rparr>)"
    using parse_step_in_sequence[OF inv1] snoc.prems(2,3) e(2) by simp
  have "\<exists>s'. parse_step loads (p @ ts @ e # rest) (length p + length ts) e s1 = Some s' \<and>
      ps_units s' = ps_units s \<and> calls loads (ts @ [e]) = ps_pending s' + results loads (ts @ [e]) \<and>
      ps_start s' = Some (length p) \<and>
      ps_state s' = (if ps_pending s' = {#} then AWAITING_ASSISTANT else AWAITING_RESULTS)"
  proof (cases "ev_type e = TOOL_CALL")
    case True
    have f: "ps_units s1 = ps_units s" "calls loads ts = ps_pending s1 + results loads ts"
      "ps_start s1 = (if ts = [] then None else Some (length p))"
      "ps_state s1 = STABLE \<and> ts = [] \<or> ts \<noteq> [] \<and> (ps_state s1 = AWAITING_RESULTS \<or> ps_state s1 = AWAITING_ASSISTANT)"
      using a1 by (simp_all add: accepts_run_def)
    have "ts = [] \<Longrightarrow> ps_pending s1 = {#}" using f(2) by simp
    with f(4) True show ?thesis unfolding step
      by (elim disjE conjE) (simp_all add: protocol_step_def e(2) f(1-3))
  next
    case False
    then have r: "ev_type e = TOOL_RESULT" using e(1) by (simp add: is_tool_def)
    have "f \<in># ps_pending s1"
      using result_pending[OF snoc.prems(1) r e(2)] a1 by (simp add: accepts_run_def)
    then obtain m' where "ps_pending s1 = add_mset f m'" by (metis insert_DiffM)
    with a1 e(2) r show ?thesis unfolding step
      by (cases "ts = []"; cases "m' = {#}") (simp_all add: protocol_step_def accepts_run_def)
  qed
  with l1 show ?case by (auto simp: accepts_run_def parse_loop_append)
qed

text \<open>Every well-formed unit is accepted from a stable state, and closed as one unit.\<close>

lemma accepts_unit:
  assumes inv: "parse_inv loads p s" and stable: "ps_state s = STABLE" and u: "unit_ok loads u"
    and seq: "contiguous (p @ u)" "one_session (p @ u)"
  shows "\<exists>s'. parse_loop loads (p @ u @ rest) (length p) u s = Some s' \<and>
    ps_state s' = STABLE \<and> ps_units s' = ps_units s @ [u]"
  using u unfolding unit_ok_def
proof (elim disjE exE conjE)
  fix e assume "u = [e]" "\<not> is_tool e"
  then show ?thesis using parse_step_in_sequence[OF inv, of e] seq stable
    by (auto simp: protocol_step_def is_tool_def split: event_type.splits)
next
  fix ts a assume t: "u = ts @ [a]" "ts \<noteq> []" "tool_run loads ts" "results loads ts = calls loads ts"
    "ev_type a = ASSISTANT_MESSAGE"
  have seq': "contiguous (p @ ts)" "one_session (p @ ts)"
    using seq contiguous_prefix[of "p @ ts" "[a]"] one_session_prefix[of "p @ ts" "[a]"] t(1) by auto
  obtain s1 where a1: "accepts_run loads p ts (a # rest) s s1"
    using accepts_tool_run[OF inv stable t(3) seq'] by blast
  then have l1: "parse_loop loads (p @ ts @ a # rest) (length p) ts s = Some s1" by (simp add: accepts_run_def)
  then have inv1: "parse_inv loads (p @ ts) s1" using parse_loop_inv[OF inv, of ts "a # rest"] by simp
  have "\<not> is_tool a" using t(5) by (simp add: is_tool_def)
  then have step: "parse_step loads (p @ ts @ a # rest) (length p + length ts) a s1 =
      protocol_step loads (p @ ts @ a # rest) (length p + length ts) a
       (s1\<lparr>ps_previous := Some (ev_sequence a), ps_session := Some (ev_session_key a)\<rparr>)"
    using seq t(1) by (intro parse_step_in_sequence[OF inv1]) auto
  show ?thesis using a1 l1 t step by (auto simp: accepts_run_def protocol_step_def parse_loop_append)
qed

lemma accepts_units:
  assumes "parse_inv loads p s" "ps_state s = STABLE" "\<forall>u \<in> set us. unit_ok loads u"
    and "contiguous (p @ concat us)" "one_session (p @ concat us)"
  shows "\<exists>s'. parse_loop loads (p @ concat us) (length p) (concat us) s = Some s' \<and>
    ps_state s' = STABLE \<and> ps_units s' = ps_units s @ us"
  using assms
proof (induction us arbitrary: p s)
  case (Cons u us)
  have pre: "contiguous (p @ u)" "one_session (p @ u)"
    using Cons.prems(4,5) contiguous_prefix[of "p @ u" "concat us"] one_session_prefix[of "p @ u" "concat us"]
    by auto
  obtain s1 where s1: "parse_loop loads (p @ u @ concat us) (length p) u s = Some s1"
      "ps_state s1 = STABLE" "ps_units s1 = ps_units s @ [u]"
    using accepts_unit[OF Cons.prems(1,2) _ pre] Cons.prems(3) by fastforce
  have "parse_inv loads (p @ u) s1" by (rule parse_loop_inv[OF Cons.prems(1) s1(1)])
  from Cons.IH[OF this s1(2)] Cons.prems(3-5) s1 show ?case by (auto simp: parse_loop_append)
qed simp

lemma durable_units_spec:
  "durable_event_units loads events = Some us \<longleftrightarrow>
     contiguous events \<and> one_session events \<and> concat us = events \<and> (\<forall>u \<in> set us. unit_ok loads u)"
proof
  assume "durable_event_units loads events = Some us"
  then obtain s where s: "parse_loop loads events 0 events parse_init = Some s" "ps_state s = STABLE" "ps_units s = us"
    by (auto simp: durable_event_units_def parse_events_def split: option.splits if_splits)
  then have "parse_inv loads events s" using parse_loop_inv[OF parse_inv_init, of loads events "[]"] by simp
  with s stable_units[OF this s(2)] show "contiguous events \<and> one_session events \<and> concat us = events \<and>
      (\<forall>u \<in> set us. unit_ok loads u)" by (auto simp: parse_inv_def)
next
  assume "contiguous events \<and> one_session events \<and> concat us = events \<and> (\<forall>u \<in> set us. unit_ok loads u)"
  then show "durable_event_units loads events = Some us"
    using accepts_units[OF parse_inv_init, of us loads]
    by (auto simp: parse_init_def durable_event_units_def parse_events_def)
qed

section \<open>Properties\<close>

text \<open>
  C13. The tool-loop state machine groups a journal delta exactly as the declarative
  description says: it returns units if and only if the events are contiguous, belong to one
  session and are the concatenation of those units, each an ordinary message or a run of tool
  events in which no result precedes its call and every call is answered, closed by an
  assistant message. In particular nothing is dropped, reordered or split.
\<close>

theorem durable_event_units_iff:
  "durable_event_units loads events = Some us \<longleftrightarrow>
     contiguous events \<and> one_session events \<and> concat us = events \<and> (\<forall>u \<in> set us. unit_ok loads u)"
  by (rule durable_units_spec)

end
