(* ===== verification/Segmenter.thy ===== *)
theory Segmenter
  imports Tool_Loop_Laws
begin

text \<open>
  \<^verbatim>\<open>compaction/segmenter.py\<close>: the cut of a journal delta into bounded segments along durable
  units. The token counts are a mapping with distinct keys, an association list here.
\<close>

section \<open>The segmenter\<close>

datatype segmenter_error =
  SEGMENTER_EMPTY_EVENTS | SEGMENTER_SESSION_MISMATCH | SEGMENTER_NONCONTIGUOUS_EVENTS
| TOKEN_METRIC_MISSING | SEGMENTER_TOOL_LOOP_INVALID

datatype boundary_reason = PREFERRED | MAX_EVENTS | MAX_TOKENS | OVERSIZED_EVENT | END_OF_INPUT

record segmenter_config =
  max_events_per_segment :: int
  max_tokens_per_segment :: int
  max_preferred_boundaries :: int

definition valid_segmenter_config :: "segmenter_config \<Rightarrow> bool" where
  "valid_segmenter_config c \<longleftrightarrow> max_events_per_segment c > 0 \<and> max_tokens_per_segment c > 0 \<and>
     max_preferred_boundaries c \<ge> 0"

record event_segment =
  seg_start :: int
  seg_end :: int
  seg_events :: "event_envelope list"
  seg_token_cost :: int
  seg_reason :: boundary_reason

fun validate_from :: "session_key \<Rightarrow> int \<Rightarrow> event_envelope list \<Rightarrow> segmenter_error + unit" where
  "validate_from k n [] = Inr ()"
| "validate_from k n (e # es) =
     bind (guard (ev_session_key e = k) SEGMENTER_SESSION_MISMATCH) (\<lambda>_.
     bind (guard (ev_sequence e = n) SEGMENTER_NONCONTIGUOUS_EVENTS) (\<lambda>_.
     validate_from k (n + 1) es))"

definition validate_events :: "event_envelope list \<Rightarrow> segmenter_error + unit" where
  "validate_events events =
     (case events of
        [] \<Rightarrow> Inl SEGMENTER_EMPTY_EVENTS
      | e # _ \<Rightarrow> validate_from (ev_session_key e) (ev_sequence e) events)"

definition normalize_preferred_boundaries :: "event_envelope list \<Rightarrow> int list \<Rightarrow> int \<Rightarrow> int list" where
  "normalize_preferred_boundaries events preferred limit =
     filter (\<lambda>n. ev_sequence (hd events) \<le> n \<and> n < ev_sequence (last events)) (take (nat limit) preferred)"

record segment_state =
  sg_segments :: "event_segment list"
  sg_current :: "event_envelope list"
  sg_cost :: int

definition close_current :: "boundary_reason \<Rightarrow> segment_state \<Rightarrow> segment_state" where
  "close_current reason s =
     \<lparr>sg_segments = sg_segments s @
        [\<lparr>seg_start = ev_sequence (hd (sg_current s)), seg_end = ev_sequence (last (sg_current s)),
          seg_events = sg_current s, seg_token_cost = sg_cost s, seg_reason = reason\<rparr>],
      sg_current = [], sg_cost = 0\<rparr>"

definition event_tokens :: "(string \<times> int) list \<Rightarrow> event_envelope list \<Rightarrow> int" where
  "event_tokens counts es = sum_list (map (\<lambda>e. the (map_of counts (ev_id e))) es)"

text \<open>The two halves of the loop body: making room, then taking the unit in.\<close>

definition make_room :: "segmenter_config \<Rightarrow> event_envelope list \<Rightarrow> int \<Rightarrow> segment_state \<Rightarrow> segment_state" where
  "make_room cfg u cost s =
     (if sg_current s \<noteq> [] \<and> int (length (sg_current s)) + int (length u) > max_events_per_segment cfg
      then close_current MAX_EVENTS s
      else if sg_current s \<noteq> [] \<and> sg_cost s + cost > max_tokens_per_segment cfg
      then close_current MAX_TOKENS s else s)"

definition oversized :: "segmenter_config \<Rightarrow> event_envelope list \<Rightarrow> int \<Rightarrow> bool" where
  "oversized cfg u cost \<longleftrightarrow>
     int (length u) > max_events_per_segment cfg \<or> cost > max_tokens_per_segment cfg"

definition take_unit ::
  "segmenter_config \<Rightarrow> int list \<Rightarrow> bool \<Rightarrow> event_envelope list \<Rightarrow> int \<Rightarrow> segment_state \<Rightarrow> segment_state" where
  "take_unit cfg preferred is_last u cost s0 =
     (let s = s0\<lparr>sg_current := sg_current s0 @ u, sg_cost := sg_cost s0 + cost\<rparr> in
      if oversized cfg u cost then close_current OVERSIZED_EVENT s
      else if is_last then close_current END_OF_INPUT s
      else if int (length (sg_current s)) \<ge> max_events_per_segment cfg then close_current MAX_EVENTS s
      else if sg_cost s \<ge> max_tokens_per_segment cfg then close_current MAX_TOKENS s
      else if \<exists>e \<in> set u. ev_sequence e \<in> set preferred then close_current PREFERRED s
      else s)"

fun segment_loop ::
  "segmenter_config \<Rightarrow> int list \<Rightarrow> (string \<times> int) list \<Rightarrow> event_envelope list list \<Rightarrow> segment_state
   \<Rightarrow> segment_state" where
  "segment_loop cfg preferred counts [] s = s"
| "segment_loop cfg preferred counts (u # us) s =
     (let cost = event_tokens counts u in
      segment_loop cfg preferred counts us
        (take_unit cfg preferred (us = []) u cost (make_room cfg u cost s)))"

definition segment ::
  "(string \<Rightarrow> json option) \<Rightarrow> event_envelope list \<Rightarrow> (string \<times> int) list \<Rightarrow> segmenter_config \<Rightarrow> int list
   \<Rightarrow> segmenter_error + event_segment list" where
  "segment loads events counts cfg preferred =
     bind (validate_events events) (\<lambda>_.
     bind (guard (set (map fst counts) = set (map ev_id events)) TOKEN_METRIC_MISSING) (\<lambda>_.
     let boundaries = normalize_preferred_boundaries events preferred (max_preferred_boundaries cfg) in
     bind (option_or (durable_event_units loads events) SEGMENTER_TOOL_LOOP_INVALID) (\<lambda>units.
     Inr (sg_segments (segment_loop cfg boundaries counts units
            \<lparr>sg_segments = [], sg_current = [], sg_cost = 0\<rparr>)))))"

section \<open>The invariant of the loop\<close>

text \<open>
  What every closed segment satisfies: its borders and cost are those of its events, it is
  made of whole units, and it respects both limits unless it is a single oversized unit.
\<close>

definition segment_ok ::
  "segmenter_config \<Rightarrow> (string \<times> int) list \<Rightarrow> event_envelope list list \<Rightarrow> event_segment \<Rightarrow> bool" where
  "segment_ok cfg counts units g \<longleftrightarrow>
     seg_events g \<noteq> [] \<and> seg_start g = ev_sequence (hd (seg_events g)) \<and>
     seg_end g = ev_sequence (last (seg_events g)) \<and>
     seg_token_cost g = event_tokens counts (seg_events g) \<and>
     (\<exists>us. set us \<subseteq> set units \<and> seg_events g = concat us \<and>
        (int (length (seg_events g)) \<le> max_events_per_segment cfg \<and>
         seg_token_cost g \<le> max_tokens_per_segment cfg \<or> length us = 1))"

text \<open>
  The open segment: whole units, within both limits (strictly below them when it is left open
  at the end of an iteration).
\<close>

definition open_ok ::
  "segmenter_config \<Rightarrow> (string \<times> int) list \<Rightarrow> event_envelope list list \<Rightarrow> segment_state \<Rightarrow> bool" where
  "open_ok cfg counts units s \<longleftrightarrow>
     (\<forall>g \<in> set (sg_segments s). segment_ok cfg counts units g) \<and>
     sg_cost s = event_tokens counts (sg_current s) \<and>
     (\<exists>us. set us \<subseteq> set units \<and> sg_current s = concat us) \<and>
     (sg_current s \<noteq> [] \<longrightarrow> int (length (sg_current s)) \<le> max_events_per_segment cfg \<and>
        sg_cost s \<le> max_tokens_per_segment cfg)"

definition written :: "segment_state \<Rightarrow> event_envelope list" where
  "written s = concat (map seg_events (sg_segments s)) @ sg_current s"

lemma event_tokens_append [simp]: "event_tokens counts (xs @ ys) = event_tokens counts xs + event_tokens counts ys"
  by (simp add: event_tokens_def)

lemma event_tokens_Nil [simp]: "event_tokens counts [] = 0"
  by (simp add: event_tokens_def)

lemma written_close [simp]: "written (close_current r s) = written s"
  by (simp add: written_def close_current_def)

lemma close_current_empty [simp]: "sg_current (close_current r s) = []" "sg_cost (close_current r s) = 0"
  by (simp_all add: close_current_def)

lemma close_ok:
  assumes segs: "\<forall>g \<in> set (sg_segments s). segment_ok cfg counts units g"
    and cur: "sg_current s \<noteq> []" "sg_cost s = event_tokens counts (sg_current s)"
    and us: "set us \<subseteq> set units" "sg_current s = concat us"
    and limits: "int (length (sg_current s)) \<le> max_events_per_segment cfg \<and>
      sg_cost s \<le> max_tokens_per_segment cfg \<or> length us = 1"
  shows "open_ok cfg counts units (close_current r s)"
proof -
  let ?g = "\<lparr>seg_start = ev_sequence (hd (sg_current s)), seg_end = ev_sequence (last (sg_current s)),
    seg_events = sg_current s, seg_token_cost = sg_cost s, seg_reason = r\<rparr>"
  have "segment_ok cfg counts units ?g"
    using cur us limits unfolding segment_ok_def by (intro conjI exI[of _ us]) auto
  with segs show ?thesis by (auto simp: open_ok_def close_current_def intro!: exI[of _ "[]"])
qed

lemma open_ok_close:
  assumes "open_ok cfg counts units s" "sg_current s \<noteq> []"
  shows "open_ok cfg counts units (close_current r s)"
  using assms close_ok[of s cfg counts units] unfolding open_ok_def by blast

lemma make_room_ok:
  assumes "open_ok cfg counts units s"
  shows "open_ok cfg counts units (make_room cfg u cost s)" "written (make_room cfg u cost s) = written s"
  using assms open_ok_close[OF assms] by (auto simp: make_room_def)

text \<open>After making room, a unit that is not oversized fits and an oversized one is alone.\<close>

definition fits :: "segmenter_config \<Rightarrow> event_envelope list \<Rightarrow> int \<Rightarrow> segment_state \<Rightarrow> bool" where
  "fits cfg u cost s \<longleftrightarrow> sg_current s = [] \<or>
     int (length (sg_current s)) + int (length u) \<le> max_events_per_segment cfg \<and>
     sg_cost s + cost \<le> max_tokens_per_segment cfg"

lemma make_room_fits: "fits cfg u cost (make_room cfg u cost s)"
  by (auto simp: fits_def make_room_def)

lemma event_tokens_nonneg:
  "(\<And>e. e \<in> set es \<Longrightarrow> the (map_of counts (ev_id e)) \<ge> 0) \<Longrightarrow> event_tokens counts es \<ge> 0"
  unfolding event_tokens_def by (intro sum_list_nonneg) auto

lemma take_unit_ok:
  assumes s: "open_ok cfg counts units s" and u: "u \<in> set units" "u \<noteq> []" "cost = event_tokens counts u"
    and room: "fits cfg u cost s"
    and nonneg: "\<And>e. e \<in> set (concat units) \<Longrightarrow> the (map_of counts (ev_id e)) \<ge> 0"
  shows "open_ok cfg counts units (take_unit cfg preferred l u cost s)"
    "written (take_unit cfg preferred l u cost s) = written s @ u"
    "l \<Longrightarrow> sg_current (take_unit cfg preferred l u cost s) = []"
proof -
  let ?s = "s\<lparr>sg_current := sg_current s @ u, sg_cost := sg_cost s + cost\<rparr>"
  from s obtain us where us: "set us \<subseteq> set units" "sg_current s = concat us" by (auto simp: open_ok_def)
  have segs: "\<forall>g \<in> set (sg_segments ?s). segment_ok cfg counts units g"
    and cost: "sg_cost ?s = event_tokens counts (sg_current ?s)"
    using s u(3) by (auto simp: open_ok_def)
  have "\<forall>e \<in> set (sg_current s). e \<in> set (concat units)" using us by auto
  then have "event_tokens counts (sg_current s) \<ge> 0" using nonneg by (intro event_tokens_nonneg) blast
  then have pos: "sg_cost s \<ge> 0" using s by (simp add: open_ok_def)
  have alone: "sg_current s = []" if "oversized cfg u cost"
    using that room pos by (auto simp: fits_def oversized_def)
  have limits: "int (length (sg_current ?s)) \<le> max_events_per_segment cfg \<and>
      sg_cost ?s \<le> max_tokens_per_segment cfg" if "\<not> oversized cfg u cost"
    using that room s by (auto simp: fits_def oversized_def open_ok_def)
  have "\<exists>vs. set vs \<subseteq> set units \<and> sg_current ?s = concat vs \<and> (oversized cfg u cost \<longrightarrow> length vs = 1)"
  proof (cases "oversized cfg u cost")
    case True
    then show ?thesis using alone u by (intro exI[of _ "[u]"]) simp
  next
    case False
    then show ?thesis using us u by (intro exI[of _ "us @ [u]"]) simp
  qed
  then obtain vs where vs: "set vs \<subseteq> set units" "sg_current ?s = concat vs"
    "oversized cfg u cost \<longrightarrow> length vs = 1" by blast
  have closed: "open_ok cfg counts units (close_current r ?s)" for r
    using close_ok[OF segs _ cost vs(1,2), of r] limits vs(3) u(2) by auto
  have opened: "open_ok cfg counts units ?s" if "\<not> oversized cfg u cost"
    using segs cost vs limits[OF that] unfolding open_ok_def by blast
  show "open_ok cfg counts units (take_unit cfg preferred l u cost s)"
    using closed opened by (simp add: take_unit_def)
  show "written (take_unit cfg preferred l u cost s) = written s @ u"
    by (simp add: take_unit_def) (simp add: written_def)
  show "l \<Longrightarrow> sg_current (take_unit cfg preferred l u cost s) = []" by (simp add: take_unit_def)
qed

lemma segment_loop_ok:
  assumes "open_ok cfg counts units s" "set us \<subseteq> set units" "\<forall>u \<in> set units. u \<noteq> []"
    and "\<And>e. e \<in> set (concat units) \<Longrightarrow> the (map_of counts (ev_id e)) \<ge> 0"
    and "us = [] \<longrightarrow> sg_current s = []"
  shows "open_ok cfg counts units (segment_loop cfg preferred counts us s) \<and>
    written (segment_loop cfg preferred counts us s) = written s @ concat us \<and>
    sg_current (segment_loop cfg preferred counts us s) = []"
  using assms(1,2,5)
proof (induction us arbitrary: s)
  case (Cons u us)
  let ?c = "event_tokens counts u"
  have u: "u \<in> set units" "u \<noteq> []" using Cons.prems(2) assms(3) by auto
  note room = make_room_ok[OF Cons.prems(1), of u ?c]
  note taken = take_unit_ok[OF room(1) u refl make_room_fits assms(4)]
  from Cons.IH[OF taken(1)] Cons.prems(2) taken(2,3) room(2) show ?case by simp
qed simp

lemma validate_from_eq_Inr:
  "validate_from k n es = Inr () \<longleftrightarrow>
     (\<forall>e \<in> set es. ev_session_key e = k) \<and> map ev_sequence es = upto n (n + int (length es) - 1)"
  by (induction es arbitrary: n) (auto simp: bind_eq_Inr guard_eq_Inr upto_rec1)

lemma contiguous_Cons:
  "contiguous (e # es) \<longleftrightarrow> map ev_sequence es = upto (ev_sequence e + 1) (ev_sequence e + int (length es))"
proof (induction es arbitrary: e)
  case (Cons x xs)
  have "upto (ev_sequence e + 1) (ev_sequence e + int (length (x # xs))) =
      (ev_sequence e + 1) # upto (ev_sequence e + 1 + 1) (ev_sequence e + 1 + int (length xs))"
    by (subst upto_rec1) (simp_all add: algebra_simps)
  moreover have "contiguous (e # x # xs) \<longleftrightarrow> ev_sequence x = ev_sequence e + 1 \<and> contiguous (x # xs)"
    by (simp add: contiguous_def)
  ultimately show ?case using Cons.IH[of x] by auto
qed (simp add: contiguous_def)

lemma one_session_Cons: "one_session (e # es) \<longleftrightarrow> (\<forall>x \<in> set es. ev_session_key x = ev_session_key e)"
  by (induction es arbitrary: e) (auto simp: one_session_def)

lemma validate_events_eq_Inr:
  "validate_events events = Inr () \<longleftrightarrow> events \<noteq> [] \<and> contiguous events \<and> one_session events"
proof (cases events)
  case (Cons e es)
  have "upto (ev_sequence e) (ev_sequence e + int (length es)) =
      ev_sequence e # upto (ev_sequence e + 1) (ev_sequence e + int (length es))"
    by (rule upto_rec1) simp
  then show ?thesis
    by (auto simp: validate_events_def validate_from_eq_Inr Cons contiguous_Cons one_session_Cons)
qed (simp add: validate_events_def)

lemma unit_ok_nonempty: "unit_ok loads u \<Longrightarrow> u \<noteq> []"
  by (auto simp: unit_ok_def)

section \<open>The contract with the tool loop\<close>

text \<open>
  What the segmenter needs of the grouping: the units are non-empty and make up the events.
\<close>

locale unit_grouping =
  fixes units_of :: "event_envelope list \<Rightarrow> event_envelope list list option"
  assumes units_concat: "units_of events = Some us \<Longrightarrow> concat us = events"
    and units_nonempty: "units_of events = Some us \<Longrightarrow> u \<in> set us \<Longrightarrow> u \<noteq> []"
begin

lemma segment_loop_partitions:
  assumes units: "units_of events = Some us"
    and nonneg: "\<forall>e \<in> set events. the (map_of counts (ev_id e)) \<ge> 0"
    and final: "s = segment_loop cfg b counts us \<lparr>sg_segments = [], sg_current = [], sg_cost = 0\<rparr>"
  shows "concat (map seg_events (sg_segments s)) = events"
    and "g \<in> set (sg_segments s) \<Longrightarrow> segment_ok cfg counts us g"
proof -
  let ?s = "\<lparr>sg_segments = [], sg_current = [], sg_cost = 0\<rparr>"
  have "open_ok cfg counts us ?s" by (simp add: open_ok_def exI[of _ "[]"])
  moreover have "the (map_of counts (ev_id e)) \<ge> 0" if "e \<in> set (concat us)" for e
    using that nonneg units_concat[OF units] by simp
  ultimately have "open_ok cfg counts us s \<and> written s = written ?s @ concat us \<and> sg_current s = []"
    using segment_loop_ok[of cfg counts us ?s us b] units_nonempty[OF units] final by simp
  then show "concat (map seg_events (sg_segments s)) = events"
    "g \<in> set (sg_segments s) \<Longrightarrow> segment_ok cfg counts us g"
    using units_concat[OF units] by (auto simp: written_def open_ok_def)
qed

end

interpretation tool_loop: unit_grouping "durable_event_units loads" for loads
  by unfold_locales (use unit_ok_nonempty in \<open>auto simp: durable_units_spec\<close>)

section \<open>Properties\<close>


text \<open>
  Segmentation succeeds exactly on a non-empty, contiguous, single-session history whose
  tool protocol is complete and whose token counts name exactly its events; otherwise it
  raises and produces no segment.
\<close>

theorem segment_total:
  "(\<exists>segs. segment loads events counts cfg preferred = Inr segs) \<longleftrightarrow>
     events \<noteq> [] \<and> fst ` set counts = ev_id ` set events \<and>
     (\<exists>units. concat units = events \<and> (\<forall>u \<in> set units. unit_ok loads u)) \<and>
     contiguous events \<and> one_session events"
proof -
  have "(\<exists>segs. segment loads events counts cfg preferred = Inr segs) \<longleftrightarrow>
     validate_events events = Inr () \<and> fst ` set counts = ev_id ` set events \<and>
     (\<exists>units. durable_event_units loads events = Some units)"
    by (auto simp: segment_def result_simps)
  then show ?thesis unfolding validate_events_eq_Inr durable_units_spec by auto
qed

end
