(* ===== verification/Runtime_Witnesses.thy ===== *)
theory Runtime_Witnesses
  imports Segmenter Closure_Laws
begin

text \<open>
  Concrete inputs for the properties of the tool loop, the segmenter and the dependency
  groups: a user message, one tool call with its result, and the closing assistant message.
\<close>

definition demo_loads :: "string \<Rightarrow> json option" where
  "demo_loads s =
     (if s = ''C'' then Some (JObj [(''kind'', JStr ''call''), (''tool'', JStr ''t''), (''arguments'', JNull)])
      else if s = ''R'' then Some (JObj [(''kind'', JStr ''result''), (''tool'', JStr ''t''), (''arguments'', JNull)])
      else None)"

definition demo_tool_event :: "int \<Rightarrow> string \<Rightarrow> event_type \<Rightarrow> string \<Rightarrow> event_envelope" where
  "demo_tool_event n i t content =
     \<lparr>ev_id = i, ev_session_key = \<lparr>platform_instance_id = ''p'', message_type = ''m'', session_id = ''s'',
        group_id = None, user_id = ''u'', conversation_id = ''c'', persona_id = None\<rparr>,
      ev_sequence = n, ev_type = t, ev_role = fst (event_mapping t), ev_content = content,
      ev_source_hook = snd (event_mapping t), ev_idempotency_key = i, ev_token_count = 2, ev_created_at = 10\<rparr>"

definition demo_user :: event_envelope where "demo_user = demo_tool_event 5 ''a'' USER_MESSAGE ''hi''"
definition demo_call :: event_envelope where "demo_call = demo_tool_event 6 ''b'' TOOL_CALL ''C''"
definition demo_result :: event_envelope where "demo_result = demo_tool_event 7 ''c'' TOOL_RESULT ''R''"
definition demo_reply :: event_envelope where "demo_reply = demo_tool_event 8 ''d'' ASSISTANT_MESSAGE ''ok''"

definition demo_history :: "event_envelope list" where
  "demo_history = [demo_user, demo_call, demo_result, demo_reply]"

definition demo_units :: "event_envelope list list" where
  "demo_units = [[demo_user], [demo_call, demo_result, demo_reply]]"

lemmas demo_event_defs = demo_user_def demo_call_def demo_result_def demo_reply_def demo_tool_event_def

lemma demo_fingerprints:
  "tool_fingerprint_of demo_loads demo_call = Some (Fingerprint ''t'' ''null'')"
  "tool_fingerprint_of demo_loads demo_result = Some (Fingerprint ''t'' ''null'')"
  by (simp_all add: tool_fingerprint_of_def demo_loads_def demo_event_defs normalized_key_def
      casefold_char_def of_char_def py_strip_def strip_by_def py_isspace_def)

lemma demo_types: "ev_type demo_user = USER_MESSAGE" "ev_type demo_call = TOOL_CALL"
  "ev_type demo_result = TOOL_RESULT" "ev_type demo_reply = ASSISTANT_MESSAGE"
  by (simp_all add: demo_event_defs)

lemma demo_units_parsed: "durable_event_units demo_loads demo_history = Some demo_units"
proof -
  have "ev_sequence demo_user = 5" "ev_sequence demo_call = 6" "ev_sequence demo_result = 7" "ev_sequence demo_reply = 8"
    "ev_session_key demo_call = ev_session_key demo_user" "ev_session_key demo_result = ev_session_key demo_user"
    "ev_session_key demo_reply = ev_session_key demo_user" by (simp_all add: demo_event_defs)
  then show ?thesis
    by (simp add: durable_event_units_def parse_events_def demo_history_def demo_units_def parse_step_def
        protocol_step_def parse_init_def demo_types demo_fingerprints is_tool_def)
qed

theorem durable_event_units_iff_witness:
  "contiguous demo_history \<and> one_session demo_history \<and> concat demo_units = demo_history \<and>
   unit_ok demo_loads [demo_call, demo_result, demo_reply]"
  using durable_event_units_iff[of demo_loads demo_history demo_units] demo_units_parsed
  by (simp add: demo_units_def)

definition demo_counts :: "(string \<times> int) list" where
  "demo_counts = [(''a'', 3), (''b'', 4), (''c'', 5), (''d'', 6)]"

definition demo_config :: segmenter_config where
  "demo_config = \<lparr>max_events_per_segment = 2, max_tokens_per_segment = 100, max_preferred_boundaries = 8\<rparr>"

theorem segment_total_witness:
  "\<exists>segs. segment demo_loads demo_history demo_counts demo_config [] = Inr segs"
proof -
  have "contiguous demo_history \<and> one_session demo_history \<and> concat demo_units = demo_history \<and>
      (\<forall>u \<in> set demo_units. unit_ok demo_loads u)"
    using demo_units_parsed unfolding durable_units_spec .
  moreover have "fst ` set demo_counts = ev_id ` set demo_history" "demo_history \<noteq> []"
    by (auto simp: demo_counts_def demo_history_def demo_event_defs)
  ultimately show ?thesis using segment_total[of demo_loads demo_history demo_counts demo_config "[]"] by blast
qed


definition demo_block :: "string \<Rightarrow> candidate_kind \<Rightarrow> string list \<Rightarrow> candidate_block" where
  "demo_block i k srcs = \<lparr>cb_id = i, cb_slot = ACTIVE_TASK, cb_kind = k, cb_text = i, cb_sources = srcs,
     cb_score = 1, cb_reason = ''r'', cb_required = False, cb_capsule = None, cb_sequence = None,
     cb_event_type = None, cb_tool_name = None, cb_selection_complete = True\<rparr>"

text \<open>An entity and a dependency that shares its source form a group; a third block stands alone.\<close>

definition demo_blocks :: "candidate_block list" where
  "demo_blocks = [demo_block ''x'' ENTITY [''e1''], demo_block ''y'' ENTITY [''e2''], demo_block ''z'' DEPENDENCY [''e1'']]"

lemma demo_related: "related demo_blocks (demo_block ''x'' ENTITY [''e1'']) (demo_block ''z'' DEPENDENCY [''e1''])"
  unfolding related_def by (rule r_into_rtranclp) (simp add: demo_blocks_def companions_def demo_block_def)

theorem dependency_groups_components_witness:
  "\<exists>gs. dependency_groups demo_blocks = Inr gs \<and> set (concat gs) = set demo_blocks \<and>
     (\<exists>g \<in> set gs. demo_block ''x'' ENTITY [''e1''] \<in> set g \<and> demo_block ''z'' DEPENDENCY [''e1''] \<in> set g)"
proof -
  let ?x = "demo_block ''x'' ENTITY [''e1'']" and ?z = "demo_block ''z'' DEPENDENCY [''e1'']"
  have "distinct (map cb_id demo_blocks)" by (simp add: demo_blocks_def demo_block_def)
  with dependency_groups_components[of demo_blocks] obtain gs where gs: "dependency_groups demo_blocks = Inr gs"
    "set (concat gs) = set demo_blocks" "\<forall>g \<in> set gs. \<forall>x \<in> set g. g = filter (related demo_blocks x) demo_blocks"
    by blast
  have "?x \<in> set (concat gs)" using gs(2) by (simp add: demo_blocks_def)
  then obtain g where g: "g \<in> set gs" "?x \<in> set g" by auto
  note demo_related
  moreover have "?z \<in> set demo_blocks" by (simp add: demo_blocks_def)
  ultimately have "?z \<in> set (filter (related demo_blocks ?x) demo_blocks)" by simp
  moreover from gs(3) g have "g = filter (related demo_blocks ?x) demo_blocks" by blast
  ultimately have "?z \<in> set g" by (simp only:)
  with gs g show ?thesis by blast
qed

end
