(* ===== verification/Budget_Witnesses.thy ===== *)
theory Budget_Witnesses
  imports Budget_Accounting Runtime_Witnesses
begin

text \<open>
  Concrete inputs for the properties of the budget: a required goal, an optional entity with
  the dependency it needs, and a duplicate of the goal, under budgets that take everything,
  that force the emergency mode, and that cannot hold the required input.
\<close>

definition goal_block :: candidate_block where
  "goal_block = (demo_block ''g'' GOAL [''e9''])\<lparr>cb_slot := ACTIVE_GOAL, cb_required := True\<rparr>"

definition budget_blocks :: "candidate_block list" where
  "budget_blocks = [demo_block ''z'' DEPENDENCY [''e1''], goal_block, demo_block ''x'' ENTITY [''e1''], goal_block]"

definition demo_view :: request_view where
  "demo_view = \<lparr>rv_session_key = ev_session_key demo_user, rv_snapshot = None, rv_memberships = [],
     rv_pointer_version = 0, rv_covered_event_end = 0, rv_high_water_mark = 0, rv_delta = []\<rparr>"

definition demo_budget :: "int \<Rightarrow> budget_config" where
  "demo_budget n = \<lparr>target_input_budget = n, hard_input_ceiling = 50, model_context_limit = 60,
     reserved_output_and_tools = 5, safety_margin = 1\<rparr>"

definition demo_assemble :: "int \<Rightarrow> budget_error + assembly_result" where
  "demo_assemble n = assemble demo_view budget_blocks ''hi'' 1 1 utf8_byte_counter (demo_budget n) None"

lemma assemble_all:
  "case demo_assemble 20 of Inl e \<Rightarrow> False | Inr r \<Rightarrow> map cb_id (ar_selected_blocks r) = [''g'', ''x'', ''z'']"
  by code_simp

lemma assemble_emergency:
  "case demo_assemble 8 of Inl e \<Rightarrow> False
   | Inr r \<Rightarrow> map cb_id (ar_selected_blocks r) = [''g''] \<and> length (at_rejections (ar_trace r)) = 3"
  by code_simp

lemma assemble_too_small: "demo_assemble 5 = Inl REQUIRED_INPUT_EXCEEDS_BUDGET"
  by code_simp

lemma demo_canonical: "map cb_id (canonical_candidates budget_blocks) = [''g'', ''x'', ''z'']"
  by code_simp

theorem assemble_fits_budget_witness:
  "\<exists>res. demo_assemble 20 = Inr res \<and> ar_projected_text res = projection_text (ar_selected_blocks res) \<and>
     at_total_input_cost (ar_trace res) \<le> 20 \<and> length (ar_selected_blocks res) = 3"
proof -
  obtain res where r: "demo_assemble 20 = Inr res" and ids: "map cb_id (ar_selected_blocks res) = [''g'', ''x'', ''z'']"
    using assemble_all by (auto split: sum.splits)
  then have "length (ar_selected_blocks res) = 3" by (auto dest: arg_cong[where f = length])
  with assemble_fits_budget[OF r[unfolded demo_assemble_def]] r show ?thesis by (auto simp: demo_budget_def)
qed

theorem assemble_selection_sound_witness:
  "\<exists>res. demo_assemble 8 = Inr res \<and> good_selection (canonical_candidates budget_blocks) (ar_selected_blocks res) \<and>
     map cb_id (ar_selected_blocks res) = [''g'']"
proof -
  obtain res where r: "demo_assemble 8 = Inr res" and ids: "map cb_id (ar_selected_blocks res) = [''g'']"
    using assemble_emergency by (auto split: sum.splits)
  from assemble_selection_sound[OF r[unfolded demo_assemble_def]] r ids show ?thesis by auto
qed

theorem assemble_accounts_witness:
  "\<exists>res. demo_assemble 8 = Inr res \<and> length (at_rejections (ar_trace res)) = 3 \<and>
     bt_id ` (set (at_selections (ar_trace res)) \<union> set (at_rejections (ar_trace res))) = {''g'', ''x'', ''z''}"
proof -
  obtain res where r: "demo_assemble 8 = Inr res" and n: "length (at_rejections (ar_trace res)) = 3"
    using assemble_emergency by (auto split: sum.splits)
  have "cb_id ` set budget_blocks = {''g'', ''x'', ''z''}"
    by (auto simp: budget_blocks_def goal_block_def demo_block_def)
  with assemble_accounts[OF r[unfolded demo_assemble_def]] r n show ?thesis by auto
qed

theorem assemble_failure_external_witness:
  "demo_assemble 5 = Inl REQUIRED_INPUT_EXCEEDS_BUDGET \<and> external_failure 1 1 utf8_byte_counter budget_blocks None REQUIRED_INPUT_EXCEEDS_BUDGET"
  using assemble_failure_external[OF assemble_too_small[unfolded demo_assemble_def]] assemble_too_small by blast

text \<open>The closure of the entity alone pulls in its dependency, and needs a bound of two.\<close>

theorem close_dependency_closure_least_witness:
  "close_dependency_closure [demo_block ''x'' ENTITY [''e1'']] demo_blocks 1 = Inl DEPENDENCY_CLOSURE_CAPACITY_EXCEEDED"
proof -
  let ?C = "closure_ids demo_blocks (cb_id ` set [demo_block ''x'' ENTITY [''e1'']] \<union>
    cb_id ` {c \<in> set demo_blocks. cb_required c})"
  have "distinct (map cb_id demo_blocks)"
    "cb_id ` set [demo_block ''x'' ENTITY [''e1'']] \<subseteq> cb_id ` set demo_blocks"
    by (simp_all add: demo_blocks_def demo_block_def)
  note least = close_dependency_closure_least[OF _ this refl, of 1]
  have mem: "demo_block ''x'' ENTITY [''e1''] \<in> set demo_blocks" "demo_block ''z'' DEPENDENCY [''e1''] \<in> set demo_blocks"
    by (simp_all add: demo_blocks_def)
  have "{''x'', ''z''} \<subseteq> ?C"
    using mem demo_related unfolding closure_ids_def related_def by (force simp: demo_block_def)
  from card_mono[OF closure_ids_finite(2) this] have "\<not> int (card ?C) \<le> 1" by simp
  with least show ?thesis by (simp only: if_False order.refl simp_thms)
qed

end
