(* ===== verification/Projection.thy ===== *)
theory Projection
  imports Prelude
begin

text \<open>
  \<^verbatim>\<open>runtime/projection.py\<close>: the reversible replacement of native history in a host message
  list. The code compares objects by identity only, so an object is its identity, a number;
  a message list is a mutable object with an identity and contents, passed through the
  functions that assign to it.
\<close>

section \<open>Objects, lists and results\<close>

type_synonym obj = nat

record message_list =
  ml_id :: nat
  ml_items :: "obj list"

datatype projection_stage = GUARD | PROJECT | RESTORE

datatype projection_error_code =
  LIST_IDENTITY_MISMATCH | REQUEST_IDENTITY_MISMATCH | PRESERVED_OBJECT_INVALID
| PRESERVED_OBJECT_MISMATCH | PROJECTION_OBJECT_INVALID | PROJECTED_PREFIX_MISMATCH

record projection_error =
  pe_code :: projection_error_code
  pe_stage :: projection_stage
  pe_expected :: nat
  pe_actual :: nat
  pe_list_match :: bool

text \<open>
  \<open>Invariant\<close> is \<^verbatim>\<open>ProjectionInvariantError\<close>; the other two are the exceptions of
  \<^verbatim>\<open>next(..)\<close> and of indexing an empty tuple.
\<close>

datatype projection_exn = Invariant projection_error | StopIteration | IndexError

definition invalid ::
  "projection_error_code \<Rightarrow> projection_stage \<Rightarrow> nat \<Rightarrow> nat \<Rightarrow> bool \<Rightarrow> projection_exn" where
  "invalid code stage expected actual match =
     Invariant \<lparr>pe_code = code, pe_stage = stage, pe_expected = expected, pe_actual = actual,
       pe_list_match = match\<rparr>"

record projection_guard =
  pg_request :: nat
  pg_list :: nat
  pg_native :: "obj list"
  pg_history :: "obj list"
  pg_system :: "obj list"
  pg_current :: "obj list"

record projected_view =
  pv_guard :: projection_guard
  pv_request :: nat
  pv_list :: nat
  pv_before :: "obj list"
  pv_projection :: "obj list"
  pv_projected :: "obj list"

record restored_view =
  rs_projected :: projected_view
  rs_delta :: "obj list"
  rs_restored :: "obj list"

section \<open>Operations\<close>

definition identity_occurrences :: "obj list \<Rightarrow> obj list \<Rightarrow> nat" where
  "identity_occurrences messages targets = sum_list (map (count_list messages) targets)"

text \<open>\<^verbatim>\<open>tuple(index for target in group for index, message in enumerate(messages) if ..)\<close>\<close>

definition positions :: "obj list \<Rightarrow> obj list \<Rightarrow> nat list" where
  "positions targets messages =
     concat (map (\<lambda>t. filter (\<lambda>i. messages ! i = t) [0 ..< length messages]) targets)"

definition validate_message_list ::
  "message_list \<Rightarrow> projection_stage \<Rightarrow> nat option \<Rightarrow> projection_exn + obj list" where
  "validate_message_list ml stage expected =
     (if (case expected of None \<Rightarrow> False | Some i \<Rightarrow> ml_id ml \<noteq> i)
      then Inl (invalid LIST_IDENTITY_MISMATCH stage 0 (length (ml_items ml)) False)
      else Inr (ml_items ml))"

definition validate_group :: "obj list \<Rightarrow> projection_stage \<Rightarrow> obj list \<Rightarrow> projection_exn + unit" where
  "validate_group messages stage targets =
     (let ps = positions targets messages in
      guard (sorted ps)
        (invalid PRESERVED_OBJECT_MISMATCH stage (length targets) (length ps) True))"

definition validate_preserved ::
  "obj list \<Rightarrow> projection_guard \<Rightarrow> projection_stage \<Rightarrow> projection_exn + unit" where
  "validate_preserved messages g stage =
     (let preserved = pg_system g @ pg_current g;
          actual = identity_occurrences messages preserved in
      bind (guard (actual = length preserved)
        (invalid PRESERVED_OBJECT_MISMATCH stage (length preserved) actual True)) (\<lambda>_.
      bind (validate_group messages stage (pg_system g)) (\<lambda>_.
      validate_group messages stage (pg_current g))))"

definition guard_projection ::
  "nat \<Rightarrow> message_list \<Rightarrow> obj list \<Rightarrow> obj list \<Rightarrow> projection_exn + projection_guard" where
  "guard_projection request ml system current =
     bind (validate_message_list ml GUARD None) (\<lambda>messages.
     let preserved = system @ current; actual = identity_occurrences messages preserved in
     bind (guard (current \<noteq> [] \<and> distinct preserved)
       (invalid PRESERVED_OBJECT_INVALID GUARD (length preserved) actual True)) (\<lambda>_.
     bind (guard (actual = length preserved)
       (invalid PRESERVED_OBJECT_MISMATCH GUARD (length preserved) actual True)) (\<lambda>_.
     Inr \<lparr>pg_request = request, pg_list = ml_id ml, pg_native = messages,
          pg_history = filter (\<lambda>m. m \<notin> set preserved) messages,
          pg_system = system, pg_current = current\<rparr>)))"

fun first_index :: "obj \<Rightarrow> obj list \<Rightarrow> nat option" where
  "first_index t [] = None"
| "first_index t (m # ms) = (if m = t then Some 0 else map_option Suc (first_index t ms))"

definition project ::
  "message_list \<Rightarrow> projection_guard \<Rightarrow> obj list \<Rightarrow> projection_exn + projected_view \<times> message_list" where
  "project ml g objects =
     bind (validate_message_list ml PROJECT (Some (pg_list g))) (\<lambda>messages.
     bind (validate_preserved messages g PROJECT) (\<lambda>_.
     bind (guard (distinct objects \<and> \<not> (\<exists>p \<in> set objects. p \<in> set messages))
       (invalid PROJECTION_OBJECT_INVALID PROJECT (max 1 (length objects)) (length objects) True)) (\<lambda>_.
     let retained = filter (\<lambda>m. m \<notin> set (pg_history g)) messages in
     bind (guard (pg_current g \<noteq> []) (if retained = [] then StopIteration else IndexError)) (\<lambda>_.
     bind (option_or (first_index (hd (pg_current g)) retained) StopIteration) (\<lambda>start.
     let projected = take start retained @ objects @ drop start retained in
     Inr (\<lparr>pv_guard = g, pv_request = pg_request g, pv_list = pg_list g, pv_before = messages,
           pv_projection = objects, pv_projected = projected\<rparr>,
          ml\<lparr>ml_items := projected\<rparr>))))))"

definition restore ::
  "message_list \<Rightarrow> projected_view \<Rightarrow> projection_exn + restored_view \<times> message_list" where
  "restore ml v =
     bind (validate_message_list ml RESTORE None) (\<lambda>messages.
     let g = pv_guard v; same = (ml_id ml = pv_list v) in
     bind (guard (pv_request v = pg_request g) (invalid REQUEST_IDENTITY_MISMATCH RESTORE 1 0 True)) (\<lambda>_.
     let ps = positions (pg_current g) messages in
     bind (guard (length ps = length (pg_current g) \<and> sorted ps)
       (invalid PROJECTED_PREFIX_MISMATCH RESTORE (length (pg_current g)) (length ps) same)) (\<lambda>_.
     bind (guard (ps \<noteq> []) IndexError) (\<lambda>_.
     let delta = drop (last ps + 1) messages in
     bind (guard (\<not> (\<exists>p \<in> set (pv_projection v). p \<in> set delta))
       (invalid PROJECTED_PREFIX_MISMATCH RESTORE 0 1 same)) (\<lambda>_.
     let restored = pv_before v @ delta in
     Inr (\<lparr>rs_projected = v, rs_delta = delta, rs_restored = restored\<rparr>,
          ml\<lparr>ml_items := restored\<rparr>))))))"

definition verify_native :: "message_list \<Rightarrow> restored_view \<Rightarrow> bool" where
  "verify_native ml r \<longleftrightarrow> ml_items ml = pg_native (pv_guard (rs_projected r)) @ rs_delta r"

section \<open>Positions and order\<close>

lemma concat_singletons:
  assumes "distinct (map f xs)"
  shows "concat (map (\<lambda>t. filter (\<lambda>i. f i = t) xs) (map f xs)) = xs"
proof -
  have "filter (\<lambda>i. f i = f j) xs = [j]" if "j \<in> set xs" for j
    using that assms by (induction xs) (auto simp: filter_empty_conv rev_image_eqI)
  then have "map (\<lambda>j. filter (\<lambda>i. f i = f j) xs) xs = map (\<lambda>j. [j]) xs"
    by (intro map_cong) auto
  then have "concat (map (\<lambda>j. filter (\<lambda>i. f i = f j) xs) xs) = concat (map (\<lambda>j. [j]) xs)" by (rule arg_cong)
  then show ?thesis by (simp only: map_map o_def concat_map_singleton list.map_ident)
qed

text \<open>
  The targets occur exactly once each and in order if and only if they are the sublist of
  the messages that are targets; their positions are then the positions of that sublist.
\<close>

lemma positions_in_order:
  assumes "distinct ts" "filter (\<lambda>m. m \<in> set ts) ms = ts"
  shows "positions ts ms = filter (\<lambda>i. ms ! i \<in> set ts) [0 ..< length ms]"
proof -
  let ?idx = "filter (\<lambda>i. ms ! i \<in> set ts) [0 ..< length ms]"
  have ts: "map (nth ms) ?idx = ts" using assms(2) filter_nth_conv[of ms "\<lambda>m. m \<in> set ts"] by simp
  have "positions ts ms = concat (map (\<lambda>t. filter (\<lambda>i. ms ! i = t) ?idx) ts)"
    unfolding positions_def by (intro arg_cong[of _ _ concat] map_cong) (auto intro: filter_cong)
  also have "\<dots> = ?idx" using concat_singletons[of "nth ms" ?idx] assms(1) by (simp only: ts)
  finally show ?thesis .
qed

lemma once_each:
  assumes "distinct ts" "set ts \<subseteq> set ms" "identity_occurrences ms ts = length ts" "t \<in> set ts"
  shows "count_list ms t = 1"
proof (rule ccontr)
  assume ne: "count_list ms t \<noteq> 1"
  have ge: "1 \<le> count_list ms x" if "x \<in> set ts" for x
    using that assms(2) count_list_0_iff[of ms x] by (auto simp: Suc_le_eq)
  obtain as bs where ts: "ts = as @ t # bs" using assms(4) by (auto simp: in_set_conv_decomp)
  have "length xs \<le> sum_list (map (count_list ms) xs)" if "set xs \<subseteq> set ts" for xs
    using that
  proof (induction xs)
    case (Cons x xs)
    with ge[of x] show ?case by simp
  qed simp
  then have "length as \<le> sum_list (map (count_list ms) as)" "length bs \<le> sum_list (map (count_list ms) bs)"
    by (simp_all add: ts subset_insertI2)
  with ge[of t] ne assms(3) show False by (simp add: ts identity_occurrences_def)
qed

lemma filter_nth_single:
  assumes "count_list ms t = 1"
  shows "map (nth ms) (filter (\<lambda>i. ms ! i = t) [0 ..< length ms]) = [t]"
proof -
  have "filter (\<lambda>m. m = t) ms = replicate (count_list ms t) t" by (induction ms) auto
  with assms show ?thesis using filter_nth_conv[of ms "\<lambda>m. m = t"] by simp
qed

lemma in_order_positions:
  assumes "distinct ts" "\<And>t. t \<in> set ts \<Longrightarrow> count_list ms t = 1" "sorted (positions ts ms)"
  shows "filter (\<lambda>m. m \<in> set ts) ms = ts"
proof -
  let ?idx = "filter (\<lambda>i. ms ! i \<in> set ts) [0 ..< length ms]"
  have vals: "map (nth ms) (positions ts ms) = ts"
  proof -
    have "map (nth ms) (positions ts ms) =
        concat (map (\<lambda>t. map (nth ms) (filter (\<lambda>i. ms ! i = t) [0 ..< length ms])) ts)"
      by (simp add: positions_def map_concat o_def)
    also have "\<dots> = concat (map (\<lambda>t. [t]) ts)"
      by (intro arg_cong[of _ _ concat] map_cong refl filter_nth_single assms(2))
    finally show ?thesis by (simp add: concat_map_singleton)
  qed
  then have "distinct (map (nth ms) (positions ts ms))" using assms(1) by (simp only:)
  then have "distinct (positions ts ms)" by (simp only: distinct_map)
  moreover have "set (positions ts ms) = set ?idx" by (auto simp: positions_def)
  ultimately have "positions ts ms = ?idx"
    using assms(3) by (intro sorted_distinct_set_unique) (simp_all add: sorted_wrt_filter)
  with vals show ?thesis using filter_nth_conv[of ms "\<lambda>m. m \<in> set ts"] by simp
qed

section \<open>Projection and restoration\<close>

lemma project_eq_Inr:
  assumes "project ml g objects = Inr (v, ml')"
  obtains start where "ml_id ml = pg_list g" "validate_preserved (ml_items ml) g PROJECT = Inr ()"
    "distinct objects" "\<forall>p \<in> set objects. p \<notin> set (ml_items ml)" "pg_current g \<noteq> []"
    "first_index (hd (pg_current g)) (filter (\<lambda>m. m \<notin> set (pg_history g)) (ml_items ml)) = Some start"
    "pv_guard v = g" "pv_request v = pg_request g" "pv_before v = ml_items ml" "pv_projection v = objects"
    "ml' = ml\<lparr>ml_items := take start (filter (\<lambda>m. m \<notin> set (pg_history g)) (ml_items ml)) @ objects @
       drop start (filter (\<lambda>m. m \<notin> set (pg_history g)) (ml_items ml))\<rparr>"
  using assms unfolding project_def validate_message_list_def Let_def
  by (auto simp: result_simps split: if_splits)

lemma first_index_drop: "first_index t xs = Some n \<Longrightarrow> drop n xs \<noteq> []"
  by (induction xs arbitrary: n) (auto split: if_splits)

lemma restore_boundary:
  assumes cur: "distinct (pg_current (pv_guard v))" "pg_current (pv_guard v) \<noteq> []"
    "pv_request v = pg_request (pv_guard v)"
    and prefix: "filter (\<lambda>m. m \<in> set (pg_current (pv_guard v))) xs = pg_current (pv_guard v)"
      "xs \<noteq> []" "last xs = last (pg_current (pv_guard v))"
    and delta: "set delta \<inter> set (pg_current (pv_guard v)) = {}" "set delta \<inter> set (pv_projection v) = {}"
  shows "restore \<lparr>ml_id = i, ml_items = xs @ delta\<rparr> v =
    Inr (\<lparr>rs_projected = v, rs_delta = delta, rs_restored = pv_before v @ delta\<rparr>,
      \<lparr>ml_id = i, ml_items = pv_before v @ delta\<rparr>)"
proof -
  let ?cur = "pg_current (pv_guard v)"
  have all: "filter (\<lambda>m. m \<in> set ?cur) (xs @ delta) = ?cur"
    using prefix(1) delta(1) by (auto simp: filter_empty_conv)
  from positions_in_order[OF cur(1) this]
  have pos: "positions ?cur (xs @ delta) = filter (\<lambda>i. (xs @ delta) ! i \<in> set ?cur) [0 ..< length (xs @ delta)]" .
  have nodelta: "filter (\<lambda>i. (xs @ delta) ! i \<in> set ?cur) [length xs ..< length xs + length delta] = []"
  proof -
    have "delta ! (j - length xs) \<notin> set ?cur" if "length xs \<le> j" "j < length xs + length delta" for j
    proof -
      have "j - length xs < length delta" using that by linarith
      then have "delta ! (j - length xs) \<in> set delta" by (rule nth_mem)
      with delta(1) show ?thesis by auto
    qed
    then show ?thesis by (auto simp: filter_empty_conv nth_append)
  qed
  obtain ys y where xs: "xs = ys @ [y]" using prefix(2) by (metis rev_exhaust)
  have y: "y \<in> set ?cur" using prefix(3) cur(2) xs by simp
  have split: "[0 ..< length (xs @ delta)] = [0 ..< length ys] @ [length ys] @ [length xs ..< length xs + length delta]"
    using upt_add_eq_append[of 0 "length xs" "length delta"] by (simp add: xs)
  have p: "positions ?cur (xs @ delta) =
      filter (\<lambda>i. (xs @ delta) ! i \<in> set ?cur) [0 ..< length ys] @ [length ys]"
    unfolding pos split filter_append nodelta using y by (simp add: xs)
  have "map (nth (xs @ delta)) (positions ?cur (xs @ delta)) = ?cur"
    unfolding pos using filter_nth_conv[of "xs @ delta" "\<lambda>m. m \<in> set ?cur"] all by (simp only:)
  then have len: "length (positions ?cur (xs @ delta)) = length ?cur" by (metis length_map)
  have sorted: "sorted (positions ?cur (xs @ delta))" unfolding pos by (simp add: sorted_wrt_filter)
  have "last (positions ?cur (xs @ delta)) + 1 = length xs" "positions ?cur (xs @ delta) \<noteq> []"
    unfolding p by (simp_all add: xs)
  moreover have "\<forall>p \<in> set (pv_projection v). p \<notin> set delta" using delta(2) by auto
  ultimately show ?thesis using len sorted cur(3)
    by (simp add: restore_def validate_message_list_def)
qed

lemma guard_projection_eq_Inr:
  assumes "guard_projection request ml system current = Inr g"
  shows "pg_system g = system" "pg_current g = current" "current \<noteq> []" "distinct (system @ current)"
    "pg_native g = ml_items ml" "pg_request g = request" "pg_list g = ml_id ml"
    "pg_history g = filter (\<lambda>m. m \<notin> set (system @ current)) (ml_items ml)"
  using assms by (auto simp: guard_projection_def validate_message_list_def result_simps)

lemma validate_preserved_order:
  assumes "validate_preserved ms g stage = Inr ()" "distinct (pg_system g @ pg_current g)"
    "set (pg_system g @ pg_current g) \<subseteq> set ms"
  shows "filter (\<lambda>m. m \<in> set (pg_current g)) ms = pg_current g"
    "filter (\<lambda>m. m \<in> set (pg_system g)) ms = pg_system g"
proof -
  from assms(1) have occ: "identity_occurrences ms (pg_system g @ pg_current g) = length (pg_system g @ pg_current g)"
    and sorted: "sorted (positions (pg_system g) ms)" "sorted (positions (pg_current g) ms)"
    by (auto simp: validate_preserved_def validate_group_def result_simps)
  have one: "count_list ms t = 1" if "t \<in> set (pg_system g @ pg_current g)" for t
    by (rule once_each[OF assms(2,3) occ that])
  show "filter (\<lambda>m. m \<in> set (pg_current g)) ms = pg_current g"
    using assms(2) one sorted(2) by (intro in_order_positions) auto
  show "filter (\<lambda>m. m \<in> set (pg_system g)) ms = pg_system g"
    using assms(2) one sorted(1) by (intro in_order_positions) auto
qed

section \<open>Properties\<close>


text \<open>
  Projection touches native history only: taking the projected objects out again leaves
  every message that was not native history, in its order; the system and current objects are
  all still there in their order, and the projected objects stand directly before the current
  turn.
\<close>

theorem project_keeps_foreign:
  assumes g: "guard_projection request ml0 system current = Inr g"
    and p: "project ml g objects = Inr (v, ml1)"
  shows "\<exists>before after. ml_items ml1 = before @ objects @ after \<and> hd after = hd current \<and> after \<noteq> [] \<and>
    before @ after = filter (\<lambda>m. m \<notin> set (pg_history g)) (ml_items ml) \<and>
    (\<forall>m \<in> set (ml_items ml). m \<in> set (system @ current) \<or> m \<notin> set (ml_items ml0) \<longrightarrow> m \<in> set (before @ after))"
proof -
  note gf = guard_projection_eq_Inr[OF g]
  let ?kept = "filter (\<lambda>m. m \<notin> set (pg_history g)) (ml_items ml)"
  from p obtain start where pf: "first_index (hd (pg_current g)) ?kept = Some start"
    "ml1 = ml\<lparr>ml_items := take start ?kept @ objects @ drop start ?kept\<rparr>"
    by (rule project_eq_Inr)
  have "hd (drop n xs) = t \<and> drop n xs \<noteq> []" if "first_index t xs = Some n" for t n xs
    using that by (induction xs arbitrary: n) (auto split: if_splits)
  from this[OF pf(1)] show ?thesis
    by (intro exI[of _ "take start ?kept"] exI[of _ "drop start ?kept"]) (auto simp: pf(2) gf)
qed

text \<open>
  The boundary of restoration is the last current object, not the end of the projected
  list: a message that stands behind the current turn when the list is projected comes back
  twice, once with the list before projection and once as part of the delta.
\<close>

theorem restore_duplicates_trailing_message:
  "\<exists>g v ml1 r. guard_projection 7 \<lparr>ml_id = 1, ml_items = [10, 11, 12]\<rparr> [10] [12] = Inr g \<and>
     project \<lparr>ml_id = 1, ml_items = [10, 11, 12, 13]\<rparr> g [20] = Inr (v, ml1) \<and>
     restore ml1 v = Inr (r, \<lparr>ml_id = 1, ml_items = [10, 11, 12, 13, 13]\<rparr>)"
  by (simp add: guard_projection_def validate_message_list_def identity_occurrences_def project_def
      validate_preserved_def validate_group_def positions_def restore_def)

section \<open>Witnesses\<close>

lemma demo_guard: "guard_projection 7 \<lparr>ml_id = 1, ml_items = [10, 11, 12]\<rparr> [10] [12] =
    Inr \<lparr>pg_request = 7, pg_list = 1, pg_native = [10, 11, 12], pg_history = [11], pg_system = [10], pg_current = [12]\<rparr>"
  by (simp add: guard_projection_def validate_message_list_def identity_occurrences_def)

lemma demo_project: "project \<lparr>ml_id = 1, ml_items = [10, 11, 12]\<rparr>
      \<lparr>pg_request = 7, pg_list = 1, pg_native = [10, 11, 12], pg_history = [11], pg_system = [10], pg_current = [12]\<rparr> [20] =
    Inr (\<lparr>pv_guard = \<lparr>pg_request = 7, pg_list = 1, pg_native = [10, 11, 12], pg_history = [11], pg_system = [10], pg_current = [12]\<rparr>,
      pv_request = 7, pv_list = 1, pv_before = [10, 11, 12], pv_projection = [20], pv_projected = [10, 20, 12]\<rparr>,
      \<lparr>ml_id = 1, ml_items = [10, 20, 12]\<rparr>)"
  by (simp add: validate_message_list_def identity_occurrences_def project_def
      validate_preserved_def validate_group_def positions_def)


theorem project_keeps_foreign_witness:
  "\<exists>before after. [10, 20, 12] = before @ [20] @ after \<and> hd after = 12 \<and> before @ after = [10, 12::obj]"
  using project_keeps_foreign[OF demo_guard demo_project] by auto

end
