(* ===== verification/Compiler.thy ===== *)
theory Compiler
  imports Budget Segmenter Publication
begin

text \<open>
  The compaction pipeline before publication: \<^verbatim>\<open>compaction/rendering.py\<close>,
  \<^verbatim>\<open>compaction/compiler.py\<close> with \<^verbatim>\<open>compaction/validator.py\<close>, \<^verbatim>\<open>compaction/auditor.py\<close> and the
  types of \<^verbatim>\<open>compaction/types.py\<close>. The backends, the token counter, the digest and the JSON form
  of a capsule (pydantic's \<^verbatim>\<open>model_dump\<close>) are arguments.
\<close>

section \<open>Rendering\<close>

definition join_by :: "string \<Rightarrow> string list \<Rightarrow> string" where
  "join_by sep xs = (case xs of [] \<Rightarrow> [] | x # rest \<Rightarrow> x @ concat (map (\<lambda>y. sep @ y) rest))"

definition source_tag :: "string list \<Rightarrow> string" where
  "source_tag ids = '' [source:'' @ join_by '','' ids @ '']''"

definition render_claims :: "string \<Rightarrow> capsule_claim list \<Rightarrow> string list" where
  "render_claims label cs =
     map (\<lambda>c. label @ '': '' @ claim_text c @ source_tag (claim_sources c))
       (filter (\<lambda>c. claim_status c = ACTIVE) cs)"

definition render_decision :: "decision \<Rightarrow> string list" where
  "render_decision d =
     (if decision_status d \<noteq> ACTIVE then []
      else [''DECISION: '' @ decision_text d @ source_tag (decision_sources d)] @
           (if decision_rationale d \<noteq> [] then [''RATIONALE: '' @ decision_rationale d] else []) @
           map (\<lambda>v. ''ALTERNATIVE: '' @ v) (decision_alternatives d) @
           (if decision_rejected_because d \<noteq> []
            then [''REJECTED_BECAUSE: '' @ decision_rejected_because d] else []))"

fun anchor_type_upper :: "anchor_type \<Rightarrow> string" where
  "anchor_type_upper NAME = ''NAME''"
| "anchor_type_upper NUMBER = ''NUMBER''"
| "anchor_type_upper DATE = ''DATE''"
| "anchor_type_upper PATH = ''PATH''"
| "anchor_type_upper URL = ''URL''"
| "anchor_type_upper CODE = ''CODE''"
| "anchor_type_upper FORMULA = ''FORMULA''"
| "anchor_type_upper PROMPT = ''PROMPT''"
| "anchor_type_upper anchor_type.CONSTRAINT = ''CONSTRAINT''"
| "anchor_type_upper COMMITMENT = ''COMMITMENT''"
| "anchor_type_upper MANUAL = ''MANUAL''"
| "anchor_type_upper OTHER = ''OTHER''"

definition render_anchor :: "capsule_anchor \<Rightarrow> string" where
  "render_anchor a =
     ''EXACT_'' @ anchor_type_upper (anchor_kind a) @ '': '' @ anchor_text a @ source_tag (anchor_sources a)"

definition capsule_lines :: "capsule \<Rightarrow> string list" where
  "capsule_lines c =
     [''[CAPSULE '' @ cap_id c @ '' EVENTS '' @ show_int (cap_covered_event_start c) @ ''-'' @
        show_int (cap_covered_event_end c) @ '']''] @
     render_claims ''GOAL'' (cap_goals c) @ render_claims ''CONSTRAINT'' (cap_constraints c) @
     render_claims ''PROGRESS'' (cap_progress c) @ render_claims ''OPEN_LOOP'' (cap_open_loops c) @
     render_claims ''PREFERENCE'' (cap_preferences c) @
     render_claims ''EMOTIONAL_CONTEXT'' (cap_emotional_context c) @
     concat (map render_decision (cap_decisions c)) @
     map (\<lambda>e. ''ENTITY: '' @ entity_name e @ '' ('' @ entity_kind e @ '')'' @ source_tag (entity_sources e))
       (cap_entities c) @
     map render_anchor (filter (\<lambda>a. anchor_state a = ANCHOR_ACTIVE) (cap_exact_anchors c))"

definition render_capsule :: "capsule \<Rightarrow> string" where
  "render_capsule c = join_by [CHR 0x0A] (capsule_lines c)"

section \<open>Types\<close>

datatype compiler_error_code =
  COMPILER_BASE_INVALID | COMPILER_BASE_CAPSULE_MISMATCH | COMPILER_SOURCE_EVENTS_EMPTY
| COMPILER_SOURCE_EVENTS_INVALID | COMPILER_SOURCE_SESSION_MISMATCH | COMPILER_SOURCE_COVERAGE_MISMATCH
| COMPILER_TARGET_INVALID | COMPILER_TOKEN_CEILING_INVALID | COMPILER_NOW_INVALID
| COMPILER_SEGMENTER_CONFIG_INVALID | COMPILER_BACKEND_FAILURE | COMPILER_BACKEND_OUTPUT_INVALID
| COMPILER_BACKEND_OUTPUT_EMPTY | COMPILER_TOKEN_COUNTER_FAILURE | COMPILER_TOKEN_COUNTER_INVALID
| COMPILER_PERMANENT_VALIDATOR_FAILURE | COMPILER_PERMANENT_VALIDATION_FAILED

datatype audit_error_code =
  SEMANTIC_AUDIT_MECHANICAL_INVALID | SEMANTIC_AUDIT_STRICT_AUDIT_INVALID | SEMANTIC_AUDIT_BACKEND_REQUIRED
| SEMANTIC_AUDIT_BACKEND_FAILURE | SEMANTIC_AUDIT_BACKEND_OUTPUT_INVALID | SEMANTIC_AUDIT_SEMANTIC_REJECTED

text \<open>
  What a pipeline stage can raise: the two invariant errors, a deferral of the backend, and the
  plain \<^verbatim>\<open>ValueError\<close>s of the segmenter and of the request constructor.
\<close>

datatype pipeline_error =
  CompilerInvariantError compiler_error_code "report option"
| CompilerBackendDeferred string
| SegmenterValueError segmenter_error
| RequestValueError
| SemanticAuditInvariantError audit_error_code

record fit_provenance =
  fp_profile :: string
  fp_mode :: string
  fp_fallback_code :: string
  fp_primary_discarded :: bool

record provider_binding =
  pb_provider_id :: string
  pb_model_identity :: "string option"
  pb_context_limit :: int

record compilation_request =
  cq_base_snapshot :: "snapshot option"
  cq_base_capsules :: "capsule list"
  cq_source_events :: "event_envelope list"
  cq_segments :: "event_segment list"
  cq_target :: int
  cq_token_ceiling :: int
  cq_counts :: "(string \<times> int) list"
  cq_binding :: "provider_binding option"
  cq_binding_captured :: bool

record compiler_output =
  co_capsules :: "capsule list"
  co_rendered :: string
  co_segments :: "event_segment list option"
  co_provenance :: "fit_provenance option"

text \<open>What awaiting a backend does; an ill-typed result is one that is no \<^verbatim>\<open>CompilerOutput\<close>.\<close>

datatype backend_outcome = Output compiler_output | Output_Ill_Typed | Backend_Defers string | Backend_Raises

type_synonym compiler_backend = "compilation_request \<Rightarrow> backend_outcome"

record compilation_candidate =
  cc_snapshot :: snapshot
  cc_memberships :: "membership list"
  cc_segments :: "event_segment list"
  cc_report :: report
  cc_provenance :: "fit_provenance option"

record semantic_report =
  sar_passed :: bool
  sar_failure_codes :: "string list"

record audited_candidate =
  ac_snapshot :: snapshot
  ac_memberships :: "membership list"
  ac_segments :: "event_segment list"
  ac_report :: report
  ac_semantic :: "semantic_report option"

definition map_error :: "('e \<Rightarrow> 'f) \<Rightarrow> 'e + 'a \<Rightarrow> 'f + 'a" where
  "map_error f r = (case r of Inl e \<Rightarrow> Inl (f e) | Inr x \<Rightarrow> Inr x)"

lemma map_error_eq_Inr [result_simps]: "map_error f r = Inr x \<longleftrightarrow> r = Inr x"
  by (auto simp: map_error_def split: sum.splits)

text \<open>\<^verbatim>\<open>_is_aware_datetime\<close>, and the instant of an aware timestamp.\<close>

fun is_aware_datetime :: "datetime \<Rightarrow> bool" where
  "is_aware_datetime (Aware t) = True"
| "is_aware_datetime (Naive t) = False"

fun instant :: "datetime \<Rightarrow> int" where
  "instant (Aware t) = t"
| "instant (Naive t) = t"

definition compiler_error :: "compiler_error_code \<Rightarrow> pipeline_error" where
  "compiler_error c = CompilerInvariantError c None"

section \<open>Compilation\<close>

definition active_anchor_ids :: "capsule list \<Rightarrow> string list" where
  "active_anchor_ids cs = map anchor_id (active_anchors cs)"

definition request_ok :: "(string \<times> int) list \<Rightarrow> bool" where
  "request_ok counts \<longleftrightarrow> (\<forall>(i, n) \<in> set counts. i \<noteq> [] \<and> n \<ge> 0)"

definition validate_base ::
  "snapshot option \<Rightarrow> capsule list \<Rightarrow> event_envelope list \<Rightarrow> pipeline_error + int \<times> session_key" where
  "validate_base base capsules events =
     (case base of
        None \<Rightarrow>
          bind (guard (capsules = []) (compiler_error COMPILER_BASE_CAPSULE_MISMATCH)) (\<lambda>_.
          Inr (0, ev_session_key (hd events)))
      | Some s \<Rightarrow>
          bind (guard (snap_state s = SNAPSHOT_COMMITTED \<and>
                       snap_covered_event_end s = snap_source_high_water_mark s)
                  (compiler_error COMPILER_BASE_INVALID)) (\<lambda>_.
          bind (guard (snap_capsule_ids s = map cap_id capsules \<and>
                       snap_exact_anchor_ids s = active_anchor_ids capsules \<and>
                       (\<forall>c \<in> set capsules. cap_session_key c = snap_session_key s))
                  (compiler_error COMPILER_BASE_CAPSULE_MISMATCH)) (\<lambda>_.
          Inr (snap_covered_event_end s, snap_session_key s))))"

definition validate_inputs ::
  "snapshot option \<Rightarrow> capsule list \<Rightarrow> event_envelope list \<Rightarrow> int \<Rightarrow> int \<Rightarrow> datetime
   \<Rightarrow> pipeline_error + session_key" where
  "validate_inputs base capsules events target token_ceiling now =
     bind (guard (target \<ge> 1) (compiler_error COMPILER_TARGET_INVALID)) (\<lambda>_.
     bind (guard (token_ceiling \<ge> 0) (compiler_error COMPILER_TOKEN_CEILING_INVALID)) (\<lambda>_.
     bind (guard (is_aware_datetime now) (compiler_error COMPILER_NOW_INVALID)) (\<lambda>_.
     bind (guard (events \<noteq> []) (compiler_error COMPILER_SOURCE_EVENTS_EMPTY)) (\<lambda>_.
     bind (validate_base base capsules events) (\<lambda>(base_coverage, k).
     bind (guard (\<forall>e \<in> set events. ev_session_key e = k)
             (compiler_error COMPILER_SOURCE_SESSION_MISMATCH)) (\<lambda>_.
     bind (guard (target > base_coverage \<and> int (length events) = target - base_coverage \<and>
                  map ev_sequence events = range_list (base_coverage + 1) (base_coverage + 1 + int (length events)) \<and>
                  distinct (map ev_id events))
             (compiler_error COMPILER_SOURCE_COVERAGE_MISMATCH)) (\<lambda>_.
     Inr k)))))))"

definition validate_backend_output ::
  "compiler_output \<Rightarrow> event_envelope list \<Rightarrow> event_segment list
   \<Rightarrow> pipeline_error + capsule list \<times> string \<times> event_segment list \<times> fit_provenance option" where
  "validate_backend_output out events original =
     bind (guard (co_capsules out \<noteq> [] \<and> co_rendered out \<noteq> [])
             (compiler_error COMPILER_BACKEND_OUTPUT_EMPTY)) (\<lambda>_.
     let fitted = (case co_segments out of None \<Rightarrow> original | Some segs \<Rightarrow> segs) in
     bind (guard (fitted \<noteq> [] \<and> concat (map seg_events fitted) = events)
             (compiler_error COMPILER_BACKEND_OUTPUT_INVALID)) (\<lambda>_.
     Inr (co_capsules out, co_rendered out, fitted, co_provenance out)))"

definition json_array :: "string list \<Rightarrow> string" where
  "json_array xs = ''['' @ join_by '','' xs @ '']''"

definition json_member :: "string \<Rightarrow> string \<Rightarrow> string" where
  "json_member k v = json_string k @ '':'' @ v"

text \<open>The members in the order \<^verbatim>\<open>sort_keys=True\<close> gives them.\<close>

definition snapshot_identity_json ::
  "(capsule \<Rightarrow> string) \<Rightarrow> session_key \<Rightarrow> string option \<Rightarrow> int \<Rightarrow> capsule list \<Rightarrow> string list \<Rightarrow> string \<Rightarrow> int
   \<Rightarrow> string" where
  "snapshot_identity_json dump k base target capsules anchors rendered cost =
     ''{'' @ join_by '',''
       [json_member ''active_anchor_ids'' (json_array (map json_string anchors)),
        json_member ''base_snapshot_id'' (json_optional_string base),
        json_member ''capsules'' (json_array (map dump capsules)),
        json_member ''rendered_context'' (json_string rendered),
        json_member ''schema'' (json_string ''astrcontinuum.compilation-candidate.v1''),
        json_member ''session_key'' (json_string (canonical_json k)),
        json_member ''target_high_water_mark'' (show_int target),
        json_member ''token_cost'' (show_int cost)] @ ''}''"

definition build_snapshot_id ::
  "env \<Rightarrow> (capsule \<Rightarrow> string) \<Rightarrow> session_key \<Rightarrow> string option \<Rightarrow> int \<Rightarrow> capsule list \<Rightarrow> string list \<Rightarrow> string
   \<Rightarrow> int \<Rightarrow> string" where
  "build_snapshot_id env dump k base target capsules anchors rendered cost =
     env_sha256 env (snapshot_identity_json dump k base target capsules anchors rendered cost)"

definition count_rendered :: "token_counter \<Rightarrow> string \<Rightarrow> pipeline_error + int" where
  "count_rendered counter rendered =
     (case counter rendered of
        Count_Raises \<Rightarrow> Inl (compiler_error COMPILER_TOKEN_COUNTER_FAILURE)
      | Count_Raises_Tokenizer \<Rightarrow> Inl (compiler_error COMPILER_TOKEN_COUNTER_FAILURE)
      | Count_Not_Int \<Rightarrow> Inl (compiler_error COMPILER_TOKEN_COUNTER_INVALID)
      | Counted n \<Rightarrow> if n < 0 then Inl (compiler_error COMPILER_TOKEN_COUNTER_INVALID) else Inr n)"

definition run_backend :: "compiler_backend \<Rightarrow> compilation_request \<Rightarrow> pipeline_error + compiler_output" where
  "run_backend backend req =
     (case backend req of
        Output out \<Rightarrow> Inr out
      | Output_Ill_Typed \<Rightarrow> Inl (compiler_error COMPILER_BACKEND_OUTPUT_INVALID)
      | Backend_Defers code \<Rightarrow> Inl (CompilerBackendDeferred code)
      | Backend_Raises \<Rightarrow> Inl (compiler_error COMPILER_BACKEND_FAILURE))"

text \<open>\<^verbatim>\<open>enumerate\<close> over the capsules, all in the slot \<^verbatim>\<open>memory\<close>.\<close>

definition memory_memberships :: "capsule list \<Rightarrow> membership list" where
  "memory_memberships cs =
     map (\<lambda>(i, c). \<lparr>mem_ordinal = int i, mem_slot = ''memory'', mem_capsule = c\<rparr>) (enumerate 0 cs)"

definition candidate_snapshot_of ::
  "string \<Rightarrow> session_key \<Rightarrow> string option \<Rightarrow> int \<Rightarrow> capsule list \<Rightarrow> string \<Rightarrow> int \<Rightarrow> int \<Rightarrow> snapshot" where
  "candidate_snapshot_of sid k base target capsules rendered cost now =
     \<lparr>snap_id = sid, snap_session_key = k, snap_base_snapshot_id = base,
      snap_covered_event_end = target, snap_source_high_water_mark = target,
      snap_capsule_ids = map cap_id capsules, snap_exact_anchor_ids = active_anchor_ids capsules,
      snap_rendered_context = rendered, snap_token_cost = cost,
      snap_audit_outcome = \<lparr>ao_mechanical_passed = True, ao_semantic_status = NOT_RUN, ao_failure_codes = []\<rparr>,
      snap_state = CANDIDATE, snap_created_at = now, snap_committed_at = None\<rparr>"

record compiler_input =
  ci_base_snapshot :: "snapshot option"
  ci_base_capsules :: "capsule list"
  ci_source_events :: "event_envelope list"
  ci_counts :: "(string \<times> int) list"
  ci_target :: int
  ci_token_ceiling :: int
  ci_now :: datetime
  ci_segmenter :: segmenter_config
  ci_preferred :: "int list"
  ci_binding :: "provider_binding option"
  ci_binding_captured :: bool

definition request_of :: "compiler_input \<Rightarrow> event_segment list \<Rightarrow> compilation_request" where
  "request_of ci segments =
     \<lparr>cq_base_snapshot = ci_base_snapshot ci, cq_base_capsules = ci_base_capsules ci,
      cq_source_events = ci_source_events ci, cq_segments = segments, cq_target = ci_target ci,
      cq_token_ceiling = ci_token_ceiling ci, cq_counts = ci_counts ci, cq_binding = ci_binding ci,
      cq_binding_captured = ci_binding_captured ci\<rparr>"

definition candidate_gate :: "compiler_input \<Rightarrow> snapshot \<Rightarrow> capsule list \<Rightarrow> gate_input" where
  "candidate_gate ci s capsules =
     \<lparr>g_previous_snapshot = ci_base_snapshot ci, g_previous_capsules = ci_base_capsules ci,
      g_snapshot = s, g_capsules = capsules, g_events = ci_source_events ci, g_target = ci_target ci,
      g_token_ceiling = ci_token_ceiling ci\<rparr>"

definition compile_candidate ::
  "env \<Rightarrow> (string \<Rightarrow> json option) \<Rightarrow> (capsule \<Rightarrow> string) \<Rightarrow> compiler_backend \<Rightarrow> token_counter \<Rightarrow> compiler_input
   \<Rightarrow> pipeline_error + compilation_candidate" where
  "compile_candidate env loads dump backend counter ci =
     bind (validate_inputs (ci_base_snapshot ci) (ci_base_capsules ci) (ci_source_events ci) (ci_target ci)
             (ci_token_ceiling ci) (ci_now ci)) (\<lambda>k.
     bind (map_error SegmenterValueError (segment loads (ci_source_events ci) (ci_counts ci) (ci_segmenter ci)
             (ci_preferred ci))) (\<lambda>segments.
     bind (guard (request_ok (ci_counts ci)) RequestValueError) (\<lambda>_.
     bind (run_backend backend (request_of ci segments)) (\<lambda>out.
     bind (validate_backend_output out (ci_source_events ci) segments)
       (\<lambda>(capsules, rendered, fitted, provenance).
     bind (count_rendered counter rendered) (\<lambda>cost.
     let base = map_option snap_id (ci_base_snapshot ci);
         sid = build_snapshot_id env dump k base (ci_target ci) capsules (active_anchor_ids capsules)
                 rendered cost;
         s = candidate_snapshot_of sid k base (ci_target ci) capsules rendered cost (instant (ci_now ci))
     in bind (guard (valid_snapshot s) (compiler_error COMPILER_BACKEND_OUTPUT_INVALID)) (\<lambda>_.
        let rep = validate_permanent (candidate_gate ci s capsules)
        in bind (guard (rep_passed rep)
                  (CompilerInvariantError COMPILER_PERMANENT_VALIDATION_FAILED (Some rep))) (\<lambda>_.
           Inr \<lparr>cc_snapshot = s, cc_memberships = memory_memberships capsules, cc_segments = fitted,
                cc_report = rep, cc_provenance = provenance\<rparr>))))))))"

section \<open>Semantic audit\<close>

definition MAX_FAILURE_CODES :: nat where "MAX_FAILURE_CODES = 32"

definition upper_letter :: "char \<Rightarrow> bool" where
  "upper_letter c \<longleftrightarrow> (let n = (of_char c :: nat) in 65 \<le> n \<and> n \<le> 90)"

definition code_char :: "char \<Rightarrow> bool" where
  "code_char c \<longleftrightarrow> upper_letter c \<or> (let n = (of_char c :: nat) in 48 \<le> n \<and> n \<le> 57) \<or> c = CHR ''_''"

definition failure_code_ok :: "string \<Rightarrow> bool" where
  "failure_code_ok s \<longleftrightarrow> (case s of [] \<Rightarrow> False | c # cs \<Rightarrow> upper_letter c \<and> length cs \<le> 63 \<and> list_all code_char cs)"

definition is_mechanically_eligible :: "compilation_candidate \<Rightarrow> bool" where
  "is_mechanically_eligible c \<longleftrightarrow>
     rep_passed (cc_report c) \<and> rep_failure_codes (cc_report c) = [] \<and> rep_source_coverage (cc_report c) = 1 \<and>
     rep_anchor_recall (cc_report c) = 1 \<and> rep_coverage_gap (cc_report c) = 0 \<and>
     rep_unsupported_critical_claims (cc_report c) = 0 \<and>
     snap_state (cc_snapshot c) = CANDIDATE \<and>
     snap_audit_outcome (cc_snapshot c) =
       \<lparr>ao_mechanical_passed = True, ao_semantic_status = NOT_RUN, ao_failure_codes = []\<rparr>"

definition is_valid_backend_report :: "semantic_report \<Rightarrow> bool" where
  "is_valid_backend_report r \<longleftrightarrow>
     length (sar_failure_codes r) \<le> MAX_FAILURE_CODES \<and>
     sar_passed r = (sar_failure_codes r = []) \<and> distinct (sar_failure_codes r) \<and>
     list_all failure_code_ok (sar_failure_codes r)"

definition snapshot_with_semantic_result :: "snapshot \<Rightarrow> semantic_audit_status \<Rightarrow> string list \<Rightarrow> snapshot" where
  "snapshot_with_semantic_result s st codes =
     s\<lparr>snap_audit_outcome := \<lparr>ao_mechanical_passed = True, ao_semantic_status = st, ao_failure_codes = codes\<rparr>\<rparr>"

definition build_audited_candidate ::
  "compilation_candidate \<Rightarrow> snapshot \<Rightarrow> semantic_report option \<Rightarrow> audited_candidate" where
  "build_audited_candidate c s rep =
     \<lparr>ac_snapshot = s, ac_memberships = cc_memberships c, ac_segments = cc_segments c, ac_report = cc_report c,
      ac_semantic = rep\<rparr>"

text \<open>What awaiting the audit backend does; \<open>None\<close> is a result that is no report.\<close>

datatype audit_outcome_of_backend = Audit_Report "semantic_report option" | Audit_Raises

type_synonym audit_backend = "compilation_candidate \<Rightarrow> audit_outcome_of_backend"

definition audit_semantic ::
  "compilation_candidate \<Rightarrow> bool \<Rightarrow> audit_backend option \<Rightarrow> pipeline_error + audited_candidate" where
  "audit_semantic c strict backend =
     bind (guard (is_mechanically_eligible c) (SemanticAuditInvariantError SEMANTIC_AUDIT_MECHANICAL_INVALID)) (\<lambda>_.
     if \<not> strict then Inr (build_audited_candidate c (cc_snapshot c) None)
     else
       (case backend of
          None \<Rightarrow> Inl (SemanticAuditInvariantError SEMANTIC_AUDIT_BACKEND_REQUIRED)
        | Some audit \<Rightarrow>
            (case audit c of
               Audit_Raises \<Rightarrow> Inl (SemanticAuditInvariantError SEMANTIC_AUDIT_BACKEND_FAILURE)
             | Audit_Report None \<Rightarrow> Inl (SemanticAuditInvariantError SEMANTIC_AUDIT_BACKEND_OUTPUT_INVALID)
             | Audit_Report (Some r) \<Rightarrow>
                 bind (guard (is_valid_backend_report r)
                         (SemanticAuditInvariantError SEMANTIC_AUDIT_BACKEND_OUTPUT_INVALID)) (\<lambda>_.
                 if sar_passed r
                 then Inr (build_audited_candidate c
                        (snapshot_with_semantic_result (cc_snapshot c) AUDIT_PASSED []) (Some r))
                 else Inl (SemanticAuditInvariantError SEMANTIC_AUDIT_SEMANTIC_REJECTED)))))"

end
