(* ===== verification/Retrieval.thy ===== *)
theory Retrieval
  imports Compiler "HOL-Library.Sublist"
begin

text \<open>
  \<^verbatim>\<open>runtime/retrieval.py\<close>: the bounded deterministic selection of candidate blocks from one
  request view. A binary64 operation is the exact rational result passed through the rounding
  argument \<open>fl\<close>; no property below depends on what \<open>fl\<close> does. The parser \<^verbatim>\<open>json.loads\<close> is the
  argument \<open>loads\<close>, as for the tool loop.
\<close>

section \<open>Configuration\<close>

record retrieval_config =
  rc_max_query_characters :: int
  rc_max_capsules :: int
  rc_max_delta_events :: int
  rc_max_candidates :: int
  rc_max_items_per_field :: int
  rc_max_lexical_characters :: int
  rc_goal_weight :: rat
  rc_constraint_weight :: rat
  rc_raw_delta_weight :: rat
  rc_exact_anchor_weight :: rat
  rc_task_weight :: rat
  rc_decision_weight :: rat
  rc_entity_weight :: rat
  rc_dependency_weight :: rat
  rc_background_weight :: rat
  rc_lexical_weight :: rat

definition default_retrieval_config :: retrieval_config where
  "default_retrieval_config =
     \<lparr>rc_max_query_characters = 2048, rc_max_capsules = 64, rc_max_delta_events = 128, rc_max_candidates = 256,
      rc_max_items_per_field = 64, rc_max_lexical_characters = 4096, rc_goal_weight = 100,
      rc_constraint_weight = 100, rc_raw_delta_weight = 90, rc_exact_anchor_weight = 80, rc_task_weight = 50,
      rc_decision_weight = 40, rc_entity_weight = 30, rc_dependency_weight = 30, rc_background_weight = 10,
      rc_lexical_weight = 10\<rparr>"

definition valid_retrieval_config :: "retrieval_config \<Rightarrow> bool" where
  "valid_retrieval_config c \<longleftrightarrow>
     rc_max_query_characters c \<ge> 0 \<and> rc_max_capsules c \<ge> 0 \<and> rc_max_delta_events c \<ge> 0 \<and>
     rc_max_candidates c \<ge> 1 \<and> rc_max_items_per_field c \<ge> 1 \<and> rc_max_lexical_characters c \<ge> 1 \<and>
     rc_goal_weight c \<ge> 0 \<and> rc_constraint_weight c \<ge> 0 \<and> rc_raw_delta_weight c \<ge> 0 \<and>
     rc_exact_anchor_weight c \<ge> 0 \<and> rc_task_weight c \<ge> 0 \<and> rc_decision_weight c \<ge> 0 \<and>
     rc_entity_weight c \<ge> 0 \<and> rc_dependency_weight c \<ge> 0 \<and> rc_background_weight c \<ge> 0 \<and>
     rc_lexical_weight c \<ge> 0"

text \<open>\<^verbatim>\<open>values[:n]\<close> for a limit that is not negative.\<close>

definition limit :: "int \<Rightarrow> 'a list \<Rightarrow> 'a list" where
  "limit n xs = take (nat n) xs"

definition items :: "retrieval_config \<Rightarrow> 'a list \<Rightarrow> 'a list" where
  "items c xs = limit (rc_max_items_per_field c) xs"

section \<open>Scores\<close>

text \<open>\<^verbatim>\<open>str.split()\<close> and \<^verbatim>\<open>str.casefold()\<close>.\<close>

fun split_words :: "string \<Rightarrow> string \<Rightarrow> string list" where
  "split_words cur [] = (if cur = [] then [] else [rev cur])"
| "split_words cur (c # cs) =
     (if py_isspace c then (if cur = [] then split_words [] cs else rev cur # split_words [] cs)
      else split_words (c # cur) cs)"

definition casefold :: "string \<Rightarrow> string" where
  "casefold s = concat (map casefold_char s)"

definition normalized_query :: "string \<Rightarrow> retrieval_config \<Rightarrow> string" where
  "normalized_query query c = join_by '' '' (split_words [] (casefold (limit (rc_max_query_characters c) query)))"

text \<open>\<^verbatim>\<open>dict.fromkeys\<close> keeps the first of equal values.\<close>

definition unique :: "'a list \<Rightarrow> 'a list" where
  "unique xs = rev (remdups (rev xs))"

definition lexical_fraction :: "(rat \<Rightarrow> rat) \<Rightarrow> string \<Rightarrow> string \<Rightarrow> retrieval_config \<Rightarrow> rat" where
  "lexical_fraction fl query body c =
     (if query = [] then 0
      else let candidate = casefold (limit (rc_max_lexical_characters c) body) in
        if sublist query candidate then 1
        else let terms = unique (split_words [] query) in
          if terms = [] then 0
          else fl (of_nat (length (filter (\<lambda>t. sublist t candidate) terms)) / of_nat (length terms)))"

definition score :: "(rat \<Rightarrow> rat) \<Rightarrow> string \<Rightarrow> rat \<Rightarrow> string \<Rightarrow> retrieval_config \<Rightarrow> rat" where
  "score fl body base_weight query c =
     fl (base_weight + fl (rc_lexical_weight c * lexical_fraction fl query body c))"

definition reason :: "(rat \<Rightarrow> rat) \<Rightarrow> string \<Rightarrow> string \<Rightarrow> retrieval_config \<Rightarrow> string" where
  "reason fl body query c =
     (if lexical_fraction fl query body c > 0 then ''LEXICAL_MATCH'' else ''STRUCTURED_FALLBACK'')"

section \<open>Texts\<close>

definition newline :: string where
  "newline = [CHR 0x0A]"

definition dependency_arrow :: "dependency \<Rightarrow> string" where
  "dependency_arrow d = dependency_id d @ '':'' @ dependency_kind d @ ''->'' @ dependency_target d"

definition retrieval_decision_text :: "capsule \<Rightarrow> decision \<Rightarrow> retrieval_config \<Rightarrow> string" where
  "retrieval_decision_text capsule d c =
     join_by newline
       [''Decision: '' @ decision_text d,
        ''Rationale: '' @ decision_rationale d,
        ''Alternatives: '' @ join_by '' | '' (items c (decision_alternatives d)),
        ''Supersedes: '' @ join_by '' | '' (items c (decision_supersedes d)),
        ''Rejected because: '' @ decision_rejected_because d,
        ''Dependencies: '' @ join_by '' | '' (map dependency_arrow (items c (cap_dependencies capsule)))]"

definition task_section :: "retrieval_config \<Rightarrow> string \<times> capsule_claim list \<Rightarrow> string list" where
  "task_section c sec =
     (case sec of (label, values) \<Rightarrow>
        (case map claim_text (items c values) of
           [] \<Rightarrow> []
         | texts \<Rightarrow> [label @ '': '' @ join_by '' | '' texts]))"

definition task_text :: "capsule \<Rightarrow> retrieval_config \<Rightarrow> string" where
  "task_text capsule c =
     join_by newline (concat (map (task_section c)
       [(''Progress'', cap_progress capsule), (''Open loops'', cap_open_loops capsule),
        (''Preferences'', cap_preferences capsule), (''Emotional context'', cap_emotional_context capsule)]))"

fun event_type_value :: "event_type \<Rightarrow> string" where
  "event_type_value USER_MESSAGE = ''USER_MESSAGE''"
| "event_type_value ASSISTANT_MESSAGE = ''ASSISTANT_MESSAGE''"
| "event_type_value TOOL_CALL = ''TOOL_CALL''"
| "event_type_value TOOL_RESULT = ''TOOL_RESULT''"

fun event_role_value :: "event_role \<Rightarrow> string" where
  "event_role_value USER = ''USER''"
| "event_role_value ASSISTANT = ''ASSISTANT''"
| "event_role_value TOOL = ''TOOL''"

definition raw_event_text :: "event_envelope \<Rightarrow> string" where
  "raw_event_text e =
     ''['' @ event_type_value (ev_type e) @ ''/'' @ event_role_value (ev_role e) @ '' '' @ ev_id e @ '']'' @
     newline @ ev_content e"

text \<open>A plain \<^verbatim>\<open>json.loads\<close> keeps the last of equal keys.\<close>

definition raw_tool_name :: "(string \<Rightarrow> json option) \<Rightarrow> event_envelope \<Rightarrow> string option" where
  "raw_tool_name loads e =
     (if \<not> is_tool e then None
      else let expected_kind = (if ev_type e = TOOL_CALL then ''call'' else ''result'') in
        case loads (ev_content e) of
          Some (JObj kvs) \<Rightarrow>
            if map_of (rev kvs) ''kind'' \<noteq> Some (JStr expected_kind) then None
            else (case map_of (rev kvs) ''tool'' of
                    Some (JStr tool) \<Rightarrow> if tool = [] then None else Some tool
                  | _ \<Rightarrow> None)
        | _ \<Rightarrow> None)"

section \<open>Blocks\<close>

text \<open>The checks of \<^verbatim>\<open>CandidateBlock.__post_init__\<close>.\<close>

definition valid_block :: "candidate_block \<Rightarrow> bool" where
  "valid_block b \<longleftrightarrow>
     cb_id b \<noteq> [] \<and> cb_sources b \<noteq> [] \<and> distinct (cb_sources b) \<and> cb_score b \<ge> 0 \<and> cb_reason b \<noteq> [] \<and>
     (case cb_sequence b of None \<Rightarrow> True | Some n \<Rightarrow> n \<ge> 1) \<and>
     (cb_event_type b \<noteq> None \<longrightarrow> cb_kind b = RAW_EVENT) \<and>
     (cb_tool_name b \<noteq> None \<longrightarrow>
        cb_tool_name b \<noteq> Some [] \<and> (cb_event_type b = Some TOOL_CALL \<or> cb_event_type b = Some TOOL_RESULT))"

definition capsule_block ::
  "string \<Rightarrow> runtime_slot \<Rightarrow> candidate_kind \<Rightarrow> string \<Rightarrow> string list \<Rightarrow> rat \<Rightarrow> string \<Rightarrow> bool \<Rightarrow> capsule \<Rightarrow> candidate_block" where
  "capsule_block i slot kind body sources sc why required capsule =
     \<lparr>cb_id = i, cb_slot = slot, cb_kind = kind, cb_text = body, cb_sources = sources, cb_score = sc,
      cb_reason = why, cb_required = required, cb_capsule = Some (cap_id capsule), cb_sequence = None,
      cb_event_type = None, cb_tool_name = None, cb_selection_complete = True\<rparr>"

definition goal_id :: "capsule \<Rightarrow> capsule_claim \<Rightarrow> string" where
  "goal_id capsule cl = ''goal:'' @ cap_id capsule @ '':'' @ claim_id cl"

definition constraint_id :: "capsule \<Rightarrow> capsule_claim \<Rightarrow> string" where
  "constraint_id capsule cl = ''constraint:'' @ cap_id capsule @ '':'' @ claim_id cl"

definition anchor_block_id :: "capsule \<Rightarrow> capsule_anchor \<Rightarrow> string" where
  "anchor_block_id capsule a = ''anchor:'' @ cap_id capsule @ '':'' @ anchor_id a"

definition active_claims :: "retrieval_config \<Rightarrow> capsule_claim list \<Rightarrow> capsule_claim list" where
  "active_claims c cls = filter (\<lambda>cl. claim_status cl = ACTIVE) (items c cls)"

definition goal_blocks :: "(rat \<Rightarrow> rat) \<Rightarrow> string \<Rightarrow> retrieval_config \<Rightarrow> capsule \<Rightarrow> candidate_block list" where
  "goal_blocks fl query c capsule =
     map (\<lambda>cl. capsule_block (goal_id capsule cl) ACTIVE_GOAL GOAL (claim_text cl) (claim_sources cl)
             (score fl (claim_text cl) (rc_goal_weight c) query c) ''ACTIVE_REQUIRED'' True capsule)
       (active_claims c (cap_goals capsule))"

definition constraint_blocks :: "(rat \<Rightarrow> rat) \<Rightarrow> string \<Rightarrow> retrieval_config \<Rightarrow> capsule \<Rightarrow> candidate_block list" where
  "constraint_blocks fl query c capsule =
     map (\<lambda>cl. capsule_block (constraint_id capsule cl) HARD_CONSTRAINT candidate_kind.CONSTRAINT (claim_text cl)
             (claim_sources cl) (score fl (claim_text cl) (rc_constraint_weight c) query c) ''ACTIVE_REQUIRED'' True
             capsule)
       (active_claims c (cap_constraints capsule))"

definition raw_block ::
  "(rat \<Rightarrow> rat) \<Rightarrow> (string \<Rightarrow> json option) \<Rightarrow> string \<Rightarrow> retrieval_config \<Rightarrow> event_envelope list \<Rightarrow> candidate_block" where
  "raw_block fl loads query c unit_events =
     (let item = hd unit_events; raw_text = join_by (newline @ newline) (map raw_event_text unit_events);
          singleton = (length unit_events = 1) in
      \<lparr>cb_id = ''event:'' @ ev_id item, cb_slot = RAW_DELTA, cb_kind = RAW_EVENT, cb_text = raw_text,
       cb_sources = map ev_id unit_events,
       cb_score = score fl raw_text (rc_raw_delta_weight c) query c, cb_reason = ''UNCOMPACTED_DELTA'',
       cb_required = True, cb_capsule = None, cb_sequence = Some (ev_sequence item),
       cb_event_type = (if singleton then Some (ev_type item) else None),
       cb_tool_name = (if singleton then raw_tool_name loads item else None), cb_selection_complete = True\<rparr>)"

definition anchor_blocks :: "(rat \<Rightarrow> rat) \<Rightarrow> string \<Rightarrow> retrieval_config \<Rightarrow> capsule \<Rightarrow> candidate_block list" where
  "anchor_blocks fl query c capsule =
     map (\<lambda>a. capsule_block (anchor_block_id capsule a) EXACT_ANCHOR_SLOT EXACT_ANCHOR (anchor_text a)
             (anchor_sources a)
             (score fl (anchor_text a) (fl (rc_exact_anchor_weight c * anchor_importance a)) query c)
             ''ACTIVE_EXACT_ANCHOR'' True capsule)
       (filter (\<lambda>a. anchor_state a = ANCHOR_ACTIVE) (items c (cap_exact_anchors capsule)))"

definition task_blocks :: "(rat \<Rightarrow> rat) \<Rightarrow> string \<Rightarrow> retrieval_config \<Rightarrow> capsule list \<Rightarrow> candidate_block list" where
  "task_blocks fl query c capsules =
     map (\<lambda>capsule. let t = task_text capsule c in
           capsule_block (''task:'' @ cap_id capsule) ACTIVE_TASK TASK_CONTEXT t (cap_sources capsule)
             (score fl t (rc_task_weight c) query c) (reason fl t query c) False capsule)
       (filter (\<lambda>capsule. cap_level capsule = TASK \<and> task_text capsule c \<noteq> []) capsules)"

definition evidence_block ::
  "(rat \<Rightarrow> rat) \<Rightarrow> string \<Rightarrow> retrieval_config \<Rightarrow> capsule \<Rightarrow> candidate_kind \<Rightarrow> string \<Rightarrow> string \<Rightarrow> string list \<Rightarrow> rat
   \<Rightarrow> candidate_block" where
  "evidence_block fl query c capsule kind i t sources weight =
     capsule_block i RELEVANT_EVIDENCE kind t sources (score fl t weight query c) (reason fl t query c) False capsule"

definition decision_blocks :: "(rat \<Rightarrow> rat) \<Rightarrow> string \<Rightarrow> retrieval_config \<Rightarrow> capsule \<Rightarrow> candidate_block list" where
  "decision_blocks fl query c capsule =
     map (\<lambda>d. evidence_block fl query c capsule DECISION
             (''decision:'' @ cap_id capsule @ '':'' @ decision_id d) (retrieval_decision_text capsule d c)
             (unique (decision_sources d @ concat (map dependency_sources (items c (cap_dependencies capsule)))))
             (rc_decision_weight c))
       (items c (cap_decisions capsule))"

definition entity_text :: "entity \<Rightarrow> retrieval_config \<Rightarrow> string" where
  "entity_text e c =
     join_by newline
       [''Entity: '' @ entity_name e, ''Kind: '' @ entity_kind e,
        ''Aliases: '' @ join_by '' | '' (items c (entity_aliases e))]"

definition entity_blocks :: "(rat \<Rightarrow> rat) \<Rightarrow> string \<Rightarrow> retrieval_config \<Rightarrow> capsule \<Rightarrow> candidate_block list" where
  "entity_blocks fl query c capsule =
     map (\<lambda>e. evidence_block fl query c capsule ENTITY (''entity:'' @ cap_id capsule @ '':'' @ entity_id e)
             (entity_text e c) (entity_sources e) (rc_entity_weight c))
       (items c (cap_entities capsule))"

definition dependency_text :: "dependency \<Rightarrow> string" where
  "dependency_text d =
     ''Dependency: '' @ dependency_id d @ newline @ ''Kind: '' @ dependency_kind d @ newline @
     ''Target: '' @ dependency_target d"

definition dependency_blocks :: "(rat \<Rightarrow> rat) \<Rightarrow> string \<Rightarrow> retrieval_config \<Rightarrow> capsule \<Rightarrow> candidate_block list" where
  "dependency_blocks fl query c capsule =
     map (\<lambda>d. evidence_block fl query c capsule DEPENDENCY
             (''dependency:'' @ cap_id capsule @ '':'' @ dependency_id d) (dependency_text d)
             (dependency_sources d) (rc_dependency_weight c))
       (items c (cap_dependencies capsule))"

definition background_blocks :: "(rat \<Rightarrow> rat) \<Rightarrow> string \<Rightarrow> retrieval_config \<Rightarrow> capsule list \<Rightarrow> candidate_block list" where
  "background_blocks fl query c capsules =
     map (\<lambda>capsule. let t = cap_narrative_summary capsule in
           capsule_block (''background:'' @ cap_id capsule)
             (if cap_level capsule = EPISODE then EPISODE_BACKGROUND_SLOT else GLOBAL_BACKGROUND_SLOT)
             (if cap_level capsule = EPISODE then EPISODE_BACKGROUND else GLOBAL_BACKGROUND)
             t (cap_sources capsule) (score fl t (rc_background_weight c) query c) (reason fl t query c) False capsule)
       (filter (\<lambda>capsule. cap_level capsule = EPISODE \<or> cap_level capsule = GLOBAL) capsules)"

section \<open>Selection\<close>

definition required_candidates_complete :: "request_view \<Rightarrow> candidate_block list \<Rightarrow> string list \<Rightarrow> bool" where
  "required_candidates_complete view candidates satisfied =
     (let capsules = map mem_capsule (rv_memberships view);
          expected =
            concat (map (\<lambda>k. map (goal_id k) (filter (\<lambda>cl. claim_status cl = ACTIVE) (cap_goals k)) @
              map (constraint_id k) (filter (\<lambda>cl. claim_status cl = ACTIVE) (cap_constraints k)) @
              map (anchor_block_id k) (filter (\<lambda>a. anchor_state a = ANCHOR_ACTIVE) (cap_exact_anchors k))) capsules);
          expected_event_ids = filter (\<lambda>i. i \<notin> set satisfied) (map ev_id (rv_delta view));
          present = map cb_id candidates;
          raw_event_ids = concat (map cb_sources (filter (\<lambda>b. cb_kind b = RAW_EVENT) candidates))
      in set expected \<subseteq> set present \<and> set expected_event_ids \<subseteq> set raw_event_ids)"

text \<open>The loop over \<^verbatim>\<open>reversed(units)\<close>; the accumulator holds the units selected so far, in order.\<close>

fun bounded_loop :: "int \<Rightarrow> event_envelope list list \<Rightarrow> event_envelope list list \<Rightarrow> int \<Rightarrow> event_envelope list list" where
  "bounded_loop m [] selected n = selected"
| "bounded_loop m (u # us) selected n =
     (if selected \<noteq> [] \<and> n + int (length u) > m then selected
      else bounded_loop m us (u # selected) (n + int (length u)))"

definition bounded_raw_units :: "int \<Rightarrow> event_envelope list list \<Rightarrow> event_envelope list list" where
  "bounded_raw_units m units = (if m < 1 then [] else bounded_loop m (rev units) [] 0)"

datatype retrieval_error = CANDIDATE_INVALID

text \<open>One \<^verbatim>\<open>for\<close> loop whose body constructs a block, adds it and breaks when the selection is full.\<close>

fun add_loop :: "int \<Rightarrow> candidate_block list \<Rightarrow> candidate_block list \<Rightarrow> retrieval_error + candidate_block list" where
  "add_loop m selected [] = Inr selected"
| "add_loop m selected (b # bs) =
     (if \<not> valid_block b then Inl CANDIDATE_INVALID
      else if int (length selected) \<ge> m then Inr selected
      else add_loop m (selected @ [b]) bs)"

definition raw_units_of :: "(string \<Rightarrow> json option) \<Rightarrow> retrieval_config \<Rightarrow> request_view \<Rightarrow> event_envelope list list" where
  "raw_units_of loads c view =
     (case durable_event_units loads (rv_delta view) of
        None \<Rightarrow> [] | Some units \<Rightarrow> bounded_raw_units (rc_max_delta_events c) units)"

text \<open>The blocks of every inner loop, in the order of the loops.\<close>

definition selection_loops ::
  "(rat \<Rightarrow> rat) \<Rightarrow> (string \<Rightarrow> json option) \<Rightarrow> request_view \<Rightarrow> string \<Rightarrow> retrieval_config \<Rightarrow> candidate_block list list" where
  "selection_loops fl loads view query c =
     (let capsules = map mem_capsule (limit (rc_max_capsules c) (rv_memberships view)) in
      concat (map (\<lambda>k. [goal_blocks fl query c k, constraint_blocks fl query c k]) capsules) @
      [map (raw_block fl loads query c) (raw_units_of loads c view)] @
      map (anchor_blocks fl query c) capsules @
      [task_blocks fl query c capsules] @
      concat (map (\<lambda>k. [decision_blocks fl query c k, entity_blocks fl query c k, dependency_blocks fl query c k]) capsules) @
      [background_blocks fl query c capsules])"

definition retrieval_sort_key :: "candidate_block \<Rightarrow> nat \<times> rat \<times> int \<times> string" where
  "retrieval_sort_key b =
     (if cb_slot b = RAW_DELTA
      then (slot_rank (cb_slot b), 0, (case cb_sequence b of None \<Rightarrow> 0 | Some n \<Rightarrow> n), cb_id b)
      else (slot_rank (cb_slot b), - cb_score b, 0, cb_id b))"

definition mark_incomplete :: "candidate_block list \<Rightarrow> candidate_block list" where
  "mark_incomplete bs = map (\<lambda>b. b\<lparr>cb_selection_complete := False\<rparr>) bs"

definition select_candidates ::
  "(rat \<Rightarrow> rat) \<Rightarrow> (string \<Rightarrow> json option) \<Rightarrow> request_view \<Rightarrow> string \<Rightarrow> retrieval_config
   \<Rightarrow> retrieval_error + candidate_block list" where
  "select_candidates fl loads view query c =
     bind (foldM (add_loop (rc_max_candidates c)) [] (selection_loops fl loads view (normalized_query query c) c)) (\<lambda>selected.
     let ordered = sort_key retrieval_sort_key selected in
     Inr (if required_candidates_complete view ordered [] then ordered else mark_incomplete ordered))"

end
