(* ===== verification/Graph_Build.thy ===== *)
theory Graph_Build
  imports Retrieval
begin

text \<open>
  \<^verbatim>\<open>context_graph/types.py\<close> and \<^verbatim>\<open>context_graph/build.py\<close>: the value types of the context graph
  with the checks of their constructors, and the construction of one request-local graph. The
  numbers of the graph are binary64 values, written as the rationals they are.
\<close>

section \<open>Values\<close>

record graph_config =
  gc_epsilon :: rat
  gc_selection_threshold :: rat
  gc_direct_limit :: rat
  gc_iterative_limit :: rat
  gc_condition_warning :: rat
  gc_condition_failure :: rat
  gc_max_coordinates :: int
  gc_max_relations :: int
  gc_max_relation_entries :: int
  gc_max_constraints :: int
  gc_python_max_n :: int
  gc_python_max_nnz :: int
  gc_numpy_max_n :: int
  gc_numpy_max_dense_bytes :: int
  gc_sparse_max_n :: int
  gc_sparse_max_nnz :: int
  gc_max_iterations :: int
  gc_allow_least_squares :: bool
  gc_prefer_sparse :: bool

definition default_graph_config :: "(rat \<Rightarrow> rat) \<Rightarrow> graph_config" where
  "default_graph_config fl =
     \<lparr>gc_epsilon = fl (1 / 10 ^ 9), gc_selection_threshold = 1 / 2, gc_direct_limit = fl (1 / 10 ^ 10),
      gc_iterative_limit = fl (1 / 10 ^ 8), gc_condition_warning = 10 ^ 12, gc_condition_failure = 10 ^ 14,
      gc_max_coordinates = 1024, gc_max_relations = 4096, gc_max_relation_entries = 4096,
      gc_max_constraints = 1024, gc_python_max_n = 64, gc_python_max_nnz = 4096, gc_numpy_max_n = 1024,
      gc_numpy_max_dense_bytes = 67108864, gc_sparse_max_n = 100000, gc_sparse_max_nnz = 5000000,
      gc_max_iterations = 10000, gc_allow_least_squares = False, gc_prefer_sparse = False\<rparr>"

definition valid_graph_config :: "graph_config \<Rightarrow> bool" where
  "valid_graph_config c \<longleftrightarrow>
     gc_epsilon c > 0 \<and> 0 \<le> gc_selection_threshold c \<and> gc_selection_threshold c \<le> 1 \<and>
     gc_direct_limit c > 0 \<and> gc_iterative_limit c > 0 \<and>
     gc_condition_warning c > 0 \<and> gc_condition_failure c > gc_condition_warning c \<and>
     gc_max_coordinates c > 0 \<and> gc_max_relations c > 0 \<and> gc_max_relation_entries c > 0 \<and>
     gc_max_constraints c > 0 \<and> gc_python_max_n c > 0 \<and> gc_python_max_nnz c > 0 \<and> gc_numpy_max_n c > 0 \<and>
     gc_numpy_max_dense_bytes c > 0 \<and> gc_sparse_max_n c > 0 \<and> gc_sparse_max_nnz c > 0 \<and>
     gc_max_iterations c > 0 \<and> gc_max_coordinates c \<le> 1024 \<and> gc_python_max_n c \<le> 64 \<and>
     gc_python_max_nnz c \<le> 4096 \<and> gc_numpy_max_n c \<le> 1024 \<and> gc_numpy_max_dense_bytes c \<le> 67108864"

record graph_coordinate =
  co_id :: string
  co_candidate :: candidate_block
  co_diagonal :: rat

record sparse_relation =
  re_id :: string
  re_terms :: "(string \<times> rat) list"
  re_weight :: rat

record constraint_row =
  cn_id :: string
  cn_terms :: "(string \<times> rat) list"
  cn_rhs :: rat

record context_graph =
  gr_id :: string
  gr_coordinates :: "graph_coordinate list"
  gr_relations :: "sparse_relation list"
  gr_constraints :: "constraint_row list"

record query_activation =
  qa_id :: string
  qa_scores :: "(string \<times> rat) list"
  qa_retained :: "string list"
  qa_provenance :: "string list"

definition valid_coordinate :: "graph_coordinate \<Rightarrow> bool" where
  "valid_coordinate k \<longleftrightarrow> co_id k \<noteq> [] \<and> co_diagonal k \<ge> 0"

definition valid_terms :: "(string \<times> rat) list \<Rightarrow> bool" where
  "valid_terms ts \<longleftrightarrow> ts \<noteq> [] \<and> (\<forall>(i, q) \<in> set ts. i \<noteq> [] \<and> q \<noteq> 0) \<and> distinct (map fst ts)"

definition valid_relation :: "sparse_relation \<Rightarrow> bool" where
  "valid_relation r \<longleftrightarrow> re_id r \<noteq> [] \<and> valid_terms (re_terms r) \<and> re_weight r \<ge> 0"

definition valid_constraint :: "constraint_row \<Rightarrow> bool" where
  "valid_constraint r \<longleftrightarrow> cn_id r \<noteq> [] \<and> valid_terms (cn_terms r)"

definition fix_one :: "string \<Rightarrow> string \<Rightarrow> constraint_row" where
  "fix_one i coordinate = \<lparr>cn_id = i, cn_terms = [(coordinate, 1)], cn_rhs = 1\<rparr>"

definition fix_zero :: "string \<Rightarrow> string \<Rightarrow> constraint_row" where
  "fix_zero i coordinate = \<lparr>cn_id = i, cn_terms = [(coordinate, 1)], cn_rhs = 0\<rparr>"

definition valid_graph :: "context_graph \<Rightarrow> bool" where
  "valid_graph g \<longleftrightarrow>
     gr_id g \<noteq> [] \<and> list_all valid_coordinate (gr_coordinates g) \<and> list_all valid_relation (gr_relations g) \<and>
     list_all valid_constraint (gr_constraints g) \<and>
     distinct (map co_id (gr_coordinates g)) \<and> distinct (map (cb_id \<circ> co_candidate) (gr_coordinates g)) \<and>
     distinct (map re_id (gr_relations g)) \<and> distinct (map cn_id (gr_constraints g)) \<and>
     (\<forall>r \<in> set (gr_relations g). \<forall>(i, q) \<in> set (re_terms r). i \<in> set (map co_id (gr_coordinates g))) \<and>
     (\<forall>r \<in> set (gr_constraints g). \<forall>(i, q) \<in> set (cn_terms r). i \<in> set (map co_id (gr_coordinates g)))"

definition valid_activation :: "query_activation \<Rightarrow> bool" where
  "valid_activation a \<longleftrightarrow>
     qa_id a \<noteq> [] \<and> (\<forall>(i, s) \<in> set (qa_scores a). i \<noteq> []) \<and> distinct (map fst (qa_scores a)) \<and>
     (\<forall>i \<in> set (qa_retained a). i \<noteq> []) \<and> (\<forall>i \<in> set (qa_provenance a). i \<noteq> []) \<and>
     distinct (qa_retained a) \<and> distinct (qa_provenance a)"

section \<open>Construction\<close>

datatype graph_error = GRAPH_VALUE_ERROR | GRAPH_CAPACITY_EXCEEDED

text \<open>\<^verbatim>\<open>str.isalnum\<close> on code points below 256.\<close>

definition is_alnum :: "char \<Rightarrow> bool" where
  "is_alnum c = (let n = (of_char c :: nat) in
     48 \<le> n \<and> n \<le> 57 \<or> 65 \<le> n \<and> n \<le> 90 \<or> 97 \<le> n \<and> n \<le> 122 \<or>
     n \<in> {170, 178, 179, 181, 185, 186, 188, 189, 190} \<or> 192 \<le> n \<and> n \<noteq> 215 \<and> n \<noteq> 247)"

definition lexical_units :: "string \<Rightarrow> string" where
  "lexical_units body = remdups (filter is_alnum (casefold body))"

definition lexical_score :: "(rat \<Rightarrow> rat) \<Rightarrow> string \<Rightarrow> string \<Rightarrow> rat" where
  "lexical_score fl query_units body =
     (if query_units = [] then 0
      else let units = lexical_units body; both = filter (\<lambda>x. x \<in> set units) query_units;
               all_units = remdups (query_units @ units) in
        if all_units = [] then 0 else fl (of_nat (length both) / of_nat (length all_units)))"

definition relation_weight :: "candidate_block \<Rightarrow> candidate_block \<Rightarrow> rat" where
  "relation_weight left right =
     (if set (cb_sources left) \<inter> set (cb_sources right) \<noteq> {} then 1 else 0) +
     (if cb_capsule left \<noteq> None \<and> cb_capsule left = cb_capsule right then 3 / 4 else 0) +
     (if cb_kind left = RAW_EVENT \<and> cb_kind right = RAW_EVENT then
        (case (cb_sequence left, cb_sequence right) of
           (Some a, Some b) \<Rightarrow> if \<bar>a - b\<bar> = 1 then 1 / 2 else 0
         | _ \<Rightarrow> 0) else 0) +
     (if cb_kind left = cb_kind right then 1 / 4 else 0) +
     (if cb_slot left = cb_slot right then 1 / 8 else 0)"

definition relation_of :: "candidate_block \<Rightarrow> candidate_block \<Rightarrow> sparse_relation" where
  "relation_of left right =
     \<lparr>re_id = ''relation:'' @ cb_id left @ '':'' @ cb_id right,
      re_terms = [(cb_id left, 1), (cb_id right, -1)], re_weight = relation_weight left right\<rparr>"

text \<open>Each relation accounts for four entries.\<close>

definition relations_full :: "graph_config \<Rightarrow> sparse_relation list \<Rightarrow> bool" where
  "relations_full c rels \<longleftrightarrow>
     int (length rels) \<ge> gc_max_relations c \<or> 4 * int (length rels) + 4 > gc_max_relation_entries c"

fun relations_from ::
  "graph_config \<Rightarrow> candidate_block \<Rightarrow> candidate_block list \<Rightarrow> sparse_relation list \<Rightarrow> sparse_relation list" where
  "relations_from c left [] rels = rels"
| "relations_from c left (right # rest) rels =
     (if relation_weight left right \<le> 0 then relations_from c left rest rels
      else if relations_full c rels then rels
      else relations_from c left rest (rels @ [relation_of left right]))"

fun relations_loop :: "graph_config \<Rightarrow> candidate_block list \<Rightarrow> sparse_relation list \<Rightarrow> sparse_relation list" where
  "relations_loop c [] rels = rels"
| "relations_loop c (left # rest) rels =
     (let rels' = relations_from c left rest rels in
      if relations_full c rels' then rels' else relations_loop c rest rels')"

definition coordinate_of :: "candidate_block \<Rightarrow> graph_coordinate" where
  "coordinate_of b = \<lparr>co_id = cb_id b, co_candidate = b, co_diagonal = 1\<rparr>"

definition required_rows :: "candidate_block list \<Rightarrow> constraint_row list" where
  "required_rows bs = map (\<lambda>b. fix_one (''required:'' @ cb_id b) (cb_id b)) (filter cb_required bs)"

definition block_provenance :: "candidate_block list \<Rightarrow> string list" where
  "block_provenance bs = unique (concat (map cb_sources bs))"

definition build_context_graph ::
  "(rat \<Rightarrow> rat) \<Rightarrow> request_view \<Rightarrow> candidate_block list \<Rightarrow> string \<Rightarrow> graph_config
   \<Rightarrow> graph_error + context_graph \<times> query_activation" where
  "build_context_graph fl view candidates current_input c =
     bind (guard (distinct (map cb_id candidates)) GRAPH_VALUE_ERROR) (\<lambda>_.
     bind (guard (int (length candidates) \<le> gc_max_coordinates c) GRAPH_CAPACITY_EXCEEDED) (\<lambda>_.
     bind (guard (list_all valid_coordinate (map coordinate_of candidates)) GRAPH_VALUE_ERROR) (\<lambda>_.
     bind (guard (int (length (required_rows candidates)) \<le> gc_max_constraints c) GRAPH_CAPACITY_EXCEEDED) (\<lambda>_.
     let query_units = lexical_units current_input;
         scores = map (\<lambda>b. (cb_id b, lexical_score fl query_units (cb_text b))) candidates;
         retained = map cb_id (filter (\<lambda>b. cb_required b \<or> lexical_score fl query_units (cb_text b) > 0) candidates);
         g = \<lparr>gr_id = ''request:'' @ show_int (rv_pointer_version view) @ '':'' @
                show_int (rv_covered_event_end view) @ '':'' @ show_int (rv_high_water_mark view),
              gr_coordinates = map coordinate_of candidates,
              gr_relations = relations_loop c candidates [], gr_constraints = required_rows candidates\<rparr>;
         a = \<lparr>qa_id = ''query:'' @ show_int (rv_pointer_version view) @ '':'' @ show_int (rv_high_water_mark view),
              qa_scores = scores, qa_retained = retained, qa_provenance = block_provenance candidates\<rparr>
     in bind (guard (valid_graph g) GRAPH_VALUE_ERROR) (\<lambda>_.
        bind (guard (valid_activation a) GRAPH_VALUE_ERROR) (\<lambda>_. Inr (g, a)))))))"

end
