(* ===== verification/Verification.thy ===== *)
theory Verification
  imports Graph_Build
begin

text \<open>
  \<^verbatim>\<open>context_graph/candidate_verification.py\<close>: the mechanical probes a candidate passes before it
  is published. The numerical engine is the argument \<open>engine\<close>, the protocol
  \<^verbatim>\<open>VerificationEngine\<close> of the source: a graph and an activation to its result in the mode
  \<^verbatim>\<open>ACTIVE\<close>, or nothing when it raises. Nothing is assumed about it.
\<close>

datatype engine_outcome = ENGINE_ACTIVE | ENGINE_SHADOW | ENGINE_OFF | DEGRADED_RAW

record error_certificate =
  ec_stationarity :: rat
  ec_constraint :: rat
  ec_reconstruction :: rat
  ec_required_blocks_passed :: bool
  ec_provenance_passed :: bool
  ec_passed :: bool

record engine_result =
  er_outcome :: engine_outcome
  er_selected :: "candidate_block list"
  er_scores :: "(string \<times> rat) list"
  er_certificate :: "error_certificate option"
  er_error_code :: "string option"
  er_solve_status :: "string option"
  er_backend_name :: "string option"

type_synonym verification_engine = "context_graph \<Rightarrow> query_activation \<Rightarrow> engine_result option"

record verification_report =
  vr_candidate_count :: nat
  vr_relation_count :: nat
  vr_constraint_count :: nat
  vr_probe_count :: nat
  vr_probe_ids :: "string list"

definition PROBES :: "(string \<times> candidate_kind list) list" where
  "PROBES = [(''required'', [GOAL, candidate_kind.CONSTRAINT, EXACT_ANCHOR, TASK_CONTEXT]),
     (''evidence'', [DECISION, DEPENDENCY, ENTITY]), (''recent'', [RAW_EVENT])]"

section \<open>Provenance\<close>

fun first_by :: "('a \<Rightarrow> 'b) \<Rightarrow> 'b list \<Rightarrow> 'a list \<Rightarrow> 'a list" where
  "first_by f seen [] = []"
| "first_by f seen (x # xs) = (if f x \<in> set seen then first_by f seen xs else x # first_by f (f x # seen) xs)"

definition source_events :: "audited_candidate \<Rightarrow> event_envelope list" where
  "source_events a = first_by ev_id [] (concat (map seg_events (ac_segments a)))"

definition known_provenance :: "audited_candidate \<Rightarrow> string list" where
  "known_provenance a =
     map ev_id (concat (map seg_events (ac_segments a))) @
     concat (map (cap_sources \<circ> mem_capsule) (ac_memberships a))"

text \<open>The sources of every item of the fields \<^verbatim>\<open>_PROVENANCE_FIELDS\<close>.\<close>

definition item_sources :: "capsule \<Rightarrow> string list list" where
  "item_sources k =
     map claim_sources (cap_goals k) @ map claim_sources (cap_constraints k) @
     map decision_sources (cap_decisions k) @ map claim_sources (cap_progress k) @
     map claim_sources (cap_open_loops k) @ map claim_sources (cap_preferences k) @
     map entity_sources (cap_entities k) @ map claim_sources (cap_emotional_context k) @
     map anchor_sources (cap_exact_anchors k) @ map dependency_sources (cap_dependencies k)"

definition membership_provenance_valid :: "audited_candidate \<Rightarrow> bool" where
  "membership_provenance_valid a \<longleftrightarrow>
     (\<forall>m \<in> set (ac_memberships a). \<forall>ids \<in> set (item_sources (mem_capsule m)).
        set ids \<subseteq> set (cap_sources (mem_capsule m)))"

section \<open>Blocks\<close>

datatype verification_error = VERIFICATION_VALUE_ERROR

definition candidate_view :: "audited_candidate \<Rightarrow> event_envelope list \<Rightarrow> request_view" where
  "candidate_view a delta =
     \<lparr>rv_session_key = snap_session_key (ac_snapshot a), rv_snapshot = Some (ac_snapshot a),
      rv_memberships = ac_memberships a, rv_pointer_version = 0,
      rv_covered_event_end = snap_covered_event_end (ac_snapshot a),
      rv_high_water_mark = snap_source_high_water_mark (ac_snapshot a), rv_delta = delta\<rparr>"

definition build_candidate_blocks ::
  "(rat \<Rightarrow> rat) \<Rightarrow> (string \<Rightarrow> json option) \<Rightarrow> audited_candidate \<Rightarrow> retrieval_config
   \<Rightarrow> verification_error + candidate_block list" where
  "build_candidate_blocks fl loads a rc =
     bind (guard (map mem_capsule_id (ac_memberships a) = snap_capsule_ids (ac_snapshot a)) VERIFICATION_VALUE_ERROR) (\<lambda>_.
     bind (guard (\<forall>m \<in> set (ac_memberships a). cap_session_key (mem_capsule m) = snap_session_key (ac_snapshot a))
             VERIFICATION_VALUE_ERROR) (\<lambda>_.
     let view = candidate_view a (source_events a) in
     bind (map_error (\<lambda>_. VERIFICATION_VALUE_ERROR) (select_candidates fl loads view [] rc)) (\<lambda>blocks.
     let filtered = filter (\<lambda>b. cb_kind b \<noteq> EPISODE_BACKGROUND \<and> cb_kind b \<noteq> GLOBAL_BACKGROUND) blocks in
     Inr (if required_candidates_complete view filtered [] then filtered else mark_incomplete filtered))))"

section \<open>Probes\<close>

definition probe_activation ::
  "context_graph \<Rightarrow> string \<Rightarrow> candidate_kind list \<Rightarrow> string list \<Rightarrow> bool \<Rightarrow> query_activation" where
  "probe_activation g probe_id kinds provenance retain_all =
     \<lparr>qa_id = ''candidate-probe:'' @ probe_id,
      qa_scores = map (\<lambda>k. (co_id k, if cb_kind (co_candidate k) \<in> set kinds then 4 else 0)) (gr_coordinates g),
      qa_retained =
        (if retain_all then map co_id (gr_coordinates g)
         else map co_id (filter (\<lambda>k. cb_required (co_candidate k) \<or> cb_kind (co_candidate k) \<in> set kinds)
                (gr_coordinates g))),
      qa_provenance = provenance\<rparr>"

definition result_verified :: "engine_result \<Rightarrow> string list \<Rightarrow> string list \<Rightarrow> bool" where
  "result_verified r required_ids provenance \<longleftrightarrow>
     er_outcome r = ENGINE_ACTIVE \<and>
     (case er_certificate r of
        None \<Rightarrow> False
      | Some ec \<Rightarrow> ec_passed ec \<and> ec_required_blocks_passed ec \<and> ec_provenance_passed ec) \<and>
     set required_ids \<subseteq> set (map cb_id (er_selected r)) \<and>
     (\<forall>b \<in> set (er_selected r). set (cb_sources b) \<subseteq> set provenance)"

text \<open>\<^verbatim>\<open>dict\<close> of pairs: the last of equal keys.\<close>

definition dict_of :: "(string \<times> 'v) list \<Rightarrow> string \<Rightarrow> 'v option" where
  "dict_of ps = map_of (rev ps)"

definition probe_equivalent :: "(rat \<Rightarrow> rat) \<Rightarrow> engine_result \<Rightarrow> engine_result \<Rightarrow> rat \<Rightarrow> bool" where
  "probe_equivalent fl reduced full tolerance \<longleftrightarrow>
     map cb_id (er_selected reduced) = map cb_id (er_selected full) \<and>
     set (map fst (er_scores reduced)) = set (map fst (er_scores full)) \<and>
     (\<forall>i \<in> set (map fst (er_scores reduced)).
        (case (dict_of (er_scores reduced) i, dict_of (er_scores full) i) of
           (Some x, Some y) \<Rightarrow> \<bar>fl (x - y)\<bar> \<le> tolerance
         | _ \<Rightarrow> False))"

definition run_engine :: "verification_engine \<Rightarrow> context_graph \<Rightarrow> query_activation \<Rightarrow> verification_error + engine_result" where
  "run_engine engine g a =
     (case engine g a of None \<Rightarrow> Inl VERIFICATION_VALUE_ERROR | Some r \<Rightarrow> Inr r)"

definition verification_tolerance :: "graph_config \<Rightarrow> rat" where
  "verification_tolerance c = max (gc_direct_limit c) (gc_iterative_limit c)"

text \<open>The body of the loop over the probes.\<close>

definition verify_probe ::
  "(rat \<Rightarrow> rat) \<Rightarrow> graph_config \<Rightarrow> verification_engine \<Rightarrow> context_graph \<Rightarrow> candidate_block list
   \<Rightarrow> string list \<Rightarrow> string \<times> candidate_kind list \<Rightarrow> verification_error + unit" where
  "verify_probe fl c engine g blocks provenance probe =
     (case probe of (probe_id, kinds) \<Rightarrow>
        let required_ids = map cb_id (filter cb_required blocks);
            reduced_activation = probe_activation g probe_id kinds provenance False;
            full_activation = reduced_activation\<lparr>qa_retained := map co_id (gr_coordinates g)\<rparr> in
        bind (guard (valid_activation reduced_activation \<and> valid_activation full_activation)
                VERIFICATION_VALUE_ERROR) (\<lambda>_.
        bind (run_engine engine g reduced_activation) (\<lambda>reduced.
        bind (run_engine engine g full_activation) (\<lambda>full.
        bind (guard (result_verified reduced required_ids provenance \<and> result_verified full required_ids provenance)
                VERIFICATION_VALUE_ERROR) (\<lambda>_.
        bind (guard (probe_equivalent fl reduced full (verification_tolerance c)) VERIFICATION_VALUE_ERROR) (\<lambda>_.
        bind (map_error (\<lambda>_. VERIFICATION_VALUE_ERROR)
                (close_dependency_closure (er_selected reduced) blocks (gc_max_coordinates c))) (\<lambda>closure.
        guard (validate_dependency_closure closure blocks (gc_max_coordinates c) \<and>
               (\<forall>b \<in> set closure. set (cb_sources b) \<subseteq> set provenance)) VERIFICATION_VALUE_ERROR)))))))"

definition verify_candidate_body ::
  "(rat \<Rightarrow> rat) \<Rightarrow> (string \<Rightarrow> json option) \<Rightarrow> audited_candidate \<Rightarrow> graph_config \<Rightarrow> verification_engine
   \<Rightarrow> verification_error + verification_report" where
  "verify_candidate_body fl loads a c engine =
     bind (build_candidate_blocks fl loads a default_retrieval_config) (\<lambda>blocks.
     bind (guard (blocks \<noteq> [] \<and> int (length blocks) \<le> gc_max_coordinates c) VERIFICATION_VALUE_ERROR) (\<lambda>_.
     bind (guard (\<forall>b \<in> set blocks. cb_selection_complete b) VERIFICATION_VALUE_ERROR) (\<lambda>_.
     bind (guard (membership_provenance_valid a) VERIFICATION_VALUE_ERROR) (\<lambda>_.
     bind (guard (\<forall>b \<in> set blocks. set (cb_sources b) \<subseteq> set (known_provenance a)) VERIFICATION_VALUE_ERROR) (\<lambda>_.
     bind (map_error (\<lambda>_. VERIFICATION_VALUE_ERROR)
             (build_context_graph fl (candidate_view a []) blocks [] c)) (\<lambda>(g, activation).
     bind (foldM (\<lambda>_. verify_probe fl c engine g blocks (block_provenance blocks)) () PROBES) (\<lambda>_.
     Inr \<lparr>vr_candidate_count = length blocks, vr_relation_count = length (gr_relations g),
          vr_constraint_count = length (gr_constraints g), vr_probe_count = length PROBES,
          vr_probe_ids = map fst PROBES\<rparr>)))))))"

text \<open>Every exception becomes the one content-free rejection.\<close>

definition verify_candidate ::
  "(rat \<Rightarrow> rat) \<Rightarrow> (string \<Rightarrow> json option) \<Rightarrow> audited_candidate \<Rightarrow> graph_config \<Rightarrow> verification_engine
   \<Rightarrow> verification_report option" where
  "verify_candidate fl loads a c engine =
     (case verify_candidate_body fl loads a c engine of Inl e \<Rightarrow> None | Inr r \<Rightarrow> Some r)"

end
