(* ===== verification/Retrieval_Laws.thy ===== *)
theory Retrieval_Laws
  imports Verification Tool_Loop_Laws
begin

text \<open>
  Laws of the candidate selection: it is a prefix of one fixed sequence of blocks, sorted; it is
  bounded, sound and fail-closed; and within the configured limits it drops nothing required.
\<close>

section \<open>The selection is a prefix\<close>

lemma add_loop_take:
  assumes "add_loop m sel bs = Inr s" "int (length sel) \<le> m"
  shows "s = take (nat m) (sel @ bs) \<and> int (length s) \<le> m"
  using assms
proof (induction bs arbitrary: sel)
  case (Cons b bs)
  show ?case
  proof (cases "int (length sel) \<ge> m")
    case True
    with Cons.prems have "s = sel" "nat m = length sel" by (auto split: if_splits)
    with Cons.prems show ?thesis by simp
  next
    case False
    with Cons.prems have "add_loop m (sel @ [b]) bs = Inr s" "int (length (sel @ [b])) \<le> m" by (auto split: if_splits)
    from Cons.IH[OF this, unfolded append_assoc append_Cons append_Nil] show ?thesis .
  qed
qed auto

lemma add_loop_valid:
  assumes "add_loop m sel bs = Inr s" "list_all valid_block sel"
  shows "list_all valid_block s"
  using assms by (induction bs arbitrary: sel) (auto split: if_splits)

lemma add_loops_take:
  assumes "foldM (add_loop m) sel loops = Inr s" "int (length sel) \<le> m" "list_all valid_block sel"
  shows "s = take (nat m) (sel @ concat loops) \<and> list_all valid_block s"
  using assms
proof (induction loops arbitrary: sel)
  case (Cons bs loops)
  from Cons.prems(1) obtain s1 where s1: "add_loop m sel bs = Inr s1" "foldM (add_loop m) s1 loops = Inr s"
    by (auto simp: bind_eq_Inr)
  from add_loop_take[OF s1(1) Cons.prems(2)] have t: "s1 = take (nat m) (sel @ bs)" "int (length s1) \<le> m" by blast+
  from Cons.IH[OF s1(2) t(2) add_loop_valid[OF s1(1) Cons.prems(3)]]
  have s: "s = take (nat m) (s1 @ concat loops)" and v: "list_all valid_block s" by blast+
  have eq: "take (nat m) (take (nat m) (sel @ bs) @ concat loops) = take (nat m) ((sel @ bs) @ concat loops)"
    by (simp only: take_append take_take length_take) (simp add: min_def)
  have "s = take (nat m) (sel @ concat (bs # loops))" unfolding s t(1) eq by (simp only: concat.simps append_assoc)
  with v show ?case by blast
qed (auto simp: nat_le_iff)

lemma add_loop_total: "list_all valid_block bs \<Longrightarrow> \<exists>s. add_loop m sel bs = Inr s"
  by (induction bs arbitrary: sel) auto

lemma add_loops_total: "list_all (list_all valid_block) loops \<Longrightarrow> \<exists>s. foldM (add_loop m) sel loops = Inr s"
proof (induction loops arbitrary: sel)
  case (Cons bs loops)
  then obtain s1 where "add_loop m sel bs = Inr s1" using add_loop_total by fastforce
  with Cons show ?case by auto
qed simp

lemma mark_incomplete_fields [simp]:
  "map cb_id (mark_incomplete bs) = map cb_id bs" "map cb_sources (mark_incomplete bs) = map cb_sources bs"
  "length (mark_incomplete bs) = length bs" "map retrieval_sort_key (mark_incomplete bs) = map retrieval_sort_key bs"
  "filter (\<lambda>b. cb_kind b = RAW_EVENT) (mark_incomplete bs) = mark_incomplete (filter (\<lambda>b. cb_kind b = RAW_EVENT) bs)"
  by (auto simp: mark_incomplete_def retrieval_sort_key_def filter_map comp_def)

lemma complete_mark [simp]:
  "required_candidates_complete view (mark_incomplete bs) sat = required_candidates_complete view bs sat"
  by (simp add: required_candidates_complete_def)

text \<open>What one call selects, before the flag is set.\<close>

lemma select_candidates_eq_Inr:
  assumes "select_candidates fl loads view query c = Inr out" "rc_max_candidates c \<ge> 0"
  obtains sel where
    "sel = take (nat (rc_max_candidates c)) (concat (selection_loops fl loads view (normalized_query query c) c))"
    "list_all valid_block sel"
    "out = (if required_candidates_complete view (sort_key retrieval_sort_key sel) []
       then sort_key retrieval_sort_key sel else mark_incomplete (sort_key retrieval_sort_key sel))"
proof -
  from assms(1) obtain sel where
    f: "foldM (add_loop (rc_max_candidates c)) [] (selection_loops fl loads view (normalized_query query c) c) = Inr sel"
    and out: "out = (if required_candidates_complete view (sort_key retrieval_sort_key sel) []
       then sort_key retrieval_sort_key sel else mark_incomplete (sort_key retrieval_sort_key sel))"
    by (auto simp: select_candidates_def bind_eq_Inr Let_def)
  from add_loops_take[OF f] assms(2) have
    "sel = take (nat (rc_max_candidates c)) (concat (selection_loops fl loads view (normalized_query query c) c))"
    "list_all valid_block sel" by auto
  with out that show ?thesis by blast
qed

lemma complete_iff:
  "required_candidates_complete view bs sat \<longleftrightarrow>
     (\<forall>m \<in> set (rv_memberships view).
        (\<forall>cl \<in> set (cap_goals (mem_capsule m)). claim_status cl = ACTIVE \<longrightarrow> goal_id (mem_capsule m) cl \<in> cb_id ` set bs) \<and>
        (\<forall>cl \<in> set (cap_constraints (mem_capsule m)). claim_status cl = ACTIVE \<longrightarrow>
           constraint_id (mem_capsule m) cl \<in> cb_id ` set bs) \<and>
        (\<forall>a \<in> set (cap_exact_anchors (mem_capsule m)). anchor_state a = ANCHOR_ACTIVE \<longrightarrow>
           anchor_block_id (mem_capsule m) a \<in> cb_id ` set bs)) \<and>
     (\<forall>e \<in> set (rv_delta view). ev_id e \<notin> set sat \<longrightarrow>
        (\<exists>b \<in> set bs. cb_kind b = RAW_EVENT \<and> ev_id e \<in> set (cb_sources b)))"
  (is "_ \<longleftrightarrow> ?items \<and> ?events")
proof -
  let ?ids = "\<lambda>m. map (goal_id (mem_capsule m)) (filter (\<lambda>cl. claim_status cl = ACTIVE) (cap_goals (mem_capsule m))) @
    map (constraint_id (mem_capsule m)) (filter (\<lambda>cl. claim_status cl = ACTIVE) (cap_constraints (mem_capsule m))) @
    map (anchor_block_id (mem_capsule m)) (filter (\<lambda>a. anchor_state a = ANCHOR_ACTIVE) (cap_exact_anchors (mem_capsule m)))"
  have "set (?ids m) \<subseteq> cb_id ` set bs \<longleftrightarrow>
      (\<forall>cl \<in> set (cap_goals (mem_capsule m)). claim_status cl = ACTIVE \<longrightarrow> goal_id (mem_capsule m) cl \<in> cb_id ` set bs) \<and>
      (\<forall>cl \<in> set (cap_constraints (mem_capsule m)). claim_status cl = ACTIVE \<longrightarrow>
         constraint_id (mem_capsule m) cl \<in> cb_id ` set bs) \<and>
      (\<forall>a \<in> set (cap_exact_anchors (mem_capsule m)). anchor_state a = ANCHOR_ACTIVE \<longrightarrow>
         anchor_block_id (mem_capsule m) a \<in> cb_id ` set bs)" for m
    by (simp add: image_subset_iff Ball_def imp_conjL)
  then have "set (concat (map ?ids (rv_memberships view))) \<subseteq> cb_id ` set bs \<longleftrightarrow> ?items"
    unfolding set_concat set_map image_image UN_subset_iff by (rule ball_cong[OF refl])
  moreover have "set (filter (\<lambda>i. i \<notin> set sat) (map ev_id (rv_delta view))) \<subseteq>
      set (concat (map cb_sources (filter (\<lambda>b. cb_kind b = RAW_EVENT) bs))) \<longleftrightarrow> ?events" by auto
  ultimately show ?thesis by (simp add: required_candidates_complete_def Let_def comp_def)
qed

lemma complete_mono:
  assumes "required_candidates_complete view xs sat" "set xs \<subseteq> set ys"
  shows "required_candidates_complete view ys sat"
proof -
  have "cb_id ` set xs \<subseteq> cb_id ` set ys" using assms(2) by blast
  with assms show ?thesis unfolding complete_iff by (meson subsetD)
qed

section \<open>Where blocks come from\<close>

definition capsule_sources :: "capsule \<Rightarrow> string set" where
  "capsule_sources k = set (cap_sources k) \<union> \<Union> (set ` set (item_sources k))"

text \<open>A block cites its capsule's items, or is a raw block that cites events of the delta.\<close>

definition from_view :: "request_view \<Rightarrow> candidate_block \<Rightarrow> bool" where
  "from_view view b \<longleftrightarrow>
     (case cb_capsule b of
        Some i \<Rightarrow> cb_kind b \<noteq> RAW_EVENT \<and> (\<exists>m \<in> set (rv_memberships view). cap_id (mem_capsule m) = i \<and>
          set (cb_sources b) \<subseteq> capsule_sources (mem_capsule m))
      | None \<Rightarrow> cb_kind b = RAW_EVENT \<and> set (cb_sources b) \<subseteq> ev_id ` set (rv_delta view))"

lemma from_view_mark [simp]: "from_view view (b\<lparr>cb_selection_complete := x\<rparr>) = from_view view b"
  by (simp add: from_view_def split: option.splits)

definition required_kind :: "candidate_kind \<Rightarrow> bool" where
  "required_kind k \<longleftrightarrow> k \<in> {GOAL, candidate_kind.CONSTRAINT, RAW_EVENT, EXACT_ANCHOR}"

lemma items_subset: "x \<in> set (items c xs) \<Longrightarrow> x \<in> set xs"
  by (auto simp: items_def limit_def dest: in_set_takeD)

lemma unique_facts [simp]: "set (unique xs) = set xs" "distinct (unique xs)"
  by (simp_all add: unique_def)

lemma capsule_block_fields [simp]:
  "cb_id (capsule_block i s k t src sc w r cap) = i" "cb_kind (capsule_block i s k t src sc w r cap) = k"
  "cb_sources (capsule_block i s k t src sc w r cap) = src" "cb_required (capsule_block i s k t src sc w r cap) = r"
  "cb_capsule (capsule_block i s k t src sc w r cap) = Some (cap_id cap)"
  "cb_selection_complete (capsule_block i s k t src sc w r cap)"
  by (simp_all add: capsule_block_def)

lemma raw_block_fields [simp]:
  "cb_id (raw_block fl loads q c u) = ''event:'' @ ev_id (hd u)" "cb_kind (raw_block fl loads q c u) = RAW_EVENT"
  "cb_sources (raw_block fl loads q c u) = map ev_id u" "cb_required (raw_block fl loads q c u)"
  "cb_capsule (raw_block fl loads q c u) = None" "cb_selection_complete (raw_block fl loads q c u)"
  "cb_slot (raw_block fl loads q c u) = RAW_DELTA" "cb_sequence (raw_block fl loads q c u) = Some (ev_sequence (hd u))"
  by (simp_all add: raw_block_def Let_def)

definition capsule_part :: "(rat \<Rightarrow> rat) \<Rightarrow> string \<Rightarrow> retrieval_config \<Rightarrow> capsule \<Rightarrow> candidate_block set" where
  "capsule_part fl q c k = set (goal_blocks fl q c k) \<union> set (constraint_blocks fl q c k) \<union> set (anchor_blocks fl q c k) \<union>
     set (task_blocks fl q c [k]) \<union> set (decision_blocks fl q c k) \<union> set (entity_blocks fl q c k) \<union>
     set (dependency_blocks fl q c k) \<union> set (background_blocks fl q c [k])"

definition block_of_capsule :: "capsule \<Rightarrow> candidate_block \<Rightarrow> bool" where
  "block_of_capsule k b \<longleftrightarrow> cb_kind b \<noteq> RAW_EVENT \<and> cb_capsule b = Some (cap_id k) \<and> cb_selection_complete b \<and>
    (cb_required b \<longleftrightarrow> required_kind (cb_kind b)) \<and> set (cb_sources b) \<subseteq> capsule_sources k"

lemma item_sources_sub:
  "cl \<in> set (cap_goals k) \<Longrightarrow> x \<in> set (claim_sources cl) \<Longrightarrow> x \<in> capsule_sources k"
  "cl \<in> set (cap_constraints k) \<Longrightarrow> x \<in> set (claim_sources cl) \<Longrightarrow> x \<in> capsule_sources k"
  "a \<in> set (cap_exact_anchors k) \<Longrightarrow> x \<in> set (anchor_sources a) \<Longrightarrow> x \<in> capsule_sources k"
  "d \<in> set (cap_decisions k) \<Longrightarrow> x \<in> set (decision_sources d) \<Longrightarrow> x \<in> capsule_sources k"
  "e \<in> set (cap_entities k) \<Longrightarrow> x \<in> set (entity_sources e) \<Longrightarrow> x \<in> capsule_sources k"
  "y \<in> set (cap_dependencies k) \<Longrightarrow> x \<in> set (dependency_sources y) \<Longrightarrow> x \<in> capsule_sources k"
  "x \<in> set (cap_sources k) \<Longrightarrow> x \<in> capsule_sources k"
  by (simp_all add: capsule_sources_def item_sources_def) blast+

lemma claim_blocks_of_capsule:
  "b \<in> set (goal_blocks fl q c k) \<Longrightarrow> block_of_capsule k b"
  "b \<in> set (constraint_blocks fl q c k) \<Longrightarrow> block_of_capsule k b"
  by (auto simp: block_of_capsule_def goal_blocks_def constraint_blocks_def active_claims_def required_kind_def
      intro: item_sources_sub dest!: items_subset)

lemma anchor_blocks_of_capsule: "b \<in> set (anchor_blocks fl q c k) \<Longrightarrow> block_of_capsule k b"
  by (auto simp: block_of_capsule_def anchor_blocks_def required_kind_def intro: item_sources_sub dest!: items_subset)

lemma summary_blocks_of_capsule:
  "b \<in> set (task_blocks fl q c [k]) \<Longrightarrow> block_of_capsule k b"
  "b \<in> set (background_blocks fl q c [k]) \<Longrightarrow> block_of_capsule k b"
  by (auto simp: block_of_capsule_def task_blocks_def background_blocks_def required_kind_def Let_def intro: item_sources_sub split: if_splits)

lemma evidence_blocks_of_capsule:
  "b \<in> set (entity_blocks fl q c k) \<Longrightarrow> block_of_capsule k b"
  "b \<in> set (dependency_blocks fl q c k) \<Longrightarrow> block_of_capsule k b"
  by (auto simp: block_of_capsule_def entity_blocks_def dependency_blocks_def evidence_block_def required_kind_def
      intro: item_sources_sub dest!: items_subset)

lemma decision_blocks_of_capsule: "b \<in> set (decision_blocks fl q c k) \<Longrightarrow> block_of_capsule k b"
proof -
  assume "b \<in> set (decision_blocks fl q c k)"
  then obtain d where d: "d \<in> set (cap_decisions k)"
    and b: "b = evidence_block fl q c k DECISION (''decision:'' @ cap_id k @ '':'' @ decision_id d) (retrieval_decision_text k d c)
      (unique (decision_sources d @ concat (map dependency_sources (items c (cap_dependencies k))))) (rc_decision_weight c)"
    by (auto simp: decision_blocks_def dest: items_subset)
  show ?thesis unfolding b
    by (auto simp: block_of_capsule_def evidence_block_def required_kind_def intro: item_sources_sub(4)[OF d] item_sources_sub(6)
        dest!: items_subset)
qed

lemma capsule_part_facts: "b \<in> capsule_part fl q c k \<Longrightarrow> block_of_capsule k b"
  unfolding capsule_part_def
  using claim_blocks_of_capsule anchor_blocks_of_capsule summary_blocks_of_capsule evidence_blocks_of_capsule
    decision_blocks_of_capsule by (elim UnE) blast+

lemma summary_blocks_set:
  "set (task_blocks fl q c ks) = (\<Union>k \<in> set ks. set (task_blocks fl q c [k]))"
  "set (background_blocks fl q c ks) = (\<Union>k \<in> set ks. set (background_blocks fl q c [k]))"
  by (auto simp: task_blocks_def background_blocks_def split: if_splits)

lemma selection_loops_set:
  "set (concat (selection_loops fl loads view q c)) =
     (\<Union>k \<in> mem_capsule ` set (limit (rc_max_capsules c) (rv_memberships view)). capsule_part fl q c k) \<union>
     raw_block fl loads q c ` set (raw_units_of loads c view)"
proof -
  let ?ks = "map mem_capsule (limit (rc_max_capsules c) (rv_memberships view))"
  note sets = summary_blocks_set[of fl q c ?ks]
  show ?thesis unfolding selection_loops_def Let_def capsule_part_def concat_append set_append concat.simps append_Nil2 sets
    by (simp add: UN_Un_distrib Un_ac)
qed

section \<open>Raw units\<close>

lemma bounded_loop_suffix: "\<exists>j. bounded_loop m us sel n = rev (take j us) @ sel"
proof (induction us arbitrary: sel n)
  case (Cons u us)
  show ?case
  proof (cases "sel \<noteq> [] \<and> n + int (length u) > m")
    case True
    then show ?thesis by (intro exI[of _ 0]) simp
  next
    case False
    from Cons[of "u # sel" "n + int (length u)"] obtain j where
      "bounded_loop m us (u # sel) (n + int (length u)) = rev (take j us) @ u # sel" by blast
    with False show ?thesis by (intro exI[of _ "Suc j"]) auto
  qed
qed simp

lemma bounded_loop_all:
  "n + int (length (concat us)) \<le> m \<Longrightarrow> bounded_loop m us sel n = rev us @ sel"
  by (induction us arbitrary: sel n) auto

lemma bounded_raw_units_suffix: "suffix (bounded_raw_units m units) units"
proof (cases "m < 1")
  case False
  obtain j where "bounded_loop m (rev units) [] 0 = rev (take j (rev units)) @ []" using bounded_loop_suffix by blast
  then have "bounded_raw_units m units = drop (length units - j) units" using False
    by (simp add: bounded_raw_units_def take_rev)
  then show ?thesis by (simp add: suffix_drop)
qed (simp add: bounded_raw_units_def)

lemma bounded_raw_units_all:
  assumes "int (length (concat units)) \<le> m" "[] \<notin> set units"
  shows "bounded_raw_units m units = units"
proof (cases "m < 1")
  case True
  with assms(1) have "concat units = []" by (cases "concat units") auto
  with assms(2) have "units = []" by (cases units) auto
  then show ?thesis by (simp add: bounded_raw_units_def)
next
  case False
  have "length (concat (rev units)) = length (concat units)" by (simp add: length_concat rev_map[symmetric] sum_list_rev)
  with False assms(1) bounded_loop_all[of 0 "rev units" m "[]"] show ?thesis by (simp add: bounded_raw_units_def)
qed

lemma contiguous_sorted: "contiguous es \<Longrightarrow> sorted_wrt (<) (map ev_sequence es)"
proof (induction es)
  case (Cons e es)
  then have IH: "sorted_wrt (<) (map ev_sequence es)" by (cases es) (auto simp: contiguous_def)
  show ?case
  proof (cases es)
    case (Cons e' es')
    with Cons.prems have "ev_sequence e < ev_sequence e'" by (simp add: contiguous_def)
    with IH Cons show ?thesis by auto
  qed simp
qed simp

lemma heads_sorted:
  assumes "sorted_wrt (<) (map f (concat us))" "[] \<notin> set us"
  shows "sorted_wrt (<) (map (\<lambda>u. (f (hd u) :: int)) us)"
  using assms
proof (induction us)
  case (Cons u us)
  have "f (hd u) < f (hd v)" if v: "v \<in> set us" for v
  proof -
    from v Cons.prems(2) have "v \<noteq> []" "u \<noteq> []" by auto
    then have "hd v \<in> set (concat us)" "hd u \<in> set u" using v by (auto intro: hd_in_set)
    with Cons.prems(1) show ?thesis by (auto simp: sorted_wrt_append)
  qed
  with Cons show ?case by (auto simp: sorted_wrt_append)
qed simp

text \<open>The raw blocks of a selection, in order, are a run of whole units of the delta.\<close>

lemma raw_units_run:
  "sublist (concat (raw_units_of loads c view)) (rv_delta view) \<and>
   sorted_wrt (<) (map (\<lambda>u. ev_sequence (hd u)) (raw_units_of loads c view)) \<and> [] \<notin> set (raw_units_of loads c view)"
proof (cases "durable_event_units loads (rv_delta view)")
  case (Some units)
  then have u: "contiguous (rv_delta view)" "concat units = rv_delta view" "[] \<notin> set units"
    unfolding durable_units_spec using unit_ok_nonempty by auto
  obtain pre where pre: "units = pre @ raw_units_of loads c view"
    using bounded_raw_units_suffix Some by (auto simp: raw_units_of_def suffix_def)
  have "sorted_wrt (<) (map (\<lambda>u. ev_sequence (hd u)) units)"
    by (rule heads_sorted) (use u contiguous_sorted in auto)
  moreover have "rv_delta view = concat pre @ concat (raw_units_of loads c view)" using pre u(2) by simp
  then have "sublist (concat (raw_units_of loads c view)) (rv_delta view)" by simp
  ultimately show ?thesis using pre u by (auto simp: sorted_wrt_append)
qed (simp add: raw_units_of_def)

section \<open>The selection\<close>

lemma filter_take_middle:
  assumes "\<And>x. x \<in> set pre \<Longrightarrow> \<not> P x" "\<And>x. x \<in> set mid \<Longrightarrow> P x" "\<And>x. x \<in> set post \<Longrightarrow> \<not> P x"
  shows "filter P (take n (pre @ mid @ post)) = take (n - length pre) mid"
proof -
  have "filter P (take m pre) = []" "filter P (take m post) = []" "filter P (take m mid) = take m mid" for m
    using assms by (auto simp: filter_empty_conv filter_id_conv dest: in_set_takeD)
  then show ?thesis by simp
qed

lemma raw_filter_take:
  "\<exists>j. filter (\<lambda>b. cb_kind b = RAW_EVENT) (take n (concat (selection_loops fl loads view q c))) =
     map (raw_block fl loads q c) (take j (raw_units_of loads c view))"
proof -
  let ?raw = "\<lambda>b. cb_kind b = RAW_EVENT" and ?ks = "map mem_capsule (limit (rc_max_capsules c) (rv_memberships view))"
  let ?units = "raw_units_of loads c view"
  let ?pre = "concat (concat (map (\<lambda>k. [goal_blocks fl q c k, constraint_blocks fl q c k]) ?ks))"
  let ?post = "concat (map (anchor_blocks fl q c) ?ks) @ task_blocks fl q c ?ks @
    concat (concat (map (\<lambda>k. [decision_blocks fl q c k, entity_blocks fl q c k, dependency_blocks fl q c k]) ?ks)) @
    background_blocks fl q c ?ks"
  have split: "concat (selection_loops fl loads view q c) = ?pre @ map (raw_block fl loads q c) ?units @ ?post"
    by (simp add: selection_loops_def Let_def)
  have kind: "\<not> ?raw b" if "b \<in> capsule_part fl q c k" for b k
    using capsule_part_facts[OF that] by (simp add: block_of_capsule_def)
  have pre: "\<not> ?raw b" if "b \<in> set ?pre" for b
  proof -
    from that obtain k where "b \<in> capsule_part fl q c k" by (auto simp: capsule_part_def)
    then show ?thesis by (rule kind)
  qed
  have post: "\<not> ?raw b" if b: "b \<in> set ?post" for b
  proof -
    from b obtain k where "b \<in> capsule_part fl q c k"
      unfolding set_append summary_blocks_set[of fl q c ?ks] by (auto simp: capsule_part_def)
    then show ?thesis by (rule kind)
  qed
  have "filter ?raw (take n (?pre @ map (raw_block fl loads q c) ?units @ ?post)) =
      take (n - length ?pre) (map (raw_block fl loads q c) ?units)"
    by (rule filter_take_middle[OF pre _ post]) auto
  then show ?thesis unfolding split by (intro exI[of _ "n - length ?pre"]) (simp only: take_map)
qed

lemma selection_block:
  assumes "b \<in> set (concat (selection_loops fl loads view q c))"
  shows "from_view view b \<and> (cb_required b \<longleftrightarrow> required_kind (cb_kind b)) \<and> cb_selection_complete b"
proof -
  from assms consider m where "m \<in> set (limit (rc_max_capsules c) (rv_memberships view))" "b \<in> capsule_part fl q c (mem_capsule m)"
    | u where "u \<in> set (raw_units_of loads c view)" "b = raw_block fl loads q c u"
    unfolding selection_loops_set by blast
  then show ?thesis
  proof cases
    case 1
    then have "m \<in> set (rv_memberships view)" by (auto simp: limit_def dest: in_set_takeD)
    with capsule_part_facts[OF 1(2)] show ?thesis by (auto simp: from_view_def block_of_capsule_def)
  next
    case 2
    then have "set u \<subseteq> set (rv_delta view)" using raw_units_run[of loads c view] set_mono_sublist by fastforce
    with 2(2) show ?thesis by (auto simp: from_view_def required_kind_def)
  qed
qed

text \<open>
  C25. The candidate selection is bounded, ordered and sound: it never exceeds the configured
  number of blocks and lists them by slot; every block cites only items of its own capsule or
  events of the delta, and exactly goals, constraints, anchors and raw events are required; the
  raw blocks in order are a contiguous run of whole units of the delta; and it is fail-closed:
  a block is marked complete exactly if every required source of the view has its block.
\<close>

theorem select_candidates_sound:
  assumes run: "select_candidates fl loads view query c = Inr out" and c: "rc_max_candidates c \<ge> 1"
  shows "int (length out) \<le> rc_max_candidates c \<and> sorted (map retrieval_sort_key out) \<and>
    (\<forall>b \<in> set out. from_view view b \<and> (cb_required b \<longleftrightarrow> required_kind (cb_kind b)) \<and>
       (cb_selection_complete b \<longleftrightarrow> required_candidates_complete view out [])) \<and>
    sublist (concat (map cb_sources (filter (\<lambda>b. cb_kind b = RAW_EVENT) out))) (map ev_id (rv_delta view))"
proof -
  from c have "rc_max_candidates c \<ge> 0" by simp
  then obtain sel where sel: "sel = take (nat (rc_max_candidates c)) (concat (selection_loops fl loads view (normalized_query query c) c))"
    and out: "out = (if required_candidates_complete view (sort_key retrieval_sort_key sel) []
       then sort_key retrieval_sort_key sel else mark_incomplete (sort_key retrieval_sort_key sel))"
    using run select_candidates_eq_Inr by metis
  let ?q = "normalized_query query c" and ?raw = "\<lambda>b. cb_kind b = RAW_EVENT" and ?sorted = "sort_key retrieval_sort_key sel"
  have len: "int (length out) \<le> rc_max_candidates c" using c by (simp add: out sel)
  have sorted: "sorted (map retrieval_sort_key out)" by (simp add: out)
  have block: "from_view view b \<and> (cb_required b \<longleftrightarrow> required_kind (cb_kind b)) \<and> cb_selection_complete b" if "b \<in> set sel" for b
    using selection_block that unfolding sel by (blast dest: in_set_takeD)
  have comp: "required_candidates_complete view out [] = required_candidates_complete view ?sorted []" by (simp add: out)
  have all: "\<forall>b \<in> set out. from_view view b \<and> (cb_required b \<longleftrightarrow> required_kind (cb_kind b)) \<and>
       (cb_selection_complete b \<longleftrightarrow> required_candidates_complete view out [])"
    using block unfolding comp by (auto simp: out mark_incomplete_def)
  obtain j where j: "filter ?raw sel = map (raw_block fl loads ?q c) (take j (raw_units_of loads c view))"
    unfolding sel using raw_filter_take by blast
  have "sorted_wrt (<) (map (\<lambda>u. ev_sequence (hd u)) (take j (raw_units_of loads c view)))"
    using raw_units_run[of loads c view] by (simp add: take_map[symmetric] sorted_wrt_take)
  then have "sorted (map retrieval_sort_key (filter ?raw sel))"
    unfolding j by (simp add: sorted_wrt_map retrieval_sort_key_def less_imp_le sorted_wrt_mono_rel[rotated])
  then have "filter ?raw ?sorted = filter ?raw sel" by (simp add: filter_sort sort_key_id_if_sorted)
  then have "map cb_sources (filter ?raw out) = map (map ev_id) (take j (raw_units_of loads c view))"
    by (simp add: out j comp_def)
  then have "concat (map cb_sources (filter ?raw out)) = map ev_id (concat (take j (raw_units_of loads c view)))"
    by (simp add: map_concat)
  moreover have "sublist (concat (take j (raw_units_of loads c view))) (rv_delta view)"
  proof -
    have "prefix (concat (take j (raw_units_of loads c view))) (concat (raw_units_of loads c view))"
      by (metis append_take_drop_id concat_append prefixI)
    with raw_units_run show ?thesis by (metis prefix_imp_sublist sublist_order.order_trans)
  qed
  ultimately show ?thesis using len sorted all by (simp add: map_mono_sublist)
qed

definition active_items :: "capsule \<Rightarrow> nat" where
  "active_items k =
     length (filter (\<lambda>cl. claim_status cl = ACTIVE) (cap_goals k)) +
     length (filter (\<lambda>cl. claim_status cl = ACTIVE) (cap_constraints k)) +
     length (filter (\<lambda>a. anchor_state a = ANCHOR_ACTIVE) (cap_exact_anchors k))"

text \<open>
  A view whose delta forms the given units is within the limits when no bound of the
  configuration cuts off anything required. That the delta forms units at all is no limit: it
  says that the tool rounds of the delta are well formed and closed.
\<close>

definition within_limits :: "retrieval_config \<Rightarrow> request_view \<Rightarrow> event_envelope list list \<Rightarrow> bool" where
  "within_limits c view units \<longleftrightarrow>
     int (length (rv_memberships view)) \<le> rc_max_capsules c \<and>
     (\<forall>m \<in> set (rv_memberships view). let k = mem_capsule m in
        int (length (cap_goals k)) \<le> rc_max_items_per_field c \<and>
        int (length (cap_constraints k)) \<le> rc_max_items_per_field c \<and>
        int (length (cap_exact_anchors k)) \<le> rc_max_items_per_field c) \<and>
     int (length (rv_delta view)) \<le> rc_max_delta_events c \<and>
     int (sum_list (map (active_items \<circ> mem_capsule) (rv_memberships view)) + length units) \<le> rc_max_candidates c"

text \<open>The loops that come before and with the last required block.\<close>

definition required_loops ::
  "(rat \<Rightarrow> rat) \<Rightarrow> (string \<Rightarrow> json option) \<Rightarrow> request_view \<Rightarrow> string \<Rightarrow> retrieval_config \<Rightarrow> candidate_block list" where
  "required_loops fl loads view q c =
     (let ks = map mem_capsule (rv_memberships view) in
      concat (map (\<lambda>k. goal_blocks fl q c k @ constraint_blocks fl q c k) ks) @
      map (raw_block fl loads q c) (raw_units_of loads c view) @ concat (map (anchor_blocks fl q c) ks))"

lemma limit_all: "int (length xs) \<le> n \<Longrightarrow> limit n xs = xs"
  by (simp add: limit_def)

lemma concat_pairs: "concat (concat (map (\<lambda>k. [f k, g k]) ks)) = concat (map (\<lambda>k. f k @ g k) ks)"
  by (induction ks) auto

lemma required_loops_prefix:
  assumes "int (length (rv_memberships view)) \<le> rc_max_capsules c"
  shows "\<exists>post. concat (selection_loops fl loads view q c) = required_loops fl loads view q c @ post"
  using assms by (simp add: selection_loops_def required_loops_def Let_def limit_all concat_pairs del: map_map)

lemma within_limits_units:
  assumes u: "durable_event_units loads (rv_delta view) = Some units" and w: "within_limits c view units"
  shows "raw_units_of loads c view = units" "concat units = rv_delta view"
proof -
  have c: "concat units = rv_delta view" "[] \<notin> set units"
    using u unit_ok_nonempty unfolding durable_units_spec by auto
  moreover have "int (length (rv_delta view)) \<le> rc_max_delta_events c" using w by (simp add: within_limits_def)
  ultimately show "raw_units_of loads c view = units"
    using bounded_raw_units_all[of units "rc_max_delta_events c"] u by (simp add: raw_units_of_def)
  show "concat units = rv_delta view" by (rule c(1))
qed

lemma within_limits_items:
  assumes "within_limits c view units" "m \<in> set (rv_memberships view)"
  shows "items c (cap_goals (mem_capsule m)) = cap_goals (mem_capsule m)"
    "items c (cap_constraints (mem_capsule m)) = cap_constraints (mem_capsule m)"
    "items c (cap_exact_anchors (mem_capsule m)) = cap_exact_anchors (mem_capsule m)"
  using assms by (auto simp: within_limits_def items_def Let_def intro: limit_all)

lemma required_loops_length:
  assumes u: "durable_event_units loads (rv_delta view) = Some units" and w: "within_limits c view units"
  shows "int (length (required_loops fl loads view q c)) \<le> rc_max_candidates c"
proof -
  have "int (sum_list (map (active_items \<circ> mem_capsule) (rv_memberships view)) + length units) \<le> rc_max_candidates c"
    using w by (simp add: within_limits_def)
  moreover note within_limits_units(1)[OF u w]
  moreover
  have "length (concat (map (\<lambda>m. goal_blocks fl q c (mem_capsule m) @ constraint_blocks fl q c (mem_capsule m)) ms)) +
      length (concat (map (\<lambda>m. anchor_blocks fl q c (mem_capsule m)) ms)) = sum_list (map (active_items \<circ> mem_capsule) ms)"
    if "set ms \<subseteq> set (rv_memberships view)" for ms
    using that
    by (induction ms) (auto simp: goal_blocks_def constraint_blocks_def anchor_blocks_def active_claims_def active_items_def
        within_limits_items[OF w])
  note this[of "rv_memberships view"]
  ultimately show ?thesis by (simp add: required_loops_def Let_def comp_def)
qed

lemma required_loops_complete:
  assumes u: "durable_event_units loads (rv_delta view) = Some units" and w: "within_limits c view units"
  shows "required_candidates_complete view (required_loops fl loads view q c) []"
proof -
  note u = within_limits_units[OF u w]
  note it = within_limits_items[OF w]
  have raw: "\<exists>b \<in> set (required_loops fl loads view q c). cb_kind b = RAW_EVENT \<and> ev_id e \<in> set (cb_sources b)"
    if "e \<in> set (rv_delta view)" for e
  proof -
    from that u(2)[symmetric] obtain x where x: "x \<in> set units" "e \<in> set x" by auto
    then have "raw_block fl loads q c x \<in> set (required_loops fl loads view q c)" using u(1) by (simp add: required_loops_def Let_def)
    moreover have "ev_id e \<in> set (cb_sources (raw_block fl loads q c x))" using x by simp
    ultimately show ?thesis using raw_block_fields(2) by blast
  qed
  have sub: "set (goal_blocks fl q c (mem_capsule m)) \<union> set (constraint_blocks fl q c (mem_capsule m)) \<union>
      set (anchor_blocks fl q c (mem_capsule m)) \<subseteq> set (required_loops fl loads view q c)"
    if "m \<in> set (rv_memberships view)" for m
    using that by (auto simp: required_loops_def Let_def)
  have "goal_id (mem_capsule m) cl \<in> cb_id ` set (goal_blocks fl q c (mem_capsule m))"
    if "m \<in> set (rv_memberships view)" "cl \<in> set (cap_goals (mem_capsule m))" "claim_status cl = ACTIVE" for m cl
    using that it(1)[OF that(1)] by (simp add: goal_blocks_def active_claims_def image_image)
  moreover have "constraint_id (mem_capsule m) cl \<in> cb_id ` set (constraint_blocks fl q c (mem_capsule m))"
    if "m \<in> set (rv_memberships view)" "cl \<in> set (cap_constraints (mem_capsule m))" "claim_status cl = ACTIVE" for m cl
    using that it(2)[OF that(1)] by (simp add: constraint_blocks_def active_claims_def image_image)
  moreover have "anchor_block_id (mem_capsule m) a \<in> cb_id ` set (anchor_blocks fl q c (mem_capsule m))"
    if "m \<in> set (rv_memberships view)" "a \<in> set (cap_exact_anchors (mem_capsule m))" "anchor_state a = ANCHOR_ACTIVE" for m a
    using that it(3)[OF that(1)] by (simp add: anchor_blocks_def image_image)
  ultimately show ?thesis unfolding complete_iff using raw sub by blast
qed


end
