(* ===== verification/Verification_Laws.thy ===== *)
theory Verification_Laws
  imports Retrieval_Laws Closure_Laws
begin

text \<open>
  The relations of a built graph against a reference definition, and what a verified candidate
  guarantees whatever the numerical engine answered.
\<close>

section \<open>Relations\<close>

fun pairs :: "'a list \<Rightarrow> ('a \<times> 'a) list" where
  "pairs [] = []"
| "pairs (x # xs) = map (Pair x) xs @ pairs xs"

definition related_pairs :: "candidate_block list \<Rightarrow> sparse_relation list" where
  "related_pairs bs = map (\<lambda>(l, r). relation_of l r) (filter (\<lambda>(l, r). relation_weight l r > 0) (pairs bs))"

definition relation_capacity :: "graph_config \<Rightarrow> int" where
  "relation_capacity c = min (gc_max_relations c) (gc_max_relation_entries c div 4)"

lemma relations_full_iff: "relations_full c rels \<longleftrightarrow> int (length rels) \<ge> relation_capacity c"
  by (auto simp: relations_full_def relation_capacity_def min_def)

lemma relations_from_take:
  assumes "int (length rels) \<le> relation_capacity c"
  shows "relations_from c left bs rels =
    take (nat (relation_capacity c)) (rels @ map (relation_of left) (filter (\<lambda>r. relation_weight left r > 0) bs))"
  using assms
proof (induction bs arbitrary: rels)
  case (Cons b bs)
  show ?case
  proof (cases "relation_weight left b \<le> 0")
    case False
    show ?thesis
    proof (cases "relations_full c rels")
      case True
      with Cons.prems have "nat (relation_capacity c) = length rels" by (simp add: relations_full_iff)
      with True False show ?thesis by simp
    next
      case full: False
      then have "int (length (rels @ [relation_of left b])) \<le> relation_capacity c" by (simp add: relations_full_iff)
      from Cons.IH[OF this, unfolded append_assoc append_Cons append_Nil] False full show ?thesis by simp
    qed
  qed (use Cons in auto)
qed (auto simp: nat_le_iff)

lemma relations_loop_take:
  assumes "int (length rels) \<le> relation_capacity c"
  shows "relations_loop c bs rels = take (nat (relation_capacity c)) (rels @ related_pairs bs)"
  using assms
proof (induction bs arbitrary: rels)
  case (Cons b bs)
  let ?n = "nat (relation_capacity c)" and ?new = "map (relation_of b) (filter (\<lambda>r. relation_weight b r > 0) bs)"
  have split: "related_pairs (b # bs) = ?new @ related_pairs bs"
    by (simp add: related_pairs_def filter_map comp_def)
  let ?rels = "relations_from c b bs rels"
  have rels: "?rels = take ?n (rels @ ?new)" by (rule relations_from_take[OF Cons.prems])
  have len: "int (length ?rels) \<le> relation_capacity c" unfolding rels using Cons.prems by simp
  show ?case
  proof (cases "relations_full c ?rels")
    case True
    with len have "length ?rels = ?n" by (simp add: relations_full_iff)
    then have "?n \<le> length (rels @ ?new)" unfolding rels by simp
    with True show ?thesis unfolding split relations_loop.simps Let_def rels by simp
  next
    case False
    then have "length ?rels < ?n" by (simp add: relations_full_iff)
    then have "?rels = rels @ ?new" unfolding rels by simp
    with False Cons.IH[OF len] show ?thesis unfolding split relations_loop.simps Let_def by simp
  qed
qed (auto simp: related_pairs_def nat_le_iff)

lemma pairs_order: "(l, r) \<in> set (pairs xs) \<Longrightarrow> l \<in> set xs \<and> r \<in> set xs"
  by (induction xs) auto

lemma build_context_graph_eq_Inr:
  assumes "build_context_graph fl view bs input c = Inr (g, a)"
  shows "distinct (map cb_id bs)" "int (length bs) \<le> gc_max_coordinates c"
    "int (length (required_rows bs)) \<le> gc_max_constraints c"
    "gr_coordinates g = map coordinate_of bs" "gr_relations g = relations_loop c bs []"
    "gr_constraints g = required_rows bs" "valid_graph g" "valid_activation a"
    "qa_provenance a = block_provenance bs"
  using assms by (auto simp: build_context_graph_def result_simps Let_def)

text \<open>
  C27. The graph of a request is what the reference construction gives: its coordinates are the
  candidates in order, its constraints fix exactly the required ones, and its relations are the
  positively weighted pairs of candidates, in order, cut at the smaller of the two capacities;
  so no bound of the configuration is ever exceeded, and no pair is missing below them.
\<close>

theorem build_context_graph_reference:
  assumes build: "build_context_graph fl view bs input c = Inr (g, a)" and c: "valid_graph_config c"
  shows "map co_candidate (gr_coordinates g) = bs \<and>
    gr_constraints g = map (\<lambda>b. fix_one (''required:'' @ cb_id b) (cb_id b)) (filter cb_required bs) \<and>
    gr_relations g = take (nat (relation_capacity c)) (related_pairs bs) \<and>
    int (length (gr_coordinates g)) \<le> gc_max_coordinates c \<and> int (length (gr_constraints g)) \<le> gc_max_constraints c \<and>
    int (length (gr_relations g)) \<le> gc_max_relations c \<and>
    int (length (concat (map re_terms (gr_relations g)))) * 2 \<le> gc_max_relation_entries c"
proof -
  note b = build_context_graph_eq_Inr[OF build]
  have cap: "0 \<le> relation_capacity c" using c by (auto simp: relation_capacity_def valid_graph_config_def)
  then have rels: "gr_relations g = take (nat (relation_capacity c)) (related_pairs bs)"
    using relations_loop_take[of "[]" c bs] by (simp add: b(5))
  then have "length (gr_relations g) \<le> nat (relation_capacity c)" by simp
  with cap have len: "int (length (gr_relations g)) \<le> relation_capacity c" by linarith
  have "length (re_terms r) = 2" if "r \<in> set (related_pairs bs)" for r
    using that by (auto simp: related_pairs_def relation_of_def)
  then have "length (concat (map re_terms rs)) = 2 * length rs" if "set rs \<subseteq> set (related_pairs bs)" for rs
    using that by (induction rs) auto
  from this[of "gr_relations g"] have two: "length (concat (map re_terms (gr_relations g))) = 2 * length (gr_relations g)"
    unfolding rels by (meson set_take_subset)
  have "int (length (gr_relations g)) \<le> gc_max_relation_entries c div 4" "int (length (gr_relations g)) \<le> gc_max_relations c"
    using len by (auto simp: relation_capacity_def)
  then have "int (length (gr_relations g)) * 4 \<le> gc_max_relation_entries c" by linarith
  with two \<open>int (length (gr_relations g)) \<le> gc_max_relations c\<close> b rels show ?thesis
    by (auto simp: required_rows_def coordinate_of_def comp_def)
qed

section \<open>Verified candidates\<close>

lemma foldM_unit_eq_Inr:
  assumes "foldM (\<lambda>_. f) () xs = Inr ()"
  shows "\<forall>x \<in> set xs. f x = Inr ()"
  using assms by (induction xs) (auto simp: bind_eq_Inr)

lemma verify_candidate_eq_Some:
  assumes "verify_candidate fl loads a c engine = Some rep"
  obtains blocks g act where
    "build_candidate_blocks fl loads a default_retrieval_config = Inr blocks" "blocks \<noteq> []"
    "\<forall>b \<in> set blocks. cb_selection_complete b" "membership_provenance_valid a"
    "\<forall>b \<in> set blocks. set (cb_sources b) \<subseteq> set (known_provenance a)"
    "build_context_graph fl (candidate_view a []) blocks [] c = Inr (g, act)"
    "\<forall>p \<in> set PROBES. verify_probe fl c engine g blocks (block_provenance blocks) p = Inr ()"
proof -
  from assms have "verify_candidate_body fl loads a c engine = Inr rep"
    by (auto simp: verify_candidate_def split: sum.splits)
  then obtain blocks g act where
    "build_candidate_blocks fl loads a default_retrieval_config = Inr blocks" "blocks \<noteq> []"
    "\<forall>b \<in> set blocks. cb_selection_complete b" "membership_provenance_valid a"
    "\<forall>b \<in> set blocks. set (cb_sources b) \<subseteq> set (known_provenance a)"
    "build_context_graph fl (candidate_view a []) blocks [] c = Inr (g, act)"
    "foldM (\<lambda>_. verify_probe fl c engine g blocks (block_provenance blocks)) () PROBES = Inr ()"
    by (auto simp: verify_candidate_body_def result_simps map_error_eq_Inr)
  with that foldM_unit_eq_Inr show ?thesis by blast
qed

lemma verify_probe_eq_Inr:
  assumes "verify_probe fl c engine g blocks provenance (pid, kinds) = Inr ()"
  obtains reduced full closure where
    "engine g (probe_activation g pid kinds provenance False) = Some reduced"
    "engine g (probe_activation g pid kinds provenance True) = Some full"
    "result_verified reduced (map cb_id (filter cb_required blocks)) provenance"
    "result_verified full (map cb_id (filter cb_required blocks)) provenance"
    "probe_equivalent fl reduced full (verification_tolerance c)"
    "close_dependency_closure (er_selected reduced) blocks (gc_max_coordinates c) = Inr closure"
    "\<forall>b \<in> set closure. set (cb_sources b) \<subseteq> set provenance"
proof -
  have full: "(probe_activation g pid kinds provenance False)\<lparr>qa_retained := map co_id (gr_coordinates g)\<rparr> =
    probe_activation g pid kinds provenance True" by (simp add: probe_activation_def)
  from assms obtain reduced full closure where
    "run_engine engine g (probe_activation g pid kinds provenance False) = Inr reduced"
    "run_engine engine g (probe_activation g pid kinds provenance True) = Inr full"
    "result_verified reduced (map cb_id (filter cb_required blocks)) provenance"
    "result_verified full (map cb_id (filter cb_required blocks)) provenance"
    "probe_equivalent fl reduced full (verification_tolerance c)"
    "close_dependency_closure (er_selected reduced) blocks (gc_max_coordinates c) = Inr closure"
    "\<forall>b \<in> set closure. set (cb_sources b) \<subseteq> set provenance"
    unfolding verify_probe_def Let_def prod.case full by (auto simp: result_simps map_error_eq_Inr)
  with that show ?thesis by (auto simp: run_engine_def split: option.splits)
qed

lemma candidate_blocks_complete:
  assumes b: "build_candidate_blocks fl loads a rc = Inr blocks" and ne: "blocks \<noteq> []"
    and flag: "\<forall>b \<in> set blocks. cb_selection_complete b"
  shows "required_candidates_complete (candidate_view a (source_events a)) blocks []"
proof (rule ccontr)
  let ?view = "candidate_view a (source_events a)"
  assume no: "\<not> ?thesis"
  from b obtain bs where bs: "blocks = (if required_candidates_complete ?view bs [] then bs else mark_incomplete bs)"
    by (auto simp: build_candidate_blocks_def result_simps Let_def)
  with no have "blocks = mark_incomplete bs" by (auto split: if_splits)
  with ne flag show False by (cases bs) (auto simp: mark_incomplete_def)
qed

text \<open>
  C28. A candidate that passes verification is covered, traceable and closed, whatever the
  numerical engine is: every active goal, constraint and anchor of its capsules and every source
  event has a block; every item cites only sources of its own capsule; and for each of the fixed
  probes the engine, asked with the reduced and with the full activation, selected the same
  blocks, all required ones among them, and the dependency closure of that selection is closed
  under structural companions and cites only known events.
\<close>

theorem verify_candidate_sound:
  assumes "verify_candidate fl loads a c engine = Some rep"
  shows "\<exists>blocks g. build_candidate_blocks fl loads a default_retrieval_config = Inr blocks \<and>
    required_candidates_complete (candidate_view a (source_events a)) blocks [] \<and>
    membership_provenance_valid a \<and> map co_candidate (gr_coordinates g) = blocks \<and>
    (\<forall>(pid, kinds) \<in> set PROBES. \<exists>reduced full closure.
       engine g (probe_activation g pid kinds (block_provenance blocks) False) = Some reduced \<and>
       engine g (probe_activation g pid kinds (block_provenance blocks) True) = Some full \<and>
       map cb_id (er_selected reduced) = map cb_id (er_selected full) \<and>
       close_dependency_closure (er_selected reduced) blocks (gc_max_coordinates c) = Inr closure \<and>
       cb_id ` {b \<in> set blocks. cb_required b} \<subseteq> cb_id ` set (er_selected reduced) \<and>
       cb_id ` set (er_selected reduced) \<subseteq> cb_id ` set closure \<and> closed_under blocks (cb_id ` set closure) \<and>
       (\<forall>b \<in> set closure. set (cb_sources b) \<subseteq> set (known_provenance a)))"
proof -
  from assms obtain blocks g act where
    b: "build_candidate_blocks fl loads a default_retrieval_config = Inr blocks" "blocks \<noteq> []"
      "\<forall>b \<in> set blocks. cb_selection_complete b" "membership_provenance_valid a"
      "\<forall>b \<in> set blocks. set (cb_sources b) \<subseteq> set (known_provenance a)"
    and g: "build_context_graph fl (candidate_view a []) blocks [] c = Inr (g, act)"
    and probes: "\<forall>p \<in> set PROBES. verify_probe fl c engine g blocks (block_provenance blocks) p = Inr ()"
    by (rule verify_candidate_eq_Some)
  have coords: "map co_candidate (gr_coordinates g) = blocks"
    using build_context_graph_eq_Inr(4)[OF g] by (simp add: coordinate_of_def comp_def)
  have "\<exists>reduced full closure.
       engine g (probe_activation g pid kinds (block_provenance blocks) False) = Some reduced \<and>
       engine g (probe_activation g pid kinds (block_provenance blocks) True) = Some full \<and>
       map cb_id (er_selected reduced) = map cb_id (er_selected full) \<and>
       close_dependency_closure (er_selected reduced) blocks (gc_max_coordinates c) = Inr closure \<and>
       cb_id ` {b \<in> set blocks. cb_required b} \<subseteq> cb_id ` set (er_selected reduced) \<and>
       cb_id ` set (er_selected reduced) \<subseteq> cb_id ` set closure \<and> closed_under blocks (cb_id ` set closure) \<and>
       (\<forall>b \<in> set closure. set (cb_sources b) \<subseteq> set (known_provenance a))"
    if "(pid, kinds) \<in> set PROBES" for pid kinds
  proof -
    from probes that have "verify_probe fl c engine g blocks (block_provenance blocks) (pid, kinds) = Inr ()" by blast
    then obtain reduced full closure where
      r: "engine g (probe_activation g pid kinds (block_provenance blocks) False) = Some reduced"
        "engine g (probe_activation g pid kinds (block_provenance blocks) True) = Some full"
      and v: "result_verified reduced (map cb_id (filter cb_required blocks)) (block_provenance blocks)"
      and e: "probe_equivalent fl reduced full (verification_tolerance c)"
      and k: "close_dependency_closure (er_selected reduced) blocks (gc_max_coordinates c) = Inr closure"
      by (rule verify_probe_eq_Inr)
    note kc = close_dependency_closure_eq_Inr[OF k]
    have "cb_id ` {b \<in> set blocks. cb_required b} \<subseteq> cb_id ` set (er_selected reduced)"
      using v by (simp add: result_verified_def)
    moreover have "map cb_id (er_selected reduced) = map cb_id (er_selected full)" using e by (simp add: probe_equivalent_def)
    moreover have "\<forall>b \<in> set closure. set (cb_sources b) \<subseteq> set (known_provenance a)" using b(5) kc(3) by blast
    ultimately show ?thesis using r k kc(2,5) by blast
  qed
  with b coords candidate_blocks_complete[OF b(1-3)] show ?thesis by (intro exI[of _ blocks] exI[of _ g]) auto
qed

end
