(* ===== verification/Backfill.thy ===== *)
theory Backfill
  imports Compiler
begin

text \<open>
  The bounded metric backfill of \<^verbatim>\<open>storage/repository.py\<close>: \<^verbatim>\<open>read_metric_backfill_batch\<close> and
  \<^verbatim>\<open>_metric_backfill_artifact\<close>, and the reader of the reorganization ledger.
\<close>

record backfill_artifact =
  ba_kind :: artifact_kind
  ba_id :: string
  ba_profile :: string
  ba_sort_key :: "int \<times> int \<times> int \<times> string"
  ba_text :: string

text \<open>\<^verbatim>\<open>NOT EXISTS (SELECT 1 FROM token_metrics ..)\<close>\<close>

definition metric_missing :: "db \<Rightarrow> artifact_kind \<Rightarrow> string \<Rightarrow> string \<Rightarrow> bool" where
  "metric_missing db kind artifact profile \<longleftrightarrow>
     \<not> (\<exists>r \<in> set (db_metrics db). tr_kind r = kind \<and> tr_artifact r = artifact \<and> tr_profile r = profile)"

text \<open>The rows of the \<^verbatim>\<open>missing\<close> union: kind rank, major and minor key, kind, identifier.\<close>

definition missing_artifacts :: "db \<Rightarrow> string \<Rightarrow> string \<Rightarrow> (int \<times> int \<times> int \<times> artifact_kind \<times> string) list" where
  "missing_artifacts db h profile =
     map (\<lambda>r. (0, er_sequence r, 0, EVENT_ARTIFACT, er_id r))
       (filter (\<lambda>r. er_hash r = h \<and> metric_missing db EVENT_ARTIFACT (er_id r) profile) (db_events db)) @
     map (\<lambda>r. (1, cr_end r, cr_start r, CAPSULE_ARTIFACT, cr_id r))
       (filter (\<lambda>r. cr_hash r = h \<and> metric_missing db CAPSULE_ARTIFACT (cr_id r) profile) (db_capsules db)) @
     map (\<lambda>r. (2, nr_covered_end r, nr_source_hwm r, SNAPSHOT_ARTIFACT, nr_id r))
       (filter (\<lambda>r. nr_hash r = h \<and> metric_missing db SNAPSHOT_ARTIFACT (nr_id r) profile) (db_snapshots db))"

definition artifact_order :: "int \<times> int \<times> int \<times> artifact_kind \<times> string \<Rightarrow> int \<times> int \<times> int \<times> string" where
  "artifact_order row = (case row of (rank, major, minor, kind, i) \<Rightarrow> (rank, major, minor, i))"

definition artifact_text :: "env \<Rightarrow> db \<Rightarrow> session_key \<Rightarrow> artifact_kind \<Rightarrow> string \<Rightarrow> repo_error + string" where
  "artifact_text env db k kind i =
     (case kind of
        EVENT_ARTIFACT \<Rightarrow>
          (case fetchone (\<lambda>r. er_id r = i \<and> er_hash r = env_hash env k) (db_events db) of
             None \<Rightarrow> Inl RepositoryInvariantError
           | Some row \<Rightarrow> bind (event_from_row env k row) (\<lambda>e. Inr (ev_content e)))
      | CAPSULE_ARTIFACT \<Rightarrow>
          (case fetchone (\<lambda>r. cr_id r = i \<and> cr_hash r = env_hash env k) (db_capsules db) of
             None \<Rightarrow> Inl RepositoryInvariantError
           | Some row \<Rightarrow> bind (capsule_from_row env k row) (\<lambda>c. Inr (render_capsule c)))
      | SNAPSHOT_ARTIFACT \<Rightarrow>
          bind (snapshot_bundle_by_id env db i k) (\<lambda>(s, ms). Inr (snap_rendered_context s)))"

definition metric_backfill_artifact ::
  "env \<Rightarrow> db \<Rightarrow> session_key \<Rightarrow> string \<Rightarrow> int \<times> int \<times> int \<times> artifact_kind \<times> string \<Rightarrow> repo_error + backfill_artifact" where
  "metric_backfill_artifact env db k profile row =
     (case row of (rank, major, minor, kind, i) \<Rightarrow>
        bind (artifact_text env db k kind i) (\<lambda>t.
        Inr \<lparr>ba_kind = kind, ba_id = i, ba_profile = profile, ba_sort_key = (rank, major, minor, i), ba_text = t\<rparr>))"

definition read_metric_backfill_batch ::
  "env \<Rightarrow> db \<Rightarrow> session_key \<Rightarrow> string \<Rightarrow> int \<Rightarrow> repo_error + backfill_artifact list" where
  "read_metric_backfill_batch env db k profile limit =
     bind (guard (py_strip profile \<noteq> []) ValueError) (\<lambda>_.
     bind (guard (1 \<le> limit \<and> limit \<le> int MAX_METRIC_BACKFILL_BATCH) ValueError) (\<lambda>_.
     bind (require_session_identity env db k) (\<lambda>_.
     traverse (metric_backfill_artifact env db k profile)
       (take (nat limit) (sort_key artifact_order (missing_artifacts db (env_hash env k) profile))))))"

section \<open>The reorganization ledger\<close>

definition record_of_ledger :: "ledger_row \<Rightarrow> repo_error + reorganization_record" where
  "record_of_ledger r =
     bind (guard (lr_required r = 0 \<or> lr_required r = 1) RepositoryInvariantError) (\<lambda>_.
     Inr \<lparr>rr_kind = lr_kind r, rr_item = lr_item r, rr_source_capsule = lr_source_capsule r,
          rr_status = lr_status r, rr_before = lr_before r, rr_after = lr_after r,
          rr_required = (lr_required r = 1)\<rparr>)"

definition read_snapshot_reorganization_records ::
  "db \<Rightarrow> string \<Rightarrow> repo_error + reorganization_record list" where
  "read_snapshot_reorganization_records db sid =
     (case find_snapshot db sid of
        None \<Rightarrow> Inl RepositoryInvariantError
      | Some row \<Rightarrow>
          bind (guard (nr_state row = SNAPSHOT_COMMITTED) RepositoryInvariantError) (\<lambda>_.
          bind (traverse record_of_ledger
                  (sort_key lr_ordinal (filter (\<lambda>r. lr_snapshot r = sid) (db_ledger db)))) (\<lambda>records.
          canonicalize_reorganization_records records)))"

end
