(* ===== verification/Worker.thy ===== *)
theory Worker
  imports Backfill Verification
begin

text \<open>
  The provider-bound compaction worker of \<^verbatim>\<open>compaction/worker.py\<close>: one iteration from the claim to
  the publication, its failure handling, and one pass of its loop. The backends, the provider
  bindings, the counters, the numerical engine of the candidate verification and the rounding
  of floats are fields of the worker. A repository call is one step on the database; before each call other transactions
  may have run (the lease heartbeat of the same worker among them), a function of the world.
  Durations are whole microseconds.
\<close>

section \<open>Codes\<close>

fun compiler_code_value :: "compiler_error_code \<Rightarrow> string" where
  "compiler_code_value COMPILER_BASE_INVALID = ''COMPILER_BASE_INVALID''"
| "compiler_code_value COMPILER_BASE_CAPSULE_MISMATCH = ''COMPILER_BASE_CAPSULE_MISMATCH''"
| "compiler_code_value COMPILER_SOURCE_EVENTS_EMPTY = ''COMPILER_SOURCE_EVENTS_EMPTY''"
| "compiler_code_value COMPILER_SOURCE_EVENTS_INVALID = ''COMPILER_SOURCE_EVENTS_INVALID''"
| "compiler_code_value COMPILER_SOURCE_SESSION_MISMATCH = ''COMPILER_SOURCE_SESSION_MISMATCH''"
| "compiler_code_value COMPILER_SOURCE_COVERAGE_MISMATCH = ''COMPILER_SOURCE_COVERAGE_MISMATCH''"
| "compiler_code_value COMPILER_TARGET_INVALID = ''COMPILER_TARGET_INVALID''"
| "compiler_code_value COMPILER_TOKEN_CEILING_INVALID = ''COMPILER_TOKEN_CEILING_INVALID''"
| "compiler_code_value COMPILER_NOW_INVALID = ''COMPILER_NOW_INVALID''"
| "compiler_code_value COMPILER_SEGMENTER_CONFIG_INVALID = ''COMPILER_SEGMENTER_CONFIG_INVALID''"
| "compiler_code_value COMPILER_BACKEND_FAILURE = ''COMPILER_BACKEND_FAILURE''"
| "compiler_code_value COMPILER_BACKEND_OUTPUT_INVALID = ''COMPILER_BACKEND_OUTPUT_INVALID''"
| "compiler_code_value COMPILER_BACKEND_OUTPUT_EMPTY = ''COMPILER_BACKEND_OUTPUT_EMPTY''"
| "compiler_code_value COMPILER_TOKEN_COUNTER_FAILURE = ''COMPILER_TOKEN_COUNTER_FAILURE''"
| "compiler_code_value COMPILER_TOKEN_COUNTER_INVALID = ''COMPILER_TOKEN_COUNTER_INVALID''"
| "compiler_code_value COMPILER_PERMANENT_VALIDATOR_FAILURE = ''COMPILER_PERMANENT_VALIDATOR_FAILURE''"
| "compiler_code_value COMPILER_PERMANENT_VALIDATION_FAILED = ''COMPILER_PERMANENT_VALIDATION_FAILED''"

fun audit_code_value :: "audit_error_code \<Rightarrow> string" where
  "audit_code_value SEMANTIC_AUDIT_MECHANICAL_INVALID = ''SEMANTIC_AUDIT_MECHANICAL_INVALID''"
| "audit_code_value SEMANTIC_AUDIT_STRICT_AUDIT_INVALID = ''SEMANTIC_AUDIT_STRICT_AUDIT_INVALID''"
| "audit_code_value SEMANTIC_AUDIT_BACKEND_REQUIRED = ''SEMANTIC_AUDIT_BACKEND_REQUIRED''"
| "audit_code_value SEMANTIC_AUDIT_BACKEND_FAILURE = ''SEMANTIC_AUDIT_BACKEND_FAILURE''"
| "audit_code_value SEMANTIC_AUDIT_BACKEND_OUTPUT_INVALID = ''SEMANTIC_AUDIT_BACKEND_OUTPUT_INVALID''"
| "audit_code_value SEMANTIC_AUDIT_SEMANTIC_REJECTED = ''SEMANTIC_AUDIT_SEMANTIC_REJECTED''"

section \<open>Worker and world\<close>

record worker_config =
  wc_token_ceiling :: int
  wc_lease :: int
  wc_retry_base :: int
  wc_retry_max :: int
  wc_max_attempts :: int
  wc_strict_audit :: bool
  wc_backfill_limit :: int
  wc_segmenter :: segmenter_config

definition valid_worker_config :: "worker_config \<Rightarrow> bool" where
  "valid_worker_config c \<longleftrightarrow> wc_token_ceiling c \<ge> 1 \<and> wc_lease c > 0 \<and> wc_retry_base c > 0 \<and>
     wc_retry_max c > 0 \<and> wc_retry_base c \<le> wc_retry_max c \<and> wc_max_attempts c \<ge> 1 \<and>
     1 \<le> wc_backfill_limit c \<and> wc_backfill_limit c \<le> 1024"

text \<open>
  What resolving the provider of a session does; an exception that is not a deferral is kept
  apart from those of the repository.
\<close>

datatype binding_outcome = Binding provider_binding | Binding_Deferred string | Binding_Raises

record worker =
  wk_id :: string
  wk_profile :: string
  wk_config :: worker_config
  wk_backend :: compiler_backend
  wk_auditor :: "audit_backend option"
  wk_counter :: token_counter
  wk_canonical :: "token_counter option"
  wk_bindings :: "(session_key \<Rightarrow> binding_outcome) option"
  wk_engine :: verification_engine
  wk_fl :: "rat \<Rightarrow> rat"
  wk_loads :: "string \<Rightarrow> json option"
  wk_dump :: "capsule \<Rightarrow> string"

text \<open>
  The world, by the number of the repository call: the faults injected into it, the readings of
  the clock for it, and what other transactions did to the database before it.
\<close>

record world =
  wd_env :: env
  wd_fault :: "nat \<Rightarrow> string \<Rightarrow> bool"
  wd_clock :: "nat \<Rightarrow> nat \<Rightarrow> datetime"
  wd_others :: "nat \<Rightarrow> db \<Rightarrow> db"
  wd_heartbeat :: "security_error option"

datatype worker_error =
  Repository repo_error
| Pipeline pipeline_error
| CandidateVerificationError
| Provider_Failure
| Claim_Diverges

type_synonym world_state = "db \<times> nat"

type_synonym ('e, 'a) action = "world_state \<Rightarrow> ('e + 'a) \<times> world_state"

type_synonym 'a act = "(worker_error, 'a) action"

definition act_return :: "'a \<Rightarrow> 'a act" where
  "act_return x s = (Inr x, s)"

definition act_bind :: "('e, 'a) action \<Rightarrow> ('a \<Rightarrow> ('e, 'b) action) \<Rightarrow> ('e, 'b) action" where
  "act_bind m f s = (case m s of (Inl e, s1) \<Rightarrow> (Inl e, s1) | (Inr x, s1) \<Rightarrow> f x s1)"

definition act_lift :: "worker_error + 'a \<Rightarrow> 'a act" where
  "act_lift r s = (r, s)"

definition call_env :: "world \<Rightarrow> nat \<Rightarrow> env" where
  "call_env w n = (wd_env w)\<lparr>env_fault := wd_fault w n\<rparr>"

text \<open>A writing and a reading repository call.\<close>

definition act_call ::
  "world \<Rightarrow> (env \<Rightarrow> (nat \<Rightarrow> datetime) \<Rightarrow> db \<Rightarrow> (repo_error + 'a) \<times> db) \<Rightarrow> 'a act" where
  "act_call w op s =
     (case s of (db, n) \<Rightarrow>
        (case op (call_env w n) (wd_clock w n) (wd_others w n db) of
           (r, db') \<Rightarrow> (map_error Repository r, (db', Suc n))))"

definition act_read :: "world \<Rightarrow> (env \<Rightarrow> (nat \<Rightarrow> datetime) \<Rightarrow> db \<Rightarrow> repo_error + 'a) \<Rightarrow> 'a act" where
  "act_read w op = act_call w (\<lambda>env clock db. (op env clock db, db))"

fun shift :: "datetime \<Rightarrow> int \<Rightarrow> datetime" where
  "shift (Aware t) d = Aware (t + d)"
| "shift (Naive t) d = Naive (t + d)"

section \<open>Leases\<close>

definition lease_horizon :: "worker_config \<Rightarrow> int" where
  "lease_horizon c = max (wc_lease c) 1000000"

definition worker_claim_job :: "worker \<Rightarrow> world \<Rightarrow> job option act" where
  "worker_claim_job wk w s =
     (case s of (db, n) \<Rightarrow>
        (case claim_job (call_env w n) (wk_id wk) (wd_clock w n 0)
                (shift (wd_clock w n 0) (lease_horizon (wk_config wk))) (wd_others w n db) of
           None \<Rightarrow> (Inl Claim_Diverges, (wd_others w n db, Suc n))
         | Some (r, db') \<Rightarrow> (map_error Repository r, (db', Suc n))))"

definition worker_renew_job_lease :: "worker \<Rightarrow> job \<Rightarrow> env \<Rightarrow> datetime \<Rightarrow> db \<Rightarrow> (repo_error + job) \<times> db" where
  "worker_renew_job_lease wk leased env now db =
     renew_job_lease env (job_id leased) (wk_id wk) (job_lease_epoch leased) now
       (shift now (lease_horizon (wk_config wk))) db"

section \<open>Counting\<close>

definition count_canonical :: "worker \<Rightarrow> string \<Rightarrow> worker_error + int" where
  "count_canonical wk t =
     (case wk_canonical wk of
        None \<Rightarrow> Inl (Pipeline (CompilerBackendDeferred ''TOKEN_METRIC_UNAVAILABLE''))
      | Some counter \<Rightarrow>
          (case counter t of
             Counted n \<Rightarrow> if n < 0 then Inl (Pipeline (CompilerBackendDeferred ''TOKEN_METRIC_UNAVAILABLE''))
                          else Inr n
           | _ \<Rightarrow> Inl (Pipeline (CompilerBackendDeferred ''TOKEN_METRIC_UNAVAILABLE''))))"

definition canonical_metric :: "worker \<Rightarrow> artifact_kind \<Rightarrow> string \<Rightarrow> string \<Rightarrow> worker_error + token_metric" where
  "canonical_metric wk kind i t =
     bind (count_canonical wk t) (\<lambda>n.
     let m = \<lparr>tm_kind = kind, tm_artifact = i, tm_profile = wk_profile wk, tm_count = n\<rparr>
     in bind (guard (valid_metric m) (Repository ValueError)) (\<lambda>_. Inr m))"

definition candidate_canonical_metrics :: "worker \<Rightarrow> audited_candidate \<Rightarrow> worker_error + token_metric list" where
  "candidate_canonical_metrics wk c =
     bind (traverse (\<lambda>m. canonical_metric wk CAPSULE_ARTIFACT (mem_capsule_id m) (render_capsule (mem_capsule m)))
             (ac_memberships c)) (\<lambda>capsules.
     bind (canonical_metric wk SNAPSHOT_ARTIFACT (snap_id (ac_snapshot c)) (snap_rendered_context (ac_snapshot c)))
       (\<lambda>m. Inr (capsules @ [m])))"

definition backfill_metrics :: "worker \<Rightarrow> world \<Rightarrow> session_key \<Rightarrow> unit act" where
  "backfill_metrics wk w k =
     (if wk_canonical wk = None
      then act_lift (Inl (Pipeline (CompilerBackendDeferred ''TOKEN_METRIC_UNAVAILABLE'')))
      else
        act_bind (act_read w (\<lambda>env clock db.
          read_metric_backfill_batch env db k (wk_profile wk) (wc_backfill_limit (wk_config wk)))) (\<lambda>batch.
        act_bind (act_lift (traverse (\<lambda>a. canonical_metric wk (ba_kind a) (ba_id a) (ba_text a)) batch)) (\<lambda>metrics.
        if metrics = [] then act_return ()
        else act_bind (act_call w (\<lambda>env clock. write_metric_backfill_batch env k metrics (clock 0)))
               (\<lambda>_. act_return ()))))"

section \<open>The stages of an iteration\<close>

text \<open>The variable \<^verbatim>\<open>stage\<close> of the source tags the error.\<close>

type_synonym 'a staged = "(string \<times> worker_error, 'a) action"

definition at_stage :: "string \<Rightarrow> 'a act \<Rightarrow> 'a staged" where
  "at_stage st m s = (case m s of (r, s1) \<Rightarrow> (map_error (Pair st) r, s1))"

definition resolve_binding :: "worker \<Rightarrow> session_key \<Rightarrow> worker_error + provider_binding option" where
  "resolve_binding wk k =
     (case wk_bindings wk of
        None \<Rightarrow> Inr None
      | Some resolve \<Rightarrow>
          (case resolve k of
             Binding b \<Rightarrow> Inr (Some b)
           | Binding_Deferred code \<Rightarrow>
               if code = ''EXTRACTIVE_PROVIDER_UNAVAILABLE'' then Inr None
               else Inl (Pipeline (CompilerBackendDeferred code))
           | Binding_Raises \<Rightarrow> Inl Provider_Failure))"

definition transition_to ::
  "worker \<Rightarrow> world \<Rightarrow> job \<Rightarrow> job_state \<Rightarrow> string option \<Rightarrow> job act" where
  "transition_to wk w leased st candidate =
     act_call w (\<lambda>env clock. transition_job env (job_id leased) (wk_id wk) (job_lease_epoch leased) st (clock 0) candidate)"

definition compiler_input_of ::
  "worker \<Rightarrow> request_view \<Rightarrow> (string \<times> int) list \<Rightarrow> int \<Rightarrow> provider_binding option \<Rightarrow> datetime \<Rightarrow> compiler_input" where
  "compiler_input_of wk v counts target binding now =
     \<lparr>ci_base_snapshot = rv_snapshot v, ci_base_capsules = map mem_capsule (rv_memberships v),
      ci_source_events = rv_delta v, ci_counts = counts, ci_target = target,
      ci_token_ceiling = wc_token_ceiling (wk_config wk), ci_now = now,
      ci_segmenter = wc_segmenter (wk_config wk), ci_preferred = [], ci_binding = binding,
      ci_binding_captured = (wk_bindings wk \<noteq> None)\<rparr>"

definition compile_stage ::
  "worker \<Rightarrow> world \<Rightarrow> job \<Rightarrow> provider_binding option \<Rightarrow> (job \<times> compilation_candidate) act" where
  "compile_stage wk w leased binding =
     act_bind (backfill_metrics wk w (job_session_key leased)) (\<lambda>_.
     act_bind (transition_to wk w leased COMPILING None) (\<lambda>compiling.
     act_bind (act_read w (\<lambda>env clock db.
       read_compaction_view env db (job_id compiling) (wk_id wk) (job_lease_epoch compiling) (clock 0))) (\<lambda>v.
     act_bind (act_read w (\<lambda>env clock db.
       bind (read_event_token_counts env db (rv_session_key v) (map ev_id (rv_delta v)) (wk_profile wk)) (\<lambda>counts.
       Inr (counts, clock 0)))) (\<lambda>(counts, now).
     act_bind (act_lift (guard (set (map fst counts) = set (map ev_id (rv_delta v)))
       (Pipeline (CompilerBackendDeferred ''TOKEN_METRIC_MISSING'')))) (\<lambda>_.
     act_bind (act_lift (map_error Pipeline (compile_candidate (wd_env w) (wk_loads wk) (wk_dump wk) (wk_backend wk)
       (wk_counter wk) (compiler_input_of wk v counts (job_target_hwm compiling) binding now)))) (\<lambda>candidate.
     act_return (compiling, candidate)))))))"

definition audit_stage ::
  "worker \<Rightarrow> world \<Rightarrow> job \<Rightarrow> compilation_candidate \<Rightarrow> audited_candidate act" where
  "audit_stage wk w compiling candidate =
     act_bind (if wc_strict_audit (wk_config wk)
               then act_bind (transition_to wk w compiling AUDITING None) (\<lambda>_. act_return ())
               else act_return ()) (\<lambda>_.
     act_lift (map_error Pipeline (audit_semantic candidate (wc_strict_audit (wk_config wk)) (wk_auditor wk))))"

definition verify_stage :: "worker \<Rightarrow> audited_candidate \<Rightarrow> token_metric list act" where
  "verify_stage wk audited =
     act_bind (act_lift (guard (verify_candidate (wk_fl wk) (wk_loads wk) audited
       (default_graph_config (wk_fl wk)) (wk_engine wk) \<noteq> None) CandidateVerificationError)) (\<lambda>_.
     act_lift (candidate_canonical_metrics wk audited))"

definition publication_of :: "worker \<Rightarrow> audited_candidate \<Rightarrow> token_metric list \<Rightarrow> publication" where
  "publication_of wk audited metrics =
     \<lparr>pub_snapshot = ac_snapshot audited, pub_memberships = ac_memberships audited, pub_metrics = Some metrics,
      pub_records = [], pub_token_ceiling = wc_token_ceiling (wk_config wk)\<rparr>"

definition publish_stage ::
  "worker \<Rightarrow> world \<Rightarrow> job \<Rightarrow> audited_candidate \<Rightarrow> token_metric list \<Rightarrow> publish_result act" where
  "publish_stage wk w ready audited metrics =
     act_call w (\<lambda>env clock. publish_snapshot env (job_id ready) (wk_id wk) (job_lease_epoch ready) (clock 0)
       (publication_of wk audited metrics))"

text \<open>The body of the inner \<^verbatim>\<open>try\<close>.\<close>

definition compaction_attempt :: "worker \<Rightarrow> world \<Rightarrow> job \<Rightarrow> publish_result staged" where
  "compaction_attempt wk w leased =
     act_bind (at_stage ''LEASED'' (act_lift (resolve_binding wk (job_session_key leased)))) (\<lambda>binding.
     act_bind (at_stage ''COMPILING'' (compile_stage wk w leased binding)) (\<lambda>(compiling, candidate).
     act_bind (at_stage (if wc_strict_audit (wk_config wk) then ''AUDITING'' else ''COMPILING'')
       (audit_stage wk w compiling candidate)) (\<lambda>audited.
     act_bind (at_stage ''VERIFYING'' (verify_stage wk audited)) (\<lambda>metrics.
     act_bind (at_stage ''READY_TO_COMMIT''
       (transition_to wk w compiling READY_TO_COMMIT (Some (snap_id (ac_snapshot audited))))) (\<lambda>ready.
     at_stage ''PUBLISHING'' (publish_stage wk w ready audited metrics))))))"

section \<open>Failures\<close>

definition error_code :: "worker_error \<Rightarrow> string" where
  "error_code e =
     (case e of
        Pipeline (CompilerInvariantError c rep) \<Rightarrow> compiler_code_value c
      | Pipeline (SemanticAuditInvariantError c) \<Rightarrow> audit_code_value c
      | CandidateVerificationError \<Rightarrow> ''CANDIDATE_GRAPH_VERIFICATION_FAILED''
      | _ \<Rightarrow> ''COMPACTION_WORKER_FAILURE'')"

definition retry_delay :: "worker_config \<Rightarrow> int \<Rightarrow> int" where
  "retry_delay c attempts = min (wc_retry_base c * 2 ^ nat (max 0 (attempts - 1))) (wc_retry_max c)"

text \<open>The reading with the given number is the \<^verbatim>\<open>now\<close> of the call.\<close>

definition worker_fail_job :: "worker \<Rightarrow> world \<Rightarrow> job \<Rightarrow> nat \<Rightarrow> ((nat \<Rightarrow> datetime) \<Rightarrow> failure) \<Rightarrow> unit act" where
  "worker_fail_job wk w leased k f s =
     (case act_call w (\<lambda>env clock. fail_job env (job_id leased) (wk_id wk) (job_lease_epoch leased) (clock k) (f clock)) s of
        (Inr j, s1) \<Rightarrow> (Inr (), s1)
      | (Inl e, s1) \<Rightarrow> (if e = Repository StaleLeaseError then Inr () else Inl e, s1))"

text \<open>A failure that may be retried reads the clock for the retry first and for the call after it.\<close>

definition may_retry :: "worker \<Rightarrow> job \<Rightarrow> bool" where
  "may_retry wk leased \<longleftrightarrow> job_attempt_count leased < wc_max_attempts (wk_config wk)"

definition persist_failure :: "worker \<Rightarrow> world \<Rightarrow> job \<Rightarrow> string \<Rightarrow> worker_error \<Rightarrow> unit act" where
  "persist_failure wk w leased st e =
     worker_fail_job wk w leased (if may_retry wk leased then 1 else 0) (\<lambda>clock.
       \<lparr>fail_stage = st, fail_code = error_code e, fail_message = error_code e,
        fail_retry_at = (if may_retry wk leased
          then Some (shift (clock 0) (retry_delay (wk_config wk) (job_attempt_count leased))) else None),
        fail_preserve_attempt = False\<rparr>)"

text \<open>A deferral reads them the other way round.\<close>

definition persist_deferred :: "worker \<Rightarrow> world \<Rightarrow> job \<Rightarrow> string \<Rightarrow> string \<Rightarrow> unit act" where
  "persist_deferred wk w leased st code =
     worker_fail_job wk w leased 0 (\<lambda>clock.
       \<lparr>fail_stage = st, fail_code = code, fail_message = code,
        fail_retry_at = Some (shift (clock 1) (wc_retry_base (wk_config wk))),
        fail_preserve_attempt = (code \<in> set transient_codes)\<rparr>)"

datatype iteration_result = Idle | Worked | Raised worker_error

text \<open>
  The \<^verbatim>\<open>except\<close> clauses, and the heartbeat's outcome in the \<^verbatim>\<open>finally\<close> clause: a security error of the
  heartbeat is raised unless an exception is already escaping.
\<close>

definition finish_heartbeat :: "world \<Rightarrow> (worker_error + unit) \<Rightarrow> iteration_result" where
  "finish_heartbeat w r =
     (case r of
        Inl e \<Rightarrow> Raised e
      | Inr _ \<Rightarrow> (case wd_heartbeat w of
                   None \<Rightarrow> Worked | Some s \<Rightarrow> Raised (Repository (StorageSecurityError s))))"

definition handle_error :: "worker \<Rightarrow> world \<Rightarrow> job \<Rightarrow> string \<Rightarrow> worker_error \<Rightarrow> unit act" where
  "handle_error wk w leased st e =
     (case e of
        Repository (StorageSecurityError x) \<Rightarrow> act_lift (Inl e)
      | Pipeline (CompilerBackendDeferred code) \<Rightarrow> persist_deferred wk w leased st code
      | Repository StaleLeaseError \<Rightarrow> act_return ()
      | _ \<Rightarrow> persist_failure wk w leased st e)"

definition run_iteration :: "worker \<Rightarrow> world \<Rightarrow> world_state \<Rightarrow> iteration_result \<times> world_state" where
  "run_iteration wk w s =
     (case worker_claim_job wk w s of
        (Inl e, s1) \<Rightarrow> (Raised e, s1)
      | (Inr None, s1) \<Rightarrow> (Idle, s1)
      | (Inr (Some leased), s1) \<Rightarrow>
          (case compaction_attempt wk w leased s1 of
             (Inr _, s2) \<Rightarrow> (finish_heartbeat w (Inr ()), s2)
           | (Inl (st, e), s2) \<Rightarrow>
               (case handle_error wk w leased st e s2 of (r, s3) \<Rightarrow> (finish_heartbeat w r, s3))))"

text \<open>One pass of the loop: recovery, then an iteration; only a security error stops it.\<close>

datatype pass_result = Continue bool | Stopped security_error

definition pass_outcome :: "iteration_result \<Rightarrow> pass_result" where
  "pass_outcome r =
     (case r of
        Idle \<Rightarrow> Continue False
      | Worked \<Rightarrow> Continue True
      | Raised (Repository (StorageSecurityError s)) \<Rightarrow> Stopped s
      | Raised _ \<Rightarrow> Continue False)"

definition run_pass :: "worker \<Rightarrow> world \<Rightarrow> world_state \<Rightarrow> pass_result \<times> world_state" where
  "run_pass wk w s =
     (case act_call w (\<lambda>env clock. recover_expired_leases env (clock 0)) s of
        (Inl e, s1) \<Rightarrow> (pass_outcome (Raised e), s1)
      | (Inr _, s1) \<Rightarrow> (case run_iteration wk w s1 of (r, s2) \<Rightarrow> (pass_outcome r, s2)))"

end
