(* ===== verification/Compiler_Laws.thy ===== *)
theory Compiler_Laws
  imports Compiler Read_View Publication_Properties
begin

text \<open>
  What the compiler and the auditor promise, and that the repository honours it: a candidate
  that was compiled from a claimed view and audited passes the publication gate of every later
  database in which its worker still holds the lease.
\<close>

section \<open>What a successful compilation is\<close>

lemma run_backend_eq_Inr [result_simps]: "run_backend backend req = Inr out \<longleftrightarrow> backend req = Output out"
  by (auto simp: run_backend_def split: backend_outcome.splits)

lemma count_rendered_eq_Inr [result_simps]: "count_rendered counter s = Inr n \<longleftrightarrow> counter s = Counted n \<and> n \<ge> 0"
  by (auto simp: count_rendered_def split: count_outcome.splits)

lemma validate_backend_output_eq_Inr [result_simps]:
  "validate_backend_output out events original = Inr (cs, rendered, fitted, prov) \<longleftrightarrow>
     cs = co_capsules out \<and> rendered = co_rendered out \<and> prov = co_provenance out \<and>
     fitted = (case co_segments out of None \<Rightarrow> original | Some segs \<Rightarrow> segs) \<and>
     cs \<noteq> [] \<and> rendered \<noteq> [] \<and> fitted \<noteq> [] \<and> concat (map seg_events fitted) = events"
  by (auto simp: validate_backend_output_def result_simps Let_def)

lemma compile_candidate_eq_Inr:
  assumes "compile_candidate env loads dump backend counter ci = Inr cand"
  obtains k segments out cost where
    "validate_inputs (ci_base_snapshot ci) (ci_base_capsules ci) (ci_source_events ci) (ci_target ci)
       (ci_token_ceiling ci) (ci_now ci) = Inr k"
    "segment loads (ci_source_events ci) (ci_counts ci) (ci_segmenter ci) (ci_preferred ci) = Inr segments"
    "backend (request_of ci segments) = Output out" "co_capsules out \<noteq> []"
    "concat (map seg_events (cc_segments cand)) = ci_source_events ci"
    "counter (co_rendered out) = Counted cost" "cost \<ge> 0"
    "cc_snapshot cand = candidate_snapshot_of (build_snapshot_id env dump k (map_option snap_id (ci_base_snapshot ci))
        (ci_target ci) (co_capsules out) (active_anchor_ids (co_capsules out)) (co_rendered out) cost)
       k (map_option snap_id (ci_base_snapshot ci)) (ci_target ci) (co_capsules out) (co_rendered out) cost
       (instant (ci_now ci))"
    "valid_snapshot (cc_snapshot cand)" "cc_memberships cand = memory_memberships (co_capsules out)"
    "cc_report cand = validate_permanent (candidate_gate ci (cc_snapshot cand) (co_capsules out))"
    "rep_passed (cc_report cand)"
proof -
  from assms show thesis
    by (auto simp: compile_candidate_def result_simps Let_def intro!: that)
qed

lemma memory_memberships_facts:
  "map mem_capsule (memory_memberships cs) = cs"
  "map mem_ordinal (memory_memberships cs) = range_list 0 (int (length cs))"
  "m \<in> set (memory_memberships cs) \<Longrightarrow> mem_slot m = ''memory''"
  "length (memory_memberships cs) = length cs"
proof -
  show "map mem_ordinal (memory_memberships cs) = range_list 0 (int (length cs))"
    by (rule nth_equalityI) (simp_all add: memory_memberships_def length_range_list nth_enumerate_eq)
qed (auto simp: memory_memberships_def comp_def case_prod_beta)

lemma audit_semantic_eq_Inr:
  assumes "audit_semantic c strict backend = Inr a"
  shows "ac_memberships a = cc_memberships c" "ac_segments a = cc_segments c"
    "\<exists>st. ac_snapshot a = snapshot_with_semantic_result (cc_snapshot c) st [] \<and>
       st = (if strict then AUDIT_PASSED else NOT_RUN)"
proof -
  from assms have "ac_memberships a = cc_memberships c \<and> ac_segments a = cc_segments c \<and>
      ac_snapshot a = snapshot_with_semantic_result (cc_snapshot c) (if strict then AUDIT_PASSED else NOT_RUN) []"
    by (auto simp: audit_semantic_def result_simps build_audited_candidate_def is_mechanically_eligible_def
        snapshot_with_semantic_result_def split: if_splits option.splits audit_outcome_of_backend.splits)
  then show "ac_memberships a = cc_memberships c" "ac_segments a = cc_segments c"
    "\<exists>st. ac_snapshot a = snapshot_with_semantic_result (cc_snapshot c) st [] \<and>
       st = (if strict then AUDIT_PASSED else NOT_RUN)" by auto
qed

text \<open>The gate reads only the mechanical half of the audit outcome.\<close>

text \<open>The derived parts of a gate input do not read the snapshot.\<close>

lemma gate_parts_snapshot:
  fixes s :: snapshot
  shows "g_base_coverage (g\<lparr>g_snapshot := s\<rparr>) = g_base_coverage g"
    "g_expected_sequences (g\<lparr>g_snapshot := s\<rparr>) = g_expected_sequences g"
    "g_coverage_gap (g\<lparr>g_snapshot := s\<rparr>) = g_coverage_gap g"
    "g_invalid_capsule_coverage (g\<lparr>g_snapshot := s\<rparr>) = g_invalid_capsule_coverage g"
    "g_current_ids (g\<lparr>g_snapshot := s\<rparr>) = g_current_ids g"
    "g_valid_ids (g\<lparr>g_snapshot := s\<rparr>) = g_valid_ids g"
    "g_transition_records (g\<lparr>g_snapshot := s\<rparr>) = g_transition_records g"
    "g_provenance (g\<lparr>g_snapshot := s\<rparr>) = g_provenance g"
    "g_unsupported (g\<lparr>g_snapshot := s\<rparr>) = g_unsupported g"
    "g_capsule_source_mismatch (g\<lparr>g_snapshot := s\<rparr>) = g_capsule_source_mismatch g"
    "g_approved_transition_ids (g\<lparr>g_snapshot := s\<rparr>) = g_approved_transition_ids g"
    "g_missing_prior_semantic (g\<lparr>g_snapshot := s\<rparr>) = g_missing_prior_semantic g"
    "g_preserved_anchor_count (g\<lparr>g_snapshot := s\<rparr>) = g_preserved_anchor_count g"
    "g_computed_anchor_recall (g\<lparr>g_snapshot := s\<rparr>) = g_computed_anchor_recall g"
    "g_computed_source_coverage (g\<lparr>g_snapshot := s\<rparr>) = g_computed_source_coverage g"
    "g_source_coverage (g\<lparr>g_snapshot := s\<rparr>) = g_source_coverage g"
    "g_anchor_recall (g\<lparr>g_snapshot := s\<rparr>) = g_anchor_recall g"
    "g_declared_coverage_gap (g\<lparr>g_snapshot := s\<rparr>) = g_declared_coverage_gap g"
    "g_unsupported_count (g\<lparr>g_snapshot := s\<rparr>) = g_unsupported_count g"
    "g_missing_sequences (g\<lparr>g_snapshot := s\<rparr>) = g_missing_sequences g"
proof -
  show [simp]: "g_base_coverage (g\<lparr>g_snapshot := s\<rparr>) = g_base_coverage g" by (simp add: g_base_coverage_def)
  show [simp]: "g_expected_sequences (g\<lparr>g_snapshot := s\<rparr>) = g_expected_sequences g" by (simp add: g_expected_sequences_def)
  show [simp]: "g_coverage_gap (g\<lparr>g_snapshot := s\<rparr>) = g_coverage_gap g" by (simp add: g_coverage_gap_def)
  show [simp]: "g_invalid_capsule_coverage (g\<lparr>g_snapshot := s\<rparr>) = g_invalid_capsule_coverage g" by (simp add: g_invalid_capsule_coverage_def)
  show [simp]: "g_current_ids (g\<lparr>g_snapshot := s\<rparr>) = g_current_ids g" by (simp add: g_current_ids_def)
  show [simp]: "g_valid_ids (g\<lparr>g_snapshot := s\<rparr>) = g_valid_ids g" by (simp add: g_valid_ids_def)
  show [simp]: "g_transition_records (g\<lparr>g_snapshot := s\<rparr>) = g_transition_records g" by (simp add: g_transition_records_def)
  show [simp]: "g_provenance (g\<lparr>g_snapshot := s\<rparr>) = g_provenance g" by (simp add: g_provenance_def)
  show [simp]: "g_unsupported (g\<lparr>g_snapshot := s\<rparr>) = g_unsupported g" by (simp add: g_unsupported_def)
  show [simp]: "g_capsule_source_mismatch (g\<lparr>g_snapshot := s\<rparr>) = g_capsule_source_mismatch g" by (simp add: g_capsule_source_mismatch_def)
  show [simp]: "g_approved_transition_ids (g\<lparr>g_snapshot := s\<rparr>) = g_approved_transition_ids g" by (simp add: g_approved_transition_ids_def)
  show [simp]: "g_missing_prior_semantic (g\<lparr>g_snapshot := s\<rparr>) = g_missing_prior_semantic g" by (simp add: g_missing_prior_semantic_def)
  show [simp]: "g_preserved_anchor_count (g\<lparr>g_snapshot := s\<rparr>) = g_preserved_anchor_count g" by (simp add: g_preserved_anchor_count_def)
  show [simp]: "g_computed_anchor_recall (g\<lparr>g_snapshot := s\<rparr>) = g_computed_anchor_recall g" by (simp add: g_computed_anchor_recall_def)
  show [simp]: "g_computed_source_coverage (g\<lparr>g_snapshot := s\<rparr>) = g_computed_source_coverage g" by (simp add: g_computed_source_coverage_def)
  show [simp]: "g_source_coverage (g\<lparr>g_snapshot := s\<rparr>) = g_source_coverage g" by (simp add: g_source_coverage_def)
  show [simp]: "g_anchor_recall (g\<lparr>g_snapshot := s\<rparr>) = g_anchor_recall g" by (simp add: g_anchor_recall_def)
  show [simp]: "g_declared_coverage_gap (g\<lparr>g_snapshot := s\<rparr>) = g_declared_coverage_gap g" by (simp add: g_declared_coverage_gap_def)
  show [simp]: "g_unsupported_count (g\<lparr>g_snapshot := s\<rparr>) = g_unsupported_count g" by (simp add: g_unsupported_count_def)
  show [simp]: "g_missing_sequences (g\<lparr>g_snapshot := s\<rparr>) = g_missing_sequences g" by (simp add: g_missing_sequences_def)
qed

lemma gate_semantic_result:
  assumes "ao_mechanical_passed (snap_audit_outcome (g_snapshot g))"
  shows "rep_passed (validate_permanent (g\<lparr>g_snapshot := snapshot_with_semantic_result (g_snapshot g) st []\<rparr>)) =
    rep_passed (validate_permanent g)"
proof -
  let ?g = "g\<lparr>g_snapshot := snapshot_with_semantic_result (g_snapshot g) st []\<rparr>"
  have "failure_holds ?g c = failure_holds g c" for c
    using assms by (cases c)
      (simp_all add: failure_holds_def gate_parts_snapshot g_session_mismatch_def snapshot_with_semantic_result_def)
  then show ?thesis by (simp add: rep_passed_iff)
qed

section \<open>Later databases read the same journal\<close>

lemma extends_events_between:
  assumes ext: "db_extends db db'" and ok: "db_ok env db" "db_ok env db'"
    and b: "b \<le> high_water db (env_hash env k)"
  shows "events_between env db' k a b = events_between env db k a b"
proof -
  let ?h = "env_hash env k"
  from ext obtain ws where ws: "db_events db' = db_events db @ ws" by (auto simp: db_extends_def grows_eq_iff)
  have seq: "map er_sequence (session_events d ?h) = upto 1 (high_water d ?h)" if "db_ok env d" for d
    using that by (simp add: db_ok_def journal_ok_def)
  let ?W = "filter (\<lambda>r. er_hash r = ?h) ws"
  have all: "upto 1 (high_water db ?h) @ map er_sequence ?W = upto 1 (high_water db' ?h)"
    using seq[OF ok(1)] seq[OF ok(2)] by (simp add: session_events_def ws)
  have "er_sequence w > high_water db ?h" if "w \<in> set ws" "er_hash w = ?h" for w
  proof -
    have "distinct (upto 1 (high_water db ?h) @ map er_sequence ?W)" unfolding all by simp
    moreover have w: "er_sequence w \<in> set (map er_sequence ?W)" using that by auto
    ultimately have "er_sequence w \<notin> set (upto 1 (high_water db ?h))" by auto
    moreover have "er_sequence w \<in> set (upto 1 (high_water db' ?h))" unfolding all[symmetric] using w by simp
    ultimately show ?thesis by auto
  qed
  with b have "filter (\<lambda>r. er_hash r = ?h \<and> er_sequence r > a \<and> er_sequence r \<le> b) ws = []"
    by (force simp: filter_empty_conv)
  then show ?thesis by (simp add: events_between_def ws)
qed

lemma extends_job:
  assumes ext: "db_extends db db'" and ok: "db_ok env db'" and r: "find_job db i = Some r" "find_job db' i = Some r'"
  shows "job_evolves r r'"
proof -
  from find_jobD[OF r(1)] find_jobD[OF r(2)] have m: "r \<in> set (db_jobs db)" "jr_id r = i" "r' \<in> set (db_jobs db')" "jr_id r' = i"
    by auto
  from ext m(1) obtain q where q: "q \<in> set (db_jobs db')" "job_evolves r q"
    unfolding db_extends_def by (meson growsD)
  moreover have "distinct (map jr_id (db_jobs db'))" using ok by (simp add: db_ok_def jobs_ok_def)
  moreover have "jr_id q = jr_id r'" using q(2) m by (simp add: job_evolves_def)
  ultimately have "q = r'" using m(3) by (auto simp: distinct_map dest: inj_onD)
  with q show ?thesis by simp
qed

section \<open>From the compiler to the publication gate\<close>

text \<open>The input a worker builds from the view it claimed.\<close>

definition compiles_view :: "request_view \<Rightarrow> compiler_input \<Rightarrow> bool" where
  "compiles_view v ci \<longleftrightarrow> ci_base_snapshot ci = rv_snapshot v \<and> ci_base_capsules ci = map mem_capsule (rv_memberships v) \<and>
     ci_source_events ci = rv_delta v \<and> ci_target ci = rv_high_water_mark v"

lemma read_compaction_view_facts:
  assumes "read_compaction_view env db i owner epoch now = Inr v"
  obtains r j t where "now = Aware t" "find_job db i = Some r" "fence_live r owner epoch t" "job_by_id env db i = Inr j"
    "rv_session_key v = job_session_key j" "rv_high_water_mark v = job_target_hwm j"
    "case job_base_snapshot_id j of None \<Rightarrow> rv_snapshot v = None \<and> rv_memberships v = [] \<and> rv_covered_event_end v = 0
     | Some b \<Rightarrow> (\<exists>s. rv_snapshot v = Some s \<and> rv_covered_event_end v = snap_covered_event_end s \<and>
         snapshot_bundle_by_id env db b (job_session_key j) = Inr (s, rv_memberships v))"
    "events_between env db (job_session_key j) (rv_covered_event_end v) (job_target_hwm j) = Inr (rv_delta v)"
  using assms
  by (auto simp: read_compaction_view_def result_simps intro!: that split: option.splits prod.splits)

lemma committed_form_valid:
  assumes "valid_snapshot s" "snap_state s = CANDIDATE" "st \<noteq> AUDIT_FAILED"
  shows "valid_snapshot (committed_form (snapshot_with_semantic_result s st []) t)"
  using assms by (auto simp: valid_snapshot_def committed_form_def snapshot_with_semantic_result_def valid_audit_outcome_def)

lemma memberships_accepted:
  assumes "valid_snapshot s" "snap_capsule_ids s = map cap_id cs" "cs \<noteq> []"
  shows "validate_candidate_memberships (snapshot_with_semantic_result s st []) (memory_memberships cs) = Inr ()"
proof -
  have "map mem_capsule_id (memory_memberships cs) = map cap_id (map mem_capsule (memory_memberships cs))" by simp
  then have ids: "map mem_capsule_id (memory_memberships cs) = map cap_id cs" by (simp only: memory_memberships_facts(1))
  have "\<forall>m \<in> set (memory_memberships cs). py_strip (mem_slot m) \<noteq> []"
    by (simp add: memory_memberships_facts(3) py_strip_def strip_by_def py_isspace_def of_char_def)
  moreover have "memory_memberships cs \<noteq> []" using assms(3) memory_memberships_facts(4)[of cs] by auto
  moreover have "distinct (map mem_capsule_id (memory_memberships cs))" "snap_capsule_ids s = map mem_capsule_id (memory_memberships cs)"
    using assms(1,2) unfolding ids by (simp_all add: valid_snapshot_def)
  ultimately show ?thesis
    by (simp add: validate_candidate_memberships_def guard_eq_Inr memory_memberships_facts(2,4) snapshot_with_semantic_result_def)
qed

text \<open>What the worker froze at claim time reads the same in every later database.\<close>

lemma frozen_view:
  assumes ok: "db_ok env db" and run: "reaches env db db'"
    and view: "read_compaction_view env db i owner epoch now = Inr v"
    and live: "find_job db' i = Some r'" "fence_live r' owner epoch t"
  obtains j where "job_by_id env db' i = Inr j" "job_session_key j = rv_session_key v" "job_target_hwm j = rv_high_water_mark v"
    "job_base_snapshot_id j = map_option snap_id (rv_snapshot v)"
    "case rv_snapshot v of None \<Rightarrow> rv_memberships v = []
     | Some s \<Rightarrow> snapshot_bundle_by_id env db' (snap_id s) (rv_session_key v) = Inr (s, rv_memberships v)"
    "events_between env db' (rv_session_key v) (case rv_snapshot v of None \<Rightarrow> 0 | Some s \<Rightarrow> snap_covered_event_end s)
       (rv_high_water_mark v) = Inr (rv_delta v)"
proof -
  from reaches_keeps[OF run ok] have ok': "db_ok env db'" and ext: "db_extends db db'" by auto
  from view obtain r j t0 where r: "find_job db i = Some r" "fence_live r owner epoch t0" and j: "job_by_id env db i = Inr j"
    and vf: "rv_session_key v = job_session_key j" "rv_high_water_mark v = job_target_hwm j"
    and base: "case job_base_snapshot_id j of None \<Rightarrow> rv_snapshot v = None \<and> rv_memberships v = [] \<and> rv_covered_event_end v = 0
     | Some b \<Rightarrow> (\<exists>s. rv_snapshot v = Some s \<and> rv_covered_event_end v = snap_covered_event_end s \<and>
         snapshot_bundle_by_id env db b (job_session_key j) = Inr (s, rv_memberships v))"
    and ev: "events_between env db (job_session_key j) (rv_covered_event_end v) (job_target_hwm j) = Inr (rv_delta v)"
    by (rule read_compaction_view_facts)
  from ok r(1) obtain k where k: "job_by_id env db i = Inr (job_envelope k r)" "stored_key db (jr_hash r) = Some k"
    "env_hash env k = jr_hash r" by (rule job_by_id_find)
  from ok' live(1) obtain k' where k': "job_by_id env db' i = Inr (job_envelope k' r')" "stored_key db' (jr_hash r') = Some k'"
    "env_hash env k' = jr_hash r'" by (rule job_by_id_find)
  have evo: "job_evolves r r'" by (rule extends_job[OF ext ok' r(1) live(1)])
  have "jr_epoch r' = jr_epoch r" using r(2) live(2) by (simp add: fence_live_def)
  with evo have same: "jr_target r' = jr_target r" "jr_base r' = jr_base r" "jr_hash r' = jr_hash r"
    by (simp_all add: job_evolves_def lease_kept_def)
  from k(2) obtain ses where ses: "find_session db (jr_hash r) = Some ses" by (auto simp: stored_key_def)
  from extends_find_session[OF ext ok' ses] k(2) k'(2) ses same(3) have kk: "k' = k"
    by (auto simp: stored_key_def session_evolves_def)
  have je: "j = job_envelope k r" using j k(1) by simp
  have hwm: "job_target_hwm j \<le> high_water db (env_hash env (job_session_key j))"
    using job_by_id_job(3,4)[OF ok j] by simp
  show thesis
  proof (rule that[OF k'(1)])
    show "job_session_key (job_envelope k' r') = rv_session_key v" "job_target_hwm (job_envelope k' r') = rv_high_water_mark v"
      by (simp_all add: vf je kk same job_envelope_def)
    have jb: "job_base_snapshot_id (job_envelope k' r') = job_base_snapshot_id j" by (simp add: je kk same job_envelope_def)
    show "job_base_snapshot_id (job_envelope k' r') = map_option snap_id (rv_snapshot v)"
      unfolding jb using base by (auto split: option.splits dest!: snapshot_bundle_by_id_row)
    show "case rv_snapshot v of None \<Rightarrow> rv_memberships v = []
     | Some s \<Rightarrow> snapshot_bundle_by_id env db' (snap_id s) (rv_session_key v) = Inr (s, rv_memberships v)"
      using base extends_snapshot_bundle[OF ext ok ok'] unfolding vf
      by (fastforce split: option.splits dest: snapshot_bundle_by_id_row)
    show "events_between env db' (rv_session_key v) (case rv_snapshot v of None \<Rightarrow> 0 | Some s \<Rightarrow> snap_covered_event_end s)
       (rv_high_water_mark v) = Inr (rv_delta v)"
      using base ev extends_events_between[OF ext ok ok' hwm] unfolding vf by (auto split: option.splits)
  qed
qed

lemma events_between_key:
  assumes "events_between env db k a b = Inr es" "e \<in> set es"
  shows "ev_session_key e = k"
proof -
  have key: "event_from_row env k r = Inr x \<Longrightarrow> ev_session_key x = k" for r x
    by (auto simp: event_from_row_def result_simps)
  have "traverse (event_from_row env k) rows = Inr es \<Longrightarrow> e \<in> set es \<Longrightarrow> ev_session_key e = k" for rows es
    by (induction rows arbitrary: es) (auto simp: result_simps dest: key)
  with assms show ?thesis by (auto simp: events_between_def)
qed

lemma validate_inputs_eq_Inr:
  assumes "validate_inputs base capsules events target token_ceiling now = Inr k"
  shows "events \<noteq> []" "\<forall>e \<in> set events. ev_session_key e = k" "0 \<le> token_ceiling"
  using assms by (auto simp: validate_inputs_def result_simps)

text \<open>
  C21. A compiled candidate is what the gate demands: it covers exactly the target, its segments
  are the source events in order, it keeps every active exact anchor of its base, every active
  statement of its base is still active or was changed by a record that cites a new event,
  and its costs stay within the ceiling.
\<close>

theorem compile_candidate_sound:
  assumes "compile_candidate env loads dump backend counter ci = Inr cand"
  shows "snap_state (cc_snapshot cand) = CANDIDATE \<and> snap_covered_event_end (cc_snapshot cand) = ci_target ci \<and>
    concat (map seg_events (cc_segments cand)) = ci_source_events ci \<and>
    snap_capsule_ids (cc_snapshot cand) = map mem_capsule_id (cc_memberships cand) \<and>
    set (active_anchors (ci_base_capsules ci)) \<subseteq> set (active_anchors (map mem_capsule (cc_memberships cand))) \<and>
    (\<forall>r \<in> set (active_semantics (ci_base_capsules ci)).
       sr_id r \<in> sr_id ` set (active_semantics (map mem_capsule (cc_memberships cand))) \<or>
       (\<exists>t \<in> set (semantic_records (map mem_capsule (cc_memberships cand))).
          sr_id t = sr_id r \<and> (\<exists>e \<in> set (ci_source_events ci). ev_id e \<in> set (sr_sources t)))) \<and>
    snap_token_cost (cc_snapshot cand) \<le> ci_token_ceiling ci \<and>
    sum_list (map (cap_token_cost \<circ> mem_capsule) (cc_memberships cand)) \<le> ci_token_ceiling ci"
proof -
  from assms obtain k segments and out :: compiler_output and cost where
    "segment loads (ci_source_events ci) (ci_counts ci) (ci_segmenter ci) (ci_preferred ci) = Inr segments"
    and segs: "concat (map seg_events (cc_segments cand)) = ci_source_events ci"
    and snap: "cc_snapshot cand = candidate_snapshot_of (build_snapshot_id env dump k (map_option snap_id (ci_base_snapshot ci))
        (ci_target ci) (co_capsules out) (active_anchor_ids (co_capsules out)) (co_rendered out) cost)
       k (map_option snap_id (ci_base_snapshot ci)) (ci_target ci) (co_capsules out) (co_rendered out) cost
       (instant (ci_now ci))"
    and ms: "cc_memberships cand = memory_memberships (co_capsules out)"
    and rep: "cc_report cand = validate_permanent (candidate_gate ci (cc_snapshot cand) (co_capsules out))" "rep_passed (cc_report cand)"
    by (rule compile_candidate_eq_Inr)
  have caps: "map mem_capsule (cc_memberships cand) = co_capsules out" by (simp add: ms memory_memberships_facts(1))
  let ?g = "candidate_gate ci (cc_snapshot cand) (co_capsules out)"
  have gate: "rep_passed (validate_permanent ?g)" using rep by simp
  have gf: "g_previous_capsules ?g = ci_base_capsules ci" "g_capsules ?g = co_capsules out" "g_events ?g = ci_source_events ci"
    "g_snapshot ?g = cc_snapshot cand" "g_token_ceiling ?g = ci_token_ceiling ci"
    by (simp_all add: candidate_gate_def)
  have "snap_token_cost (cc_snapshot cand) \<le> ci_token_ceiling ci"
    "sum_list (map cap_token_cost (co_capsules out)) \<le> ci_token_ceiling ci"
    using passedD[OF gate, of TOKEN_CEILING_EXCEEDED] by (simp_all add: failure_holds_def gf not_less)
  moreover have "sum_list (map (cap_token_cost \<circ> mem_capsule) (cc_memberships cand)) = sum_list (map cap_token_cost (co_capsules out))"
    by (simp add: caps[symmetric])
  moreover have "set (active_anchors (ci_base_capsules ci)) \<subseteq> set (active_anchors (co_capsules out))"
    using passed_anchors_retained[OF gate] by (auto simp: gf)
  moreover have "sr_id r \<in> sr_id ` set (active_semantics (co_capsules out)) \<or>
       (\<exists>t \<in> set (semantic_records (co_capsules out)).
          sr_id t = sr_id r \<and> (\<exists>e \<in> set (ci_source_events ci). ev_id e \<in> set (sr_sources t)))"
    if "r \<in> set (active_semantics (ci_base_capsules ci))" for r
    using passed_semantics_retained[OF gate, of r] that
    by (auto simp: gf g_current_ids_def g_transition_records_def)
  moreover have "map mem_capsule_id (cc_memberships cand) = map cap_id (co_capsules out)"
    unfolding caps[symmetric] by simp
  ultimately show ?thesis using segs by (simp add: caps snap candidate_snapshot_of_def)
qed

text \<open>
  What the compiler accepts, the repository publishes: a candidate compiled from a claimed
  view and audited passes every check of publication, up to the insertion itself, in any later
  database in which the worker still holds that lease and the job is ready with that candidate.
\<close>

lemma compiled_candidate_publishes:
  assumes ok: "db_ok env db" and run: "reaches env db db'"
    and view: "read_compaction_view env db i owner epoch now = Inr v" "compiles_view v ci"
    and comp: "compile_candidate env loads dump backend counter ci = Inr cand"
    and audit: "audit_semantic cand strict auditor = Inr aud"
    and live: "find_job db' i = Some r" "fence_live r owner epoch t"
    and ready: "jr_state r = READY_TO_COMMIT" "jr_candidate r = Some (snap_id (ac_snapshot aud))"
    and pub: "pub_snapshot pub = ac_snapshot aud" "pub_memberships pub = ac_memberships aud" "pub_records pub = []"
      "pub_token_ceiling pub = ci_token_ceiling ci"
    and metrics: "\<forall>ms. pub_metrics pub = Some ms \<longrightarrow>
      validate_candidate_metrics (ac_snapshot aud) (ac_memberships aud) ms = Inr ()"
  shows "\<exists>j. job_by_id env db' i = Inr j \<and>
    publish_checks env i owner epoch t pub db' = Inr (j, committed_form (ac_snapshot aud) t, [])"
proof -
  from comp obtain k segments and out :: compiler_output and cost where
    inputs: "validate_inputs (ci_base_snapshot ci) (ci_base_capsules ci) (ci_source_events ci) (ci_target ci)
       (ci_token_ceiling ci) (ci_now ci) = Inr k"
    and "segment loads (ci_source_events ci) (ci_counts ci) (ci_segmenter ci) (ci_preferred ci) = Inr segments"
    and ne: "co_capsules out \<noteq> []"
    and snap: "cc_snapshot cand = candidate_snapshot_of (build_snapshot_id env dump k (map_option snap_id (ci_base_snapshot ci))
        (ci_target ci) (co_capsules out) (active_anchor_ids (co_capsules out)) (co_rendered out) cost)
       k (map_option snap_id (ci_base_snapshot ci)) (ci_target ci) (co_capsules out) (co_rendered out) cost
       (instant (ci_now ci))"
    and valid: "valid_snapshot (cc_snapshot cand)" and ms: "cc_memberships cand = memory_memberships (co_capsules out)"
    and rep: "cc_report cand = validate_permanent (candidate_gate ci (cc_snapshot cand) (co_capsules out))" "rep_passed (cc_report cand)"
    by (rule compile_candidate_eq_Inr)
  from ok run view(1) live obtain j where j: "job_by_id env db' i = Inr j" "job_session_key j = rv_session_key v"
      "job_target_hwm j = rv_high_water_mark v" "job_base_snapshot_id j = map_option snap_id (rv_snapshot v)"
    and base: "case rv_snapshot v of None \<Rightarrow> rv_memberships v = []
     | Some s \<Rightarrow> snapshot_bundle_by_id env db' (snap_id s) (rv_session_key v) = Inr (s, rv_memberships v)"
    and ev: "events_between env db' (rv_session_key v) (case rv_snapshot v of None \<Rightarrow> 0 | Some s \<Rightarrow> snap_covered_event_end s)
       (rv_high_water_mark v) = Inr (rv_delta v)"
    by (rule frozen_view)
  note ci = view(2)[unfolded compiles_view_def]
  obtain e where e: "e \<in> set (rv_delta v)" using validate_inputs_eq_Inr(1)[OF inputs] ci by (cases "rv_delta v") auto
  have k: "k = rv_session_key v"
    using validate_inputs_eq_Inr(2)[OF inputs] ci e events_between_key[OF ev e] by auto
  obtain st where st: "ac_snapshot aud = snapshot_with_semantic_result (cc_snapshot cand) st []" "st \<noteq> AUDIT_FAILED"
    using audit_semantic_eq_Inr(3)[OF audit] by (auto split: if_splits)
  have mem: "ac_memberships aud = memory_memberships (co_capsules out)" using audit_semantic_eq_Inr(1)[OF audit] ms by simp
  have cand: "snap_state (cc_snapshot cand) = CANDIDATE" "snap_session_key (cc_snapshot cand) = k"
    "snap_capsule_ids (cc_snapshot cand) = map cap_id (co_capsules out)"
    "ao_mechanical_passed (snap_audit_outcome (cc_snapshot cand))"
    by (simp_all add: snap candidate_snapshot_of_def)
  have "candidate_gate ci (cc_snapshot cand) (co_capsules out)\<lparr>g_snapshot :=
      snapshot_with_semantic_result (cc_snapshot cand) st []\<rparr> = publish_gate_input j pub (rv_snapshot v) (rv_memberships v) (rv_delta v)"
    using ci by (simp add: candidate_gate_def publish_gate_input_def pub st(1) mem memory_memberships_facts(1) j(3))
  with gate_semantic_result[of "candidate_gate ci (cc_snapshot cand) (co_capsules out)" st] rep cand(4)
  have gate: "rep_passed (validate_permanent (publish_gate_input j pub (rv_snapshot v) (rv_memberships v) (rv_delta v)))"
    by (simp add: candidate_gate_def)
  have key: "snap_session_key (pub_snapshot pub) = job_session_key j" and state: "snap_state (pub_snapshot pub) = CANDIDATE"
    by (simp_all add: pub st(1) snapshot_with_semantic_result_def cand j(2) k)
  have vm: "validate_candidate_memberships (pub_snapshot pub) (pub_memberships pub) = Inr ()"
    unfolding pub(1,2) st(1) mem by (rule memberships_accepted[OF valid cand(3) ne])
  have prev: "(case job_base_snapshot_id j of None \<Rightarrow> Inr (None, [])
           | Some b \<Rightarrow> bind (snapshot_bundle_by_id env db' b (job_session_key j)) (\<lambda>(s, ms). Inr (Some s, ms)))
      = Inr (rv_snapshot v, rv_memberships v)"
    using base by (simp add: j split: option.splits)
  have mt: "(case pub_metrics pub of None \<Rightarrow> Inr () | Some ms \<Rightarrow>
      validate_candidate_metrics (pub_snapshot pub) (pub_memberships pub) ms) = Inr ()"
    using metrics by (simp add: pub split: option.splits)
  have "require_live_fence db' i owner epoch t = Inr r" using live by (simp add: require_live_fence_eq_Inr)
  then have "publish_checks env i owner epoch t pub db' = Inr (j, committed_form (ac_snapshot aud) t, [])"
    using ready state key vm prev mt ev gate j(1) committed_form_valid[OF valid cand(1) st(2)]
    by (simp add: publish_checks_def j(2,3) pub canonicalize_reorganization_records_def apply_quality_floor_def st(1)
        del: split_paired_Ex)
  with j(1) show ?thesis by blast
qed

end
