(* ===== verification/Gate_Errors.thy ===== *)
theory Gate_Errors
  imports Compiler_Laws Backfill
begin

text \<open>
  Which step of a publication can reject a candidate: only the checks. Every other step of the
  transaction raises other errors. The readers do not depend on the injected faults.
\<close>

named_theorems not_rejected \<open>computations that never raise a rejection\<close>

lemma rejected_primitives [not_rejected]:
  "inject env b = Inl (PublicationRejected rep) \<longleftrightarrow> False"
  "normalize_datetime d = Inl (PublicationRejected rep) \<longleftrightarrow> False"
  "seal env t c r p = Inl (PublicationRejected rep) \<longleftrightarrow> False"
  "encrypt_text env t c r s = Inl (PublicationRejected rep) \<longleftrightarrow> False"
  "encrypt_non_negative_int env t c r n = Inl (PublicationRejected rep) \<longleftrightarrow> False"
  "unseal env t c r q = Inl (PublicationRejected rep) \<longleftrightarrow> False"
  "decrypt_non_negative_int env t c r m = Inl (PublicationRejected rep) \<longleftrightarrow> False"
  "option_or x RepositoryInvariantError = Inl (PublicationRejected rep) \<longleftrightarrow> False"
  by (auto simp: inject_def normalize_datetime_def seal_def encrypt_text_def encrypt_non_negative_int_def
      unseal_def decrypt_non_negative_int_def option_or_def bind_eq_Inl guard_eq_Inl
      split: datetime.splits option.splits if_splits)

lemma rejected_tables [not_rejected]:
  "insert_capsule a db = Inl (PublicationRejected rep) \<longleftrightarrow> False"
  "insert_snapshot b db = Inl (PublicationRejected rep) \<longleftrightarrow> False"
  "insert_membership c db = Inl (PublicationRejected rep) \<longleftrightarrow> False"
  "insert_ledger d db = Inl (PublicationRejected rep) \<longleftrightarrow> False"
  "insert_job j db = Inl (PublicationRejected rep) \<longleftrightarrow> False"
  "update_jobs p f db = Inl (PublicationRejected rep) \<longleftrightarrow> False"
  "write_pointers ps db = Inl (PublicationRejected rep) \<longleftrightarrow> False"
  by (auto simp: insert_capsule_def insert_snapshot_def insert_membership_def insert_ledger_def insert_job_def
      update_jobs_def write_pointers_def bind_eq_Inl guard_eq_Inl split: if_splits)

lemma rejected_traverse: "(\<And>x. f x \<noteq> Inl e) \<Longrightarrow> traverse f xs \<noteq> Inl e"
  by (induction xs) (auto simp: bind_eq_Inl)

lemma rejected_foldM: "(\<And>s x. f s x \<noteq> Inl e) \<Longrightarrow> foldM f s xs \<noteq> Inl e"
  by (induction xs arbitrary: s) (auto simp: bind_eq_Inl)

lemma rejected_readers [not_rejected]:
  "session_key_from_storage env h c = Inl (PublicationRejected rep) \<longleftrightarrow> False"
  "capsule_from_row env k a = Inl (PublicationRejected rep) \<longleftrightarrow> False"
  "snapshot_from_row env k ids b = Inl (PublicationRejected rep) \<longleftrightarrow> False"
  "validate_snapshot_memberships s ms = Inl (PublicationRejected rep) \<longleftrightarrow> False"
  by (auto simp: session_key_from_storage_def capsule_from_row_def snapshot_from_row_def
      validate_snapshot_memberships_def bind_eq_Inl guard_eq_Inl not_rejected split: if_splits)

lemma rejected_memberships [not_rejected]:
  "memberships_for_snapshot env db sid k = Inl (PublicationRejected rep) \<longleftrightarrow> False"
proof -
  have "decode_memberships env k n ps \<noteq> Inl (PublicationRejected rep)" for n ps
    by (induction ps arbitrary: n) (auto simp: bind_eq_Inl guard_eq_Inl not_rejected)
  then show ?thesis by (auto simp: memberships_for_snapshot_def bind_eq_Inl guard_eq_Inl)
qed

lemma rejected_bundles [not_rejected]:
  "job_by_id env db i = Inl (PublicationRejected rep) \<longleftrightarrow> False"
  "snapshot_bundle_by_id env db sid k = Inl (PublicationRejected rep) \<longleftrightarrow> False"
  "active_snapshot_bundle env db k = Inl (PublicationRejected rep) \<longleftrightarrow> False"
  by (auto simp: job_by_id_def job_from_row_def snapshot_bundle_by_id_def active_snapshot_bundle_def
      bind_eq_Inl guard_eq_Inl not_rejected split: prod.splits)

lemma rejected_metrics [not_rejected]:
  "get_metric env db kind a p = Inl (PublicationRejected rep) \<longleftrightarrow> False"
  "put_metric env m t db = Inl (PublicationRejected rep) \<longleftrightarrow> False"
proof -
  show g: "get_metric env db kind a p = Inl (PublicationRejected rep) \<longleftrightarrow> False" for kind a p
    by (auto simp: get_metric_def bind_eq_Inl guard_eq_Inl not_rejected split: option.splits)
  show "put_metric env m t db = Inl (PublicationRejected rep) \<longleftrightarrow> False"
    by (auto simp: put_metric_def bind_eq_Inl guard_eq_Inl g not_rejected split: option.splits if_splits)
qed

lemma rejected_staging [not_rejected]:
  "stage_capsules env ms db = Inl (PublicationRejected rep) \<longleftrightarrow> False"
  "stage_memberships env sid ms db = Inl (PublicationRejected rep) \<longleftrightarrow> False"
  "write_ledger env sid n rs db = Inl (PublicationRejected rep) \<longleftrightarrow> False"
  "insert_committed_snapshot env s db = Inl (PublicationRejected rep) \<longleftrightarrow> False"
proof -
  have v: "insert_or_verify_capsule env c db \<noteq> Inl (PublicationRejected rep)" for c db
    by (auto simp: insert_or_verify_capsule_def capsule_row_of_def bind_eq_Inl guard_eq_Inl not_rejected
        split: option.splits)
  show "stage_capsules env ms db = Inl (PublicationRejected rep) \<longleftrightarrow> False" for db
    by (induction ms arbitrary: db)
       (auto simp: bind_staged_def catch_integrity_def bind_eq_Inl v not_rejected split: option.splits sum.splits if_splits)
  show "stage_memberships env sid ms db = Inl (PublicationRejected rep) \<longleftrightarrow> False" for db
    by (induction ms arbitrary: db)
       (auto simp: bind_staged_def catch_integrity_def bind_eq_Inl not_rejected split: option.splits sum.splits if_splits)
  show "write_ledger env sid n rs db = Inl (PublicationRejected rep) \<longleftrightarrow> False" for n db
    by (induction rs arbitrary: n db) (auto simp: bind_eq_Inl not_rejected)
  show "insert_committed_snapshot env s db = Inl (PublicationRejected rep) \<longleftrightarrow> False"
    by (auto simp: insert_committed_snapshot_def snapshot_row_of_def bind_eq_Inl not_rejected)
qed

lemma rejected_stage_candidate [not_rejected]:
  "stage_candidate env j s rs pub now db = Inl (PublicationRejected rep) \<longleftrightarrow> False"
proof -
  have "write_publish_metric env now db m \<noteq> Inl (PublicationRejected rep)" for db m
    by (auto simp: write_publish_metric_def bind_eq_Inl not_rejected)
  then have m: "foldM (write_publish_metric env now) db ms \<noteq> Inl (PublicationRejected rep)" for db ms
    by (rule rejected_foldM)
  have c: "cas_active_pointer env j s now db \<noteq> Inl (PublicationRejected rep)" for db
    by (auto simp: cas_active_pointer_def bind_eq_Inl not_rejected split: option.splits if_splits)
  have i: "catch_integrity (insert_committed_snapshot env s db) \<noteq> Inl (PublicationRejected rep)" for db
    using not_rejected by (auto simp: catch_integrity_def split: sum.splits if_splits)
  show ?thesis
    by (auto simp: stage_candidate_def bind_staged_def bind_eq_Inl not_rejected m c i split: option.splits)
qed

lemma rejected_finish [not_rejected]:
  "publish_superseded env j owner epoch now db = Inl (PublicationRejected rep) \<longleftrightarrow> False"
  "publish_committed env j s owner epoch now db = Inl (PublicationRejected rep) \<longleftrightarrow> False"
proof -
  have f: "finish_publish_job env j owner epoch now outcome db \<noteq> Inl (PublicationRejected rep)" for outcome db
    by (auto simp: finish_publish_job_def bind_eq_Inl guard_eq_Inl not_rejected)
  have p: "preserve_follow_up env t s v now db \<noteq> Inl (PublicationRejected rep)" for t s v db
    by (auto simp: preserve_follow_up_def fold_intent_def not_rejected split: option.splits if_splits)
  show "publish_superseded env j owner epoch now db = Inl (PublicationRejected rep) \<longleftrightarrow> False"
    by (auto simp: publish_superseded_def bind_eq_Inl f p not_rejected split: prod.splits)
  show "publish_committed env j s owner epoch now db = Inl (PublicationRejected rep) \<longleftrightarrow> False"
    by (auto simp: publish_committed_def bind_eq_Inl f p not_rejected split: prod.splits)
qed

lemma publish_rejected_checks:
  assumes "publish_snapshot env i owner epoch now pub db = (Inl (PublicationRejected rep), db')"
  shows "\<exists>t. now = Aware t \<and> publish_checks env i owner epoch t pub db = Inl (PublicationRejected rep)"
  using assms
  by (auto simp: publish_snapshot_def transaction_eq_Inl publish_snapshot_body_def bind_eq_Inl guard_eq_Inl
      normalize_datetime_eq_Inr not_rejected split: option.splits)

lemma rejected_events [not_rejected]:
  "event_from_row env k r = Inl (PublicationRejected rep) \<longleftrightarrow> False"
  "require_session_identity env db k = Inl (PublicationRejected rep) \<longleftrightarrow> False"
  "require_live_fence db i owner epoch t = Inl (PublicationRejected rep) \<longleftrightarrow> False"
  by (auto simp: event_from_row_def require_session_identity_def require_live_fence_def option_or_def bind_eq_Inl
      guard_eq_Inl not_rejected split: option.splits if_splits)

lemma rejected_views [not_rejected]:
  "events_between env db k a b = Inl (PublicationRejected rep) \<longleftrightarrow> False"
  "read_compaction_view env db i owner epoch now = Inl (PublicationRejected rep) \<longleftrightarrow> False"
proof -
  show e: "events_between env db k a b = Inl (PublicationRejected rep) \<longleftrightarrow> False" for k a b
    using rejected_traverse[of "event_from_row env k" "PublicationRejected rep"] by (simp add: events_between_def not_rejected)
  show "read_compaction_view env db i owner epoch now = Inl (PublicationRejected rep) \<longleftrightarrow> False"
    by (auto simp: read_compaction_view_def bind_eq_Inl guard_eq_Inl e not_rejected split: option.splits prod.splits)
qed

lemma rejected_transition [not_rejected]:
  "transition_job env i owner epoch st now c db = (Inl (PublicationRejected rep), db') \<longleftrightarrow> False"
  by (auto simp: transition_job_def transaction_eq_Inl transition_job_body_def fenced_update_def bind_eq_Inl guard_eq_Inl
      not_rejected)

lemma rejected_counts [not_rejected]:
  "read_event_token_counts env db k ids p = Inl (PublicationRejected rep) \<longleftrightarrow> False"
proof -
  have "read_event_token_count env db h p i \<noteq> Inl (PublicationRejected rep)" for h i
    by (auto simp: read_event_token_count_def bind_eq_Inl guard_eq_Inl not_rejected)
  then have "traverse (read_event_token_count env db h p) es \<noteq> Inl (PublicationRejected rep)" for h es
    by (rule rejected_traverse)
  then show ?thesis by (auto simp: read_event_token_counts_def bind_eq_Inl guard_eq_Inl not_rejected)
qed

lemma rejected_backfill [not_rejected]:
  "read_metric_backfill_batch env db k p n = Inl (PublicationRejected rep) \<longleftrightarrow> False"
  "write_metric_backfill_batch env k ms now db = (Inl (PublicationRejected rep), db') \<longleftrightarrow> False"
proof -
  have "metric_backfill_artifact env db k p row \<noteq> Inl (PublicationRejected rep)" for row
    by (cases row) (auto simp: metric_backfill_artifact_def artifact_text_def bind_eq_Inl not_rejected
        split: artifact_kind.splits option.splits prod.splits)
  then have "traverse (metric_backfill_artifact env db k p) rows \<noteq> Inl (PublicationRejected rep)" for rows
    by (rule rejected_traverse)
  then show "read_metric_backfill_batch env db k p n = Inl (PublicationRejected rep) \<longleftrightarrow> False"
    by (auto simp: read_metric_backfill_batch_def bind_eq_Inl guard_eq_Inl not_rejected)
  have "write_backfill_metric env h t db m \<noteq> Inl (PublicationRejected rep)" for h t db m
    by (auto simp: write_backfill_metric_def bind_eq_Inl guard_eq_Inl not_rejected)
  then have "foldM (write_backfill_metric env h t) db ms \<noteq> Inl (PublicationRejected rep)" for h t db
    by (rule rejected_foldM)
  then show "write_metric_backfill_batch env k ms now db = (Inl (PublicationRejected rep), db') \<longleftrightarrow> False"
    by (auto simp: write_metric_backfill_batch_def transaction_eq_Inl write_metric_backfill_batch_body_def bind_eq_Inl
        guard_eq_Inl not_rejected)
qed

section \<open>Readers do not depend on faults\<close>

lemma fault_frame_session [simp]:
  "session_key_from_storage (env\<lparr>env_fault := f\<rparr>) h c = session_key_from_storage env h c"
  by (simp add: session_key_from_storage_def)

lemma fault_frame_jobs [simp]: "job_by_id (env\<lparr>env_fault := f\<rparr>) db i = job_by_id env db i"
  by (simp add: job_by_id_def job_from_row_def)

lemma fault_frame_bundle [simp]: "snapshot_bundle_by_id (env\<lparr>env_fault := f\<rparr>) db s k = snapshot_bundle_by_id env db s k"
  by (simp add: snapshot_bundle_by_id_def)

lemma fault_frame_events [simp]: "events_between (env\<lparr>env_fault := f\<rparr>) db k a b = events_between env db k a b"
proof -
  have "event_from_row (env\<lparr>env_fault := f\<rparr>) k = event_from_row env k" by (intro ext) (simp add: event_from_row_def)
  then show ?thesis by (simp add: events_between_def)
qed

lemma fault_frame_compaction_view [simp]:
  "read_compaction_view (env\<lparr>env_fault := f\<rparr>) db i owner epoch now = read_compaction_view env db i owner epoch now"
  by (simp add: read_compaction_view_def cong: option.case_cong)

lemma fault_frame_checks [simp]:
  "publish_checks (env\<lparr>env_fault := f\<rparr>) i owner epoch now pub db = publish_checks env i owner epoch now pub db"
  by (simp add: publish_checks_def cong: option.case_cong)

end
