(* ===== verification/Worker_Laws.thy ===== *)
theory Worker_Laws
  imports Worker Gate_Errors
begin

text \<open>
  The worker against the repository. A small logic of actions tracks what holds after each call
  while other transactions interleave; with it an iteration is shown to be a sequence of
  repository transactions, and its candidate is never refused by the publication gate.
\<close>

section \<open>Actions\<close>

definition fair_world :: "world \<Rightarrow> bool" where
  "fair_world w \<longleftrightarrow> (\<forall>n db. reaches (wd_env w) db (wd_others w n db))"

text \<open>
  From a database with \<open>P\<close> the action only runs repository transactions; a result satisfies \<open>Q\<close>
  in the database it leaves, an error satisfies \<open>E\<close>.
\<close>

definition runs ::
  "world \<Rightarrow> (db \<Rightarrow> bool) \<Rightarrow> ('e, 'a) action \<Rightarrow> ('a \<Rightarrow> db \<Rightarrow> bool) \<Rightarrow> ('e \<Rightarrow> bool) \<Rightarrow> bool" where
  "runs w P m Q E \<longleftrightarrow> (\<forall>db n r db' n'. P db \<longrightarrow> m (db, n) = (r, (db', n')) \<longrightarrow>
     reaches (wd_env w) db db' \<and> (case r of Inl e \<Rightarrow> E e | Inr x \<Rightarrow> Q x db'))"

definition stable :: "world \<Rightarrow> (db \<Rightarrow> bool) \<Rightarrow> bool" where
  "stable w P \<longleftrightarrow> (\<forall>db db'. P db \<longrightarrow> reaches (wd_env w) db db' \<longrightarrow> P db')"

lemma runsD:
  assumes "runs w P m Q E" "P db" "m (db, n) = (r, s')"
  shows "reaches (wd_env w) db (fst s')" "r = Inr x \<Longrightarrow> Q x (fst s')" "r = Inl e \<Longrightarrow> E e"
  using assms unfolding runs_def by (cases s'; fastforce)+

lemma runs_bind:
  assumes m: "runs w P m Q E" and f: "\<And>x. runs w (Q x) (f x) R E"
  shows "runs w P (act_bind m f) R E"
  unfolding runs_def
proof (intro allI impI)
  fix db n r db' n' assume P: "P db" and run: "act_bind m f (db, n) = (r, (db', n'))"
  obtain r1 s1 where m1: "m (db, n) = (r1, s1)" by (cases "m (db, n)")
  show "reaches (wd_env w) db db' \<and> (case r of Inl e \<Rightarrow> E e | Inr x \<Rightarrow> R x db')"
  proof (cases r1)
    case (Inl e)
    with run m1 runsD(1,3)[OF m P m1] show ?thesis by (auto simp: act_bind_def)
  next
    case (Inr x)
    obtain db1 n1 where s1: "s1 = (db1, n1)" by (cases s1)
    from Inr run m1 s1 have f1: "f x (db1, n1) = (r, (db', n'))" by (simp add: act_bind_def)
    from runsD(1,2)[OF m P m1] Inr s1 have "reaches (wd_env w) db db1" "Q x db1" by auto
    with runsD[OF f _ f1] reaches_trans show ?thesis by (auto split: sum.splits)
  qed
qed

lemma runs_weaken:
  assumes "runs w P m Q E" "\<And>db. P' db \<Longrightarrow> P db" "\<And>x db. Q x db \<Longrightarrow> Q' x db" "\<And>e. E e \<Longrightarrow> E' e"
  shows "runs w P' m Q' E'"
  unfolding runs_def
proof (intro allI impI)
  fix db n r db' n' assume "P' db" and run: "m (db, n) = (r, (db', n'))"
  then have "P db" using assms(2) by blast
  from runsD[OF assms(1) this run] assms(3,4)
  show "reaches (wd_env w) db db' \<and> (case r of Inl e \<Rightarrow> E' e | Inr x \<Rightarrow> Q' x db')" by (cases r) auto
qed

lemma runs_return: "runs w P (act_return x) (\<lambda>y db. y = x \<and> P db) E"
  by (auto simp: runs_def act_return_def intro: reaches_refl)

lemma runs_lift: "(\<And>e. r = Inl e \<Longrightarrow> E e) \<Longrightarrow> runs w P (act_lift r) (\<lambda>x db. r = Inr x \<and> P db) E"
  by (auto simp: runs_def act_lift_def split: sum.splits intro: reaches_refl)

lemma runs_call:
  assumes fair: "fair_world w" and st: "stable w P"
    and op: "\<And>f clock db r db'. P db \<Longrightarrow> op ((wd_env w)\<lparr>env_fault := f\<rparr>) clock db = (r, db') \<Longrightarrow>
      reaches (wd_env w) db db' \<and> (case r of Inl e \<Rightarrow> E (Repository e) | Inr x \<Rightarrow> Q x db')"
  shows "runs w P (act_call w op) Q E"
  unfolding runs_def
proof (intro allI impI)
  fix db n r db' n' assume P: "P db" and run: "act_call w op (db, n) = (r, (db', n'))"
  let ?db = "wd_others w n db"
  have o: "reaches (wd_env w) db ?db" using fair by (simp add: fair_world_def)
  with st P have "P ?db" by (auto simp: stable_def)
  obtain r1 where r1: "op (call_env w n) (wd_clock w n) ?db = (r1, db')" and r: "r = map_error Repository r1"
    using run by (auto simp: act_call_def split: prod.splits)
  from op[OF \<open>P ?db\<close> r1[unfolded call_env_def]] o r
  show "reaches (wd_env w) db db' \<and> (case r of Inl e \<Rightarrow> E e | Inr x \<Rightarrow> Q x db')"
    by (auto simp: map_error_def split: sum.splits intro: reaches_trans)
qed

lemma runs_read:
  assumes "fair_world w" "stable w P"
    and "\<And>f clock db x. P db \<Longrightarrow> op ((wd_env w)\<lparr>env_fault := f\<rparr>) clock db = Inr x \<Longrightarrow> Q x db"
    and "\<And>f clock db e. P db \<Longrightarrow> op ((wd_env w)\<lparr>env_fault := f\<rparr>) clock db = Inl e \<Longrightarrow> E (Repository e)"
  shows "runs w P (act_read w op) Q E"
  unfolding act_read_def
  by (rule runs_call) (use assms in \<open>auto intro: reaches_refl split: sum.splits\<close>)

lemma runs_at_stage:
  assumes "runs w P m Q (\<lambda>e. E (st, e))"
  shows "runs w P (at_stage st m) Q E"
  unfolding runs_def
proof (intro allI impI)
  fix db n r db' n' assume P: "P db" and run: "at_stage st m (db, n) = (r, (db', n'))"
  obtain r1 where r1: "m (db, n) = (r1, (db', n'))" "r = map_error (Pair st) r1"
    using run by (cases "m (db, n)") (simp add: at_stage_def)
  from runsD[OF assms P r1(1)] r1(2)
  show "reaches (wd_env w) db db' \<and> (case r of Inl e \<Rightarrow> E e | Inr x \<Rightarrow> Q x db')"
    by (cases r1) (auto simp: map_error_def)
qed

lemma stable_db_ok: "stable w (db_ok (wd_env w))"
  unfolding stable_def using reaches_keeps by blast

lemma stable_conj: "stable w P \<Longrightarrow> stable w Q \<Longrightarrow> stable w (\<lambda>db. P db \<and> Q db)"
  unfolding stable_def by blast

lemma stable_const: "stable w (\<lambda>db. c)"
  by (simp add: stable_def)

text \<open>What holds in some earlier database of the execution.\<close>

definition earlier :: "world \<Rightarrow> (db \<Rightarrow> bool) \<Rightarrow> db \<Rightarrow> bool" where
  "earlier w P db \<longleftrightarrow> (\<exists>db0. db_ok (wd_env w) db0 \<and> P db0 \<and> reaches (wd_env w) db0 db)"

lemma stable_earlier: "stable w (earlier w P)"
  unfolding stable_def earlier_def using reaches_trans by blast

lemma earlierI: "db_ok (wd_env w) db \<Longrightarrow> P db \<Longrightarrow> earlier w P db"
  unfolding earlier_def using reaches_refl by blast

lemma step_reaches: "step env db db' \<Longrightarrow> reaches env db db'"
  using reaches_step[OF reaches_refl] .

section \<open>The metrics of a candidate\<close>

lemma canonical_metric_eq_Inr:
  "canonical_metric wk kind i t = Inr m \<Longrightarrow> tm_kind m = kind \<and> tm_artifact m = i \<and> tm_profile m = wk_profile wk"
  by (auto simp: canonical_metric_def result_simps)

lemma capsule_metrics_facts:
  assumes "traverse (\<lambda>m. canonical_metric wk CAPSULE_ARTIFACT (mem_capsule_id m) (render_capsule (mem_capsule m))) ms = Inr ts"
  shows "map (\<lambda>t. (tm_kind t, tm_artifact t)) ts = map (\<lambda>m. (CAPSULE_ARTIFACT, mem_capsule_id m)) ms"
    "\<forall>t \<in> set ts. tm_profile t = wk_profile wk"
  using assms by (induction ms arbitrary: ts) (auto simp: result_simps dest: canonical_metric_eq_Inr)

lemma candidate_metrics_valid:
  assumes "candidate_canonical_metrics wk a = Inr ts" "distinct (map mem_capsule_id (ac_memberships a))"
  shows "validate_candidate_metrics (ac_snapshot a) (ac_memberships a) ts = Inr ()"
proof -
  from assms(1) obtain cs m where
    cs: "traverse (\<lambda>m. canonical_metric wk CAPSULE_ARTIFACT (mem_capsule_id m) (render_capsule (mem_capsule m)))
      (ac_memberships a) = Inr cs"
    and m: "canonical_metric wk SNAPSHOT_ARTIFACT (snap_id (ac_snapshot a)) (snap_rendered_context (ac_snapshot a)) = Inr m"
    and ts: "ts = cs @ [m]"
    by (auto simp: candidate_canonical_metrics_def result_simps)
  let ?keys = "map (\<lambda>m. (CAPSULE_ARTIFACT, mem_capsule_id m)) (ac_memberships a) @ [(SNAPSHOT_ARTIFACT, snap_id (ac_snapshot a))]"
  have keys: "map (\<lambda>t. (tm_kind t, tm_artifact t)) ts = ?keys"
    using capsule_metrics_facts(1)[OF cs] canonical_metric_eq_Inr[OF m] by (simp add: ts)
  have "distinct ?keys" using assms(2) by (auto simp: distinct_map inj_on_def)
  then have rd: "remdups ?keys = ?keys" by (rule distinct_remdups_id)
  have "length ts = length ?keys" using arg_cong[OF keys, of length] by simp
  moreover have "length (remdups (map tm_profile ts)) = 1"
  proof -
    have "set (map tm_profile ts) = {wk_profile wk}"
      using capsule_metrics_facts(2)[OF cs] canonical_metric_eq_Inr[OF m] by (auto simp: ts)
    then show ?thesis by (simp add: length_remdups_card_conv)
  qed
  ultimately show ?thesis
    unfolding validate_candidate_metrics_def Let_def keys rd by (simp add: guard_eq_Inr)
qed

section \<open>What each stage establishes\<close>

text \<open>The job as some transaction of the same lease returned it.\<close>

definition job_seen :: "world \<Rightarrow> worker \<Rightarrow> job \<Rightarrow> db \<Rightarrow> bool" where
  "job_seen w wk j = earlier w (\<lambda>db. \<exists>r. find_job db (job_id j) = Some r \<and> jr_epoch r = job_lease_epoch j \<and>
     jr_target r = job_target_hwm j)"

text \<open>A candidate compiled from the view of the lease.\<close>

definition compiled_from :: "world \<Rightarrow> worker \<Rightarrow> job \<Rightarrow> compilation_candidate \<Rightarrow> db \<Rightarrow> bool" where
  "compiled_from w wk j cand = earlier w (\<lambda>db. \<exists>now v ci.
     read_compaction_view (wd_env w) db (job_id j) (wk_id wk) (job_lease_epoch j) now = Inr v \<and> compiles_view v ci \<and>
     ci_token_ceiling ci = wc_token_ceiling (wk_config wk) \<and>
     compile_candidate (wd_env w) (wk_loads wk) (wk_dump wk) (wk_backend wk) (wk_counter wk) ci = Inr cand)"

definition ready_with :: "world \<Rightarrow> job \<Rightarrow> string \<Rightarrow> db \<Rightarrow> bool" where
  "ready_with w j sid = earlier w (\<lambda>db. \<exists>r. find_job db (job_id j) = Some r \<and> jr_epoch r = job_lease_epoch j \<and>
     jr_state r = READY_TO_COMMIT \<and> jr_candidate r = Some sid)"

lemma stable_stages [intro]:
  "stable w (job_seen w wk j)" "stable w (compiled_from w wk j cand)" "stable w (ready_with w j sid)"
  unfolding job_seen_def compiled_from_def ready_with_def by (rule stable_earlier)+

lemma transition_job_eq_Inr:
  assumes "transition_job env i owner epoch st now c db = (Inr j, db')" "db_ok env db"
  obtains r k where "find_job db' i = Some r" "j = job_envelope k r" "jr_epoch r = epoch" "jr_state r = st" "jr_candidate r = c"
    "db_ok env db'"
proof -
  from assms(1) obtain t row where
    run: "transition_job_body env i owner epoch st now c db = Inr (j, db')"
    and up: "fenced_update i owner epoch t (\<lambda>r. r\<lparr>jr_state := st, jr_candidate := c, jr_updated_at := t\<rparr>) db = Inr db'"
    and row: "find_job db i = Some row" "fence_live row owner epoch t" and j: "job_by_id env db' i = Inr j"
    by (auto simp: transition_job_def transaction_eq_Inr transition_job_body_def result_simps)
  have ok': "db_ok env db'" by (rule transition_job_body_ok[OF assms(2) run])
  from up have u: "update_jobs (fence_where i owner epoch t) (\<lambda>r. r\<lparr>jr_state := st, jr_candidate := c, jr_updated_at := t\<rparr>) db = Inr db'"
    by (simp add: fenced_update_eq_Inr)
  have w: "fence_where i owner epoch t row" using row find_jobD[OF row(1)] by (simp add: fence_where_def fence_live_def)
  from find_job_update[OF u] row(1) w
  have r: "find_job db' i = Some (row\<lparr>jr_state := st, jr_candidate := c, jr_updated_at := t\<rparr>)" by simp
  from ok' r obtain k where "job_by_id env db' i = Inr (job_envelope k (row\<lparr>jr_state := st, jr_candidate := c, jr_updated_at := t\<rparr>))"
    by (rule job_by_id_find)
  with j that[OF r _ _ _ _ ok'] row(2) show thesis by (auto simp: fence_live_def)
qed

section \<open>The stages, one by one\<close>

abbreviation intact :: "world \<Rightarrow> db \<Rightarrow> bool" where
  "intact w \<equiv> db_ok (wd_env w)"

definition unrejected :: "worker_error \<Rightarrow> bool" where
  "unrejected e \<longleftrightarrow> (\<forall>rep. e \<noteq> Repository (PublicationRejected rep))"

lemma unrejected_simps [simp]:
  "unrejected (Pipeline p)" "unrejected CandidateVerificationError" "unrejected Provider_Failure" "unrejected Claim_Diverges"
  "unrejected (Repository x) \<longleftrightarrow> (\<forall>rep. x \<noteq> PublicationRejected rep)"
  by (auto simp: unrejected_def)

lemma canonical_metric_unrejected: "canonical_metric wk kind i t = Inl e \<Longrightarrow> unrejected e"
  by (auto simp: canonical_metric_def count_canonical_def bind_eq_Inl guard_eq_Inl
      split: option.splits count_outcome.splits if_splits)

lemma traverse_unrejected:
  assumes "traverse f xs = Inl e" "\<And>x e. f x = Inl e \<Longrightarrow> unrejected e"
  shows "unrejected e"
  using assms by (induction xs) (auto simp: bind_eq_Inl)

lemma runs_write_backfill:
  assumes "fair_world w"
  shows "runs w (intact w) (act_call w (\<lambda>env clock. write_metric_backfill_batch env k ms (clock 0))) (\<lambda>_. intact w) unrejected"
proof (rule runs_call[OF assms stable_db_ok])
  fix f clock db r db'
  assume ok: "intact w db" and run: "write_metric_backfill_batch ((wd_env w)\<lparr>env_fault := f\<rparr>) k ms (clock 0) db = (r, db')"
  note st = step_backfill[OF run]
  from step_keeps[OF st ok] step_reaches[OF st] run
  show "reaches (wd_env w) db db' \<and> (case r of Inl e \<Rightarrow> unrejected (Repository e) | Inr x \<Rightarrow> intact w db')"
    by (cases r) (auto simp: not_rejected)
qed

lemma runs_backfill:
  assumes "fair_world w"
  shows "runs w (intact w) (backfill_metrics wk w k) (\<lambda>_. intact w) unrejected"
proof (cases "wk_canonical wk = None")
  case True
  then show ?thesis unfolding backfill_metrics_def
    by simp (rule runs_weaken[OF runs_lift[where E = unrejected and P = "intact w"]], auto)
next
  case False
  have metrics: "runs w (intact w) (act_lift (traverse (\<lambda>a. canonical_metric wk (ba_kind a) (ba_id a) (ba_text a)) batch))
      (\<lambda>_. intact w) unrejected" for batch
    by (rule runs_weaken[OF runs_lift[where E = unrejected and P = "intact w"]])
       (auto intro: traverse_unrejected canonical_metric_unrejected)
  have store: "runs w (intact w) (if ms = [] then act_return ()
        else act_bind (act_call w (\<lambda>env clock. write_metric_backfill_batch env k ms (clock 0))) (\<lambda>_. act_return ()))
      (\<lambda>_. intact w) unrejected" for ms
    by (auto intro!: runs_bind[OF runs_write_backfill[OF assms]] runs_weaken[OF runs_return[where P = "intact w" and E = unrejected]])
  show ?thesis unfolding backfill_metrics_def if_not_P[OF False]
    by (rule runs_bind[OF runs_read[OF assms stable_db_ok, where Q = "\<lambda>_. intact w"]])
       (auto simp: not_rejected intro: runs_bind[OF metrics store])
qed

lemma job_envelope_fields:
  "job_id (job_envelope k r) = jr_id r" "job_lease_epoch (job_envelope k r) = jr_epoch r"
  "job_target_hwm (job_envelope k r) = jr_target r"
  by (simp_all add: job_envelope_def)

lemma runs_transition:
  assumes fair: "fair_world w" and P: "stable w P" "\<And>db. P db \<Longrightarrow> intact w db"
  shows "runs w P (transition_to wk w leased st c)
    (\<lambda>j db. P db \<and> job_id j = job_id leased \<and> job_lease_epoch j = job_lease_epoch leased \<and> job_seen w wk j db \<and>
       (\<forall>sid. st = READY_TO_COMMIT \<longrightarrow> c = Some sid \<longrightarrow> ready_with w j sid db)) unrejected"
  unfolding transition_to_def
proof (rule runs_call[OF fair P(1)])
  fix f clock db r db'
  let ?env = "(wd_env w)\<lparr>env_fault := f\<rparr>"
  assume p: "P db" and run: "transition_job ?env (job_id leased) (wk_id wk) (job_lease_epoch leased) st (clock 0) c db = (r, db')"
  note st = step_transition[OF run]
  have re: "reaches (wd_env w) db db'" by (rule step_reaches[OF st])
  have ok: "db_ok ?env db" using P(2)[OF p] by simp
  have "P db'" using P(1) p re by (auto simp: stable_def)
  show "reaches (wd_env w) db db' \<and> (case r of Inl e \<Rightarrow> unrejected (Repository e)
      | Inr j \<Rightarrow> P db' \<and> job_id j = job_id leased \<and> job_lease_epoch j = job_lease_epoch leased \<and> job_seen w wk j db' \<and>
       (\<forall>sid. st = READY_TO_COMMIT \<longrightarrow> c = Some sid \<longrightarrow> ready_with w j sid db'))"
  proof (cases r)
    case (Inl e)
    with run re show ?thesis by (auto simp: not_rejected)
  next
    case (Inr j)
    from run ok obtain row k where row: "find_job db' (job_id leased) = Some row" "j = job_envelope k row"
      "jr_epoch row = job_lease_epoch leased" "jr_state row = st" "jr_candidate row = c" and ok': "db_ok ?env db'"
      unfolding Inr by (rule transition_job_eq_Inr)
    have ids: "job_id j = job_id leased" "job_lease_epoch j = job_lease_epoch leased" "job_target_hwm j = jr_target row"
      using row find_jobD[OF row(1)] by (simp_all add: job_envelope_fields)
    have "intact w db'" using ok' by simp
    then have "job_seen w wk j db'" "\<And>sid. st = READY_TO_COMMIT \<Longrightarrow> c = Some sid \<Longrightarrow> ready_with w j sid db'"
      unfolding job_seen_def ready_with_def using row ids by (auto intro!: earlierI)
    with ids \<open>P db'\<close> re Inr show ?thesis by auto
  qed
qed

lemma runs_view:
  assumes fair: "fair_world w" and j: "job_id j = job_id leased" "job_lease_epoch j = job_lease_epoch leased"
  shows "runs w (\<lambda>db. intact w db \<and> job_seen w wk j db)
    (act_read w (\<lambda>env clock db. read_compaction_view env db (job_id j) (wk_id wk) (job_lease_epoch j) (clock 0)))
    (\<lambda>v db. intact w db \<and> rv_high_water_mark v = job_target_hwm j \<and>
       earlier w (\<lambda>db. \<exists>now. read_compaction_view (wd_env w) db (job_id j) (wk_id wk) (job_lease_epoch j) now = Inr v) db)
    unrejected"
proof (rule runs_read[OF fair stable_conj[OF stable_db_ok stable_stages(1)]])
  fix f clock db v
  assume p: "intact w db \<and> job_seen w wk j db"
    and "read_compaction_view ((wd_env w)\<lparr>env_fault := f\<rparr>) db (job_id j) (wk_id wk) (job_lease_epoch j) (clock 0) = Inr v"
  then have v: "read_compaction_view (wd_env w) db (job_id j) (wk_id wk) (job_lease_epoch j) (clock 0) = Inr v" by simp
  from p obtain db0 r0 where r0: "db_ok (wd_env w) db0" "reaches (wd_env w) db0 db" "find_job db0 (job_id j) = Some r0"
    "jr_epoch r0 = job_lease_epoch j" "jr_target r0 = job_target_hwm j" by (auto simp: job_seen_def earlier_def)
  from v obtain r t jj where r: "find_job db (job_id j) = Some r" "fence_live r (wk_id wk) (job_lease_epoch j) t"
    "job_by_id (wd_env w) db (job_id j) = Inr jj" "rv_high_water_mark v = job_target_hwm jj"
    by (rule read_compaction_view_facts)
  have "job_evolves r0 r" using reaches_keeps[OF r0(2,1)] extends_job r0(3) r(1) by blast
  then have t: "jr_target r = job_target_hwm j"
    using r(2) r0(4,5) by (simp add: job_evolves_def lease_kept_def fence_live_def)
  from p r(1) obtain k where "job_by_id (wd_env w) db (job_id j) = Inr (job_envelope k r)" by (auto elim: job_by_id_find)
  with r(3) have "jj = job_envelope k r" by simp
  with r(4) t have "rv_high_water_mark v = job_target_hwm j" by (simp add: job_envelope_fields)
  with p v show "intact w db \<and> rv_high_water_mark v = job_target_hwm j \<and>
       earlier w (\<lambda>db. \<exists>now. read_compaction_view (wd_env w) db (job_id j) (wk_id wk) (job_lease_epoch j) now = Inr v) db"
    by (auto intro!: earlierI)
qed (auto simp: not_rejected)

lemma compile_error_unrejected: "map_error Pipeline r = Inl e \<Longrightarrow> unrejected e"
  by (auto simp: map_error_def split: sum.splits)

text \<open>What compiling leaves behind.\<close>

definition compiled_state :: "world \<Rightarrow> worker \<Rightarrow> job \<Rightarrow> job \<Rightarrow> compilation_candidate \<Rightarrow> db \<Rightarrow> bool" where
  "compiled_state w wk leased j cand db \<longleftrightarrow> intact w db \<and> job_id j = job_id leased \<and>
     job_lease_epoch j = job_lease_epoch leased \<and> compiled_from w wk j cand db"

lemma stable_compiled_state: "stable w (compiled_state w wk leased j cand)"
  unfolding compiled_state_def by (intro stable_conj stable_db_ok stable_const stable_stages)

lemma runs_compile_view:
  assumes fair: "fair_world w" and j: "job_id j = job_id leased" "job_lease_epoch j = job_lease_epoch leased"
  shows "runs w (\<lambda>db. intact w db \<and> rv_high_water_mark v = job_target_hwm j \<and>
       earlier w (\<lambda>db. \<exists>now. read_compaction_view (wd_env w) db (job_id j) (wk_id wk) (job_lease_epoch j) now = Inr v) db)
    (act_bind (act_read w (\<lambda>env clock db.
       bind (read_event_token_counts env db (rv_session_key v) (map ev_id (rv_delta v)) (wk_profile wk)) (\<lambda>counts.
       Inr (counts, clock 0)))) (\<lambda>(counts, now).
     act_bind (act_lift (guard (set (map fst counts) = set (map ev_id (rv_delta v)))
       (Pipeline (CompilerBackendDeferred ''TOKEN_METRIC_MISSING'')))) (\<lambda>_.
     act_bind (act_lift (map_error Pipeline (compile_candidate (wd_env w) (wk_loads wk) (wk_dump wk) (wk_backend wk)
       (wk_counter wk) (compiler_input_of wk v counts (job_target_hwm j) binding now)))) (\<lambda>candidate.
     act_return (j, candidate)))))
    (\<lambda>(j', cand) db. compiled_state w wk leased j' cand db) unrejected"
    (is "runs w ?P _ _ _")
proof -
  have st: "stable w ?P" by (intro stable_conj stable_db_ok stable_const stable_earlier)
  have read: "runs w ?P (act_read w (\<lambda>env clock db.
       bind (read_event_token_counts env db (rv_session_key v) (map ev_id (rv_delta v)) (wk_profile wk)) (\<lambda>counts.
       Inr (counts, clock 0)))) (\<lambda>_. ?P) unrejected"
    by (rule runs_read[OF fair st]) (auto simp: not_rejected bind_eq_Inl)
  have guarded: "runs w ?P (act_lift (guard c (Pipeline p))) (\<lambda>_. ?P) unrejected" for c p
    by (rule runs_weaken[OF runs_lift[where P = ?P and E = unrejected]]) (auto simp: guard_eq_Inl)
  let ?ci = "\<lambda>counts now. compiler_input_of wk v counts (job_target_hwm j) binding now"
  let ?c = "\<lambda>counts now. compile_candidate (wd_env w) (wk_loads wk) (wk_dump wk) (wk_backend wk) (wk_counter wk) (?ci counts now)"
  have ret: "runs w (\<lambda>db. map_error Pipeline (?c counts now) = Inr cand \<and> ?P db) (act_return (j, cand))
      (\<lambda>(j', cand) db. compiled_state w wk leased j' cand db) unrejected" for cand counts now
  proof (rule runs_weaken[OF runs_return], assumption)
    fix x db
    assume a: "x = (j, cand) \<and> map_error Pipeline (?c counts now) = Inr cand \<and> ?P db"
    have ci: "compiles_view v (?ci counts now)" "ci_token_ceiling (?ci counts now) = wc_token_ceiling (wk_config wk)"
      using a by (simp_all add: compiles_view_def compiler_input_of_def)
    from a have "?c counts now = Inr cand" by (simp add: map_error_eq_Inr)
    with a ci have "compiled_from w wk j cand db" unfolding compiled_from_def earlier_def by blast
    with a j show "(case x of (j', cand) \<Rightarrow> \<lambda>db. compiled_state w wk leased j' cand db) db" by (simp add: compiled_state_def)
  qed simp
  have comp: "runs w ?P (act_bind (act_lift (map_error Pipeline (?c counts now))) (\<lambda>candidate. act_return (j, candidate)))
      (\<lambda>(j', cand) db. compiled_state w wk leased j' cand db) unrejected" for counts now
    by (rule runs_bind[OF runs_lift ret]) (rule compile_error_unrejected)
  show ?thesis
    by (rule runs_bind[OF read]) (auto intro: runs_bind[OF guarded] comp split: prod.splits)
qed

lemma runs_compile_stage:
  assumes fair: "fair_world w"
  shows "runs w (intact w) (compile_stage wk w leased binding) (\<lambda>(j, cand) db. compiled_state w wk leased j cand db) unrejected"
proof -
  let ?seen = "\<lambda>j db. intact w db \<and> job_id j = job_id leased \<and> job_lease_epoch j = job_lease_epoch leased \<and> job_seen w wk j db"
  have tr: "runs w (intact w) (transition_to wk w leased COMPILING None) ?seen unrejected"
    by (rule runs_weaken[OF runs_transition[OF fair stable_db_ok]]) auto
  have rest: "runs w (?seen j) (act_bind (act_read w (\<lambda>env clock db.
       read_compaction_view env db (job_id j) (wk_id wk) (job_lease_epoch j) (clock 0))) (\<lambda>v.
     act_bind (act_read w (\<lambda>env clock db.
       bind (read_event_token_counts env db (rv_session_key v) (map ev_id (rv_delta v)) (wk_profile wk)) (\<lambda>counts.
       Inr (counts, clock 0)))) (\<lambda>(counts, now).
     act_bind (act_lift (guard (set (map fst counts) = set (map ev_id (rv_delta v)))
       (Pipeline (CompilerBackendDeferred ''TOKEN_METRIC_MISSING'')))) (\<lambda>_.
     act_bind (act_lift (map_error Pipeline (compile_candidate (wd_env w) (wk_loads wk) (wk_dump wk) (wk_backend wk)
       (wk_counter wk) (compiler_input_of wk v counts (job_target_hwm j) binding now)))) (\<lambda>candidate.
     act_return (j, candidate)))))) (\<lambda>(j, cand) db. compiled_state w wk leased j cand db) unrejected" for j
  proof (cases "job_id j = job_id leased \<and> job_lease_epoch j = job_lease_epoch leased")
    case True
    show ?thesis
      by (rule runs_weaken[OF runs_bind[OF runs_view runs_compile_view]]) (use fair True in auto)
  next
    case False
    then show ?thesis by (auto simp: runs_def)
  qed
  show ?thesis unfolding compile_stage_def
    by (rule runs_bind[OF runs_backfill[OF fair] runs_bind[OF tr rest]])
qed

definition audited_state :: "world \<Rightarrow> worker \<Rightarrow> job \<Rightarrow> job \<Rightarrow> audited_candidate \<Rightarrow> db \<Rightarrow> bool" where
  "audited_state w wk leased j aud db \<longleftrightarrow>
     (\<exists>cand. compiled_state w wk leased j cand db \<and>
        audit_semantic cand (wc_strict_audit (wk_config wk)) (wk_auditor wk) = Inr aud)"

lemma stable_audited_state: "stable w (audited_state w wk leased j aud)"
  using stable_compiled_state unfolding stable_def audited_state_def by blast

lemma compiled_state_intact: "compiled_state w wk leased j cand db \<Longrightarrow> intact w db"
  by (simp add: compiled_state_def)

lemma runs_audit_stage:
  assumes fair: "fair_world w"
  shows "runs w (compiled_state w wk leased j cand) (audit_stage wk w j cand) (audited_state w wk leased j) unrejected"
proof -
  let ?P = "compiled_state w wk leased j cand"
  let ?audit = "map_error Pipeline (audit_semantic cand (wc_strict_audit (wk_config wk)) (wk_auditor wk))"
  have tr: "runs w ?P (transition_to wk w j AUDITING None) (\<lambda>_. ?P) unrejected"
    by (rule runs_weaken[OF runs_transition[OF fair stable_compiled_state]]) (auto intro: compiled_state_intact)
  have ret: "runs w ?P (act_return ()) (\<lambda>_. ?P) unrejected" by (rule runs_weaken[OF runs_return]) auto
  have first: "runs w ?P (if wc_strict_audit (wk_config wk)
      then act_bind (transition_to wk w j AUDITING None) (\<lambda>_. act_return ()) else act_return ()) (\<lambda>_. ?P) unrejected"
    using runs_bind[OF tr ret] ret by simp
  have "runs w ?P (act_lift ?audit) (audited_state w wk leased j) unrejected"
    by (rule runs_weaken[OF runs_lift[where P = ?P and E = unrejected]])
       (auto simp: audited_state_def map_error_eq_Inr intro: compile_error_unrejected)
  from runs_bind[OF first this] show ?thesis unfolding audit_stage_def .
qed

text \<open>What the verifying stage lets through.\<close>

definition measured :: "worker \<Rightarrow> audited_candidate \<Rightarrow> token_metric list \<Rightarrow> bool" where
  "measured wk aud ms \<longleftrightarrow>
     verify_candidate (wk_fl wk) (wk_loads wk) aud (default_graph_config (wk_fl wk)) (wk_engine wk) \<noteq> None \<and>
     candidate_canonical_metrics wk aud = Inr ms"

lemma runs_verify_stage:
  "runs w (audited_state w wk leased j aud) (verify_stage wk aud)
    (\<lambda>ms db. audited_state w wk leased j aud db \<and> measured wk aud ms) unrejected"
proof -
  let ?P = "audited_state w wk leased j aud"
  let ?ok = "verify_candidate (wk_fl wk) (wk_loads wk) aud (default_graph_config (wk_fl wk)) (wk_engine wk) \<noteq> None"
  have "runs w ?P (act_lift (guard ?ok CandidateVerificationError)) (\<lambda>_ db. ?P db \<and> ?ok) unrejected"
    by (rule runs_weaken[OF runs_lift[where P = ?P and E = unrejected]]) (auto simp: guard_eq_Inl guard_eq_Inr)
  moreover have "runs w (\<lambda>db. ?P db \<and> ?ok) (act_lift (candidate_canonical_metrics wk aud))
      (\<lambda>ms db. ?P db \<and> measured wk aud ms) unrejected"
    unfolding measured_def
    by (rule runs_weaken[OF runs_lift[where P = "\<lambda>db. ?P db \<and> ?ok" and E = unrejected]])
       (auto simp: candidate_canonical_metrics_def bind_eq_Inl
         dest: canonical_metric_unrejected traverse_unrejected[OF _ canonical_metric_unrejected])
  ultimately show ?thesis unfolding verify_stage_def by (rule runs_bind)
qed

section \<open>Publication\<close>

text \<open>The hypothesis on the backend: its output is made of capsules that pydantic accepted.\<close>

definition typed_backend :: "compiler_backend \<Rightarrow> bool" where
  "typed_backend b \<longleftrightarrow> (\<forall>req out. b req = Output out \<longrightarrow> (\<forall>c \<in> set (co_capsules out). valid_capsule c))"

lemma compiled_capsules:
  assumes "compile_candidate env loads dump backend counter ci = Inr cand" "typed_backend backend"
  shows "\<forall>m \<in> set (cc_memberships cand). valid_capsule (mem_capsule m)"
    "distinct (map mem_capsule_id (cc_memberships cand))"
proof -
  from assms(1) obtain k segments and out :: compiler_output and cost where
    o: "segment loads (ci_source_events ci) (ci_counts ci) (ci_segmenter ci) (ci_preferred ci) = Inr segments"
      "backend (request_of ci segments) = Output out"
    and snap: "cc_snapshot cand = candidate_snapshot_of (build_snapshot_id env dump k (map_option snap_id (ci_base_snapshot ci))
        (ci_target ci) (co_capsules out) (active_anchor_ids (co_capsules out)) (co_rendered out) cost)
       k (map_option snap_id (ci_base_snapshot ci)) (ci_target ci) (co_capsules out) (co_rendered out) cost
       (instant (ci_now ci))"
    and v: "valid_snapshot (cc_snapshot cand)" and ms: "cc_memberships cand = memory_memberships (co_capsules out)"
    by (rule compile_candidate_eq_Inr)
  have caps: "map mem_capsule (cc_memberships cand) = co_capsules out" by (simp add: ms memory_memberships_facts(1))
  have "set (co_capsules out) = mem_capsule ` set (cc_memberships cand)" unfolding caps[symmetric] by simp
  with o(2) assms(2) show "\<forall>m \<in> set (cc_memberships cand). valid_capsule (mem_capsule m)" by (auto simp: typed_backend_def)
  have "map mem_capsule_id (cc_memberships cand) = map cap_id (co_capsules out)" unfolding caps[symmetric] by simp
  with v snap show "distinct (map mem_capsule_id (cc_memberships cand))"
    by (simp add: valid_snapshot_def candidate_snapshot_of_def)
qed

lemma audited_publication:
  assumes aud: "audited_state w wk leased j aud db" and b: "typed_backend (wk_backend wk)"
    and ms: "candidate_canonical_metrics wk aud = Inr ms"
  shows "valid_publication (publication_of wk aud ms)"
    "validate_candidate_metrics (ac_snapshot aud) (ac_memberships aud) ms = Inr ()"
proof -
  from aud obtain cand ci where
    c: "compile_candidate (wd_env w) (wk_loads wk) (wk_dump wk) (wk_backend wk) (wk_counter wk) ci = Inr cand"
    and a: "audit_semantic cand (wc_strict_audit (wk_config wk)) (wk_auditor wk) = Inr aud"
    by (auto simp: audited_state_def compiled_state_def compiled_from_def earlier_def)
  note f = compiled_capsules[OF c b, folded audit_semantic_eq_Inr(1)[OF a]]
  from f(1) show "valid_publication (publication_of wk aud ms)" by (simp add: valid_publication_def publication_of_def)
  from candidate_metrics_valid[OF ms f(2)]
  show "validate_candidate_metrics (ac_snapshot aud) (ac_memberships aud) ms = Inr ()" .
qed

lemma ready_not_rejected:
  assumes aud: "audited_state w wk leased j aud db" and b: "typed_backend (wk_backend wk)"
    and ms: "candidate_canonical_metrics wk aud = Inr ms"
    and ready: "ready_with w j (snap_id (ac_snapshot aud)) db"
  shows "publish_checks (wd_env w) (job_id j) (wk_id wk) (job_lease_epoch j) t (publication_of wk aud ms) db \<noteq>
    Inl (PublicationRejected rep)"
proof (cases "\<exists>r. find_job db (job_id j) = Some r \<and> fence_live r (wk_id wk) (job_lease_epoch j) t")
  case False
  then have "require_live_fence db (job_id j) (wk_id wk) (job_lease_epoch j) t = Inl StaleLeaseError"
    by (auto simp: require_live_fence_eq_Inl)
  then show ?thesis by (simp add: publish_checks_def)
next
  case True
  then obtain r where r: "find_job db (job_id j) = Some r" "fence_live r (wk_id wk) (job_lease_epoch j) t" by blast
  from ready obtain db0 r0 where r0: "db_ok (wd_env w) db0" "reaches (wd_env w) db0 db" "find_job db0 (job_id j) = Some r0"
    "jr_epoch r0 = job_lease_epoch j" "jr_state r0 = READY_TO_COMMIT" "jr_candidate r0 = Some (snap_id (ac_snapshot aud))"
    by (auto simp: ready_with_def earlier_def)
  have "job_evolves r0 r" using reaches_keeps[OF r0(2,1)] extends_job r0(3) r(1) by blast
  then have st: "jr_state r = READY_TO_COMMIT" "jr_candidate r = Some (snap_id (ac_snapshot aud))"
    using r(2) r0(4-6) by (simp_all add: job_evolves_def lease_kept_def fence_live_def)
  from aud obtain cand db1 now v ci where
    a: "audit_semantic cand (wc_strict_audit (wk_config wk)) (wk_auditor wk) = Inr aud"
    and d: "db_ok (wd_env w) db1" "reaches (wd_env w) db1 db"
    and v: "read_compaction_view (wd_env w) db1 (job_id j) (wk_id wk) (job_lease_epoch j) now = Inr v" "compiles_view v ci"
    and c: "ci_token_ceiling ci = wc_token_ceiling (wk_config wk)"
      "compile_candidate (wd_env w) (wk_loads wk) (wk_dump wk) (wk_backend wk) (wk_counter wk) ci = Inr cand"
    by (auto simp: audited_state_def compiled_state_def compiled_from_def earlier_def)
  have "\<exists>j'. job_by_id (wd_env w) db (job_id j) = Inr j' \<and>
    publish_checks (wd_env w) (job_id j) (wk_id wk) (job_lease_epoch j) t (publication_of wk aud ms) db =
      Inr (j', committed_form (ac_snapshot aud) t, [])"
    by (rule compiled_candidate_publishes[OF d v c(2) a r st])
       (use audited_publication(2)[OF aud b ms] c(1) in \<open>auto simp: publication_of_def\<close>)
  then show ?thesis by auto
qed

text \<open>
  What a publication that returned has done: the given snapshot with its capsules is what the
  session reads now and the job is committed, or nothing but the job table changed and the job
  is superseded.
\<close>

definition publication_settled ::
  "env \<Rightarrow> string \<Rightarrow> snapshot \<Rightarrow> membership list \<Rightarrow> publish_result \<Rightarrow> db \<Rightarrow> db \<Rightarrow> bool" where
  "publication_settled env i s ms res db db' \<longleftrightarrow>
     (if res_outcome res = OUTCOME_COMMITTED
      then (\<exists>t. res_winner res = committed_form s t) \<and>
        active_snapshot_bundle env db' (snap_session_key s) = Inr (res_winner res, res_pointer_version res, ms) \<and>
        (\<exists>r. find_job db' i = Some r \<and> jr_state r = COMMITTED)
      else (\<exists>rows. db' = db\<lparr>db_jobs := rows\<rparr>) \<and> (\<exists>r. find_job db' i = Some r \<and> jr_state r = SUPERSEDED))"

lemma fault_frame_active [simp]: "active_snapshot_bundle (env\<lparr>env_fault := f\<rparr>) db k = active_snapshot_bundle env db k"
  by (simp add: active_snapshot_bundle_def)

lemma publish_settles:
  assumes ok: "db_ok env db" and valid: "valid_publication pub"
    and run: "publish_snapshot (env\<lparr>env_fault := f\<rparr>) i owner epoch now pub db = (Inr res, db')"
  shows "publication_settled env i (pub_snapshot pub) (pub_memberships pub) res db db'"
proof -
  let ?env = "env\<lparr>env_fault := f\<rparr>"
  have ok': "db_ok ?env db" using ok by simp
  from run have body: "publish_snapshot_body ?env i owner epoch now pub db = Inr (res, db')"
    by (simp add: publish_snapshot_def transaction_eq_Inr)
  obtain t where t: "now = Aware t"
    using publish_snapshot_body_cases[OF ok' body valid[unfolded valid_publication_def]] by metis
  show ?thesis
  proof (cases "res_outcome res = OUTCOME_COMMITTED")
    case True
    from publish_commit_facts[OF ok' valid run[unfolded t] True refl] True show ?thesis
      by (auto simp: publication_settled_def)
  next
    case False
    then have "res_outcome res = OUTCOME_SUPERSEDED" by (cases "res_outcome res") simp_all
    from publish_conflict_facts[OF ok' valid run[unfolded t] this] False show ?thesis
      by (auto simp: publication_settled_def)
  qed
qed

text \<open>
  The publication an attempt ends with: of a verified candidate, compiled and audited under the
  lease, in a database of the execution.
\<close>

definition published_from :: "world \<Rightarrow> worker \<Rightarrow> job \<Rightarrow> publish_result \<Rightarrow> db \<Rightarrow> bool" where
  "published_from w wk leased res db' \<longleftrightarrow>
     (\<exists>aud ms db1 f now. audited_state w wk leased leased aud db1 \<and> measured wk aud ms \<and>
        publish_snapshot ((wd_env w)\<lparr>env_fault := f\<rparr>) (job_id leased) (wk_id wk) (job_lease_epoch leased) now
          (publication_of wk aud ms) db1 = (Inr res, db'))"

lemma audited_state_same:
  assumes "audited_state w wk leased j aud db"
  shows "job_id j = job_id leased" "job_lease_epoch j = job_lease_epoch leased"
    "job_id j' = job_id j \<Longrightarrow> job_lease_epoch j' = job_lease_epoch j \<Longrightarrow> audited_state w wk leased j' aud db"
  using assms by (auto simp: audited_state_def compiled_state_def compiled_from_def)

lemma runs_publish_stage:
  assumes fair: "fair_world w" and b: "typed_backend (wk_backend wk)" and measured: "measured wk aud ms"
  shows "runs w (\<lambda>db. audited_state w wk leased j aud db \<and> ready_with w j (snap_id (ac_snapshot aud)) db)
    (publish_stage wk w j aud ms) (\<lambda>res db. intact w db \<and> published_from w wk leased res db) unrejected"
  unfolding publish_stage_def
proof (rule runs_call[OF fair stable_conj[OF stable_audited_state stable_stages(3)]])
  fix f clock db r db'
  assume p: "audited_state w wk leased j aud db \<and> ready_with w j (snap_id (ac_snapshot aud)) db"
    and run: "publish_snapshot ((wd_env w)\<lparr>env_fault := f\<rparr>) (job_id j) (wk_id wk) (job_lease_epoch j) (clock 0)
      (publication_of wk aud ms) db = (r, db')"
  from p have aud: "audited_state w wk leased j aud db" and ok: "intact w db"
    by (auto simp: audited_state_def compiled_state_def)
  have ms: "candidate_canonical_metrics wk aud = Inr ms" using measured by (simp add: measured_def)
  note same = audited_state_same[OF aud]
  have from_: "published_from w wk leased res db'" if "r = Inr res" for res
    unfolding published_from_def
    by (intro exI[of _ aud] exI[of _ ms] exI[of _ db] exI[of _ f] exI[of _ "clock 0"])
       (use run same(1,2) same(3)[of leased] that measured in simp)
  note st = step_publish[OF run audited_publication(1)[OF aud b ms]]
  have "r \<noteq> Inl (PublicationRejected rep)" for rep
  proof
    assume "r = Inl (PublicationRejected rep)"
    with publish_rejected_checks run obtain t where
      "publish_checks ((wd_env w)\<lparr>env_fault := f\<rparr>) (job_id j) (wk_id wk) (job_lease_epoch j) t (publication_of wk aud ms) db =
        Inl (PublicationRejected rep)" by blast
    with ready_not_rejected[OF aud b ms] p show False by simp
  qed
  with step_keeps[OF st ok] step_reaches[OF st] from_
  show "reaches (wd_env w) db db' \<and> (case r of Inl e \<Rightarrow> unrejected (Repository e)
      | Inr x \<Rightarrow> intact w db' \<and> published_from w wk leased x db')"
    by (auto split: sum.splits)
qed

lemma runs_attempt:
  assumes fair: "fair_world w" and b: "typed_backend (wk_backend wk)"
  shows "runs w (intact w) (compaction_attempt wk w leased)
    (\<lambda>res db. intact w db \<and> published_from w wk leased res db) (\<lambda>(st, e). unrejected e)"
proof -
  let ?E = "\<lambda>(st, e). unrejected e" and ?sid = "\<lambda>aud. Some (snap_id (ac_snapshot aud))"
  let ?done = "\<lambda>res db. intact w db \<and> published_from w wk leased res db"
  have bind: "runs w (intact w) (at_stage ''LEASED'' (act_lift (resolve_binding wk k))) (\<lambda>_. intact w) ?E" for k
    by (rule runs_at_stage, rule runs_weaken[OF runs_lift[where P = "intact w" and E = unrejected]])
       (auto simp: resolve_binding_def split: option.splits binding_outcome.splits if_splits)
  have publish: "runs w (\<lambda>db. audited_state w wk leased j aud db \<and> measured wk aud ms)
      (act_bind (at_stage ''READY_TO_COMMIT'' (transition_to wk w j READY_TO_COMMIT (?sid aud)))
        (\<lambda>ready. at_stage ''PUBLISHING'' (publish_stage wk w ready aud ms))) ?done ?E" for j aud ms
  proof (cases "measured wk aud ms")
    case ms: True
    let ?P = "audited_state w wk leased j aud"
    have in_tact: "?P db \<Longrightarrow> intact w db" for db by (auto simp: audited_state_def compiled_state_def)
    have tr: "runs w ?P (transition_to wk w j READY_TO_COMMIT (?sid aud))
      (\<lambda>j' db. audited_state w wk leased j' aud db \<and> ready_with w j' (snap_id (ac_snapshot aud)) db) unrejected"
      by (rule runs_weaken[OF runs_transition[OF fair stable_audited_state in_tact]]) (auto intro: audited_state_same(3))
    have "runs w ?P (act_bind (at_stage ''READY_TO_COMMIT'' (transition_to wk w j READY_TO_COMMIT (?sid aud)))
        (\<lambda>ready. at_stage ''PUBLISHING'' (publish_stage wk w ready aud ms))) ?done ?E"
    proof (rule runs_bind)
      show "runs w ?P (at_stage ''READY_TO_COMMIT'' (transition_to wk w j READY_TO_COMMIT (?sid aud)))
        (\<lambda>j' db. audited_state w wk leased j' aud db \<and> ready_with w j' (snap_id (ac_snapshot aud)) db) ?E"
        by (rule runs_at_stage) (simp add: tr)
      show "runs w (\<lambda>db. audited_state w wk leased ready aud db \<and> ready_with w ready (snap_id (ac_snapshot aud)) db)
        (at_stage ''PUBLISHING'' (publish_stage wk w ready aud ms)) ?done ?E" for ready
        by (rule runs_at_stage) (simp add: runs_publish_stage[OF fair b ms])
    qed
    then show ?thesis by (rule runs_weaken) auto
  next
    case False
    then show ?thesis by (simp add: runs_def)
  qed
  have audit: "runs w (compiled_state w wk leased j cand) (act_bind
      (at_stage (if wc_strict_audit (wk_config wk) then ''AUDITING'' else ''COMPILING'') (audit_stage wk w j cand)) (\<lambda>aud.
      act_bind (at_stage ''VERIFYING'' (verify_stage wk aud)) (\<lambda>ms.
      act_bind (at_stage ''READY_TO_COMMIT'' (transition_to wk w j READY_TO_COMMIT (?sid aud)))
        (\<lambda>ready. at_stage ''PUBLISHING'' (publish_stage wk w ready aud ms))))) ?done ?E" for j cand
  proof (rule runs_bind[OF _ runs_bind[OF _ publish]])
    show "runs w (compiled_state w wk leased j cand)
        (at_stage (if wc_strict_audit (wk_config wk) then ''AUDITING'' else ''COMPILING'') (audit_stage wk w j cand))
        (audited_state w wk leased j) ?E"
      by (rule runs_at_stage) (simp add: runs_audit_stage[OF fair])
    show "runs w (audited_state w wk leased j aud) (at_stage ''VERIFYING'' (verify_stage wk aud))
        (\<lambda>ms db. audited_state w wk leased j aud db \<and> measured wk aud ms) ?E" for aud
      by (rule runs_at_stage) (simp add: runs_verify_stage)
  qed
  have compile: "runs w (intact w) (at_stage ''COMPILING'' (compile_stage wk w leased binding))
      (\<lambda>(j, cand) db. compiled_state w wk leased j cand db) ?E" for binding
    by (rule runs_at_stage) (simp add: runs_compile_stage[OF fair])
  show ?thesis unfolding compaction_attempt_def
    by (rule runs_bind[OF bind runs_bind[OF compile]], unfold split_paired_all prod.case, rule audit)
qed

section \<open>A whole pass\<close>

lemma runs_fail_job:
  assumes fair: "fair_world w"
  shows "runs w (intact w) (worker_fail_job wk w leased k f) (\<lambda>_. intact w) (\<lambda>_. True)"
proof -
  let ?op = "\<lambda>env clock. fail_job env (job_id leased) (wk_id wk) (job_lease_epoch leased) (clock k) (f clock)"
  have call: "runs w (intact w) (act_call w ?op) (\<lambda>_. intact w) (\<lambda>_. True)"
  proof (rule runs_call[OF fair stable_db_ok])
    fix g clock db r db'
    assume ok: "intact w db" and run: "?op ((wd_env w)\<lparr>env_fault := g\<rparr>) clock db = (r, db')"
    note st = step_fail[OF run]
    from step_keeps[OF st ok] step_reaches[OF st]
    show "reaches (wd_env w) db db' \<and> (case r of Inl e \<Rightarrow> True | Inr x \<Rightarrow> intact w db')" by (auto split: sum.splits)
  qed
  show ?thesis unfolding runs_def
  proof (intro allI impI)
    fix db n r db' n' assume ok: "intact w db" and run: "worker_fail_job wk w leased k f (db, n) = (r, (db', n'))"
    obtain r1 where r1: "act_call w ?op (db, n) = (r1, (db', n'))"
      using run by (auto simp: worker_fail_job_def split: prod.splits sum.splits)
    have re: "reaches (wd_env w) db db'" using runsD(1)[OF call ok r1] by simp
    with reaches_keeps[OF re ok] show "reaches (wd_env w) db db' \<and> (case r of Inl e \<Rightarrow> True | Inr x \<Rightarrow> intact w db')"
      by (auto split: sum.splits)
  qed
qed

lemma runs_handle_error:
  assumes "fair_world w"
  shows "runs w (intact w) (handle_error wk w leased st e) (\<lambda>_. intact w) (\<lambda>_. True)"
proof -
  have l: "runs w (intact w) (act_lift (Inl e')) (\<lambda>_. intact w) (\<lambda>_. True)" for e'
    by (rule runs_weaken[OF runs_lift[where E = "\<lambda>_. True"]]) auto
  have r: "runs w (intact w) (act_return ()) (\<lambda>_. intact w) (\<lambda>_. True)" by (rule runs_weaken[OF runs_return]) auto
  note fj = runs_fail_job[OF assms]
  show ?thesis unfolding handle_error_def persist_failure_def persist_deferred_def
    by (auto intro: fj l r split: worker_error.splits repo_error.splits pipeline_error.splits)
qed

lemma handle_error_raises:
  assumes "handle_error wk w leased st e s = (Inl e', s')"
  shows "\<exists>x. e' = Repository x"
proof -
  have fj: "\<exists>x. e' = Repository x" if "worker_fail_job wk w leased k f s = (Inl e', s')" for k f
    using that by (auto simp: worker_fail_job_def act_call_def map_error_def split: prod.splits sum.splits if_splits)
  show ?thesis using assms unfolding handle_error_def persist_failure_def persist_deferred_def
    by (auto simp: act_lift_def act_return_def dest: fj split: worker_error.splits repo_error.splits pipeline_error.splits)
qed

lemma worker_claim_returns:
  assumes fair: "fair_world w" and ok: "intact w db" and run: "worker_claim_job wk w (db, n) = (r, s')"
  shows "reaches (wd_env w) db (fst s')" "r \<noteq> Inl Claim_Diverges"
proof -
  let ?db = "wd_others w n db" and ?env = "call_env w n"
  have o: "reaches (wd_env w) db ?db" using fair by (simp add: fair_world_def)
  with reaches_keeps ok have ok': "db_ok ?env ?db" by (auto simp: call_env_def)
  then obtain q db' where c: "claim_job ?env (wk_id wk) (wd_clock w n 0)
      (shift (wd_clock w n 0) (lease_horizon (wk_config wk))) ?db = Some (q, db')"
    using claim.returns by fastforce
  from step_reaches[OF step_claim[OF c[unfolded call_env_def]]] o have "reaches (wd_env w) db db'" by (blast intro: reaches_trans)
  with run c show "reaches (wd_env w) db (fst s')" "r \<noteq> Inl Claim_Diverges"
    by (auto simp: worker_claim_job_def map_error_def split: sum.splits)
qed

lemma run_iteration_reaches:
  assumes fair: "fair_world w" and b: "typed_backend (wk_backend wk)" and ok: "intact w db"
    and run: "run_iteration wk w (db, n) = (res, s')"
  shows "reaches (wd_env w) db (fst s') \<and> res \<noteq> Raised Claim_Diverges"
proof -
  obtain c db1 n1 where c: "worker_claim_job wk w (db, n) = (c, (db1, n1))" by (metis surj_pair)
  from worker_claim_returns[OF fair ok c] have re1: "reaches (wd_env w) db db1" and nd: "c \<noteq> Inl Claim_Diverges" by auto
  have ok1: "intact w db1" using reaches_keeps[OF re1 ok] by simp
  show ?thesis
  proof (cases "\<exists>leased. c = Inr (Some leased)")
    case False
    with run c re1 nd show ?thesis
      by (auto simp: run_iteration_def split: sum.splits option.splits)
  next
    case True
    then obtain leased where leased: "c = Inr (Some leased)" by blast
    obtain a db2 n2 where a: "compaction_attempt wk w leased (db1, n1) = (a, (db2, n2))" by (metis surj_pair)
    have re2: "reaches (wd_env w) db db2" using runsD(1)[OF runs_attempt[OF fair b] ok1 a] re1 by (auto intro: reaches_trans)
    have ok2: "intact w db2" using reaches_keeps[OF re2 ok] by simp
    show ?thesis
    proof (cases a)
      case (Inr x)
      with run c leased a re2 show ?thesis
        by (auto simp: run_iteration_def finish_heartbeat_def split: option.splits)
    next
      case (Inl se)
      obtain st e where se: "se = (st, e)" by fastforce
      obtain h s3 where h: "handle_error wk w leased st e (db2, n2) = (h, s3)" by (metis surj_pair)
      have re3: "reaches (wd_env w) db (fst s3)"
        using runsD(1)[OF runs_handle_error[OF fair] ok2 h] re2 by (rule reaches_trans[rotated])
      have "h \<noteq> Inl Claim_Diverges" using handle_error_raises h by (cases h) fastforce+
      with run c leased a Inl se h re3 show ?thesis
        by (auto simp: run_iteration_def finish_heartbeat_def split: option.splits sum.splits)
    qed
  qed
qed

end
