(* ===== verification/Worker_Failures.thy ===== *)
theory Worker_Failures
  imports Worker_Laws
begin

text \<open>
  What a worker leaves behind: whole passes as sequences of repository transactions, a failed
  attempt persisted with its bounded back-off, and the deferral the repository refuses.
\<close>

section \<open>Passes\<close>


text \<open>
  C22. An attempt of the worker publishes nothing it did not compile, audit and verify. When the
  attempt returns, under every interleaving of other transactions, every fault and every backend
  whose output is made of valid capsules, there is a database of the execution in which the view
  frozen by this very lease was read; the published snapshot and capsules are those of a
  candidate compiled from exactly that view under the configured ceiling, which passed the audit
  the configuration demands and the candidate verification. Then either they are what the
  session reads from now on and the job is committed, or the job is superseded and the
  publication changed no other table.
\<close>

theorem attempt_publishes_verified:
  assumes fair: "fair_world w" and typed: "typed_backend (wk_backend wk)" and ok: "db_ok (wd_env w) db"
    and run: "compaction_attempt wk w leased (db, n) = (Inr res, (db', n'))"
  shows "\<exists>db0 now v ci cand aud db1.
    read_compaction_view (wd_env w) db0 (job_id leased) (wk_id wk) (job_lease_epoch leased) now = Inr v \<and>
    compiles_view v ci \<and> ci_token_ceiling ci = wc_token_ceiling (wk_config wk) \<and>
    compile_candidate (wd_env w) (wk_loads wk) (wk_dump wk) (wk_backend wk) (wk_counter wk) ci = Inr cand \<and>
    audit_semantic cand (wc_strict_audit (wk_config wk)) (wk_auditor wk) = Inr aud \<and>
    verify_candidate (wk_fl wk) (wk_loads wk) aud (default_graph_config (wk_fl wk)) (wk_engine wk) \<noteq> None \<and>
    reaches (wd_env w) db0 db1 \<and>
    publication_settled (wd_env w) (job_id leased) (ac_snapshot aud) (ac_memberships aud) res db1 db'"
proof -
  from runsD(2)[OF runs_attempt[OF fair typed] ok run] obtain aud ms db1 f now where
    aud: "audited_state w wk leased leased aud db1" and m: "measured wk aud ms"
    and pub: "publish_snapshot ((wd_env w)\<lparr>env_fault := f\<rparr>) (job_id leased) (wk_id wk) (job_lease_epoch leased) now
      (publication_of wk aud ms) db1 = (Inr res, db')"
    unfolding published_from_def by auto
  from aud obtain cand db0 t v ci where
    "audit_semantic cand (wc_strict_audit (wk_config wk)) (wk_auditor wk) = Inr aud" and ok1: "db_ok (wd_env w) db1"
    and "reaches (wd_env w) db0 db1"
    and "read_compaction_view (wd_env w) db0 (job_id leased) (wk_id wk) (job_lease_epoch leased) t = Inr v" "compiles_view v ci"
    and "ci_token_ceiling ci = wc_token_ceiling (wk_config wk)"
      "compile_candidate (wd_env w) (wk_loads wk) (wk_dump wk) (wk_backend wk) (wk_counter wk) ci = Inr cand"
    by (auto simp: audited_state_def compiled_state_def compiled_from_def earlier_def)
  moreover from m have "candidate_canonical_metrics wk aud = Inr ms"
    "verify_candidate (wk_fl wk) (wk_loads wk) aud (default_graph_config (wk_fl wk)) (wk_engine wk) \<noteq> None"
    unfolding measured_def by blast+
  moreover from publish_settles[OF ok1 audited_publication(1)[OF aud typed this(1)] pub]
  have "publication_settled (wd_env w) (job_id leased) (ac_snapshot aud) (ac_memberships aud) res db1 db'"
    by (simp add: publication_of_def)
  ultimately show ?thesis by blast
qed

text \<open>
  C23. The publication gate never refuses a candidate of this worker: from the frozen view through
  compilation, audit and verification to the publication, under every interleaving of other
  transactions and every fault, an attempt ends published, superseded or in another error, but
  never in a rejected publication.
\<close>

theorem attempt_never_rejected:
  assumes "fair_world w" "typed_backend (wk_backend wk)" "db_ok (wd_env w) db"
    and "compaction_attempt wk w leased (db, n) = (Inl (st, e), s')"
  shows "e \<noteq> Repository (PublicationRejected rep)"
  using runsD(3)[OF runs_attempt[OF assms(1,2)] assms(3,4)] by (simp add: unrejected_def)

section \<open>Persisted failures\<close>

lemma fail_row_checks:
  assumes "job_row_checks r" "jr_state r \<in> set WORKING_STATES"
    and "sql_nonblank (fail_stage f)" "sql_nonblank (fail_code f)" "sql_nonblank (fail_message f)"
  shows "job_row_checks (fail_row f retry now r)"
  using assms unfolding job_row_checks_def fail_row_def
  by (auto simp: WORKING_STATES_def CANDIDATE_STATES_def nonblank_optional_def)

lemma fail_unique:
  assumes "unique_nonterminal rows" "\<And>r. r \<in> set rows \<Longrightarrow> p r \<Longrightarrow> is_nonterminal (jr_state r)"
  shows "unique_nonterminal (update_where p (fail_row f retry now) rows)"
proof -
  let ?live = "\<lambda>rows. map jr_hash (filter (is_nonterminal \<circ> jr_state) rows)"
  have h: "jr_hash (fail_row f retry now r) = jr_hash r" for r by (simp add: fail_row_def)
  have "distinct (?live (update_where p (fail_row f retry now) rows)) \<and>
    set (?live (update_where p (fail_row f retry now) rows)) \<subseteq> set (?live rows)"
    using assms unfolding unique_nonterminal_def
  proof (induction rows)
    case (Cons r rows)
    have "distinct (?live rows)" using Cons.prems(1) by (cases "is_nonterminal (jr_state r)") (auto simp: comp_def)
    from Cons.IH[OF this Cons.prems(2)] have IH: "distinct (?live (update_where p (fail_row f retry now) rows))"
      "set (?live (update_where p (fail_row f retry now) rows)) \<subseteq> set (?live rows)"
      by (simp_all only: list.set_intros)
    let ?r = "if p r then fail_row f retry now r else r"
    have u: "update_where p (fail_row f retry now) (r # rows) = ?r # update_where p (fail_row f retry now) rows"
      by (simp add: update_where_def)
    have live: "is_nonterminal (jr_state ?r) \<Longrightarrow> is_nonterminal (jr_state r)" using Cons.prems(2)[of r] by (simp split: if_splits)
    have hash: "jr_hash ?r = jr_hash r" by (simp add: h)
    show ?case
    proof (cases "is_nonterminal (jr_state ?r)")
      case True
      with live Cons.prems(1) IH(2) have "jr_hash ?r \<notin> set (?live (update_where p (fail_row f retry now) rows))"
        unfolding hash by auto
      with True live IH hash show ?thesis unfolding u by (auto simp: comp_def)
    next
      case False
      with IH show ?thesis unfolding u by (auto simp: comp_def)
    qed
  qed (simp add: update_where_def)
  then show ?thesis by (simp add: unique_nonterminal_def)
qed

lemma fail_job_succeeds:
  assumes ok: "db_ok env db" and r: "find_job db i = Some r" "fence_live r owner epoch now"
    and f: "valid_failure f" "sql_nonblank (fail_stage f)" "sql_nonblank (fail_code f)" "sql_nonblank (fail_message f)"
    and retry: "map_option Aware retry = fail_retry_at f" "\<And>t. retry = Some t \<Longrightarrow> now < t"
    and fault: "\<not> env_fault env ''failure.after_update''"
  shows "\<exists>j db'. fail_job env i owner epoch (Aware now) f db = (Inr j, db') \<and>
    find_job db' i = Some (fail_row f retry now r) \<and>
    (\<forall>i'. i' \<noteq> i \<longrightarrow> find_job db' i' = find_job db i') \<and> db' = db\<lparr>db_jobs := db_jobs db'\<rparr>"
proof -
  let ?p = "fence_where i owner epoch now" and ?f = "fail_row f retry now"
  let ?db = "db\<lparr>db_jobs := update_where ?p ?f (db_jobs db)\<rparr>"
  have row: "x \<in> set (db_jobs db) \<Longrightarrow> job_row_ok db x" for x using ok by (simp add: db_ok_def jobs_ok_def)
  have p: "jr_state x \<in> set WORKING_STATES" if "x \<in> set (db_jobs db)" "?p x" for x
    using row[OF that(1)] that(2) by (auto simp: fence_where_def job_row_ok_def job_row_checks_def)
  have fw: "?p r" using r find_jobD[OF r(1)] by (auto simp: fence_live_def fence_where_def split: option.splits)
  have "job_row_checks (?f x) \<and> job_foreign_keys db (?f x)" if x: "x \<in> set (db_jobs db)" "?p x" for x
  proof -
    show ?thesis using row[OF x(1)] fail_row_checks[OF _ _ f(2-4), of x] p[OF x]
      by (auto simp: job_row_ok_def job_foreign_keys_def fail_row_def based_on_def snapshot_exists_def split: option.splits)
  qed
  moreover have "unique_nonterminal (update_where ?p ?f (db_jobs db))"
    using ok p by (intro fail_unique) (auto simp: db_ok_def jobs_ok_def is_nonterminal_def WORKING_STATES_def)
  ultimately have u: "update_jobs ?p ?f db = Inr ?db" by (simp add: update_jobs_def)
  have "rowcount ?p (db_jobs db) = 1"
    by (rule rowcount_unique[of jr_id]) (use ok fw find_jobD[OF r(1)] in \<open>auto simp: db_ok_def jobs_ok_def fence_where_def\<close>)
  with u have fu: "fenced_update i owner epoch now ?f db = Inr ?db" by (simp add: fenced_update_eq_Inr)
  have look: "find_job ?db i' = map_option (\<lambda>x. if ?p x then ?f x else x) (find_job db i')" for i'
    by (rule find_job_update[OF u]) (simp add: fail_row_def)
  have new: "find_job ?db i = Some (?f r)" by (simp add: look r(1) fw)
  have ok': "db_ok env ?db" using fenced_update_ok[OF ok fu] by (simp add: fail_row_def)
  from job_by_id_find[OF this new] obtain j where "job_by_id env ?db i = Inr j" by blast
  moreover have "require_live_fence db i owner epoch now = Inr r" using r by (simp add: require_live_fence_def)
  ultimately have "fail_job env i owner epoch (Aware now) f db = (Inr j, ?db)"
    using f(1) retry fault fu
    by (cases retry) (auto simp: fail_job_def fail_job_body_def transaction_def normalize_datetime_def inject_def guard_def retry(1)[symmetric])
  moreover have "\<forall>i'. i' \<noteq> i \<longrightarrow> find_job ?db i' = find_job db i'"
    by (auto simp: look fence_where_def dest!: find_jobD split: option.splits intro!: option.map_ident_strong)
  ultimately show ?thesis using new by auto
qed

lemma worker_fail_job_Inr:
  assumes "fail_job (call_env w n) (job_id leased) (wk_id wk) (job_lease_epoch leased) (wd_clock w n k) (f (wd_clock w n))
    (wd_others w n db) = (Inr j, db')"
  shows "worker_fail_job wk w leased k f (db, n) = (Inr (), (db', Suc n))"
  using assms by (simp add: worker_fail_job_def act_call_def map_error_def)

definition worker_stages :: "string list" where
  "worker_stages = [''LEASED'', ''COMPILING'', ''AUDITING'', ''VERIFYING'', ''READY_TO_COMMIT'', ''PUBLISHING'']"

lemma failure_text_ok:
  assumes "c \<in> set worker_stages \<or> (\<exists>e. c = error_code e)"
  shows "py_strip c \<noteq> [] \<and> sql_nonblank c \<and> length c \<le> 512 \<and>
    (\<forall>x \<in> set c. x \<noteq> CHR 0x0D \<and> x \<noteq> CHR 0x0A \<and> x \<noteq> CHR 0x00)"
proof -
  have st: "list_all (\<lambda>c. py_strip c \<noteq> [] \<and> sql_nonblank c \<and> length c \<le> 512 \<and>
    (\<forall>x \<in> set c. x \<noteq> CHR 0x0D \<and> x \<noteq> CHR 0x0A \<and> x \<noteq> CHR 0x00)) worker_stages" by code_simp
  have "c \<in> set worker_stages \<or> (\<exists>k. c = compiler_code_value k) \<or> (\<exists>k. c = audit_code_value k) \<or>
      c = ''CANDIDATE_GRAPH_VERIFICATION_FAILED'' \<or> c = ''COMPACTION_WORKER_FAILURE''"
    using assms unfolding error_code_def
    by (elim disjE exE) (simp, rename_tac e, case_tac e, auto split: pipeline_error.splits)
  then show ?thesis
  proof (elim disjE exE)
    assume "c \<in> set worker_stages"
    with st show ?thesis by (auto simp: list_all_iff)
  next
    fix k assume "c = compiler_code_value k"
    then show ?thesis by (cases k; simp only:; code_simp)
  next
    fix k assume "c = audit_code_value k"
    then show ?thesis by (cases k; simp only:; code_simp)
  qed (simp only:, code_simp)+
qed

lemma retry_delay_bounds:
  assumes "valid_worker_config c"
  shows "wc_retry_base c \<le> retry_delay c n" "retry_delay c n \<le> wc_retry_max c" "0 < retry_delay c n"
    "n \<le> m \<Longrightarrow> retry_delay c n \<le> retry_delay c m"
proof -
  have pos: "0 < wc_retry_base c" "wc_retry_base c \<le> wc_retry_max c" using assms by (auto simp: valid_worker_config_def)
  have "wc_retry_base c * 1 \<le> wc_retry_base c * 2 ^ nat (max 0 (n - 1))" by (rule mult_left_mono) (use pos in auto)
  with pos show "wc_retry_base c \<le> retry_delay c n" by (simp add: retry_delay_def)
  with pos show "0 < retry_delay c n" by simp
  show "retry_delay c n \<le> wc_retry_max c" by (simp add: retry_delay_def)
  assume "n \<le> m"
  then have "(2::int) ^ nat (max 0 (n - 1)) \<le> 2 ^ nat (max 0 (m - 1))" by (intro power_increasing) auto
  then have "wc_retry_base c * 2 ^ nat (max 0 (n - 1)) \<le> wc_retry_base c * 2 ^ nat (max 0 (m - 1))"
    by (rule mult_left_mono) (use pos in auto)
  then show "retry_delay c n \<le> retry_delay c m" by (auto simp: retry_delay_def)
qed

text \<open>The errors of an attempt that end as a persisted failure.\<close>

definition persisted_error :: "worker_error \<Rightarrow> bool" where
  "persisted_error e \<longleftrightarrow> e \<noteq> Repository StaleLeaseError \<and> (\<forall>x. e \<noteq> Repository (StorageSecurityError x)) \<and>
     (\<forall>code. e \<noteq> Pipeline (CompilerBackendDeferred code))"

lemma handle_error_persists: "persisted_error e \<Longrightarrow> handle_error wk w leased st e = persist_failure wk w leased st e"
  by (auto simp: persisted_error_def handle_error_def split: worker_error.splits repo_error.splits pipeline_error.splits)


text \<open>
  A deferral whose code keeps the attempt is only accepted in the compiling stage: in every
  other stage of the worker the repository refuses the record, so the worker's own deferral
  raises and the job keeps its lease, its state and its attempt until the lease expires.
\<close>

theorem deferral_refused_outside_compiling:
  assumes "code \<in> set transient_codes" "st \<noteq> ''COMPILING''"
  shows "handle_error wk w leased st (Pipeline (CompilerBackendDeferred code)) (db, n) =
    (Inl (Repository ValueError), (wd_others w n db, Suc n))"
  using assms
  by (simp add: handle_error_def persist_deferred_def worker_fail_job_def act_call_def map_error_def
      fail_job_def fail_job_body_def transaction_def guard_def valid_failure_def)

end
