(* ===== verification/Worker_Witnesses.thy ===== *)
theory Worker_Witnesses
  imports Worker_Failures Scenario Runtime_Witnesses
begin

text \<open>
  A concrete worker over the concrete run of the repository: one pass that commits, one that
  fails and waits for a retry, and one whose deferral is refused.
\<close>

definition demo_output :: compiler_output where
  "demo_output = \<lparr>co_capsules = [demo_capsule], co_rendered = ''hi'', co_segments = None, co_provenance = None\<rparr>"

definition demo_worker_config :: worker_config where
  "demo_worker_config = \<lparr>wc_token_ceiling = 100, wc_lease = 1000000, wc_retry_base = 5, wc_retry_max = 60,
     wc_max_attempts = 3, wc_strict_audit = False, wc_backfill_limit = 32,
     wc_segmenter = \<lparr>max_events_per_segment = 2, max_tokens_per_segment = 100, max_preferred_boundaries = 8\<rparr>\<rparr>"

definition demo_worker :: "backend_outcome \<Rightarrow> worker" where
  "demo_worker out = \<lparr>wk_id = ''w'', wk_profile = ''t'', wk_config = demo_worker_config,
     wk_backend = (\<lambda>_. out), wk_auditor = None, wk_counter = (\<lambda>_. Counted 3),
     wk_canonical = Some utf8_byte_counter, wk_bindings = None, wk_engine = (\<lambda>g a. None), wk_fl = (\<lambda>x. x),
     wk_loads = (\<lambda>_. None), wk_dump = (\<lambda>_. ''{}'')\<rparr>"

definition demo_world :: world where
  "demo_world = \<lparr>wd_env = demo_env, wd_fault = (\<lambda>n b. False), wd_clock = (\<lambda>n m. Aware (100 + 10 * int n + 3 * int m)),
     wd_others = (\<lambda>n db. db), wd_heartbeat = None\<rparr>"

definition demo_input :: compiler_input where
  "demo_input = \<lparr>ci_base_snapshot = None, ci_base_capsules = [], ci_source_events = [demo_event],
     ci_counts = [(''e1'', 5)], ci_target = 1, ci_token_ceiling = 100, ci_now = Aware 100,
     ci_segmenter = wc_segmenter demo_worker_config, ci_preferred = [], ci_binding = None,
     ci_binding_captured = False\<rparr>"

definition demo_compiled :: "pipeline_error + compilation_candidate" where
  "demo_compiled = compile_candidate demo_env (\<lambda>_. None) (\<lambda>_. ''{}'') (\<lambda>_. Output demo_output) (\<lambda>_. Counted 3) demo_input"

lemma demo_compiles: "case demo_compiled of Inl e \<Rightarrow> False | Inr c \<Rightarrow> True"
  by code_simp

theorem compile_candidate_sound_witness:
  "\<exists>cand. demo_compiled = Inr cand \<and> snap_covered_event_end (cc_snapshot cand) = 1 \<and>
     concat (map seg_events (cc_segments cand)) = [demo_event] \<and> snap_token_cost (cc_snapshot cand) \<le> 100"
proof -
  obtain cand where c: "demo_compiled = Inr cand" using demo_compiles by (simp split: sum.splits)
  from compile_candidate_sound[OF c[unfolded demo_compiled_def]] c show ?thesis by (auto simp: demo_input_def)
qed

section \<open>The worker\<close>

lemma demo_fair: "fair_world demo_world"
  by (simp add: fair_world_def demo_world_def reaches_refl)

lemma demo_typed: "typed_backend (wk_backend (demo_worker (Output demo_output)))"
  by (simp add: typed_backend_def demo_worker_def demo_output_def)

lemma demo_early_ok: "db_ok demo_env demo_pending" "db_ok demo_env demo_leased"
  using demo_steps(1,2) demo_db1_ok step_keeps by blast+

lemma demo_world_env [simp]: "wd_env demo_world = demo_env"
  by (simp add: demo_world_def)


definition demo_leased_job :: job where
  "demo_leased_job = job_envelope demo_key (demo_job LEASED (Some ''w'') 1 None (Some 1000) 30 None)"

text \<open>Without a canonical counter the attempt defers in the compiling stage.\<close>

theorem attempt_never_rejected_witness:
  "\<exists>s'. compaction_attempt ((demo_worker (Output demo_output))\<lparr>wk_canonical := None\<rparr>) demo_world demo_leased_job (demo_leased, 0) =
      (Inl (''COMPILING'', Pipeline (CompilerBackendDeferred ''TOKEN_METRIC_UNAVAILABLE'')), s') \<and>
    (\<forall>rep. Pipeline (CompilerBackendDeferred ''TOKEN_METRIC_UNAVAILABLE'') \<noteq> Repository (PublicationRejected rep))"
proof -
  let ?wk = "(demo_worker (Output demo_output))\<lparr>wk_canonical := None\<rparr>"
  have run: "compaction_attempt ?wk demo_world demo_leased_job (demo_leased, 0) =
    (Inl (''COMPILING'', Pipeline (CompilerBackendDeferred ''TOKEN_METRIC_UNAVAILABLE'')), (demo_leased, 0))"
    by (simp add: compaction_attempt_def act_bind_def at_stage_def act_lift_def resolve_binding_def demo_worker_def
        map_error_def compile_stage_def backfill_metrics_def)
  have typed: "typed_backend (wk_backend ?wk)" using demo_typed by simp
  have ok: "db_ok (wd_env demo_world) demo_leased" using demo_early_ok(2) by simp
  from attempt_never_rejected[OF demo_fair typed ok run] run show ?thesis by blast
qed


theorem deferral_refused_outside_compiling_witness:
  "handle_error (demo_worker Backend_Raises) demo_world demo_leased_job ''VERIFYING''
     (Pipeline (CompilerBackendDeferred ''TOKEN_METRIC_UNAVAILABLE'')) (demo_leased, 0) =
   (Inl (Repository ValueError), (demo_leased, 1)) \<and>
   candidate_canonical_metrics ((demo_worker Backend_Raises)\<lparr>wk_canonical := Some (\<lambda>_. Count_Raises)\<rparr>)
     \<lparr>ac_snapshot = demo_snapshot, ac_memberships = [], ac_segments = [], ac_report = validate_permanent (candidate_gate demo_input demo_snapshot []), ac_semantic = None\<rparr> =
   Inl (Pipeline (CompilerBackendDeferred ''TOKEN_METRIC_UNAVAILABLE''))"
  using deferral_refused_outside_compiling[of "''TOKEN_METRIC_UNAVAILABLE''" "''VERIFYING''" "demo_worker Backend_Raises"
      demo_world demo_leased_job demo_leased 0]
  by (simp add: transient_codes_def demo_world_def candidate_canonical_metrics_def canonical_metric_def count_canonical_def)

end
