(* ===== verification/Verification_Witnesses.thy ===== *)
theory Verification_Witnesses
  imports Verification_Laws Worker_Witnesses
begin

text \<open>
  Concrete inputs for the candidate selection, the graph and the verification: the view of the
  concrete candidate, and an engine that selects every block.
\<close>

definition echo_engine :: verification_engine where
  "echo_engine g act = Some \<lparr>er_outcome = ENGINE_ACTIVE, er_selected = map co_candidate (gr_coordinates g),
     er_scores = qa_scores act,
     er_certificate = Some \<lparr>ec_stationarity = 0, ec_constraint = 0, ec_reconstruction = 0,
       ec_required_blocks_passed = True, ec_provenance_passed = True, ec_passed = True\<rparr>,
     er_error_code = None, er_solve_status = None, er_backend_name = None\<rparr>"

definition exact :: "rat \<Rightarrow> rat" where
  "exact x = x"

definition demo_audited :: audited_candidate where
  "demo_audited = \<lparr>ac_snapshot = demo_snapshot, ac_memberships = [demo_membership],
     ac_segments = [\<lparr>seg_start = 1, seg_end = 1, seg_events = [demo_event], seg_token_cost = 2, seg_reason = END_OF_INPUT\<rparr>],
     ac_report = validate_permanent (candidate_gate demo_input demo_snapshot [demo_capsule]), ac_semantic = None\<rparr>"

definition demo_candidate_view :: request_view where
  "demo_candidate_view = candidate_view demo_audited [demo_event]"

definition demo_selected :: "candidate_block list" where
  "demo_selected =
     [\<lparr>cb_id = ''goal:c1:g1'', cb_slot = ACTIVE_GOAL, cb_kind = GOAL, cb_text = ''greet'', cb_sources = [''e1''],
        cb_score = 100, cb_reason = ''ACTIVE_REQUIRED'', cb_required = True, cb_capsule = Some ''c1'', cb_sequence = None,
        cb_event_type = None, cb_tool_name = None, cb_selection_complete = True\<rparr>,
      \<lparr>cb_id = ''event:e1'', cb_slot = RAW_DELTA, cb_kind = RAW_EVENT,
        cb_text = ''[USER_MESSAGE/USER e1]'' @ [CHR 0x0A] @ ''hello'', cb_sources = [''e1''], cb_score = 100,
        cb_reason = ''UNCOMPACTED_DELTA'', cb_required = True, cb_capsule = None, cb_sequence = Some 1,
        cb_event_type = Some USER_MESSAGE, cb_tool_name = None, cb_selection_complete = True\<rparr>,
      \<lparr>cb_id = ''anchor:c1:a1'', cb_slot = EXACT_ANCHOR_SLOT, cb_kind = EXACT_ANCHOR, cb_text = ''hello'',
        cb_sources = [''e1''], cb_score = 90, cb_reason = ''ACTIVE_EXACT_ANCHOR'', cb_required = True,
        cb_capsule = Some ''c1'', cb_sequence = None, cb_event_type = None, cb_tool_name = None,
        cb_selection_complete = True\<rparr>]"

lemma demo_selects: "select_candidates exact (\<lambda>_. None) demo_candidate_view ''hello'' default_retrieval_config = Inr demo_selected"
  by code_simp

lemma default_limit: "rc_max_candidates default_retrieval_config \<ge> 1"
  by (simp add: default_retrieval_config_def)

theorem select_candidates_sound_witness:
  "map cb_id demo_selected = [''goal:c1:g1'', ''event:e1'', ''anchor:c1:a1''] \<and>
   int (length demo_selected) \<le> 256 \<and> sorted (map retrieval_sort_key demo_selected) \<and>
   sublist (concat (map cb_sources (filter (\<lambda>b. cb_kind b = RAW_EVENT) demo_selected))) [''e1'']"
proof -
  have "map cb_id demo_selected = [''goal:c1:g1'', ''event:e1'', ''anchor:c1:a1'']" by (simp add: demo_selected_def)
  moreover have "rc_max_candidates default_retrieval_config = 256" by (simp add: default_retrieval_config_def)
  moreover have "map ev_id (rv_delta demo_candidate_view) = [''e1'']"
    by (simp add: demo_candidate_view_def candidate_view_def demo_event_def)
  ultimately show ?thesis using select_candidates_sound[OF demo_selects default_limit] by simp
qed

lemma demo_delta_units: "durable_event_units (\<lambda>_. None) (rv_delta demo_candidate_view) = Some [[demo_event]]"
  by code_simp

lemma demo_within_limits: "within_limits default_retrieval_config demo_candidate_view [[demo_event]]"
  by (simp add: within_limits_def demo_candidate_view_def candidate_view_def demo_audited_def demo_membership_def
      demo_capsule_def default_retrieval_config_def active_items_def)


definition demo_built :: "graph_error + context_graph \<times> query_activation" where
  "demo_built = build_context_graph exact demo_candidate_view demo_selected ''hello'' (default_graph_config exact)"

theorem build_context_graph_reference_witness:
  "\<exists>g a. demo_built = Inr (g, a) \<and> map co_candidate (gr_coordinates g) = demo_selected \<and>
     gr_relations g = take 1024 (related_pairs demo_selected) \<and> int (length (gr_relations g)) \<le> 4096"
proof -
  have "case demo_built of Inl e \<Rightarrow> False | Inr ga \<Rightarrow> True" by code_simp
  then obtain g a where ga: "demo_built = Inr (g, a)" by (auto split: sum.splits)
  have v: "valid_graph_config (default_graph_config exact)" by code_simp
  have n: "relation_capacity (default_graph_config exact) = 1024" "gc_max_relations (default_graph_config exact) = 4096"
    by (simp_all add: relation_capacity_def default_graph_config_def)
  from build_context_graph_reference[OF ga[unfolded demo_built_def] v] ga show ?thesis by (auto simp: n)
qed

theorem verify_candidate_sound_witness:
  "\<exists>rep blocks. verify_candidate exact (\<lambda>_. None) demo_audited (default_graph_config exact) echo_engine = Some rep \<and>
     vr_candidate_count rep = 3 \<and> vr_relation_count rep = 3 \<and>
     build_candidate_blocks exact (\<lambda>_. None) demo_audited default_retrieval_config = Inr blocks \<and>
     required_candidates_complete (candidate_view demo_audited (source_events demo_audited)) blocks []"
proof -
  have "case verify_candidate exact (\<lambda>_. None) demo_audited (default_graph_config exact) echo_engine of
      None \<Rightarrow> False | Some rep \<Rightarrow> vr_candidate_count rep = 3 \<and> vr_relation_count rep = 3" by code_simp
  then obtain rep where rep: "verify_candidate exact (\<lambda>_. None) demo_audited (default_graph_config exact) echo_engine = Some rep"
    "vr_candidate_count rep = 3" "vr_relation_count rep = 3" by (auto split: option.splits)
  from verify_candidate_sound[OF rep(1)] rep show ?thesis by blast
qed

end
