(* ===== verification/Reorganization.thy ===== *)
theory Reorganization
  imports Compiler
begin

text \<open>
  \<^verbatim>\<open>reorganization.py\<close>: folding capsules into one bounded capsule with an audit record for every
  source item. The JSON forms that pydantic and \<^verbatim>\<open>json.dumps\<close> give capsules and items, the
  digest, the token counter, the rounding of a float division and the character of the
  truncation mark (outside the 8-bit characters of the model) are fields of one record.
\<close>

section \<open>Items and fields\<close>

datatype item =
  Claim_Item capsule_claim | Decision_Item decision | Entity_Item entity
| Anchor_Item capsule_anchor | Dependency_Item dependency

datatype item_field =
  GOALS | CONSTRAINTS | DECISIONS | PROGRESS | OPEN_LOOPS | PREFERENCES | ENTITIES | EMOTIONAL_CONTEXT
| EXACT_ANCHORS | DEPENDENCIES

fun field_kind :: "item_field \<Rightarrow> string" where
  "field_kind GOALS = ''goal''"
| "field_kind CONSTRAINTS = ''constraint''"
| "field_kind DECISIONS = ''decision''"
| "field_kind PROGRESS = ''progress''"
| "field_kind OPEN_LOOPS = ''open_loop''"
| "field_kind PREFERENCES = ''preference''"
| "field_kind ENTITIES = ''entity''"
| "field_kind EMOTIONAL_CONTEXT = ''emotional_context''"
| "field_kind EXACT_ANCHORS = ''exact_anchor''"
| "field_kind DEPENDENCIES = ''dependency''"

fun field_items :: "capsule \<Rightarrow> item_field \<Rightarrow> item list" where
  "field_items k GOALS = map Claim_Item (cap_goals k)"
| "field_items k CONSTRAINTS = map Claim_Item (cap_constraints k)"
| "field_items k DECISIONS = map Decision_Item (cap_decisions k)"
| "field_items k PROGRESS = map Claim_Item (cap_progress k)"
| "field_items k OPEN_LOOPS = map Claim_Item (cap_open_loops k)"
| "field_items k PREFERENCES = map Claim_Item (cap_preferences k)"
| "field_items k ENTITIES = map Entity_Item (cap_entities k)"
| "field_items k EMOTIONAL_CONTEXT = map Claim_Item (cap_emotional_context k)"
| "field_items k EXACT_ANCHORS = map Anchor_Item (cap_exact_anchors k)"
| "field_items k DEPENDENCIES = map Dependency_Item (cap_dependencies k)"

definition core_fields :: "item_field list" where
  "core_fields = [EXACT_ANCHORS, DEPENDENCIES]"

definition optional_fields :: "item_field list" where
  "optional_fields =
     [GOALS, CONSTRAINTS, DECISIONS, PROGRESS, OPEN_LOOPS, PREFERENCES, ENTITIES, EMOTIONAL_CONTEXT]"

fun reorg_item_id :: "item \<Rightarrow> string" where
  "reorg_item_id (Claim_Item c) = claim_id c"
| "reorg_item_id (Decision_Item d) = decision_id d"
| "reorg_item_id (Entity_Item e) = entity_id e"
| "reorg_item_id (Anchor_Item a) = anchor_id a"
| "reorg_item_id (Dependency_Item d) = dependency_id d"

fun item_source_ids :: "item \<Rightarrow> string list" where
  "item_source_ids (Claim_Item c) = claim_sources c"
| "item_source_ids (Decision_Item d) = decision_sources d"
| "item_source_ids (Entity_Item e) = entity_sources e"
| "item_source_ids (Anchor_Item a) = anchor_sources a"
| "item_source_ids (Dependency_Item d) = dependency_sources d"

section \<open>Environment and errors\<close>

record reorg_env =
  ro_capsule_surface :: "capsule \<Rightarrow> string"
  ro_item_surface :: "item \<Rightarrow> string"
  ro_capsules_json :: "capsule list \<Rightarrow> string"
  ro_sha256 :: "string \<Rightarrow> string"
  ro_counter :: token_counter
  ro_fl :: "rat \<Rightarrow> rat"
  ro_ellipsis :: char

datatype reorg_error =
  REORG_VALUE_ERROR
| ReorganizationBudgetError int int
| ReorganizationInvariantError

definition reorg_count :: "reorg_env \<Rightarrow> string \<Rightarrow> reorg_error + int" where
  "reorg_count env t =
     (case ro_counter env t of
        Counted n \<Rightarrow> if n < 0 then Inl REORG_VALUE_ERROR else Inr n
      | _ \<Rightarrow> Inl REORG_VALUE_ERROR)"

definition item_tokens :: "reorg_env \<Rightarrow> item \<Rightarrow> reorg_error + int" where
  "item_tokens env i = reorg_count env (ro_item_surface env i)"

section \<open>Building the capsule\<close>

type_synonym selection = "item_field \<Rightarrow> item list"

definition claims_of :: "item list \<Rightarrow> capsule_claim list" where
  "claims_of is = List.map_filter (\<lambda>i. case i of Claim_Item c \<Rightarrow> Some c | _ \<Rightarrow> None) is"

definition decisions_of :: "item list \<Rightarrow> decision list" where
  "decisions_of is = List.map_filter (\<lambda>i. case i of Decision_Item d \<Rightarrow> Some d | _ \<Rightarrow> None) is"

definition entities_of :: "item list \<Rightarrow> entity list" where
  "entities_of is = List.map_filter (\<lambda>i. case i of Entity_Item e \<Rightarrow> Some e | _ \<Rightarrow> None) is"

definition anchors_of :: "item list \<Rightarrow> capsule_anchor list" where
  "anchors_of is = List.map_filter (\<lambda>i. case i of Anchor_Item a \<Rightarrow> Some a | _ \<Rightarrow> None) is"

definition dependencies_of :: "item list \<Rightarrow> dependency list" where
  "dependencies_of is = List.map_filter (\<lambda>i. case i of Dependency_Item d \<Rightarrow> Some d | _ \<Rightarrow> None) is"

fun level_order :: "capsule_level \<Rightarrow> nat" where
  "level_order MICRO = 0"
| "level_order EPISODE = 1"
| "level_order TASK = 2"
| "level_order GLOBAL = 3"

text \<open>\<^verbatim>\<open>max\<close> with a key keeps the first of equal elements.\<close>

fun max_level :: "capsule_level \<Rightarrow> capsule_level list \<Rightarrow> capsule_level" where
  "max_level best [] = best"
| "max_level best (l # ls) = max_level (if level_order l > level_order best then l else best) ls"

definition status_value :: "reorganization_status \<Rightarrow> string" where
  "status_value s = (case s of RETAINED \<Rightarrow> ''retained'' | APPROXIMATE \<Rightarrow> ''approximate'' | RELEASED \<Rightarrow> ''released'')"

definition new_capsule_id :: "reorg_env \<Rightarrow> capsule list \<Rightarrow> int \<Rightarrow> reorganization_record list \<Rightarrow> string" where
  "new_capsule_id env capsules budget records =
     ''reorg-'' @ take 24 (ro_sha256 env (join_by ''|''
       ([show_int budget, ro_capsules_json env capsules] @
        map (\<lambda>r. rr_kind r @ '':'' @ rr_item r @ '':'' @ status_value (rr_status r) @ '':'' @ show_int (rr_after r))
          records)))"

definition all_sources :: "capsule list \<Rightarrow> string list" where
  "all_sources capsules = sort (remdups (concat (map cap_sources capsules)))"

definition all_fields :: "item_field list" where
  "all_fields = [GOALS, CONSTRAINTS, DECISIONS, PROGRESS, OPEN_LOOPS, PREFERENCES, ENTITIES, EMOTIONAL_CONTEXT,
     EXACT_ANCHORS, DEPENDENCIES]"

definition represented_sources :: "selection \<Rightarrow> string list" where
  "represented_sources selected =
     remdups (concat (map (\<lambda>f. concat (map item_source_ids (selected f))) all_fields))"

definition released_items :: "reorganization_record list \<Rightarrow> int" where
  "released_items records =
     int (length (filter (\<lambda>r. rr_status r = RELEASED \<and> rr_kind r \<noteq> ''narrative_summary'') records))"

definition reorganized_capsule ::
  "reorg_env \<Rightarrow> capsule list \<Rightarrow> selection \<Rightarrow> reorganization_record list \<Rightarrow> int \<Rightarrow> capsule" where
  "reorganized_capsule env capsules selected records budget =
     \<lparr>cap_id = new_capsule_id env capsules budget records, cap_schema_version = ''2.1.0'',
      cap_level = max_level (cap_level (hd capsules)) (map cap_level (tl capsules)),
      cap_session_key = cap_session_key (hd capsules),
      cap_covered_event_start = Min (set (map cap_covered_event_start capsules)),
      cap_covered_event_end = Max (set (map cap_covered_event_end capsules)),
      cap_sources = all_sources capsules,
      cap_goals = claims_of (selected GOALS), cap_constraints = claims_of (selected CONSTRAINTS),
      cap_decisions = decisions_of (selected DECISIONS), cap_progress = claims_of (selected PROGRESS),
      cap_open_loops = claims_of (selected OPEN_LOOPS), cap_preferences = claims_of (selected PREFERENCES),
      cap_entities = entities_of (selected ENTITIES),
      cap_emotional_context = claims_of (selected EMOTIONAL_CONTEXT),
      cap_exact_anchors = anchors_of (selected EXACT_ANCHORS),
      cap_dependencies = dependencies_of (selected DEPENDENCIES),
      cap_narrative_summary = ''reorganized capsule'', cap_token_cost = 0,
      cap_quality = \<lparr>q_mechanical_passed = True,
        q_source_coverage =
          (if all_sources capsules = [] then 1
           else min 1 (ro_fl env (of_nat (length (represented_sources selected)) / of_nat (length (all_sources capsules))))),
        q_anchor_recall = 1, q_unsupported_critical_claims = 0, q_coverage_gap = released_items records\<rparr>,
      cap_created_at = Max (set (map cap_created_at capsules))\<rparr>"

text \<open>
  The checks the constructor of \<^verbatim>\<open>ContextCapsuleEnvelope\<close> runs on its arguments; an item that is
  already a model instance is not validated again.
\<close>

definition capsule_constructs :: "capsule \<Rightarrow> bool" where
  "capsule_constructs c \<longleftrightarrow>
     cap_id c \<noteq> [] \<and> cap_schema_version c \<noteq> [] \<and>
     cap_covered_event_start c \<ge> 1 \<and> cap_covered_event_end c \<ge> 1 \<and> valid_sources (cap_sources c) \<and>
     distinct (cap_goals c) \<and> distinct (cap_constraints c) \<and> distinct (cap_decisions c) \<and>
     distinct (cap_progress c) \<and> distinct (cap_open_loops c) \<and> distinct (cap_preferences c) \<and>
     distinct (cap_entities c) \<and> distinct (cap_emotional_context c) \<and> distinct (cap_exact_anchors c) \<and>
     distinct (cap_dependencies c) \<and> cap_narrative_summary c \<noteq> [] \<and> cap_token_cost c \<ge> 0 \<and>
     valid_quality (cap_quality c) \<and> cap_covered_event_start c \<le> cap_covered_event_end c"

definition build_capsule ::
  "reorg_env \<Rightarrow> capsule list \<Rightarrow> selection \<Rightarrow> reorganization_record list \<Rightarrow> int \<Rightarrow> reorg_error + capsule" where
  "build_capsule env capsules selected records budget =
     (let c = reorganized_capsule env capsules selected records budget in
      bind (guard (capsule_constructs c) REORG_VALUE_ERROR) (\<lambda>_. Inr c))"

definition provisional_after_tokens ::
  "reorg_env \<Rightarrow> capsule list \<Rightarrow> selection \<Rightarrow> reorganization_record list \<Rightarrow> int \<Rightarrow> reorg_error + int" where
  "provisional_after_tokens env capsules selected records budget =
     bind (build_capsule env capsules selected records budget) (\<lambda>c. reorg_count env (ro_capsule_surface env c))"

section \<open>Approximation\<close>

definition MIN_APPROXIMATE_CHARS :: int where "MIN_APPROXIMATE_CHARS = 8"

definition truncate_text :: "reorg_env \<Rightarrow> string \<Rightarrow> int \<Rightarrow> string" where
  "truncate_text env t max_chars =
     (if int (length t) \<le> max_chars then t
      else if max_chars \<le> 1 then take 1 t
      else take (nat (max_chars - 1)) t @ [ro_ellipsis env])"

definition approximate_item :: "reorg_env \<Rightarrow> item \<Rightarrow> int \<Rightarrow> item option" where
  "approximate_item env i max_chars =
     (if max_chars < MIN_APPROXIMATE_CHARS then None
      else let cut = (\<lambda>t. truncate_text env t max_chars) in
        case i of
          Claim_Item c \<Rightarrow> Some (Claim_Item (c\<lparr>claim_text := cut (claim_text c)\<rparr>))
        | Decision_Item d \<Rightarrow>
            Some (Decision_Item (d\<lparr>decision_text := cut (decision_text d), decision_rationale := cut (decision_rationale d),
              decision_alternatives := map cut (decision_alternatives d),
              decision_supersedes := map cut (decision_supersedes d),
              decision_rejected_because := cut (decision_rejected_because d)\<rparr>))
        | Entity_Item e \<Rightarrow>
            Some (Entity_Item (e\<lparr>entity_kind := cut (entity_kind e), entity_name := cut (entity_name e),
              entity_aliases := map cut (entity_aliases e)\<rparr>))
        | _ \<Rightarrow> None)"

fun longest_text :: "item \<Rightarrow> int" where
  "longest_text (Claim_Item c) = int (length (claim_text c))"
| "longest_text (Decision_Item d) = max (int (length (decision_text d))) (int (length (decision_rationale d)))"
| "longest_text (Entity_Item e) = int (length (entity_name e))"
| "longest_text _ = 0"

definition reorg_record ::
  "item_field \<Rightarrow> string \<Rightarrow> string \<Rightarrow> reorganization_status \<Rightarrow> int \<Rightarrow> int \<Rightarrow> bool \<Rightarrow> reorganization_record" where
  "reorg_record f i capsule st before after required =
     \<lparr>rr_kind = field_kind f, rr_item = i, rr_source_capsule = capsule, rr_status = st, rr_before = before,
      rr_after = after, rr_required = required\<rparr>"

text \<open>The first capsule whose field has an item with the identifier.\<close>

definition source_capsule_of :: "capsule list \<Rightarrow> item_field \<Rightarrow> string \<Rightarrow> string" where
  "source_capsule_of capsules f i =
     (case filter (\<lambda>k. i \<in> set (map reorg_item_id (field_items k f))) capsules of [] \<Rightarrow> [] | k # _ \<Rightarrow> cap_id k)"

definition add_item :: "selection \<Rightarrow> item_field \<Rightarrow> item \<Rightarrow> selection" where
  "add_item selected f i = selected(f := selected f @ [i])"

text \<open>The tokens of an approximation and of the capsule with it.\<close>

definition try_approximation ::
  "reorg_env \<Rightarrow> capsule list \<Rightarrow> int \<Rightarrow> item_field \<Rightarrow> item \<Rightarrow> selection \<Rightarrow> reorganization_record list \<Rightarrow> item
   \<Rightarrow> reorg_error + int \<times> int" where
  "try_approximation env capsules budget f i selected records candidate =
     bind (item_tokens env candidate) (\<lambda>after.
     bind (item_tokens env i) (\<lambda>before.
     bind (provisional_after_tokens env capsules (add_item selected f candidate)
             (records @ [reorg_record f (reorg_item_id i) (source_capsule_of capsules f (reorg_item_id i)) APPROXIMATE
                before after False]) budget) (\<lambda>needed.
     Inr (after, needed))))"

function fit_loop ::
  "reorg_env \<Rightarrow> capsule list \<Rightarrow> int \<Rightarrow> item_field \<Rightarrow> item \<Rightarrow> selection \<Rightarrow> reorganization_record list
   \<Rightarrow> int \<Rightarrow> int \<Rightarrow> (item \<times> int) option \<Rightarrow> reorg_error + (item \<times> int) option" where
  "fit_loop env capsules budget f i selected records low high best =
     (if low > high then Inr best
      else let chars = (low + high) div 2 in
        case approximate_item env i chars of
          None \<Rightarrow> fit_loop env capsules budget f i selected records low (chars - 1) best
        | Some candidate \<Rightarrow>
            if candidate = i then fit_loop env capsules budget f i selected records low (chars - 1) best
            else case try_approximation env capsules budget f i selected records candidate of
              Inl e \<Rightarrow> Inl e
            | Inr (after, needed) \<Rightarrow>
                if needed \<le> budget
                then fit_loop env capsules budget f i selected records (chars + 1) high (Some (candidate, after))
                else fit_loop env capsules budget f i selected records low (chars - 1) best)"
  by pat_completeness auto
termination
  by (relation "measure (\<lambda>(env, capsules, budget, f, i, selected, records, low, high, best). nat (high + 1 - low))") auto

declare fit_loop.simps [simp del]

definition fit_approximate_item ::
  "reorg_env \<Rightarrow> capsule list \<Rightarrow> int \<Rightarrow> item_field \<Rightarrow> item \<Rightarrow> selection \<Rightarrow> reorganization_record list
   \<Rightarrow> reorg_error + (item \<times> int) option" where
  "fit_approximate_item env capsules budget f i selected records =
     fit_loop env capsules budget f i selected records MIN_APPROXIMATE_CHARS (longest_text i - 1) None"

section \<open>Reorganization\<close>

definition validate_reorganization :: "capsule list \<Rightarrow> int \<Rightarrow> reorg_error + unit" where
  "validate_reorganization capsules budget =
     bind (guard (budget \<ge> 0) REORG_VALUE_ERROR) (\<lambda>_.
     bind (guard (capsules \<noteq> []) REORG_VALUE_ERROR) (\<lambda>_.
     guard (\<forall>k \<in> set capsules. \<forall>f \<in> set all_fields. \<forall>i \<in> set (field_items k f).
       set (item_source_ids i) \<subseteq> set (cap_sources k)) REORG_VALUE_ERROR))"

text \<open>The dictionary \<^verbatim>\<open>seen\<close>, the selected items and the records.\<close>

record reorg_state =
  rs_seen :: "((string \<times> string) \<times> item) list"
  rs_selected :: selection
  rs_records :: "reorganization_record list"

definition reorg_init :: reorg_state where
  "reorg_init = \<lparr>rs_seen = [], rs_selected = (\<lambda>_. []), rs_records = []\<rparr>"

text \<open>The items of nested loops over capsules, fields and items.\<close>

definition work_items :: "capsule list \<Rightarrow> item_field list \<Rightarrow> (capsule \<times> item_field \<times> item) list" where
  "work_items capsules fs =
     concat (map (\<lambda>k. concat (map (\<lambda>f. map (\<lambda>i. (k, f, i)) (field_items k f)) fs)) capsules)"

definition identity_of :: "item_field \<Rightarrow> item \<Rightarrow> string \<times> string" where
  "identity_of f i = (field_kind f, reorg_item_id i)"

definition see :: "item_field \<Rightarrow> item \<Rightarrow> reorg_state \<Rightarrow> reorg_state" where
  "see f i st = st\<lparr>rs_seen := (identity_of f i, i) # rs_seen st\<rparr>"

definition place :: "item_field \<Rightarrow> item option \<Rightarrow> reorganization_record \<Rightarrow> reorg_state \<Rightarrow> reorg_state" where
  "place f x r st =
     st\<lparr>rs_selected := (case x of None \<Rightarrow> rs_selected st | Some i \<Rightarrow> add_item (rs_selected st) f i),
        rs_records := rs_records st @ [r]\<rparr>"

definition core_step :: "reorg_env \<Rightarrow> reorg_state \<Rightarrow> capsule \<times> item_field \<times> item \<Rightarrow> reorg_error + reorg_state" where
  "core_step env st w =
     (case w of (k, f, i) \<Rightarrow>
        case map_of (rs_seen st) (identity_of f i) of
          Some j \<Rightarrow> bind (guard (j = i) ReorganizationInvariantError) (\<lambda>_. Inr st)
        | None \<Rightarrow>
            bind (item_tokens env i) (\<lambda>t.
            Inr (place f (Some i) (reorg_record f (reorg_item_id i) (cap_id k) RETAINED t t True) (see f i st))))"

definition narrative_record :: "reorg_env \<Rightarrow> capsule \<Rightarrow> reorg_error + reorganization_record" where
  "narrative_record env k =
     bind (reorg_count env (''{'' @ json_member ''narrative_summary'' (json_string (cap_narrative_summary k)) @ ''}'')) (\<lambda>t.
     Inr \<lparr>rr_kind = ''narrative_summary'', rr_item = cap_id k @ '':narrative_summary'', rr_source_capsule = cap_id k,
          rr_status = RELEASED, rr_before = t, rr_after = 0, rr_required = False\<rparr>)"

definition optional_step ::
  "reorg_env \<Rightarrow> capsule list \<Rightarrow> int \<Rightarrow> reorg_state \<Rightarrow> capsule \<times> item_field \<times> item \<Rightarrow> reorg_error + reorg_state" where
  "optional_step env ks budget st w =
     (case w of (k, f, i) \<Rightarrow>
        case map_of (rs_seen st) (identity_of f i) of
          Some j \<Rightarrow> bind (guard (j = i) ReorganizationInvariantError) (\<lambda>_. Inr st)
        | None \<Rightarrow>
            bind (item_tokens env i) (\<lambda>before.
            let retained = reorg_record f (reorg_item_id i) (cap_id k) RETAINED before before False;
                st1 = see f i st in
            bind (provisional_after_tokens env ks (add_item (rs_selected st) f i) (rs_records st @ [retained]) budget) (\<lambda>needed.
            if needed \<le> budget then Inr (place f (Some i) retained st1)
            else
              bind (fit_approximate_item env ks budget f i (rs_selected st) (rs_records st)) (\<lambda>best.
              case best of
                Some (a, after) \<Rightarrow>
                  Inr (place f (Some a) (reorg_record f (reorg_item_id i) (cap_id k) APPROXIMATE before after False) st1)
              | None \<Rightarrow>
                  Inr (place f None (reorg_record f (reorg_item_id i) (cap_id k) RELEASED before 0 False) st1)))))"

record reorganization_result =
  res_capsule :: capsule
  res_records :: "reorganization_record list"
  res_before :: int
  res_after :: int
  res_loss_count :: int
  res_release_count :: int

definition status_count :: "(reorganization_status \<Rightarrow> bool) \<Rightarrow> reorganization_record list \<Rightarrow> int" where
  "status_count p rs = int (length (filter (\<lambda>r. p (rr_status r)) rs))"

definition retained_count :: "reorganization_result \<Rightarrow> int" where
  "retained_count r = status_count (\<lambda>s. s = RETAINED) (res_records r)"

definition approximate_count :: "reorganization_result \<Rightarrow> int" where
  "approximate_count r = status_count (\<lambda>s. s = APPROXIMATE) (res_records r)"

definition compression_ratio :: "(rat \<Rightarrow> rat) \<Rightarrow> reorganization_result \<Rightarrow> rat" where
  "compression_ratio fl r = (if res_before r = 0 then 1 else fl (of_int (res_after r) / of_int (res_before r)))"

definition reduction_ratio :: "(rat \<Rightarrow> rat) \<Rightarrow> reorganization_result \<Rightarrow> rat" where
  "reduction_ratio fl r = (if res_before r \<noteq> 0 then fl (1 - compression_ratio fl r) else 0)"

definition reorganize_capsules ::
  "reorg_env \<Rightarrow> capsule list \<Rightarrow> int \<Rightarrow> reorg_error + reorganization_result" where
  "reorganize_capsules env capsules budget =
     bind (validate_reorganization capsules budget) (\<lambda>_.
     let ks = sort_key cap_id capsules in
     bind (guard (\<forall>k \<in> set (tl ks). cap_session_key k = cap_session_key (hd ks)) REORG_VALUE_ERROR) (\<lambda>_.
     bind (traverse (\<lambda>k. reorg_count env (ro_capsule_surface env k)) ks) (\<lambda>befores.
     bind (foldM (core_step env) reorg_init (work_items ks core_fields)) (\<lambda>core.
     bind (traverse (narrative_record env) ks) (\<lambda>summaries.
     let base = core\<lparr>rs_records := rs_records core @ summaries\<rparr> in
     bind (provisional_after_tokens env ks (rs_selected base) (rs_records base) budget) (\<lambda>mandatory.
     bind (guard (mandatory \<le> budget) (ReorganizationBudgetError mandatory budget)) (\<lambda>_.
     bind (foldM (optional_step env ks budget) base (work_items ks optional_fields)) (\<lambda>final.
     bind (build_capsule env ks (rs_selected final) (rs_records final) budget) (\<lambda>c.
     bind (reorg_count env (ro_capsule_surface env c)) (\<lambda>used.
     bind (guard (used \<le> budget) (ReorganizationBudgetError used budget)) (\<lambda>_.
     Inr \<lparr>res_capsule = c\<lparr>cap_token_cost := used\<rparr>, res_records = rs_records final, res_before = sum_list befores,
          res_after = used, res_loss_count = status_count (\<lambda>s. s \<noteq> RETAINED) (rs_records final),
          res_release_count = status_count (\<lambda>s. s = RELEASED) (rs_records final)\<rparr>)))))))))))"

end
