(* ===== verification/Reorganization_Laws.thy ===== *)
theory Reorganization_Laws
  imports Reorganization
begin

text \<open>
  Laws of the reorganization: one invariant of its two loops, from which follow the exactness of
  the core edges, the budget, the accounting of every source item, and the acceptance of the
  records by the publication.
\<close>

section \<open>Fields and items\<close>

lemma field_kind_inj: "field_kind f = field_kind g \<Longrightarrow> f = g"
  by (cases f; cases g) auto

lemma field_kind_not_summary: "field_kind f \<noteq> ''narrative_summary''"
  by (cases f) auto

lemma identity_of_eq: "identity_of f i = identity_of g j \<longleftrightarrow> f = g \<and> reorg_item_id i = reorg_item_id j"
  using field_kind_inj by (auto simp: identity_of_def)

lemma approximate_item_keeps:
  assumes "approximate_item env i n = Some x"
  shows "reorg_item_id x = reorg_item_id i" "item_source_ids x = item_source_ids i"
  using assms by (auto simp: approximate_item_def Let_def split: if_splits item.splits)

definition summary_record :: "reorganization_record \<Rightarrow> bool" where
  "summary_record r \<longleftrightarrow> rr_kind r = ''narrative_summary''"

definition record_key :: "reorganization_record \<Rightarrow> string \<times> string" where
  "record_key r = (rr_kind r, rr_item r)"

lemma reorg_record_fields [simp]:
  "rr_kind (reorg_record f i k s b a q) = field_kind f" "rr_item (reorg_record f i k s b a q) = i"
  "rr_source_capsule (reorg_record f i k s b a q) = k" "rr_status (reorg_record f i k s b a q) = s"
  "rr_before (reorg_record f i k s b a q) = b" "rr_after (reorg_record f i k s b a q) = a"
  "rr_required (reorg_record f i k s b a q) = q" "\<not> summary_record (reorg_record f i k s b a q)"
  by (simp_all add: reorg_record_def summary_record_def field_kind_not_summary)

section \<open>The approximation that fits\<close>

lemma reorg_count_nonneg: "reorg_count env t = Inr n \<Longrightarrow> 0 \<le> n"
  by (auto simp: reorg_count_def split: count_outcome.splits if_splits)

lemma item_tokens_nonneg: "item_tokens env i = Inr n \<Longrightarrow> 0 \<le> n"
  by (simp add: item_tokens_def reorg_count_nonneg)

lemma try_approximation_eq_Inr:
  "try_approximation env ks budget f i sel recs x = Inr (after, needed) \<Longrightarrow> item_tokens env x = Inr after"
  by (auto simp: try_approximation_def result_simps)

definition fits :: "reorg_env \<Rightarrow> capsule list \<Rightarrow> int \<Rightarrow> item_field \<Rightarrow> item \<Rightarrow> selection \<Rightarrow> reorganization_record list
   \<Rightarrow> item \<times> int \<Rightarrow> bool" where
  "fits env ks budget f i sel recs best \<longleftrightarrow> (case best of (x, after) \<Rightarrow>
     x \<noteq> i \<and> (\<exists>n. approximate_item env i n = Some x) \<and>
     (\<exists>needed. try_approximation env ks budget f i sel recs x = Inr (after, needed) \<and> needed \<le> budget))"

lemma fit_loop_fits:
  assumes "fit_loop env ks budget f i sel recs low high best = Inr (Some r)"
    and "\<And>b. best = Some b \<Longrightarrow> fits env ks budget f i sel recs b"
  shows "fits env ks budget f i sel recs r"
  using assms
proof (induction env ks budget f i sel recs low high best rule: fit_loop.induct)
  case (1 env ks budget f i sel recs low high best)
  let ?chars = "(low + high) div 2"
  show ?case
  proof (cases "low > high")
    case True
    with 1(5,6) show ?thesis by (simp add: fit_loop.simps)
  next
    case False
    note run = 1(5)[unfolded fit_loop.simps[of env ks budget f i sel recs low high best] Let_def]
    show ?thesis
    proof (cases "approximate_item env i ?chars")
      case None
      with run False have "fit_loop env ks budget f i sel recs low (?chars - 1) best = Inr (Some r)" by simp
      from 1(1)[OF False refl None this 1(6)] show ?thesis .
    next
      case (Some x)
      show ?thesis
      proof (cases "x = i")
        case True
        with run False Some have "fit_loop env ks budget f i sel recs low (?chars - 1) best = Inr (Some r)" by simp
        from 1(2)[OF False refl Some True this 1(6)] show ?thesis .
      next
        case ne: False
        with run False Some obtain a n where t: "try_approximation env ks budget f i sel recs x = Inr (a, n)"
          by (auto split: sum.splits)
        show ?thesis
        proof (cases "n \<le> budget")
          case True
          have "fits env ks budget f i sel recs b" if "Some (x, a) = Some b" for b
            using that Some ne t True by (auto simp: fits_def)
          with 1(3)[OF False refl Some ne t refl True] run False Some ne t True show ?thesis by simp
        next
          case no: False
          with 1(4)[OF False refl Some ne t refl no] run False Some ne t 1(6) show ?thesis by simp
        qed
      qed
    qed
  qed
qed

section \<open>The invariant of the loops\<close>

type_synonym work = "capsule \<times> item_field \<times> item"

definition represents :: "reorg_env \<Rightarrow> item_field \<Rightarrow> item \<Rightarrow> item \<Rightarrow> bool" where
  "represents env f i x \<longleftrightarrow> x = i \<or> f \<notin> set core_fields \<and> (\<exists>n. approximate_item env i n = Some x)"

definition seen_inv :: "work list \<Rightarrow> reorg_state \<Rightarrow> bool" where
  "seen_inv done st \<longleftrightarrow> distinct (map fst (rs_seen st)) \<and>
     set (rs_seen st) = (\<lambda>(k, f, i). (identity_of f i, i)) ` set done"

definition records_inv :: "capsule list \<Rightarrow> reorg_state \<Rightarrow> bool" where
  "records_inv ks st \<longleftrightarrow>
     map record_key (filter (\<lambda>r. \<not> summary_record r) (rs_records st)) = rev (map fst (rs_seen st)) \<and>
     (\<forall>r \<in> set (rs_records st). rr_source_capsule r \<in> cap_id ` set ks \<and> rr_before r \<ge> 0 \<and> rr_after r \<ge> 0 \<and>
        (rr_required r \<longleftrightarrow> rr_kind r \<in> field_kind ` set core_fields) \<and> (rr_required r \<longrightarrow> rr_status r = RETAINED))"

definition selected_inv :: "reorg_env \<Rightarrow> work list \<Rightarrow> reorg_state \<Rightarrow> bool" where
  "selected_inv env done st \<longleftrightarrow>
     (\<forall>f. distinct (map reorg_item_id (rs_selected st f))) \<and>
     (\<forall>f. \<forall>x \<in> set (rs_selected st f). \<exists>k i. (k, f, i) \<in> set done \<and> represents env f i x) \<and>
     (\<forall>(k, f, i) \<in> set done. f \<in> set core_fields \<longrightarrow> i \<in> set (rs_selected st f))"

definition reorg_inv :: "reorg_env \<Rightarrow> capsule list \<Rightarrow> work list \<Rightarrow> reorg_state \<Rightarrow> bool" where
  "reorg_inv env ks done st \<longleftrightarrow> seen_inv done st \<and> records_inv ks st \<and> selected_inv env done st"

lemma represents_id: "represents env f i x \<Longrightarrow> reorg_item_id x = reorg_item_id i"
  by (auto simp: represents_def dest: approximate_item_keeps)

lemma reorg_inv_init: "reorg_inv env ks [] reorg_init"
  by (simp add: reorg_inv_def seen_inv_def records_inv_def selected_inv_def reorg_init_def)

text \<open>An item met again changes nothing.\<close>

lemma reorg_inv_again:
  assumes inv: "reorg_inv env ks done st" and seen: "map_of (rs_seen st) (identity_of f i) = Some i"
  shows "reorg_inv env ks (done @ [(k, f, i)]) st"
proof -
  have "(identity_of f i, i) \<in> set (rs_seen st)" using map_of_SomeD[OF seen] .
  with inv obtain k' f' where old: "(k', f', i) \<in> set done" "identity_of f' i = identity_of f i"
    by (auto simp: reorg_inv_def seen_inv_def)
  then have old': "(k', f, i) \<in> set done" by (simp add: identity_of_eq)
  have "seen_inv (done @ [(k, f, i)]) st"
    using inv old' by (auto simp: reorg_inv_def seen_inv_def image_iff intro!: bexI[of _ "(k', f, i)"])
  moreover have "selected_inv env (done @ [(k, f, i)]) st"
    using inv old' unfolding reorg_inv_def selected_inv_def by fastforce
  ultimately show ?thesis using inv by (simp add: reorg_inv_def)
qed

text \<open>A new item is recorded once, and represented by what is placed for it.\<close>

lemma reorg_inv_place:
  assumes inv: "reorg_inv env ks done st" and new: "map_of (rs_seen st) (identity_of f i) = None"
    and k: "k \<in> set ks" and x: "\<And>y. x = Some y \<Longrightarrow> represents env f i y" and core: "f \<in> set core_fields \<Longrightarrow> x = Some i"
    and r: "0 \<le> b" "0 \<le> a" "q \<longleftrightarrow> f \<in> set core_fields" "q \<Longrightarrow> s = RETAINED"
  shows "reorg_inv env ks (done @ [(k, f, i)]) (place f x (reorg_record f (reorg_item_id i) (cap_id k) s b a q) (see f i st))"
    (is "reorg_inv env ks ?done ?st")
proof -
  have fresh: "identity_of f i \<notin> fst ` set (rs_seen st)" using new by (simp add: map_of_eq_None_iff)
  have seen: "seen_inv ?done ?st"
    using inv fresh unfolding reorg_inv_def seen_inv_def by (simp add: place_def see_def)
  have kind: "field_kind f \<in> field_kind ` set core_fields \<longleftrightarrow> f \<in> set core_fields" using field_kind_inj by blast
  let ?r = "reorg_record f (reorg_item_id i) (cap_id k) s b a q"
  have st: "rs_records ?st = rs_records st @ [?r]" "rs_seen ?st = (identity_of f i, i) # rs_seen st"
    by (simp_all add: place_def see_def)
  have "record_key ?r = identity_of f i" by (simp add: record_key_def identity_of_def)
  then have recs: "records_inv ks ?st"
    using inv k r kind unfolding reorg_inv_def records_inv_def st by simp
  from inv have d: "\<And>g. distinct (map reorg_item_id (rs_selected st g))"
    and m: "\<And>g z. z \<in> set (rs_selected st g) \<Longrightarrow> \<exists>k' i'. (k', g, i') \<in> set done \<and> represents env g i' z"
    and c: "\<And>k' g i'. (k', g, i') \<in> set done \<Longrightarrow> g \<in> set core_fields \<Longrightarrow> i' \<in> set (rs_selected st g)"
    unfolding reorg_inv_def selected_inv_def by blast+
  have ids: "reorg_item_id i \<notin> set (map reorg_item_id (rs_selected st f))"
  proof
    assume "reorg_item_id i \<in> set (map reorg_item_id (rs_selected st f))"
    then obtain z where "z \<in> set (rs_selected st f)" "reorg_item_id z = reorg_item_id i" by auto
    with m represents_id obtain k' i' where "(k', f, i') \<in> set done" "reorg_item_id i' = reorg_item_id i" by metis
    then have "(k', f, i') \<in> set done" "identity_of f i' = identity_of f i" by (simp_all add: identity_of_def)
    then have "identity_of f i \<in> fst ` set (rs_seen st)" using inv unfolding reorg_inv_def seen_inv_def by force
    with fresh show False by contradiction
  qed
  have sel: "selected_inv env ?done ?st"
  proof (cases x)
    case None
    then have "f \<notin> set core_fields" "rs_selected ?st = rs_selected st" using core by (auto simp: place_def see_def)
    with d m c show ?thesis unfolding selected_inv_def by fastforce
  next
    case (Some y)
    have y: "represents env f i y" "reorg_item_id y = reorg_item_id i" using x[OF Some] represents_id by auto
    have sel: "rs_selected ?st g = (if g = f then rs_selected st f @ [y] else rs_selected st g)" for g
      by (simp add: place_def see_def Some add_item_def)
    have "\<forall>g. distinct (map reorg_item_id (rs_selected ?st g))" unfolding sel using ids y(2) d by simp
    moreover have "\<exists>k' i'. (k', g, i') \<in> set ?done \<and> represents env g i' z" if "z \<in> set (rs_selected ?st g)" for g z
    proof (cases "g = f \<and> z = y")
      case True
      with y(1) show ?thesis by auto
    next
      case False
      with that have "z \<in> set (rs_selected st g)" unfolding sel by (auto split: if_splits)
      from m[OF this] show ?thesis by auto
    qed
    moreover have "i' \<in> set (rs_selected ?st g)" if "(k', g, i') \<in> set ?done" "g \<in> set core_fields" for k' g i'
    proof (cases "(k', g, i') \<in> set done")
      case True
      from c[OF True that(2)] show ?thesis unfolding sel by auto
    next
      case False
      with that have "g = f" "i' = i" by auto
      with core that(2) Some show ?thesis unfolding sel by simp
    qed
    ultimately show ?thesis unfolding selected_inv_def by blast
  qed
  from seen recs sel show ?thesis by (simp add: reorg_inv_def)
qed

lemma core_step_inv:
  assumes "reorg_inv env ks done st" "core_step env st w = Inr st'" "fst w \<in> set ks" "fst (snd w) \<in> set core_fields"
  shows "reorg_inv env ks (done @ [w]) st'"
proof -
  obtain k f i where w: "w = (k, f, i)" by (cases w)
  show ?thesis
  proof (cases "map_of (rs_seen st) (identity_of f i)")
    case None
    with assms(2) obtain t where t: "item_tokens env i = Inr t"
      and st': "st' = place f (Some i) (reorg_record f (reorg_item_id i) (cap_id k) RETAINED t t True) (see f i st)"
      by (auto simp: core_step_def w result_simps)
    show ?thesis unfolding w st'
      by (rule reorg_inv_place[OF assms(1) None]) (use assms(3,4) w item_tokens_nonneg[OF t] in \<open>auto simp: represents_def\<close>)
  next
    case (Some j)
    with assms(2) have "j = i" "st' = st" by (auto simp: core_step_def w result_simps)
    with Some show ?thesis unfolding w by (simp add: reorg_inv_again[OF assms(1)])
  qed
qed

lemma optional_step_inv:
  assumes "reorg_inv env ks done st" "optional_step env ks budget st w = Inr st'" "fst w \<in> set ks"
    and "fst (snd w) \<notin> set core_fields"
  shows "reorg_inv env ks (done @ [w]) st'"
proof -
  obtain k f i where w: "w = (k, f, i)" by (cases w)
  show ?thesis
  proof (cases "map_of (rs_seen st) (identity_of f i)")
    case None
    have "\<exists>x s b a. st' = place f x (reorg_record f (reorg_item_id i) (cap_id k) s b a False) (see f i st) \<and>
        0 \<le> b \<and> 0 \<le> a \<and> (\<forall>y. x = Some y \<longrightarrow> represents env f i y)"
    proof -
      from assms(2) None obtain b where b: "item_tokens env i = Inr b" by (auto simp: optional_step_def w result_simps)
      let ?r = "reorg_record f (reorg_item_id i) (cap_id k) RETAINED b b False"
      from assms(2) None b obtain n where
        prov: "provisional_after_tokens env ks (add_item (rs_selected st) f i) (rs_records st @ [?r]) budget = Inr n"
        by (auto simp: optional_step_def w result_simps Let_def)
      have n: "(if n \<le> budget then Inr (place f (Some i) ?r (see f i st))
          else bind (fit_approximate_item env ks budget f i (rs_selected st) (rs_records st)) (\<lambda>best.
            case best of
              Some (x, a) \<Rightarrow> Inr (place f (Some x) (reorg_record f (reorg_item_id i) (cap_id k) APPROXIMATE b a False) (see f i st))
            | None \<Rightarrow> Inr (place f None (reorg_record f (reorg_item_id i) (cap_id k) RELEASED b 0 False) (see f i st)))) = Inr st'"
        using assms(2) None b prov by (simp add: optional_step_def w Let_def)
      note nn = item_tokens_nonneg[OF b]
      show ?thesis
      proof (cases "n \<le> budget")
        case True
        with n nn show ?thesis by (intro exI[of _ "Some i"]) (auto simp: represents_def)
      next
        case False
        with n obtain best where fit: "fit_approximate_item env ks budget f i (rs_selected st) (rs_records st) = Inr best"
          and st': "st' = (case best of
              Some (x, a) \<Rightarrow> place f (Some x) (reorg_record f (reorg_item_id i) (cap_id k) APPROXIMATE b a False) (see f i st)
            | None \<Rightarrow> place f None (reorg_record f (reorg_item_id i) (cap_id k) RELEASED b 0 False) (see f i st))"
          by (auto simp: result_simps split: option.splits)
        show ?thesis
        proof (cases best)
          case None
          with st' nn show ?thesis by (intro exI[of _ None]) auto
        next
          case (Some xa)
          obtain x a where xa: "xa = (x, a)" by (cases xa)
          from fit[unfolded Some] have "fits env ks budget f i (rs_selected st) (rs_records st) (x, a)"
            unfolding fit_approximate_item_def xa by (rule fit_loop_fits) simp
          then have "represents env f i x" "0 \<le> a"
            using assms(4) w by (auto simp: fits_def represents_def dest!: try_approximation_eq_Inr item_tokens_nonneg)
          with st' Some xa nn show ?thesis by (intro exI[of _ "Some x"]) auto
        qed
      qed
    qed
    then obtain x s b a where st': "st' = place f x (reorg_record f (reorg_item_id i) (cap_id k) s b a False) (see f i st)"
      "0 \<le> b" "0 \<le> a" "\<And>y. x = Some y \<Longrightarrow> represents env f i y" by blast
    show ?thesis unfolding w st'(1)
      by (rule reorg_inv_place[OF assms(1) None]) (use st'(2-4) assms(3,4) w in auto)
  next
    case (Some j)
    with assms(2) have "j = i" "st' = st" by (auto simp: optional_step_def w result_simps)
    with Some show ?thesis unfolding w by (simp add: reorg_inv_again[OF assms(1)])
  qed
qed

lemma fold_inv:
  assumes "foldM step st ws = Inr st'" "reorg_inv env ks ws0 st"
    and "\<And>ws0 st w st'. reorg_inv env ks ws0 st \<Longrightarrow> step st w = Inr st' \<Longrightarrow> w \<in> set ws \<Longrightarrow>
      reorg_inv env ks (ws0 @ [w]) st'"
  shows "reorg_inv env ks (ws0 @ ws) st'"
  using assms
proof (induction ws arbitrary: ws0 st)
  case (Cons w ws)
  from Cons.prems(1) obtain st1 where st1: "step st w = Inr st1" "foldM step st1 ws = Inr st'" by (auto simp: bind_eq_Inr)
  have "reorg_inv env ks (ws0 @ [w]) st1" using Cons.prems(3)[OF Cons.prems(2) st1(1)] by simp
  from Cons.IH[OF st1(2) this] Cons.prems(3) show ?case by simp
qed simp

lemma work_items_iff: "(k, f, i) \<in> set (work_items ks fs) \<longleftrightarrow> k \<in> set ks \<and> f \<in> set fs \<and> i \<in> set (field_items k f)"
  by (auto simp: work_items_def)

lemma fields_split: "set core_fields \<inter> set optional_fields = {}" "set core_fields \<union> set optional_fields = UNIV"
  "set all_fields = UNIV"
proof -
  show "set core_fields \<inter> set optional_fields = {}" by (simp add: core_fields_def optional_fields_def)
  have "f \<in> set core_fields \<union> set optional_fields \<and> f \<in> set all_fields" for f
    by (cases f) (simp_all add: core_fields_def optional_fields_def all_fields_def)
  then show "set core_fields \<union> set optional_fields = UNIV" "set all_fields = UNIV" by auto
qed

text \<open>What a successful reorganization computed.\<close>

definition all_work :: "capsule list \<Rightarrow> work list" where
  "all_work ks = work_items ks core_fields @ work_items ks optional_fields"

lemma all_work_iff: "(k, f, i) \<in> set (all_work ks) \<longleftrightarrow> k \<in> set ks \<and> i \<in> set (field_items k f)"
  using fields_split(2) by (auto simp: all_work_def work_items_iff)

lemma summaries_facts:
  assumes "traverse (narrative_record env) ks = Inr rs"
  shows "map (\<lambda>r. (rr_source_capsule r, rr_item r)) rs = map (\<lambda>k. (cap_id k, cap_id k @ '':narrative_summary'')) ks"
    "\<forall>r \<in> set rs. summary_record r \<and> rr_source_capsule r \<in> cap_id ` set ks \<and> rr_before r \<ge> 0 \<and> rr_after r \<ge> 0 \<and> \<not> rr_required r"
proof -
  have one: "rr_source_capsule r = cap_id k \<and> rr_item r = cap_id k @ '':narrative_summary'' \<and> summary_record r \<and>
      rr_before r \<ge> 0 \<and> rr_after r \<ge> 0 \<and> \<not> rr_required r" if "narrative_record env k = Inr r" for k r
    using that by (auto simp: narrative_record_def result_simps summary_record_def dest: reorg_count_nonneg)
  have "list_all2 (\<lambda>k r. narrative_record env k = Inr r) ks rs" using assms by (simp add: traverse_eq_Inr_iff)
  then show "map (\<lambda>r. (rr_source_capsule r, rr_item r)) rs = map (\<lambda>k. (cap_id k, cap_id k @ '':narrative_summary'')) ks"
    by (induction rule: list_all2_induct) (auto dest: one)
  from \<open>list_all2 _ ks rs\<close> show "\<forall>r \<in> set rs. summary_record r \<and> rr_source_capsule r \<in> cap_id ` set ks \<and> rr_before r \<ge> 0 \<and>
      rr_after r \<ge> 0 \<and> \<not> rr_required r"
    by (induction rule: list_all2_induct) (auto dest: one)
qed

lemma reorg_inv_summaries:
  assumes inv: "reorg_inv env ks done st" and rs: "traverse (narrative_record env) ks = Inr rs"
  shows "reorg_inv env ks done (st\<lparr>rs_records := rs_records st @ rs\<rparr>)"
proof -
  note f = summaries_facts(2)[OF rs]
  have "filter (\<lambda>r. \<not> summary_record r) rs = []" using f by (simp add: filter_empty_conv)
  moreover have "rr_kind r \<notin> field_kind ` set core_fields" if "r \<in> set rs" for r
    using f that field_kind_not_summary by (auto simp: summary_record_def) metis
  ultimately have "records_inv ks (st\<lparr>rs_records := rs_records st @ rs\<rparr>)"
    using inv f unfolding reorg_inv_def records_inv_def by auto
  with inv show ?thesis by (simp add: reorg_inv_def seen_inv_def selected_inv_def)
qed

lemma step_summaries:
  "core_step env st w = Inr st' \<Longrightarrow> filter summary_record (rs_records st') = filter summary_record (rs_records st)"
  "optional_step env ks budget st w = Inr st' \<Longrightarrow> filter summary_record (rs_records st') = filter summary_record (rs_records st)"
  by (auto simp: core_step_def optional_step_def result_simps place_def see_def Let_def split: prod.splits option.splits if_splits)

lemma fold_summaries:
  assumes "foldM step st ws = Inr st'"
    and "\<And>st w st'. step st w = Inr st' \<Longrightarrow> filter summary_record (rs_records st') = filter summary_record (rs_records st)"
  shows "filter summary_record (rs_records st') = filter summary_record (rs_records st)"
  using assms by (induction ws arbitrary: st) (auto simp: bind_eq_Inr)

lemma reorganize_eq_Inr:
  assumes "reorganize_capsules env capsules budget = Inr res"
  obtains ks final summaries c where
    "ks = sort_key cap_id capsules" "reorg_inv env ks (all_work ks) final"
    "traverse (narrative_record env) ks = Inr summaries" "filter summary_record (rs_records final) = summaries"
    "c = reorganized_capsule env ks (rs_selected final) (rs_records final) budget" "capsule_constructs c"
    "reorg_count env (ro_capsule_surface env c) = Inr (res_after res)" "res_after res \<le> budget"
    "res_capsule res = c\<lparr>cap_token_cost := res_after res\<rparr>" "res_records res = rs_records final"
    "res_loss_count res = status_count (\<lambda>s. s \<noteq> RETAINED) (rs_records final)"
    "res_release_count res = status_count (\<lambda>s. s = RELEASED) (rs_records final)"
    "\<forall>k \<in> set capsules. cap_session_key k = cap_session_key (hd ks)" "capsules \<noteq> []"
proof -
  let ?ks = "sort_key cap_id capsules"
  from assms obtain core summaries final c where
    v: "validate_reorganization capsules budget = Inr ()"
    and session: "\<forall>k \<in> set (tl ?ks). cap_session_key k = cap_session_key (hd ?ks)"
    and core: "foldM (core_step env) reorg_init (work_items ?ks core_fields) = Inr core"
    and sums: "traverse (narrative_record env) ?ks = Inr summaries"
    and final: "foldM (optional_step env ?ks budget) (core\<lparr>rs_records := rs_records core @ summaries\<rparr>) (work_items ?ks optional_fields) = Inr final"
    and c: "build_capsule env ?ks (rs_selected final) (rs_records final) budget = Inr c"
    and used: "reorg_count env (ro_capsule_surface env c) = Inr (res_after res)" "res_after res \<le> budget"
      "res_capsule res = c\<lparr>cap_token_cost := res_after res\<rparr>" "res_records res = rs_records final"
      "res_loss_count res = status_count (\<lambda>s. s \<noteq> RETAINED) (rs_records final)"
      "res_release_count res = status_count (\<lambda>s. s = RELEASED) (rs_records final)"
    by (auto simp: reorganize_capsules_def result_simps Let_def)
  have "reorg_inv env ?ks ([] @ work_items ?ks core_fields) core"
    by (rule fold_inv[OF core reorg_inv_init]) (auto intro!: core_step_inv simp: work_items_iff)
  then have base: "reorg_inv env ?ks (work_items ?ks core_fields) (core\<lparr>rs_records := rs_records core @ summaries\<rparr>)"
    using reorg_inv_summaries[OF _ sums] by simp
  have inv: "reorg_inv env ?ks (all_work ?ks) final" unfolding all_work_def
    by (rule fold_inv[OF final base]) (use fields_split(1) in \<open>auto intro!: optional_step_inv simp: work_items_iff\<close>)
  have "filter summary_record (rs_records core) = []"
    using fold_summaries[OF core step_summaries(1)] by (simp add: reorg_init_def)
  then have fs: "filter summary_record (rs_records final) = summaries"
    using fold_summaries[OF final step_summaries(2)] summaries_facts(2)[OF sums] by (simp add: filter_id_conv)
  have ne: "capsules \<noteq> []" using v by (auto simp: validate_reorganization_def result_simps)
  then have "?ks \<noteq> []" by (metis length_0_conv length_sort)
  then have "\<forall>k \<in> set ?ks. cap_session_key k = cap_session_key (hd ?ks)" using session by (cases ?ks) auto
  then have s: "\<forall>k \<in> set capsules. cap_session_key k = cap_session_key (hd ?ks)" by simp
  from c have cc: "c = reorganized_capsule env ?ks (rs_selected final) (rs_records final) budget" "capsule_constructs c"
    by (auto simp: build_capsule_def result_simps Let_def)
  show thesis by (rule that[OF refl inv sums fs cc used s ne])
qed

section \<open>The result\<close>

text \<open>Items stay in the fields of their class.\<close>

fun item_class :: "item \<Rightarrow> nat" where
  "item_class (Claim_Item c) = 0"
| "item_class (Decision_Item d) = 1"
| "item_class (Entity_Item e) = 2"
| "item_class (Anchor_Item a) = 3"
| "item_class (Dependency_Item d) = 4"

fun field_class :: "item_field \<Rightarrow> nat" where
  "field_class DECISIONS = 1"
| "field_class ENTITIES = 2"
| "field_class EXACT_ANCHORS = 3"
| "field_class DEPENDENCIES = 4"
| "field_class _ = 0"

lemma field_items_class: "i \<in> set (field_items k f) \<Longrightarrow> item_class i = field_class f"
  by (cases f) auto

lemma represents_class: "represents env f i x \<Longrightarrow> item_class x = item_class i"
  by (auto simp: represents_def approximate_item_def Let_def split: if_splits item.splits)

lemma map_map_filter: "(\<And>x. x \<in> set xs \<Longrightarrow> \<exists>y. g x = Some y \<and> h y = x) \<Longrightarrow> map h (List.map_filter g xs) = xs"
proof (induction xs)
  case (Cons x xs)
  from Cons.prems[of x] obtain y where "g x = Some y" "h y = x" by auto
  with Cons show ?case by (simp add: List.map_filter_simps)
qed (simp add: List.map_filter_simps)

lemma item_of_class:
  "item_class x = 0 \<longleftrightarrow> (\<exists>y. x = Claim_Item y)" "item_class x = 1 \<longleftrightarrow> (\<exists>y. x = Decision_Item y)"
  "item_class x = 2 \<longleftrightarrow> (\<exists>y. x = Entity_Item y)" "item_class x = 3 \<longleftrightarrow> (\<exists>y. x = Anchor_Item y)"
  "item_class x = 4 \<longleftrightarrow> (\<exists>y. x = Dependency_Item y)"
  by (cases x; simp)+

lemma of_items:
  "\<forall>x \<in> set xs. item_class x = 0 \<Longrightarrow> map Claim_Item (claims_of xs) = xs"
  "\<forall>x \<in> set xs. item_class x = 1 \<Longrightarrow> map Decision_Item (decisions_of xs) = xs"
  "\<forall>x \<in> set xs. item_class x = 2 \<Longrightarrow> map Entity_Item (entities_of xs) = xs"
  "\<forall>x \<in> set xs. item_class x = 3 \<Longrightarrow> map Anchor_Item (anchors_of xs) = xs"
  "\<forall>x \<in> set xs. item_class x = 4 \<Longrightarrow> map Dependency_Item (dependencies_of xs) = xs"
  unfolding claims_of_def decisions_of_def entities_of_def anchors_of_def dependencies_of_def item_of_class
  by (rule map_map_filter, fastforce)+

lemma reorganized_items:
  assumes "\<And>f x. x \<in> set (sel f) \<Longrightarrow> item_class x = field_class f"
  shows "field_items ((reorganized_capsule env ks sel recs budget)\<lparr>cap_token_cost := n\<rparr>) f = sel f"
  by (cases f) (auto simp: reorganized_capsule_def intro!: of_items dest: assms)

lemma reorganize_items:
  assumes inv: "reorg_inv env ks (all_work ks) final"
  shows "field_items ((reorganized_capsule env ks (rs_selected final) recs budget)\<lparr>cap_token_cost := n\<rparr>) f = rs_selected final f"
proof (rule reorganized_items)
  fix g x assume "x \<in> set (rs_selected final g)"
  with inv obtain k i where "(k, g, i) \<in> set (all_work ks)" "represents env g i x"
    unfolding reorg_inv_def selected_inv_def by blast
  then show "item_class x = field_class g" using field_items_class represents_class by (auto simp: all_work_iff)
qed

lemma recorded_once:
  assumes "distinct xs" "map record_key rs = xs" "x \<in> set xs"
  shows "length (filter (\<lambda>r. record_key r = x) rs) = 1"
proof -
  from assms have "distinct (map record_key rs)" "x \<in> record_key ` set rs" by auto
  then show ?thesis
  proof (induction rs)
    case (Cons r rs)
    show ?case
    proof (cases "record_key r = x")
      case True
      with Cons.prems(1) have "\<forall>y \<in> set rs. record_key y \<noteq> x" by (simp add: image_iff) metis
      with True show ?thesis by (simp add: filter_empty_conv)
    qed (use Cons in auto)
  qed simp
qed

text \<open>
  C30. Reorganization never drops or alters a core edge and never exceeds its budget: the exact
  anchors and dependencies of the result are exactly those of the sources, the result's token
  cost is its counted surface and within the budget, every other item of the result is a source
  item or a truncation of one, and every source item has exactly one audit record.
\<close>

theorem reorganize_exact_core:
  assumes run: "reorganize_capsules env capsules budget = Inr res"
  shows "(\<forall>f \<in> set core_fields. set (field_items (res_capsule res) f) = (\<Union>k \<in> set capsules. set (field_items k f))) \<and>
    cap_token_cost (res_capsule res) = res_after res \<and> res_after res \<le> budget \<and>
    reorg_count env (ro_capsule_surface env ((res_capsule res)\<lparr>cap_token_cost := 0\<rparr>)) = Inr (res_after res) \<and>
    (\<forall>f. \<forall>x \<in> set (field_items (res_capsule res) f). \<exists>k \<in> set capsules. \<exists>i \<in> set (field_items k f).
       x = i \<or> f \<notin> set core_fields \<and> (\<exists>n. approximate_item env i n = Some x)) \<and>
    (\<forall>k \<in> set capsules. \<forall>f. \<forall>i \<in> set (field_items k f).
       length (filter (\<lambda>r. (rr_kind r, rr_item r) = identity_of f i) (res_records res)) = 1)"
proof -
  from run obtain ks final summaries c where ks: "ks = sort_key cap_id capsules"
    and inv: "reorg_inv env ks (all_work ks) final"
    and c: "c = reorganized_capsule env ks (rs_selected final) (rs_records final) budget"
    and used: "reorg_count env (ro_capsule_surface env c) = Inr (res_after res)" "res_after res \<le> budget"
    and res: "res_capsule res = c\<lparr>cap_token_cost := res_after res\<rparr>" "res_records res = rs_records final"
    by (rule reorganize_eq_Inr)
  have mem: "(k, f, i) \<in> set (all_work ks) \<longleftrightarrow> k \<in> set capsules \<and> i \<in> set (field_items k f)" for k f i
    by (simp add: all_work_iff ks)
  have sel: "field_items (res_capsule res) f = rs_selected final f" for f
    unfolding res(1) c by (rule reorganize_items[OF inv])
  have from_src: "\<exists>k \<in> set capsules. \<exists>i \<in> set (field_items k f). represents env f i x" if "x \<in> set (rs_selected final f)" for f x
    using inv that mem unfolding reorg_inv_def selected_inv_def by blast
  have core: "i \<in> set (rs_selected final f)" if "f \<in> set core_fields" "k \<in> set capsules" "i \<in> set (field_items k f)" for f k i
    using inv that mem unfolding reorg_inv_def selected_inv_def by blast
  have "set (rs_selected final f) = (\<Union>k \<in> set capsules. set (field_items k f))" if f: "f \<in> set core_fields" for f
    using from_src[of _ f] core[OF f] f by (auto simp: represents_def)
  moreover have "length (filter (\<lambda>r. (rr_kind r, rr_item r) = identity_of f i) (rs_records final)) = 1"
    if "k \<in> set capsules" "i \<in> set (field_items k f)" for k f i
  proof -
    have m: "identity_of f i \<in> set (rev (map fst (rs_seen final)))"
      using inv that mem unfolding reorg_inv_def seen_inv_def by force
    have d: "distinct (rev (map fst (rs_seen final)))"
      "map record_key (filter (\<lambda>r. \<not> summary_record r) (rs_records final)) = rev (map fst (rs_seen final))"
      using inv by (auto simp: reorg_inv_def seen_inv_def records_inv_def)
    from recorded_once[OF d m]
    have "length (filter (\<lambda>r. record_key r = identity_of f i) (filter (\<lambda>r. \<not> summary_record r) (rs_records final))) = 1" .
    moreover have "\<not> summary_record r" if "record_key r = identity_of f i" for r
      using that field_kind_not_summary by (auto simp: record_key_def identity_of_def summary_record_def)
    then have "filter (\<lambda>r. record_key r = identity_of f i) (filter (\<lambda>r. \<not> summary_record r) rs) =
        filter (\<lambda>r. (rr_kind r, rr_item r) = identity_of f i) rs" for rs
      by (auto simp: filter_filter record_key_def intro!: filter_cong)
    ultimately show ?thesis by simp
  qed
  moreover have "(res_capsule res)\<lparr>cap_token_cost := 0\<rparr> = c" unfolding res(1) c by (simp add: reorganized_capsule_def)
  ultimately show ?thesis using used res from_src unfolding sel by (auto simp: represents_def)
qed

section \<open>The records\<close>

lemma canonicalize_accepts:
  assumes "list_all reorganization_record_ok rs" "distinct (map source_item_key rs)"
    and "set (map source_item_key rs) \<inter> set seen = {}"
  shows "canonicalize_records seen rs = Inr rs"
  using assms by (induction rs arbitrary: seen) auto

lemma distinct_by_partition:
  assumes "distinct (map f (filter P xs))" "distinct (map f (filter (\<lambda>x. \<not> P x) xs))"
    and "\<And>x y. f x = f y \<Longrightarrow> P x = P y"
  shows "distinct (map f xs)"
  using assms(1,2)
proof (induction xs)
  case (Cons x xs)
  have "f x \<notin> f ` set xs"
  proof
    assume "f x \<in> f ` set xs"
    then obtain y where y: "y \<in> set xs" "f x = f y" by auto
    with assms(3) have "P x = P y" by blast
    with y Cons.prems show False by (auto split: if_splits)
  qed
  with Cons show ?case by (auto split: if_splits)
qed simp

lemma field_kind_nonblank: "py_strip (field_kind f) \<noteq> []"
  by (cases f; simp only:; code_simp)

lemma summary_item_nonblank: "py_strip (i @ '':narrative_summary'') \<noteq> []"
proof
  assume "py_strip (i @ '':narrative_summary'') = []"
  then have "\<forall>c \<in> set (i @ '':narrative_summary''). py_isspace c" by (simp add: py_strip_def strip_by_eq_Nil_iff)
  then have "py_isspace (CHR ''n'')" by simp
  then show False by code_simp
qed

lemma summary_kind_nonblank: "py_strip ''narrative_summary'' \<noteq> []"
  by code_simp

lemma distinct_pairs: "distinct (map g xs) \<Longrightarrow> (\<And>x y. f x = f y \<Longrightarrow> g x = g y) \<Longrightarrow> distinct (map f xs)"
  by (auto simp: distinct_map intro!: inj_onI dest: inj_onD)


text \<open>The counts of the result partition its records.\<close>

lemma status_counts:
  "status_count (\<lambda>s. s = RETAINED) rs + status_count (\<lambda>s. s = APPROXIMATE) rs + status_count (\<lambda>s. s = RELEASED) rs = int (length rs)"
  "status_count (\<lambda>s. s \<noteq> RETAINED) rs = status_count (\<lambda>s. s = APPROXIMATE) rs + status_count (\<lambda>s. s = RELEASED) rs"
proof (induction rs)
  case (Cons r rs)
  { case 1 with Cons show ?case by (cases "rr_status r") (simp_all add: status_count_def) }
  { case 2 with Cons show ?case by (cases "rr_status r") (simp_all add: status_count_def) }
qed (simp_all add: status_count_def)

lemma reorganize_counts:
  assumes "reorganize_capsules env capsules budget = Inr res"
  shows "retained_count res + res_loss_count res = int (length (res_records res))"
    "res_loss_count res = approximate_count res + res_release_count res"
proof -
  from assms obtain final :: reorg_state where "res_records res = rs_records final"
    "res_loss_count res = status_count (\<lambda>s. s \<noteq> RETAINED) (rs_records final)"
    "res_release_count res = status_count (\<lambda>s. s = RELEASED) (rs_records final)"
    by (rule reorganize_eq_Inr)
  then show "retained_count res + res_loss_count res = int (length (res_records res))"
    "res_loss_count res = approximate_count res + res_release_count res"
    using status_counts[of "rs_records final"] by (simp_all add: retained_count_def approximate_count_def)
qed

section \<open>The type of the result\<close>

text \<open>The schema of an item, apart from the uniqueness inside the lists of decisions and entities.\<close>

fun item_typed :: "item \<Rightarrow> bool" where
  "item_typed (Claim_Item c) = valid_claim c"
| "item_typed (Decision_Item d) = (decision_id d \<noteq> [] \<and> decision_text d \<noteq> [] \<and> unit_float (decision_confidence d) \<and>
     valid_sources (decision_sources d))"
| "item_typed (Entity_Item e) = (entity_id e \<noteq> [] \<and> entity_kind e \<noteq> [] \<and> entity_name e \<noteq> [] \<and> valid_sources (entity_sources e))"
| "item_typed (Anchor_Item a) = valid_anchor a"
| "item_typed (Dependency_Item d) = valid_dependency d"

lemma truncate_nonempty: "t \<noteq> [] \<Longrightarrow> truncate_text env t n \<noteq> []"
  by (auto simp: truncate_text_def)

lemma approximate_typed: "approximate_item env i n = Some x \<Longrightarrow> item_typed i \<Longrightarrow> item_typed x"
  by (auto simp: approximate_item_def Let_def valid_claim_def truncate_nonempty split: if_splits item.splits)

lemma field_items_typed: "valid_capsule k \<Longrightarrow> i \<in> set (field_items k f) \<Longrightarrow> item_typed i"
  by (cases f) (auto simp: valid_capsule_def list_all_iff valid_decision_def valid_entity_def)

lemma valid_items:
  assumes "capsule_constructs c" "valid_session_key (cap_session_key c)"
    and "\<And>f x. x \<in> set (field_items c f) \<Longrightarrow> item_typed x"
    and "\<And>d. d \<in> set (cap_decisions c) \<Longrightarrow> valid_decision d" "\<And>e. e \<in> set (cap_entities c) \<Longrightarrow> valid_entity e"
  shows "valid_capsule c"
proof -
  have claims: "list_all valid_claim xs" if "map Claim_Item xs = field_items c f" for xs f
    using assms(3)[of "Claim_Item y" f for y] unfolding that[symmetric] by (simp add: list_all_iff image_iff)
  note typed = claims[of _ GOALS] claims[of _ CONSTRAINTS] claims[of _ PROGRESS] claims[of _ OPEN_LOOPS]
    claims[of _ PREFERENCES] claims[of _ EMOTIONAL_CONTEXT]
  have "list_all valid_anchor (cap_exact_anchors c)" "list_all valid_dependency (cap_dependencies c)"
    using assms(3)[of "Anchor_Item y" EXACT_ANCHORS for y] assms(3)[of "Dependency_Item y" DEPENDENCIES for y]
    by (simp_all add: list_all_iff image_iff)
  moreover have "list_all valid_decision (cap_decisions c)" "list_all valid_entity (cap_entities c)"
    using assms(4,5) by (auto simp: list_all_iff)
  ultimately show ?thesis using assms(1,2) typed by (simp add: capsule_constructs_def valid_capsule_def)
qed

text \<open>
  C29. Reorganization is typed: from valid source capsules it makes an envelope that passes the
  checks of the capsule's constructor after its token cost is set, belongs to the sources'
  session and has only items that meet the schema of their kind apart from the uniqueness
  inside a decision's alternatives and superseded decisions and an entity's aliases; where no
  decision and no entity was truncated the result is a valid capsule.
\<close>

theorem reorganize_typed:
  assumes run: "reorganize_capsules env capsules budget = Inr res" and valid: "\<forall>k \<in> set capsules. valid_capsule k"
  shows "capsule_constructs (res_capsule res) \<and>
    (\<forall>k \<in> set capsules. cap_session_key (res_capsule res) = cap_session_key k) \<and>
    (\<forall>f. \<forall>x \<in> set (field_items (res_capsule res) f). item_typed x) \<and>
    ((\<forall>f \<in> {DECISIONS, ENTITIES}. \<forall>x \<in> set (field_items (res_capsule res) f). \<exists>k \<in> set capsules. x \<in> set (field_items k f)) \<longrightarrow>
       valid_capsule (res_capsule res))"
proof -
  from run obtain ks final summaries c where ks: "ks = sort_key cap_id capsules"
    and inv: "reorg_inv env ks (all_work ks) final"
    and c: "c = reorganized_capsule env ks (rs_selected final) (rs_records final) budget" "capsule_constructs c"
    and used: "reorg_count env (ro_capsule_surface env c) = Inr (res_after res)"
    and res: "res_capsule res = c\<lparr>cap_token_cost := res_after res\<rparr>"
    and session: "\<forall>k \<in> set capsules. cap_session_key k = cap_session_key (hd ks)" and ne: "capsules \<noteq> []"
    by (rule reorganize_eq_Inr)
  have constructs: "capsule_constructs (res_capsule res)"
    using c(2) reorg_count_nonneg[OF used] unfolding res by (simp add: capsule_constructs_def)
  have key: "\<forall>k \<in> set capsules. cap_session_key (res_capsule res) = cap_session_key k"
    using session unfolding res c(1) by (simp add: reorganized_capsule_def)
  have typed: "item_typed x" if "x \<in> set (field_items (res_capsule res) f)" for f x
  proof -
    from that have "x \<in> set (rs_selected final f)" unfolding res c(1) reorganize_items[OF inv] .
    then obtain k i where "(k, f, i) \<in> set (all_work ks)" "represents env f i x"
      using inv unfolding reorg_inv_def selected_inv_def by blast
    with valid have "item_typed i" "x = i \<or> (\<exists>n. approximate_item env i n = Some x)"
      using field_items_typed by (auto simp: all_work_iff ks represents_def)
    then show ?thesis using approximate_typed by blast
  qed
  have "valid_capsule (res_capsule res)"
    if whole: "\<forall>f \<in> {DECISIONS, ENTITIES}. \<forall>x \<in> set (field_items (res_capsule res) f). \<exists>k \<in> set capsules. x \<in> set (field_items k f)"
  proof (rule valid_items[OF constructs _ typed])
    show "valid_session_key (cap_session_key (res_capsule res))"
      using key valid ne by (metis last_in_set valid_capsule_def)
    show "valid_decision d" if "d \<in> set (cap_decisions (res_capsule res))" for d
      using whole that valid by (fastforce simp: valid_capsule_def list_all_iff)
    show "valid_entity e" if "e \<in> set (cap_entities (res_capsule res))" for e
      using whole that valid by (fastforce simp: valid_capsule_def list_all_iff)
  qed
  with constructs key typed show ?thesis by blast
qed

end
