(* ===== verification/Reorganization_Witnesses.thy ===== *)
theory Reorganization_Witnesses
  imports Reorganization_Laws Scenario
begin

text \<open>
  Two concrete capsules and an environment that counts the bytes of their texts: a wide budget
  keeps every item, a narrow one truncates the decision of the second capsule.
\<close>

fun demo_item_surface :: "item \<Rightarrow> string" where
  "demo_item_surface (Claim_Item c) = claim_text c"
| "demo_item_surface (Decision_Item d) = decision_text d @ concat (decision_alternatives d)"
| "demo_item_surface (Entity_Item e) = entity_name e"
| "demo_item_surface (Anchor_Item a) = anchor_text a"
| "demo_item_surface (Dependency_Item d) = dependency_target d"

definition demo_reorg_env :: reorg_env where
  "demo_reorg_env = \<lparr>ro_capsule_surface = (\<lambda>k. concat (map (\<lambda>f. concat (map demo_item_surface (field_items k f))) all_fields)),
     ro_item_surface = demo_item_surface, ro_capsules_json = (\<lambda>ks. concat (map cap_id ks)),
     ro_sha256 = (\<lambda>s. replicate 64 (CHR ''0'')), ro_counter = utf8_byte_counter, ro_fl = (\<lambda>x. x),
     ro_ellipsis = CHR 0x7E\<rparr>"

definition demo_decision :: decision where
  "demo_decision = \<lparr>decision_id = ''d1'', decision_text = ''use the queue'', decision_status = ACTIVE,
     decision_confidence = 1, decision_sources = [''e1''], decision_rationale = [],
     decision_alternatives = [''alternative one'', ''alternative two''], decision_supersedes = [],
     decision_rejected_because = []\<rparr>"

definition demo_second :: capsule where
  "demo_second = demo_capsule\<lparr>cap_id := ''c2'', cap_goals := [], cap_exact_anchors := [], cap_decisions := [demo_decision]\<rparr>"

lemma demo_second_valid: "valid_capsule demo_second"
  by code_simp

definition demo_reorganized :: "int \<Rightarrow> reorganization_result" where
  "demo_reorganized n = (case reorganize_capsules demo_reorg_env [demo_second, demo_capsule] n of
     Inl e \<Rightarrow> \<lparr>res_capsule = demo_capsule, res_records = [], res_before = 0, res_after = 0, res_loss_count = 0,
       res_release_count = 0\<rparr>
   | Inr r \<Rightarrow> r)"

abbreviation demo_wide :: reorganization_result where
  "demo_wide \<equiv> demo_reorganized 100"

abbreviation demo_narrow :: reorganization_result where
  "demo_narrow \<equiv> demo_reorganized 40"

lemma demo_reorganizedI:
  assumes "case reorganize_capsules demo_reorg_env [demo_second, demo_capsule] n of Inl e \<Rightarrow> False | Inr r \<Rightarrow> P r"
  shows "reorganize_capsules demo_reorg_env [demo_second, demo_capsule] n = Inr (demo_reorganized n) \<and> P (demo_reorganized n)"
  using assms by (auto simp: demo_reorganized_def split: sum.splits)

lemma demo_wide_runs:
  "reorganize_capsules demo_reorg_env [demo_second, demo_capsule] 100 = Inr demo_wide \<and>
   cap_decisions (res_capsule demo_wide) = [demo_decision] \<and> cap_entities (res_capsule demo_wide) = []"
  by (rule demo_reorganizedI) code_simp

lemma demo_narrow_eval:
  "reorganize_capsules demo_reorg_env [demo_second, demo_capsule] 40 = Inr demo_narrow \<and>
   map (\<lambda>r. (rr_item r, rr_status r)) (res_records demo_narrow) =
     [(''a1'', RETAINED), (''c1:narrative_summary'', RELEASED), (''c2:narrative_summary'', RELEASED), (''g1'', RETAINED),
      (''d1'', APPROXIMATE)] \<and>
   map anchor_text (cap_exact_anchors (res_capsule demo_narrow)) = [''hello''] \<and>
   \<not> valid_capsule (res_capsule demo_narrow) \<and>
   map decision_alternatives (cap_decisions (res_capsule demo_narrow)) = [[''alternati~'', ''alternati~'']]"
  by (rule demo_reorganizedI) code_simp

lemma demo_narrow_runs: "reorganize_capsules demo_reorg_env [demo_second, demo_capsule] 40 = Inr demo_narrow"
  using demo_narrow_eval by simp

text \<open>
  The narrow budget truncates both alternatives to the same text: the decision in the result
  no longer passes the validator of its own class, which \<^verbatim>\<open>model_copy\<close> does not run.
\<close>

lemma truncation_breaks_uniqueness:
  "valid_capsule demo_second \<and> valid_capsule demo_capsule \<and> \<not> valid_capsule (res_capsule demo_narrow) \<and>
   map decision_alternatives (cap_decisions (res_capsule demo_narrow)) = [[''alternati~'', ''alternati~'']]"
  using demo_second_valid demo_narrow_eval by simp

theorem reorganize_exact_core_witness:
  "map anchor_text (cap_exact_anchors (res_capsule demo_narrow)) = [''hello''] \<and>
   set (field_items (res_capsule demo_narrow) EXACT_ANCHORS) =
     (\<Union>k \<in> {demo_second, demo_capsule}. set (field_items k EXACT_ANCHORS)) \<and> cap_token_cost (res_capsule demo_narrow) \<le> 40"
proof -
  have f: "EXACT_ANCHORS \<in> set core_fields" by (simp add: core_fields_def)
  note core = reorganize_exact_core[OF demo_narrow_runs]
  from core f have "set (field_items (res_capsule demo_narrow) EXACT_ANCHORS) =
     (\<Union>k \<in> set [demo_second, demo_capsule]. set (field_items k EXACT_ANCHORS))" by blast
  moreover from core have "cap_token_cost (res_capsule demo_narrow) \<le> 40" by simp
  ultimately show ?thesis using demo_narrow_eval by simp
qed


theorem reorganize_typed_witness:
  "valid_capsule (res_capsule demo_wide) \<and> length (cap_decisions (res_capsule demo_wide)) = 1"
proof -
  have "cap_decisions (res_capsule demo_wide) = [demo_decision]" "cap_entities (res_capsule demo_wide) = []"
    using demo_wide_runs by simp_all
  then have "\<forall>f \<in> {DECISIONS, ENTITIES}. \<forall>x \<in> set (field_items (res_capsule demo_wide) f).
      \<exists>k \<in> set [demo_second, demo_capsule]. x \<in> set (field_items k f)" "length (cap_decisions (res_capsule demo_wide)) = 1"
    by (simp_all add: demo_second_def)
  moreover have "\<forall>k \<in> set [demo_second, demo_capsule]. valid_capsule k" by (simp add: demo_second_valid)
  ultimately show ?thesis using reorganize_typed[OF conjunct1[OF demo_wide_runs]] by blast
qed

end
