(* ===== verification/Memory_Service.thy ===== *)
theory Memory_Service
  imports Tool_Loop
begin

text \<open>
  The in-memory reference service: the values of \<^verbatim>\<open>models.py\<close>, the stores of \<^verbatim>\<open>in_memory.py\<close>,
  the protocols of \<^verbatim>\<open>ports.py\<close> as locales, the scaffold compiler of \<^verbatim>\<open>compiler_stub.py\<close>, the
  mechanical auditor of \<^verbatim>\<open>auditor.py\<close> and the compaction of \<^verbatim>\<open>service.py\<close>. At every
  \<^verbatim>\<open>await\<close> of the service other tasks may append events or commit snapshots: these
  interleavings are a parameter. Identifiers from \<^verbatim>\<open>uuid4\<close> and the clock are parameters too.
\<close>

section \<open>Values\<close>

datatype claim_status = CLAIM_ACTIVE | CLAIM_SUPERSEDED | CLAIM_RETRACTED | CLAIM_UNCERTAIN

record context_event =
  xe_id :: string
  xe_session :: string
  xe_sequence :: int
  xe_type :: string
  xe_role :: string
  xe_content :: string
  xe_created_at :: rat
  xe_metadata :: "(string \<times> json) list"

record context_claim =
  xc_id :: string
  xc_kind :: string
  xc_text :: string
  xc_status :: claim_status
  xc_confidence :: rat
  xc_sources :: "string list"

record exact_anchor =
  xa_id :: string
  xa_type :: string
  xa_text :: string
  xa_source :: string
  xa_status :: claim_status
  xa_importance :: rat

datatype context_level = LEVEL_MICRO | LEVEL_EPISODE | LEVEL_TASK | LEVEL_GLOBAL

record context_capsule =
  xk_id :: string
  xk_level :: context_level
  xk_session :: string
  xk_start :: int
  xk_end :: int
  xk_claims :: "context_claim list"
  xk_decisions :: "context_claim list"
  xk_anchors :: "exact_anchor list"
  xk_dependencies :: "string list"
  xk_summary :: string
  xk_token_cost :: int
  xk_source_coverage :: rat

record context_snapshot =
  xs_id :: string
  xs_session :: string
  xs_version :: int
  xs_covered :: int
  xs_capsules :: "context_capsule list"
  xs_committed :: bool
  xs_created_at :: rat
  xs_base_version :: "int option"

text \<open>The issues of a report, with the identifiers or texts that their message lists.\<close>

datatype audit_issue =
  Missing_Anchor_Sources "string list" | Unsupported_Claims "string list" | Duplicate_Active_Claims "string list"

record audit_report =
  xr_passed :: bool
  xr_anchor_recall :: rat
  xr_constraint_recall :: rat
  xr_open_loop_recall :: rat
  xr_source_coverage :: rat
  xr_contradictions :: int
  xr_unsupported :: int
  xr_token_before :: int
  xr_token_after :: int
  xr_issues :: "audit_issue list"

section \<open>Stores\<close>

datatype memory_error = MEMORY_VALUE_ERROR | COMPILER_RAISED

type_synonym event_store = "string \<Rightarrow> context_event list"

type_synonym snapshot_store = "string \<rightharpoonup> context_snapshot"

definition append_context_event :: "context_event \<Rightarrow> event_store \<Rightarrow> memory_error + event_store" where
  "append_context_event e store =
     (let events = store (xe_session e) in
      if events \<noteq> [] \<and> xe_sequence e \<le> xe_sequence (last events) then Inl MEMORY_VALUE_ERROR
      else Inr (store(xe_session e := events @ [e])))"

definition latest_sequence :: "event_store \<Rightarrow> string \<Rightarrow> int" where
  "latest_sequence store sid = (if store sid = [] then 0 else xe_sequence (last (store sid)))"

definition read_after :: "event_store \<Rightarrow> string \<Rightarrow> int \<Rightarrow> context_event list" where
  "read_after store sid n = filter (\<lambda>e. xe_sequence e > n) (store sid)"

definition read_range :: "event_store \<Rightarrow> string \<Rightarrow> int \<Rightarrow> int \<Rightarrow> context_event list" where
  "read_range store sid low high = filter (\<lambda>e. low \<le> xe_sequence e \<and> xe_sequence e \<le> high) (store sid)"

definition latest_committed :: "snapshot_store \<Rightarrow> string \<Rightarrow> context_snapshot option" where
  "latest_committed store sid = store sid"

definition commit_candidate ::
  "context_snapshot \<Rightarrow> int option \<Rightarrow> snapshot_store \<Rightarrow> memory_error + bool \<times> snapshot_store" where
  "commit_candidate candidate expected store =
     (if \<not> xs_committed candidate then Inl MEMORY_VALUE_ERROR
      else if map_option xs_version (store (xs_session candidate)) \<noteq> expected then Inr (False, store)
      else Inr (True, store(xs_session candidate \<mapsto> candidate)))"

section \<open>Auditor\<close>

definition rough_tokens :: "string \<Rightarrow> int" where
  "rough_tokens t = max 1 (int (length t) div 4)"

definition audit_anchors :: "context_snapshot \<Rightarrow> exact_anchor list" where
  "audit_anchors candidate =
     filter (\<lambda>a. xa_status a = CLAIM_ACTIVE) (concat (map xk_anchors (xs_capsules candidate)))"

definition audit_claims :: "context_snapshot \<Rightarrow> context_claim list" where
  "audit_claims candidate =
     filter (\<lambda>c. xc_status c = CLAIM_ACTIVE)
       (concat (map (\<lambda>k. xk_claims k @ xk_decisions k) (xs_capsules candidate)))"

text \<open>The keys of a \<^verbatim>\<open>Counter\<close> whose count is above one, in the order of first occurrence.\<close>

fun repeated_from :: "string list \<Rightarrow> string list \<Rightarrow> string list" where
  "repeated_from before [] = []"
| "repeated_from before (t # ts) =
     (if t \<notin> set before \<and> t \<in> set ts then t # repeated_from (t # before) ts else repeated_from (t # before) ts)"

definition repeated :: "string list \<Rightarrow> string list" where
  "repeated ts = repeated_from [] ts"

definition audit_candidate ::
  "(rat \<Rightarrow> rat) \<Rightarrow> context_snapshot \<Rightarrow> context_event list \<Rightarrow> audit_report" where
  "audit_candidate fl candidate covered =
     (let ids = set (map xe_id covered);
          anchors = audit_anchors candidate;
          claims = audit_claims candidate;
          missing = map xa_id (filter (\<lambda>a. xa_source a \<notin> ids) anchors);
          unsupported = map xc_id (filter (\<lambda>c. xc_sources c = [] \<or> (\<exists>s \<in> set (xc_sources c). s \<notin> ids)) claims);
          duplicates = repeated (map xc_text claims);
          issues = (if missing \<noteq> [] then [Missing_Anchor_Sources missing] else []) @
            (if unsupported \<noteq> [] then [Unsupported_Claims unsupported] else []) @
            (if duplicates \<noteq> [] then [Duplicate_Active_Claims duplicates] else []);
          coverage = (if claims = [] then 1
            else fl (of_nat (length (filter (\<lambda>c. xc_sources c \<noteq> []) claims)) / of_nat (length claims)))
      in \<lparr>xr_passed = (issues = [] \<and> coverage = 1), xr_anchor_recall = (if missing = [] then 1 else 0),
          xr_constraint_recall = 1, xr_open_loop_recall = 1, xr_source_coverage = coverage,
          xr_contradictions = int (length duplicates), xr_unsupported = int (length unsupported),
          xr_token_before = sum_list (map (\<lambda>e. rough_tokens (xe_content e)) covered),
          xr_token_after = sum_list (map xk_token_cost (xs_capsules candidate)), xr_issues = issues\<rparr>)"

section \<open>Compiler\<close>

type_synonym capsule_compiler =
  "string \<Rightarrow> context_snapshot option \<Rightarrow> context_event list \<Rightarrow> memory_error + context_capsule list"

text \<open>The identifiers \<^verbatim>\<open>uuid4\<close> returns, one per call: a claim's for each event, then the capsule's.\<close>

definition scaffold_compile :: "(nat \<Rightarrow> string) \<Rightarrow> capsule_compiler" where
  "scaffold_compile uuid sid base events =
     (if events = [] then Inr []
      else Inr [\<lparr>xk_id = uuid (length events), xk_level = LEVEL_MICRO, xk_session = sid,
        xk_start = xe_sequence (hd events), xk_end = xe_sequence (last events),
        xk_claims = map (\<lambda>(n, e). \<lparr>xc_id = uuid n, xc_kind = ''fact'', xc_text = xe_content e, xc_status = CLAIM_ACTIVE,
          xc_confidence = 1, xc_sources = [xe_id e]\<rparr>) (enumerate 0 events),
        xk_decisions = [], xk_anchors = [], xk_dependencies = [],
        xk_summary = ''Scaffold capsule; replace with real compiler.'',
        xk_token_cost = sum_list (map (\<lambda>e. rough_tokens (xe_content e)) events), xk_source_coverage = 1\<rparr>])"

section \<open>Service\<close>

record memory_state =
  ms_events :: event_store
  ms_active :: snapshot_store

text \<open>What the service is given, and the operations of other tasks at its five awaits.\<close>

record memory_world =
  mw_uuid :: string
  mw_time :: rat
  mw_fl :: "rat \<Rightarrow> rat"
  mw_compiler :: capsule_compiler
  mw_others :: "nat \<Rightarrow> memory_state \<Rightarrow> memory_state"

definition base_version :: "context_snapshot option \<Rightarrow> int option" where
  "base_version base = map_option xs_version base"

definition candidate_of ::
  "memory_world \<Rightarrow> string \<Rightarrow> context_snapshot option \<Rightarrow> context_event list \<Rightarrow> context_capsule list \<Rightarrow> context_snapshot" where
  "candidate_of w sid base delta capsules =
     \<lparr>xs_id = mw_uuid w, xs_session = sid,
      xs_version = (case base of None \<Rightarrow> 1 | Some b \<Rightarrow> xs_version b + 1), xs_covered = xe_sequence (last delta),
      xs_capsules = capsules, xs_committed = False, xs_created_at = mw_time w, xs_base_version = base_version base\<rparr>"

definition compact_session ::
  "memory_world \<Rightarrow> string \<Rightarrow> memory_state \<Rightarrow> (memory_error + bool) \<times> memory_state" where
  "compact_session w sid s0 =
     (let base = latest_committed (ms_active s0) sid;
          covered = (case base of None \<Rightarrow> 0 | Some b \<Rightarrow> xs_covered b);
          s1 = mw_others w 0 s0;
          delta = read_after (ms_events s1) sid covered
      in if delta = [] then (Inr False, s1)
         else let s2 = mw_others w 1 s1 in
           case mw_compiler w sid base delta of
             Inl e \<Rightarrow> (Inl e, s2)
           | Inr capsules \<Rightarrow>
               let candidate = candidate_of w sid base delta capsules;
                   s3 = mw_others w 2 s2;
                   events = read_range (ms_events s3) sid 1 (xs_covered candidate);
                   s4 = mw_others w 3 s3
               in if \<not> xr_passed (audit_candidate (mw_fl w) candidate events) then (Inr False, s4)
                  else let s5 = mw_others w 4 s4 in
                    case commit_candidate (candidate\<lparr>xs_committed := True\<rparr>) (base_version base) (ms_active s5) of
                      Inl e \<Rightarrow> (Inl e, s5)
                    | Inr (committed, active) \<Rightarrow> (Inr committed, s5\<lparr>ms_active := active\<rparr>))"

end
