(* ===== verification/Memory_Laws.thy ===== *)
theory Memory_Laws
  imports Memory_Service
begin

text \<open>
  The protocols of \<^verbatim>\<open>ports.py\<close> as locales with the laws their clients rely on, the in-memory
  stores as their models, and the service on top: what a compaction commits under interleaved
  operations of other tasks, and when the scaffold compiler gets through the auditor.
\<close>

section \<open>The event store\<close>

locale event_store_port =
  fixes stored :: "'s \<Rightarrow> bool" and append_to :: "context_event \<Rightarrow> 's \<Rightarrow> memory_error + 's"
    and after :: "'s \<Rightarrow> string \<Rightarrow> int \<Rightarrow> context_event list"
    and between :: "'s \<Rightarrow> string \<Rightarrow> int \<Rightarrow> int \<Rightarrow> context_event list"
  assumes append_stored: "stored s \<Longrightarrow> append_to e s = Inr s' \<Longrightarrow> stored s'"
    and after_ascending: "stored s \<Longrightarrow> sorted_wrt (<) (map xe_sequence (after s i n))"
    and after_later: "e \<in> set (after s i n) \<Longrightarrow> n < xe_sequence e"
    and after_between: "e \<in> set (after s i n) \<Longrightarrow> l \<le> xe_sequence e \<Longrightarrow> xe_sequence e \<le> h \<Longrightarrow> e \<in> set (between s i l h)"
    and append_grows: "append_to e s = Inr s' \<Longrightarrow> set (between s i l h) \<subseteq> set (between s' i l h)"
    and append_visible: "append_to e s = Inr s' \<Longrightarrow> n < xe_sequence e \<Longrightarrow> e \<in> set (after s' (xe_session e) n)"
begin

lemma after_last:
  assumes "stored s" "e \<in> set (after s i n)"
  shows "xe_sequence e \<le> xe_sequence (last (after s i n))"
proof -
  from assms(2) obtain xs ys where xs: "after s i n = xs @ e # ys" by (meson split_list)
  with after_ascending[OF assms(1), of i n] show ?thesis
    by (cases ys rule: rev_cases) (auto simp: sorted_wrt_append)
qed

lemma delta_covered:
  assumes "stored s" "0 \<le> n"
  shows "set (after s i n) \<subseteq> set (between s i 1 (xe_sequence (last (after s i n))))"
proof
  fix e assume e: "e \<in> set (after s i n)"
  from after_later[OF e] assms(2) have "1 \<le> xe_sequence e" by simp
  from after_between[OF e this after_last[OF assms(1) e]] show "e \<in> set (between s i 1 (xe_sequence (last (after s i n))))" .
qed

lemma coverage_advances:
  assumes "after s i n \<noteq> []"
  shows "n < xe_sequence (last (after s i n))"
  using after_later[OF last_in_set[OF assms]] .

end

definition ascending :: "event_store \<Rightarrow> bool" where
  "ascending store \<longleftrightarrow> (\<forall>sid. sorted_wrt (<) (map xe_sequence (store sid)))"

lemma sorted_wrt_snoc: "sorted_wrt (<) (xs @ [x :: int]) \<longleftrightarrow> sorted_wrt (<) xs \<and> (xs = [] \<or> last xs < x)"
  by (induction xs rule: rev_induct) (auto simp: sorted_wrt_append)

lemma sorted_wrt_map_filter: "sorted_wrt r (map f xs) \<Longrightarrow> sorted_wrt r (map f (filter p xs))"
  by (induction xs) auto

interpretation memory_events: event_store_port ascending append_context_event read_after read_range
proof
  fix store :: event_store and e store'
  assume ok: "ascending store" and a: "append_context_event e store = Inr store'"
  then have "sorted_wrt (<) (map xe_sequence (store (xe_session e) @ [e]))"
    by (cases "store (xe_session e) = []")
       (auto simp: ascending_def append_context_event_def sorted_wrt_snoc last_map split: if_splits)
  with ok a show "ascending store'"
    by (auto simp: ascending_def append_context_event_def split: if_splits)
next
  fix store :: event_store and i n assume "ascending store"
  then show "sorted_wrt (<) (map xe_sequence (read_after store i n))"
    unfolding read_after_def ascending_def by (blast intro: sorted_wrt_map_filter)
qed (auto simp: read_after_def read_range_def append_context_event_def split: if_splits)

section \<open>The snapshot store\<close>

locale snapshot_store_port =
  fixes latest :: "'s \<Rightarrow> string \<Rightarrow> context_snapshot option"
    and commit :: "context_snapshot \<Rightarrow> int option \<Rightarrow> 's \<Rightarrow> memory_error + bool \<times> 's"
  assumes commit_wins: "commit c v s = Inr (True, s') \<Longrightarrow>
      xs_committed c \<and> base_version (latest s (xs_session c)) = v \<and> latest s' (xs_session c) = Some c"
    and commit_others: "commit c v s = Inr (b, s') \<Longrightarrow> i \<noteq> xs_session c \<Longrightarrow> latest s' i = latest s i"
    and commit_loses: "commit c v s = Inr (False, s') \<Longrightarrow> s' = s"
begin

definition succeeds :: "context_snapshot option \<Rightarrow> context_snapshot option \<Rightarrow> bool" where
  "succeeds a b \<longleftrightarrow> a = b \<or> (\<exists>c. b = Some c \<and> (case a of None \<Rightarrow> True | Some d \<Rightarrow> xs_version d < xs_version c))"

lemma succeeds_trans: "succeeds a b \<Longrightarrow> succeeds b c \<Longrightarrow> succeeds a c"
  by (auto simp: succeeds_def split: option.splits)

lemma succeeds_version: "succeeds a b \<Longrightarrow> base_version a = base_version b \<Longrightarrow> a = b"
  by (auto simp: succeeds_def base_version_def split: option.splits)

lemma commit_succeeds:
  assumes "commit c v s = Inr (b, s')" "\<forall>n. v = Some n \<longrightarrow> n < xs_version c"
  shows "succeeds (latest s i) (latest s' i)"
proof (cases b)
  case True
  with commit_wins assms(1) have "base_version (latest s (xs_session c)) = v" "latest s' (xs_session c) = Some c" by auto
  with assms commit_others[OF assms(1)] show ?thesis
    by (cases "i = xs_session c") (auto simp: succeeds_def base_version_def split: option.splits)
next
  case False
  with commit_loses assms(1) show ?thesis by (auto simp: succeeds_def)
qed

end

interpretation memory_snapshots: snapshot_store_port latest_committed commit_candidate
  by unfold_locales (auto simp: latest_committed_def commit_candidate_def base_version_def split: if_splits)

section \<open>Other tasks\<close>

text \<open>
  Another task appends an event, or commits a snapshot whose version is above the one it was
  based on (every commit of the service is of this kind).
\<close>

inductive memory_step :: "memory_state \<Rightarrow> memory_state \<Rightarrow> bool" where
  step_append: "append_context_event e (ms_events s) = Inr ev \<Longrightarrow> memory_step s (s\<lparr>ms_events := ev\<rparr>)"
| step_commit: "commit_candidate c v (ms_active s) = Inr (b, a) \<Longrightarrow> (\<forall>n. v = Some n \<longrightarrow> n < xs_version c) \<Longrightarrow>
    memory_step s (s\<lparr>ms_active := a\<rparr>)"

abbreviation memory_steps :: "memory_state \<Rightarrow> memory_state \<Rightarrow> bool" where
  "memory_steps \<equiv> memory_step\<^sup>*\<^sup>*"

definition cooperative :: "memory_world \<Rightarrow> bool" where
  "cooperative w \<longleftrightarrow> (\<forall>n s. memory_steps s (mw_others w n s))"

lemma memory_steps_keep:
  assumes "memory_steps s t"
  shows "ascending (ms_events s) \<Longrightarrow> ascending (ms_events t)"
    and "memory_snapshots.succeeds (ms_active s i) (ms_active t i)"
    and "set (read_range (ms_events s) i l h) \<subseteq> set (read_range (ms_events t) i l h)"
  using assms
proof (induction rule: rtranclp_induct)
  case base
  { case 1 then show ?case . }
  { case 2 show ?case by (simp add: memory_snapshots.succeeds_def) }
  { case 3 show ?case by simp }
next
  case (step t u)
  { case 1 with step show ?case
      by (auto elim!: memory_step.cases intro: memory_events.append_stored) }
  { case 2
    from step.hyps(2) have "memory_snapshots.succeeds (ms_active t i) (ms_active u i)"
    proof cases
      case (step_commit c v b a)
      from memory_snapshots.commit_succeeds[OF step_commit(2,3), of i] step_commit(1) show ?thesis
        by (simp add: latest_committed_def)
    qed (simp add: memory_snapshots.succeeds_def)
    with step.IH(2) show ?case by (rule memory_snapshots.succeeds_trans) }
  { case 3
    from step.hyps(2) have "set (read_range (ms_events t) i l h) \<subseteq> set (read_range (ms_events u) i l h)"
      by (auto elim!: memory_step.cases dest: memory_events.append_grows[THEN subsetD])
    with step.IH(3) show ?case by blast }
qed

section \<open>The service\<close>

lemma repeated_from_eq_Nil: "repeated_from before ts = [] \<longleftrightarrow> distinct (filter (\<lambda>t. t \<notin> set before) ts)"
proof (induction ts arbitrary: before)
  case (Cons t ts)
  have "filter (\<lambda>u. u \<noteq> t \<and> u \<notin> set before) ts = filter (\<lambda>u. u \<notin> set before) ts" if "t \<in> set before \<or> t \<notin> set ts"
    using that by (auto intro!: filter_cong)
  with Cons[of "t # before"] show ?case by auto
qed simp

lemma repeated_eq_Nil: "repeated ts = [] \<longleftrightarrow> distinct ts"
  by (simp add: repeated_def repeated_from_eq_Nil)

text \<open>What an audit that passed guarantees.\<close>

definition traceable :: "context_snapshot \<Rightarrow> context_event list \<Rightarrow> bool" where
  "traceable c events \<longleftrightarrow>
     (\<forall>a \<in> set (audit_anchors c). xa_source a \<in> xe_id ` set events) \<and>
     (\<forall>k \<in> set (audit_claims c). xc_sources k \<noteq> [] \<and> set (xc_sources k) \<subseteq> xe_id ` set events) \<and>
     distinct (map xc_text (audit_claims c))"

lemma audit_passed_iff:
  assumes "fl 1 = 1"
  shows "xr_passed (audit_candidate fl c events) \<longleftrightarrow> traceable c events"
proof -
  have "fl (of_nat (length (filter (\<lambda>k. xc_sources k \<noteq> []) (audit_claims c))) / of_nat (length (audit_claims c))) = 1"
    if "\<forall>k \<in> set (audit_claims c). xc_sources k \<noteq> []" "audit_claims c \<noteq> []"
  proof -
    from that have "filter (\<lambda>k. xc_sources k \<noteq> []) (audit_claims c) = audit_claims c" by simp
    with that assms show ?thesis by simp
  qed
  moreover have "traceable c events \<Longrightarrow> \<forall>k \<in> set (audit_claims c). xc_sources k \<noteq> []" by (simp add: traceable_def)
  ultimately show ?thesis
    by (auto simp: audit_candidate_def traceable_def repeated_eq_Nil filter_empty_conv)
qed

lemma traceable_mono: "traceable c es \<Longrightarrow> set es \<subseteq> set es' \<Longrightarrow> traceable c es'"
  by (fastforce simp: traceable_def)

lemma traceable_committed [simp]: "traceable (c\<lparr>xs_committed := b\<rparr>) es = traceable c es"
  by (simp add: traceable_def audit_anchors_def audit_claims_def)

lemma audit_passed_traceable: "xr_passed (audit_candidate fl c events) \<Longrightarrow> traceable c events"
  by (auto simp: audit_candidate_def traceable_def repeated_eq_Nil filter_empty_conv split: if_splits)

lemma candidate_covered: "xs_covered (candidate_of w sid base delta capsules) = xe_sequence (last delta)"
  by (simp add: candidate_of_def)

lemma compact_session_cases:
  assumes run: "compact_session w sid s0 = (r, s')" and coop: "cooperative w"
  defines "base \<equiv> ms_active s0 sid"
  defines "covered \<equiv> case base of None \<Rightarrow> 0 | Some b \<Rightarrow> xs_covered b"
  obtains (lost) "r \<noteq> Inr True" "memory_steps s0 s'"
  | (won) s1 s3 s5 :: memory_state and capsules where "r = Inr True" "memory_steps s0 s5" "memory_steps s3 s5"
      "read_after (ms_events s1) sid covered \<noteq> []"
      "xr_passed (audit_candidate (mw_fl w) (candidate_of w sid base (read_after (ms_events s1) sid covered) capsules)
         (read_range (ms_events s3) sid 1 (xe_sequence (last (read_after (ms_events s1) sid covered)))))"
      "base_version (ms_active s5 sid) = base_version base"
      "s' = s5\<lparr>ms_active := (ms_active s5)(sid \<mapsto>
         (candidate_of w sid base (read_after (ms_events s1) sid covered) capsules)\<lparr>xs_committed := True\<rparr>)\<rparr>"
proof -
  define s1 where "s1 = mw_others w 0 s0"
  define s2 where "s2 = mw_others w 1 s1"
  define s3 where "s3 = mw_others w 2 s2"
  define s4 where "s4 = mw_others w 3 s3"
  define s5 where "s5 = mw_others w 4 s4"
  let ?delta = "read_after (ms_events s1) sid covered"
  have st: "memory_steps s0 s1" "memory_steps s0 s2" "memory_steps s0 s4" "memory_steps s0 s5" "memory_steps s3 s5"
    using coop unfolding s1_def s2_def s3_def s4_def s5_def cooperative_def by (meson rtranclp_trans)+
  note run' = run[unfolded compact_session_def Let_def latest_committed_def, folded base_def, folded covered_def,
      folded s1_def, folded s2_def, folded s3_def, folded s4_def, folded s5_def]
  show thesis
  proof (cases "?delta = []")
    case delta: False
    show thesis
    proof (cases "mw_compiler w sid base ?delta")
      case (Inr capsules)
      let ?c = "candidate_of w sid base ?delta capsules"
      have c: "xs_session ?c = sid" "xs_covered ?c = xe_sequence (last ?delta)" by (simp_all add: candidate_of_def)
      show thesis
      proof (cases "xr_passed (audit_candidate (mw_fl w) ?c (read_range (ms_events s3) sid 1 (xs_covered ?c)))")
        case passed: True
        note facts = run' delta Inr passed c
        show thesis
        proof (cases "base_version (ms_active s5 sid) = base_version base")
          case True
          with facts have "r = Inr True" "s' = s5\<lparr>ms_active := (ms_active s5)(sid \<mapsto> ?c\<lparr>xs_committed := True\<rparr>)\<rparr>"
            by (simp_all add: commit_candidate_def base_version_def)
          with won[OF _ st(4,5) delta] passed True c show thesis by simp
        next
          case False
          with facts have "r = Inr False" "s' = s5" by (auto simp: commit_candidate_def base_version_def)
          with lost st(4) show thesis by simp
        qed
      qed (use lost run' delta Inr st(3) in auto)
    qed (use lost run' delta st(2) in auto)
  qed (use lost run' st(1) in auto)
qed

text \<open>
  C34. A compaction of the reference service commits at most one snapshot and is serializable:
  whatever other tasks append or commit while it waits, a run that does not return true leaves
  only their operations behind; a run that returns true replaces exactly the snapshot it was
  based on, with the next version and a strictly higher coverage, and every active claim and
  anchor of the new snapshot has its sources in the covered part of the journal.
\<close>

theorem compact_session_serializable:
  assumes run: "compact_session w sid s0 = (r, s')" and coop: "cooperative w" and ok: "ascending (ms_events s0)"
  shows "ascending (ms_events s') \<and> (r \<noteq> Inr True \<longrightarrow> memory_steps s0 s') \<and>
    (r = Inr True \<longrightarrow> (\<exists>s5 c. memory_steps s0 s5 \<and> s' = s5\<lparr>ms_active := (ms_active s5)(sid \<mapsto> c)\<rparr> \<and>
       ms_active s5 sid = ms_active s0 sid \<and> xs_committed c \<and> xs_base_version c = base_version (ms_active s0 sid) \<and>
       xs_version c = (case ms_active s0 sid of None \<Rightarrow> 1 | Some b \<Rightarrow> xs_version b + 1) \<and>
       (case ms_active s0 sid of None \<Rightarrow> 0 | Some b \<Rightarrow> xs_covered b) < xs_covered c \<and>
       traceable c (read_range (ms_events s') sid 1 (xs_covered c))))"
  using run coop
proof (cases rule: compact_session_cases)
  case lost
  with memory_steps_keep(1)[OF lost(2) ok] show ?thesis by simp
next
  case (won s1 s3 s5 capsules)
  let ?base = "ms_active s0 sid"
  let ?delta = "read_after (ms_events s1) sid (case ?base of None \<Rightarrow> 0 | Some b \<Rightarrow> xs_covered b)"
  let ?c = "(candidate_of w sid ?base ?delta capsules)\<lparr>xs_committed := True\<rparr>"
  have "ms_active s5 sid = ?base"
    using memory_snapshots.succeeds_version[OF memory_steps_keep(2)[OF won(2)] won(6)[symmetric]] by simp
  moreover have "(case ?base of None \<Rightarrow> 0 | Some b \<Rightarrow> xs_covered b) < xs_covered ?c"
    using memory_events.coverage_advances[OF won(4)] by (simp add: candidate_of_def)
  moreover have "traceable ?c (read_range (ms_events s') sid 1 (xs_covered ?c))"
    using traceable_mono[OF audit_passed_traceable[OF won(5)] memory_steps_keep(3)[OF won(3)]] won(7)
    by (simp add: candidate_covered)
  moreover have "ascending (ms_events s')" using memory_steps_keep(1)[OF won(2) ok] won(7) by simp
  moreover have "xs_committed ?c" "xs_base_version ?c = base_version ?base"
    "xs_version ?c = (case ?base of None \<Rightarrow> 1 | Some b \<Rightarrow> xs_version b + 1)" by (simp_all add: candidate_of_def)
  ultimately show ?thesis using won(1,2,7) by blast
qed

section \<open>The scaffold compiler\<close>

lemma scaffold_claims:
  assumes "scaffold_compile uuid sid base es = Inr capsules" "es \<noteq> []"
  shows "map xc_text (audit_claims (candidate_of w i base es capsules)) = map xe_content es"
    "map xc_sources (audit_claims (candidate_of w i base es capsules)) = map (\<lambda>e. [xe_id e]) es"
    "audit_anchors (candidate_of w i base es capsules) = []"
proof -
  define mk :: "nat \<times> context_event \<Rightarrow> context_claim" where
    "mk = (\<lambda>(n, e). \<lparr>xc_id = uuid n, xc_kind = ''fact'', xc_text = xe_content e, xc_status = CLAIM_ACTIVE,
        xc_confidence = 1, xc_sources = [xe_id e]\<rparr>)"
  have "xs_capsules (candidate_of w i base es capsules) = capsules" by (simp add: candidate_of_def)
  moreover from assms have "concat (map (\<lambda>k. xk_claims k @ xk_decisions k) capsules) = map mk (enumerate 0 es)"
    "concat (map xk_anchors capsules) = []" by (auto simp: scaffold_compile_def mk_def)
  moreover have "filter (\<lambda>c. xc_status c = CLAIM_ACTIVE) (map mk (enumerate 0 es)) = map mk (enumerate 0 es)"
    by (auto simp: mk_def filter_id_conv)
  moreover have "xc_text \<circ> mk = xe_content \<circ> snd" "xc_sources \<circ> mk = (\<lambda>e. [xe_id e]) \<circ> snd" by (auto simp: mk_def fun_eq_iff)
  moreover have "map (f \<circ> snd) (enumerate 0 es) = map f es" for f :: "context_event \<Rightarrow> 'z"
    by (metis list.map_comp map_snd_enumerate)
  ultimately show "map xc_text (audit_claims (candidate_of w i base es capsules)) = map xe_content es"
    "map xc_sources (audit_claims (candidate_of w i base es capsules)) = map (\<lambda>e. [xe_id e]) es"
    "audit_anchors (candidate_of w i base es capsules) = []"
    by (simp_all add: audit_claims_def audit_anchors_def)
qed

lemma scaffold_traceable:
  assumes "scaffold_compile uuid sid base es = Inr capsules" "es \<noteq> []" "set es \<subseteq> set covered"
  shows "traceable (candidate_of w i base es capsules) covered \<longleftrightarrow> distinct (map xe_content es)"
proof -
  let ?c = "candidate_of w i base es capsules"
  have "xc_sources k \<noteq> [] \<and> set (xc_sources k) \<subseteq> xe_id ` set covered" if "k \<in> set (audit_claims ?c)" for k
  proof -
    from that have "xc_sources k \<in> set (map xc_sources (audit_claims ?c))" by simp
    with assms show ?thesis unfolding scaffold_claims(2)[OF assms(1,2)] by auto
  qed
  then show ?thesis by (auto simp: traceable_def scaffold_claims[OF assms(1,2)])
qed

text \<open>
  Alone, with the scaffold compiler, a compaction commits exactly when there is a delta and no
  two of its events have the same content: a repeated message blocks the session for good.
\<close>

lemma scaffold_compaction_commits:
  assumes w: "mw_compiler w = scaffold_compile uuid" "mw_others w = (\<lambda>_ s. s)" "mw_fl w 1 = 1"
    and ok: "ascending (ms_events s)" and covered: "0 \<le> (case ms_active s sid of None \<Rightarrow> 0 | Some b \<Rightarrow> xs_covered b)"
  defines "delta \<equiv> read_after (ms_events s) sid (case ms_active s sid of None \<Rightarrow> 0 | Some b \<Rightarrow> xs_covered b)"
  shows "fst (compact_session w sid s) = Inr (delta \<noteq> [] \<and> distinct (map xe_content delta))"
    and "\<not> (delta \<noteq> [] \<and> distinct (map xe_content delta)) \<Longrightarrow> compact_session w sid s = (Inr False, s)"
proof -
  let ?base = "ms_active s sid"
  have "compact_session w sid s =
    (if delta = [] \<or> \<not> distinct (map xe_content delta) then (Inr False, s)
     else (Inr True, s\<lparr>ms_active := (ms_active s)(sid \<mapsto>
       (candidate_of w sid ?base delta (projr (scaffold_compile uuid sid ?base delta)))\<lparr>xs_committed := True\<rparr>)\<rparr>))"
  proof (cases "delta = []")
    case False
    obtain capsules where k: "scaffold_compile uuid sid ?base delta = Inr capsules"
      using False by (auto simp: scaffold_compile_def)
    have "set delta \<subseteq> set (read_range (ms_events s) sid 1 (xe_sequence (last delta)))"
      unfolding delta_def by (rule memory_events.delta_covered[OF ok covered])
    from scaffold_traceable[OF k False this] have
      "xr_passed (audit_candidate (mw_fl w) (candidate_of w sid ?base delta capsules)
         (read_range (ms_events s) sid 1 (xe_sequence (last delta)))) \<longleftrightarrow> distinct (map xe_content delta)"
      unfolding audit_passed_iff[of "mw_fl w", OF w(3)] .
    moreover have "xs_covered (candidate_of w sid ?base delta capsules) = xe_sequence (last delta)"
      "xs_session (candidate_of w sid ?base delta capsules) = sid" by (simp_all add: candidate_of_def)
    ultimately show ?thesis using False k
      by (simp add: compact_session_def latest_committed_def w delta_def[symmetric] commit_candidate_def base_version_def)
  qed (simp add: compact_session_def latest_committed_def w delta_def)
  then show "fst (compact_session w sid s) = Inr (delta \<noteq> [] \<and> distinct (map xe_content delta))"
    "\<not> (delta \<noteq> [] \<and> distinct (map xe_content delta)) \<Longrightarrow> compact_session w sid s = (Inr False, s)" by auto
qed

section \<open>Witness\<close>

definition demo_note :: "string \<Rightarrow> int \<Rightarrow> string \<Rightarrow> context_event" where
  "demo_note i n t = \<lparr>xe_id = i, xe_session = ''s'', xe_sequence = n, xe_type = ''message'', xe_role = ''user'', xe_content = t,
     xe_created_at = 0, xe_metadata = []\<rparr>"

definition demo_memory :: memory_state where
  "demo_memory = \<lparr>ms_events = (\<lambda>i. if i = ''s'' then [demo_note ''n1'' 1 ''first'', demo_note ''n2'' 2 ''second''] else []),
     ms_active = (\<lambda>_. None)\<rparr>"

text \<open>Another task appends a third event while the compiler runs.\<close>

definition demo_append :: "memory_state \<Rightarrow> memory_state" where
  "demo_append s = (case append_context_event (demo_note ''n3'' 3 ''third'') (ms_events s) of
     Inl e \<Rightarrow> s | Inr ev \<Rightarrow> s\<lparr>ms_events := ev\<rparr>)"

definition demo_memory_world :: memory_world where
  "demo_memory_world = \<lparr>mw_uuid = ''snap'', mw_time = 0, mw_fl = (\<lambda>x. x), mw_compiler = scaffold_compile (\<lambda>n. replicate n (CHR ''u'')),
     mw_others = (\<lambda>n. if n = 1 then demo_append else (\<lambda>s. s))\<rparr>"

lemma demo_cooperative: "cooperative demo_memory_world"
proof -
  have "memory_steps s (demo_append s)" for s
    by (cases "append_context_event (demo_note ''n3'' 3 ''third'') (ms_events s)")
       (auto simp: demo_append_def intro: r_into_rtranclp step_append)
  then show ?thesis by (auto simp: cooperative_def demo_memory_world_def)
qed

theorem compact_session_serializable_witness:
  "fst (compact_session demo_memory_world ''s'' demo_memory) = Inr True \<and>
   ascending (ms_events (snd (compact_session demo_memory_world ''s'' demo_memory))) \<and>
   (\<exists>c. ms_active (snd (compact_session demo_memory_world ''s'' demo_memory)) ''s'' = Some c \<and> xs_committed c \<and>
      xs_version c = 1 \<and> 0 < xs_covered c)"
proof -
  let ?run = "compact_session demo_memory_world ''s'' demo_memory"
  have won: "fst ?run = Inr True" by code_simp
  have "ascending (ms_events demo_memory)" by (simp add: ascending_def demo_memory_def demo_note_def)
  from compact_session_serializable[OF prod.collapse[symmetric] demo_cooperative this, of "''s''"] won
  have all: "ascending (ms_events (snd ?run))" "\<exists>s5 c. snd ?run = s5\<lparr>ms_active := (ms_active s5)(''s'' \<mapsto> c)\<rparr> \<and> xs_committed c \<and>
      xs_version c = (case ms_active demo_memory ''s'' of None \<Rightarrow> 1 | Some b \<Rightarrow> xs_version b + 1) \<and>
      (case ms_active demo_memory ''s'' of None \<Rightarrow> 0 | Some b \<Rightarrow> xs_covered b) < xs_covered c" by blast+
  have none: "ms_active demo_memory ''s'' = None" by (simp add: demo_memory_def)
  from all(2) obtain s5 :: memory_state and c where c: "snd ?run = s5\<lparr>ms_active := (ms_active s5)(''s'' \<mapsto> c)\<rparr>" "xs_committed c"
    "xs_version c = 1" "0 < xs_covered c" unfolding none by auto
  from c(1) have "ms_active (snd ?run) ''s'' = Some c" by simp
  with c won all(1) show ?thesis by blast
qed

end
