(* ===== verification/Assembler.thy ===== *)
theory Assembler
  imports Memory_Service "HOL-Library.Sublist"
begin

text \<open>
  \<^verbatim>\<open>token_budget.py\<close> and the deterministic fast-path assembler of \<^verbatim>\<open>assembler.py\<close>: the ledger,
  the greedy selection by priority, the trace, and what they guarantee. The trace reports the
  tokens the ledger granted; they are the tokens of the selection exactly when the current
  input is within the target.
\<close>

section \<open>The ledger\<close>

record assembler_config =
  as_target :: int
  as_hard_ceiling :: int
  as_recent_raw :: int
  as_retrieval :: int
  as_snapshot :: int

definition default_assembler_config :: assembler_config where
  "default_assembler_config = \<lparr>as_target = 130000, as_hard_ceiling = 150000, as_recent_raw = 50000,
     as_retrieval = 25000, as_snapshot = 20000\<rparr>"

definition validate_assembler_config :: "assembler_config \<Rightarrow> memory_error + unit" where
  "validate_assembler_config c =
     bind (guard (as_target c > 0) MEMORY_VALUE_ERROR) (\<lambda>_.
     guard (as_hard_ceiling c \<ge> as_target c) MEMORY_VALUE_ERROR)"

record budget_ledger =
  bl_limit :: int
  bl_used :: int

definition ledger_remaining :: "budget_ledger \<Rightarrow> int" where
  "ledger_remaining l = max 0 (bl_limit l - bl_used l)"

definition ledger_reserve :: "int \<Rightarrow> budget_ledger \<Rightarrow> int \<times> budget_ledger" where
  "ledger_reserve requested l =
     (let granted = min (max 0 requested) (ledger_remaining l) in (granted, l\<lparr>bl_used := bl_used l + granted\<rparr>))"

section \<open>The assembler\<close>

record context_block =
  kb_slot :: string
  kb_text :: string
  kb_tokens :: int
  kb_priority :: int
  kb_required :: bool

record context_trace =
  kt_session :: string
  kt_snapshot_version :: "int option"
  kt_covered :: int
  kt_latest :: int
  kt_total_tokens :: int
  kt_slot_tokens :: "(string \<times> int) list"
  kt_degraded_mode :: "string option"

record context_assembly =
  ka_blocks :: "context_block list"
  ka_trace :: context_trace

definition assembly_text :: "context_assembly \<Rightarrow> string" where
  "assembly_text r =
     (case filter (\<lambda>t. t \<noteq> []) (map kb_text (ka_blocks r)) of
        [] \<Rightarrow> [] | t # ts \<Rightarrow> t @ concat (map (\<lambda>u. [CHR 0x0A, CHR 0x0A] @ u) ts))"

definition assembler_init :: "assembler_config \<Rightarrow> memory_error + assembler_config" where
  "assembler_init c = bind (validate_assembler_config c) (\<lambda>_. Inr c)"

text \<open>\<^verbatim>\<open>sorted(.., reverse=True)\<close> keeps the order of blocks of equal priority.\<close>

definition by_priority :: "context_block list \<Rightarrow> context_block list" where
  "by_priority bs = sort_key (\<lambda>b. - kb_priority b) bs"

fun select_by_budget ::
  "context_block list \<Rightarrow> budget_ledger \<Rightarrow> context_block list \<Rightarrow> memory_error + budget_ledger \<times> context_block list" where
  "select_by_budget [] l selected = Inr (l, selected)"
| "select_by_budget (b # bs) l selected =
     (if kb_tokens b \<le> ledger_remaining l
      then select_by_budget bs (snd (ledger_reserve (kb_tokens b) l)) (selected @ [b])
      else if kb_required b then Inl MEMORY_VALUE_ERROR
      else select_by_budget bs l selected)"

text \<open>\<^verbatim>\<open>slot_tokens[slot] = slot_tokens.get(slot, 0) + tokens\<close>, a dictionary in insertion order.\<close>

fun add_slot :: "string \<Rightarrow> int \<Rightarrow> (string \<times> int) list \<Rightarrow> (string \<times> int) list" where
  "add_slot k n [] = [(k, n)]"
| "add_slot k n ((j, m) # rest) = (if j = k then (j, m + n) # rest else (j, m) # add_slot k n rest)"

definition slot_tokens :: "context_block list \<Rightarrow> (string \<times> int) list" where
  "slot_tokens bs = fold (\<lambda>b d. add_slot (kb_slot b) (kb_tokens b) d) bs []"

definition current_block :: "string \<Rightarrow> context_block" where
  "current_block t = \<lparr>kb_slot = ''current_input'', kb_text = t, kb_tokens = rough_tokens t, kb_priority = 100, kb_required = True\<rparr>"

definition build_context ::
  "assembler_config \<Rightarrow> string \<Rightarrow> context_snapshot option \<Rightarrow> context_event list \<Rightarrow> string \<Rightarrow> context_block list
   \<Rightarrow> memory_error + context_assembly" where
  "build_context c sid snapshot delta input blocks =
     (let current = current_block input in
      bind (guard (kb_tokens current \<le> as_hard_ceiling c) MEMORY_VALUE_ERROR) (\<lambda>_.
      bind (select_by_budget (by_priority blocks)
              (snd (ledger_reserve (kb_tokens current) \<lparr>bl_limit = as_target c, bl_used = 0\<rparr>)) [current])
        (\<lambda>(ledger, selected).
      Inr \<lparr>ka_blocks = selected,
           ka_trace = \<lparr>kt_session = sid, kt_snapshot_version = map_option xs_version snapshot,
             kt_covered = (case snapshot of None \<Rightarrow> 0 | Some s \<Rightarrow> xs_covered s),
             kt_latest = (if delta \<noteq> [] then xe_sequence (last delta)
               else case snapshot of None \<Rightarrow> 0 | Some s \<Rightarrow> xs_covered s),
             kt_total_tokens = bl_used ledger, kt_slot_tokens = slot_tokens selected, kt_degraded_mode = None\<rparr>\<rparr>)))"

section \<open>Guarantees\<close>

abbreviation block_tokens :: "context_block list \<Rightarrow> int" where
  "block_tokens bs \<equiv> sum_list (map kb_tokens bs)"

lemma add_slot_sum: "sum_list (map snd (add_slot k n d)) = sum_list (map snd d) + n"
  by (induction k n d rule: add_slot.induct) auto

lemma slot_tokens_sum: "sum_list (map snd (slot_tokens bs)) = block_tokens bs"
proof -
  have "sum_list (map snd (fold (\<lambda>b d. add_slot (kb_slot b) (kb_tokens b) d) bs d)) = sum_list (map snd d) + block_tokens bs" for d
    by (induction bs arbitrary: d) (auto simp: add_slot_sum)
  then show ?thesis by (simp add: slot_tokens_def)
qed

lemma reserve_fits: "0 \<le> n \<Longrightarrow> n \<le> ledger_remaining l \<Longrightarrow> ledger_reserve n l = (n, l\<lparr>bl_used := bl_used l + n\<rparr>)"
  by (simp add: ledger_reserve_def)

lemma select_by_budget_spec:
  assumes "select_by_budget bs l selected = Inr (l', selected')" "\<forall>b \<in> set bs. 0 \<le> kb_tokens b" "bl_used l \<le> bl_limit l"
  shows "\<exists>picked. selected' = selected @ picked \<and> subseq picked bs \<and> (\<forall>b \<in> set bs. kb_required b \<longrightarrow> b \<in> set picked) \<and>
    bl_limit l' = bl_limit l \<and> bl_used l' = bl_used l + block_tokens picked \<and> bl_used l' \<le> bl_limit l'"
  using assms
proof (induction bs l selected rule: select_by_budget.induct)
  case (2 b bs l selected)
  show ?case
  proof (cases "kb_tokens b \<le> ledger_remaining l")
    case True
    with 2(4) have r: "ledger_reserve (kb_tokens b) l = (kb_tokens b, l\<lparr>bl_used := bl_used l + kb_tokens b\<rparr>)"
      by (intro reserve_fits) auto
    have fit: "bl_used l + kb_tokens b \<le> bl_limit l" using True 2(5) by (simp add: ledger_remaining_def)
    from 2(1)[OF True] 2(3,4) True r fit obtain picked where
      "selected' = selected @ b # picked" "subseq picked bs" "\<forall>b \<in> set bs. kb_required b \<longrightarrow> b \<in> set picked"
      "bl_limit l' = bl_limit l" "bl_used l' = bl_used l + kb_tokens b + block_tokens picked" "bl_used l' \<le> bl_limit l'" by auto
    then show ?thesis by (intro exI[of _ "b # picked"]) auto
  next
    case False
    with 2(3) have "\<not> kb_required b" by (auto split: if_splits)
    with 2(2)[OF False] 2(3-5) False obtain picked where
      "selected' = selected @ picked" "subseq picked bs" "\<forall>b \<in> set bs. kb_required b \<longrightarrow> b \<in> set picked"
      "bl_limit l' = bl_limit l" "bl_used l' = bl_used l + block_tokens picked" "bl_used l' \<le> bl_limit l'" by auto
    with \<open>\<not> kb_required b\<close> show ?thesis by (intro exI[of _ picked]) auto
  qed
qed auto

text \<open>
  The fast-path assembler keeps the current input first and every required block, adds other
  blocks in priority order, and stays within the target, or within the hard ceiling where the
  current input alone is above the target; the slot totals of the trace add up to the
  selection, and the total of the trace is the granted part of it.
\<close>

theorem build_context_bounded:
  assumes build: "build_context c sid snapshot delta input blocks = Inr r"
    and config: "validate_assembler_config c = Inr ()" and tokens: "\<forall>b \<in> set blocks. 0 \<le> kb_tokens b"
  shows "\<exists>picked. ka_blocks r = current_block input # picked \<and> subseq picked (by_priority blocks) \<and>
    (\<forall>b \<in> set blocks. kb_required b \<longrightarrow> b \<in> set picked) \<and>
    block_tokens (ka_blocks r) \<le> max (as_target c) (rough_tokens input) \<and>
    block_tokens (ka_blocks r) \<le> as_hard_ceiling c \<and>
    sum_list (map snd (kt_slot_tokens (ka_trace r))) = block_tokens (ka_blocks r) \<and>
    kt_total_tokens (ka_trace r) = min (as_target c) (block_tokens (ka_blocks r))"
proof -
  let ?n = "rough_tokens input"
  let ?l = "\<lparr>bl_limit = as_target c, bl_used = min ?n (as_target c)\<rparr>"
  from config have t: "as_target c > 0" "as_target c \<le> as_hard_ceiling c"
    by (auto simp: validate_assembler_config_def result_simps)
  have n: "1 \<le> ?n" by (simp add: rough_tokens_def)
  have "snd (ledger_reserve ?n \<lparr>bl_limit = as_target c, bl_used = 0\<rparr>) = ?l"
    using t n by (simp add: ledger_reserve_def ledger_remaining_def)
  with build obtain l' where ceiling: "?n \<le> as_hard_ceiling c"
    and sel: "select_by_budget (by_priority blocks) ?l [current_block input] = Inr (l', ka_blocks r)"
    and trace: "kt_slot_tokens (ka_trace r) = slot_tokens (ka_blocks r)" "kt_total_tokens (ka_trace r) = bl_used l'"
    by (auto simp: build_context_def result_simps current_block_def split: prod.splits)
  have "\<forall>b \<in> set (by_priority blocks). 0 \<le> kb_tokens b" using tokens by (simp add: by_priority_def)
  from select_by_budget_spec[OF sel this] obtain picked where p: "ka_blocks r = current_block input # picked"
    "subseq picked (by_priority blocks)" "\<forall>b \<in> set blocks. kb_required b \<longrightarrow> b \<in> set picked"
    "bl_used l' = min ?n (as_target c) + block_tokens picked" "bl_used l' \<le> as_target c"
    by (auto simp: by_priority_def)
  have "0 \<le> block_tokens picked" using p(2) tokens
    by (intro sum_list_nonneg) (auto elim!: list_emb_set simp: by_priority_def)
  moreover have "kb_tokens (current_block input) = ?n" by (simp add: current_block_def)
  ultimately show ?thesis using p t trace ceiling by (intro exI[of _ picked]) (auto simp: slot_tokens_sum)
qed

section \<open>Witness\<close>

definition demo_context_blocks :: "context_block list" where
  "demo_context_blocks =
     [\<lparr>kb_slot = ''raw'', kb_text = ''old'', kb_tokens = 9, kb_priority = 1, kb_required = False\<rparr>,
      \<lparr>kb_slot = ''goal'', kb_text = ''keep'', kb_tokens = 4, kb_priority = 5, kb_required = True\<rparr>]"

definition demo_assembler :: assembler_config where
  "demo_assembler = \<lparr>as_target = 10, as_hard_ceiling = 20, as_recent_raw = 0, as_retrieval = 0, as_snapshot = 0\<rparr>"

definition demo_assembly :: context_assembly where
  "demo_assembly = \<lparr>ka_blocks = [current_block ''hello there'', demo_context_blocks ! 1],
     ka_trace = \<lparr>kt_session = ''s'', kt_snapshot_version = None, kt_covered = 0, kt_latest = 0, kt_total_tokens = 6,
       kt_slot_tokens = [(''current_input'', 2), (''goal'', 4)], kt_degraded_mode = None\<rparr>\<rparr>"

theorem build_context_bounded_witness:
  "build_context demo_assembler ''s'' None [] ''hello there'' demo_context_blocks = Inr demo_assembly \<and>
   block_tokens (ka_blocks demo_assembly) \<le> 20 \<and> kt_total_tokens (ka_trace demo_assembly) = 6"
proof -
  have b: "build_context demo_assembler ''s'' None [] ''hello there'' demo_context_blocks = Inr demo_assembly" by code_simp
  have "validate_assembler_config demo_assembler = Inr ()" "\<forall>b \<in> set demo_context_blocks. 0 \<le> kb_tokens b" by code_simp+
  from build_context_bounded[OF b this] b show ?thesis by (auto simp: demo_assembler_def demo_assembly_def)
qed

end
