(* ===== verification/Scheduler.thy ===== *)
theory Scheduler
  imports Prelude
begin

text \<open>
  \<^verbatim>\<open>scheduler.py\<close>: the coalescing scheduler as a state machine. An operation runs to its next
  \<^verbatim>\<open>await\<close>; \<open>Take\<close> is the worker leaving \<^verbatim>\<open>queue.get\<close>, \<open>Finish\<close> the end of the callback, with an
  exception or without. A callback that swallows its cancellation is not modelled.
\<close>

section \<open>The machine\<close>

datatype worker_task = No_Worker | Waiting | Running string | Crashed

record scheduler =
  sd_queue :: "string list"
  sd_pending :: "string set"
  sd_worker :: worker_task
  sd_closed :: bool

definition scheduler_init :: scheduler where
  "scheduler_init = \<lparr>sd_queue = [], sd_pending = {}, sd_worker = No_Worker, sd_closed = False\<rparr>"

definition scheduler_start :: "scheduler \<Rightarrow> scheduler" where
  "scheduler_start s = (if sd_worker s = No_Worker then s\<lparr>sd_worker := Waiting\<rparr> else s)"

definition notify :: "string \<Rightarrow> scheduler \<Rightarrow> scheduler" where
  "notify sid s =
     (if sd_closed s \<or> sid \<in> sd_pending s then s
      else s\<lparr>sd_pending := insert sid (sd_pending s), sd_queue := sd_queue s @ [sid]\<rparr>)"

text \<open>Closing awaits the worker; the exception of a crashed one escapes and leaves the reference to it.\<close>

definition scheduler_close :: "scheduler \<Rightarrow> bool \<times> scheduler" where
  "scheduler_close s =
     (let s1 = s\<lparr>sd_closed := True\<rparr> in
      case sd_worker s of
        No_Worker \<Rightarrow> (True, s1)
      | Waiting \<Rightarrow> (True, s1\<lparr>sd_worker := No_Worker\<rparr>)
      | Running sid \<Rightarrow> (True, s1\<lparr>sd_worker := No_Worker, sd_pending := sd_pending s - {sid}\<rparr>)
      | Crashed \<Rightarrow> (False, s1))"

definition run_take :: "scheduler \<Rightarrow> scheduler option" where
  "run_take s =
     (case (sd_worker s, sd_queue s) of
        (Waiting, sid # q) \<Rightarrow> Some (s\<lparr>sd_worker := Running sid, sd_queue := q\<rparr>)
      | _ \<Rightarrow> None)"

definition run_finish :: "bool \<Rightarrow> scheduler \<Rightarrow> scheduler option" where
  "run_finish ok s =
     (case sd_worker s of
        Running sid \<Rightarrow>
          Some (s\<lparr>sd_worker := (if ok then Waiting else Crashed), sd_pending := sd_pending s - {sid}\<rparr>)
      | _ \<Rightarrow> None)"

datatype scheduler_op = Start | Notify string | Close | Take | Finish bool

fun scheduler_step :: "scheduler_op \<Rightarrow> scheduler \<Rightarrow> scheduler option" where
  "scheduler_step Start s = Some (scheduler_start s)"
| "scheduler_step (Notify sid) s = Some (notify sid s)"
| "scheduler_step Close s = Some (snd (scheduler_close s))"
| "scheduler_step Take s = run_take s"
| "scheduler_step (Finish ok) s = run_finish ok s"

fun scheduler_run :: "scheduler_op list \<Rightarrow> scheduler \<Rightarrow> scheduler option" where
  "scheduler_run [] s = Some s"
| "scheduler_run (op # ops) s = Option.bind (scheduler_step op s) (scheduler_run ops)"

inductive scheduler_reachable :: "scheduler \<Rightarrow> bool" where
  reachable_init: "scheduler_reachable scheduler_init"
| reachable_step: "scheduler_reachable s \<Longrightarrow> scheduler_step op s = Some s' \<Longrightarrow> scheduler_reachable s'"

section \<open>Coalescing\<close>

definition in_service :: "scheduler \<Rightarrow> string list" where
  "in_service s = (case sd_worker s of Running sid \<Rightarrow> [sid] | _ \<Rightarrow> [])"

definition scheduler_inv :: "scheduler \<Rightarrow> bool" where
  "scheduler_inv s \<longleftrightarrow> distinct (in_service s @ sd_queue s) \<and> sd_pending s = set (in_service s @ sd_queue s)"

lemma step_keeps_inv:
  assumes inv: "scheduler_inv s" and step: "scheduler_step op s = Some s'"
  shows "scheduler_inv s'"
proof (cases op)
  case Start
  with inv step show ?thesis
    by (cases "sd_worker s") (auto simp: scheduler_inv_def in_service_def scheduler_start_def)
next
  case (Notify sid)
  have "scheduler_inv (notify sid s)"
    using inv by (cases "sd_worker s") (auto simp: scheduler_inv_def in_service_def notify_def)
  with Notify step show ?thesis by simp
next
  case Close
  with inv step show ?thesis
    by (cases "sd_worker s") (auto simp: scheduler_inv_def in_service_def scheduler_close_def)
next
  case Take
  with inv step show ?thesis
    by (cases "sd_worker s"; cases "sd_queue s") (auto simp: scheduler_inv_def in_service_def run_take_def)
next
  case (Finish ok)
  with inv step show ?thesis
    by (cases "sd_worker s"; cases ok) (auto simp: scheduler_inv_def in_service_def run_finish_def)
qed

lemma reachable_inv: "scheduler_reachable s \<Longrightarrow> scheduler_inv s"
proof (induction rule: scheduler_reachable.induct)
  case reachable_init
  show ?case by (simp add: scheduler_inv_def scheduler_init_def in_service_def)
qed (rule step_keeps_inv)

text \<open>The operations that serve a list of queued sessions when no callback raises.\<close>

definition serve :: "string list \<Rightarrow> scheduler_op list" where
  "serve q = concat (map (\<lambda>_. [Take, Finish True]) q)"

lemma serve_drains:
  assumes "sd_worker s = Waiting" "scheduler_inv s"
  shows "scheduler_run (serve (sd_queue s)) s = Some (s\<lparr>sd_queue := [], sd_pending := {}\<rparr>)"
  using assms
proof (induction "sd_queue s" arbitrary: s)
  case Nil
  then show ?case by (cases s) (simp add: serve_def scheduler_inv_def in_service_def)
next
  case (Cons sid q)
  let ?s = "s\<lparr>sd_queue := q, sd_pending := sd_pending s - {sid}\<rparr>"
  note q = Cons(2)[symmetric]
  have "sid \<notin> set q" "distinct q" "sd_pending s = insert sid (set q)"
    using Cons(4) q Cons(3) by (auto simp: scheduler_inv_def in_service_def)
  then have "scheduler_inv ?s" using Cons(3) by (simp add: scheduler_inv_def in_service_def)
  with Cons(1)[of ?s] Cons(3) have run: "scheduler_run (serve q) ?s = Some (s\<lparr>sd_queue := [], sd_pending := {}\<rparr>)" by simp
  have "run_take s = Some (s\<lparr>sd_worker := Running sid, sd_queue := q\<rparr>)"
    using Cons(3) q by (simp add: run_take_def)
  moreover have "run_finish True (s\<lparr>sd_worker := Running sid, sd_queue := q\<rparr>) = Some ?s"
    using Cons(3) by (cases s) (simp add: run_finish_def)
  moreover have "serve (sd_queue s) = Take # Finish True # serve q" using q by (simp add: serve_def)
  ultimately show ?case using run by simp
qed

text \<open>
  Notifications coalesce and none that was accepted is forgotten: in every reachable state
  each pending session is queued or in service exactly once, a notification of a session that
  is not pending queues it unless the scheduler is closed, and a waiting worker whose
  callbacks return serves the whole queue, in order, with one callback per queued session.
\<close>

theorem scheduler_coalesces:
  assumes "scheduler_reachable s"
  shows "distinct (in_service s @ sd_queue s) \<and> sd_pending s = set (in_service s @ sd_queue s) \<and>
    (\<forall>sid. \<not> sd_closed s \<longrightarrow> sid \<in> sd_pending (notify sid s) \<and> length (sd_queue (notify sid s)) \<le> length (sd_queue s) + 1) \<and>
    (sd_worker s = Waiting \<longrightarrow>
       scheduler_run (serve (sd_queue s)) s = Some (s\<lparr>sd_queue := [], sd_pending := {}\<rparr>) \<and>
       length (filter (\<lambda>op. op = Take) (serve (sd_queue s))) = length (sd_queue s))"
proof -
  have "length (filter (\<lambda>op. op = Take) (serve q)) = length q" for q
    by (induction q) (simp_all add: serve_def)
  then show ?thesis
    using reachable_inv[OF assms] serve_drains by (auto simp: scheduler_inv_def notify_def)
qed

section \<open>Limits\<close>

text \<open>
  A notification that arrives while the callback of the same session runs is dropped, although
  the callback may already have read its input: nothing is pending afterwards.
\<close>

lemma notification_during_callback_lost:
  "scheduler_run [Start, Notify ''s'', Take, Notify ''s'', Finish True] scheduler_init =
     Some (scheduler_init\<lparr>sd_worker := Waiting\<rparr>)"
  by (simp add: scheduler_init_def scheduler_start_def notify_def run_take_def run_finish_def)

text \<open>
  A callback that raises ends the worker for good: later notifications are accepted and queued,
  but no operation other than closing touches the queue, and \<open>start\<close> does not replace the task.
\<close>

lemma crashed_never_serves:
  assumes "scheduler_run ops s = Some s'" "sd_worker s = Crashed"
  shows "sd_worker s' = Crashed \<and> Take \<notin> set ops \<and> set (sd_queue s) \<subseteq> set (sd_queue s')"
  using assms
proof (induction ops arbitrary: s)
  case (Cons op ops)
  from Cons.prems obtain t where t: "scheduler_step op s = Some t" "scheduler_run ops t = Some s'"
    by (auto simp: bind_eq_Some_conv)
  have "sd_worker t = Crashed \<and> op \<noteq> Take \<and> set (sd_queue s) \<subseteq> set (sd_queue t)"
    using t(1) Cons.prems(2)
    by (cases op) (auto simp: scheduler_start_def notify_def scheduler_close_def run_take_def run_finish_def)
  with Cons.IH[OF t(2)] show ?case by auto
qed simp

theorem scheduler_coalesces_witness:
  "sd_pending (notify ''b'' (notify ''a'' (scheduler_start scheduler_init))) = {''a'', ''b''} \<and>
   scheduler_run (serve [''a'', ''b'']) (notify ''b'' (notify ''a'' (scheduler_start scheduler_init))) =
     Some (scheduler_init\<lparr>sd_worker := Waiting\<rparr>)"
proof -
  let ?s = "notify ''b'' (notify ''a'' (scheduler_start scheduler_init))"
  have "scheduler_reachable (scheduler_start scheduler_init)" by (rule reachable_step[OF reachable_init, of Start]) simp
  then have "scheduler_reachable (notify ''a'' (scheduler_start scheduler_init))" by (rule reachable_step[of _ "Notify ''a''"]) simp
  then have "scheduler_reachable ?s" by (rule reachable_step[of _ "Notify ''b''"]) simp
  moreover have "?s = \<lparr>sd_queue = [''a'', ''b''], sd_pending = {''b'', ''a''}, sd_worker = Waiting, sd_closed = False\<rparr>"
    by (simp add: notify_def scheduler_start_def scheduler_init_def)
  ultimately show ?thesis using scheduler_coalesces[of ?s] by (auto simp: scheduler_init_def)
qed

end
