(* ===== verification/Pressure.thy ===== *)
theory Pressure
  imports Prelude
begin

text \<open>
  \<^verbatim>\<open>runtime/pressure.py\<close>: when the input of a request calls for compaction and for projection.
  A product of an integer with a float rounds the integer and then the product; the rounding
  is a parameter.
\<close>

section \<open>Model\<close>

datatype pressure_source = TRUSTED_PROVIDER_USAGE | CONSERVATIVE_ESTIMATE

record pressure_config =
  pc_context_limit :: int
  pc_reserved :: int
  pc_compact_ratio :: rat
  pc_project_ratio :: rat

definition valid_pressure_config :: "pressure_config \<Rightarrow> bool" where
  "valid_pressure_config c \<longleftrightarrow>
     pc_context_limit c \<ge> 1 \<and> pc_reserved c \<ge> 0 \<and> pc_reserved c < pc_context_limit c \<and>
     0 < pc_compact_ratio c \<and> pc_compact_ratio c \<le> pc_project_ratio c \<and> pc_project_ratio c \<le> 1"

definition capacity :: "pressure_config \<Rightarrow> int" where
  "capacity c = pc_context_limit c - pc_reserved c"

record pressure_decision =
  pd_used :: int
  pd_capacity :: int
  pd_compact_at :: int
  pd_project_at :: int
  pd_should_compact :: bool
  pd_should_project :: bool
  pd_source :: pressure_source

datatype pressure_error = PRESSURE_VALUE_ERROR

definition usage :: "int \<Rightarrow> pressure_error + int" where
  "usage n = (if n < 0 then Inl PRESSURE_VALUE_ERROR else Inr n)"

definition optional_usage :: "int option \<Rightarrow> pressure_error + int option" where
  "optional_usage x = (case x of None \<Rightarrow> Inr None | Some n \<Rightarrow> bind (usage n) (\<lambda>m. Inr (Some m)))"

definition threshold :: "(rat \<Rightarrow> rat) \<Rightarrow> int \<Rightarrow> rat \<Rightarrow> int" where
  "threshold fl n ratio = \<lceil>fl (fl (of_int n) * ratio)\<rceil>"

definition assess_pressure ::
  "(rat \<Rightarrow> rat) \<Rightarrow> int option \<Rightarrow> int \<Rightarrow> int \<Rightarrow> pressure_config \<Rightarrow> pressure_error + pressure_decision" where
  "assess_pressure fl trusted_usage estimated_usage current_cost c =
     bind (optional_usage trusted_usage) (\<lambda>trusted.
     bind (usage estimated_usage) (\<lambda>estimated.
     bind (usage current_cost) (\<lambda>current.
     let (used, source) =
           (case trusted of
              Some t \<Rightarrow> if t > 0 then (t + current, TRUSTED_PROVIDER_USAGE) else (estimated, CONSERVATIVE_ESTIMATE)
            | None \<Rightarrow> (estimated, CONSERVATIVE_ESTIMATE));
         n = capacity c;
         compact_at = threshold fl n (pc_compact_ratio c);
         project_at = threshold fl n (pc_project_ratio c)
     in Inr \<lparr>pd_used = used, pd_capacity = n, pd_compact_at = compact_at, pd_project_at = project_at,
             pd_should_compact = (used \<ge> compact_at), pd_should_project = (used \<ge> project_at), pd_source = source\<rparr>)))"

section \<open>Thresholds\<close>

text \<open>What holds of rounding to the nearest double: it is monotone and exact on small integers.\<close>

definition rounds :: "(rat \<Rightarrow> rat) \<Rightarrow> bool" where
  "rounds fl \<longleftrightarrow> mono fl \<and> (\<forall>n :: int. \<bar>n\<bar> \<le> 2 ^ 53 \<longrightarrow> fl (of_int n) = of_int n)"

lemma threshold_eq: "rounds fl \<Longrightarrow> 0 \<le> n \<Longrightarrow> n \<le> 2 ^ 53 \<Longrightarrow> threshold fl n p = \<lceil>fl (of_int n * p)\<rceil>"
  by (simp add: threshold_def rounds_def)

lemma rounds_mono: "rounds fl \<Longrightarrow> x \<le> y \<Longrightarrow> fl x \<le> fl y"
  by (simp add: rounds_def monoD)

lemma threshold_mono:
  assumes "rounds fl" "0 \<le> n" "n \<le> 2 ^ 53" "p \<le> q"
  shows "threshold fl n p \<le> threshold fl n q"
  using assms by (simp add: threshold_eq ceiling_mono rounds_mono mult_left_mono)

lemma threshold_bounds:
  assumes "rounds fl" "0 < n" "n \<le> 2 ^ 53" "0 < p" "p \<le> 1"
  shows "0 \<le> threshold fl n p" "threshold fl n p \<le> n"
proof -
  have exact: "fl (of_int m) = of_int m" if "0 \<le> m" "m \<le> n" for m using assms(1,3) that by (simp add: rounds_def)
  from assms have "0 \<le> of_int n * p" "of_int n * p \<le> (of_int n :: rat)" by (simp_all add: mult_left_le)
  from this[THEN rounds_mono[OF assms(1)]] have "0 \<le> fl (of_int n * p)" "fl (of_int n * p) \<le> of_int n"
    using exact[of 0] exact[of n] assms(2) by simp_all
  then show "0 \<le> threshold fl n p" "threshold fl n p \<le> n"
    unfolding threshold_eq[OF assms(1) less_imp_le[OF assms(2)] assms(3)] by (simp_all add: ceiling_le_iff le_ceiling_iff)
qed

text \<open>
  Pressure is assessed in order: under a valid configuration both thresholds lie between zero
  and the capacity, projection is never demanded without compaction, a full context demands
  both, and more usage never withdraws a demand.
\<close>

theorem assess_pressure_ordered:
  assumes fl: "rounds fl" and c: "valid_pressure_config c" and small: "capacity c \<le> 2 ^ 53"
    and d: "assess_pressure fl trusted estimated current c = Inr d"
  shows "0 \<le> pd_compact_at d \<and> pd_compact_at d \<le> pd_project_at d \<and> pd_project_at d \<le> pd_capacity d \<and>
    (pd_should_project d \<longrightarrow> pd_should_compact d) \<and>
    (pd_used d \<ge> pd_capacity d \<longrightarrow> pd_should_compact d \<and> pd_should_project d) \<and>
    (\<forall>e trusted' estimated' current'. assess_pressure fl trusted' estimated' current' c = Inr e \<longrightarrow> pd_used d \<le> pd_used e \<longrightarrow>
       (pd_should_compact d \<longrightarrow> pd_should_compact e) \<and> (pd_should_project d \<longrightarrow> pd_should_project e))"
proof -
  have eq: "pd_compact_at e = threshold fl (capacity c) (pc_compact_ratio c)"
    "pd_project_at e = threshold fl (capacity c) (pc_project_ratio c)" "pd_capacity e = capacity c"
    "pd_should_compact e \<longleftrightarrow> pd_used e \<ge> pd_compact_at e" "pd_should_project e \<longleftrightarrow> pd_used e \<ge> pd_project_at e"
    if "assess_pressure fl t u v c = Inr e" for t u v e
    using that by (auto simp: assess_pressure_def result_simps split: option.splits if_splits)
  have n: "0 < capacity c" using c by (simp add: valid_pressure_config_def capacity_def)
  have "0 \<le> pd_compact_at d"
    using threshold_bounds(1)[OF fl n small] c by (simp add: eq[OF d] valid_pressure_config_def)
  moreover have "pd_compact_at d \<le> pd_project_at d"
    using threshold_mono[OF fl _ small] n c by (simp add: eq[OF d] valid_pressure_config_def)
  moreover have "pd_project_at d \<le> pd_capacity d"
    using threshold_bounds(2)[OF fl n small] c by (simp add: eq[OF d] valid_pressure_config_def)
  ultimately show ?thesis using eq[OF d] eq by fastforce
qed

definition demo_pressure :: pressure_config where
  "demo_pressure = \<lparr>pc_context_limit = 1000, pc_reserved = 200, pc_compact_ratio = 3/4, pc_project_ratio = 4/5\<rparr>"

theorem assess_pressure_ordered_witness:
  "\<exists>d. assess_pressure (\<lambda>x. x) (Some 610) 0 20 demo_pressure = Inr d \<and> pd_compact_at d = 600 \<and> pd_project_at d = 640 \<and>
     pd_should_compact d \<and> \<not> pd_should_project d \<and> pd_compact_at d \<le> pd_project_at d \<and> pd_project_at d \<le> pd_capacity d"
proof -
  let ?d = "\<lparr>pd_used = 630, pd_capacity = 800, pd_compact_at = 600, pd_project_at = 640, pd_should_compact = True,
    pd_should_project = False, pd_source = TRUSTED_PROVIDER_USAGE\<rparr>"
  have d: "assess_pressure (\<lambda>x. x) (Some 610) 0 20 demo_pressure = Inr ?d" by code_simp
  have "rounds (\<lambda>x. x)" by (simp add: rounds_def mono_def)
  moreover have "valid_pressure_config demo_pressure" "capacity demo_pressure \<le> 2 ^ 53" by code_simp+
  ultimately show ?thesis using assess_pressure_ordered[OF _ _ _ d] d by simp
qed

end
