(* ===== verification/Migrations.thy ===== *)
theory Migrations
  imports Schema
begin

text \<open>
  The migrator of \<^verbatim>\<open>storage/migrations.py\<close>: the plan, the checksum-verified ledger, the splitting
  of a script into statements and the transaction that applies what is pending, with the
  bounded retry of a locked database. What a statement does to the schema, when SQLite takes a
  text for a complete statement, and the digest are parameters; the packaged scripts do not
  touch the ledger or \<^verbatim>\<open>user_version\<close>, so a statement acts on the schema only.
\<close>

section \<open>Plan and ledger\<close>

record migration =
  mg_version :: int
  mg_name :: string
  mg_sql :: string
  mg_requires_codec :: bool

definition valid_migration :: "migration \<Rightarrow> bool" where
  "valid_migration m \<longleftrightarrow> mg_version m \<ge> 1 \<and> py_strip (mg_name m) \<noteq> [] \<and> py_strip (mg_sql m) \<noteq> []"

record migration_row =
  lg_version :: int
  lg_name :: string
  lg_checksum :: string
  lg_applied_at :: string

datatype migration_error = MigrationPlanError | MigrationChecksumError | MigrationApplyError

text \<open>An \<^verbatim>\<open>OperationalError\<close> whose message says locked or busy, another one, and any other \<^verbatim>\<open>sqlite3.Error\<close>.\<close>

datatype sqlite_error = Sqlite_Busy | Sqlite_Operational | Sqlite_Other

datatype migration_exn = Migration_Error migration_error | Sqlite_Error sqlite_error

record 's sqlite_engine =
  sq_execute :: "string \<Rightarrow> 's \<Rightarrow> sqlite_error + 's"
  sq_complete :: "string \<Rightarrow> bool"
  sq_sha256 :: "string \<Rightarrow> string"
  sq_now :: "int \<Rightarrow> string"
  sq_begin :: "nat \<Rightarrow> sqlite_error option"
  sq_json_row :: "sqlite_error + bool"

text \<open>The ledger is \<open>None\<close> before its table exists.\<close>

record 's migration_db =
  md_schema :: 's
  md_ledger :: "migration_row list option"
  md_user_version :: int

definition checksum :: "'s sqlite_engine \<Rightarrow> migration \<Rightarrow> string" where
  "checksum q m = sq_sha256 q (mg_sql m)"

definition validate_plan :: "migration list \<Rightarrow> migration_error + unit" where
  "validate_plan plan =
     bind (guard (map mg_version plan = map int [1 ..< length plan + 1]) MigrationPlanError) (\<lambda>_.
     guard (distinct (map mg_name plan)) MigrationPlanError)"

section \<open>Statements\<close>

fun after_newline :: "string \<Rightarrow> string option" where
  "after_newline [] = None"
| "after_newline (c # cs) = (if c = CHR 0x0A then Some cs else after_newline cs)"

fun after_comment :: "string \<Rightarrow> string option" where
  "after_comment (a # b # cs) = (if a = CHR ''*'' \<and> b = CHR ''/'' then Some cs else after_comment (b # cs))"
| "after_comment _ = None"

lemma after_newline_shorter: "after_newline s = Some t \<Longrightarrow> length t < length s"
  by (induction s) (auto split: if_splits)

lemma after_comment_shorter: "after_comment s = Some t \<Longrightarrow> length t < length s"
  by (induction s rule: after_comment.induct) (auto split: if_splits)

function is_comment_only :: "string \<Rightarrow> bool" where
  "is_comment_only s =
     (if s = [] then True
      else if py_isspace (hd s) then is_comment_only (tl s)
      else if take 2 s = ''--'' then
        (case after_newline (drop 2 s) of None \<Rightarrow> True | Some t \<Rightarrow> is_comment_only t)
      else if take 2 s = ''/*'' then
        (case after_comment (drop 2 s) of None \<Rightarrow> False | Some t \<Rightarrow> is_comment_only t)
      else False)"
  by pat_completeness auto
termination
  by (relation "measure length") (auto dest!: after_newline_shorter after_comment_shorter)

declare is_comment_only.simps [simp del]

text \<open>The pieces of a script: each ends where SQLite sees a complete statement; what remains at the end.\<close>

fun script_pieces :: "(string \<Rightarrow> bool) \<Rightarrow> string \<Rightarrow> string \<Rightarrow> string list \<times> string" where
  "script_pieces ends buffer [] = ([], buffer)"
| "script_pieces ends buffer (c # cs) =
     (let candidate = buffer @ [c] in
      if c = CHR '';'' \<and> ends candidate
      then (case script_pieces ends [] cs of (pieces, rest) \<Rightarrow> (candidate # pieces, rest))
      else script_pieces ends candidate cs)"

definition iter_sql_statements :: "(string \<Rightarrow> bool) \<Rightarrow> string \<Rightarrow> string list \<times> bool" where
  "iter_sql_statements ends script =
     (case script_pieces ends [] script of (pieces, rest) \<Rightarrow>
        (filter (\<lambda>s. s \<noteq> []) (map py_strip pieces), py_strip rest = [] \<or> is_comment_only (py_strip rest)))"

section \<open>Migrating\<close>

definition check_sqlite_capabilities :: "'s sqlite_engine \<Rightarrow> migration_exn + unit" where
  "check_sqlite_capabilities q =
     (case sq_json_row q of
        Inl e \<Rightarrow> Inl (Migration_Error MigrationApplyError)
      | Inr ok \<Rightarrow> guard ok (Migration_Error MigrationApplyError))"

definition create_ledger :: "'s migration_db \<Rightarrow> 's migration_db" where
  "create_ledger db = (case md_ledger db of None \<Rightarrow> db\<lparr>md_ledger := Some []\<rparr> | Some _ \<Rightarrow> db)"

definition ledger_rows :: "'s migration_db \<Rightarrow> migration_row list" where
  "ledger_rows db = (case md_ledger db of None \<Rightarrow> [] | Some rows \<Rightarrow> rows)"

definition row_matches :: "'s sqlite_engine \<Rightarrow> migration_row \<Rightarrow> migration \<Rightarrow> bool" where
  "row_matches q r m \<longleftrightarrow>
     lg_version r = mg_version m \<and>
     (lg_name r = mg_name m \<or>
      mg_version m = 1 \<and> lg_name r = ''initial_v1_schema'' \<and> lg_checksum r = checksum q m) \<and>
     lg_checksum r = checksum q m"

definition validate_ledger :: "'s sqlite_engine \<Rightarrow> migration list \<Rightarrow> 's migration_db \<Rightarrow> migration_exn + nat" where
  "validate_ledger q plan db =
     (let rows = sort_key lg_version (ledger_rows db) in
      bind (guard (length rows \<le> length plan) (Migration_Error MigrationChecksumError)) (\<lambda>_.
      bind (guard (list_all2 (row_matches q) rows (take (length rows) plan)) (Migration_Error MigrationChecksumError)) (\<lambda>_.
      bind (guard (md_user_version db = (if rows = [] then 0 else lg_version (last rows)))
              (Migration_Error MigrationChecksumError)) (\<lambda>_.
      Inr (length rows)))))"

definition hex_checksum :: "string \<Rightarrow> bool" where
  "hex_checksum s \<longleftrightarrow> length s = 64 \<and>
     list_all (\<lambda>c. let n = (of_char c :: nat) in 48 \<le> n \<and> n \<le> 57 \<or> 97 \<le> n \<and> n \<le> 102) s"

definition insert_migration_row :: "migration_row \<Rightarrow> 's migration_db \<Rightarrow> sqlite_error + 's migration_db" where
  "insert_migration_row r db =
     (let rows = ledger_rows db in
      if lg_version r \<ge> 1 \<and> sql_nonblank (lg_name r) \<and> hex_checksum (lg_checksum r) \<and> sql_nonblank (lg_applied_at r) \<and>
         lg_version r \<notin> lg_version ` set rows \<and> lg_name r \<notin> lg_name ` set rows
      then Inr (db\<lparr>md_ledger := Some (rows @ [r])\<rparr>)
      else Inl Sqlite_Other)"

definition execute_statement :: "'s sqlite_engine \<Rightarrow> 's migration_db \<Rightarrow> string \<Rightarrow> sqlite_error + 's migration_db" where
  "execute_statement q db statement =
     bind (sq_execute q statement (md_schema db)) (\<lambda>s. Inr (db\<lparr>md_schema := s\<rparr>))"

definition as_apply_error :: "sqlite_error + 'a \<Rightarrow> migration_exn + 'a" where
  "as_apply_error x = (case x of Inl _ \<Rightarrow> Inl (Migration_Error MigrationApplyError) | Inr y \<Rightarrow> Inr y)"

definition apply_one :: "'s sqlite_engine \<Rightarrow> migration \<Rightarrow> 's migration_db \<Rightarrow> migration_exn + 's migration_db" where
  "apply_one q m db =
     (case iter_sql_statements (sq_complete q) (mg_sql m) of (statements, finished) \<Rightarrow>
        bind (as_apply_error (foldM (execute_statement q) db statements)) (\<lambda>db1.
        bind (guard finished (Migration_Error MigrationPlanError)) (\<lambda>_.
        bind (as_apply_error (insert_migration_row
                \<lparr>lg_version = mg_version m, lg_name = mg_name m, lg_checksum = checksum q m,
                 lg_applied_at = sq_now q (mg_version m)\<rparr> db1)) (\<lambda>db2.
        Inr (db2\<lparr>md_user_version := mg_version m\<rparr>)))))"

fun apply_pending ::
  "'s sqlite_engine \<Rightarrow> bool \<Rightarrow> migration list \<Rightarrow> nat \<Rightarrow> 's migration_db \<Rightarrow> migration_exn + nat \<times> 's migration_db" where
  "apply_pending q include_keyed [] n db = Inr (n, db)"
| "apply_pending q include_keyed (m # ms) n db =
     (if mg_requires_codec m
      then if include_keyed then Inl (Migration_Error MigrationPlanError) else Inr (n, db)
      else bind (apply_one q m db) (\<lambda>db1. apply_pending q include_keyed ms (n + 1) db1))"

text \<open>One attempt: the body of the transaction, which rolls back when it raises.\<close>

definition migrate_body ::
  "'s sqlite_engine \<Rightarrow> migration list \<Rightarrow> bool \<Rightarrow> 's migration_db \<Rightarrow> migration_exn + int \<times> 's migration_db" where
  "migrate_body q plan include_keyed db =
     bind (check_sqlite_capabilities q) (\<lambda>_.
     let db1 = create_ledger db in
     bind (validate_ledger q plan db1) (\<lambda>n.
     bind (apply_pending q include_keyed (drop n plan) n db1) (\<lambda>(k, db2).
     Inr (if k = 0 then 0 else mg_version (plan ! (k - 1)), db2))))"

definition migrate_once ::
  "'s sqlite_engine \<Rightarrow> migration list \<Rightarrow> bool \<Rightarrow> nat \<Rightarrow> 's migration_db \<Rightarrow> (migration_exn + int) \<times> 's migration_db" where
  "migrate_once q plan include_keyed attempt db =
     (case sq_begin q attempt of
        Some e \<Rightarrow> (Inl (Sqlite_Error e), db)
      | None \<Rightarrow>
          (case migrate_body q plan include_keyed db of Inl e \<Rightarrow> (Inl e, db) | Inr (v, db') \<Rightarrow> (Inr v, db')))"

definition BUSY_RETRY_ATTEMPTS :: nat where "BUSY_RETRY_ATTEMPTS = 4"

function migrate_attempts ::
  "'s sqlite_engine \<Rightarrow> migration list \<Rightarrow> bool \<Rightarrow> nat \<Rightarrow> 's migration_db \<Rightarrow> (migration_error + int) \<times> 's migration_db" where
  "migrate_attempts q plan include_keyed attempt db =
     (case migrate_once q plan include_keyed attempt db of
        (Inr v, db') \<Rightarrow> (Inr v, db')
      | (Inl (Migration_Error e), db') \<Rightarrow> (Inl e, db')
      | (Inl (Sqlite_Error e), db') \<Rightarrow>
          if e = Sqlite_Busy \<and> attempt + 1 < BUSY_RETRY_ATTEMPTS
          then migrate_attempts q plan include_keyed (attempt + 1) db'
          else (Inl MigrationApplyError, db'))"
  by pat_completeness auto
termination
  by (relation "measure (\<lambda>(q, plan, k, attempt, db). BUSY_RETRY_ATTEMPTS - attempt)") auto

declare migrate_attempts.simps [simp del]

definition migrate ::
  "'s sqlite_engine \<Rightarrow> migration list \<Rightarrow> bool \<Rightarrow> 's migration_db \<Rightarrow> (migration_error + int) \<times> 's migration_db" where
  "migrate q plan include_keyed db = migrate_attempts q plan include_keyed 0 db"

end
