(* ===== verification/Migration_Laws.thy ===== *)
theory Migration_Laws
  imports Migrations "HOL-Library.Multiset"
begin

text \<open>
  The migrator is exact: it applies what is pending, in order, up to the first keyed migration,
  all or nothing, and a second run changes nothing. The pieces of a script lose no character.
\<close>

section \<open>Scripts\<close>

lemma script_pieces_lossless: "script_pieces ends buffer s = (pieces, rest) \<Longrightarrow> concat pieces @ rest = buffer @ s"
  by (induction ends buffer s arbitrary: pieces rest rule: script_pieces.induct)
     (auto split: if_splits prod.splits)

lemma script_pieces_complete: "script_pieces ends buffer s = (pieces, rest) \<Longrightarrow> p \<in> set pieces \<Longrightarrow> ends p \<and> last p = CHR '';''"
  by (induction ends buffer s arbitrary: pieces rest rule: script_pieces.induct)
     (auto split: if_splits prod.splits)

text \<open>White space and comments in front of a text do not change whether it is a comment only.\<close>

lemma comment_only_space: "py_isspace c \<Longrightarrow> is_comment_only (c # s) = is_comment_only s"
  by (subst is_comment_only.simps) simp

lemma comment_only_line:
  assumes "CHR 0x0A \<notin> set t"
  shows "is_comment_only (''--'' @ t @ [CHR 0x0A] @ s) = is_comment_only s"
proof -
  have "after_newline (t @ [CHR 0x0A] @ s) = Some s" using assms by (induction t) auto
  moreover have "\<not> py_isspace (CHR ''-'')" by (simp add: py_isspace_def)
  ultimately show ?thesis by (subst is_comment_only.simps) simp
qed

section \<open>One migration\<close>

definition row_of :: "'s sqlite_engine \<Rightarrow> migration \<Rightarrow> migration_row" where
  "row_of q m = \<lparr>lg_version = mg_version m, lg_name = mg_name m, lg_checksum = checksum q m,
     lg_applied_at = sq_now q (mg_version m)\<rparr>"

lemma row_of_matches [simp]: "row_matches q (row_of q m) m"
  by (simp add: row_matches_def row_of_def)

lemma execute_keeps: "foldM (execute_statement q) db ss = Inr db' \<Longrightarrow>
    md_ledger db' = md_ledger db \<and> md_user_version db' = md_user_version db"
  by (rule foldM_invariant[where P = "\<lambda>d. md_ledger d = md_ledger db \<and> md_user_version d = md_user_version db"])
     (auto simp: execute_statement_def result_simps)

lemma as_apply_error_eq_Inr [simp]: "as_apply_error x = Inr y \<longleftrightarrow> x = Inr y"
  by (cases x) (simp_all add: as_apply_error_def)

lemma apply_one_rows:
  assumes "apply_one q m db = Inr db'"
  shows "ledger_rows db' = ledger_rows db @ [row_of q m]" "md_user_version db' = mg_version m" "md_ledger db' \<noteq> None"
  using assms
  by (auto simp: apply_one_def result_simps insert_migration_row_def ledger_rows_def row_of_def dest!: execute_keeps
      split: prod.splits if_splits)

lemma apply_pending_rows:
  assumes "apply_pending q keyed ms n db = Inr (k, db')"
  shows "n \<le> k \<and> k - n \<le> length ms \<and> ledger_rows db' = ledger_rows db @ map (row_of q) (take (k - n) ms) \<and>
    md_user_version db' = (if k = n then md_user_version db else mg_version (ms ! (k - n - 1))) \<and>
    (k = n \<longrightarrow> db' = db) \<and> (md_ledger db \<noteq> None \<longrightarrow> md_ledger db' \<noteq> None) \<and>
    (\<forall>m \<in> set (take (k - n) ms). \<not> mg_requires_codec m) \<and> (k - n = length ms \<or> mg_requires_codec (ms ! (k - n)) \<and> \<not> keyed)"
  using assms
proof (induction q keyed ms n db rule: apply_pending.induct)
  case (2 q keyed m ms n db)
  show ?case
  proof (cases "mg_requires_codec m")
    case False
    with 2(2) obtain db1 where one: "apply_one q m db = Inr db1" and rest: "apply_pending q keyed ms (n + 1) db1 = Inr (k, db')"
      by (auto simp: result_simps)
    from 2(1)[OF False rest] have IH: "n + 1 \<le> k" "k - (n + 1) \<le> length ms"
      "ledger_rows db' = ledger_rows db1 @ map (row_of q) (take (k - (n + 1)) ms)"
      "md_user_version db' = (if k = n + 1 then md_user_version db1 else mg_version (ms ! (k - (n + 1) - 1)))"
      "md_ledger db1 \<noteq> None \<longrightarrow> md_ledger db' \<noteq> None"
      "\<forall>m \<in> set (take (k - (n + 1)) ms). \<not> mg_requires_codec m"
      "k - (n + 1) = length ms \<or> mg_requires_codec (ms ! (k - (n + 1))) \<and> \<not> keyed" by auto
    from IH(1) obtain d where k: "k = Suc (n + d)" by (auto simp: le_iff_add)
    show ?thesis using IH False apply_one_rows[OF one] unfolding k by (cases d) auto
  qed (use 2(2) in \<open>auto split: if_splits\<close>)
qed auto

section \<open>The ledger as a prefix of the plan\<close>

definition ledger_prefix :: "'s sqlite_engine \<Rightarrow> migration list \<Rightarrow> 's migration_db \<Rightarrow> bool" where
  "ledger_prefix q plan db \<longleftrightarrow>
     (let rows = sort_key lg_version (ledger_rows db) in
      length rows \<le> length plan \<and> list_all2 (row_matches q) rows (take (length rows) plan) \<and>
      md_user_version db = int (length rows))"

lemma plan_versions:
  assumes "validate_plan plan = Inr ()" "i < length plan"
  shows "mg_version (plan ! i) = int i + 1"
proof -
  from assms(1) have "map mg_version plan = map int [1 ..< length plan + 1]" by (simp add: validate_plan_def result_simps)
  then have "map mg_version plan ! i = map int [1 ..< length plan + 1] ! i" by (rule arg_cong)
  also have "\<dots> = int i + 1" using assms(2) by (subst nth_map) (simp_all del: upt_Suc)
  finally show ?thesis using assms(2) by simp
qed

lemma matched_versions:
  assumes plan: "validate_plan plan = Inr ()" and m: "list_all2 (row_matches q) rows (take (length rows) plan)"
    and "length rows \<le> length plan" "i < length rows"
  shows "lg_version (rows ! i) = int i + 1"
proof -
  from list_all2_nthD[OF m assms(4)] assms(3,4) have "lg_version (rows ! i) = mg_version (plan ! i)"
    by (simp add: row_matches_def)
  with plan_versions[OF plan] assms(3,4) show ?thesis by simp
qed

lemma validate_ledger_iff:
  assumes plan: "validate_plan plan = Inr ()"
  shows "validate_ledger q plan db = Inr n \<longleftrightarrow> ledger_prefix q plan db \<and> n = length (ledger_rows db)"
proof -
  let ?rows = "sort_key lg_version (ledger_rows db)"
  have "(if ?rows = [] then 0 else lg_version (last ?rows)) = int (length ?rows)"
    if "length ?rows \<le> length plan" "list_all2 (row_matches q) ?rows (take (length ?rows) plan)"
  proof (cases "?rows = []")
    case False
    then have "0 < length ?rows" by blast
    with matched_versions[OF plan that(2,1), of "length ?rows - 1"] False show ?thesis by (simp add: last_conv_nth)
  qed simp
  then show ?thesis by (auto simp: validate_ledger_def ledger_prefix_def result_simps)
qed

lemma sort_key_append_above:
  assumes "sorted (map f ys)" "\<And>x y. x \<in> set xs \<Longrightarrow> y \<in> set ys \<Longrightarrow> f x < f y"
  shows "sort_key f (xs @ ys) = sort_key f xs @ ys"
proof (rule properties_for_sort_key)
  show "mset (sort_key f xs @ ys) = mset (xs @ ys)" by simp
  show "filter (\<lambda>x. f k = f x) (sort_key f xs @ ys) = filter (\<lambda>x. f k = f x) (xs @ ys)" for k
    using sort_key_stable[of f "f k" xs] by (simp add: eq_commute[of "f k"])
  show "sorted (map f (sort_key f xs @ ys))"
    using assms by (fastforce simp: sorted_append intro: less_imp_le)
qed

section \<open>Runs\<close>

text \<open>What one attempt that returns has done.\<close>

definition migrated :: "'s sqlite_engine \<Rightarrow> migration list \<Rightarrow> 's migration_db \<Rightarrow> int \<Rightarrow> 's migration_db \<Rightarrow> bool" where
  "migrated q plan db v db' \<longleftrightarrow>
     (let n = length (ledger_rows db); k = length (ledger_rows db') in
      ledger_prefix q plan db' \<and> md_ledger db' \<noteq> None \<and> v = int k \<and> n \<le> k \<and>
      ledger_rows db' = ledger_rows db @ map (row_of q) (drop n (take k plan)) \<and>
      (\<forall>m \<in> set (drop n (take k plan)). \<not> mg_requires_codec m) \<and> (k = length plan \<or> mg_requires_codec (plan ! k)))"

lemma ledger_rows_create [simp]: "ledger_rows (create_ledger db) = ledger_rows db" "md_ledger (create_ledger db) \<noteq> None"
    "md_user_version (create_ledger db) = md_user_version db"
  by (auto simp: ledger_rows_def create_ledger_def split: option.splits)

lemma ledger_prefix_extend:
  assumes plan: "validate_plan plan = Inr ()" and pre: "ledger_prefix q plan db" and k: "k \<le> length plan"
    and n: "n = length (ledger_rows db)" "n \<le> k"
    and rows: "ledger_rows db' = ledger_rows db @ map (row_of q) (drop n (take k plan))"
    and version: "md_user_version db' = (if k = n then md_user_version db else mg_version (plan ! (k - 1)))"
  shows "ledger_prefix q plan db'"
proof -
  let ?old = "sort_key lg_version (ledger_rows db)" and ?new = "map (row_of q) (drop n (take k plan))"
  have old: "length ?old = n" "list_all2 (row_matches q) ?old (take n plan)" "md_user_version db = int n"
    using pre n(1) by (simp_all add: ledger_prefix_def)
  have new: "lg_version (?new ! i) = int (n + i) + 1" if "i < k - n" for i
    using plan_versions[OF plan, of "n + i"] that k by (simp add: row_of_def)
  have len: "length ?new = k - n" using k by simp
  have "sorted (map lg_version ?new)"
    unfolding sorted_iff_nth_mono_less using new len by auto
  moreover have "lg_version x < lg_version y" if "x \<in> set (ledger_rows db)" "y \<in> set ?new" for x y
  proof -
    from that(1) have "x \<in> set ?old" by simp
    then obtain i where "x = ?old ! i" "i < n" using old(1) by (metis in_set_conv_nth)
    with matched_versions[OF plan, of q ?old i] old n k have "lg_version x = int i + 1" by simp
    moreover from that(2) obtain j where "y = ?new ! j" "j < k - n" using len by (metis in_set_conv_nth)
    ultimately show ?thesis using new[of j] \<open>i < n\<close> by simp
  qed
  ultimately have "sort_key lg_version (ledger_rows db') = ?old @ ?new" unfolding rows by (intro sort_key_append_above)
  moreover have "list_all2 (row_matches q) (?old @ ?new) (take n plan @ drop n (take k plan))"
    by (intro list_all2_appendI old(2)) (simp add: list_all2_map1 list.rel_refl)
  moreover have "take n plan @ drop n (take k plan) = take k plan"
    by (metis append_take_drop_id min.absorb1 n(2) take_take)
  moreover have "md_user_version db' = int k"
    using version old(3) plan_versions[OF plan, of "k - 1"] k n(2) by (cases "k = n") auto
  ultimately show ?thesis using k old(1) n(2) by (simp add: ledger_prefix_def len)
qed

lemma migrate_body_exact:
  assumes plan: "validate_plan plan = Inr ()" and run: "migrate_body q plan keyed db = Inr (v, db')"
  shows "migrated q plan db v db'"
    and "md_ledger db \<noteq> None \<Longrightarrow> length (ledger_rows db') = length (ledger_rows db) \<Longrightarrow> db' = db"
proof -
  let ?n = "length (ledger_rows db)"
  from run obtain k where val: "validate_ledger q plan (create_ledger db) = Inr ?n"
    and app: "apply_pending q keyed (drop ?n plan) ?n (create_ledger db) = Inr (k, db')"
    and v: "v = (if k = 0 then 0 else mg_version (plan ! (k - 1)))"
    by (auto simp: migrate_body_def result_simps validate_ledger_iff[OF plan])
  from val have pre: "ledger_prefix q plan (create_ledger db)" by (simp add: validate_ledger_iff[OF plan])
  then have n: "?n \<le> length plan" by (simp add: ledger_prefix_def)
  note a = apply_pending_rows[OF app]
  have k: "?n \<le> k" "k \<le> length plan" using a n by auto
  have take: "take (k - ?n) (drop ?n plan) = drop ?n (take k plan)" by (simp add: drop_take)
  have rows: "ledger_rows db' = ledger_rows db @ map (row_of q) (drop ?n (take k plan))" using a take by simp
  have len: "length (ledger_rows db') = k" using rows k by simp
  have "md_user_version db' = (if k = ?n then md_user_version (create_ledger db) else mg_version (plan ! (k - 1)))"
    using a k n by (auto simp: nth_drop)
  then have pre': "ledger_prefix q plan db'"
    by (intro ledger_prefix_extend[OF plan pre k(2) _ k(1)]) (use rows in simp_all)
  have "v = int k" using v plan_versions[OF plan, of "k - 1"] k by (cases "k = 0") auto
  moreover have "k = length plan \<or> mg_requires_codec (plan ! k)" using a k n by (auto simp: nth_drop)
  ultimately show "migrated q plan db v db'" using pre' rows len k a take by (auto simp: migrated_def)
  show "db' = db" if "md_ledger db \<noteq> None" "length (ledger_rows db') = ?n"
    using a len that by (auto simp: create_ledger_def split: option.splits)
qed

lemma migrate_attempts_body:
  "migrate_attempts q plan keyed i db = (r, db') \<Longrightarrow>
     (\<exists>e. r = Inl e \<and> db' = db) \<or> (\<exists>v. r = Inr v \<and> migrate_body q plan keyed db = Inr (v, db'))"
proof (induction q plan keyed i db rule: migrate_attempts.induct)
  case (1 q plan keyed i db)
  note run = 1(2)[unfolded migrate_attempts.simps[of q plan keyed i db]]
  have IH: "(\<exists>e. r = Inl e \<and> db' = db) \<or> (\<exists>v. r = Inr v \<and> migrate_body q plan keyed db = Inr (v, db'))"
    if "migrate_once q plan keyed i db = (Inl (Sqlite_Error Sqlite_Busy), db)" "Suc i < BUSY_RETRY_ATTEMPTS"
      "migrate_attempts q plan keyed (Suc i) db = (r, db')"
    using 1(1) that by simp
  show ?case
  proof (cases "sq_begin q i")
    case None
    show ?thesis
    proof (cases "migrate_body q plan keyed db")
      case (Inl e)
      with None have "migrate_once q plan keyed i db = (Inl e, db)" by (simp add: migrate_once_def)
      with run IH show ?thesis by (cases e) (auto split: if_splits)
    qed (use run None in \<open>auto simp: migrate_once_def\<close>)
  next
    case (Some e)
    then have "migrate_once q plan keyed i db = (Inl (Sqlite_Error e), db)" by (simp add: migrate_once_def)
    with run IH show ?thesis by (auto split: if_splits)
  qed
qed

lemma migrate_attempts_again:
  "migrate_attempts q plan keyed i db = (Inr v, db') \<Longrightarrow> migrate_body q plan keyed d = Inr (u, d') \<Longrightarrow>
     migrate_attempts q plan keyed i d = (Inr u, d')"
proof (induction q plan keyed i db rule: migrate_attempts.induct)
  case (1 q plan keyed i db)
  note run = 1(2)[unfolded migrate_attempts.simps[of q plan keyed i db]]
  show ?case
  proof (cases "sq_begin q i")
    case None
    with 1(3) show ?thesis by (subst migrate_attempts.simps) (simp add: migrate_once_def)
  next
    case (Some e)
    then have once: "migrate_once q plan keyed i x = (Inl (Sqlite_Error e), x)" for x by (simp add: migrate_once_def)
    with run have e: "e = Sqlite_Busy" "Suc i < BUSY_RETRY_ATTEMPTS" "migrate_attempts q plan keyed (Suc i) db = (Inr v, db')"
      by (auto split: if_splits)
    with 1(1) once 1(3) have "migrate_attempts q plan keyed (Suc i) d = (Inr u, d')" by simp
    with once[of d] e(1,2) show ?thesis by (subst migrate_attempts.simps) simp
  qed
qed

lemma migrate_body_again:
  assumes plan: "validate_plan plan = Inr ()" and run: "migrate_body q plan keyed db = Inr (v, db')"
  shows "migrate_body q plan keyed db' = Inr (v, db')"
proof -
  let ?n = "length (ledger_rows db)" and ?k = "length (ledger_rows db')"
  from migrate_body_exact(1)[OF plan run] have m: "ledger_prefix q plan db'" "md_ledger db' \<noteq> None" "v = int ?k" "?k \<le> length plan"
    and stop: "?k = length plan \<or> mg_requires_codec (plan ! ?k)"
    by (auto simp: migrated_def ledger_prefix_def)
  from run obtain k where app: "apply_pending q keyed (drop ?n plan) ?n (create_ledger db) = Inr (k, db')" and "?n \<le> length plan"
    by (auto simp: migrate_body_def result_simps validate_ledger_iff[OF plan] ledger_prefix_def)
  with apply_pending_rows[OF app] have "?k = k" "keyed \<Longrightarrow> ?k = length plan" by auto
  then have "apply_pending q keyed (drop ?k plan) ?k db' = Inr (?k, db')"
    using stop m(4) by (cases "?k = length plan") (auto simp: Cons_nth_drop_Suc[symmetric])
  moreover have "create_ledger db' = db'" using m(2) by (auto simp: create_ledger_def)
  moreover have "check_sqlite_capabilities q = Inr ()" using run by (auto simp: migrate_body_def result_simps)
  moreover have "validate_ledger q plan db' = Inr ?k" using m(1) by (simp add: validate_ledger_iff[OF plan])
  moreover have "(if ?k = 0 then 0 else mg_version (plan ! (?k - 1))) = v"
  proof (cases "?k = 0")
    case False
    with m(4) have "?k - 1 < length plan" by linarith
    from plan_versions[OF plan this] False m(3) show ?thesis by simp
  qed (use m(3) in simp)
  ultimately show ?thesis by (simp add: migrate_body_def)
qed

text \<open>
  C32. Migration is atomic, exact and idempotent: a run that raises leaves the database as it was;
  a run that returns has kept the ledger and appended exactly the pending migrations up to the
  first keyed one, so that the ledger is a checksum-verified prefix of the plan and the
  returned version is its length and \<^verbatim>\<open>user_version\<close>; and a second run returns the
  same version and changes nothing, as does every later run that returns at all.
\<close>

theorem migrate_exact:
  assumes plan: "validate_plan plan = Inr ()" and run: "migrate q plan keyed db = (r, db')"
  shows "(\<forall>e. r = Inl e \<longrightarrow> db' = db) \<and>
    (\<forall>v. r = Inr v \<longrightarrow> migrated q plan db v db' \<and> md_user_version db' = v \<and> migrate q plan keyed db' = (Inr v, db') \<and>
       (\<forall>q' u db''. migrate q' plan keyed db' = (Inr u, db'') \<longrightarrow> u = v \<and> db'' = db'))"
proof -
  have "migrated q plan db v db' \<and> md_user_version db' = v \<and> migrate q plan keyed db' = (Inr v, db') \<and>
      (\<forall>q' u db''. migrate q' plan keyed db' = (Inr u, db'') \<longrightarrow> u = v \<and> db'' = db')"
    if r: "r = Inr v" for v
  proof -
    from migrate_attempts_body[OF run[unfolded migrate_def]] r have body: "migrate_body q plan keyed db = Inr (v, db')" by auto
    note m = migrate_body_exact(1)[OF plan body]
    then have len: "v = int (length (ledger_rows db'))" and uv: "md_user_version db' = v" and ledger: "md_ledger db' \<noteq> None"
      and stop: "length (ledger_rows db') = length plan \<or> mg_requires_codec (plan ! length (ledger_rows db'))"
      by (auto simp: migrated_def ledger_prefix_def)
    have "u = v \<and> db'' = db'" if "migrate q' plan keyed db' = (Inr u, db'')" for q' u db''
    proof -
      from migrate_attempts_body[OF that[unfolded migrate_def]] have again: "migrate_body q' plan keyed db' = Inr (u, db'')" by auto
      let ?n = "length (ledger_rows db')" and ?k = "length (ledger_rows db'')"
      from migrate_body_exact(1)[OF plan again] have a: "u = int ?k" "?n \<le> ?k" "?k \<le> length plan"
        "\<forall>m \<in> set (drop ?n (take ?k plan)). \<not> mg_requires_codec m"
        by (auto simp: migrated_def ledger_prefix_def)
      have "?k = ?n"
      proof (rule ccontr)
        assume "?k \<noteq> ?n"
        with a(2,3) have lt: "?n < ?k" "?n < length plan" by auto
        then have "plan ! ?n \<in> set (drop ?n (take ?k plan))"
          by (simp add: in_set_conv_nth) (rule exI[of _ 0], use lt a(3) in simp)
        with a(4) stop lt show False by auto
      qed
      with migrate_body_exact(2)[OF plan again ledger] a(1) len show ?thesis by simp
    qed
    moreover have "migrate q plan keyed db' = (Inr v, db')"
      unfolding migrate_def using migrate_attempts_again[OF run[unfolded migrate_def r] migrate_body_again[OF plan body]] .
    ultimately show ?thesis using m uv by blast
  qed
  with migrate_attempts_body[OF run[unfolded migrate_def]] show ?thesis by auto
qed

section \<open>Witness\<close>

definition demo_engine :: "string list sqlite_engine" where
  "demo_engine = \<lparr>sq_execute = (\<lambda>t s. Inr (s @ [t])), sq_complete = (\<lambda>_. True), sq_sha256 = (\<lambda>_. replicate 64 (CHR ''0'')),
     sq_now = (\<lambda>_. ''2026-01-01T00:00:00Z''), sq_begin = (\<lambda>i. if i = 0 then Some Sqlite_Busy else None),
     sq_json_row = Inr True\<rparr>"

definition demo_plan :: "migration list" where
  "demo_plan =
     [\<lparr>mg_version = 1, mg_name = ''initial_schema'', mg_sql = ''CREATE TABLE a (x); CREATE TABLE b (y); -- end'', mg_requires_codec = False\<rparr>,
      \<lparr>mg_version = 2, mg_name = ''encrypted_token_metrics'', mg_sql = ''CREATE TABLE c (z);'', mg_requires_codec = True\<rparr>]"

definition demo_fresh :: "string list migration_db" where
  "demo_fresh = \<lparr>md_schema = [], md_ledger = None, md_user_version = 0\<rparr>"

definition demo_migrated :: "string list migration_db" where
  "demo_migrated = \<lparr>md_schema = [''CREATE TABLE a (x);'', ''CREATE TABLE b (y);''],
     md_ledger = Some [\<lparr>lg_version = 1, lg_name = ''initial_schema'', lg_checksum = replicate 64 (CHR ''0''),
       lg_applied_at = ''2026-01-01T00:00:00Z''\<rparr>], md_user_version = 1\<rparr>"

lemma demo_migrates: "migrate demo_engine demo_plan False demo_fresh = (Inr 1, demo_migrated)"
  by code_simp

theorem migrate_exact_witness:
  "migrated demo_engine demo_plan demo_fresh 1 demo_migrated \<and> md_user_version demo_migrated = 1 \<and>
   migrate demo_engine demo_plan False demo_migrated = (Inr 1, demo_migrated)"
proof -
  have "validate_plan demo_plan = Inr ()" by code_simp
  from migrate_exact[OF this demo_migrates] show ?thesis by simp
qed

end
