(* ===== verification/Worker_Fenced.thy ===== *)
theory Worker_Fenced
  imports Worker_Failures
begin

text \<open>
  The injected (fenced) lane of \<^verbatim>\<open>compaction/worker.py\<close>: configuration, renewal, the wait under a
  heartbeat, the compatibility metrics, one run and its recorded failure. The renewals of the
  heartbeat task are among the interleaved transactions of the world; how each awaited
  operation finds its heartbeat and which calls meet a locked database are fields of the lane.
  Cancellation by the event loop is not modelled.
\<close>

section \<open>Configuration\<close>

record fenced_config =
  fc_worker :: string
  fc_lease :: int
  fc_token_ceiling :: int
  fc_segmenter :: segmenter_config
  fc_strict_audit :: bool
  fc_max_attempts :: int
  fc_retry_delay :: int
  fc_heartbeat :: "int option"

text \<open>A \<^verbatim>\<open>timedelta\<close> divided by three, rounded to the microsecond.\<close>

definition third :: "int \<Rightarrow> int" where
  "third d = (d + 1) div 3"

definition valid_fenced_config :: "fenced_config \<Rightarrow> bool" where
  "valid_fenced_config c \<longleftrightarrow>
     py_strip (fc_worker c) \<noteq> [] \<and> fc_lease c > 0 \<and> fc_token_ceiling c \<ge> 0 \<and> fc_max_attempts c \<ge> 1 \<and> fc_retry_delay c > 0 \<and>
     (case fc_heartbeat c of None \<Rightarrow> third (fc_lease c) > 0 | Some i \<Rightarrow> i > 0 \<and> i < fc_lease c)"

definition effective_heartbeat_interval :: "fenced_config \<Rightarrow> int" where
  "effective_heartbeat_interval c = (case fc_heartbeat c of None \<Rightarrow> third (fc_lease c) | Some i \<Rightarrow> i)"

datatype fenced_error = Lane worker_error | OperationalError | LeaseAbandoned

text \<open>What \<^verbatim>\<open>ensure_live\<close> finds after an awaited operation.\<close>

datatype heartbeat = Beat_Healthy | Beat_Lost | Beat_Error fenced_error

record fenced =
  fk_config :: fenced_config
  fk_backend :: compiler_backend
  fk_auditor :: "audit_backend option"
  fk_counter :: token_counter
  fk_loads :: "string \<Rightarrow> json option"
  fk_dump :: "capsule \<Rightarrow> string"
  fk_busy :: "nat \<Rightarrow> bool"
  fk_beat :: "nat \<Rightarrow> heartbeat"

section \<open>Calls\<close>

definition fenced_lift :: "'e + 'a \<Rightarrow> ('e, 'a) action" where
  "fenced_lift r s = (r, s)"

text \<open>The clock is read and checked, then the repository is called, which may find the database locked.\<close>

definition fenced_call ::
  "fenced \<Rightarrow> world \<Rightarrow> (env \<Rightarrow> (nat \<Rightarrow> datetime) \<Rightarrow> db \<Rightarrow> (repo_error + 'a) \<times> db) \<Rightarrow> (fenced_error, 'a) action" where
  "fenced_call fk w op s =
     (case s of (db, n) \<Rightarrow>
        if \<not> is_aware_datetime (wd_clock w n 0) then (Inl (Lane (Repository ValueError)), (wd_others w n db, Suc n))
        else if fk_busy fk n then (Inl OperationalError, (wd_others w n db, Suc n))
        else case act_call w op s of (r, s1) \<Rightarrow> (map_error Lane r, s1))"

definition fenced_transition ::
  "fenced \<Rightarrow> world \<Rightarrow> job \<Rightarrow> job_state \<Rightarrow> string option \<Rightarrow> (fenced_error, job) action" where
  "fenced_transition fk w j st candidate =
     fenced_call fk w (\<lambda>env clock. transition_job env (job_id j) (fc_worker (fk_config fk)) (job_lease_epoch j) st (clock 0) candidate)"

definition renewed_lease :: "fenced_config \<Rightarrow> job \<Rightarrow> datetime \<Rightarrow> repo_error + datetime" where
  "renewed_lease c j now =
     (case job_lease_expires_at j of
        None \<Rightarrow> Inl RepositoryInvariantError
      | Some t \<Rightarrow>
          Inr (if instant now + fc_lease c \<le> t then Aware (t + effective_heartbeat_interval c) else shift now (fc_lease c)))"

text \<open>Renewal, with the instant the following operation uses.\<close>

definition fenced_renew :: "fenced \<Rightarrow> world \<Rightarrow> job \<Rightarrow> (fenced_error, job \<times> datetime) action" where
  "fenced_renew fk w j =
     fenced_call fk w (\<lambda>env clock db.
       case renewed_lease (fk_config fk) j (clock 0) of
         Inl e \<Rightarrow> (Inl e, db)
       | Inr lease \<Rightarrow>
           (case renew_job_lease env (job_id j) (fc_worker (fk_config fk)) (job_lease_epoch j) (clock 0) lease db of
              (Inl e, db') \<Rightarrow> (Inl e, db') | (Inr j', db') \<Rightarrow> (Inr (j', clock 0), db')))"

text \<open>The result of an awaited operation after its heartbeat was stopped and examined.\<close>

definition await_with_heartbeat :: "fenced \<Rightarrow> job \<Rightarrow> worker_error + 'a \<Rightarrow> (fenced_error, 'a) action" where
  "await_with_heartbeat fk j r s =
     (if job_lease_expires_at j = None then (Inl (Lane (Repository RepositoryInvariantError)), s)
      else case fk_beat fk (snd s) of
        Beat_Lost \<Rightarrow> (Inl LeaseAbandoned, s)
      | Beat_Error e \<Rightarrow> (Inl e, s)
      | Beat_Healthy \<Rightarrow> (map_error Lane r, s))"

section \<open>Compatibility metrics\<close>

definition count_compatibility_metric :: "fenced \<Rightarrow> string \<Rightarrow> worker_error + int" where
  "count_compatibility_metric fk t =
     (case fk_counter fk t of
        Counted n \<Rightarrow> if n < 0 then Inl (Pipeline (compiler_error COMPILER_TOKEN_COUNTER_INVALID)) else Inr n
      | Count_Not_Int \<Rightarrow> Inl (Pipeline (compiler_error COMPILER_TOKEN_COUNTER_INVALID))
      | _ \<Rightarrow> Inl (Pipeline (compiler_error COMPILER_TOKEN_COUNTER_FAILURE)))"

definition compatibility_metric :: "fenced \<Rightarrow> artifact_kind \<Rightarrow> string \<Rightarrow> string \<Rightarrow> worker_error + token_metric" where
  "compatibility_metric fk kind i t =
     bind (count_compatibility_metric fk t) (\<lambda>n.
     let m = \<lparr>tm_kind = kind, tm_artifact = i, tm_profile = ''legacy-compatibility'', tm_count = n\<rparr>
     in bind (guard (valid_metric m) (Repository ValueError)) (\<lambda>_. Inr m))"

definition candidate_compatibility_metrics ::
  "fenced \<Rightarrow> snapshot \<Rightarrow> membership list \<Rightarrow> worker_error + token_metric list" where
  "candidate_compatibility_metrics fk s ms =
     bind (traverse (\<lambda>m. compatibility_metric fk CAPSULE_ARTIFACT (mem_capsule_id m) (render_capsule (mem_capsule m))) ms) (\<lambda>capsules.
     bind (compatibility_metric fk SNAPSHOT_ARTIFACT (snap_id s) (snap_rendered_context s)) (\<lambda>m.
     Inr (capsules @ [m])))"

section \<open>One run\<close>

definition fenced_input :: "fenced \<Rightarrow> request_view \<Rightarrow> datetime \<Rightarrow> compiler_input" where
  "fenced_input fk v now =
     \<lparr>ci_base_snapshot = rv_snapshot v, ci_base_capsules = map mem_capsule (rv_memberships v),
      ci_source_events = rv_delta v, ci_counts = map (\<lambda>e. (ev_id e, ev_token_count e)) (rv_delta v),
      ci_target = rv_high_water_mark v, ci_token_ceiling = fc_token_ceiling (fk_config fk), ci_now = now,
      ci_segmenter = fc_segmenter (fk_config fk), ci_preferred = [], ci_binding = None, ci_binding_captured = False\<rparr>"

text \<open>The variable \<^verbatim>\<open>job\<close> of the source tags the error: the handlers use its last value.\<close>

definition holding :: "job \<Rightarrow> (fenced_error, 'a) action \<Rightarrow> (job \<times> fenced_error, 'a) action" where
  "holding j m s = (case m s of (r, s1) \<Rightarrow> (map_error (Pair j) r, s1))"

definition fenced_compile :: "fenced \<Rightarrow> world \<Rightarrow> job \<Rightarrow> (job \<times> fenced_error, job \<times> compilation_candidate) action" where
  "fenced_compile fk w j0 =
     act_bind (holding j0 (fenced_transition fk w j0 COMPILING None)) (\<lambda>j1.
     act_bind (holding j1 (fenced_call fk w (\<lambda>env clock db.
       (read_compaction_view env db (job_id j1) (fc_worker (fk_config fk)) (job_lease_epoch j1) (clock 0), db)))) (\<lambda>v.
     act_bind (holding j1 (fenced_renew fk w j1)) (\<lambda>(j2, now).
     act_bind (holding j2 (await_with_heartbeat fk j2 (map_error Pipeline
       (compile_candidate (wd_env w) (fk_loads fk) (fk_dump fk) (fk_backend fk) (fk_counter fk) (fenced_input fk v now)))))
       (\<lambda>candidate. fenced_lift (Inr (j2, candidate))))))"

definition fenced_audit ::
  "fenced \<Rightarrow> world \<Rightarrow> job \<Rightarrow> compilation_candidate \<Rightarrow> (job \<times> fenced_error, job \<times> snapshot \<times> membership list) action" where
  "fenced_audit fk w j0 candidate =
     (if \<not> fc_strict_audit (fk_config fk)
      then fenced_lift (Inr (j0, cc_snapshot candidate, cc_memberships candidate))
      else
        act_bind (holding j0 (fenced_transition fk w j0 AUDITING None)) (\<lambda>j1.
        act_bind (holding j1 (fenced_renew fk w j1)) (\<lambda>(j2, now).
        act_bind (holding j2 (await_with_heartbeat fk j2
          (map_error Pipeline (audit_semantic candidate True (fk_auditor fk))))) (\<lambda>audited.
        fenced_lift (Inr (j2, ac_snapshot audited, ac_memberships audited))))))"

definition fenced_publish ::
  "fenced \<Rightarrow> world \<Rightarrow> job \<Rightarrow> snapshot \<Rightarrow> membership list \<Rightarrow> (job \<times> fenced_error, publish_result) action" where
  "fenced_publish fk w j0 s ms =
     act_bind (holding j0 (fenced_transition fk w j0 READY_TO_COMMIT (Some (snap_id s)))) (\<lambda>j1.
     act_bind (holding j1 (fenced_lift (map_error Lane (candidate_compatibility_metrics fk s ms)))) (\<lambda>metrics.
     holding j1 (fenced_call fk w (\<lambda>env clock.
       publish_snapshot env (job_id j1) (fc_worker (fk_config fk)) (job_lease_epoch j1) (clock 0)
         \<lparr>pub_snapshot = s, pub_memberships = ms, pub_metrics = Some metrics, pub_records = [],
          pub_token_ceiling = fc_token_ceiling (fk_config fk)\<rparr>))))"

definition fenced_attempt :: "fenced \<Rightarrow> world \<Rightarrow> job \<Rightarrow> (job \<times> fenced_error, publish_result) action" where
  "fenced_attempt fk w j =
     act_bind (fenced_compile fk w j) (\<lambda>(j1, candidate).
     act_bind (fenced_audit fk w j1 candidate) (\<lambda>(j2, s, ms).
     fenced_publish fk w j2 s ms))"

section \<open>Failures\<close>

record fenced_failure =
  ff_stage :: string
  ff_code :: string
  ff_retryable :: bool

fun is_repository_error :: "repo_error \<Rightarrow> bool" where
  "is_repository_error TokenMetricConflict = False"
| "is_repository_error (StorageSecurityError x) = False"
| "is_repository_error IntegrityError = False"
| "is_repository_error ValueError = False"
| "is_repository_error TypeError = False"
| "is_repository_error (InjectedFault x) = False"
| "is_repository_error _ = True"

definition retryable_compiler_errors :: "compiler_error_code list" where
  "retryable_compiler_errors = [COMPILER_BACKEND_FAILURE, COMPILER_TOKEN_COUNTER_FAILURE]"

definition retryable_audit_errors :: "audit_error_code list" where
  "retryable_audit_errors = [SEMANTIC_AUDIT_BACKEND_FAILURE]"

definition failure_for :: "fenced_error \<Rightarrow> fenced_failure" where
  "failure_for e =
     (case e of
        OperationalError \<Rightarrow> \<lparr>ff_stage = ''REPOSITORY'', ff_code = ''SQLITE_OPERATIONAL_ERROR'', ff_retryable = True\<rparr>
      | Lane (Pipeline (CompilerInvariantError c rep)) \<Rightarrow>
          \<lparr>ff_stage = ''COMPILING'', ff_code = compiler_code_value c, ff_retryable = (c \<in> set retryable_compiler_errors)\<rparr>
      | Lane (Pipeline (SemanticAuditInvariantError c)) \<Rightarrow>
          \<lparr>ff_stage = ''AUDITING'', ff_code = audit_code_value c, ff_retryable = (c \<in> set retryable_audit_errors)\<rparr>
      | Lane (Repository (PublicationRejected rep)) \<Rightarrow>
          \<lparr>ff_stage = ''PUBLISHING'', ff_code = ''PUBLICATION_REJECTED'', ff_retryable = False\<rparr>
      | Lane (Repository r) \<Rightarrow>
          (if r = RepositoryInvariantError
           then \<lparr>ff_stage = ''REPOSITORY'', ff_code = ''REPOSITORY_INVARIANT'', ff_retryable = False\<rparr>
           else if is_repository_error r
           then \<lparr>ff_stage = ''REPOSITORY'', ff_code = ''REPOSITORY_FAILURE'', ff_retryable = False\<rparr>
           else \<lparr>ff_stage = ''WORKER'', ff_code = ''WORKER_UNEXPECTED_FAILURE'', ff_retryable = False\<rparr>)
      | _ \<Rightarrow> \<lparr>ff_stage = ''WORKER'', ff_code = ''WORKER_UNEXPECTED_FAILURE'', ff_retryable = False\<rparr>)"

datatype run_result = Nothing_Claimed | Ran job "publish_result option" | Run_Escaped fenced_error

definition fenced_fail_job :: "fenced \<Rightarrow> world \<Rightarrow> job \<Rightarrow> fenced_failure \<Rightarrow> (fenced_error, job) action" where
  "fenced_fail_job fk w j f =
     fenced_call fk w (\<lambda>env clock. fail_job env (job_id j) (fc_worker (fk_config fk)) (job_lease_epoch j) (clock 0)
       \<lparr>fail_stage = ff_stage f, fail_code = ff_code f, fail_message = ''redacted'',
        fail_retry_at = (if ff_retryable f \<and> job_attempt_count j < fc_max_attempts (fk_config fk)
          then Some (shift (clock 0) (fc_retry_delay (fk_config fk))) else None),
        fail_preserve_attempt = False\<rparr>)"

definition record_failure :: "fenced \<Rightarrow> world \<Rightarrow> job \<Rightarrow> fenced_failure \<Rightarrow> world_state \<Rightarrow> run_result \<times> world_state" where
  "record_failure fk w j f s =
     (case fenced_fail_job fk w j f s of
        (Inr failed, s1) \<Rightarrow> (Ran failed None, s1)
      | (Inl e, s1) \<Rightarrow>
          (if e = Lane (Repository StaleLeaseError) \<or> e = OperationalError then Ran j None else Run_Escaped e, s1))"

text \<open>Recovery and claim use one reading of the clock.\<close>

definition fenced_claim :: "fenced \<Rightarrow> world \<Rightarrow> datetime \<Rightarrow> (fenced_error, job option) action" where
  "fenced_claim fk w now s =
     (case s of (db, n) \<Rightarrow>
        if fk_busy fk n then (Inl OperationalError, (wd_others w n db, Suc n))
        else case claim_job (call_env w n) (fc_worker (fk_config fk)) now (shift now (fc_lease (fk_config fk))) (wd_others w n db) of
          None \<Rightarrow> (Inl (Lane Claim_Diverges), (wd_others w n db, Suc n))
        | Some (r, db') \<Rightarrow> (map_error (Lane \<circ> Repository) r, (db', Suc n)))"

definition fenced_recover :: "fenced \<Rightarrow> world \<Rightarrow> (fenced_error, datetime) action" where
  "fenced_recover fk w =
     fenced_call fk w (\<lambda>env clock db.
       case recover_expired_leases env (clock 0) db of (Inl e, db') \<Rightarrow> (Inl e, db') | (Inr _, db') \<Rightarrow> (Inr (clock 0), db'))"

definition run_once :: "fenced \<Rightarrow> world \<Rightarrow> world_state \<Rightarrow> run_result \<times> world_state" where
  "run_once fk w s =
     (case act_bind (fenced_recover fk w) (fenced_claim fk w) s of
        (Inl e, s1) \<Rightarrow> (if e = OperationalError then Nothing_Claimed else Run_Escaped e, s1)
      | (Inr None, s1) \<Rightarrow> (Nothing_Claimed, s1)
      | (Inr (Some leased), s1) \<Rightarrow>
          (case fenced_attempt fk w leased s1 of
             (Inr p, s2) \<Rightarrow> (Ran (res_job p) (Some p), s2)
           | (Inl (j, e), s2) \<Rightarrow>
               if e = LeaseAbandoned \<or> e = Lane (Repository StaleLeaseError) then (Ran j None, s2)
               else record_failure fk w j (failure_for e) s2))"

section \<open>The public worker\<close>

text \<open>
  \<^verbatim>\<open>CompactionWorkerConfig\<close>: one surface for both lanes. Durations are microseconds; the polling
  interval only paces the loop.
\<close>

record lane_config =
  lc_token_ceiling :: int
  lc_segmenter :: segmenter_config
  lc_strict_audit :: bool
  lc_max_attempts :: int
  lc_worker_id :: "string option"
  lc_lease_duration :: "int option"
  lc_retry_delay :: "int option"
  lc_heartbeat_interval :: "int option"
  lc_lease :: int
  lc_retry_base :: int
  lc_retry_max :: int
  lc_backfill_limit :: int

definition valid_lane_config :: "lane_config \<Rightarrow> bool" where
  "valid_lane_config c \<longleftrightarrow>
     lc_token_ceiling c \<ge> 0 \<and> lc_max_attempts c \<ge> 1 \<and>
     ((lc_worker_id c \<noteq> None \<or> lc_lease_duration c \<noteq> None \<or> lc_retry_delay c \<noteq> None) \<longrightarrow>
       lc_worker_id c \<noteq> None \<and> lc_lease_duration c \<noteq> None \<and> lc_retry_delay c \<noteq> None)"

definition lane_fenced :: "lane_config \<Rightarrow> repo_error + fenced_config" where
  "lane_fenced c =
     (case (lc_worker_id c, lc_lease_duration c, lc_retry_delay c) of
        (Some i, Some lease, Some delay) \<Rightarrow>
          let f = \<lparr>fc_worker = i, fc_lease = lease, fc_token_ceiling = lc_token_ceiling c, fc_segmenter = lc_segmenter c,
                 fc_strict_audit = lc_strict_audit c, fc_max_attempts = lc_max_attempts c, fc_retry_delay = delay,
                 fc_heartbeat = lc_heartbeat_interval c\<rparr>
          in bind (guard (valid_fenced_config f) ValueError) (\<lambda>_. Inr f)
      | _ \<Rightarrow> Inl TypeError)"

definition lane_runtime :: "lane_config \<Rightarrow> repo_error + worker_config" where
  "lane_runtime c =
     (let r = \<lparr>wc_token_ceiling = lc_token_ceiling c, wc_lease = lc_lease c, wc_retry_base = lc_retry_base c,
            wc_retry_max = lc_retry_max c, wc_max_attempts = lc_max_attempts c, wc_strict_audit = lc_strict_audit c,
            wc_backfill_limit = lc_backfill_limit c, wc_segmenter = lc_segmenter c\<rparr>
      in bind (guard (valid_worker_config r) ValueError) (\<lambda>_. Inr r))"

text \<open>The constructor: which lane the given arguments select, or the error they raise.\<close>

record lane_arguments =
  la_compiler_backend :: "compiler_backend option"
  la_counter :: "token_counter option"
  la_backend :: "compiler_backend option"
  la_profile :: "string option"
  la_worker_id :: "string option"

datatype lane = Fenced_Lane compiler_backend token_counter fenced_config | Runtime_Lane compiler_backend string string worker_config

definition choose_lane :: "lane_config \<Rightarrow> lane_arguments \<Rightarrow> repo_error + lane" where
  "choose_lane c a =
     (case la_compiler_backend a of
        Some b \<Rightarrow>
          bind (guard (la_backend a = None) TypeError) (\<lambda>_.
          bind (option_or (la_counter a) TypeError) (\<lambda>counter.
          bind (lane_fenced c) (\<lambda>f. Inr (Fenced_Lane b counter f))))
      | None \<Rightarrow>
          bind (option_or (la_backend a) TypeError) (\<lambda>b.
          bind (option_or (la_profile a) TypeError) (\<lambda>profile.
          bind (option_or (la_worker_id a) TypeError) (\<lambda>i.
          bind (lane_runtime c) (\<lambda>r. Inr (Runtime_Lane b profile i r))))))"

text \<open>\<^verbatim>\<open>run_iteration\<close> of the injected lane: whether a job was claimed.\<close>

definition dispatch_iteration :: "fenced \<Rightarrow> world \<Rightarrow> world_state \<Rightarrow> (fenced_error + bool) \<times> world_state" where
  "dispatch_iteration fk w s =
     (case run_once fk w s of
        (Run_Escaped e, s1) \<Rightarrow> (Inl e, s1) | (Nothing_Claimed, s1) \<Rightarrow> (Inr False, s1) | (Ran j p, s1) \<Rightarrow> (Inr True, s1))"

end
