(* ===== verification/Worker_Fenced_Laws.thy ===== *)
theory Worker_Fenced_Laws
  imports Worker_Fenced
begin

text \<open>
  The fenced lane in the logic of actions of Worker_Laws: a run is a sequence of repository
  transactions, and a failure is recorded with a fixed message and a stable code.
\<close>

section \<open>Actions of the lane\<close>

lemma runs_fenced_lift: "(\<And>e. r = Inl e \<Longrightarrow> E e) \<Longrightarrow> runs w P (fenced_lift r) (\<lambda>x db. r = Inr x \<and> P db) E"
  by (auto simp: runs_def fenced_lift_def split: sum.splits intro: reaches_refl)

lemma runs_holding:
  assumes "runs w P m Q (\<lambda>e. E (j, e))"
  shows "runs w P (holding j m) Q E"
  unfolding runs_def
proof (intro allI impI)
  fix db n r db' n' assume P: "P db" and run: "holding j m (db, n) = (r, (db', n'))"
  obtain r1 where r1: "m (db, n) = (r1, (db', n'))" "r = map_error (Pair j) r1"
    using run by (cases "m (db, n)") (simp add: holding_def)
  from runsD[OF assms P r1(1)] r1(2)
  show "reaches (wd_env w) db db' \<and> (case r of Inl e \<Rightarrow> E e | Inr x \<Rightarrow> Q x db')"
    by (cases r1) (auto simp: map_error_def)
qed

lemma runs_fenced_call:
  assumes fair: "fair_world w" and st: "stable w P" and E: "E OperationalError" "\<And>e. E (Lane (Repository e))"
    and op: "\<And>f clock db r db'. P db \<Longrightarrow> op ((wd_env w)\<lparr>env_fault := f\<rparr>) clock db = (r, db') \<Longrightarrow>
      reaches (wd_env w) db db' \<and> (\<forall>x. r = Inr x \<longrightarrow> Q x db')"
  shows "runs w P (fenced_call fk w op) Q E"
proof -
  have call: "runs w P (act_call w op) Q (\<lambda>e. \<exists>x. e = Repository x)"
    by (rule runs_call[OF fair st]) (use op in \<open>auto split: sum.splits\<close>)
  show ?thesis unfolding runs_def
  proof (intro allI impI)
    fix db n r db' n' assume P: "P db" and run: "fenced_call fk w op (db, n) = (r, (db', n'))"
    have o: "reaches (wd_env w) db (wd_others w n db)" using fair by (simp add: fair_world_def)
    show "reaches (wd_env w) db db' \<and> (case r of Inl e \<Rightarrow> E e | Inr x \<Rightarrow> Q x db')"
    proof (cases "\<not> is_aware_datetime (wd_clock w n 0) \<or> fk_busy fk n")
      case True
      with run o E show ?thesis by (auto simp: fenced_call_def split: if_splits)
    next
      case False
      then obtain r1 where r1: "act_call w op (db, n) = (r1, (db', n'))" "r = map_error Lane r1"
        using run by (cases "act_call w op (db, n)") (simp add: fenced_call_def)
      from runsD[OF call P r1(1)] r1(2) E(2)
      show ?thesis by (cases r1) (auto simp: map_error_def)
    qed
  qed
qed

lemma runs_await:
  "runs w P (await_with_heartbeat fk j r) (\<lambda>x db. r = Inr x \<and> P db) (\<lambda>_. True)"
  by (auto simp: runs_def await_with_heartbeat_def map_error_def split: if_splits heartbeat.splits sum.splits
      intro: reaches_refl)

section \<open>The attempt\<close>

abbreviation any_error :: "'e \<Rightarrow> bool" where
  "any_error \<equiv> \<lambda>_. True"

lemma runs_fenced_step:
  assumes fair: "fair_world w"
    and op: "\<And>f clock db r db'. op ((wd_env w)\<lparr>env_fault := f\<rparr>) clock db = (r, db') \<Longrightarrow> db' = db \<or> step (wd_env w) db db'"
  shows "runs w (intact w) (fenced_call fk w op) (\<lambda>_. intact w) any_error"
proof (rule runs_fenced_call[OF fair stable_db_ok])
  fix f clock db r db'
  assume ok: "intact w db" and run: "op ((wd_env w)\<lparr>env_fault := f\<rparr>) clock db = (r, db')"
  from op[OF run] have "reaches (wd_env w) db db'" by (auto intro: reaches_refl step_reaches)
  with reaches_keeps ok show "reaches (wd_env w) db db' \<and> (\<forall>x. r = Inr x \<longrightarrow> intact w db')" by blast
qed auto

lemma runs_fenced_transition:
  assumes "fair_world w"
  shows "runs w (intact w) (fenced_transition fk w j st c) (\<lambda>_. intact w) any_error"
  unfolding fenced_transition_def by (rule runs_fenced_step[OF assms]) (auto intro: step_transition)

lemma runs_fenced_renew:
  assumes "fair_world w"
  shows "runs w (intact w) (fenced_renew fk w j) (\<lambda>_. intact w) any_error"
  unfolding fenced_renew_def
  by (rule runs_fenced_step[OF assms]) (auto split: sum.splits prod.splits intro: step_renew)

lemma runs_then:
  assumes "runs w P m (\<lambda>_. Q) E" "\<And>x. runs w Q (f x) R E"
  shows "runs w P (act_bind m f) R E"
  using runs_bind[OF assms] .

lemma runs_holding_any: "runs w P m Q any_error \<Longrightarrow> runs w P (holding j m) Q any_error"
  by (rule runs_holding) simp

definition typed_memberships :: "membership list \<Rightarrow> bool" where
  "typed_memberships ms \<longleftrightarrow> (\<forall>m \<in> set ms. valid_capsule (mem_capsule m))"

lemma runs_fenced_compile:
  assumes fair: "fair_world w" and typed: "typed_backend (fk_backend fk)"
  shows "runs w (intact w) (fenced_compile fk w j)
    (\<lambda>(j', cand) db. intact w db \<and> typed_memberships (cc_memberships cand)) any_error"
proof -
  have await: "runs w (intact w) (await_with_heartbeat fk j2 (map_error Pipeline
      (compile_candidate (wd_env w) (fk_loads fk) (fk_dump fk) (fk_backend fk) (fk_counter fk) ci)))
      (\<lambda>cand db. intact w db \<and> typed_memberships (cc_memberships cand)) any_error" for j2 ci
    by (rule runs_weaken[OF runs_await[where P = "intact w"]])
       (auto simp: map_error_eq_Inr typed_memberships_def dest: compiled_capsules(1)[OF _ typed])
  have ret: "runs w (\<lambda>db. intact w db \<and> typed_memberships (cc_memberships cand)) (fenced_lift (Inr (j2, cand)))
      (\<lambda>(j', cand) db. intact w db \<and> typed_memberships (cc_memberships cand)) any_error" for j2 cand
    by (rule runs_weaken[OF runs_fenced_lift]) auto
  have read: "runs w (intact w) (fenced_call fk w (\<lambda>env clock db.
       (read_compaction_view env db (job_id j1) (fc_worker (fk_config fk)) (job_lease_epoch j1) (clock 0), db)))
      (\<lambda>_. intact w) any_error" for j1
    by (rule runs_fenced_step[OF fair]) simp
  note rest = runs_bind[OF runs_holding_any[OF await] ret]
  show ?thesis unfolding fenced_compile_def
    by (rule runs_then[OF runs_holding_any[OF runs_fenced_transition[OF fair]] runs_then[OF runs_holding_any[OF read]
          runs_then[OF runs_holding_any[OF runs_fenced_renew[OF fair]]]]])
       (auto intro: rest split: prod.splits)
qed

lemma runs_fenced_audit:
  assumes fair: "fair_world w"
  shows "runs w (\<lambda>db. intact w db \<and> typed_memberships (cc_memberships cand)) (fenced_audit fk w j cand)
    (\<lambda>(j', s, ms) db. intact w db \<and> typed_memberships ms) any_error"
proof (cases "typed_memberships (cc_memberships cand)")
  case typed: True
  have await: "runs w (intact w) (await_with_heartbeat fk j2 (map_error Pipeline (audit_semantic cand True (fk_auditor fk))))
      (\<lambda>aud db. intact w db \<and> typed_memberships (ac_memberships aud)) any_error" for j2
    by (rule runs_weaken[OF runs_await[where P = "intact w"]])
       (auto simp: map_error_eq_Inr audit_semantic_eq_Inr(1) typed)
  have ret: "runs w (\<lambda>db. intact w db \<and> typed_memberships ms) (fenced_lift (Inr (j2, s, ms)))
      (\<lambda>(j', s, ms) db. intact w db \<and> typed_memberships ms) any_error" for j2 s ms
    by (rule runs_weaken[OF runs_fenced_lift]) auto
  have "runs w (intact w) (act_bind (holding j (fenced_transition fk w j AUDITING None)) (\<lambda>j1.
        act_bind (holding j1 (fenced_renew fk w j1)) (\<lambda>(j2, now).
        act_bind (holding j2 (await_with_heartbeat fk j2
          (map_error Pipeline (audit_semantic cand True (fk_auditor fk))))) (\<lambda>audited.
        fenced_lift (Inr (j2, ac_snapshot audited, ac_memberships audited))))))
      (\<lambda>(j', s, ms) db. intact w db \<and> typed_memberships ms) any_error"
    by (rule runs_then[OF runs_holding_any[OF runs_fenced_transition[OF fair]]
          runs_then[OF runs_holding_any[OF runs_fenced_renew[OF fair]]]])
       (auto intro: runs_bind[OF runs_holding_any[OF await] ret] split: prod.splits)
  note body = this
  have strict: "runs w (\<lambda>db. intact w db \<and> typed_memberships (cc_memberships cand)) (fenced_audit fk w j cand)
      (\<lambda>(j', s, ms) db. intact w db \<and> typed_memberships ms) any_error" if "fc_strict_audit (fk_config fk)"
    unfolding fenced_audit_def using that
    by (simp only: not_True_eq_False if_False simp_thms) (rule runs_weaken[OF body], auto)
  show ?thesis
  proof (cases "fc_strict_audit (fk_config fk)")
    case False
    then show ?thesis unfolding fenced_audit_def by (simp add: ret)
  qed (rule strict)
qed (simp add: runs_def)

lemma runs_fenced_publish:
  assumes fair: "fair_world w"
  shows "runs w (\<lambda>db. intact w db \<and> typed_memberships ms) (fenced_publish fk w j s ms) (\<lambda>_. intact w) any_error"
proof (cases "typed_memberships ms")
  case typed: True
  have publish: "runs w (intact w) (fenced_call fk w (\<lambda>env clock.
       publish_snapshot env (job_id j1) (fc_worker (fk_config fk)) (job_lease_epoch j1) (clock 0)
         \<lparr>pub_snapshot = s, pub_memberships = ms, pub_metrics = Some metrics, pub_records = [],
          pub_token_ceiling = fc_token_ceiling (fk_config fk)\<rparr>)) (\<lambda>_. intact w) any_error" for j1 metrics
    by (rule runs_fenced_step[OF fair])
       (use typed in \<open>auto simp: valid_publication_def typed_memberships_def intro: step_publish\<close>)
  have metrics: "runs w (intact w) (fenced_lift (map_error Lane (candidate_compatibility_metrics fk s ms))) (\<lambda>_. intact w) any_error"
    by (rule runs_weaken[OF runs_fenced_lift[where P = "intact w"]]) auto
  have "runs w (intact w) (fenced_publish fk w j s ms) (\<lambda>_. intact w) any_error"
    unfolding fenced_publish_def
    by (rule runs_then[OF runs_holding_any[OF runs_fenced_transition[OF fair]] runs_then[OF runs_holding_any[OF metrics]
          runs_holding_any[OF publish]]])
  then show ?thesis by (rule runs_weaken) auto
qed (simp add: runs_def)

lemma runs_fenced_attempt:
  assumes fair: "fair_world w" and typed: "typed_backend (fk_backend fk)"
  shows "runs w (intact w) (fenced_attempt fk w j) (\<lambda>_. intact w) any_error"
  unfolding fenced_attempt_def
  by (rule runs_bind[OF runs_fenced_compile[OF fair typed]])
     (auto intro!: runs_bind[OF runs_fenced_audit[OF fair]] runs_fenced_publish[OF fair] split: prod.splits)

section \<open>Runs\<close>

lemma runs_fenced_recover:
  assumes "fair_world w"
  shows "runs w (intact w) (fenced_recover fk w) (\<lambda>_. intact w) (\<lambda>e. e \<noteq> Lane Claim_Diverges)"
  unfolding fenced_recover_def
proof (rule runs_fenced_call[OF assms stable_db_ok])
  fix f clock db r db'
  assume ok: "intact w db" and run: "(case recover_expired_leases ((wd_env w)\<lparr>env_fault := f\<rparr>) (clock 0) db of
      (Inl e, db') \<Rightarrow> (Inl e, db') | (Inr _, db') \<Rightarrow> (Inr (clock 0), db')) = (r, db')"
  then obtain q where "recover_expired_leases ((wd_env w)\<lparr>env_fault := f\<rparr>) (clock 0) db = (q, db')"
    by (auto split: prod.splits sum.splits)
  note st = step_recover[OF this]
  from step_keeps[OF st ok] step_reaches[OF st]
  show "reaches (wd_env w) db db' \<and> (\<forall>x. r = Inr x \<longrightarrow> intact w db')" by simp
qed auto

lemma runs_fenced_claim:
  assumes fair: "fair_world w"
  shows "runs w (intact w) (fenced_claim fk w now) (\<lambda>_. intact w) (\<lambda>e. e \<noteq> Lane Claim_Diverges)"
  unfolding runs_def
proof (intro allI impI)
  fix db n r db' n' assume ok: "intact w db" and run: "fenced_claim fk w now (db, n) = (r, (db', n'))"
  let ?db = "wd_others w n db" and ?env = "call_env w n"
  have o: "reaches (wd_env w) db ?db" using fair by (simp add: fair_world_def)
  with reaches_keeps ok have ok': "db_ok ?env ?db" by (auto simp: call_env_def)
  then obtain q d where c: "claim_job ?env (fc_worker (fk_config fk)) now (shift now (fc_lease (fk_config fk))) ?db = Some (q, d)"
    using claim.returns by fastforce
  from step_reaches[OF step_claim[OF c[unfolded call_env_def]]] o have "reaches (wd_env w) db d" by (blast intro: reaches_trans)
  with run c o have "reaches (wd_env w) db db'" and "r \<noteq> Inl (Lane Claim_Diverges)"
    by (auto simp: fenced_claim_def map_error_def split: sum.splits if_splits)
  with reaches_keeps ok show "reaches (wd_env w) db db' \<and> (case r of Inl e \<Rightarrow> e \<noteq> Lane Claim_Diverges | Inr x \<Rightarrow> intact w db')"
    by (auto split: sum.splits)
qed

lemma record_failure_reaches:
  assumes fair: "fair_world w" and ok: "intact w db" and run: "record_failure fk w j f (db, n) = (res, s')"
  shows "reaches (wd_env w) db (fst s')" "res \<noteq> Run_Escaped (Lane Claim_Diverges)"
proof -
  have "runs w (intact w) (fenced_fail_job fk w j f) (\<lambda>_. intact w) (\<lambda>e. e \<noteq> Lane Claim_Diverges)"
    unfolding fenced_fail_job_def
  proof (rule runs_fenced_call[OF fair stable_db_ok])
    fix g clock db r db'
    assume ok: "intact w db" and "fail_job ((wd_env w)\<lparr>env_fault := g\<rparr>) (job_id j) (fc_worker (fk_config fk)) (job_lease_epoch j) (clock 0)
       \<lparr>fail_stage = ff_stage f, fail_code = ff_code f, fail_message = ''redacted'',
        fail_retry_at = (if ff_retryable f \<and> job_attempt_count j < fc_max_attempts (fk_config fk)
          then Some (shift (clock 0) (fc_retry_delay (fk_config fk))) else None),
        fail_preserve_attempt = False\<rparr> db = (r, db')"
    note st = step_fail[OF this(2)]
    from step_keeps[OF st ok] step_reaches[OF st]
    show "reaches (wd_env w) db db' \<and> (\<forall>x. r = Inr x \<longrightarrow> intact w db')" by simp
  qed auto
  note runs = this
  obtain r s1 where r: "fenced_fail_job fk w j f (db, n) = (r, s1)" by (cases "fenced_fail_job fk w j f (db, n)")
  from runsD[OF runs ok r] run r
  show "reaches (wd_env w) db (fst s')" "res \<noteq> Run_Escaped (Lane Claim_Diverges)"
    by (auto simp: record_failure_def split: sum.splits if_splits)
qed


section \<open>Publications of the lane\<close>

text \<open>The steps of an attempt that came to its end.\<close>

lemma act_bind_eq_Inr: "act_bind m f s = (Inr y, s') \<longleftrightarrow> (\<exists>x s1. m s = (Inr x, s1) \<and> f x s1 = (Inr y, s'))"
  by (auto simp: act_bind_def split: prod.splits sum.splits)

lemma holding_eq_Inr: "holding j m s = (Inr x, s') \<longleftrightarrow> m s = (Inr x, s')"
  by (auto simp: holding_def map_error_def split: prod.splits sum.splits)

lemma fenced_lift_eq_Inr: "fenced_lift r s = (Inr x, s') \<longleftrightarrow> r = Inr x \<and> s' = s"
  by (auto simp: fenced_lift_def)

lemma await_eq_Inr:
  "await_with_heartbeat fk j r s = (Inr x, s') \<longleftrightarrow>
     job_lease_expires_at j \<noteq> None \<and> fk_beat fk (snd s) = Beat_Healthy \<and> r = Inr x \<and> s' = s"
  by (auto simp: await_with_heartbeat_def map_error_def split: if_splits heartbeat.splits sum.splits)

lemma fenced_call_eq_Inr:
  assumes "fenced_call fk w op (db, n) = (Inr x, s')"
  obtains db' where "s' = (db', Suc n)" "op (call_env w n) (wd_clock w n) (wd_others w n db) = (Inr x, db')"
  using assms by (auto simp: fenced_call_def act_call_def map_error_def split: if_splits prod.splits sum.splits)

lemma others_intact: "fair_world w \<Longrightarrow> intact w db \<Longrightarrow> intact w (wd_others w n db)"
  using reaches_keeps unfolding fair_world_def by blast

lemmas lane_success = act_bind_eq_Inr holding_eq_Inr fenced_lift_eq_Inr await_eq_Inr

text \<open>A step on the job of a lease keeps the job and the epoch.\<close>

definition same_lease :: "job \<Rightarrow> job \<Rightarrow> bool" where
  "same_lease j j' \<longleftrightarrow> job_id j' = job_id j \<and> job_lease_epoch j' = job_lease_epoch j"

lemma same_lease_trans: "same_lease a b \<Longrightarrow> same_lease b c \<Longrightarrow> same_lease a c"
  by (simp add: same_lease_def)

lemma fenced_transition_lease:
  assumes fair: "fair_world w" and ok: "intact w db" and run: "fenced_transition fk w j st c (db, n) = (Inr j', s')"
  obtains db' where "s' = (db', Suc n)" "same_lease j j'" "intact w db'" "reaches (wd_env w) db db'"
proof -
  from run[unfolded fenced_transition_def] obtain db' where s': "s' = (db', Suc n)"
    and tr: "transition_job (call_env w n) (job_id j) (fc_worker (fk_config fk)) (job_lease_epoch j) st (wd_clock w n 0) c
      (wd_others w n db) = (Inr j', db')" by (rule fenced_call_eq_Inr)
  have "db_ok (call_env w n) (wd_others w n db)" using others_intact[OF fair ok] by (simp add: call_env_def)
  with tr obtain r k where r: "find_job db' (job_id j) = Some r" "j' = job_envelope k r" "jr_epoch r = job_lease_epoch j"
    by (rule transition_job_eq_Inr)
  have "same_lease j j'" using r find_jobD[OF r(1)] by (simp add: same_lease_def job_envelope_fields)
  with that s' runsD(1,2)[OF runs_fenced_transition[OF fair] ok run] show thesis by auto
qed

lemma fenced_renew_lease:
  assumes fair: "fair_world w" and ok: "intact w db" and run: "fenced_renew fk w j (db, n) = (Inr (j', now), s')"
  obtains db' where "s' = (db', Suc n)" "same_lease j j'" "intact w db'" "reaches (wd_env w) db db'"
proof -
  from run[unfolded fenced_renew_def] obtain db' where s': "s' = (db', Suc n)"
    and op: "(case renewed_lease (fk_config fk) j (wd_clock w n 0) of
         Inl e \<Rightarrow> (Inl e, wd_others w n db)
       | Inr lease \<Rightarrow>
           (case renew_job_lease (call_env w n) (job_id j) (fc_worker (fk_config fk)) (job_lease_epoch j) (wd_clock w n 0) lease
               (wd_others w n db) of
              (Inl e, db') \<Rightarrow> (Inl e, db') | (Inr j', db') \<Rightarrow> (Inr (j', wd_clock w n 0), db'))) = (Inr (j', now), db')"
    by (rule fenced_call_eq_Inr)
  then obtain lease where renew: "renew_job_lease (call_env w n) (job_id j) (fc_worker (fk_config fk)) (job_lease_epoch j)
      (wd_clock w n 0) lease (wd_others w n db) = (Inr j', db')" by (auto split: sum.splits prod.splits)
  then obtain row t where row: "find_job (wd_others w n db) (job_id j) = Some row"
      "fence_live row (fc_worker (fk_config fk)) (job_lease_epoch j) t"
    and up: "\<exists>f. (\<forall>r. jr_id (f r) = jr_id r \<and> jr_epoch (f r) = jr_epoch r) \<and>
      update_jobs (fence_where (job_id j) (fc_worker (fk_config fk)) (job_lease_epoch j) t) f (wd_others w n db) = Inr db'"
    and j': "job_by_id (call_env w n) db' (job_id j) = Inr j'"
    by (fastforce simp: renew_job_lease_def transaction_eq_Inr renew_job_lease_body_def fenced_update_eq_Inr result_simps)
  from j' obtain r k where r: "find_job db' (job_id j) = Some r" "j' = job_envelope k r" by (rule job_by_id_eq_Inr)
  from up row r(1) have "jr_epoch r = job_lease_epoch j" by (auto simp: find_job_update fence_live_def)
  then have "same_lease j j'" using r find_jobD[OF r(1)] by (simp add: same_lease_def job_envelope_fields)
  with that s' runsD(1,2)[OF runs_fenced_renew[OF fair] ok run] show thesis by auto
qed

lemma fenced_compile_eq_Inr:
  assumes fair: "fair_world w" and ok: "intact w db" and run: "fenced_compile fk w j (db, n) = (Inr (j', cand), s')"
  obtains db0 t v now db' where "s' = (db', n + 3)" "same_lease j j'" "fk_beat fk (n + 3) = Beat_Healthy"
    "read_compaction_view (wd_env w) db0 (job_id j) (fc_worker (fk_config fk)) (job_lease_epoch j) t = Inr v"
    "compile_candidate (wd_env w) (fk_loads fk) (fk_dump fk) (fk_backend fk) (fk_counter fk) (fenced_input fk v now) = Inr cand"
    "reaches (wd_env w) db0 db'" "intact w db'"
proof -
  from run obtain j1 s1 v s2 now s3 where
    tr: "fenced_transition fk w j COMPILING None (db, n) = (Inr j1, s1)"
    and view: "fenced_call fk w (\<lambda>env clock db.
       (read_compaction_view env db (job_id j1) (fc_worker (fk_config fk)) (job_lease_epoch j1) (clock 0), db)) s1 = (Inr v, s2)"
    and renew: "fenced_renew fk w j1 s2 = (Inr (j', now), s3)" and beat: "fk_beat fk (snd s3) = Beat_Healthy"
    and comp: "map_error Pipeline (compile_candidate (wd_env w) (fk_loads fk) (fk_dump fk) (fk_backend fk) (fk_counter fk)
      (fenced_input fk v now)) = Inr cand" and s': "s' = s3"
    by (auto simp: fenced_compile_def lane_success)
  from fair ok tr obtain db1 where s1: "s1 = (db1, Suc n)" "same_lease j j1" "intact w db1"
    by (rule fenced_transition_lease)
  from view[unfolded s1(1)] obtain db2 where s2: "s2 = (db2, Suc (Suc n))"
    and rv: "(read_compaction_view (call_env w (Suc n)) (wd_others w (Suc n) db1) (job_id j1) (fc_worker (fk_config fk))
      (job_lease_epoch j1) (wd_clock w (Suc n) 0), wd_others w (Suc n) db1) = (Inr v, db2)" by (rule fenced_call_eq_Inr)
  have db2: "db2 = wd_others w (Suc n) db1" using rv by simp
  have ok2: "intact w db2" unfolding db2 by (rule others_intact[OF fair s1(3)])
  from fair ok2 renew[unfolded s2] obtain db3 where s3: "s3 = (db3, Suc (Suc (Suc n)))" "same_lease j1 j'" "intact w db3"
    "reaches (wd_env w) db2 db3" by (rule fenced_renew_lease)
  have "read_compaction_view (wd_env w) db2 (job_id j) (fc_worker (fk_config fk)) (job_lease_epoch j) (wd_clock w (Suc n) 0) = Inr v"
    using rv s1(2) by (auto simp: call_env_def same_lease_def)
  moreover have "compile_candidate (wd_env w) (fk_loads fk) (fk_dump fk) (fk_backend fk) (fk_counter fk) (fenced_input fk v now) = Inr cand"
    using comp by (simp add: map_error_eq_Inr)
  moreover have "s' = (db3, n + 3)" "fk_beat fk (n + 3) = Beat_Healthy" using s' s3(1) beat by (simp_all add: numeral_3_eq_3)
  ultimately show thesis using that same_lease_trans[OF s1(2) s3(2)] s3(3,4) by blast
qed

text \<open>The snapshot and the capsules the lane publishes for a candidate, and the number of repository calls.\<close>

definition lane_audited :: "fenced \<Rightarrow> compilation_candidate \<Rightarrow> snapshot \<Rightarrow> membership list \<Rightarrow> bool" where
  "lane_audited fk cand s ms \<longleftrightarrow>
     (if fc_strict_audit (fk_config fk)
      then \<exists>aud. audit_semantic cand True (fk_auditor fk) = Inr aud \<and> s = ac_snapshot aud \<and> ms = ac_memberships aud
      else s = cc_snapshot cand \<and> ms = cc_memberships cand)"

lemma fenced_audit_eq_Inr:
  assumes fair: "fair_world w" and ok: "intact w db" and run: "fenced_audit fk w j cand (db, n) = (Inr (j', s, ms), s')"
  obtains db' n' where "s' = (db', n')" "same_lease j j'" "lane_audited fk cand s ms"
    "fc_strict_audit (fk_config fk) \<longrightarrow> fk_beat fk (n + 2) = Beat_Healthy" "reaches (wd_env w) db db'" "intact w db'"
proof (cases "fc_strict_audit (fk_config fk)")
  case False
  with run ok show thesis
    by (intro that[of db n]) (auto simp: fenced_audit_def fenced_lift_eq_Inr lane_audited_def same_lease_def intro: reaches_refl)
next
  case True
  with run obtain j1 s1 now s2 aud where
    tr: "fenced_transition fk w j AUDITING None (db, n) = (Inr j1, s1)"
    and renew: "fenced_renew fk w j1 s1 = (Inr (j', now), s2)" and beat: "fk_beat fk (snd s2) = Beat_Healthy"
    and aud: "audit_semantic cand True (fk_auditor fk) = Inr aud" "s = ac_snapshot aud" "ms = ac_memberships aud" and s': "s' = s2"
    by (auto simp: fenced_audit_def lane_success map_error_eq_Inr)
  from fair ok tr obtain db1 where s1: "s1 = (db1, Suc n)" "same_lease j j1" "intact w db1" "reaches (wd_env w) db db1"
    by (rule fenced_transition_lease)
  from fair s1(3) renew[unfolded s1(1)] obtain db2 where s2: "s2 = (db2, Suc (Suc n))" "same_lease j1 j'" "intact w db2"
    "reaches (wd_env w) db1 db2" by (rule fenced_renew_lease)
  show thesis
    by (rule that[of db2 "Suc (Suc n)"])
       (use s' s1 s2 True aud beat in \<open>auto simp: lane_audited_def intro: same_lease_trans reaches_trans\<close>)
qed

lemma fenced_publish_eq_Inr:
  assumes fair: "fair_world w" and ok: "intact w db" and typed: "typed_memberships ms"
    and run: "fenced_publish fk w j s ms (db, n) = (Inr res, s')"
  obtains db1 where "reaches (wd_env w) db db1" "publication_settled (wd_env w) (job_id j) s ms res db1 (fst s')"
proof -
  from run obtain j1 s1 metrics where tr: "fenced_transition fk w j READY_TO_COMMIT (Some (snap_id s)) (db, n) = (Inr j1, s1)"
    and pub: "fenced_call fk w (\<lambda>env clock.
       publish_snapshot env (job_id j1) (fc_worker (fk_config fk)) (job_lease_epoch j1) (clock 0)
         \<lparr>pub_snapshot = s, pub_memberships = ms, pub_metrics = Some metrics, pub_records = [],
          pub_token_ceiling = fc_token_ceiling (fk_config fk)\<rparr>) s1 = (Inr res, s')"
    by (auto simp: fenced_publish_def lane_success)
  from fair ok tr obtain db1 where s1: "s1 = (db1, Suc n)" "same_lease j j1" "intact w db1" "reaches (wd_env w) db db1"
    by (rule fenced_transition_lease)
  let ?db = "wd_others w (Suc n) db1"
  have o: "reaches (wd_env w) db1 ?db" using fair by (simp add: fair_world_def)
  have ok1: "intact w ?db" by (rule others_intact[OF fair s1(3)])
  from pub[unfolded s1(1)] obtain db' where s': "s' = (db', Suc (Suc n))"
    and run: "publish_snapshot (call_env w (Suc n)) (job_id j1) (fc_worker (fk_config fk)) (job_lease_epoch j1) (wd_clock w (Suc n) 0)
         \<lparr>pub_snapshot = s, pub_memberships = ms, pub_metrics = Some metrics, pub_records = [],
          pub_token_ceiling = fc_token_ceiling (fk_config fk)\<rparr> ?db = (Inr res, db')" by (rule fenced_call_eq_Inr)
  have "publication_settled (wd_env w) (job_id j1) s ms res ?db db'"
    using publish_settles[OF ok1 _ run[unfolded call_env_def]] typed by (simp add: valid_publication_def typed_memberships_def)
  with that[OF reaches_trans[OF s1(4) o]] s1(2) s' show thesis by (simp add: same_lease_def)
qed

text \<open>
  C33. The injected lane publishes only under a live heartbeat and only what it compiled. When a
  run returns a publication, under every interleaving of other transactions, every fault, every
  locked call and every backend whose output is made of valid capsules, the heartbeat was
  healthy when the compilation ended and, under a strict audit, when the audit ended; the
  published snapshot and capsules are those of the candidate compiled from the view frozen by
  the lease of the claimed job, as the audit returned them where it is strict. Then either they
  are what the session reads from now on and the job is committed, or the job is superseded and
  the publication changed no other table.
\<close>

theorem lane_publishes_under_lease:
  assumes fair: "fair_world w" and typed: "typed_backend (fk_backend fk)" and ok: "db_ok (wd_env w) db"
    and run: "run_once fk w (db, n) = (Ran j (Some res), (db', n'))"
  shows "\<exists>(leased :: job) db0 t v now cand s ms db1.
    fk_beat fk (n + 5) = Beat_Healthy \<and>
    (fc_strict_audit (fk_config fk) \<longrightarrow> fk_beat fk (n + 7) = Beat_Healthy) \<and>
    read_compaction_view (wd_env w) db0 (job_id leased) (fc_worker (fk_config fk)) (job_lease_epoch leased) t = Inr v \<and>
    compile_candidate (wd_env w) (fk_loads fk) (fk_dump fk) (fk_backend fk) (fk_counter fk) (fenced_input fk v now) = Inr cand \<and>
    lane_audited fk cand s ms \<and> reaches (wd_env w) db0 db1 \<and>
    publication_settled (wd_env w) (job_id leased) s ms res db1 db'"
proof -
  note claim = runs_bind[OF runs_fenced_recover[OF fair] runs_fenced_claim[OF fair]]
  obtain c s1 where c: "act_bind (fenced_recover fk w) (fenced_claim fk w) (db, n) = (c, s1)" by (metis surj_pair)
  from run c obtain leased where leased: "c = Inr (Some leased)"
    by (auto simp: run_once_def split: sum.splits option.splits if_splits)
  from c[unfolded leased act_bind_eq_Inr] obtain t0 s0 where rec: "fenced_recover fk w (db, n) = (Inr t0, s0)"
    and cl: "fenced_claim fk w t0 s0 = (Inr (Some leased), s1)" by blast
  from rec[unfolded fenced_recover_def] obtain dbr where s0: "s0 = (dbr, Suc n)" by (rule fenced_call_eq_Inr)
  from cl obtain dbc where s1: "s1 = (dbc, n + 2)" unfolding s0
    by (auto simp: fenced_claim_def split: if_splits option.splits prod.splits)
  have ok1: "intact w dbc" using runsD(2)[OF claim ok c leased] s1 by simp
  have att: "fenced_attempt fk w leased (dbc, n + 2) = (Inr res, (db', n'))"
    using run c leased s1 by (auto simp: run_once_def record_failure_def split: sum.splits prod.splits if_splits)
  then obtain j1 cand sc j2 s ms sa where
    comp: "fenced_compile fk w leased (dbc, n + 2) = (Inr (j1, cand), sc)"
    and aud: "fenced_audit fk w j1 cand sc = (Inr (j2, s, ms), sa)" and pub: "fenced_publish fk w j2 s ms sa = (Inr res, (db', n'))"
    by (auto simp: fenced_attempt_def act_bind_eq_Inr)
  from fair ok1 comp obtain db0 t v now dbk where k: "sc = (dbk, n + 2 + 3)" "same_lease leased j1" "fk_beat fk (n + 2 + 3) = Beat_Healthy"
    "read_compaction_view (wd_env w) db0 (job_id leased) (fc_worker (fk_config fk)) (job_lease_epoch leased) t = Inr v"
    "compile_candidate (wd_env w) (fk_loads fk) (fk_dump fk) (fk_backend fk) (fk_counter fk) (fenced_input fk v now) = Inr cand"
    "reaches (wd_env w) db0 dbk" "intact w dbk" by (rule fenced_compile_eq_Inr)
  from fair k(7) aud[unfolded k(1)] obtain dba na where a: "sa = (dba, na)" "same_lease j1 j2" "lane_audited fk cand s ms"
    "fc_strict_audit (fk_config fk) \<longrightarrow> fk_beat fk (n + 2 + 3 + 2) = Beat_Healthy" "reaches (wd_env w) dbk dba" "intact w dba"
    by (rule fenced_audit_eq_Inr)
  have "typed_memberships (cc_memberships cand)"
    using compiled_capsules(1)[OF k(5) typed] by (simp add: typed_memberships_def)
  with a(3) have ms: "typed_memberships ms" by (auto simp: lane_audited_def audit_semantic_eq_Inr(1) split: if_splits)
  from fair a(6) ms pub[unfolded a(1)] obtain db1 where p: "reaches (wd_env w) dba db1"
    "publication_settled (wd_env w) (job_id j2) s ms res db1 (fst (db', n'))" by (rule fenced_publish_eq_Inr)
  have "reaches (wd_env w) db0 db1" using k(6) a(5) p(1) by (blast intro: reaches_trans)
  moreover have "publication_settled (wd_env w) (job_id leased) s ms res db1 db'"
    using p(2) k(2) a(2) by (simp add: same_lease_def)
  moreover have "fk_beat fk (n + 5) = Beat_Healthy" "fc_strict_audit (fk_config fk) \<longrightarrow> fk_beat fk (n + 7) = Beat_Healthy"
    using k(3) a(4) by (simp_all add: numeral_eq_Suc)
  ultimately show ?thesis using k(4,5) a(3) by blast
qed

section \<open>Recorded failures\<close>

definition failure_stages :: "string list" where
  "failure_stages = [''REPOSITORY'', ''COMPILING'', ''AUDITING'', ''PUBLISHING'', ''WORKER'']"

definition failure_codes :: "string list" where
  "failure_codes = [''SQLITE_OPERATIONAL_ERROR'', ''PUBLICATION_REJECTED'', ''REPOSITORY_INVARIANT'', ''REPOSITORY_FAILURE'',
     ''WORKER_UNEXPECTED_FAILURE'']"

lemma failure_texts:
  "''REPOSITORY'' \<in> set failure_stages" "''COMPILING'' \<in> set failure_stages" "''AUDITING'' \<in> set failure_stages"
  "''PUBLISHING'' \<in> set failure_stages" "''WORKER'' \<in> set failure_stages"
  "''SQLITE_OPERATIONAL_ERROR'' \<in> set failure_codes" "''PUBLICATION_REJECTED'' \<in> set failure_codes"
  "''REPOSITORY_INVARIANT'' \<in> set failure_codes" "''REPOSITORY_FAILURE'' \<in> set failure_codes"
  "''WORKER_UNEXPECTED_FAILURE'' \<in> set failure_codes"
  unfolding failure_stages_def failure_codes_def list.set by (rule insertI1 insertI2)+

definition closed_failure :: "fenced_failure \<Rightarrow> bool" where
  "closed_failure f \<longleftrightarrow> ff_stage f \<in> set failure_stages \<and>
     (ff_code f \<in> set failure_codes \<or> (\<exists>c. ff_code f = compiler_code_value c) \<or> (\<exists>c. ff_code f = audit_code_value c))"

lemma closed_failureI:
  "s \<in> set failure_stages \<Longrightarrow> c \<in> set failure_codes \<Longrightarrow> closed_failure \<lparr>ff_stage = s, ff_code = c, ff_retryable = b\<rparr>"
  "s \<in> set failure_stages \<Longrightarrow> closed_failure \<lparr>ff_stage = s, ff_code = compiler_code_value k, ff_retryable = b\<rparr>"
  "s \<in> set failure_stages \<Longrightarrow> closed_failure \<lparr>ff_stage = s, ff_code = audit_code_value k', ff_retryable = b\<rparr>"
  by (auto simp: closed_failure_def)

lemma failure_for_closed: "closed_failure (failure_for e)"
  unfolding failure_for_def
  by (auto intro!: closed_failureI failure_texts split: fenced_error.split worker_error.split pipeline_error.split repo_error.split)

text \<open>A text that starts with a visible character is not blank.\<close>

lemma starts_visible:
  assumes "\<not> py_isspace x" "(of_char x :: nat) \<noteq> 0" "(of_char x :: nat) \<noteq> 32"
  shows "py_strip (x # xs) \<noteq> [] \<and> sql_nonblank (x # xs)"
proof -
  have "strip_by (\<lambda>c. (of_char c :: nat) = 32) (x # xs) = x # rev (dropWhile (\<lambda>c. (of_char c :: nat) = 32) (rev xs))"
    using assms(3) by (simp add: strip_by_def dropWhile_append dropWhile_eq_Nil_conv)
  with assms show ?thesis by (simp add: py_strip_def strip_by_eq_Nil_iff sql_nonblank_def)
qed

lemma fenced_text_ok:
  "py_strip (ff_stage (failure_for e)) \<noteq> [] \<and> sql_nonblank (ff_stage (failure_for e))"
  "py_strip (ff_code (failure_for e)) \<noteq> [] \<and> sql_nonblank (ff_code (failure_for e))"
proof -
  have "list_all (\<lambda>c. py_strip c \<noteq> [] \<and> sql_nonblank c) (failure_stages @ failure_codes)"
    by (simp add: failure_stages_def failure_codes_def starts_visible py_isspace_def)
  moreover have "py_strip (compiler_code_value k) \<noteq> [] \<and> sql_nonblank (compiler_code_value k)" for k
    by (cases k) (simp_all add: starts_visible py_isspace_def)
  moreover have "py_strip (audit_code_value k) \<noteq> [] \<and> sql_nonblank (audit_code_value k)" for k
    by (cases k) (simp_all add: starts_visible py_isspace_def)
  ultimately show "py_strip (ff_stage (failure_for e)) \<noteq> [] \<and> sql_nonblank (ff_stage (failure_for e))"
    "py_strip (ff_code (failure_for e)) \<noteq> [] \<and> sql_nonblank (ff_code (failure_for e))"
    using failure_for_closed[of e] by (auto simp: list_all_iff closed_failure_def)
qed

lemma record_failure_Ran:
  assumes "fail_job (call_env w n) (job_id j) (fc_worker (fk_config fk)) (job_lease_epoch j) (wd_clock w n 0)
       \<lparr>fail_stage = ff_stage f, fail_code = ff_code f, fail_message = ''redacted'',
        fail_retry_at = (if ff_retryable f \<and> job_attempt_count j < fc_max_attempts (fk_config fk)
          then Some (shift (wd_clock w n 0) (fc_retry_delay (fk_config fk))) else None),
        fail_preserve_attempt = False\<rparr> (wd_others w n db) = (Inr j', db')"
    and "is_aware_datetime (wd_clock w n 0)" "\<not> fk_busy fk n"
  shows "record_failure fk w j f (db, n) = (Ran j' None, (db', Suc n))"
proof -
  have "fenced_fail_job fk w j f (db, n) = (Inr j', (db', Suc n))"
    unfolding fenced_fail_job_def fenced_call_def act_call_def prod.case assms(1) using assms(2,3)
    by (simp add: map_error_def)
  then show ?thesis by (simp add: record_failure_def)
qed

text \<open>
  A failure of the injected lane is recorded without content: a worker that still holds its
  lease gives it up and leaves a stage and a code from closed lists with the message
  \<^verbatim>\<open>redacted\<close>; the job waits for the configured delay where the error is retryable and
  attempts are left, and is failed for good otherwise; nothing else changes.
\<close>

theorem record_failure_redacted:
  assumes ok: "db_ok (wd_env w) (wd_others w n db)" and config: "valid_fenced_config (fk_config fk)"
    and r: "find_job (wd_others w n db) (job_id j) = Some r"
      "fence_live r (fc_worker (fk_config fk)) (job_lease_epoch j) now"
    and clock: "wd_clock w n 0 = Aware now" and calm: "\<not> fk_busy fk n" "\<not> wd_fault w n ''failure.after_update''"
  shows "\<exists>j' db' r'. record_failure fk w j (failure_for e) (db, n) = (Ran j' None, (db', Suc n)) \<and>
    find_job db' (job_id j) = Some r' \<and> jr_owner r' = None \<and> jr_err_message r' = Some ''redacted'' \<and>
    (\<exists>s \<in> set failure_stages. jr_err_stage r' = Some s) \<and> jr_err_code r' = Some (ff_code (failure_for e)) \<and>
    (if ff_retryable (failure_for e) \<and> job_attempt_count j < fc_max_attempts (fk_config fk)
     then jr_state r' = RETRY_WAIT \<and> jr_retry r' = Some (now + fc_retry_delay (fk_config fk))
     else jr_state r' = FAILED \<and> jr_retry r' = None) \<and>
    (\<forall>i. i \<noteq> job_id j \<longrightarrow> find_job db' i = find_job (wd_others w n db) i) \<and>
    db' = (wd_others w n db)\<lparr>db_jobs := db_jobs db'\<rparr>"
proof -
  let ?c = "fk_config fk" and ?x = "failure_for e" and ?db = "wd_others w n db"
  let ?again = "ff_retryable ?x \<and> job_attempt_count j < fc_max_attempts ?c"
  let ?retry = "if ?again then Some (now + fc_retry_delay ?c) else None"
  let ?f = "\<lparr>fail_stage = ff_stage ?x, fail_code = ff_code ?x, fail_message = ''redacted'',
    fail_retry_at = (if ?again then Some (shift (Aware now) (fc_retry_delay ?c)) else None), fail_preserve_attempt = False\<rparr>"
  have red: "py_strip ''redacted'' \<noteq> []" "sql_nonblank ''redacted''" by code_simp+
  have "\<exists>j' db'. fail_job (call_env w n) (job_id j) (fc_worker ?c) (job_lease_epoch j) (Aware now) ?f ?db = (Inr j', db') \<and>
      find_job db' (job_id j) = Some (fail_row ?f ?retry now r) \<and>
      (\<forall>i. i \<noteq> job_id j \<longrightarrow> find_job db' i = find_job ?db i) \<and> db' = ?db\<lparr>db_jobs := db_jobs db'\<rparr>"
  proof (rule fail_job_succeeds)
    show "db_ok (call_env w n) ?db" using ok by (simp add: call_env_def)
    show "valid_failure ?f" using fenced_text_ok[of e] red by (simp add: valid_failure_def)
    show "sql_nonblank (fail_stage ?f)" "sql_nonblank (fail_code ?f)" "sql_nonblank (fail_message ?f)"
      using fenced_text_ok[of e] red by simp_all
    show "map_option Aware ?retry = fail_retry_at ?f" by simp
    show "?retry = Some t \<Longrightarrow> now < t" for t using config by (auto simp: valid_fenced_config_def split: if_splits)
    show "\<not> env_fault (call_env w n) ''failure.after_update''" using calm by (simp add: call_env_def)
  qed (use r in auto)
  then obtain j' db' where run: "fail_job (call_env w n) (job_id j) (fc_worker ?c) (job_lease_epoch j) (Aware now) ?f ?db = (Inr j', db')"
    and res: "find_job db' (job_id j) = Some (fail_row ?f ?retry now r)"
      "\<forall>i. i \<noteq> job_id j \<longrightarrow> find_job db' i = find_job ?db i" "db' = ?db\<lparr>db_jobs := db_jobs db'\<rparr>" by blast
  have "record_failure fk w j ?x (db, n) = (Ran j' None, (db', Suc n))"
    by (rule record_failure_Ran) (use run clock calm(1) in \<open>simp_all only: is_aware_datetime.simps simp_thms\<close>)
  with res failure_for_closed[of e, unfolded closed_failure_def] show ?thesis
    by (intro exI[of _ j'] exI[of _ db'] exI[of _ "fail_row ?f ?retry now r"]) (auto simp: fail_row_def)
qed

section \<open>Lanes\<close>

text \<open>A constructed worker has a valid configuration of its lane, and only one backend chooses it.\<close>

lemma choose_lane_valid:
  assumes "choose_lane c a = Inr l"
  shows "case l of Fenced_Lane b counter f \<Rightarrow> valid_fenced_config f \<and> la_compiler_backend a = Some b \<and> la_backend a = None
    | Runtime_Lane b profile i r \<Rightarrow> valid_worker_config r \<and> la_compiler_backend a = None \<and> la_backend a = Some b"
  using assms by (auto simp: choose_lane_def lane_fenced_def lane_runtime_def result_simps split: option.splits)

text \<open>The default interval of the heartbeat renews a lease before it expires.\<close>

lemma heartbeat_within_lease:
  assumes "valid_fenced_config c"
  shows "0 < effective_heartbeat_interval c \<and> effective_heartbeat_interval c < fc_lease c"
  using assms by (auto simp: valid_fenced_config_def effective_heartbeat_interval_def third_def split: option.splits)

text \<open>A renewal of the lane always asks for a later expiry than the lease has.\<close>

lemma renewed_lease_later:
  assumes "valid_fenced_config c" "renewed_lease c j now = Inr lease" "job_lease_expires_at j = Some t"
  shows "t < instant lease"
  using assms by (cases now) (auto simp: renewed_lease_def valid_fenced_config_def effective_heartbeat_interval_def
      split: option.splits if_splits)

end
