(* ===== verification/Worker_Fenced_Witnesses.thy ===== *)
theory Worker_Fenced_Witnesses
  imports Worker_Fenced_Laws Worker_Witnesses
begin

text \<open>
  The injected lane over the concrete run of the repository: a run, and a backend failure that
  is recorded for a retry.
\<close>

definition demo_lane :: "backend_outcome \<Rightarrow> fenced" where
  "demo_lane out = \<lparr>fk_config = \<lparr>fc_worker = ''w'', fc_lease = 900, fc_token_ceiling = 100, fc_segmenter = wc_segmenter demo_worker_config,
       fc_strict_audit = False, fc_max_attempts = 3, fc_retry_delay = 7, fc_heartbeat = None\<rparr>,
     fk_backend = (\<lambda>_. out), fk_auditor = None, fk_counter = (\<lambda>_. Counted 3), fk_loads = (\<lambda>_. None), fk_dump = (\<lambda>_. ''{}''),
     fk_busy = (\<lambda>_. False), fk_beat = (\<lambda>_. Beat_Healthy)\<rparr>"


theorem record_failure_redacted_witness:
  "\<exists>j' db' r'. record_failure (demo_lane Backend_Raises) demo_world demo_leased_job
      (failure_for (Lane (Pipeline (compiler_error COMPILER_BACKEND_FAILURE)))) (demo_leased, 0) = (Ran j' None, (db', 1)) \<and>
    find_job db' ''j1'' = Some r' \<and> jr_state r' = RETRY_WAIT \<and> jr_retry r' = Some 107 \<and> jr_owner r' = None \<and>
    jr_err_code r' = Some ''COMPILER_BACKEND_FAILURE'' \<and> jr_err_message r' = Some ''redacted''"
proof -
  have job: "job_id demo_leased_job = ''j1''" "job_lease_epoch demo_leased_job = 1" "job_attempt_count demo_leased_job = 1"
    by (simp_all add: demo_leased_job_def job_envelope_def demo_job_def)
  have fk: "fc_worker (fk_config (demo_lane Backend_Raises)) = ''w''" "fc_max_attempts (fk_config (demo_lane Backend_Raises)) = 3"
    "fc_retry_delay (fk_config (demo_lane Backend_Raises)) = 7" by (simp_all add: demo_lane_def)
  have f: "ff_code (failure_for (Lane (Pipeline (compiler_error COMPILER_BACKEND_FAILURE)))) = ''COMPILER_BACKEND_FAILURE''"
    "ff_retryable (failure_for (Lane (Pipeline (compiler_error COMPILER_BACKEND_FAILURE))))"
    by (simp_all add: failure_for_def compiler_error_def retryable_compiler_errors_def)
  have config: "valid_fenced_config (fk_config (demo_lane Backend_Raises))" by code_simp
  have h: "db_ok (wd_env demo_world) (wd_others demo_world 0 demo_leased)"
    "find_job (wd_others demo_world 0 demo_leased) (job_id demo_leased_job) =
      Some (demo_job LEASED (Some ''w'') 1 None (Some 1000) 30 None)"
    "fence_live (demo_job LEASED (Some ''w'') 1 None (Some 1000) 30 None) (fc_worker (fk_config (demo_lane Backend_Raises)))
      (job_lease_epoch demo_leased_job) 100"
    "wd_clock demo_world 0 0 = Aware 100" "\<not> fk_busy (demo_lane Backend_Raises) 0"
    "\<not> wd_fault demo_world 0 ''failure.after_update''"
    using demo_early_ok(2)
    by (simp_all add: demo_world_def fk job find_job_def fetchone_def demo_lane_def
        demo_leased_def demo_job_def fence_live_def WORKING_STATES_def)
  from record_failure_redacted[OF h(1) config h(2-6), of "Lane (Pipeline (compiler_error COMPILER_BACKEND_FAILURE))"]
  show ?thesis unfolding job fk f by (auto simp: f(2))
qed

end
