(* ===== verification/Live.thy ===== *)
theory Live
  imports Verification
begin

text \<open>
  \<^verbatim>\<open>context_graph/live.py\<close>: the fail-open selection of a request. The deterministic assembly is
  computed first; what the numerical engine selects replaces it only after every gate. The
  engine is an argument: its configuration, if it has one, and its answer for a mode, a graph
  and an activation, or nothing when it raises. Token counts are within the range of a float.
\<close>

section \<open>Values\<close>

datatype engine_mode = MODE_ACTIVE | MODE_SHADOW | MODE_OFF

datatype residual_band = BAND_UNAVAILABLE | BAND_VERIFIED | BAND_MARGINAL | BAND_FAILED

record live_context_trace =
  lt_mode :: engine_mode
  lt_outcome :: engine_outcome
  lt_error_code :: "string option"
  lt_candidate_count :: int
  lt_selected_count :: int
  lt_relation_count :: int
  lt_constraint_count :: int
  lt_retained_count :: int
  lt_reduced_count :: int
  lt_selected_budget_units :: int
  lt_required_passed :: bool
  lt_provenance_passed :: bool
  lt_residual_band :: residual_band
  lt_adaptive_retry_count :: int

record live_selection =
  lv_assembly :: assembly_result
  lv_trace :: live_context_trace

record live_engine =
  le_config :: "graph_config option"
  le_solve :: "engine_mode \<Rightarrow> context_graph \<Rightarrow> query_activation \<Rightarrow> engine_result option"

type_synonym built_graph = "context_graph \<times> query_activation"

definition residual_band_of :: "(rat \<Rightarrow> rat) \<Rightarrow> error_certificate option \<Rightarrow> residual_band" where
  "residual_band_of fl cert =
     (case cert of
        None \<Rightarrow> BAND_UNAVAILABLE
      | Some ec \<Rightarrow>
          let maximum = max (ec_stationarity ec) (max (ec_constraint ec) (ec_reconstruction ec)) in
          if ec_passed ec \<and> maximum \<le> fl (1 / 10 ^ 10) then BAND_VERIFIED
          else if ec_passed ec \<and> maximum \<le> fl (1 / 10 ^ 8) then BAND_MARGINAL
          else BAND_FAILED)"

definition live_trace ::
  "(rat \<Rightarrow> rat) \<Rightarrow> engine_mode \<Rightarrow> engine_outcome \<Rightarrow> assembly_result \<Rightarrow> candidate_block list \<Rightarrow> built_graph option
   \<Rightarrow> engine_result option \<Rightarrow> assembly_result option \<Rightarrow> string option \<Rightarrow> int \<Rightarrow> live_context_trace" where
  "live_trace fl mode outcome fallback candidates built result final code retries =
     (let selected = (case final of Some f \<Rightarrow> f | None \<Rightarrow> fallback);
          certificate = (case result of None \<Rightarrow> None | Some r \<Rightarrow> er_certificate r);
          retained = (case built of None \<Rightarrow> 0 | Some (g, a) \<Rightarrow> int (length (qa_retained a))) in
      \<lparr>lt_mode = mode, lt_outcome = outcome, lt_error_code = code, lt_candidate_count = int (length candidates),
       lt_selected_count = int (length (ar_selected_blocks selected)),
       lt_relation_count = (case built of None \<Rightarrow> 0 | Some (g, a) \<Rightarrow> int (length (gr_relations g))),
       lt_constraint_count = (case built of None \<Rightarrow> 0 | Some (g, a) \<Rightarrow> int (length (gr_constraints g))),
       lt_retained_count = retained, lt_reduced_count = max 0 (int (length candidates) - retained),
       lt_selected_budget_units = at_ac_selected_cost (ar_trace selected),
       lt_required_passed = (case certificate of None \<Rightarrow> False | Some ec \<Rightarrow> ec_required_blocks_passed ec),
       lt_provenance_passed = (case certificate of None \<Rightarrow> False | Some ec \<Rightarrow> ec_provenance_passed ec),
       lt_residual_band = residual_band_of fl certificate, lt_adaptive_retry_count = retries\<rparr>)"

section \<open>Engine\<close>

definition should_retry :: "engine_result \<Rightarrow> query_activation \<Rightarrow> int \<Rightarrow> bool" where
  "should_retry r a retries \<longleftrightarrow>
     retries = 0 \<and> er_outcome r = DEGRADED_RAW \<and>
     (case er_error_code r of
        None \<Rightarrow> False
      | Some code \<Rightarrow> take 10 code = ''REDUCTION_'' \<or> take 6 code = ''SOLVE_'') \<and>
     qa_retained a \<noteq> []"

text \<open>The call of the engine with its one retry over the whole graph, and the number of retries.\<close>

definition solve_with_retry ::
  "live_engine \<Rightarrow> engine_mode \<Rightarrow> context_graph \<Rightarrow> query_activation \<Rightarrow> int \<times> engine_result option" where
  "solve_with_retry engine mode g a =
     (case le_solve engine mode g a of
        None \<Rightarrow> (0, None)
      | Some r \<Rightarrow>
          let retained = map co_id (gr_coordinates g) in
          if should_retry r a 0 \<and> set (qa_retained a) \<subset> set retained
          then let a' = a\<lparr>qa_retained := retained\<rparr> in
               if valid_activation a' then (1, le_solve engine mode g a') else (0, None)
          else (0, Some r))"

definition engine_accepted :: "engine_result \<Rightarrow> bool" where
  "engine_accepted r \<longleftrightarrow>
     er_outcome r = ENGINE_ACTIVE \<and>
     (case er_certificate r of
        None \<Rightarrow> False
      | Some ec \<Rightarrow> ec_passed ec \<and> ec_required_blocks_passed ec \<and> ec_provenance_passed ec)"

section \<open>Packing\<close>

datatype live_stop = Live_Rejected | Live_Tokenizer_Error

definition verified_scores :: "engine_result \<Rightarrow> query_activation \<Rightarrow> string \<Rightarrow> rat option" where
  "verified_scores r a = dict_of (if er_scores r \<noteq> [] then er_scores r else qa_scores a)"

definition score_block ::
  "(rat \<Rightarrow> rat) \<Rightarrow> (string \<Rightarrow> rat option) \<Rightarrow> (string \<times> int) list \<Rightarrow> candidate_block \<Rightarrow> live_stop + candidate_block" where
  "score_block fl scores counts b =
     (if cb_required b then Inr b
      else case map_of counts (cb_id b) of
        None \<Rightarrow> Inl Live_Rejected
      | Some cost \<Rightarrow>
          if cost < 0 then Inl Live_Rejected
          else let s = (case scores (cb_id b) of None \<Rightarrow> 0 | Some x \<Rightarrow> x);
                   b' = b\<lparr>cb_score := fl (max 0 s / of_int (max 1 cost)), cb_reason := ''verified_activation_per_token''\<rparr> in
               bind (guard (valid_block b') Live_Rejected) (\<lambda>_. Inr b'))"

definition score_for_pack ::
  "(rat \<Rightarrow> rat) \<Rightarrow> candidate_block list \<Rightarrow> (string \<Rightarrow> rat option) \<Rightarrow> (string \<times> int) list \<Rightarrow> live_stop + candidate_block list" where
  "score_for_pack fl blocks scores counts = traverse (score_block fl scores counts) blocks"

text \<open>The arguments of an assembly that do not change during a selection.\<close>

record live_request =
  lq_view :: request_view
  lq_current_input :: string
  lq_opaque_token_cost :: int
  lq_fixed_required_cost :: int
  lq_counter :: token_counter
  lq_budget :: budget_config

definition live_assemble ::
  "live_request \<Rightarrow> candidate_block list \<Rightarrow> (string \<times> int) list \<Rightarrow> budget_error + assembly_result" where
  "live_assemble q blocks counts =
     assemble (lq_view q) blocks (lq_current_input q) (lq_opaque_token_cost q) (lq_fixed_required_cost q) (lq_counter q)
       (lq_budget q) (Some counts)"

definition final_gate ::
  "candidate_block list \<Rightarrow> candidate_block list \<Rightarrow> int \<Rightarrow> assembly_result \<Rightarrow> bool" where
  "final_gate materialized closure max_blocks final \<longleftrightarrow>
     (let final_ids = set (map cb_id (ar_selected_blocks final));
          canonical_final = filter (\<lambda>b. cb_id b \<in> final_ids) materialized in
      set (map cb_id (filter cb_required materialized)) \<subseteq> final_ids \<and>
      set (map cb_id closure) \<subseteq> final_ids \<and>
      at_total_input_cost (ar_trace final) \<le> at_b_input (ar_trace final) \<and>
      validate_dependency_closure canonical_final materialized max_blocks)"

text \<open>The body of the last \<^verbatim>\<open>try\<close>.\<close>

definition final_pack ::
  "(rat \<Rightarrow> rat) \<Rightarrow> live_request \<Rightarrow> candidate_block list \<Rightarrow> (string \<times> int) list \<Rightarrow> graph_config \<Rightarrow> query_activation
   \<Rightarrow> engine_result \<Rightarrow> live_stop + assembly_result" where
  "final_pack fl q materialized counts c a r =
     bind (map_error (\<lambda>_. Live_Rejected)
             (close_dependency_closure (er_selected r) materialized (gc_max_coordinates c))) (\<lambda>closure.
     bind (guard (\<forall>b \<in> set closure. set (cb_sources b) \<subseteq> set (qa_provenance a)) Live_Rejected) (\<lambda>_.
     bind (score_for_pack fl closure (verified_scores r a) counts) (\<lambda>scored.
     bind (map_error (\<lambda>e. if e = TokenizerError then Live_Tokenizer_Error else Live_Rejected)
             (live_assemble q scored counts)) (\<lambda>final.
     bind (guard (final_gate materialized closure (gc_max_coordinates c) final) Live_Rejected) (\<lambda>_.
     Inr final)))))"

section \<open>Selection\<close>

definition satisfied_event_ids :: "live_request \<Rightarrow> string list" where
  "satisfied_event_ids q =
     (let delta = rv_delta (lq_view q) in
      if delta \<noteq> [] \<and> ev_type (last delta) = USER_MESSAGE \<and> ev_content (last delta) = lq_current_input q
      then [ev_id (last delta)] else [])"

definition engine_config :: "(rat \<Rightarrow> rat) \<Rightarrow> live_engine \<Rightarrow> graph_config" where
  "engine_config fl engine = (case le_config engine of Some c \<Rightarrow> c | None \<Rightarrow> default_graph_config fl)"

text \<open>What follows the engine's answer, once the deterministic assembly is there.\<close>

definition replace_fallback ::
  "(rat \<Rightarrow> rat) \<Rightarrow> live_request \<Rightarrow> candidate_block list \<Rightarrow> (string \<times> int) list \<Rightarrow> engine_mode \<Rightarrow> graph_config
   \<Rightarrow> assembly_result \<Rightarrow> built_graph \<Rightarrow> int \<Rightarrow> engine_result \<Rightarrow> budget_error + live_selection" where
  "replace_fallback fl q materialized counts mode c fallback built retries r =
     (let degraded = (\<lambda>outcome code. Inr \<lparr>lv_assembly = fallback,
            lv_trace = live_trace fl mode outcome fallback materialized (Some built) (Some r) None code retries\<rparr>) in
      if mode = MODE_SHADOW then
        degraded (if er_outcome r = ENGINE_SHADOW then ENGINE_SHADOW else DEGRADED_RAW) (er_error_code r)
      else if \<not> engine_accepted r then
        degraded DEGRADED_RAW
          (Some (case er_error_code r of Some (x # xs) \<Rightarrow> x # xs | _ \<Rightarrow> ''LIVE_ENGINE_REJECTED''))
      else case final_pack fl q materialized counts c (snd built) r of
        Inl Live_Tokenizer_Error \<Rightarrow> Inl TokenizerError
      | Inl Live_Rejected \<Rightarrow> degraded DEGRADED_RAW (Some ''LIVE_FINAL_VALIDATION_FAILED'')
      | Inr final \<Rightarrow> Inr \<lparr>lv_assembly = final,
          lv_trace = live_trace fl mode ENGINE_ACTIVE fallback materialized (Some built) (Some r) (Some final) None retries\<rparr>)"

definition select_live_context ::
  "(rat \<Rightarrow> rat) \<Rightarrow> live_request \<Rightarrow> candidate_block list \<Rightarrow> (string \<times> int) list option \<Rightarrow> engine_mode \<Rightarrow> live_engine
   \<Rightarrow> budget_error + live_selection" where
  "select_live_context fl q candidates provided mode engine =
     (let materialized = canonical_candidates candidates in
      bind (case provided of None \<Rightarrow> count_candidate_blocks materialized (lq_counter q) | Some p \<Rightarrow> Inr p) (\<lambda>counts.
      bind (live_assemble q materialized counts) (\<lambda>fallback.
      let degraded = (\<lambda>outcome code built retries. Inr \<lparr>lv_assembly = fallback,
            lv_trace = live_trace fl mode outcome fallback materialized built None None code retries\<rparr>) in
      if (\<exists>b \<in> set materialized. \<not> cb_selection_complete b) \<or>
         \<not> required_candidates_complete (lq_view q) materialized (satisfied_event_ids q)
      then degraded DEGRADED_RAW (Some ''LIVE_REQUIRED_CANDIDATE_TRUNCATED'') None 0
      else if mode = MODE_OFF then degraded ENGINE_OFF None None 0
      else let c = engine_config fl engine in
        case build_context_graph fl (lq_view q) materialized (lq_current_input q) c of
          Inl e \<Rightarrow> degraded DEGRADED_RAW (Some ''LIVE_BUILD_FAILURE'') None 0
        | Inr built \<Rightarrow>
            (case solve_with_retry engine mode (fst built) (snd built) of
               (retries, None) \<Rightarrow> degraded DEGRADED_RAW (Some ''LIVE_ENGINE_FAILURE'') (Some built) retries
             | (retries, Some r) \<Rightarrow> replace_fallback fl q materialized counts mode c fallback built retries r))))"

end
