(* ===== verification/Tokenization.thy ===== *)
theory Tokenization
  imports Budget Pressure
begin

text \<open>
  \<^verbatim>\<open>tokenization/\<close> less the request orchestration: profiles and the rounding multiplier
  (\<^verbatim>\<open>types.py\<close>), the model router (\<^verbatim>\<open>router.py\<close>), the context limit (\<^verbatim>\<open>context.py\<close>), the verified
  rank assets (\<^verbatim>\<open>assets.py\<close>) and the registry of encodings (\<^verbatim>\<open>registry.py\<close>). An argument of type
  \<^verbatim>\<open>object\<close> that is not of the wanted type is \<open>None\<close>. The tiktoken package, the file system, the
  digest and the host objects are arguments. Bytes are characters.
\<close>

section \<open>Profiles\<close>

datatype tokenizer_mode = CANONICAL_MODE | EXACT_TEXT_MODE | REFERENCE_MODE | BYTE_FALLBACK_MODE

datatype tokenizer_error_code =
  TOKENIZER_IMPORT_FAILED | TOKENIZER_ASSET_MISSING | TOKENIZER_ASSET_INVALID
| TOKENIZER_CONSTRUCTION_FAILED | TOKENIZER_COUNT_FAILED | TOKENIZER_COUNT_INVALID

record tokenizer_profile =
  tp_profile_id :: string
  tp_schema_version :: int
  tp_mode :: tokenizer_mode
  tp_encoding_name :: "string option"
  tp_implementation_name :: string
  tp_implementation_version :: string
  tp_asset_digest :: "string option"
  tp_count_multiplier_basis_points :: int

definition CL100K_DIGEST :: string where
  "CL100K_DIGEST = ''223921b76ee99bde995b7ff738513eef100fb51d18c93597a113bcffe865b2a7''"

definition O200K_DIGEST :: string where
  "O200K_DIGEST = ''446a9538cb6c348e3516120d7c08b09f57c36495e2acfffe59a5bf8b0cfb1a2d''"

definition offline_profile :: "string \<Rightarrow> tokenizer_mode \<Rightarrow> string \<Rightarrow> string \<Rightarrow> int \<Rightarrow> tokenizer_profile" where
  "offline_profile i mode encoding digest points =
     \<lparr>tp_profile_id = i, tp_schema_version = 1, tp_mode = mode, tp_encoding_name = Some encoding,
      tp_implementation_name = ''astrcontinuum-offline-tiktoken'', tp_implementation_version = ''1'',
      tp_asset_digest = Some digest, tp_count_multiplier_basis_points = points\<rparr>"

definition CANONICAL_O200K :: tokenizer_profile where
  "CANONICAL_O200K = offline_profile ''canonical-o200k-v1'' CANONICAL_MODE ''o200k_base'' O200K_DIGEST 10000"

definition OPENAI_O200K :: tokenizer_profile where
  "OPENAI_O200K = offline_profile ''openai-o200k_base-v1'' EXACT_TEXT_MODE ''o200k_base'' O200K_DIGEST 10000"

definition OPENAI_CL100K :: tokenizer_profile where
  "OPENAI_CL100K = offline_profile ''openai-cl100k_base-v1'' EXACT_TEXT_MODE ''cl100k_base'' CL100K_DIGEST 10000"

definition REFERENCE_O200K :: tokenizer_profile where
  "REFERENCE_O200K = offline_profile ''reference-o200k-v1'' REFERENCE_MODE ''o200k_base'' O200K_DIGEST 11000"

definition BYTE_FALLBACK :: tokenizer_profile where
  "BYTE_FALLBACK =
     \<lparr>tp_profile_id = ''utf8-byte-v1'', tp_schema_version = 1, tp_mode = BYTE_FALLBACK_MODE, tp_encoding_name = None,
      tp_implementation_name = ''python-utf8'', tp_implementation_version = ''1'', tp_asset_digest = None,
      tp_count_multiplier_basis_points = 10000\<rparr>"

record tokenizer_route =
  tr_profile :: tokenizer_profile
  tr_stable_code :: string

definition valid_route :: "tokenizer_route \<Rightarrow> bool" where
  "valid_route r \<longleftrightarrow> tr_stable_code r \<noteq> []"

definition apply_multiplier :: "int \<Rightarrow> int \<Rightarrow> tokenizer_error_code + int" where
  "apply_multiplier raw_count basis_points =
     (if raw_count < 0 \<or> basis_points < 0 then Inl TOKENIZER_COUNT_INVALID
      else Inr ((raw_count * basis_points + 9999) div 10000))"

text \<open>An encoding gives the number of its tokens of a text, or nothing when it raises.\<close>

type_synonym ordinary_encoding = "string \<Rightarrow> nat option"

record profile_counter =
  pc_profile :: tokenizer_profile
  pc_encoding :: ordinary_encoding

definition profile_count_text :: "profile_counter \<Rightarrow> string \<Rightarrow> tokenizer_error_code + int" where
  "profile_count_text c body =
     (case pc_encoding c body of
        None \<Rightarrow> Inl TOKENIZER_COUNT_FAILED
      | Some n \<Rightarrow> apply_multiplier (int n) (tp_count_multiplier_basis_points (pc_profile c)))"

definition profile_count_texts :: "profile_counter \<Rightarrow> string list \<Rightarrow> tokenizer_error_code + int list" where
  "profile_count_texts c bodies = traverse (profile_count_text c) bodies"

section \<open>Router\<close>

definition MAX_MODEL_CODEPOINTS :: nat where
  "MAX_MODEL_CODEPOINTS = 256"

text \<open>The categories \<^verbatim>\<open>Cc\<close> and \<^verbatim>\<open>Cf\<close> on code points below 256.\<close>

definition control_category :: "char \<Rightarrow> bool" where
  "control_category c = (let n = (of_char c :: nat) in n < 32 \<or> 127 \<le> n \<and> n \<le> 159 \<or> n = 173)"

definition normalize_model_identity :: "string option \<Rightarrow> string option" where
  "normalize_model_identity value =
     (case value of
        None \<Rightarrow> None
      | Some v \<Rightarrow>
          let normalized = py_strip v in
          if normalized = [] \<or> length normalized > MAX_MODEL_CODEPOINTS then None
          else if \<exists>c \<in> set normalized. py_isspace c \<or> control_category c then None
          else Some normalized)"

text \<open>What the mapper of the tiktoken package does with a model name.\<close>

datatype mapper_answer = Mapped string | Mapped_Other | Mapper_Key_Error | Mapper_Raises

definition known_encoding :: "string \<Rightarrow> tokenizer_profile option" where
  "known_encoding name =
     map_of [(''o200k_base'', OPENAI_O200K), (''cl100k_base'', OPENAI_CL100K)] name"

definition route :: "(string \<Rightarrow> mapper_answer) option \<Rightarrow> string option \<Rightarrow> tokenizer_route" where
  "route mapper model_identity =
     (case mapper of
        None \<Rightarrow> \<lparr>tr_profile = BYTE_FALLBACK, tr_stable_code = ''TOKENIZER_IMPORT_FAILED''\<rparr>
      | Some f \<Rightarrow>
          let unknown = \<lparr>tr_profile = REFERENCE_O200K, tr_stable_code = ''TOKENIZER_MODEL_UNKNOWN''\<rparr> in
          (case normalize_model_identity model_identity of
             None \<Rightarrow> unknown
           | Some name \<Rightarrow>
               (case f name of
                  Mapper_Key_Error \<Rightarrow> unknown
                | Mapper_Raises \<Rightarrow> \<lparr>tr_profile = BYTE_FALLBACK, tr_stable_code = ''TOKENIZER_CONSTRUCTION_FAILED''\<rparr>
                | Mapped_Other \<Rightarrow> unknown
                | Mapped encoding \<Rightarrow>
                    (case known_encoding encoding of
                       None \<Rightarrow> unknown
                     | Some profile \<Rightarrow> \<lparr>tr_profile = profile, tr_stable_code = ''NONE''\<rparr>))))"

section \<open>Context limit\<close>

datatype context_limit_source = MANUAL | AUTO_ASTRBOT | AUTO_SAFE_FALLBACK

record context_limit_decision =
  cl_limit :: int
  cl_source :: context_limit_source
  cl_stable_code :: string

definition valid_limit_decision :: "context_limit_decision \<Rightarrow> bool" where
  "valid_limit_decision d \<longleftrightarrow> cl_limit d \<ge> 1 \<and> cl_stable_code d \<noteq> []"

definition SAFE_FALLBACK_LIMIT :: int where
  "SAFE_FALLBACK_LIMIT = 128000"

definition resolve_context_limit ::
  "int option \<Rightarrow> int option \<Rightarrow> string option \<Rightarrow> string option \<Rightarrow> context_limit_decision" where
  "resolve_context_limit configured_limit provider_limit request_model provider_model =
     (let fallback = (\<lambda>n code. \<lparr>cl_limit = n, cl_source = AUTO_SAFE_FALLBACK, cl_stable_code = code\<rparr>) in
      case configured_limit of
        None \<Rightarrow> fallback SAFE_FALLBACK_LIMIT ''CONTEXT_LIMIT_CONFIG_INVALID''
      | Some configured \<Rightarrow>
          if configured < 0 then fallback SAFE_FALLBACK_LIMIT ''CONTEXT_LIMIT_CONFIG_INVALID''
          else if configured > 0 then \<lparr>cl_limit = configured, cl_source = MANUAL, cl_stable_code = ''NONE''\<rparr>
          else case provider_limit of
            None \<Rightarrow> fallback SAFE_FALLBACK_LIMIT ''CONTEXT_LIMIT_UNAVAILABLE''
          | Some limit \<Rightarrow>
              if limit < 1 then fallback SAFE_FALLBACK_LIMIT ''CONTEXT_LIMIT_UNAVAILABLE''
              else let normalized_request = normalize_model_identity request_model;
                       normalized_provider = normalize_model_identity provider_model in
                if normalized_request \<noteq> None \<and> normalized_request \<noteq> normalized_provider
                then fallback (min limit SAFE_FALLBACK_LIMIT) ''CONTEXT_LIMIT_UNAVAILABLE''
                else \<lparr>cl_limit = limit, cl_source = AUTO_ASTRBOT, cl_stable_code = ''NONE''\<rparr>)"

text \<open>
  What the attributes of the host objects give: an attribute that is missing, raises or has
  another type is \<open>None\<close>, as is a provider function that is missing, not callable or raises.
\<close>

record host_provider =
  hp_model :: "string option"
  hp_type :: "string option"
  hp_max_context_tokens :: "int option"

record host_objects =
  ho_request_model :: "string option"
  ho_unified_msg_origin :: "string option"
  ho_get_using_provider :: "(string \<Rightarrow> host_provider option) option"

record request_metadata =
  rm_model_identity :: "string option"
  rm_request_model :: "string option"
  rm_provider_model :: "string option"
  rm_provider_limit :: "int option"
  rm_provider_type :: "string option"

definition resolve_request_metadata :: "host_objects \<Rightarrow> request_metadata" where
  "resolve_request_metadata h =
     (let request_model = normalize_model_identity (ho_request_model h);
          provider =
            (case (ho_unified_msg_origin h, ho_get_using_provider h) of
               (Some umo, Some get) \<Rightarrow> if py_strip umo \<noteq> [] then get umo else None
             | _ \<Rightarrow> None);
          provider_model = (case provider of None \<Rightarrow> None | Some p \<Rightarrow> normalize_model_identity (hp_model p));
          provider_limit =
            (case provider of
               None \<Rightarrow> None
             | Some p \<Rightarrow> (case hp_max_context_tokens p of
                            None \<Rightarrow> None
                          | Some n \<Rightarrow> if n > 0 then Some n else None)) in
      \<lparr>rm_model_identity = (if request_model \<noteq> None then request_model else provider_model),
       rm_request_model = request_model, rm_provider_model = provider_model, rm_provider_limit = provider_limit,
       rm_provider_type = (case provider of None \<Rightarrow> None | Some p \<Rightarrow> hp_type p)\<rparr>)"

end
