(* ===== verification/Tokenizer_Assets.thy ===== *)
theory Tokenizer_Assets
  imports Tokenization
begin

text \<open>
  \<^verbatim>\<open>tokenization/assets.py\<close> and \<^verbatim>\<open>tokenization/registry.py\<close>: the verified load of a rank table and
  the registry that builds each encoding once. The file read, the digest and the constructor of
  the tiktoken package are arguments; base64, line splitting and \<^verbatim>\<open>int\<close> are written out.
\<close>

section \<open>Bytes\<close>

definition byte_space :: "char \<Rightarrow> bool" where
  "byte_space c = (let n = (of_char c :: nat) in 9 \<le> n \<and> n \<le> 13 \<or> n = 32)"

fun split_bytes :: "string \<Rightarrow> string \<Rightarrow> string list" where
  "split_bytes cur [] = (if cur = [] then [] else [rev cur])"
| "split_bytes cur (c # cs) =
     (if byte_space c then (if cur = [] then split_bytes [] cs else rev cur # split_bytes [] cs)
      else split_bytes (c # cur) cs)"

text \<open>\<^verbatim>\<open>bytes.splitlines\<close>: a line ends at a line feed, a carriage return or both.\<close>

fun split_lines :: "string \<Rightarrow> string \<Rightarrow> string list" where
  "split_lines cur [] = (if cur = [] then [] else [rev cur])"
| "split_lines cur (c # cs) =
     (if c = CHR 0x0A then rev cur # split_lines [] cs
      else if c = CHR 0x0D then
        (case cs of
           d # ds \<Rightarrow> rev cur # split_lines [] (if d = CHR 0x0A then ds else cs)
         | [] \<Rightarrow> [rev cur])
      else split_lines (c # cur) cs)"

definition base64_value :: "char \<Rightarrow> nat option" where
  "base64_value c = (let n = (of_char c :: nat) in
     if 65 \<le> n \<and> n \<le> 90 then Some (n - 65) else if 97 \<le> n \<and> n \<le> 122 then Some (n - 71)
     else if 48 \<le> n \<and> n \<le> 57 then Some (n + 4) else if c = CHR ''+'' then Some 62
     else if c = CHR ''/'' then Some 63 else None)"

definition byte_of :: "nat \<Rightarrow> char" where
  "byte_of n = char_of (n mod 256)"

text \<open>Whole groups of four characters; padding only in the last one.\<close>

fun b64decode :: "string \<Rightarrow> string option" where
  "b64decode [] = Some []"
| "b64decode (a # b # c # d # rest) =
     (case (base64_value a, base64_value b) of
        (Some x, Some y) \<Rightarrow>
          (case (base64_value c, base64_value d) of
             (Some z, Some w) \<Rightarrow>
               map_option (\<lambda>bs. byte_of (x * 4 + y div 16) # byte_of (y * 16 + z div 4) # byte_of (z * 64 + w) # bs)
                 (b64decode rest)
           | (Some z, None) \<Rightarrow>
               if d = CHR ''='' \<and> rest = [] then Some [byte_of (x * 4 + y div 16), byte_of (y * 16 + z div 4)] else None
           | (None, None) \<Rightarrow>
               if c = CHR ''='' \<and> d = CHR ''='' \<and> rest = [] then Some [byte_of (x * 4 + y div 16)] else None
           | _ \<Rightarrow> None)
      | _ \<Rightarrow> None)"
| "b64decode _ = None"

definition is_digit :: "char \<Rightarrow> bool" where
  "is_digit c = (let n = (of_char c :: nat) in 48 \<le> n \<and> n \<le> 57)"

text \<open>Digits with single underscores between them.\<close>

fun digits_value :: "bool \<Rightarrow> int \<Rightarrow> string \<Rightarrow> int option" where
  "digits_value after_digit acc [] = (if after_digit then Some acc else None)"
| "digits_value after_digit acc (c # cs) =
     (if is_digit c then digits_value True (10 * acc + int (of_char c) - 48) cs
      else if c = CHR ''_'' \<and> after_digit \<and> cs \<noteq> [] then digits_value False acc cs
      else None)"

definition py_int :: "string \<Rightarrow> int option" where
  "py_int s =
     (case strip_by byte_space s of
        [] \<Rightarrow> None
      | c # cs \<Rightarrow>
          if c = CHR ''-'' then map_option uminus (digits_value False 0 cs)
          else if c = CHR ''+'' then digits_value False 0 cs
          else digits_value False 0 (c # cs))"

section \<open>Assets\<close>

record tokenizer_asset =
  ta_filename :: string
  ta_digest :: string
  ta_size :: int

definition ASSET_MANIFEST :: "(string \<times> tokenizer_asset) list" where
  "ASSET_MANIFEST =
     [(''cl100k_base'', \<lparr>ta_filename = ''cl100k_base.tiktoken'', ta_digest = CL100K_DIGEST, ta_size = 1681126\<rparr>),
      (''o200k_base'', \<lparr>ta_filename = ''o200k_base.tiktoken'', ta_digest = O200K_DIGEST, ta_size = 3613922\<rparr>)]"

definition is_sha256_digest :: "string \<Rightarrow> bool" where
  "is_sha256_digest s \<longleftrightarrow> length s = 64 \<and>
     list_all (\<lambda>c. let n = (of_char c :: nat) in 48 \<le> n \<and> n \<le> 57 \<or> 97 \<le> n \<and> n \<le> 102) s"

text \<open>What opening and reading the file does; a read gives at most the wanted number of bytes.\<close>

datatype file_read = File_Missing | File_Error | File_Bytes string

fun parse_ranks :: "string list \<Rightarrow> (string \<times> int) list \<Rightarrow> tokenizer_error_code + (string \<times> int) list" where
  "parse_ranks [] ranks = Inr ranks"
| "parse_ranks (line # lines) ranks =
     (case split_bytes [] line of
        [encoded, number] \<Rightarrow>
          (case (b64decode encoded, py_int number) of
             (Some token, Some rank) \<Rightarrow>
               if token = [] \<or> token \<in> fst ` set ranks \<or> rank < 0 \<or> rank \<in> snd ` set ranks
               then Inl TOKENIZER_ASSET_INVALID
               else parse_ranks lines (ranks @ [(token, rank)])
           | _ \<Rightarrow> Inl TOKENIZER_ASSET_INVALID)
      | _ \<Rightarrow> Inl TOKENIZER_ASSET_INVALID)"

definition load_mergeable_ranks ::
  "(string \<Rightarrow> string) \<Rightarrow> (string \<Rightarrow> file_read) \<Rightarrow> string \<Rightarrow> tokenizer_asset \<Rightarrow> tokenizer_error_code + (string \<times> int) list" where
  "load_mergeable_ranks sha256 files path asset =
     bind (guard (ta_size asset \<ge> 0 \<and> is_sha256_digest (ta_digest asset)) TOKENIZER_ASSET_INVALID) (\<lambda>_.
     case files path of
       File_Missing \<Rightarrow> Inl TOKENIZER_ASSET_MISSING
     | File_Error \<Rightarrow> Inl TOKENIZER_ASSET_INVALID
     | File_Bytes content \<Rightarrow>
         let data = take (nat (ta_size asset) + 1) content in
         bind (guard (int (length data) = ta_size asset) TOKENIZER_ASSET_INVALID) (\<lambda>_.
         bind (guard (sha256 data = ta_digest asset) TOKENIZER_ASSET_INVALID) (\<lambda>_.
         bind (guard (split_lines [] data \<noteq> []) TOKENIZER_ASSET_INVALID) (\<lambda>_.
         parse_ranks (split_lines [] data) []))))"

section \<open>Registry\<close>

definition special_tokens :: "string \<Rightarrow> (string \<times> int) list" where
  "special_tokens name =
     (if name = ''cl100k_base'' then
        [(''<|endoftext|>'', 100257), (''<|fim_prefix|>'', 100258), (''<|fim_middle|>'', 100259),
         (''<|fim_suffix|>'', 100260), (''<|endofprompt|>'', 100276)]
      else [(''<|endoftext|>'', 199999), (''<|endofprompt|>'', 200018)])"

text \<open>
  The surroundings of a registry: the file system below its root, and the constructor of the
  tiktoken package where it could be imported (\<open>None\<close> when it could not). The constructor gets
  the name, which fixes the pattern, the ranks and the special tokens; nothing means it raised.
\<close>

record registry_world =
  rw_sha256 :: "string \<Rightarrow> string"
  rw_files :: "string \<Rightarrow> file_read"
  rw_tiktoken :: "(string \<Rightarrow> (string \<times> int) list \<Rightarrow> (string \<times> int) list \<Rightarrow> ordinary_encoding option) option"

type_synonym encoding_cache = "string \<rightharpoonup> ordinary_encoding"

definition utf8_encoding :: ordinary_encoding where
  "utf8_encoding body = Some (utf8_length body)"

definition encoding_for ::
  "registry_world \<Rightarrow> string \<Rightarrow> tokenizer_asset \<Rightarrow> encoding_cache
   \<Rightarrow> (tokenizer_error_code + ordinary_encoding) \<times> encoding_cache" where
  "encoding_for w name asset cache =
     (case cache name of
        Some e \<Rightarrow> (Inr e, cache)
      | None \<Rightarrow>
          (case load_mergeable_ranks (rw_sha256 w) (rw_files w) (ta_filename asset) asset of
             Inl e \<Rightarrow> (Inl e, cache)
           | Inr ranks \<Rightarrow>
               (case rw_tiktoken w of
                  None \<Rightarrow> (Inl TOKENIZER_CONSTRUCTION_FAILED, cache)
                | Some build \<Rightarrow>
                    (case build name ranks (special_tokens name) of
                       None \<Rightarrow> (Inl TOKENIZER_CONSTRUCTION_FAILED, cache)
                     | Some e \<Rightarrow> (Inr e, cache(name \<mapsto> e))))))"

definition counter_for ::
  "registry_world \<Rightarrow> tokenizer_profile \<Rightarrow> encoding_cache \<Rightarrow> (tokenizer_error_code + profile_counter) \<times> encoding_cache" where
  "counter_for w profile cache =
     (if tp_mode profile = BYTE_FALLBACK_MODE then
        (if tp_encoding_name profile \<noteq> None then Inl TOKENIZER_CONSTRUCTION_FAILED
         else Inr \<lparr>pc_profile = profile, pc_encoding = utf8_encoding\<rparr>, cache)
      else case tp_encoding_name profile of
        None \<Rightarrow> (Inl TOKENIZER_CONSTRUCTION_FAILED, cache)
      | Some name \<Rightarrow>
          (case map_of ASSET_MANIFEST name of
             None \<Rightarrow> (Inl TOKENIZER_CONSTRUCTION_FAILED, cache)
           | Some asset \<Rightarrow>
               if tp_asset_digest profile \<noteq> Some (ta_digest asset) then (Inl TOKENIZER_CONSTRUCTION_FAILED, cache)
               else if rw_tiktoken w = None then (Inl TOKENIZER_IMPORT_FAILED, cache)
               else (case encoding_for w name asset cache of
                       (Inl e, cache') \<Rightarrow> (Inl e, cache')
                     | (Inr e, cache') \<Rightarrow> (Inr \<lparr>pc_profile = profile, pc_encoding = e\<rparr>, cache'))))"

section \<open>Laws\<close>

text \<open>The multiplier rounds up: the least integer that is not below the scaled count.\<close>

lemma ceiling_of_bounds:
  fixes k m :: int
  assumes "k \<le> 10000 * m" "10000 * m < k + 10000"
  shows "\<lceil>of_int k / (10000 :: rat)\<rceil> = m"
proof (rule ceiling_unique)
  from assms have "(of_int k :: rat) \<le> of_int (10000 * m)" "(of_int (10000 * m) :: rat) < of_int (k + 10000)"
    by (simp_all only: of_int_le_iff of_int_less_iff)
  then show "of_int m - 1 < of_int k / (10000 :: rat)" "of_int k / (10000 :: rat) \<le> of_int m"
    by (simp_all add: field_simps)
qed

lemma div_ceiling: "(k + 9999) div 10000 = \<lceil>of_int k / (10000 :: rat)\<rceil>" for k :: int
proof (rule ceiling_of_bounds[symmetric])
  have "10000 * ((k + 9999) div 10000) + (k + 9999) mod 10000 = k + 9999" by (rule mult_div_mod_eq)
  moreover have "0 \<le> (k + 9999) mod 10000" "(k + 9999) mod 10000 < 10000" by (rule pos_mod_sign, simp, rule pos_mod_bound, simp)
  ultimately show "k \<le> 10000 * ((k + 9999) div 10000)" "10000 * ((k + 9999) div 10000) < k + 10000" by linarith+
qed

lemma apply_multiplier_ceiling:
  assumes "apply_multiplier n points = Inr m"
  shows "m = \<lceil>of_int (n * points) / (10000 :: rat)\<rceil>" "0 \<le> m" "points \<ge> 10000 \<Longrightarrow> n \<le> m"
proof -
  from assms have n: "0 \<le> n" "0 \<le> points" and m: "m = (n * points + 9999) div 10000"
    by (auto simp: apply_multiplier_def split: if_splits)
  show "m = \<lceil>of_int (n * points) / (10000 :: rat)\<rceil>" unfolding m by (rule div_ceiling)
  from n have "0 \<le> n * points" by (rule mult_nonneg_nonneg)
  then show "0 \<le> m" unfolding m by (simp add: pos_imp_zdiv_nonneg_iff)
  assume "points \<ge> 10000"
  with n have "n * 10000 \<le> n * points" by (intro mult_left_mono)
  then have "(n * 10000 + 9999) div 10000 \<le> m" unfolding m by (intro zdiv_mono1) simp_all
  then show "n \<le> m" by simp
qed

lemma parse_ranks_sound:
  assumes "parse_ranks lines ranks = Inr out"
    and "distinct (map fst ranks)" "distinct (map snd ranks)" "\<forall>(t, r) \<in> set ranks. t \<noteq> [] \<and> 0 \<le> r"
  shows "distinct (map fst out) \<and> distinct (map snd out) \<and> (\<forall>(t, r) \<in> set out. t \<noteq> [] \<and> 0 \<le> r) \<and>
    length out = length ranks + length lines"
  using assms
proof (induction lines arbitrary: ranks)
  case (Cons line lines)
  from Cons.prems(1) obtain token rank where
    "token \<noteq> []" "token \<notin> fst ` set ranks" "\<not> rank < 0" "rank \<notin> snd ` set ranks"
    "parse_ranks lines (ranks @ [(token, rank)]) = Inr out"
    by (auto split: list.splits option.splits if_splits)
  with Cons.IH[of "ranks @ [(token, rank)]"] Cons.prems(2-4) show ?case by auto
qed simp

text \<open>
  A table that loads is exactly the verified file: its bytes have the size and the digest of
  the asset, every line is one rank, and tokens and ranks are non-empty, non-negative and
  without repetition.
\<close>

lemma load_mergeable_ranks_verified:
  assumes "load_mergeable_ranks sha256 files path asset = Inr ranks"
  shows "\<exists>data. files path = File_Bytes data \<and> int (length data) = ta_size asset \<and> sha256 data = ta_digest asset \<and>
    length ranks = length (split_lines [] data) \<and> ranks \<noteq> [] \<and>
    distinct (map fst ranks) \<and> distinct (map snd ranks) \<and> (\<forall>(t, r) \<in> set ranks. t \<noteq> [] \<and> 0 \<le> r)"
proof -
  from assms obtain content where c: "files path = File_Bytes content" and size: "ta_size asset \<ge> 0"
    and len: "int (length (take (nat (ta_size asset) + 1) content)) = ta_size asset"
    and sha: "sha256 (take (nat (ta_size asset) + 1) content) = ta_digest asset"
    and ne: "split_lines [] (take (nat (ta_size asset) + 1) content) \<noteq> []"
    and p: "parse_ranks (split_lines [] (take (nat (ta_size asset) + 1) content)) [] = Inr ranks"
    by (auto simp: load_mergeable_ranks_def result_simps split: file_read.splits)
  from len size have "length content \<le> nat (ta_size asset) + 1" by auto
  then have all: "take (nat (ta_size asset) + 1) content = content" by simp
  from parse_ranks_sound[OF p[unfolded all]] c len sha ne show ?thesis unfolding all by auto
qed

text \<open>
  A registry only caches encodings that the constructor made from verified ranks, and a
  counter it hands out has the profile that was asked for.
\<close>

definition cache_ok :: "registry_world \<Rightarrow> encoding_cache \<Rightarrow> bool" where
  "cache_ok w cache \<longleftrightarrow> (\<forall>name e. cache name = Some e \<longrightarrow>
     (\<exists>asset ranks build. map_of ASSET_MANIFEST name = Some asset \<and> rw_tiktoken w = Some build \<and>
        load_mergeable_ranks (rw_sha256 w) (rw_files w) (ta_filename asset) asset = Inr ranks \<and>
        build name ranks (special_tokens name) = Some e))"

lemma counter_for_verified:
  assumes "counter_for w profile cache = (r, cache')" "cache_ok w cache"
  shows "cache_ok w cache'" "cache \<subseteq>\<^sub>m cache'" "r = Inr c \<Longrightarrow> pc_profile c = profile"
    "r = Inr c \<Longrightarrow> tp_mode profile \<noteq> BYTE_FALLBACK_MODE \<Longrightarrow>
       \<exists>name. tp_encoding_name profile = Some name \<and> cache' name = Some (pc_encoding c)"
  using assms
  by (auto simp: counter_for_def encoding_for_def cache_ok_def map_le_def split: if_splits option.splits sum.splits)

end
