(* ===== verification/Request_Budget.thy ===== *)
theory Request_Budget
  imports Live Tokenizer_Assets
begin

text \<open>
  \<^verbatim>\<open>tokenization/request.py\<close> with the request values of \<^verbatim>\<open>tokenization/types.py\<close>: one request is
  counted, assessed and assembled with a counter that caches by digest, and replayed as a whole
  with the byte counter when the tokenizer fails. The digest of a text is an argument.
\<close>

section \<open>Values\<close>

record request_budget_profile =
  bp_model_identity :: "string option"
  bp_context_limit :: int
  bp_context_limit_source :: context_limit_source
  bp_tokenizer_profile :: tokenizer_profile
  bp_target_input_budget :: int
  bp_hard_input_ceiling :: int
  bp_reserved_output_and_tools :: int
  bp_safety_margin :: int
  bp_compaction_start_ratio :: rat
  bp_provider_view_switch_ratio :: rat
  bp_stable_code :: string

definition valid_budget_profile :: "request_budget_profile \<Rightarrow> bool" where
  "valid_budget_profile p \<longleftrightarrow>
     bp_context_limit p \<ge> 1 \<and> bp_target_input_budget p \<ge> 1 \<and> bp_hard_input_ceiling p \<ge> 1 \<and>
     bp_reserved_output_and_tools p \<ge> 0 \<and> bp_safety_margin p \<ge> 0 \<and> bp_stable_code p \<noteq> [] \<and>
     0 < bp_compaction_start_ratio p \<and> bp_compaction_start_ratio p \<le> bp_provider_view_switch_ratio p \<and>
     bp_provider_view_switch_ratio p \<le> 1"

definition effective_input_budget :: "request_budget_profile \<Rightarrow> int" where
  "effective_input_budget p =
     min (bp_target_input_budget p)
       (min (bp_hard_input_ceiling p) (bp_context_limit p - bp_reserved_output_and_tools p))"

record host_budget_view =
  hv_all_host_texts :: "string list"
  hv_opaque_texts :: "string list"
  hv_fixed_required_texts :: "string list"

record prepared_budget_input =
  pb_current_input :: string
  pb_view :: request_view
  pb_candidates :: "candidate_block list"
  pb_trusted_token_usage :: "int option"

definition valid_prepared_input :: "prepared_budget_input \<Rightarrow> bool" where
  "valid_prepared_input p \<longleftrightarrow>
     list_all valid_block (pb_candidates p) \<and>
     (case pb_trusted_token_usage p of None \<Rightarrow> True | Some n \<Rightarrow> n \<ge> 0)"

record request_budget_workload =
  wl_prepared :: prepared_budget_input
  wl_host :: host_budget_view
  wl_profile :: request_budget_profile

record request_budget_outcome =
  ro_pressure :: pressure_decision
  ro_assembly :: "assembly_result option"
  ro_tokenizer_profile_id :: string
  ro_tokenizer_mode :: tokenizer_mode
  ro_fallback_code :: string
  ro_stable_code :: string
  ro_mutation_allowed :: bool
  ro_primary_result_discarded :: bool

datatype request_code =
  DUPLICATE_BLOCK_ID | BLOCK_ID_TEXT_CONFLICT | BLOCK_ID_INVALID | BLOCK_TEXT_INVALID | WORKLOAD_INVALID

text \<open>
  What a run can raise: an invariant failure of the request, any \<^verbatim>\<open>TokenizerError\<close>, a failure of
  the assembly, or the \<^verbatim>\<open>ValueError\<close> of a configuration.
\<close>

datatype request_error =
  Request_Invariant request_code | Tokenizer_Raised | Assembly_Raised budget_error | Config_Value_Error

section \<open>Request-scoped counter\<close>

text \<open>A counter as the host passes it: its profile attribute, if it has one, and its function.\<close>

record host_counter =
  hc_profile :: "tokenizer_profile option"
  hc_count :: token_counter

record scoped_counter =
  sc_counter :: token_counter
  sc_profile :: tokenizer_profile
  sc_cache :: "string \<times> string \<rightharpoonup> int"
  sc_block_fingerprints :: "string \<times> string \<rightharpoonup> string"
  sc_request_cache :: "string \<times> string \<rightharpoonup> int"
  sc_request_fingerprints :: "string \<times> string \<rightharpoonup> string"
  sc_text_cache :: "string \<times> string \<rightharpoonup> int"

definition scoped_init :: "host_counter \<Rightarrow> tokenizer_profile option \<Rightarrow> request_error + scoped_counter" where
  "scoped_init c profile =
     bind (guard (hc_profile c = None \<or> profile = None \<or> hc_profile c = profile) Tokenizer_Raised) (\<lambda>_.
     case (case hc_profile c of Some p \<Rightarrow> Some p | None \<Rightarrow> profile) of
       None \<Rightarrow> Inl Tokenizer_Raised
     | Some resolved \<Rightarrow> Inr \<lparr>sc_counter = hc_count c, sc_profile = resolved, sc_cache = Map.empty,
         sc_block_fingerprints = Map.empty, sc_request_cache = Map.empty, sc_request_fingerprints = Map.empty,
         sc_text_cache = Map.empty\<rparr>)"

definition count_uncached :: "token_counter \<Rightarrow> string \<Rightarrow> request_error + int" where
  "count_uncached counter body =
     (case counter body of
        Counted n \<Rightarrow> if n < 0 then Inl Tokenizer_Raised else Inr n
      | _ \<Rightarrow> Inl Tokenizer_Raised)"

definition count_block ::
  "(string \<Rightarrow> string) \<Rightarrow> string \<Rightarrow> string \<Rightarrow> scoped_counter \<Rightarrow> request_error + int \<times> scoped_counter" where
  "count_block digest block_id body sc =
     bind (guard (block_id \<noteq> []) (Request_Invariant BLOCK_ID_INVALID)) (\<lambda>_.
     let key = (block_id, tp_profile_id (sc_profile sc)); fingerprint = digest body in
     bind (guard (sc_block_fingerprints sc key = None \<or> sc_block_fingerprints sc key = Some fingerprint)
             (Request_Invariant BLOCK_ID_TEXT_CONFLICT)) (\<lambda>_.
     case sc_cache sc key of
       Some n \<Rightarrow> Inr (n, sc)
     | None \<Rightarrow>
         bind (count_uncached (sc_counter sc) body) (\<lambda>n.
         Inr (n, sc\<lparr>sc_block_fingerprints := (sc_block_fingerprints sc)(key \<mapsto> fingerprint),
                   sc_cache := (sc_cache sc)(key \<mapsto> n)\<rparr>))))"

definition scoped_count_text ::
  "(string \<Rightarrow> string) \<Rightarrow> string \<Rightarrow> scoped_counter \<Rightarrow> request_error + int \<times> scoped_counter" where
  "scoped_count_text digest body sc =
     (let key = (digest body, tp_profile_id (sc_profile sc)) in
      case sc_text_cache sc key of
        Some n \<Rightarrow> Inr (n, sc)
      | None \<Rightarrow>
          bind (count_uncached (sc_counter sc) body) (\<lambda>n.
          Inr (n, sc\<lparr>sc_text_cache := (sc_text_cache sc)(key \<mapsto> n)\<rparr>)))"

definition count_request_part ::
  "(string \<Rightarrow> string) \<Rightarrow> string \<Rightarrow> string \<Rightarrow> scoped_counter \<Rightarrow> request_error + int \<times> scoped_counter" where
  "count_request_part digest part_id body sc =
     (let key = (part_id, tp_profile_id (sc_profile sc)); fingerprint = digest body in
      bind (guard (sc_request_fingerprints sc key = None \<or> sc_request_fingerprints sc key = Some fingerprint)
              (Request_Invariant BLOCK_ID_TEXT_CONFLICT)) (\<lambda>_.
      case sc_request_cache sc key of
        Some n \<Rightarrow> Inr (n, sc)
      | None \<Rightarrow>
          bind (count_uncached (sc_counter sc) body) (\<lambda>n.
          Inr (n, sc\<lparr>sc_request_fingerprints := (sc_request_fingerprints sc)(key \<mapsto> fingerprint),
                    sc_request_cache := (sc_request_cache sc)(key \<mapsto> n)\<rparr>))))"

text \<open>The loop of \<^verbatim>\<open>_sum_texts\<close> from an index on.\<close>

fun sum_texts ::
  "(string \<Rightarrow> string) \<Rightarrow> string \<Rightarrow> nat \<Rightarrow> string list \<Rightarrow> scoped_counter \<Rightarrow> request_error + int \<times> scoped_counter" where
  "sum_texts digest namespace index [] sc = Inr (0, sc)"
| "sum_texts digest namespace index (body # bodies) sc =
     bind (count_request_part digest (namespace @ '':'' @ show_nat index) body sc) (\<lambda>(n, sc1).
     bind (sum_texts digest namespace (Suc index) bodies sc1) (\<lambda>(rest, sc2).
     Inr (n + rest, sc2)))"

fun count_all_blocks ::
  "(string \<Rightarrow> string) \<Rightarrow> candidate_block list \<Rightarrow> scoped_counter
   \<Rightarrow> request_error + (string \<times> int) list \<times> scoped_counter" where
  "count_all_blocks digest [] sc = Inr ([], sc)"
| "count_all_blocks digest (b # bs) sc =
     bind (count_block digest (cb_id b) (cb_text b) sc) (\<lambda>(n, sc1).
     bind (count_all_blocks digest bs sc1) (\<lambda>(counts, sc2).
     Inr ((cb_id b, n) # counts, sc2)))"

text \<open>
  The source hands the counter itself to the assembly, whose calls of \<^verbatim>\<open>count_text\<close> write the text
  cache as they go; \<open>scoped_count_text\<close> is that operation with its write. An assembly of this
  model takes a function of the text, so it is given the answers of the counter as it stands when
  the assembly starts. The two agree exactly as far as SHA-256 has no collision among the texts of
  the request: then the answer to a text is the same at every moment of every sequence of calls,
  whatever was counted and cached before, as \<^verbatim>\<open>Request_Laws\<close> proves over the writing operations.
\<close>

definition counter_view :: "(string \<Rightarrow> string) \<Rightarrow> scoped_counter \<Rightarrow> token_counter" where
  "counter_view digest sc body =
     (case scoped_count_text digest body sc of Inl e \<Rightarrow> Count_Raises_Tokenizer | Inr (n, sc') \<Rightarrow> Counted n)"

section \<open>One run\<close>

definition validate_workload :: "request_budget_workload \<Rightarrow> request_error + unit" where
  "validate_workload w = guard (distinct (map cb_id (pb_candidates (wl_prepared w)))) (Request_Invariant DUPLICATE_BLOCK_ID)"

text \<open>The type of an assembly runner; \<open>live_assemble\<close> is the default \<^verbatim>\<open>assemble\<close>.\<close>

type_synonym assembly_runner =
  "live_request \<Rightarrow> candidate_block list \<Rightarrow> (string \<times> int) list \<Rightarrow> budget_error + assembly_result"

definition outcome_of ::
  "scoped_counter \<Rightarrow> pressure_decision \<Rightarrow> assembly_result option \<Rightarrow> string \<Rightarrow> request_budget_outcome" where
  "outcome_of sc pressure assembly code =
     \<lparr>ro_pressure = pressure, ro_assembly = assembly, ro_tokenizer_profile_id = tp_profile_id (sc_profile sc),
      ro_tokenizer_mode = tp_mode (sc_profile sc), ro_fallback_code = ''NONE'', ro_stable_code = code,
      ro_mutation_allowed = (assembly \<noteq> None), ro_primary_result_discarded = False\<rparr>"

definition exhausted_pressure :: "request_budget_workload \<Rightarrow> pressure_decision" where
  "exhausted_pressure w =
     (let used = (case pb_trusted_token_usage (wl_prepared w) of Some n \<Rightarrow> if n > 0 then n else 0 | None \<Rightarrow> 0) in
      \<lparr>pd_used = used,
       pd_capacity = max 0 (bp_context_limit (wl_profile w) - bp_reserved_output_and_tools (wl_profile w)),
       pd_compact_at = 0, pd_project_at = 0, pd_should_compact = True, pd_should_project = True,
       pd_source = (if used > 0 then TRUSTED_PROVIDER_USAGE else CONSERVATIVE_ESTIMATE)\<rparr>)"

definition request_pressure_config :: "request_budget_workload \<Rightarrow> pressure_config" where
  "request_pressure_config w =
     \<lparr>pc_context_limit = bp_context_limit (wl_profile w), pc_reserved = bp_reserved_output_and_tools (wl_profile w),
      pc_compact_ratio = bp_compaction_start_ratio (wl_profile w),
      pc_project_ratio = bp_provider_view_switch_ratio (wl_profile w)\<rparr>"

definition request_budget_config :: "request_budget_workload \<Rightarrow> budget_config" where
  "request_budget_config w =
     \<lparr>target_input_budget = bp_target_input_budget (wl_profile w), hard_input_ceiling = bp_hard_input_ceiling (wl_profile w),
      model_context_limit = bp_context_limit (wl_profile w),
      reserved_output_and_tools = bp_reserved_output_and_tools (wl_profile w),
      safety_margin = bp_safety_margin (wl_profile w)\<rparr>"

definition assembly_arguments :: "request_budget_workload \<Rightarrow> int \<Rightarrow> int \<Rightarrow> token_counter \<Rightarrow> live_request" where
  "assembly_arguments w opaque fixed counter =
     \<lparr>lq_view = pb_view (wl_prepared w), lq_current_input = pb_current_input (wl_prepared w),
      lq_opaque_token_cost = opaque, lq_fixed_required_cost = fixed, lq_counter = counter,
      lq_budget = request_budget_config w\<rparr>"

text \<open>The part under \<^verbatim>\<open>if pressure.should_project\<close>.\<close>

definition project_request ::
  "(string \<Rightarrow> string) \<Rightarrow> assembly_runner \<Rightarrow> request_budget_workload \<Rightarrow> pressure_decision \<Rightarrow> int \<Rightarrow> int \<Rightarrow> scoped_counter
   \<Rightarrow> request_error + request_budget_outcome" where
  "project_request digest runner w pressure opaque fixed sc =
     (let candidates = pb_candidates (wl_prepared w) in
      bind (count_all_blocks digest candidates sc) (\<lambda>(counts, sc1).
      bind (guard (valid_budget_config (request_budget_config w)) Config_Value_Error) (\<lambda>_.
      case runner (assembly_arguments w opaque fixed (counter_view digest sc1)) candidates counts of
        Inl e \<Rightarrow>
          if e = TokenizerError then Inl Tokenizer_Raised
          else if e = REQUIRED_INPUT_EXCEEDS_BUDGET
          then Inr (outcome_of sc pressure None ''REQUIRED_INPUT_EXCEEDS_BUDGET'')
          else Inl (Assembly_Raised e)
      | Inr assembly \<Rightarrow>
          if \<not> set (map cb_id (filter cb_required candidates)) \<subseteq> set (map cb_id (ar_selected_blocks assembly))
          then Inr (outcome_of sc pressure None ''REQUIRED_INPUT_EXCEEDS_BUDGET'')
          else Inr (outcome_of sc pressure (Some assembly) (bp_stable_code (wl_profile w))))))"

definition run_request_once ::
  "(string \<Rightarrow> string) \<Rightarrow> (rat \<Rightarrow> rat) \<Rightarrow> assembly_runner \<Rightarrow> request_budget_workload \<Rightarrow> scoped_counter
   \<Rightarrow> request_error + request_budget_outcome" where
  "run_request_once digest fl runner w sc =
     (if effective_input_budget (wl_profile w) < 1
      then Inr (outcome_of sc (exhausted_pressure w) None ''CONTEXT_LIMIT_TOO_SMALL'')
      else
        bind (sum_texts digest ''host'' 0 (hv_all_host_texts (wl_host w)) sc) (\<lambda>(host_cost, sc1).
        bind (sum_texts digest ''opaque'' 0 (hv_opaque_texts (wl_host w)) sc1) (\<lambda>(opaque_cost, sc2).
        bind (sum_texts digest ''fixed'' 0 (hv_fixed_required_texts (wl_host w)) sc2) (\<lambda>(fixed_cost, sc3).
        bind (count_request_part digest ''current-input'' (pb_current_input (wl_prepared w)) sc3) (\<lambda>(current_cost, sc4).
        bind (guard (valid_pressure_config (request_pressure_config w)) Config_Value_Error) (\<lambda>_.
        bind (map_error (\<lambda>_. Config_Value_Error)
                (assess_pressure fl (pb_trusted_token_usage (wl_prepared w)) host_cost current_cost
                   (request_pressure_config w))) (\<lambda>pressure.
        if pd_should_project pressure then project_request digest runner w pressure opaque_cost fixed_cost sc4
        else Inr (outcome_of sc4 pressure None (bp_stable_code (wl_profile w))))))))))"

section \<open>The request\<close>

text \<open>Only a failing tokenizer leads to the replay.\<close>

definition tokenizer_failure :: "request_error \<Rightarrow> bool" where
  "tokenizer_failure e \<longleftrightarrow> e = Tokenizer_Raised \<or> e = Assembly_Raised TOKEN_COUNTER_FAILURE"

definition scoped_run ::
  "(string \<Rightarrow> string) \<Rightarrow> (rat \<Rightarrow> rat) \<Rightarrow> assembly_runner \<Rightarrow> request_budget_workload \<Rightarrow> host_counter \<Rightarrow> tokenizer_profile
   \<Rightarrow> request_error + request_budget_outcome" where
  "scoped_run digest fl runner w counter profile =
     bind (scoped_init counter (Some profile)) (\<lambda>sc. run_request_once digest fl runner w sc)"

definition run_request_budget ::
  "(string \<Rightarrow> string) \<Rightarrow> (rat \<Rightarrow> rat) \<Rightarrow> assembly_runner \<Rightarrow> request_budget_workload \<Rightarrow> host_counter \<Rightarrow> host_counter
   \<Rightarrow> request_error + request_budget_outcome" where
  "run_request_budget digest fl runner w primary fallback =
     bind (validate_workload w) (\<lambda>_.
     case scoped_run digest fl runner w primary (bp_tokenizer_profile (wl_profile w)) of
       Inr out \<Rightarrow> Inr out
     | Inl e \<Rightarrow>
         if \<not> tokenizer_failure e then Inl e
         else bind (scoped_run digest fl runner w fallback BYTE_FALLBACK) (\<lambda>out.
              Inr (out\<lparr>ro_fallback_code := ''TOKENIZER_BYTE_FALLBACK'', ro_primary_result_discarded := True\<rparr>)))"

text \<open>The runner of the request bridge, \<^verbatim>\<open>assemble_live_context\<close> in a fixed mode.\<close>

definition assemble_live_context ::
  "(rat \<Rightarrow> rat) \<Rightarrow> engine_mode \<Rightarrow> live_engine \<Rightarrow> live_request \<Rightarrow> candidate_block list \<Rightarrow> (string \<times> int) list option
   \<Rightarrow> budget_error + assembly_result \<times> live_context_trace" where
  "assemble_live_context fl mode engine q candidates counts =
     bind (select_live_context fl q candidates counts mode engine) (\<lambda>selected.
     Inr (lv_assembly selected, lv_trace selected))"

definition live_runner :: "(rat \<Rightarrow> rat) \<Rightarrow> engine_mode \<Rightarrow> live_engine \<Rightarrow> assembly_runner" where
  "live_runner fl mode engine q candidates counts =
     bind (assemble_live_context fl mode engine q candidates (Some counts)) (\<lambda>(assembly, trace). Inr assembly)"

end
