(* ===== verification/Live_Laws.thy ===== *)
theory Live_Laws
  imports Live Budget_Laws
begin

text \<open>
  The live selection is fail-open and sound: whatever the numerical engine answers, the result
  fits the budget and is either the deterministic assembly or exactly the dependency closure of
  what the engine selected; and no answer of the engine makes the selection fail.
\<close>

section \<open>Budget\<close>

definition fits :: "live_request \<Rightarrow> assembly_result \<Rightarrow> bool" where
  "fits q res \<longleftrightarrow> (\<exists>current. count_text (lq_counter q) (lq_current_input q) = Inr current \<and>
     ar_projected_text res = projection_text (ar_selected_blocks res) \<and>
     count_text (lq_counter q) (ar_projected_text res) = Inr (at_ac_selected_cost (ar_trace res)) \<and>
     at_total_input_cost (ar_trace res) = lq_opaque_token_cost q + current + lq_fixed_required_cost q +
       safety_margin (lq_budget q) + at_ac_selected_cost (ar_trace res) \<and>
     at_total_input_cost (ar_trace res) \<le> target_input_budget (lq_budget q) \<and>
     at_total_input_cost (ar_trace res) \<le> hard_input_ceiling (lq_budget q) \<and>
     at_total_input_cost (ar_trace res) + reserved_output_and_tools (lq_budget q) \<le> model_context_limit (lq_budget q))"

lemma live_assemble_fits: "live_assemble q blocks counts = Inr res \<Longrightarrow> fits q res"
  unfolding live_assemble_def fits_def by (drule assemble_fits) blast

lemma live_assemble_ids:
  assumes "live_assemble q blocks counts = Inr res"
  shows "set (ar_selected_blocks res) \<subseteq> set blocks"
    and "cb_id ` {b \<in> set (canonical_candidates blocks). cb_required b} \<subseteq> cb_id ` set (ar_selected_blocks res)"
proof -
  from assemble_good[OF assms[unfolded live_assemble_def]]
  have g: "good_selection (canonical_candidates blocks) (ar_selected_blocks res)" by simp
  have "set (canonical_candidates blocks) \<subseteq> set blocks"
    using deduplicate_facts(3)[of blocks] by (metis canonical_candidates_def fst_conv surj_pair)
  with g show "set (ar_selected_blocks res) \<subseteq> set blocks" by (auto simp: good_selection_def)
  from g show "cb_id ` {b \<in> set (canonical_candidates blocks). cb_required b} \<subseteq> cb_id ` set (ar_selected_blocks res)"
    by (auto simp: good_selection_def)
qed

section \<open>Packing\<close>

text \<open>A block as it is packed: only its score and its reason may have changed.\<close>

definition packed_from :: "candidate_block \<Rightarrow> candidate_block \<Rightarrow> bool" where
  "packed_from k b \<longleftrightarrow> b = k\<lparr>cb_score := cb_score b, cb_reason := cb_reason b\<rparr>"

lemma packed_from_id: "packed_from k b \<Longrightarrow> cb_id b = cb_id k"
  unfolding packed_from_def by (metis candidate_block.simps(1) candidate_block.update_convs(6,7) candidate_block.surjective)

lemma score_block_packed: "score_block fl scores counts k = Inr b \<Longrightarrow> packed_from k b"
  by (auto simp: score_block_def packed_from_def Let_def result_simps split: if_splits option.splits)

lemma score_for_pack_packed:
  assumes "score_for_pack fl blocks scores counts = Inr scored"
  shows "list_all2 packed_from blocks scored"
  using assms by (auto simp: score_for_pack_def traverse_eq_Inr_iff intro: list_all2_mono score_block_packed)

lemma packed_ids: "list_all2 packed_from ks bs \<Longrightarrow> map cb_id bs = map cb_id ks"
  by (induction rule: list_all2_induct) (auto dest: packed_from_id)

text \<open>What an accepted answer of the engine is replaced by.\<close>

definition live_closure :: "candidate_block list \<Rightarrow> engine_result \<Rightarrow> string set" where
  "live_closure m r = closure_ids m (cb_id ` set (er_selected r) \<union> cb_id ` {b \<in> set m. cb_required b})"

lemma final_pack_sound:
  assumes pack: "final_pack fl q m counts c a r = Inr final"
  shows "cb_id ` set (ar_selected_blocks final) = live_closure m r" and "fits q final"
    and "\<forall>b \<in> set (ar_selected_blocks final). \<exists>k \<in> set m. packed_from k b \<and> set (cb_sources k) \<subseteq> set (qa_provenance a)"
    and "int (card (live_closure m r)) \<le> gc_max_coordinates c"
proof -
  from pack obtain closure scored where
    cl: "close_dependency_closure (er_selected r) m (gc_max_coordinates c) = Inr closure"
    and prov: "\<forall>b \<in> set closure. set (cb_sources b) \<subseteq> set (qa_provenance a)"
    and sc: "score_for_pack fl closure (verified_scores r a) counts = Inr scored"
    and asm: "live_assemble q scored counts = Inr final"
    and gate: "final_gate m closure (gc_max_coordinates c) final"
    by (auto simp: final_pack_def result_simps)
  from cl have pre: "1 \<le> gc_max_coordinates c" "distinct (map cb_id m)" "cb_id ` set (er_selected r) \<subseteq> cb_id ` set m"
    by (auto simp: close_dependency_closure_def result_simps)
  have "Inr closure = (if int (card (live_closure m r)) \<le> gc_max_coordinates c
      then Inr (filter (\<lambda>b. cb_id b \<in> live_closure m r) m) else Inl DEPENDENCY_CLOSURE_CAPACITY_EXCEEDED)"
    unfolding cl[symmetric] by (rule closure_is_least[OF pre live_closure_def])
  then have eq: "closure = filter (\<lambda>b. cb_id b \<in> live_closure m r) m"
    and card: "int (card (live_closure m r)) \<le> gc_max_coordinates c" by (auto split: if_splits)
  show "int (card (live_closure m r)) \<le> gc_max_coordinates c" by (rule card)
  have "live_closure m r \<subseteq> cb_id ` set m" unfolding live_closure_def by (rule closure_ids_finite(1))
  then have ids: "cb_id ` set closure = live_closure m r" unfolding eq by auto
  note packed = score_for_pack_packed[OF sc]
  have "cb_id ` set (ar_selected_blocks final) \<subseteq> cb_id ` set closure"
    using live_assemble_ids(1)[OF asm] packed_ids[OF packed] by (metis image_mono image_set)
  moreover have "cb_id ` set closure \<subseteq> cb_id ` set (ar_selected_blocks final)"
    using gate by (simp add: final_gate_def Let_def)
  ultimately show "cb_id ` set (ar_selected_blocks final) = live_closure m r" unfolding ids[symmetric] by (rule subset_antisym)
  show "fits q final" by (rule live_assemble_fits[OF asm])
  have "\<exists>k \<in> set closure. packed_from k b" if "b \<in> set scored" for b
    using packed that by (metis in_set_conv_nth list_all2_conv_all_nth)
  moreover have "set closure \<subseteq> set m" unfolding eq by simp
  ultimately show "\<forall>b \<in> set (ar_selected_blocks final). \<exists>k \<in> set m. packed_from k b \<and> set (cb_sources k) \<subseteq> set (qa_provenance a)"
    using live_assemble_ids(1)[OF asm] prov by (meson subsetD)
qed

lemma final_pack_selected: "final_pack fl q m counts c a r = Inr final \<Longrightarrow> cb_id ` set (er_selected r) \<subseteq> cb_id ` set m"
  by (auto simp: final_pack_def close_dependency_closure_def result_simps)

lemma map_error_eq_Inl: "map_error f r = Inl e \<longleftrightarrow> (\<exists>x. r = Inl x \<and> e = f x)"
  by (auto simp: map_error_def split: sum.splits)

text \<open>Only the counter can end the packing with an error that escapes.\<close>

lemma assemble_tokenizer_error:
  assumes "live_assemble q blocks counts = Inl TokenizerError"
  shows "\<exists>t. lq_counter q t = Count_Raises_Tokenizer"
proof -
  from assemble_external[OF assms[unfolded live_assemble_def]] obtain t where "count_text (lq_counter q) t = Inl TokenizerError"
    by (auto simp: external_failure_def)
  then show ?thesis by (auto simp: count_text_def split: count_outcome.splits if_splits)
qed

lemma final_pack_escapes:
  assumes "final_pack fl q m counts c a r = Inl Live_Tokenizer_Error"
  shows "\<exists>t. lq_counter q t = Count_Raises_Tokenizer"
proof -
  have "score_for_pack fl closure scores counts \<noteq> Inl Live_Tokenizer_Error" for closure scores
    by (auto simp: score_for_pack_def score_block_def Let_def bind_eq_Inl guard_eq_Inl dest!: traverse_eq_Inl
        split: if_splits option.splits)
  with assms show ?thesis
    by (auto simp: final_pack_def result_simps map_error_eq_Inl split: if_splits intro: assemble_tokenizer_error)
qed

section \<open>Selection\<close>

text \<open>The token counts a selection works with.\<close>

definition resolved_counts ::
  "live_request \<Rightarrow> candidate_block list \<Rightarrow> (string \<times> int) list option \<Rightarrow> budget_error + (string \<times> int) list" where
  "resolved_counts q candidates provided =
     (case provided of None \<Rightarrow> count_candidate_blocks (canonical_candidates candidates) (lq_counter q) | Some p \<Rightarrow> Inr p)"

definition fallback_of ::
  "live_request \<Rightarrow> candidate_block list \<Rightarrow> (string \<times> int) list option \<Rightarrow> budget_error + assembly_result" where
  "fallback_of q candidates provided =
     bind (resolved_counts q candidates provided) (live_assemble q (canonical_candidates candidates))"

text \<open>Every way a selection ends once the deterministic assembly is there.\<close>

lemma select_live_context_cases:
  assumes fb: "fallback_of q candidates provided = Inr fb"
  obtains (fallback) t where "select_live_context fl q candidates provided mode engine = Inr \<lparr>lv_assembly = fb, lv_trace = t\<rparr>"
      "lt_outcome t \<noteq> ENGINE_ACTIVE"
  | (packed) g a r counts final t where "select_live_context fl q candidates provided mode engine = Inr \<lparr>lv_assembly = final, lv_trace = t\<rparr>"
      "lt_outcome t = ENGINE_ACTIVE" "mode = MODE_ACTIVE" "engine_accepted r"
      "build_context_graph fl (lq_view q) (canonical_candidates candidates) (lq_current_input q) (engine_config fl engine) = Inr (g, a)"
      "snd (solve_with_retry engine mode g a) = Some r"
      "final_pack fl q (canonical_candidates candidates) counts (engine_config fl engine) a r = Inr final"
  | (escaped) counts a r where "select_live_context fl q candidates provided mode engine = Inl TokenizerError"
      "final_pack fl q (canonical_candidates candidates) counts (engine_config fl engine) a r = Inl Live_Tokenizer_Error"
proof -
  let ?m = "canonical_candidates candidates" and ?sel = "select_live_context fl q candidates provided mode engine"
  let ?c = "engine_config fl engine"
  from fb obtain counts where counts: "resolved_counts q candidates provided = Inr counts" and asm: "live_assemble q ?m counts = Inr fb"
    by (auto simp: fallback_of_def result_simps)
  note def = select_live_context_def[of fl q candidates provided mode engine, unfolded Let_def resolved_counts_def[symmetric],
      unfolded counts bind.simps asm]
  have out: "lt_outcome (live_trace fl md o' fb ?m b r f e n) = o'" for md o' b r f e n by (simp add: live_trace_def Let_def)
  show thesis
  proof (cases "(\<exists>b \<in> set ?m. \<not> cb_selection_complete b) \<or> \<not> required_candidates_complete (lq_view q) ?m (satisfied_event_ids q) \<or>
      mode = MODE_OFF \<or> (\<exists>e. build_context_graph fl (lq_view q) ?m (lq_current_input q) ?c = Inl e)")
    case True
    then have "\<exists>t. ?sel = Inr \<lparr>lv_assembly = fb, lv_trace = t\<rparr> \<and> lt_outcome t \<noteq> ENGINE_ACTIVE"
      by (auto simp: def out split: sum.split)
    with fallback show ?thesis by blast
  next
    case no: False
    then obtain g a where built: "build_context_graph fl (lq_view q) ?m (lq_current_input q) ?c = Inr (g, a)" "mode \<noteq> MODE_OFF"
      by (cases "build_context_graph fl (lq_view q) ?m (lq_current_input q) ?c") auto
    have on: "?sel = (case solve_with_retry engine mode g a of
          (retries, None) \<Rightarrow> Inr \<lparr>lv_assembly = fb, lv_trace = live_trace fl mode DEGRADED_RAW fb ?m (Some (g, a)) None None
            (Some ''LIVE_ENGINE_FAILURE'') retries\<rparr>
        | (retries, Some r) \<Rightarrow> replace_fallback fl q ?m counts mode ?c fb (g, a) retries r)"
      unfolding def using no built by simp
    obtain n x where solve: "solve_with_retry engine mode g a = (n, x)" by (rule prod.exhaust)
    show ?thesis
    proof (cases x)
      case None
      with on solve out fallback show ?thesis by simp
    next
      case (Some r)
      with on solve have sel: "?sel = replace_fallback fl q ?m counts mode ?c fb (g, a) n r" by simp
      show ?thesis
      proof (cases "mode = MODE_SHADOW \<or> \<not> engine_accepted r")
        case True
        then have "\<exists>t. ?sel = Inr \<lparr>lv_assembly = fb, lv_trace = t\<rparr> \<and> lt_outcome t \<noteq> ENGINE_ACTIVE"
          unfolding sel by (auto simp: replace_fallback_def Let_def out)
        with fallback show ?thesis by blast
      next
        case False
        with built(2) have active: "mode = MODE_ACTIVE" by (cases mode) auto
        show ?thesis
        proof (cases "final_pack fl q ?m counts ?c a r")
          case (Inl e)
          show ?thesis
          proof (cases e)
            case Live_Rejected
            with Inl False have "\<exists>t. ?sel = Inr \<lparr>lv_assembly = fb, lv_trace = t\<rparr> \<and> lt_outcome t \<noteq> ENGINE_ACTIVE"
              by (simp add: sel replace_fallback_def out)
            with fallback show ?thesis by blast
          next
            case Live_Tokenizer_Error
            with Inl False have "?sel = Inl TokenizerError" by (simp add: sel replace_fallback_def)
            with escaped Inl Live_Tokenizer_Error show ?thesis by blast
          qed
        next
          case (Inr final)
          with False have "\<exists>t. ?sel = Inr \<lparr>lv_assembly = final, lv_trace = t\<rparr> \<and> lt_outcome t = ENGINE_ACTIVE"
            by (simp add: sel replace_fallback_def out)
          with packed active False built(1) solve Some Inr show ?thesis by auto
        qed
      qed
    qed
  qed
qed

lemma select_live_context_fallback:
  "fallback_of q candidates provided = Inl e \<Longrightarrow> select_live_context fl q candidates provided mode engine = Inl e"
  by (auto simp: select_live_context_def fallback_of_def resolved_counts_def Let_def bind_eq_Inl)

lemma live_result_sound:
  assumes sel: "select_live_context fl q candidates provided mode engine = Inr out"
  shows "fits q (lv_assembly out) \<and>
    (lt_outcome (lv_trace out) \<noteq> ENGINE_ACTIVE \<longrightarrow> fallback_of q candidates provided = Inr (lv_assembly out)) \<and>
    (lt_outcome (lv_trace out) = ENGINE_ACTIVE \<longrightarrow>
      (\<exists>g a r. mode = MODE_ACTIVE \<and> engine_accepted r \<and> snd (solve_with_retry engine mode g a) = Some r \<and>
         build_context_graph fl (lq_view q) (canonical_candidates candidates) (lq_current_input q) (engine_config fl engine) = Inr (g, a) \<and>
         cb_id ` set (ar_selected_blocks (lv_assembly out)) = live_closure (canonical_candidates candidates) r \<and>
         int (card (live_closure (canonical_candidates candidates) r)) \<le> gc_max_coordinates (engine_config fl engine) \<and>
         (\<forall>b \<in> set (ar_selected_blocks (lv_assembly out)). \<exists>k \<in> set (canonical_candidates candidates).
            packed_from k b \<and> set (cb_sources k) \<subseteq> set (qa_provenance a))))"
proof (cases "fallback_of q candidates provided")
  case (Inl e)
  from select_live_context_fallback[OF this] sel show ?thesis by simp
next
  case (Inr fb)
  then have fits: "fits q fb" by (auto simp: fallback_of_def result_simps dest: live_assemble_fits)
  from Inr show ?thesis
  proof (cases rule: select_live_context_cases[where fl = fl and mode = mode and engine = engine])
    case (fallback t)
    with sel fits Inr show ?thesis by auto
  next
    case (packed g a r counts final t)
    from packed(1) sel have out: "out = \<lparr>lv_assembly = final, lv_trace = t\<rparr>" by simp
    from final_pack_sound[OF packed(7)] packed(2-6) show ?thesis unfolding out by auto
  next
    case (escaped counts a r)
    with sel show ?thesis by simp
  qed
qed

text \<open>
  C38. The live selection is sound for every engine: its result fits the request budget; unless the
  trace says that the engine was followed it is the deterministic assembly; and where the
  engine was followed, in active mode with a passed certificate only, the selected blocks are
  exactly the least companion-closed set over what the engine selected and the required
  blocks, bounded by the configured size, each a candidate with at most its score changed,
  and traceable to the provenance of the graph.
\<close>

theorem live_selection_sound:
  assumes sel: "select_live_context fl q candidates provided mode engine = Inr out"
  shows "fits q (lv_assembly out) \<and>
    (lt_outcome (lv_trace out) \<noteq> ENGINE_ACTIVE \<longrightarrow> fallback_of q candidates provided = Inr (lv_assembly out)) \<and>
    (lt_outcome (lv_trace out) = ENGINE_ACTIVE \<longrightarrow>
      (\<exists>g a r. mode = MODE_ACTIVE \<and> engine_accepted r \<and> snd (solve_with_retry engine mode g a) = Some r \<and>
         build_context_graph fl (lq_view q) (canonical_candidates candidates) (lq_current_input q) (engine_config fl engine) = Inr (g, a) \<and>
         cb_id ` set (ar_selected_blocks (lv_assembly out)) = live_closure (canonical_candidates candidates) r \<and>
         int (card (live_closure (canonical_candidates candidates) r)) \<le> gc_max_coordinates (engine_config fl engine) \<and>
         (\<forall>b \<in> set (ar_selected_blocks (lv_assembly out)). \<exists>k \<in> set (canonical_candidates candidates).
            packed_from k b \<and> set (cb_sources k) \<subseteq> set (qa_provenance a))))"
  using assms by (rule live_result_sound)

text \<open>What the callers of a live selection rely on.\<close>

lemma canonical_distinct:
  assumes "distinct (map cb_id cs)"
  shows "set (canonical_candidates cs) = set cs"
proof -
  obtain us ds where d: "deduplicate cs = (us, ds)" by (rule prod.exhaust)
  note f = deduplicate_facts[OF d]
  have "b \<in> set us" if b: "b \<in> set cs" for b
  proof -
    from f(2) b obtain u where "u \<in> set us" "cb_id u = cb_id b" by (metis image_iff)
    with f(3) b assms show ?thesis by (metis distinct_map inj_onD subsetD)
  qed
  with f(3) show ?thesis using d by (auto simp: canonical_candidates_def)
qed

lemma live_result_required:
  assumes sel: "select_live_context fl q candidates provided mode engine = Inr out"
  shows "cb_id ` {b \<in> set (canonical_candidates candidates). cb_required b} \<subseteq> cb_id ` set (ar_selected_blocks (lv_assembly out))"
proof (cases "fallback_of q candidates provided")
  case (Inl e)
  from select_live_context_fallback[OF this] sel show ?thesis by simp
next
  case (Inr fb)
  let ?m = "canonical_candidates candidates"
  from Inr obtain counts where asm: "live_assemble q ?m counts = Inr fb" by (auto simp: fallback_of_def result_simps)
  obtain us ds where d: "deduplicate candidates = (us, ds)" by (rule prod.exhaust)
  then have m: "distinct (map cb_id ?m)" using deduplicate_facts(1)[OF d] by (simp add: canonical_candidates_def)
  from Inr show ?thesis
  proof (cases rule: select_live_context_cases[where fl = fl and mode = mode and engine = engine])
    case (fallback t)
    with sel have "lv_assembly out = fb" by auto
    with live_assemble_ids(2)[OF asm] canonical_distinct[OF m] show ?thesis by simp
  next
    case (packed g a r counts final t)
    from packed(1) sel have out: "lv_assembly out = final" by auto
    have "cb_id ` {b \<in> set ?m. cb_required b} \<subseteq> live_closure ?m r"
      unfolding live_closure_def using final_pack_selected[OF packed(7)] by (intro subset_trans[OF _ closure_ids_base]) auto
    then show ?thesis unfolding out final_pack_sound(1)[OF packed(7)] .
  next
    case (escaped counts a r)
    with sel show ?thesis by simp
  qed
qed

lemma live_result_fits: "select_live_context fl q candidates provided mode engine = Inr out \<Longrightarrow> fits q (lv_assembly out)"
  by (drule live_result_sound) blast

lemma live_result_fails:
  assumes sel: "select_live_context fl q candidates (Some counts) mode engine = Inl e"
  shows "external_failure (lq_opaque_token_cost q) (lq_fixed_required_cost q) (lq_counter q) candidates (Some counts) e"
proof (cases "fallback_of q candidates (Some counts)")
  case (Inl x)
  then have "live_assemble q (canonical_candidates candidates) counts = Inl x"
    by (simp add: fallback_of_def resolved_counts_def)
  from assemble_external[OF this[unfolded live_assemble_def]] select_live_context_fallback[OF Inl, of fl mode engine] sel
  have "external_failure (lq_opaque_token_cost q) (lq_fixed_required_cost q) (lq_counter q) (canonical_candidates candidates) (Some counts) e"
    by simp
  moreover have "set (canonical_candidates candidates) \<subseteq> set candidates"
    using deduplicate_facts(3)[of candidates] by (metis canonical_candidates_def fst_conv surj_pair)
  ultimately show ?thesis by (rule external_failure_mono)
next
  case (Inr fb)
  then show ?thesis
  proof (cases rule: select_live_context_cases[where fl = fl and mode = mode and engine = engine])
    case (escaped counts' a r)
    from final_pack_escapes[OF escaped(2)] obtain t where "lq_counter q t = Count_Raises_Tokenizer" by blast
    then have "count_text (lq_counter q) t = Inl TokenizerError" by (simp add: count_text_def)
    with escaped(1) sel show ?thesis by (auto simp: external_failure_def)
  qed (use sel in simp_all)
qed

text \<open>
  The live selection is fail-open: where the deterministic assembly succeeds and the counter
  raises no tokenizer error, the selection returns, whatever the engine answers and whether it
  answers at all.
\<close>

theorem live_selection_fail_open:
  assumes fb: "fallback_of q candidates provided = Inr fb" and counter: "\<forall>t. lq_counter q t \<noteq> Count_Raises_Tokenizer"
  shows "\<exists>out. select_live_context fl q candidates provided mode engine = Inr out"
  using fb by (cases rule: select_live_context_cases[where fl = fl and mode = mode and engine = engine])
    (use counter final_pack_escapes in blast)+

end
