(* ===== verification/Request_Properties.thy ===== *)
theory Request_Properties
  imports Request_Laws
begin

text \<open>
  The contract of an assembly runner as a locale, the client's properties of a request proved
  once over it, and its interpretations on the deterministic assembly and on the live selection.
\<close>

section \<open>Plain counting\<close>

lemma count_uncached_eq_Inl: "count_uncached counter t = Inl e \<Longrightarrow> e = Tokenizer_Raised"
  by (auto simp: count_uncached_def split: count_outcome.splits if_splits)

lemma count_uncached_nonneg: "count_uncached counter t = Inr n \<Longrightarrow> 0 \<le> n"
  by (auto simp: count_uncached_def split: count_outcome.splits if_splits)

lemma plain_counter_text: "count_text (plain_counter counter) t = map_error (\<lambda>_. TokenizerError) (count_uncached counter t)"
  by (auto simp: count_text_def plain_counter_def map_error_def dest: count_uncached_nonneg split: sum.splits)

lemma plain_sum_eq_Inr:
  assumes "plain_sum counter bodies = Inr n"
  shows "0 \<le> n"
proof -
  from assms obtain ns where "list_all2 (\<lambda>t m. count_uncached counter t = Inr m) bodies ns" "n = sum_list ns"
    by (auto simp: plain_sum_def result_simps traverse_eq_Inr_iff)
  then show ?thesis
    by (induction bodies ns arbitrary: n rule: list_all2_induct) (auto dest: count_uncached_nonneg)
qed

text \<open>The failures of counting: some text makes the counter fail.\<close>

definition uncountable :: "token_counter \<Rightarrow> bool" where
  "uncountable counter \<longleftrightarrow> (\<exists>t. count_uncached counter t = Inl Tokenizer_Raised)"

lemma count_uncached_failure: "count_uncached counter t = Inl e \<Longrightarrow> e = Tokenizer_Raised \<and> uncountable counter"
  unfolding uncountable_def using count_uncached_eq_Inl by blast

lemma plain_sum_failure: "plain_sum counter bodies = Inl e \<Longrightarrow> e = Tokenizer_Raised \<and> uncountable counter"
  by (auto simp: plain_sum_def bind_eq_Inl dest!: traverse_eq_Inl count_uncached_failure)

lemma plain_counts_failure: "plain_counts counter bs = Inl e \<Longrightarrow> e = Tokenizer_Raised \<and> uncountable counter"
  by (auto simp: plain_counts_def bind_eq_Inl dest!: traverse_eq_Inl count_uncached_failure)

lemma plain_counts_total:
  assumes "plain_counts counter bs = Inr counts" "b \<in> set bs"
  shows "\<exists>n. map_of counts (cb_id b) = Some n \<and> 0 \<le> n"
proof -
  from assms(1)[unfolded plain_counts_def traverse_eq_Inr_iff] have rel: "list_all2 (\<lambda>b c. fst c = cb_id b \<and> 0 \<le> snd c) bs counts"
    by (rule list_all2_mono) (auto simp: result_simps dest: count_uncached_nonneg)
  then have "\<forall>c \<in> set counts. 0 \<le> snd c" by (induction rule: list_all2_induct) simp_all
  moreover from rel assms(2) have "cb_id b \<in> fst ` set counts" by (induction rule: list_all2_induct) auto
  then obtain n where "map_of counts (cb_id b) = Some n" by (metis map_of_eq_None_iff not_None_eq)
  ultimately show ?thesis by (force dest: map_of_SomeD)
qed

section \<open>Contract of a runner\<close>

definition sound_outcome :: "request_budget_workload \<Rightarrow> token_counter \<Rightarrow> request_budget_outcome \<Rightarrow> bool" where
  "sound_outcome w counter out \<longleftrightarrow>
     (ro_mutation_allowed out \<longleftrightarrow> ro_assembly out \<noteq> None) \<and>
     (\<forall>res. ro_assembly out = Some res \<longrightarrow>
        pd_should_project (ro_pressure out) \<and>
        (\<exists>opaque fixed. plain_sum counter (hv_opaque_texts (wl_host w)) = Inr opaque \<and>
           plain_sum counter (hv_fixed_required_texts (wl_host w)) = Inr fixed \<and>
           fits (assembly_arguments w opaque fixed (plain_counter counter)) res) \<and>
        cb_id ` {b \<in> set (pb_candidates (wl_prepared w)). cb_required b} \<subseteq> cb_id ` set (ar_selected_blocks res))"

lemma sound_outcome_replayed:
  "sound_outcome w counter (out\<lparr>ro_fallback_code := code, ro_primary_result_discarded := b\<rparr>) = sound_outcome w counter out"
  by (simp add: sound_outcome_def)

locale assembly_port =
  fixes runner :: assembly_runner
  assumes runner_fits: "runner q cs counts = Inr res \<Longrightarrow> fits q res"
    and runner_required: "runner q cs counts = Inr res \<Longrightarrow> distinct (map cb_id cs) \<Longrightarrow>
      cb_id ` {b \<in> set cs. cb_required b} \<subseteq> cb_id ` set (ar_selected_blocks res)"
    and runner_fails: "runner q cs counts = Inl e \<Longrightarrow>
      external_failure (lq_opaque_token_cost q) (lq_fixed_required_cost q) (lq_counter q) cs (Some counts) e"
begin

text \<open>The branch for an assembly without a required block is dead, and only the counter fails.\<close>

lemma project_cases:
  assumes ids: "distinct (map cb_id (pb_candidates (wl_prepared w)))" and config: "valid_budget_config (request_budget_config w)"
    and costs: "0 \<le> opaque" "0 \<le> fixed"
  obtains (assembled) res where
      "plain_project runner w pressure opaque fixed counter profile =
         Inr (plain_outcome profile pressure (Some res) (bp_stable_code (wl_profile w)))"
      "fits (assembly_arguments w opaque fixed (plain_counter counter)) res"
      "cb_id ` {b \<in> set (pb_candidates (wl_prepared w)). cb_required b} \<subseteq> cb_id ` set (ar_selected_blocks res)"
  | (too_large) "plain_project runner w pressure opaque fixed counter profile =
      Inr (plain_outcome profile pressure None ''REQUIRED_INPUT_EXCEEDS_BUDGET'')"
  | (failed) "plain_project runner w pressure opaque fixed counter profile = Inl Tokenizer_Raised" "uncountable counter"
proof (cases "plain_counts counter (pb_candidates (wl_prepared w))")
  case (Inl e)
  with plain_counts_failure[OF this] failed show ?thesis by (simp add: plain_project_def)
next
  case (Inr counts)
  let ?q = "assembly_arguments w opaque fixed (plain_counter counter)" and ?cs = "pb_candidates (wl_prepared w)"
  show ?thesis
  proof (cases "runner ?q ?cs counts")
    case (Inr res)
    note req = runner_required[OF Inr ids]
    then have "set (map cb_id (filter cb_required ?cs)) \<subseteq> set (map cb_id (ar_selected_blocks res))" by auto
    with Inr \<open>plain_counts counter ?cs = Inr counts\<close> config
    have "plain_project runner w pressure opaque fixed counter profile =
        Inr (plain_outcome profile pressure (Some res) (bp_stable_code (wl_profile w)))"
      by (simp add: plain_project_def)
    with assembled runner_fits[OF Inr] req show ?thesis by blast
  next
    case (Inl e)
    have "\<not> (\<exists>c \<in> set ?cs. \<forall>n. map_of counts (cb_id c) = Some n \<longrightarrow> n < 0)"
      using plain_counts_total[OF \<open>plain_counts counter ?cs = Inr counts\<close>] by fastforce
    with runner_fails[OF Inl] costs consider "e = REQUIRED_INPUT_EXCEEDS_BUDGET"
      | t where "count_text (plain_counter counter) t = Inl e"
      unfolding external_failure_def by (auto simp: assembly_arguments_def)
    then show ?thesis
    proof cases
      case 1
      with Inl \<open>plain_counts counter ?cs = Inr counts\<close> config too_large show ?thesis by (simp add: plain_project_def)
    next
      case 2
      then obtain x where "e = TokenizerError" "count_uncached counter t = Inl x"
        by (auto simp: plain_counter_text map_error_def split: sum.splits)
      with Inl \<open>plain_counts counter ?cs = Inr counts\<close> config failed count_uncached_failure[of counter t x] show ?thesis
        by (simp add: plain_project_def)
    qed
  qed
qed

text \<open>A request that is valid: what the constructors of its parts check, and distinct candidates.\<close>

lemma configs_valid:
  assumes "valid_budget_profile (wl_profile w)" "\<not> effective_input_budget (wl_profile w) < 1"
  shows "valid_pressure_config (request_pressure_config w)" "valid_budget_config (request_budget_config w)"
  using assms
  by (auto simp: valid_budget_profile_def effective_input_budget_def valid_pressure_config_def request_pressure_config_def
      valid_budget_config_def request_budget_config_def)

lemma assess_total:
  assumes "valid_prepared_input (wl_prepared w)" "0 \<le> host_cost" "0 \<le> current_cost"
  shows "\<exists>d. assess_pressure fl (pb_trusted_token_usage (wl_prepared w)) host_cost current_cost c = Inr d"
  using assms by (auto simp: assess_pressure_def optional_usage_def usage_def valid_prepared_input_def split: option.splits prod.split)

lemma run_cases:
  assumes ids: "distinct (map cb_id (pb_candidates (wl_prepared w)))" and profile: "valid_budget_profile (wl_profile w)"
    and prepared: "valid_prepared_input (wl_prepared w)"
  obtains (refused) pressure code where "plain_run fl runner w counter profile = Inr (plain_outcome profile pressure None code)"
  | (assembled) opaque fixed pressure res where
      "plain_run fl runner w counter profile =
         Inr (plain_outcome profile pressure (Some res) (bp_stable_code (wl_profile w)))"
      "pd_should_project pressure"
      "plain_sum counter (hv_opaque_texts (wl_host w)) = Inr opaque"
      "plain_sum counter (hv_fixed_required_texts (wl_host w)) = Inr fixed"
      "fits (assembly_arguments w opaque fixed (plain_counter counter)) res"
      "cb_id ` {b \<in> set (pb_candidates (wl_prepared w)). cb_required b} \<subseteq> cb_id ` set (ar_selected_blocks res)"
  | (failed) "plain_run fl runner w counter profile = Inl Tokenizer_Raised" "uncountable counter"
proof (cases "effective_input_budget (wl_profile w) < 1")
  case True
  with refused show ?thesis by (simp add: plain_run_def)
next
  case False
  note valid = configs_valid[OF profile False]
  let ?sum = "plain_sum counter" and ?h = "wl_host w" and ?input = "pb_current_input (wl_prepared w)"
  show ?thesis
  proof (cases "\<exists>a b c d. ?sum (hv_all_host_texts ?h) = Inr a \<and> ?sum (hv_opaque_texts ?h) = Inr b \<and>
      ?sum (hv_fixed_required_texts ?h) = Inr c \<and> count_uncached counter ?input = Inr d")
    case True
    then obtain a b c d where s: "?sum (hv_all_host_texts ?h) = Inr a" "?sum (hv_opaque_texts ?h) = Inr b"
      "?sum (hv_fixed_required_texts ?h) = Inr c" "count_uncached counter ?input = Inr d" by blast
    from assess_total[OF prepared plain_sum_eq_Inr[OF s(1)] count_uncached_nonneg[OF s(4)]] obtain pressure where
      p: "assess_pressure fl (pb_trusted_token_usage (wl_prepared w)) a d (request_pressure_config w) = Inr pressure" by blast
    have run: "plain_run fl runner w counter profile =
        (if pd_should_project pressure then plain_project runner w pressure b c counter profile
         else Inr (plain_outcome profile pressure None (bp_stable_code (wl_profile w))))"
      using False valid(1) s p by (simp add: plain_run_def map_error_def)
    show ?thesis
    proof (cases "pd_should_project pressure")
      case False
      with run refused show ?thesis by simp
    next
      case project: True
      from ids valid(2) plain_sum_eq_Inr[OF s(2)] plain_sum_eq_Inr[OF s(3)] show ?thesis
      proof (cases rule: project_cases[where pressure = pressure and counter = counter and profile = profile])
        case (assembled res)
        with project run that(2)[of pressure res b c] s show ?thesis by simp
      next
        case too_large
        with project run refused show ?thesis by simp
      next
        case failed
        with project run that(3) show ?thesis by simp
      qed
    qed
  next
    case no: False
    then have "plain_run fl runner w counter profile = Inl Tokenizer_Raised \<and> uncountable counter"
      using False
      by (cases "?sum (hv_all_host_texts ?h)"; cases "?sum (hv_opaque_texts ?h)"; cases "?sum (hv_fixed_required_texts ?h)";
          cases "count_uncached counter ?input") (auto simp: plain_run_def dest: plain_sum_failure count_uncached_failure)
    with failed show ?thesis by blast
  qed
qed

text \<open>The whole request, with its replay.\<close>

lemma request_cases:
  assumes profile: "valid_budget_profile (wl_profile w)" and prepared: "valid_prepared_input (wl_prepared w)"
    and ids: "distinct (map cb_id (pb_candidates (wl_prepared w)))"
    and bytes: "\<not> uncountable (hc_count fallback)" "hc_profile fallback \<in> {None, Some BYTE_FALLBACK}"
  obtains (primary) out where "run_request_budget digest fl runner w primary fallback = Inr out"
      "plain_run fl runner w (hc_count primary) (bp_tokenizer_profile (wl_profile w)) = Inr out"
  | (replayed) out where "run_request_budget digest fl runner w primary fallback =
        Inr (out\<lparr>ro_fallback_code := ''TOKENIZER_BYTE_FALLBACK'', ro_primary_result_discarded := True\<rparr>)"
      "plain_run fl runner w (hc_count fallback) BYTE_FALLBACK = Inr out"
      "uncountable (hc_count primary) \<or> hc_profile primary \<notin> {None, Some (bp_tokenizer_profile (wl_profile w))}"
proof -
  let ?p = "bp_tokenizer_profile (wl_profile w)"
  have ne: "\<forall>b \<in> set (pb_candidates (wl_prepared w)). cb_id b \<noteq> []"
    using prepared by (auto simp: valid_prepared_input_def list_all_iff valid_block_def)
  note plain = request_run_plain[OF ids ne]
  have byte_run: "\<exists>out. plain_run fl runner w (hc_count fallback) BYTE_FALLBACK = Inr out"
    using ids profile prepared
    by (cases rule: run_cases[where counter = "hc_count fallback" and profile = BYTE_FALLBACK and fl = fl]) (use bytes(1) in auto)
  then obtain out where out: "plain_run fl runner w (hc_count fallback) BYTE_FALLBACK = Inr out" by blast
  have run: "run_request_budget digest fl runner w primary fallback =
      (case scoped_run digest fl runner w primary ?p of Inr x \<Rightarrow> Inr x
       | Inl e \<Rightarrow> if \<not> tokenizer_failure e then Inl e else
           Inr (out\<lparr>ro_fallback_code := ''TOKENIZER_BYTE_FALLBACK'', ro_primary_result_discarded := True\<rparr>))"
    using ids bytes(2) out by (auto simp: run_request_budget_def validate_workload_def plain split: sum.split)
  show thesis
  proof (cases "scoped_run digest fl runner w primary ?p")
    case (Inr x)
    with plain[of digest fl runner primary ?p] have "plain_run fl runner w (hc_count primary) ?p = Inr x" by (auto split: if_splits)
    moreover from Inr run have "run_request_budget digest fl runner w primary fallback = Inr x" by simp
    ultimately show ?thesis using that(1) by blast
  next
    case (Inl e)
    have "e = Tokenizer_Raised \<and> (uncountable (hc_count primary) \<or> hc_profile primary \<notin> {None, Some ?p})"
    proof (cases "hc_profile primary \<in> {None, Some ?p}")
      case True
      with Inl plain[of digest fl runner primary ?p] have "plain_run fl runner w (hc_count primary) ?p = Inl e" by auto
      with ids profile prepared show ?thesis
        by (cases rule: run_cases[where counter = "hc_count primary" and profile = ?p and fl = fl]) simp_all
    next
      case False
      with Inl plain[of digest fl runner primary ?p] show ?thesis by auto
    qed
    with Inl run out that(2) show ?thesis by (simp add: tokenizer_failure_def)
  qed
qed

text \<open>What an outcome promises about the assembly it carries, under the counter that made it.\<close>

lemma outcome_sound:
  assumes "valid_budget_profile (wl_profile w)" "valid_prepared_input (wl_prepared w)"
    and "distinct (map cb_id (pb_candidates (wl_prepared w)))" and run: "plain_run fl runner w counter profile = Inr out"
  shows "sound_outcome w counter out" "ro_tokenizer_profile_id out = tp_profile_id profile" "ro_fallback_code out = ''NONE''"
    "\<not> ro_primary_result_discarded out"
  using assms(3,1,2)
  by (cases rule: run_cases[where counter = counter and profile = profile and fl = fl];
      use run in \<open>auto simp: plain_outcome_def sound_outcome_def\<close>)+

end

section \<open>Runners of the program\<close>

interpretation default_runner: assembly_port live_assemble
proof
  fix q cs counts res e
  show "fits q res" if "live_assemble q cs counts = Inr res" using that by (rule live_assemble_fits)
  show "cb_id ` {b \<in> set cs. cb_required b} \<subseteq> cb_id ` set (ar_selected_blocks res)"
    if "live_assemble q cs counts = Inr res" "distinct (map cb_id cs)"
    using live_assemble_ids(2)[OF that(1)] canonical_distinct[OF that(2)] by simp
  show "external_failure (lq_opaque_token_cost q) (lq_fixed_required_cost q) (lq_counter q) cs (Some counts) e"
    if "live_assemble q cs counts = Inl e" using assemble_external that by (simp add: live_assemble_def)
qed

interpretation bridge: assembly_port "live_runner fl mode engine" for fl mode engine
proof
  fix q cs counts res e
  have runner: "live_runner fl mode engine q cs counts = bind (select_live_context fl q cs (Some counts) mode engine) (\<lambda>s. Inr (lv_assembly s))"
    by (simp add: live_runner_def assemble_live_context_def bind_assoc)
  show "fits q res" if "live_runner fl mode engine q cs counts = Inr res"
    using that unfolding runner by (auto simp: result_simps dest: live_result_fits)
  show "cb_id ` {b \<in> set cs. cb_required b} \<subseteq> cb_id ` set (ar_selected_blocks res)"
    if "live_runner fl mode engine q cs counts = Inr res" "distinct (map cb_id cs)"
  proof -
    from that(1) obtain sel where "select_live_context fl q cs (Some counts) mode engine = Inr sel" "res = lv_assembly sel"
      unfolding runner by (auto simp: result_simps)
    with live_result_required[of fl q cs "Some counts" mode engine sel] canonical_distinct[OF that(2)] show ?thesis by simp
  qed
  show "external_failure (lq_opaque_token_cost q) (lq_fixed_required_cost q) (lq_counter q) cs (Some counts) e"
    if "live_runner fl mode engine q cs counts = Inl e"
    using that unfolding runner by (auto simp: bind_eq_Inl intro: live_result_fails)
qed

section \<open>Properties\<close>

text \<open>
  C35. A request may only be rewritten with an assembly that fits: with the bridge of the program
  and a byte counter that counts every text, an outcome allows a mutation exactly when it
  carries an assembly; pressure then demanded the projection, the assembly contains every
  required candidate, and its text with every other cost, counted by the counter the outcome
  names, stays within target, ceiling and context limit. The primary result is discarded only
  when its tokenizer failed, and then nothing of it is left.
\<close>

theorem request_budget_sound:
  assumes "valid_budget_profile (wl_profile w)" "valid_prepared_input (wl_prepared w)"
    and "distinct (map cb_id (pb_candidates (wl_prepared w)))"
    and "\<not> uncountable (hc_count fallback)" "hc_profile fallback \<in> {None, Some BYTE_FALLBACK}"
    and run: "run_request_budget digest fl (live_runner fl mode engine) w primary fallback = Inr out"
  shows "if ro_primary_result_discarded out
    then sound_outcome w (hc_count fallback) out \<and> ro_tokenizer_profile_id out = tp_profile_id BYTE_FALLBACK \<and>
      ro_fallback_code out = ''TOKENIZER_BYTE_FALLBACK'' \<and>
      (uncountable (hc_count primary) \<or> hc_profile primary \<notin> {None, Some (bp_tokenizer_profile (wl_profile w))})
    else sound_outcome w (hc_count primary) out \<and> ro_fallback_code out = ''NONE'' \<and>
      ro_tokenizer_profile_id out = tp_profile_id (bp_tokenizer_profile (wl_profile w))"
  using assms(1-5)
proof (cases rule: bridge.request_cases[where digest = digest and fl = fl and fla = fl and mode = mode and engine = engine and primary = primary])
  case (primary x)
  from run primary(1) have "out = x" by simp
  with bridge.outcome_sound[OF assms(1-3) primary(2)] show ?thesis by simp
next
  case (replayed x)
  from run replayed(1) have out: "out = x\<lparr>ro_fallback_code := ''TOKENIZER_BYTE_FALLBACK'', ro_primary_result_discarded := True\<rparr>" by simp
  from bridge.outcome_sound[OF assms(1-3) replayed(2)] replayed(3) show ?thesis unfolding out by (simp add: sound_outcome_replayed)
qed


end
