(* ===== verification/Live_Witnesses.thy ===== *)
theory Live_Witnesses
  imports Live_Laws Budget_Witnesses
begin

text \<open>
  The live selection on the blocks of Budget_Witnesses: an engine that selects one optional
  entity, so that its dependency and the required goal join it, and an engine that raises.
\<close>

definition demo_request :: live_request where
  "demo_request = \<lparr>lq_view = demo_view, lq_current_input = ''hi'', lq_opaque_token_cost = 1, lq_fixed_required_cost = 1,
     lq_counter = utf8_byte_counter, lq_budget = demo_budget 20\<rparr>"

definition demo_graph_config :: graph_config where
  "demo_graph_config =
     \<lparr>gc_epsilon = 1, gc_selection_threshold = 0, gc_direct_limit = 1, gc_iterative_limit = 1, gc_condition_warning = 1,
      gc_condition_failure = 2, gc_max_coordinates = 9, gc_max_relations = 9, gc_max_relation_entries = 9,
      gc_max_constraints = 9, gc_python_max_n = 9, gc_python_max_nnz = 9, gc_numpy_max_n = 9, gc_numpy_max_dense_bytes = 9,
      gc_sparse_max_n = 9, gc_sparse_max_nnz = 9, gc_max_iterations = 9, gc_allow_least_squares = False,
      gc_prefer_sparse = False\<rparr>"

definition picking_engine :: "(context_graph \<Rightarrow> candidate_block list) \<Rightarrow> live_engine" where
  "picking_engine pick = \<lparr>le_config = Some demo_graph_config, le_solve = (\<lambda>mode g a. Some \<lparr>er_outcome = ENGINE_ACTIVE, er_selected = pick g,
     er_scores = qa_scores a,
     er_certificate = Some \<lparr>ec_stationarity = 0, ec_constraint = 0, ec_reconstruction = 0,
       ec_required_blocks_passed = True, ec_provenance_passed = True, ec_passed = True\<rparr>,
     er_error_code = None, er_solve_status = None, er_backend_name = None\<rparr>)\<rparr>"

definition demo_live :: "live_engine \<Rightarrow> budget_error + live_selection" where
  "demo_live engine = select_live_context (\<lambda>x. x) demo_request budget_blocks None MODE_ACTIVE engine"

lemma demo_live_required_only:
  "case demo_live (picking_engine (\<lambda>g. [])) of Inl e \<Rightarrow> False
   | Inr out \<Rightarrow> lt_outcome (lv_trace out) = ENGINE_ACTIVE \<and> map cb_id (ar_selected_blocks (lv_assembly out)) = [''g'']"
  by code_simp

lemma demo_fallback:
  "case fallback_of demo_request budget_blocks None of Inl e \<Rightarrow> False
   | Inr res \<Rightarrow> map cb_id (ar_selected_blocks res) = [''g'', ''x'', ''z'']"
  by code_simp

theorem live_selection_sound_witness:
  "\<exists>out r. demo_live (picking_engine (\<lambda>g. [])) = Inr out \<and> fits demo_request (lv_assembly out) \<and> engine_accepted r \<and>
     {''g''} = live_closure (canonical_candidates budget_blocks) r"
proof -
  from demo_live_required_only obtain out where out: "demo_live (picking_engine (\<lambda>g. [])) = Inr out"
    "lt_outcome (lv_trace out) = ENGINE_ACTIVE" "map cb_id (ar_selected_blocks (lv_assembly out)) = [''g'']"
    by (auto split: sum.splits)
  have "cb_id ` set (ar_selected_blocks (lv_assembly out)) = {''g''}" using arg_cong[OF out(3), of set] by simp
  with live_selection_sound[OF out(1)[unfolded demo_live_def]] out(1,2) show ?thesis by metis
qed

definition raising_engine :: live_engine where
  "raising_engine = \<lparr>le_config = None, le_solve = (\<lambda>mode g a. None)\<rparr>"

theorem live_selection_fail_open_witness:
  "(\<exists>res. fallback_of demo_request budget_blocks None = Inr res \<and> length (ar_selected_blocks res) = 3) \<and>
   (\<exists>out. demo_live raising_engine = Inr out)"
proof -
  from demo_fallback obtain res where res: "fallback_of demo_request budget_blocks None = Inr res"
    "map cb_id (ar_selected_blocks res) = [''g'', ''x'', ''z'']" by (auto split: sum.splits)
  from arg_cong[OF res(2), of length] have "length (ar_selected_blocks res) = 3" by simp
  moreover have "\<forall>t. lq_counter demo_request t \<noteq> Count_Raises_Tokenizer"
    by (simp add: demo_request_def utf8_byte_counter_def)
  from live_selection_fail_open[OF res(1) this] have "\<exists>out. demo_live raising_engine = Inr out"
    unfolding demo_live_def by blast
  ultimately show ?thesis using res(1) by blast
qed

end
