(* ===== verification/Request_Witnesses.thy ===== *)
theory Request_Witnesses
  imports Request_Properties Live_Witnesses
begin

text \<open>
  A request over the blocks of Budget_Witnesses under full pressure: a primary counter that
  raises, so that the request is replayed with the byte counter, and a primary counter that
  counts.
\<close>

definition demo_profile :: request_budget_profile where
  "demo_profile = \<lparr>bp_model_identity = None, bp_context_limit = 60, bp_context_limit_source = MANUAL,
     bp_tokenizer_profile = OPENAI_O200K, bp_target_input_budget = 20, bp_hard_input_ceiling = 50,
     bp_reserved_output_and_tools = 5, bp_safety_margin = 1, bp_compaction_start_ratio = 3 / 4,
     bp_provider_view_switch_ratio = 4 / 5, bp_stable_code = ''NONE''\<rparr>"

definition demo_workload :: request_budget_workload where
  "demo_workload =
     \<lparr>wl_prepared = \<lparr>pb_current_input = ''hi'', pb_view = demo_view, pb_candidates = take 3 budget_blocks,
        pb_trusted_token_usage = Some 50\<rparr>,
      wl_host = \<lparr>hv_all_host_texts = [''a'', ''b''], hv_opaque_texts = [''a''], hv_fixed_required_texts = [''b'']\<rparr>,
      wl_profile = demo_profile\<rparr>"

definition byte_counter :: host_counter where
  "byte_counter = \<lparr>hc_profile = Some BYTE_FALLBACK, hc_count = utf8_byte_counter\<rparr>"

definition broken_counter :: host_counter where
  "broken_counter = \<lparr>hc_profile = None, hc_count = (\<lambda>body. if body = ''z'' then Count_Raises else Counted 1)\<rparr>"

definition demo_run :: "host_counter \<Rightarrow> request_error + request_budget_outcome" where
  "demo_run primary = run_request_budget (\<lambda>s. s) (\<lambda>x. x) (live_runner (\<lambda>x. x) MODE_ACTIVE (picking_engine (\<lambda>g. []))) demo_workload
     primary byte_counter"

lemma demo_request_valid:
  "valid_budget_profile (wl_profile demo_workload)" "valid_prepared_input (wl_prepared demo_workload)"
  "distinct (map cb_id (pb_candidates (wl_prepared demo_workload)))"
  by code_simp+

lemma byte_counter_total: "\<not> uncountable (hc_count byte_counter)" "hc_profile byte_counter \<in> {None, Some BYTE_FALLBACK}"
  by (auto simp: uncountable_def byte_counter_def count_uncached_def utf8_byte_counter_def)

lemma demo_replayed:
  "case demo_run broken_counter of Inl e \<Rightarrow> False
   | Inr out \<Rightarrow> ro_primary_result_discarded out \<and>
       (case ro_assembly out of None \<Rightarrow> False | Some res \<Rightarrow> map cb_id (ar_selected_blocks res) = [''g''])"
  by code_simp

theorem request_budget_sound_witness:
  "\<exists>out res. demo_run broken_counter = Inr out \<and> ro_assembly out = Some res \<and> ro_mutation_allowed out \<and>
     ro_tokenizer_profile_id out = ''utf8-byte-v1'' \<and> at_total_input_cost (ar_trace res) \<le> 20"
proof -
  from demo_replayed obtain out res where out: "demo_run broken_counter = Inr out" "ro_primary_result_discarded out"
    "ro_assembly out = Some res" by (auto split: sum.splits option.splits)
  from request_budget_sound[OF demo_request_valid byte_counter_total out(1)[unfolded demo_run_def]] out(2)
  have sound: "sound_outcome demo_workload (hc_count byte_counter) out" "ro_tokenizer_profile_id out = tp_profile_id BYTE_FALLBACK" by simp_all
  from sound(1) out(3) obtain opaque fixed where
    "fits (assembly_arguments demo_workload opaque fixed (plain_counter (hc_count byte_counter))) res" "ro_mutation_allowed out"
    unfolding sound_outcome_def by blast
  then have "at_total_input_cost (ar_trace res) \<le> 20" "ro_mutation_allowed out"
    by (auto simp: fits_def assembly_arguments_def request_budget_config_def demo_workload_def demo_profile_def)
  with out sound(2) show ?thesis by (auto simp: BYTE_FALLBACK_def)
qed


text \<open>
  Repeated texts, a text that fails to count, a block counted twice and then with another text,
  and a part of the same name; the digest is the text itself.
\<close>

definition picky_counter :: host_counter where
  "picky_counter = \<lparr>hc_profile = None, hc_count = (\<lambda>t. if t = ''bad'' then Count_Raises_Tokenizer else Counted (int (length t)))\<rparr>"

definition demo_calls :: "counter_call list" where
  "demo_calls = [Call_Text ''ab'', Call_Text ''bad'', Call_Block ''x'' ''abc'', Call_Text ''ab'', Call_Block ''x'' ''abc'',
     Call_Block ''x'' ''ab'', Call_Part ''x'' ''ab'', Call_Block [] ''ab'']"


end
