(* ===== verification/Sparse_Matrix.thy ===== *)
theory Sparse_Matrix
  imports Graph_Build "HOL-Library.Product_Lexorder"
begin

text \<open>
  \<^verbatim>\<open>context_graph/matrix.py\<close>: compressed sparse rows. A float is the rational it stands for; the
  argument \<open>rnd\<close> gives the float next to an exact result, or nothing where the result is not
  finite. A sum that has become infinite never becomes finite again, so an operation that
  checks at its end fails as soon as one step is not finite.
\<close>

section \<open>Matrices\<close>

record csr_matrix =
  cm_rows :: nat
  cm_columns :: nat
  cm_indptr :: "nat list"
  cm_indices :: "nat list"
  cm_data :: "rat list"

datatype matrix_error = MATRIX_VALUE_ERROR

type_synonym rounding = "rat \<Rightarrow> rat option"

definition valid_csr :: "csr_matrix \<Rightarrow> bool" where
  "valid_csr m \<longleftrightarrow>
     length (cm_indptr m) = cm_rows m + 1 \<and> hd (cm_indptr m) = 0 \<and> sorted (cm_indptr m) \<and>
     last (cm_indptr m) = length (cm_indices m) \<and> length (cm_indices m) = length (cm_data m) \<and>
     (\<forall>row < cm_rows m.
        let here = map (nth (cm_indices m)) [cm_indptr m ! row ..< cm_indptr m ! Suc row] in
        (\<forall>i \<in> set here. i < cm_columns m) \<and> sorted_wrt (<) here)"

definition csr_zeros :: "int \<Rightarrow> int \<Rightarrow> matrix_error + csr_matrix" where
  "csr_zeros rows columns =
     bind (guard (rows \<ge> 0 \<and> columns \<ge> 0) MATRIX_VALUE_ERROR) (\<lambda>_.
     Inr \<lparr>cm_rows = nat rows, cm_columns = nat columns, cm_indptr = replicate (nat rows + 1) 0, cm_indices = [], cm_data = []\<rparr>)"

text \<open>The dictionary of accumulated values, in the order its keys were first set.\<close>

type_synonym accumulated = "((nat \<times> nat) \<times> rat) list"

definition accumulate ::
  "rounding \<Rightarrow> int \<Rightarrow> int \<Rightarrow> accumulated \<Rightarrow> int \<times> int \<times> rat \<Rightarrow> matrix_error + accumulated" where
  "accumulate rnd rows columns acc entry =
     (case entry of (row, column, value) \<Rightarrow>
        bind (guard (0 \<le> row \<and> row < rows \<and> 0 \<le> column \<and> column < columns) MATRIX_VALUE_ERROR) (\<lambda>_.
        let key = (nat row, nat column) in
        case rnd ((case map_of acc key of None \<Rightarrow> 0 | Some v \<Rightarrow> v) + value) of
          None \<Rightarrow> Inl MATRIX_VALUE_ERROR
        | Some combined \<Rightarrow>
            Inr (if key \<in> fst ` set acc then map (\<lambda>(k, v). if k = key then (k, combined) else (k, v)) acc
                 else acc @ [(key, combined)])))"

definition ordered_entries :: "accumulated \<Rightarrow> (nat \<times> nat \<times> rat) list" where
  "ordered_entries acc = sort (map (\<lambda>((r, c), v). (r, c, v)) (filter (\<lambda>(k, v). v \<noteq> 0) acc))"

text \<open>The loop over the rows with its cursor: the end of each row, and the entries taken.\<close>

fun fill_rows :: "nat list \<Rightarrow> (nat \<times> nat \<times> rat) list \<Rightarrow> nat \<Rightarrow> nat list \<times> (nat \<times> rat) list" where
  "fill_rows [] es n = ([], [])"
| "fill_rows (row # rest) es n =
     (let here = takeWhile (\<lambda>e. fst e = row) es; n' = n + length here;
          (ends, taken) = fill_rows rest (dropWhile (\<lambda>e. fst e = row) es) n' in
      (n' # ends, map snd here @ taken))"

definition csr_of_ordered :: "nat \<Rightarrow> nat \<Rightarrow> (nat \<times> nat \<times> rat) list \<Rightarrow> csr_matrix" where
  "csr_of_ordered rows columns es =
     (let (ends, taken) = fill_rows [0 ..< rows] es 0 in
      \<lparr>cm_rows = rows, cm_columns = columns, cm_indptr = 0 # ends, cm_indices = map fst taken, cm_data = map snd taken\<rparr>)"

definition from_entries :: "rounding \<Rightarrow> int \<Rightarrow> int \<Rightarrow> (int \<times> int \<times> rat) list \<Rightarrow> matrix_error + csr_matrix" where
  "from_entries rnd rows columns entries =
     bind (guard (rows \<ge> 0 \<and> columns \<ge> 0) MATRIX_VALUE_ERROR) (\<lambda>_.
     bind (foldM (accumulate rnd rows columns) [] entries) (\<lambda>acc.
     let m = csr_of_ordered (nat rows) (nat columns) (ordered_entries acc) in
     bind (guard (valid_csr m) MATRIX_VALUE_ERROR) (\<lambda>_. Inr m)))"

definition from_dense :: "rounding \<Rightarrow> rat list list \<Rightarrow> matrix_error + csr_matrix" where
  "from_dense rnd rows =
     (let columns = (case rows of [] \<Rightarrow> 0 | r # rs \<Rightarrow> length r) in
      bind (guard (\<forall>r \<in> set rows. length r = columns) MATRIX_VALUE_ERROR) (\<lambda>_.
      from_entries rnd (int (length rows)) (int columns)
        (concat (map (\<lambda>i. concat (map (\<lambda>j. if rows ! i ! j \<noteq> 0 then [(int i, int j, rows ! i ! j)] else [])
           [0 ..< columns])) [0 ..< length rows]))))"

definition iter_row :: "csr_matrix \<Rightarrow> nat \<Rightarrow> (nat \<times> nat \<times> rat) list" where
  "iter_row m row = map (\<lambda>k. (row, cm_indices m ! k, cm_data m ! k)) [cm_indptr m ! row ..< cm_indptr m ! Suc row]"

definition iter_entries :: "csr_matrix \<Rightarrow> (nat \<times> nat \<times> rat) list" where
  "iter_entries m = concat (map (iter_row m) [0 ..< cm_rows m])"

text \<open>A finite float product and sum.\<close>

definition add_product :: "rounding \<Rightarrow> rat \<Rightarrow> rat \<Rightarrow> rat \<Rightarrow> rat option" where
  "add_product rnd acc x y = Option.bind (rnd (x * y)) (\<lambda>p. rnd (acc + p))"

fun row_product :: "rounding \<Rightarrow> rat list \<Rightarrow> rat \<Rightarrow> (nat \<times> nat \<times> rat) list \<Rightarrow> rat option" where
  "row_product rnd xs acc [] = Some acc"
| "row_product rnd xs acc ((r, c, v) # es) = Option.bind (add_product rnd acc v (xs ! c)) (\<lambda>acc'. row_product rnd xs acc' es)"

definition matvec :: "rounding \<Rightarrow> csr_matrix \<Rightarrow> rat list \<Rightarrow> matrix_error + rat list" where
  "matvec rnd m xs =
     bind (guard (length xs = cm_columns m) MATRIX_VALUE_ERROR) (\<lambda>_.
     traverse (\<lambda>row. option_or (row_product rnd xs 0 (iter_row m row)) MATRIX_VALUE_ERROR) [0 ..< cm_rows m])"

fun scatter :: "rounding \<Rightarrow> rat list \<Rightarrow> (nat \<times> nat \<times> rat) list \<Rightarrow> rat list \<Rightarrow> rat list option" where
  "scatter rnd xs [] res = Some res"
| "scatter rnd xs ((r, c, v) # es) res =
     Option.bind (add_product rnd (res ! c) v (xs ! r)) (\<lambda>y. scatter rnd xs es (res[c := y]))"

definition transpose_matvec :: "rounding \<Rightarrow> csr_matrix \<Rightarrow> rat list \<Rightarrow> matrix_error + rat list" where
  "transpose_matvec rnd m xs =
     bind (guard (length xs = cm_rows m) MATRIX_VALUE_ERROR) (\<lambda>_.
     option_or (scatter rnd xs (iter_entries m) (replicate (cm_columns m) 0)) MATRIX_VALUE_ERROR)"

definition position :: "int list \<Rightarrow> nat \<Rightarrow> int option" where
  "position ks k = map_of (zip ks (map int [0 ..< length ks])) (int k)"

definition submatrix :: "rounding \<Rightarrow> csr_matrix \<Rightarrow> int list \<Rightarrow> int list \<Rightarrow> matrix_error + csr_matrix" where
  "submatrix rnd m rows columns =
     bind (guard (distinct rows \<and> distinct columns) MATRIX_VALUE_ERROR) (\<lambda>_.
     bind (guard (\<forall>r \<in> set rows. 0 \<le> r \<and> r < int (cm_rows m)) MATRIX_VALUE_ERROR) (\<lambda>_.
     bind (guard (\<forall>c \<in> set columns. 0 \<le> c \<and> c < int (cm_columns m)) MATRIX_VALUE_ERROR) (\<lambda>_.
     from_entries rnd (int (length rows)) (int (length columns))
       (concat (map (\<lambda>(r, c, v). case (position rows r, position columns c) of
            (Some r', Some c') \<Rightarrow> [(r', c', v)] | _ \<Rightarrow> []) (iter_entries m))))))"

definition set_entry :: "nat \<times> nat \<times> rat \<Rightarrow> rat list list \<Rightarrow> rat list list" where
  "set_entry e dense = (case e of (r, c, v) \<Rightarrow> dense[r := (dense ! r)[c := v]])"

definition to_dense :: "csr_matrix \<Rightarrow> int \<Rightarrow> int \<Rightarrow> matrix_error + rat list list" where
  "to_dense m max_n max_bytes =
     bind (guard (max_n > 0 \<and> max_bytes > 0) MATRIX_VALUE_ERROR) (\<lambda>_.
     bind (guard (int (max (cm_rows m) (cm_columns m)) \<le> max_n \<and> int (cm_rows m * cm_columns m * 8) \<le> max_bytes)
             MATRIX_VALUE_ERROR) (\<lambda>_.
     Inr (fold set_entry (iter_entries m) (replicate (cm_rows m) (replicate (cm_columns m) 0)))))"

section \<open>Propagation operator\<close>

text \<open>The products of a relation are floats before they are accumulated.\<close>

definition relation_entries ::
  "rounding \<Rightarrow> (string \<Rightarrow> int option) \<Rightarrow> sparse_relation \<Rightarrow> matrix_error + (int \<times> int \<times> rat) list" where
  "relation_entries rnd index r =
     traverse (\<lambda>((li, lq), (ri, rq)).
       case (index li, index ri, Option.bind (rnd (re_weight r * lq)) (\<lambda>x. rnd (x * rq))) of
         (Some i, Some j, Some v) \<Rightarrow> Inr (i, j, v)
       | _ \<Rightarrow> Inl MATRIX_VALUE_ERROR)
     (List.product (re_terms r) (re_terms r))"

definition build_propagation_operator :: "rounding \<Rightarrow> context_graph \<Rightarrow> rat \<Rightarrow> matrix_error + csr_matrix" where
  "build_propagation_operator rnd g epsilon =
     bind (guard (epsilon > 0) MATRIX_VALUE_ERROR) (\<lambda>_.
     let n = length (gr_coordinates g);
         index = map_of (zip (map co_id (gr_coordinates g)) (map int [0 ..< n])) in
     bind (traverse (\<lambda>i. case rnd (co_diagonal (gr_coordinates g ! i) + epsilon) of
             None \<Rightarrow> Inl MATRIX_VALUE_ERROR | Some d \<Rightarrow> Inr (int i, int i, d)) [0 ..< n]) (\<lambda>diagonal.
     bind (traverse (relation_entries rnd index) (gr_relations g)) (\<lambda>related.
     from_entries rnd (int n) (int n) (diagonal @ concat related))))"

end
