(* ===== verification/Constraints.thy ===== *)
theory Constraints
  imports Sparse_Matrix
begin

text \<open>
  \<^verbatim>\<open>context_graph/constraints.py\<close>: the compilation of fixing and equality rows into a system
  without redundant rows, by a disjoint-set forest with path compression, and the KKT system of
  \<^verbatim>\<open>context_graph/solver.py\<close>. The forest is the dictionary of parents.
\<close>

section \<open>Values\<close>

datatype constraint_error =
  UNSUPPORTED_CONSTRAINT | CONTRADICTORY_CONSTRAINT | UNKNOWN_COORDINATE | INVALID_COORDINATES
| Constraint_Matrix_Error | Find_Failed

record compiled_constraints =
  kc_coordinate_ids :: "string list"
  kc_matrix :: csr_matrix
  kc_rhs :: "rat list"
  kc_certificate_matrix :: csr_matrix
  kc_certificate_rhs :: "rat list"
  kc_supports :: "(string \<times> string list) list"

definition valid_compiled :: "compiled_constraints \<Rightarrow> bool" where
  "valid_compiled c \<longleftrightarrow>
     distinct (kc_coordinate_ids c) \<and> cm_columns (kc_matrix c) = length (kc_coordinate_ids c) \<and>
     cm_rows (kc_matrix c) = length (kc_rhs c) \<and>
     cm_columns (kc_certificate_matrix c) = length (kc_coordinate_ids c) \<and>
     cm_rows (kc_certificate_matrix c) = length (kc_certificate_rhs c) \<and>
     length (kc_supports c) = cm_rows (kc_certificate_matrix c)"

definition support_coordinate_ids :: "compiled_constraints \<Rightarrow> string list" where
  "support_coordinate_ids c = filter (\<lambda>i. \<exists>(k, ids) \<in> set (kc_supports c). i \<in> set ids) (kc_coordinate_ids c)"

section \<open>Disjoint sets\<close>

type_synonym forest = "string \<rightharpoonup> string"

definition forest_init :: "string list \<Rightarrow> forest" where
  "forest_init vs = map_of (map (\<lambda>v. (v, v)) vs)"

text \<open>\<^verbatim>\<open>find\<close> compresses the path it walks; a key that is missing or a cycle gives no result.\<close>

partial_function (option) uf_find :: "forest \<Rightarrow> string \<Rightarrow> (string \<times> forest) option" where
  "uf_find p v =
     (case p v of
        None \<Rightarrow> None
      | Some parent \<Rightarrow>
          if parent = v then Some (v, p)
          else Option.bind (uf_find p parent) (\<lambda>(r, p'). Some (r, p'(v \<mapsto> r))))"

declare uf_find.simps [code]

definition uf_union :: "forest \<Rightarrow> string \<Rightarrow> string \<Rightarrow> forest option" where
  "uf_union p left right =
     Option.bind (uf_find p left) (\<lambda>(left_root, p1).
     Option.bind (uf_find p1 right) (\<lambda>(right_root, p2).
     Some (if left_root \<noteq> right_root then p2(right_root \<mapsto> left_root) else p2)))"

section \<open>Compilation\<close>

datatype classified = Fix string rat | Equality string string

definition classify_constraint :: "constraint_row \<Rightarrow> constraint_error + classified" where
  "classify_constraint row =
     (case cn_terms row of
        [(i, q)] \<Rightarrow>
          if q = 1 \<and> (cn_rhs row = 0 \<or> cn_rhs row = 1) then Inr (Fix i (cn_rhs row)) else Inl UNSUPPORTED_CONSTRAINT
      | [(i, q), (j, r)] \<Rightarrow>
          if cn_rhs row = 0 \<and> (q = -1 \<or> q = 1) \<and> r = - q then Inr (Equality i j) else Inl UNSUPPORTED_CONSTRAINT
      | _ \<Rightarrow> Inl UNSUPPORTED_CONSTRAINT)"

definition coordinate_index :: "string list \<Rightarrow> string \<Rightarrow> int" where
  "coordinate_index coordinates i = the (map_of (zip coordinates (map int [0 ..< length coordinates])) i)"

text \<open>The first loop, row by row: the classified row, its support and its certificate entries.\<close>

definition parse_row :: "string list \<Rightarrow> constraint_row \<Rightarrow> constraint_error + classified" where
  "parse_row coordinates row =
     bind (guard (\<forall>(i, q) \<in> set (cn_terms row). i \<in> set coordinates) UNKNOWN_COORDINATE) (\<lambda>_.
     classify_constraint row)"

definition certificate_entries :: "string list \<Rightarrow> constraint_row list \<Rightarrow> (int \<times> int \<times> rat) list" where
  "certificate_entries coordinates rows =
     concat (map (\<lambda>k. map (\<lambda>(i, q). (int k, coordinate_index coordinates i, q)) (cn_terms (rows ! k))) [0 ..< length rows])"

definition join_step :: "forest \<Rightarrow> classified \<Rightarrow> constraint_error + forest" where
  "join_step p k =
     (case k of Fix i v \<Rightarrow> Inr p | Equality i j \<Rightarrow> option_or (uf_union p i j) Find_Failed)"

definition fix_step ::
  "(string \<rightharpoonup> rat) \<times> forest \<Rightarrow> classified \<Rightarrow> constraint_error + (string \<rightharpoonup> rat) \<times> forest" where
  "fix_step s k =
     (case (s, k) of
        ((fixed, p), Equality i j) \<Rightarrow> Inr (fixed, p)
      | ((fixed, p), Fix i v) \<Rightarrow>
          bind (option_or (uf_find p i) Find_Failed) (\<lambda>(base, p').
          bind (guard (fixed base = None \<or> fixed base = Some v) CONTRADICTORY_CONSTRAINT) (\<lambda>_.
          Inr (fixed(base \<mapsto> v), p'))))"

text \<open>The dictionary of groups, in the order its roots were first met.\<close>

fun add_member :: "string \<Rightarrow> string \<Rightarrow> (string \<times> string list) list \<Rightarrow> (string \<times> string list) list" where
  "add_member base v [] = [(base, [v])]"
| "add_member base v ((r, ms) # gs) = (if r = base then (r, ms @ [v]) # gs else (r, ms) # add_member base v gs)"

definition group_step ::
  "(string \<times> string list) list \<times> forest \<Rightarrow> string \<Rightarrow> constraint_error + (string \<times> string list) list \<times> forest" where
  "group_step s v =
     (case s of (groups, p) \<Rightarrow>
        bind (option_or (uf_find p v) Find_Failed) (\<lambda>(base, p').
        Inr (add_member base v groups, p')))"

record solve_state =
  so_entries :: "(int \<times> int \<times> rat) list"
  so_rhs :: "rat list"
  so_forest :: forest

text \<open>The next row is the number of right-hand sides.\<close>

definition add_row :: "(int \<times> rat) list \<Rightarrow> rat \<Rightarrow> solve_state \<Rightarrow> solve_state" where
  "add_row terms v s =
     s\<lparr>so_entries := so_entries s @ map (\<lambda>(c, q). (int (length (so_rhs s)), c, q)) terms, so_rhs := so_rhs s @ [v]\<rparr>"

definition solve_group ::
  "string list \<Rightarrow> (string \<rightharpoonup> rat) \<Rightarrow> solve_state \<Rightarrow> string list \<Rightarrow> constraint_error + solve_state" where
  "solve_group coordinates fixed s members =
     (let anchor = hd members; index = coordinate_index coordinates;
          s1 = fold (\<lambda>member. add_row [(index anchor, 1), (index member, -1)] 0) (tl members) s in
      bind (option_or (uf_find (so_forest s1) anchor) Find_Failed) (\<lambda>(base, p').
      Inr (case fixed base of
             None \<Rightarrow> s1\<lparr>so_forest := p'\<rparr>
           | Some v \<Rightarrow> add_row [(index anchor, 1)] v (s1\<lparr>so_forest := p'\<rparr>))))"

definition lift_matrix :: "matrix_error + 'a \<Rightarrow> constraint_error + 'a" where
  "lift_matrix r = (case r of Inl e \<Rightarrow> Inl Constraint_Matrix_Error | Inr m \<Rightarrow> Inr m)"

definition compile_constraints ::
  "rounding \<Rightarrow> string list \<Rightarrow> constraint_row list \<Rightarrow> constraint_error + compiled_constraints" where
  "compile_constraints rnd coordinates rows =
     bind (guard (\<forall>i \<in> set coordinates. i \<noteq> []) INVALID_COORDINATES) (\<lambda>_.
     bind (guard (distinct coordinates) INVALID_COORDINATES) (\<lambda>_.
     bind (traverse (parse_row coordinates) rows) (\<lambda>parsed.
     bind (foldM join_step (forest_init coordinates) parsed) (\<lambda>p.
     bind (foldM fix_step (Map.empty, p) parsed) (\<lambda>(fixed, p1).
     bind (foldM group_step ([], p1) coordinates) (\<lambda>(groups, p2).
     bind (foldM (solve_group coordinates fixed) \<lparr>so_entries = [], so_rhs = [], so_forest = p2\<rparr> (map snd groups)) (\<lambda>s.
     bind (lift_matrix (from_entries rnd (int (length (so_rhs s))) (int (length coordinates)) (so_entries s))) (\<lambda>matrix.
     bind (lift_matrix (from_entries rnd (int (length rows)) (int (length coordinates))
             (certificate_entries coordinates rows))) (\<lambda>certificate.
     let c = \<lparr>kc_coordinate_ids = coordinates, kc_matrix = matrix, kc_rhs = so_rhs s, kc_certificate_matrix = certificate,
              kc_certificate_rhs = map cn_rhs rows, kc_supports = map (\<lambda>r. (cn_id r, map fst (cn_terms r))) rows\<rparr> in
     bind (guard (valid_compiled c) Constraint_Matrix_Error) (\<lambda>_. Inr c))))))))))"

section \<open>Constrained solve\<close>

text \<open>
  \<^verbatim>\<open>context_graph/solver.py\<close>. The backend is the argument the function takes: nothing is assumed
  of its answer, and \<open>None\<close> is an exception it raises, which escapes. A value that is not finite,
  as \<^verbatim>\<open>math.inf\<close>, is \<open>None\<close>.
\<close>

datatype solve_status =
  CONVERGED | LEAST_SQUARES | ILL_CONDITIONED | SINGULAR | NONFINITE_INPUT | NONFINITE_OUTPUT
| ITERATION_LIMIT | BACKEND_UNAVAILABLE | BACKEND_CAPACITY_EXCEEDED | INVALID_INPUT

record backend_result =
  bk_status :: solve_status
  bk_solution :: "rat list option"
  bk_name :: string
  bk_backward_error :: "rat option"
  bk_condition_estimate :: "rat option"

record constrained_solve_result =
  cs_status :: solve_status
  cs_solution :: "rat list option"
  cs_multipliers :: "rat list option"
  cs_backend_name :: string
  cs_backward_error :: "rat option"
  cs_condition_estimate :: "rat option"

definition kkt_entries :: "csr_matrix \<Rightarrow> csr_matrix \<Rightarrow> (int \<times> int \<times> rat) list" where
  "kkt_entries a b =
     map (\<lambda>(r, c, v). (int r, int c, v)) (iter_entries a) @
     concat (map (\<lambda>(r, c, v). [(int c, int (cm_rows a + r), v), (int (cm_rows a + r), int c, v)]) (iter_entries b))"

type_synonym linear_backend = "csr_matrix \<Rightarrow> rat list \<Rightarrow> backend_result option"

datatype solve_error = SOLVE_VALUE_ERROR | SOLVE_BACKEND_RAISES

definition solve_system_matrix :: "matrix_error + csr_matrix \<Rightarrow> solve_error + csr_matrix" where
  "solve_system_matrix r = (case r of Inl e \<Rightarrow> Inl SOLVE_VALUE_ERROR | Inr m \<Rightarrow> Inr m)"

definition solve_constrained_system ::
  "rounding \<Rightarrow> linear_backend \<Rightarrow> csr_matrix \<Rightarrow> rat option list \<Rightarrow> compiled_constraints \<Rightarrow>
   solve_error + constrained_solve_result" where
  "solve_constrained_system rnd backend matrix rhs constraints =
     bind (guard (cm_rows matrix = cm_columns matrix) SOLVE_VALUE_ERROR) (\<lambda>_.
     let size = cm_rows matrix in
     bind (guard (length rhs = size) SOLVE_VALUE_ERROR) (\<lambda>_.
     if None \<in> set rhs then
       Inr \<lparr>cs_status = NONFINITE_INPUT, cs_solution = None, cs_multipliers = None, cs_backend_name = ''none'',
            cs_backward_error = None, cs_condition_estimate = None\<rparr>
     else
       bind (guard (cm_columns (kc_matrix constraints) = size) SOLVE_VALUE_ERROR) (\<lambda>_.
       let values = map the rhs; count = cm_rows (kc_matrix constraints) in
       if count = 0 then
         bind (option_or (backend matrix values) SOLVE_BACKEND_RAISES) (\<lambda>result.
         Inr \<lparr>cs_status = bk_status result, cs_solution = bk_solution result,
              cs_multipliers = (if bk_solution result \<noteq> None then Some [] else None), cs_backend_name = bk_name result,
              cs_backward_error = bk_backward_error result, cs_condition_estimate = bk_condition_estimate result\<rparr>)
       else
         bind (solve_system_matrix (from_entries rnd (int (size + count)) (int (size + count))
           (kkt_entries matrix (kc_matrix constraints)))) (\<lambda>kkt.
         bind (option_or (backend kkt (values @ kc_rhs constraints)) SOLVE_BACKEND_RAISES) (\<lambda>result.
         Inr (case bk_solution result of
                None \<Rightarrow>
                  \<lparr>cs_status = bk_status result, cs_solution = None, cs_multipliers = None, cs_backend_name = bk_name result,
                   cs_backward_error = bk_backward_error result, cs_condition_estimate = bk_condition_estimate result\<rparr>
              | Some solution \<Rightarrow>
                  \<lparr>cs_status = bk_status result, cs_solution = Some (take size solution),
                   cs_multipliers = Some (drop size solution), cs_backend_name = bk_name result,
                   cs_backward_error = bk_backward_error result, cs_condition_estimate = bk_condition_estimate result\<rparr>))))))"

end
