(* ===== verification/Sparse_Laws.thy ===== *)
theory Sparse_Laws
  imports Sparse_Matrix "HOL-Library.Multiset"
begin

text \<open>
  A matrix built from entries is well formed and iterates exactly its non-zero entries in row
  and column order; where no key repeats, nothing is rounded and products are exact.
\<close>

section \<open>Rows\<close>

definition row_sorted :: "(nat \<times> nat \<times> rat) list \<Rightarrow> bool" where
  "row_sorted es \<longleftrightarrow> sorted_wrt (\<lambda>a b. (fst a, fst (snd a)) < (fst b, fst (snd b))) es"

lemma row_sorted_fst: "row_sorted es \<Longrightarrow> sorted (map fst es)"
  unfolding row_sorted_def sorted_map by (erule sorted_wrt_mono_rel[rotated]) (auto simp: less_prod_def)

lemma takeWhile_least:
  "sorted (map fst es) \<Longrightarrow> \<forall>e \<in> set es. k \<le> fst e \<Longrightarrow>
   takeWhile (\<lambda>e. fst e = k) es = filter (\<lambda>e. fst e = k) es \<and> dropWhile (\<lambda>e. fst e = k) es = filter (\<lambda>e. k < fst e) es"
  for es :: "('a :: linorder \<times> 'b) list"
proof (induction es)
  case (Cons e es)
  show ?case
  proof (cases "fst e = k")
    case True
    with Cons show ?thesis by simp
  next
    case False
    with Cons.prems have "k < fst e" "\<forall>x \<in> set es. k < fst x" by fastforce+
    then have "filter (\<lambda>e. fst e = k) es = []" by (auto simp: filter_empty_conv)
    with \<open>k < fst e\<close> \<open>\<forall>x \<in> set es. k < fst x\<close> show ?thesis by (auto simp: filter_id_conv)
  qed
qed simp

lemma filter_split_count:
  "length (filter (\<lambda>e. fst e \<le> i) es) = length (filter (\<lambda>e. fst e = k) es) + length (filter (\<lambda>e. fst e \<le> i) (filter (\<lambda>e. k < fst e) es))"
  if "\<forall>e \<in> set es. k \<le> fst e" "k \<le> i" for es :: "('a :: linorder \<times> 'b) list"
  using that by (induction es) auto

lemma fill_rows_exact:
  assumes "sorted (map fst es)" "\<forall>e \<in> set es. k \<le> fst e \<and> fst e < n" "fill_rows [k ..< n] es s = (ends, taken)"
  shows "taken = map snd es" "length ends = n - k"
    "\<And>i. i < n - k \<Longrightarrow> ends ! i = s + length (filter (\<lambda>e. fst e \<le> k + i) es)"
proof -
  have "taken = map snd es \<and> length ends = n - k \<and> (\<forall>i < n - k. ends ! i = s + length (filter (\<lambda>e. fst e \<le> k + i) es))"
    using assms
  proof (induction "n - k" arbitrary: k es s ends taken)
    case 0
    then have "es = []" by (cases es) force+
    with 0 show ?case by simp
  next
    case (Suc d)
    let ?here = "filter (\<lambda>e. fst e = k) es" and ?rest = "filter (\<lambda>e. k < fst e) es"
    note tw = takeWhile_least[OF Suc.prems(1), of k]
    from Suc.hyps(2) have k: "[k ..< n] = k # [Suc k ..< n]" by (simp add: upt_conv_Cons)
    obtain ends' taken' where rec: "fill_rows [Suc k ..< n] ?rest (s + length ?here) = (ends', taken')" by (rule prod.exhaust)
    have out: "ends = (s + length ?here) # ends'" "taken = map snd ?here @ taken'"
      using Suc.prems(2,3) tw rec by (auto simp: k)
    have es: "es = ?here @ ?rest" using takeWhile_dropWhile_id[of "\<lambda>e. fst e = k" es] tw Suc.prems(2) by metis
    have ih: "taken' = map snd ?rest \<and> length ends' = n - Suc k \<and>
        (\<forall>i < n - Suc k. ends' ! i = s + length ?here + length (filter (\<lambda>e. fst e \<le> Suc k + i) ?rest))"
    proof (rule Suc.hyps(1)[OF _ _ _ rec])
      show "d = n - Suc k" using Suc.hyps(2) by simp
      show "sorted (map fst ?rest)" using Suc.prems(1) by (rule sorted_filter)
      show "\<forall>e \<in> set ?rest. Suc k \<le> fst e \<and> fst e < n" using Suc.prems(2) by auto
    qed
    have "ends ! i = s + length (filter (\<lambda>e. fst e \<le> k + i) es)" if i: "i < n - k" for i
    proof (cases i)
      case 0
      have "filter (\<lambda>e. fst e \<le> k) es = ?here" using Suc.prems(2) by (intro filter_cong) auto
      with 0 out show ?thesis by simp
    next
      case (Suc j)
      with i ih have "ends ! i = s + length ?here + length (filter (\<lambda>e. fst e \<le> Suc k + j) ?rest)" using out by simp
      with Suc filter_split_count[of es k "k + i"] Suc.prems(2) show ?thesis by simp
    qed
    moreover have "taken = map snd es" using out(2) ih es by (metis map_append)
    moreover have "length ends = n - k" using out(1) ih Suc.hyps(2) by simp
    ultimately show ?case by blast
  qed
  then show "taken = map snd es" "length ends = n - k"
    "\<And>i. i < n - k \<Longrightarrow> ends ! i = s + length (filter (\<lambda>e. fst e \<le> k + i) es)" by auto
qed

lemma sorted_split:
  fixes es :: "('a :: linorder \<times> 'b) list"
  assumes "sorted (map fst es)"
  shows "es = filter (\<lambda>e. fst e < r) es @ filter (\<lambda>e. fst e = r) es @ filter (\<lambda>e. r < fst e) es"
  using assms
proof (induction es)
  case (Cons e es)
  then have le: "\<forall>x \<in> set es. fst e \<le> fst x" and ih: "es = filter (\<lambda>e. fst e < r) es @ filter (\<lambda>e. fst e = r) es @ filter (\<lambda>e. r < fst e) es"
    by auto
  consider "fst e < r" | "fst e = r" | "r < fst e" by fastforce
  then show ?case
  proof cases
    case 1
    with ih show ?thesis by auto
  next
    case 2
    with le have "filter (\<lambda>e. fst e < r) es = []" by (auto simp: filter_empty_conv)
    with 2 ih show ?thesis by auto
  next
    case 3
    with le have "filter (\<lambda>e. fst e < r) es = []" "filter (\<lambda>e. fst e = r) es = []" by (auto simp: filter_empty_conv)
    with 3 ih show ?thesis by auto
  qed
qed simp

lemma sorted_filter_Suc:
  fixes es :: "(nat \<times> 'b) list"
  assumes "sorted (map fst es)"
  shows "filter (\<lambda>e. fst e < Suc r) es = filter (\<lambda>e. fst e < r) es @ filter (\<lambda>e. fst e = r) es"
  by (subst (1) sorted_split[OF assms, of r]) (auto simp: filter_empty_conv less_Suc_eq intro!: arg_cong2[of _ _ _ _ append] filter_cong)

section \<open>Matrices of ordered entries\<close>

lemma csr_of_ordered_fields:
  assumes es: "row_sorted es" "\<forall>(r, c, v) \<in> set es. r < rows"
  shows "cm_rows (csr_of_ordered rows columns es) = rows" "cm_columns (csr_of_ordered rows columns es) = columns"
    "cm_indices (csr_of_ordered rows columns es) = map (fst \<circ> snd) es" "cm_data (csr_of_ordered rows columns es) = map (snd \<circ> snd) es"
    "length (cm_indptr (csr_of_ordered rows columns es)) = rows + 1"
    "\<And>r. r \<le> rows \<Longrightarrow> cm_indptr (csr_of_ordered rows columns es) ! r = length (filter (\<lambda>e. fst e < r) es)"
proof -
  obtain ends taken where fill: "fill_rows [0 ..< rows] es 0 = (ends, taken)" by (rule prod.exhaust)
  have range: "\<forall>e \<in> set es. 0 \<le> fst e \<and> fst e < rows" using es(2) by auto
  note f = fill_rows_exact[OF row_sorted_fst[OF es(1)] range fill]
  have m: "csr_of_ordered rows columns es = \<lparr>cm_rows = rows, cm_columns = columns, cm_indptr = 0 # ends,
      cm_indices = map fst taken, cm_data = map snd taken\<rparr>"
    by (simp add: csr_of_ordered_def fill)
  show "cm_rows (csr_of_ordered rows columns es) = rows" "cm_columns (csr_of_ordered rows columns es) = columns"
    "cm_indices (csr_of_ordered rows columns es) = map (fst \<circ> snd) es" "cm_data (csr_of_ordered rows columns es) = map (snd \<circ> snd) es"
    "length (cm_indptr (csr_of_ordered rows columns es)) = rows + 1"
    using f(1,2) by (simp_all add: m)
  fix r assume r: "r \<le> rows"
  show "cm_indptr (csr_of_ordered rows columns es) ! r = length (filter (\<lambda>e. fst e < r) es)"
  proof (cases r)
    case 0
    then show ?thesis by (simp add: m)
  next
    case (Suc k)
    with f(3)[of k] r show ?thesis by (simp add: m less_Suc_eq_le)
  qed
qed

lemma map_nth_middle: "map (nth (xs @ ys @ zs)) [length xs ..< length xs + length ys] = ys"
  by (rule nth_equalityI) (simp_all add: nth_append)

lemma iter_row_of_ordered:
  assumes es: "row_sorted es" "\<forall>(r, c, v) \<in> set es. r < rows" and r: "r < rows"
  shows "iter_row (csr_of_ordered rows columns es) r = filter (\<lambda>e. fst e = r) es"
proof -
  note f = csr_of_ordered_fields[OF es, where columns = columns]
  let ?lo = "filter (\<lambda>e. fst e < r) es" and ?at = "filter (\<lambda>e. fst e = r) es" and ?hi = "filter (\<lambda>e. r < fst e) es"
  note parts = sorted_split[OF row_sorted_fst[OF es(1)], of r]
  have bounds: "cm_indptr (csr_of_ordered rows columns es) ! r = length ?lo"
    "cm_indptr (csr_of_ordered rows columns es) ! Suc r = length ?lo + length ?at"
    using r sorted_filter_Suc[OF row_sorted_fst[OF es(1)], of r] by (simp_all add: f(6))
  have inside: "k < length es" if "k < length ?lo + length ?at" for k
    using that arg_cong[OF parts, of length] by simp
  have "iter_row (csr_of_ordered rows columns es) r = map (\<lambda>k. (r, snd (es ! k))) [length ?lo ..< length ?lo + length ?at]"
    unfolding iter_row_def bounds f(3,4) using inside by (intro map_cong) auto
  also have "\<dots> = map (\<lambda>e. (r, snd e)) (map (nth (?lo @ ?at @ ?hi)) [length ?lo ..< length ?lo + length ?at])"
    using parts by simp
  also have "\<dots> = map (\<lambda>e. (r, snd e)) ?at" by (simp only: map_nth_middle)
  also have "\<dots> = ?at" by (intro map_idI) auto
  finally show ?thesis .
qed

lemma concat_rows:
  fixes es :: "(nat \<times> 'b) list"
  assumes "sorted (map fst es)" "\<forall>e \<in> set es. fst e < n"
  shows "concat (map (\<lambda>r. filter (\<lambda>e. fst e = r) es) [0 ..< n]) = es"
proof -
  have "concat (map (\<lambda>r. filter (\<lambda>e. fst e = r) es) [0 ..< k]) = filter (\<lambda>e. fst e < k) es" for k
  proof (induction k)
    case (Suc k)
    with sorted_filter_Suc[OF assms(1), of k] show ?case by simp
  qed simp
  from this[of n] assms(2) show ?thesis by (simp add: filter_id_conv)
qed

lemma iter_entries_of_ordered:
  assumes "row_sorted es" "\<forall>(r, c, v) \<in> set es. r < rows"
  shows "iter_entries (csr_of_ordered rows columns es) = es"
proof -
  have "iter_entries (csr_of_ordered rows columns es) = concat (map (\<lambda>r. filter (\<lambda>e. fst e = r) es) [0 ..< rows])"
    unfolding iter_entries_def csr_of_ordered_fields(1)[OF assms]
    by (intro arg_cong[of _ _ concat] map_cong) (simp_all add: iter_row_of_ordered[OF assms])
  also have "\<dots> = es" using assms by (intro concat_rows row_sorted_fst) auto
  finally show ?thesis .
qed

lemma valid_csr_of_ordered:
  assumes es: "row_sorted es" "\<forall>(r, c, v) \<in> set es. r < rows \<and> c < columns"
  shows "valid_csr (csr_of_ordered rows columns es)"
proof -
  from es(2) have rows: "\<forall>(r, c, v) \<in> set es. r < rows" by auto
  let ?m = "csr_of_ordered rows columns es"
  note f = csr_of_ordered_fields[OF es(1) rows, where columns = columns]
  have count: "length (filter (\<lambda>e. fst e < a) es) \<le> length (filter (\<lambda>e. fst e < b) es)" if "a \<le> b" for a b
    using that by (induction es) auto
  have all: "filter (\<lambda>e. fst e < rows) es = es" using rows by (auto simp: filter_id_conv)
  have ne: "cm_indptr ?m \<noteq> []" using f(5) by auto
  have "hd (cm_indptr ?m) = 0" using f(6)[of 0] ne by (simp add: hd_conv_nth)
  moreover have "last (cm_indptr ?m) = length (cm_indices ?m)"
    using f(5) f(6)[of rows] all f(3) ne by (simp add: last_conv_nth)
  moreover have "sorted (cm_indptr ?m)" unfolding sorted_iff_nth_mono using f(5,6) count by auto
  moreover have "(\<forall>i \<in> set here. i < columns) \<and> sorted_wrt (<) here"
    if r: "r < rows" and here: "here = map (nth (cm_indices ?m)) [cm_indptr ?m ! r ..< cm_indptr ?m ! Suc r]" for r here
  proof -
    have "here = map (fst \<circ> snd) (iter_row ?m r)" unfolding here iter_row_def by simp
    then have here: "here = map (fst \<circ> snd) (filter (\<lambda>e. fst e = r) es)" by (simp only: iter_row_of_ordered[OF es(1) rows r])
    have "sorted_wrt (\<lambda>a b. (fst a, fst (snd a)) < (fst b, fst (snd b))) (filter (\<lambda>e. fst e = r) es)"
      using es(1) unfolding row_sorted_def by (rule sorted_wrt_filter)
    then have "sorted_wrt (\<lambda>a b. fst (snd a) < fst (snd b)) (filter (\<lambda>e. fst e = r) es)"
      by (rule sorted_wrt_mono_rel[rotated]) auto
    with es(2) show ?thesis unfolding here by (auto simp: sorted_wrt_map)
  qed
  ultimately show ?thesis unfolding valid_csr_def using f(1-5) by (simp add: Let_def)
qed

section \<open>Accumulation\<close>

definition acc_ok :: "int \<Rightarrow> int \<Rightarrow> accumulated \<Rightarrow> bool" where
  "acc_ok rows columns acc \<longleftrightarrow> distinct (map fst acc) \<and> (\<forall>((r, c), v) \<in> set acc. int r < rows \<and> int c < columns)"

lemma accumulate_ok:
  assumes "accumulate rnd rows columns acc e = Inr acc'" "acc_ok rows columns acc"
  shows "acc_ok rows columns acc'"
proof -
  obtain row column val where e: "e = (row, column, val)" by (rule prod_cases3)
  let ?key = "(nat row, nat column)"
  from assms(1) obtain x where range: "0 \<le> row" "row < rows" "0 \<le> column" "column < columns"
    and acc': "acc' = (if ?key \<in> fst ` set acc then map (\<lambda>(k, v). if k = ?key then (k, x) else (k, v)) acc else acc @ [(?key, x)])"
    by (auto simp: accumulate_def e result_simps split: option.splits)
  have keys: "map fst (map (\<lambda>(k, v). if k = ?key then (k, x) else (k, v)) acc) = map fst acc" by (induction acc) auto
  have ok: "distinct (map fst acc)" "\<forall>k \<in> set (map fst acc). int (fst k) < rows \<and> int (snd k) < columns"
    using assms(2) by (auto simp: acc_ok_def)
  have "distinct (map fst acc') \<and> (\<forall>k \<in> set (map fst acc'). int (fst k) < rows \<and> int (snd k) < columns)"
  proof (cases "?key \<in> fst ` set acc")
    case True
    then have "map fst acc' = map fst acc" unfolding acc' using keys by (simp only: if_True)
    with ok show ?thesis by (simp only:)
  next
    case False
    with ok range show ?thesis unfolding acc' by auto
  qed
  then show ?thesis by (auto simp: acc_ok_def)
qed

lemma foldM_accumulate_ok: "foldM (accumulate rnd rows columns) acc es = Inr acc' \<Longrightarrow> acc_ok rows columns acc \<Longrightarrow> acc_ok rows columns acc'"
  by (induction es arbitrary: acc) (auto simp: result_simps intro: accumulate_ok)

lemma ordered_entries_sorted:
  assumes "acc_ok rows columns acc"
  shows "row_sorted (ordered_entries acc)"
    "\<forall>(r, c, v) \<in> set (ordered_entries acc). r < nat rows \<and> c < nat columns"
    "mset (ordered_entries acc) = mset (map (\<lambda>((r, c), v). (r, c, v)) (filter (\<lambda>(k, v). v \<noteq> 0) acc))"
proof -
  let ?f = "\<lambda>((r, c), v). (r, c, v)" and ?nz = "filter (\<lambda>(k, v). v \<noteq> 0) acc"
  show "mset (ordered_entries acc) = mset (map ?f ?nz)" by (simp add: ordered_entries_def)
  have set: "set (ordered_entries acc) = ?f ` set ?nz" by (simp add: ordered_entries_def)
  have "r < nat rows \<and> c < nat columns" if "((r, c), v) \<in> set acc" for r c v
  proof -
    from assms that have "int r < rows" "int c < columns" unfolding acc_ok_def by blast+
    then show ?thesis by linarith
  qed
  then show "\<forall>(r, c, v) \<in> set (ordered_entries acc). r < nat rows \<and> c < nat columns" unfolding set by auto
  have "distinct (map fst ?nz)" using assms by (simp add: acc_ok_def distinct_map_filter)
  moreover have "map (\<lambda>e. (fst e, fst (snd e))) (map ?f ?nz) = map fst ?nz" by (induction acc) auto
  ultimately have "distinct (map (\<lambda>e. (fst e, fst (snd e))) (map ?f ?nz))" by (simp only:)
  then have dist: "distinct (map (\<lambda>e. (fst e, fst (snd e))) (ordered_entries acc))"
    unfolding ordered_entries_def distinct_map[of _ "sort _"] distinct_map[of _ "map ?f ?nz"] by simp
  have "sorted (ordered_entries acc)" by (simp add: ordered_entries_def)
  then have "sorted_wrt (\<lambda>a b. (fst a, fst (snd a)) \<le> (fst b, fst (snd b))) (ordered_entries acc)"
    by (rule sorted_wrt_mono_rel[rotated]) (auto simp: less_eq_prod_def)
  then have "sorted (map (\<lambda>e. (fst e, fst (snd e))) (ordered_entries acc))" unfolding sorted_map .
  with dist have "sorted_wrt (<) (map (\<lambda>e. (fst e, fst (snd e))) (ordered_entries acc))"
    by (simp only: strict_sorted_iff)
  then show "row_sorted (ordered_entries acc)" unfolding row_sorted_def by (simp only: sorted_wrt_map)
qed

text \<open>
  Every matrix that is built is well formed, whatever is rounded, and the check of its own
  constructor cannot fail.
\<close>

lemma from_entries_sound:
  assumes "from_entries rnd rows columns entries = Inr m"
  shows "valid_csr m \<and> cm_rows m = nat rows \<and> cm_columns m = nat columns \<and> row_sorted (iter_entries m) \<and>
    (\<exists>acc. foldM (accumulate rnd rows columns) [] entries = Inr acc \<and> iter_entries m = ordered_entries acc)"
proof -
  from assms obtain acc where acc: "foldM (accumulate rnd rows columns) [] entries = Inr acc"
    and m: "m = csr_of_ordered (nat rows) (nat columns) (ordered_entries acc)" "valid_csr m"
    by (auto simp: from_entries_def result_simps)
  have "acc_ok rows columns acc" using foldM_accumulate_ok[OF acc] by (simp add: acc_ok_def)
  note o = ordered_entries_sorted[OF this]
  from o(2) have "\<forall>(r, c, v) \<in> set (ordered_entries acc). r < nat rows" by auto
  note f = csr_of_ordered_fields[OF o(1) this, where columns = "nat columns"] iter_entries_of_ordered[OF o(1) this, where columns = "nat columns"]
  from o(1) m(2) acc show ?thesis unfolding m(1) f(1,2,7) by auto
qed

lemma from_entries_total:
  assumes "0 \<le> rows" "0 \<le> columns" "foldM (accumulate rnd rows columns) [] entries = Inr acc"
  shows "from_entries rnd rows columns entries = Inr (csr_of_ordered (nat rows) (nat columns) (ordered_entries acc))"
proof -
  have "acc_ok rows columns acc" using foldM_accumulate_ok[OF assms(3)] by (simp add: acc_ok_def)
  note o = ordered_entries_sorted[OF this]
  from valid_csr_of_ordered[OF o(1,2)] assms show ?thesis by (simp add: from_entries_def)
qed

text \<open>Where no key repeats and every value is a float, the entries are kept as they are.\<close>

definition entry_key :: "int \<times> int \<times> rat \<Rightarrow> nat \<times> nat" where
  "entry_key e = (nat (fst e), nat (fst (snd e)))"

definition plain_entries :: "rounding \<Rightarrow> int \<Rightarrow> int \<Rightarrow> (int \<times> int \<times> rat) list \<Rightarrow> bool" where
  "plain_entries rnd rows columns es \<longleftrightarrow> distinct (map entry_key es) \<and>
     (\<forall>(r, c, v) \<in> set es. 0 \<le> r \<and> r < rows \<and> 0 \<le> c \<and> c < columns \<and> rnd v = Some v)"

lemma foldM_accumulate_plain:
  assumes "plain_entries rnd rows columns es" "fst ` set acc \<inter> entry_key ` set es = {}"
  shows "foldM (accumulate rnd rows columns) acc es = Inr (acc @ map (\<lambda>e. (entry_key e, snd (snd e))) es)"
  using assms
proof (induction es arbitrary: acc)
  case (Cons e es)
  obtain r c v where e: "e = (r, c, v)" by (rule prod_cases3)
  have new: "(nat r, nat c) \<notin> fst ` set acc" using Cons.prems(2) by (auto simp: e entry_key_def)
  then have none: "map_of acc (nat r, nat c) = None" by (simp add: map_of_eq_None_iff)
  have step: "accumulate rnd rows columns acc e = Inr (acc @ [((nat r, nat c), v)])"
    using Cons.prems(1) new none by (simp add: e accumulate_def plain_entries_def)
  have "plain_entries rnd rows columns es" using Cons.prems(1) by (simp add: plain_entries_def)
  moreover have "fst ` set (acc @ [((nat r, nat c), v)]) \<inter> entry_key ` set es = {}"
    using Cons.prems by (auto simp: e entry_key_def plain_entries_def)
  ultimately show ?case using Cons.IH step by (simp add: e entry_key_def)
qed simp

lemma from_entries_plain:
  assumes "0 \<le> rows" "0 \<le> columns" "plain_entries rnd rows columns es"
  shows "\<exists>m. from_entries rnd rows columns es = Inr m \<and> cm_rows m = nat rows \<and> cm_columns m = nat columns \<and>
    mset (iter_entries m) = mset (map (\<lambda>(r, c, v). (nat r, nat c, v)) (filter (\<lambda>(r, c, v). v \<noteq> 0) es))"
proof -
  let ?acc = "map (\<lambda>e. (entry_key e, snd (snd e))) es"
  have fold: "foldM (accumulate rnd rows columns) [] es = Inr ?acc" using foldM_accumulate_plain[OF assms(3), of "[]"] by simp
  from from_entries_total[OF assms(1,2) fold] obtain m where m: "from_entries rnd rows columns es = Inr m" by blast
  from from_entries_sound[OF m] obtain acc where "foldM (accumulate rnd rows columns) [] es = Inr acc" "iter_entries m = ordered_entries acc"
    and dims: "cm_rows m = nat rows" "cm_columns m = nat columns" by blast
  with fold have it: "iter_entries m = ordered_entries ?acc" by simp
  have "map (\<lambda>((r, c), v). (r, c, v)) (filter (\<lambda>(k, v). v \<noteq> 0) ?acc) = map (\<lambda>(r, c, v). (nat r, nat c, v)) (filter (\<lambda>(r, c, v). v \<noteq> 0) es)"
    by (induction es) (auto simp: entry_key_def)
  then have "mset (ordered_entries ?acc) = mset (map (\<lambda>(r, c, v). (nat r, nat c, v)) (filter (\<lambda>(r, c, v). v \<noteq> 0) es))"
    unfolding ordered_entries_def mset_sort by simp
  with m it dims show ?thesis by (intro exI[of _ m]) simp
qed

section \<open>Products\<close>

text \<open>With exact arithmetic a product is the sums of its rows.\<close>

lemma row_product_exact: "row_product Some xs acc es = Some (acc + (\<Sum>(r, c, v) \<leftarrow> es. v * xs ! c))"
  by (induction es arbitrary: acc) (auto simp: add_product_def)

lemma matvec_exact:
  "length xs = cm_columns m \<Longrightarrow>
   matvec Some m xs = Inr (map (\<lambda>row. \<Sum>(r, c, v) \<leftarrow> iter_row m row. v * xs ! c) [0 ..< cm_rows m])"
  unfolding matvec_def by (simp add: row_product_exact traverse_total)

lemma sum_list_mset_eq: "mset xs = mset ys \<Longrightarrow> sum_list (map g xs) = sum_list (map g ys)" for g :: "'a \<Rightarrow> rat"
  by (metis mset_map sum_mset_sum_list)

lemma iter_row_filter: "r < cm_rows m \<Longrightarrow> iter_row m r = filter (\<lambda>e. fst e = r) (iter_entries m)"
proof -
  have same: "filter (\<lambda>e. fst e = r) (iter_row m k) = (if k = r then iter_row m r else [])" for k
    by (auto simp: iter_row_def filter_empty_conv filter_id_conv)
  have "filter (\<lambda>e. fst e = r) (concat (map (iter_row m) [0 ..< n])) = (if r < n then iter_row m r else [])" for n
    by (induction n) (auto simp: same)
  moreover assume "r < cm_rows m"
  ultimately show ?thesis by (simp add: iter_entries_def)
qed

definition row_sum :: "(int \<times> int \<times> rat) list \<Rightarrow> rat list \<Rightarrow> nat \<Rightarrow> rat" where
  "row_sum es xs r = (\<Sum>(r', c, v) \<leftarrow> filter (\<lambda>e. fst e = r) (map (\<lambda>(r, c, v). (nat r, nat c, v)) es). v * xs ! c)"

lemma nonzero_row:
  "filter (\<lambda>e. fst e = r) (map (\<lambda>(r, c, v). (nat r, nat c, v)) (filter (\<lambda>(r, c, v). v \<noteq> 0) es)) =
   filter (\<lambda>(r, c, v). v \<noteq> 0) (filter (\<lambda>e. fst e = r) (map (\<lambda>(r, c, v). (nat r, nat c, v)) es))"
  for es :: "(int \<times> int \<times> rat) list"
  by (induction es) auto

text \<open>The matrix of distinct float entries: well formed, float, and multiplying as its entries do.\<close>

lemma matrix_of_entries:
  assumes plain: "plain_entries rnd (int rows) (int columns) es"
  shows "\<exists>m. from_entries rnd (int rows) (int columns) es = Inr m \<and> cm_rows m = rows \<and> cm_columns m = columns \<and>
    valid_csr m \<and> (\<forall>(r, c, v) \<in> set (iter_entries m). rnd v = Some v) \<and>
    (\<forall>xs. length xs = columns \<longrightarrow> matvec Some m xs = Inr (map (row_sum es xs) [0 ..< rows]))"
proof -
  from from_entries_plain[OF _ _ plain] obtain m
    where m: "from_entries rnd (int rows) (int columns) es = Inr m" "cm_rows m = rows" "cm_columns m = columns"
    and it: "mset (iter_entries m) = mset (map (\<lambda>(r, c, v). (nat r, nat c, v)) (filter (\<lambda>(r, c, v). v \<noteq> 0) es))"
    by auto
  have "(\<Sum>(r, c, v) \<leftarrow> iter_row m r. v * xs ! c) = row_sum es xs r" if r: "r < rows" for r xs
  proof -
    let ?all = "map (\<lambda>(r, c, v). (nat r, nat c, v)) es"
    let ?g = "\<lambda>(r :: nat, c, v). v * xs ! c"
    from r m(2) have "r < cm_rows m" by simp
    then have "mset (iter_row m r) = mset (filter (\<lambda>(r, c, v). v \<noteq> 0) (filter (\<lambda>e. fst e = r) ?all))"
      unfolding iter_row_filter[OF \<open>r < cm_rows m\<close>] mset_filter it
      unfolding mset_filter[symmetric] by (intro arg_cong[OF nonzero_row])
    then have "sum_list (map ?g (iter_row m r)) = sum_list (map ?g (filter (\<lambda>(r, c, v). v \<noteq> 0) (filter (\<lambda>e. fst e = r) ?all)))"
      by (rule sum_list_mset_eq)
    also have "\<dots> = sum_list (map ?g (filter (\<lambda>e. fst e = r) ?all))" by (rule sum_list_map_filter) auto
    finally show ?thesis by (simp add: row_sum_def)
  qed
  then have "\<forall>xs. length xs = columns \<longrightarrow> matvec Some m xs = Inr (map (row_sum es xs) [0 ..< rows])"
    using matvec_exact m(2,3) by auto
  moreover have "\<forall>(r, c, v) \<in> set (iter_entries m). rnd v = Some v"
    using plain arg_cong[OF it, of set_mset] by (auto simp: plain_entries_def)
  ultimately show ?thesis using m from_entries_sound[OF m(1)] by blast
qed

end
