(* ===== verification/Constraint_Laws.thy ===== *)
theory Constraint_Laws
  imports Constraints Sparse_Laws
begin

text \<open>
  What the compilation of constraints promises. The forest is read through the function that
  gives every coordinate its representative: \<^verbatim>\<open>find\<close> returns it and keeps it, \<^verbatim>\<open>union\<close> joins two
  classes. The compiled system has the same solutions as the rows it was compiled from, its rows
  are independent, and rows are called contradictory only where no solution exists.
\<close>

section \<open>Disjoint sets\<close>

inductive root_of :: "forest \<Rightarrow> string \<Rightarrow> string \<Rightarrow> bool" for p where
  here: "p v = Some v \<Longrightarrow> root_of p v v"
| up: "p v = Some u \<Longrightarrow> u \<noteq> v \<Longrightarrow> root_of p u r \<Longrightarrow> root_of p v r"

inductive_cases root_ofE: "root_of p v r"

lemma root_of_fixed: "root_of p v r \<Longrightarrow> p r = Some r"
  by (induction rule: root_of.induct) auto

lemma root_of_unique: "root_of p v r \<Longrightarrow> root_of p v s \<Longrightarrow> s = r"
  by (induction rule: root_of.induct) (auto elim: root_ofE)

lemma root_of_compress: "root_of p u s \<Longrightarrow> root_of p v r \<Longrightarrow> root_of (p(v \<mapsto> r)) u s"
proof (induction rule: root_of.induct)
  case (here u)
  have "r = v" if "u = v" using root_of_unique[OF root_of.here[of p v] here.prems] here.hyps that by simp
  with here.hyps show ?case by (intro root_of.here) auto
next
  case (up u w s)
  show ?case
  proof (cases "u = v")
    case True
    with up have "s = r" by (blast dest: root_of.up root_of_unique)
    from up.prems have "p r = Some r" by (rule root_of_fixed)
    with True up.hyps have "r \<noteq> v" by auto
    with \<open>p r = Some r\<close> have "root_of (p(v \<mapsto> r)) r r" by (intro root_of.here) simp
    with \<open>r \<noteq> v\<close> show ?thesis unfolding True \<open>s = r\<close> by - (rule root_of.up[of _ _ r]; (assumption | simp))
  next
    case False
    with up show ?thesis by - (rule root_of.up[of _ _ w]; simp)
  qed
qed

lemma root_of_link:
  "root_of p u s \<Longrightarrow> p a = Some a \<Longrightarrow> p b = Some b \<Longrightarrow> a \<noteq> b \<Longrightarrow> root_of (p(b \<mapsto> a)) u (if s = b then a else s)"
proof (induction rule: root_of.induct)
  case (here u)
  then have "root_of (p(b \<mapsto> a)) a a" by (intro root_of.here) simp
  with here.prems have "root_of (p(b \<mapsto> a)) b a" by - (rule root_of.up[of _ b a]; (assumption | simp))
  moreover have "root_of (p(b \<mapsto> a)) u u" if "u \<noteq> b" using here.hyps that by (intro root_of.here) simp
  ultimately show ?case by (cases "u = b") (simp_all only: if_True if_False refl not_False_eq_True)
next
  case (up u w s)
  then have "u \<noteq> b" by auto
  with up show ?case by - (rule root_of.up[of _ _ w]; simp)
qed

lemma uf_find_root: "root_of p v r \<Longrightarrow> \<exists>p'. uf_find p v = Some (r, p') \<and> (\<forall>u s. root_of p u s \<longrightarrow> root_of p' u s)"
proof (induction rule: root_of.induct)
  case (here v)
  then show ?case by (subst uf_find.simps) auto
next
  case (up v u r)
  then obtain p' where p': "uf_find p u = Some (r, p')" "\<forall>u s. root_of p u s \<longrightarrow> root_of p' u s" by blast
  from up have "root_of p v r" by (blast intro: root_of.up)
  with p'(2) have "\<forall>u s. root_of p u s \<longrightarrow> root_of (p'(v \<mapsto> r)) u s" by (blast intro: root_of_compress)
  with up p'(1) show ?case by (subst uf_find.simps) auto
qed

text \<open>A forest over a set of keys, with the representative of each.\<close>

definition rooted :: "forest \<Rightarrow> string set \<Rightarrow> (string \<Rightarrow> string) \<Rightarrow> bool" where
  "rooted p V f \<longleftrightarrow> (\<forall>v \<in> V. f v \<in> V \<and> root_of p v (f v))"

lemma rooted_init: "rooted (forest_init vs) (set vs) id"
  by (auto simp: rooted_def forest_init_def map_of_map_restrict[of id, simplified] restrict_map_def intro!: root_of.here)

lemma uf_find_rooted:
  assumes "rooted p V f" "v \<in> V"
  obtains p' where "uf_find p v = Some (f v, p')" "rooted p' V f"
  using assms uf_find_root[of p v "f v"] unfolding rooted_def by blast

text \<open>The representatives after two classes are joined.\<close>

definition joined :: "string \<Rightarrow> string \<Rightarrow> (string \<Rightarrow> string) \<Rightarrow> string \<Rightarrow> string" where
  "joined l r f v = (if f v = f r then f l else f v)"

lemma uf_union_rooted:
  assumes "rooted p V f" "l \<in> V" "r \<in> V"
  shows "\<exists>p'. uf_union p l r = Some p' \<and> rooted p' V (joined l r f)"
proof -
  obtain p1 where p1: "uf_find p l = Some (f l, p1)" "rooted p1 V f" using assms(1,2) by (rule uf_find_rooted)
  obtain p2 where p2: "uf_find p1 r = Some (f r, p2)" "rooted p2 V f" using p1(2) assms(3) by (rule uf_find_rooted)
  have roots: "p2 (f l) = Some (f l)" "p2 (f r) = Some (f r)" using p2(2) assms(2,3) by (auto simp: rooted_def dest: root_of_fixed)
  have "rooted (p2(f r \<mapsto> f l)) V (joined l r f)" if "f l \<noteq> f r"
    using p2(2) assms(2) root_of_link[OF _ roots that] unfolding rooted_def joined_def by fastforce
  moreover have "joined l r f = f" if "f l = f r" using that by (auto simp: joined_def)
  ultimately show ?thesis using p1 p2 by (auto simp: uf_union_def)
qed

section \<open>The loops of the compilation\<close>

text \<open>The coordinates of a classified row, and what the row asks of a valuation.\<close>

fun names_of :: "classified \<Rightarrow> string set" where
  "names_of (Fix i v) = {i}"
| "names_of (Equality i j) = {i, j}"

fun holds :: "(string \<Rightarrow> rat) \<Rightarrow> classified \<Rightarrow> bool" where
  "holds X (Fix i v) \<longleftrightarrow> X i = v"
| "holds X (Equality i j) \<longleftrightarrow> X i = X j"

text \<open>Representatives are right for the rows when they join exactly what the equalities force.\<close>

definition class_representatives :: "string set \<Rightarrow> classified list \<Rightarrow> (string \<Rightarrow> string) \<Rightarrow> bool" where
  "class_representatives V ks f \<longleftrightarrow> (\<forall>i j. Equality i j \<in> set ks \<longrightarrow> f i = f j) \<and>
     (\<forall>X v. (\<forall>k \<in> set ks. holds X k) \<longrightarrow> v \<in> V \<longrightarrow> X (f v) = X v)"

lemma joined_represents:
  assumes "class_representatives V ks f" "i \<in> V" "j \<in> V"
  shows "class_representatives V (ks @ [Equality i j]) (joined i j f)"
proof -
  have "X (joined i j f v) = X v" if X: "\<forall>k \<in> set (ks @ [Equality i j]). holds X k" "v \<in> V" for X v
  proof -
    from X(1) have eq: "X i = X j" and old: "\<And>u. u \<in> V \<Longrightarrow> X (f u) = X u" using assms(1) by (auto simp: class_representatives_def)
    show ?thesis using eq old[OF X(2)] old[OF assms(2)] old[OF assms(3)] by (auto simp: joined_def)
  qed
  with assms(1) show ?thesis by (auto simp: class_representatives_def joined_def)
qed

lemma foldM_join:
  assumes "rooted p V f" "class_representatives V done f" "\<forall>k \<in> set ks. names_of k \<subseteq> V"
  shows "\<exists>p' f'. foldM join_step p ks = Inr p' \<and> rooted p' V f' \<and> class_representatives V (done @ ks) f'"
  using assms
proof (induction ks arbitrary: p f "done")
  case (Cons k ks)
  have "\<exists>p1 f1. join_step p k = Inr p1 \<and> rooted p1 V f1 \<and> class_representatives V (done @ [k]) f1"
  proof (cases k)
    case (Fix i v)
    with Cons.prems show ?thesis by (auto simp: join_step_def class_representatives_def intro!: exI[of _ p] exI[of _ f])
  next
    case (Equality i j)
    with Cons.prems(3) have ij: "i \<in> V" "j \<in> V" by auto
    from uf_union_rooted[OF Cons.prems(1) ij] joined_represents[OF Cons.prems(2) ij] show ?thesis
      by (auto simp: join_step_def Equality)
  qed
  then obtain p1 f1 where step: "join_step p k = Inr p1" "rooted p1 V f1" "class_representatives V (done @ [k]) f1" by blast
  from Cons.IH[OF step(2,3)] Cons.prems(3) step(1) show ?case by simp
qed auto

text \<open>The values of the classes: all that the fixing rows say, or two rows that disagree.\<close>

definition fixes_exactly :: "(string \<Rightarrow> string) \<Rightarrow> classified list \<Rightarrow> (string \<rightharpoonup> rat) \<Rightarrow> bool" where
  "fixes_exactly f ks fixed \<longleftrightarrow> (\<forall>r v. fixed r = Some v \<longleftrightarrow> (\<exists>i. Fix i v \<in> set ks \<and> f i = r))"

definition disagree :: "(string \<Rightarrow> string) \<Rightarrow> classified list \<Rightarrow> bool" where
  "disagree f ks \<longleftrightarrow> (\<exists>i j v w. Fix i v \<in> set ks \<and> Fix j w \<in> set ks \<and> f i = f j \<and> v \<noteq> w)"

lemma fix_step_cases:
  assumes "rooted p V f" "fixes_exactly f done fixed" "names_of k \<subseteq> V"
  shows "(\<exists>fixed' p'. fix_step (fixed, p) k = Inr (fixed', p') \<and> rooted p' V f \<and> fixes_exactly f (done @ [k]) fixed') \<or>
    fix_step (fixed, p) k = Inl CONTRADICTORY_CONSTRAINT \<and> disagree f (done @ [k])"
proof (cases k)
  case (Equality i j)
  with assms show ?thesis by (auto simp: fix_step_def fixes_exactly_def)
next
  case (Fix i v)
  with assms(3) have "i \<in> V" by simp
  with assms(1) obtain p' where p': "uf_find p i = Some (f i, p')" "rooted p' V f" by (rule uf_find_rooted)
  show ?thesis
  proof (cases "fixed (f i) = None \<or> fixed (f i) = Some v")
    case True
    then have "\<forall>j w. Fix j w \<in> set done \<longrightarrow> f j = f i \<longrightarrow> w = v" using assms(2) unfolding fixes_exactly_def by (metis option.distinct(1) option.inject)
    with assms(2) have "fixes_exactly f (done @ [k]) (fixed(f i \<mapsto> v))" by (auto simp: fixes_exactly_def Fix)
    with True p' show ?thesis by (auto simp: fix_step_def Fix)
  next
    case False
    then obtain w where "fixed (f i) = Some w" "w \<noteq> v" by auto
    with assms(2) have "disagree f (done @ [k])" by (auto simp: fixes_exactly_def disagree_def Fix)
    with False p' show ?thesis by (auto simp: fix_step_def Fix)
  qed
qed

lemma disagree_mono: "disagree f ks \<Longrightarrow> set ks \<subseteq> set ks' \<Longrightarrow> disagree f ks'"
  by (auto simp: disagree_def) blast

lemma foldM_fix:
  assumes "rooted p V f" "fixes_exactly f done fixed" "\<forall>k \<in> set ks. names_of k \<subseteq> V"
  shows "(\<exists>fixed' p'. foldM fix_step (fixed, p) ks = Inr (fixed', p') \<and> rooted p' V f \<and> fixes_exactly f (done @ ks) fixed') \<or>
    foldM fix_step (fixed, p) ks = Inl CONTRADICTORY_CONSTRAINT \<and> disagree f (done @ ks)"
  using assms
proof (induction ks arbitrary: p fixed "done")
  case (Cons k ks)
  from Cons.prems fix_step_cases[OF Cons.prems(1,2), of k]
  consider fixed1 p1 where "fix_step (fixed, p) k = Inr (fixed1, p1)" "rooted p1 V f" "fixes_exactly f (done @ [k]) fixed1"
    | "fix_step (fixed, p) k = Inl CONTRADICTORY_CONSTRAINT" "disagree f (done @ [k])" by auto
  then show ?case
  proof cases
    case 1
    from Cons.IH[OF 1(2,3)] Cons.prems(3) 1(1) show ?thesis by simp
  next
    case 2
    from 2(2) have "disagree f (done @ k # ks)" by (rule disagree_mono) auto
    with 2(1) show ?thesis by simp
  qed
qed auto

text \<open>The groups are the classes, each in the order of the coordinates.\<close>

definition grouped :: "(string \<Rightarrow> string) \<Rightarrow> string list \<Rightarrow> (string \<times> string list) list \<Rightarrow> bool" where
  "grouped f vs gs \<longleftrightarrow> distinct (map fst gs) \<and> f ` set vs = fst ` set gs \<and>
     (\<forall>(r, ms) \<in> set gs. ms = filter (\<lambda>v. f v = r) vs)"

lemma add_member_keys: "fst ` set (add_member r v gs) = insert r (fst ` set gs)"
  by (induction r v gs rule: add_member.induct) auto

lemma add_member_distinct: "distinct (map fst gs) \<Longrightarrow> distinct (map fst (add_member r v gs))"
proof (induction r v gs rule: add_member.induct)
  case (2 r0 v r ms gs)
  have "set (map fst (add_member r0 v gs)) = insert r0 (fst ` set gs)" using add_member_keys by simp
  with 2 show ?case by auto
qed simp

lemma add_member_entries:
  "distinct (map fst gs) \<Longrightarrow> (k, ms) \<in> set (add_member r v gs) \<Longrightarrow>
   (k \<noteq> r \<and> (k, ms) \<in> set gs) \<or> (k = r \<and> (\<exists>ms0. (r, ms0) \<in> set gs \<and> ms = ms0 @ [v])) \<or> (k = r \<and> r \<notin> fst ` set gs \<and> ms = [v])"
  by (induction r v gs rule: add_member.induct) (force split: if_splits)+

lemma grouped_step: "grouped f vs gs \<Longrightarrow> grouped f (vs @ [v]) (add_member (f v) v gs)"
proof -
  assume g: "grouped f vs gs"
  have "ms = filter (\<lambda>u. f u = r) (vs @ [v])" if "(r, ms) \<in> set (add_member (f v) v gs)" for r ms
  proof -
    from g have d: "distinct (map fst gs)" and all: "\<And>r ms. (r, ms) \<in> set gs \<Longrightarrow> ms = filter (\<lambda>v. f v = r) vs"
      and keys: "f ` set vs = fst ` set gs" by (auto simp: grouped_def)
    from keys have none: "filter (\<lambda>u. f u = f v) vs = []" if "f v \<notin> fst ` set gs" using that
      by (intro filter_False ballI notI) (metis image_eqI)
    show ?thesis using add_member_entries[OF d that] all none by auto
  qed
  with g show ?thesis by (auto simp: grouped_def add_member_distinct add_member_keys)
qed

lemma foldM_group:
  assumes "rooted p V f" "grouped f done gs" "set vs \<subseteq> V"
  shows "\<exists>gs' p'. foldM group_step (gs, p) vs = Inr (gs', p') \<and> rooted p' V f \<and> grouped f (done @ vs) gs'"
  using assms
proof (induction vs arbitrary: p gs "done")
  case (Cons v vs)
  from Cons.prems obtain p1 where p1: "uf_find p v = Some (f v, p1)" "rooted p1 V f" by (auto elim: uf_find_rooted[of p V f v])
  from Cons.IH[OF p1(2) grouped_step[OF Cons.prems(2), of v]] Cons.prems(3) p1(1) show ?case by (simp add: group_step_def)
qed auto

section \<open>Rows\<close>

type_synonym named_row = "(string \<times> rat) list \<times> rat"

definition row_value :: "(string \<Rightarrow> rat) \<Rightarrow> (string \<times> rat) list \<Rightarrow> rat" where
  "row_value X ts = (\<Sum>(i, q) \<leftarrow> ts. q * X i)"

text \<open>The rows of a group: every member equals the anchor, and the anchor its value where there is one.\<close>

definition group_rows :: "(string \<rightharpoonup> rat) \<Rightarrow> (string \<Rightarrow> string) \<Rightarrow> string list \<Rightarrow> named_row list" where
  "group_rows fixed f ms =
     map (\<lambda>m. ([(hd ms, 1), (m, -1)], 0)) (tl ms) @
     (case fixed (f (hd ms)) of None \<Rightarrow> [] | Some v \<Rightarrow> [([(hd ms, 1)], v)])"

text \<open>The entries of rows numbered from nought.\<close>

definition entries_of :: "(int \<times> rat) list list \<Rightarrow> (int \<times> int \<times> rat) list" where
  "entries_of ts = concat (map (\<lambda>k. map (\<lambda>(c, q). (int k, c, q)) (ts ! k)) [0 ..< length ts])"

definition indexed :: "string list \<Rightarrow> (string \<times> rat) list \<Rightarrow> (int \<times> rat) list" where
  "indexed coordinates ts = map (\<lambda>(i, q). (coordinate_index coordinates i, q)) ts"

lemma entries_of_snoc: "entries_of (ts @ [t]) = entries_of ts @ map (\<lambda>(c, q). (int (length ts), c, q)) t"
proof -
  have "map (\<lambda>k. map (\<lambda>(c, q). (int k, c, q)) ((ts @ [t]) ! k)) [0 ..< length ts] =
      map (\<lambda>k. map (\<lambda>(c, q). (int k, c, q)) (ts ! k)) [0 ..< length ts]"
    by (intro map_cong) (simp_all add: nth_append)
  then show ?thesis unfolding entries_of_def by (simp del: map_eq_conv)
qed

definition holds_rows :: "string list \<Rightarrow> named_row list \<Rightarrow> solve_state \<Rightarrow> bool" where
  "holds_rows coordinates R s \<longleftrightarrow> so_entries s = entries_of (map (indexed coordinates \<circ> fst) R) \<and> so_rhs s = map snd R"

lemma holds_rows_add:
  "holds_rows coordinates R s \<Longrightarrow> holds_rows coordinates (R @ [(ts, v)]) (add_row (indexed coordinates ts) v s)"
  by (simp add: holds_rows_def add_row_def entries_of_snoc)

lemma holds_rows_members:
  "holds_rows coordinates R s \<Longrightarrow>
   holds_rows coordinates (R @ map (\<lambda>m. ([(a, 1), (m, -1)], 0)) ms)
     (fold (\<lambda>m. add_row [(coordinate_index coordinates a, 1), (coordinate_index coordinates m, -1)] 0) ms s)"
proof (induction ms arbitrary: R s)
  case (Cons m ms)
  from holds_rows_add[OF Cons.prems, of "[(a, 1), (m, -1)]" 0] Cons.IH show ?case by (fastforce simp: indexed_def)
qed simp

lemma fold_add_row_forest: "so_forest (fold (\<lambda>m. add_row (g m) (h m)) ms s) = so_forest s"
  by (induction ms arbitrary: s) (simp_all add: add_row_def)

lemma foldM_solve_group:
  assumes "rooted (so_forest s) V f" "holds_rows coordinates R s" "\<forall>ms \<in> set groups. ms \<noteq> [] \<and> set ms \<subseteq> V"
  shows "\<exists>s'. foldM (solve_group coordinates fixed) s groups = Inr s' \<and>
    holds_rows coordinates (R @ concat (map (group_rows fixed f) groups)) s'"
  using assms
proof (induction groups arbitrary: s R)
  case (Cons ms groups)
  let ?s1 = "fold (\<lambda>m. add_row [(coordinate_index coordinates (hd ms), 1), (coordinate_index coordinates m, -1)] 0) (tl ms) s"
  let ?R1 = "R @ map (\<lambda>m. ([(hd ms, 1), (m, -1)], 0)) (tl ms)"
  have rows1: "holds_rows coordinates ?R1 ?s1" using Cons.prems(2) by (rule holds_rows_members)
  have "rooted (so_forest ?s1) V f" using Cons.prems(1) by (simp only: fold_add_row_forest)
  moreover have "hd ms \<in> V" using Cons.prems(3) by (cases ms) auto
  ultimately obtain p' where p': "uf_find (so_forest ?s1) (hd ms) = Some (f (hd ms), p')" "rooted p' V f" by (rule uf_find_rooted)
  let ?s2 = "case fixed (f (hd ms)) of None \<Rightarrow> ?s1\<lparr>so_forest := p'\<rparr>
    | Some v \<Rightarrow> add_row [(coordinate_index coordinates (hd ms), 1)] v (?s1\<lparr>so_forest := p'\<rparr>)"
  have step: "solve_group coordinates fixed s ms = Inr ?s2" using p'(1) by (simp add: solve_group_def)
  have "holds_rows coordinates ?R1 (?s1\<lparr>so_forest := p'\<rparr>)" using rows1 by (simp add: holds_rows_def)
  note added = this holds_rows_add[OF this, of "[(hd ms, 1)]"]
  have "holds_rows coordinates (R @ group_rows fixed f ms) ?s2"
    using added by (auto simp: group_rows_def indexed_def split: option.splits)
  moreover have "rooted (so_forest ?s2) V f" using p'(2) by (auto simp: add_row_def split: option.splits)
  ultimately obtain s' where "foldM (solve_group coordinates fixed) ?s2 groups = Inr s'"
    "holds_rows coordinates ((R @ group_rows fixed f ms) @ concat (map (group_rows fixed f) groups)) s'"
    using Cons.IH Cons.prems(3) by (metis list.set_intros(2))
  with step show ?case by simp
qed simp

section \<open>Products\<close>

lemma entries_of_row:
  assumes "r < length ts"
  shows "filter (\<lambda>e. fst e = r) (map (\<lambda>(r, c, v). (nat r, nat c, v)) (entries_of ts)) = map (\<lambda>(c, q). (r, nat c, q)) (ts ! r)"
  using assms
proof (induction ts rule: rev_induct)
  case (snoc t ts)
  have "filter (\<lambda>e. fst e = r) (map (\<lambda>(r, c, v). (nat r, nat c, v)) (entries_of ts)) = []" if "r = length ts"
    using that by (auto simp: filter_empty_conv entries_of_def)
  with snoc show ?case by (cases "r < length ts") (auto simp: entries_of_snoc nth_append filter_empty_conv o_def case_prod_beta less_Suc_eq filter_map)
qed simp

definition plain_rows :: "rounding \<Rightarrow> nat \<Rightarrow> (int \<times> rat) list list \<Rightarrow> bool" where
  "plain_rows rnd n ts \<longleftrightarrow>
     (\<forall>t \<in> set ts. distinct (map fst t) \<and> (\<forall>(c, q) \<in> set t. 0 \<le> c \<and> c < int n \<and> rnd q = Some q))"

lemma plain_entries_of: "plain_rows rnd n ts \<Longrightarrow> int (length ts) \<le> rows \<Longrightarrow> plain_entries rnd rows (int n) (entries_of ts)"
proof (induction ts rule: rev_induct)
  case Nil
  show ?case by (simp add: plain_entries_def entries_of_def)
next
  case (snoc t ts)
  then have ih: "plain_entries rnd rows (int n) (entries_of ts)" by (simp add: plain_rows_def)
  from snoc.prems have t: "distinct (map fst t)" "\<forall>(c, q) \<in> set t. 0 \<le> c \<and> c < int n \<and> rnd q = Some q"
    by (simp_all add: plain_rows_def)
  have old: "fst (entry_key e) < length ts" if "e \<in> set (entries_of ts)" for e
    using that by (auto simp: entries_of_def entry_key_def)
  have inj: "inj_on nat (fst ` set t)" using t(2) by (auto intro!: inj_on_inverseI[of _ int])
  then have "distinct (map nat (map fst t))" using t(1) by (simp add: distinct_map comp_inj_on)
  then have "distinct (map entry_key (map (\<lambda>(c, q). (int (length ts), c, q)) t))"
    by (auto simp: distinct_map entry_key_def inj_on_def)
  moreover have "entry_key ` set (entries_of ts) \<inter> entry_key ` set (map (\<lambda>(c, q). (int (length ts), c, q)) t) = {}"
    using old by (fastforce simp: entry_key_def)
  ultimately show ?case using ih t(2) snoc.prems(2) by (auto simp: plain_entries_def entries_of_snoc)
qed

lemma matrix_of_rows:
  assumes "plain_rows rnd n ts"
  shows "\<exists>m. from_entries rnd (int (length ts)) (int n) (entries_of ts) = Inr m \<and> cm_rows m = length ts \<and> cm_columns m = n \<and>
    valid_csr m \<and> (\<forall>(r, c, v) \<in> set (iter_entries m). rnd v = Some v) \<and>
    (\<forall>xs. length xs = n \<longrightarrow> matvec Some m xs = Inr (map (\<lambda>t. \<Sum>(c, q) \<leftarrow> t. q * xs ! nat c) ts))"
proof -
  have "row_sum (entries_of ts) xs r = (\<Sum>(c, q) \<leftarrow> ts ! r. q * xs ! nat c)" if "r < length ts" for r xs
    unfolding row_sum_def entries_of_row[OF that] by (simp add: o_def case_prod_unfold)
  then have "map (row_sum (entries_of ts) xs) [0 ..< length ts] = map (\<lambda>t. \<Sum>(c, q) \<leftarrow> t. q * xs ! nat c) ts" for xs
    by (intro nth_equalityI) simp_all
  with matrix_of_entries[OF plain_entries_of[OF assms order_refl]] show ?thesis by simp
qed

section \<open>Coordinates\<close>

lemma coordinate_index_nth:
  assumes "distinct coordinates" "k < length coordinates"
  shows "coordinate_index coordinates (coordinates ! k) = int k"
proof -
  have "map_of (zip coordinates (map int [0 ..< length coordinates])) (coordinates ! k) = Some (int k)"
    using assms by (intro map_of_is_SomeI) (auto simp: set_zip)
  then show ?thesis by (simp add: coordinate_index_def)
qed

lemma coordinate_index_range:
  assumes "distinct coordinates" "i \<in> set coordinates"
  shows "0 \<le> coordinate_index coordinates i" "coordinate_index coordinates i < int (length coordinates)"
    "coordinates ! nat (coordinate_index coordinates i) = i"
proof -
  from assms(2) obtain k where "k < length coordinates" "i = coordinates ! k" by (auto simp: in_set_conv_nth)
  with coordinate_index_nth[OF assms(1)] show "0 \<le> coordinate_index coordinates i"
    "coordinate_index coordinates i < int (length coordinates)" "coordinates ! nat (coordinate_index coordinates i) = i" by auto
qed

lemma coordinate_index_inj:
  "distinct coordinates \<Longrightarrow> inj_on (coordinate_index coordinates) (set coordinates)"
  by (rule inj_on_inverseI[of _ "\<lambda>c. coordinates ! nat c"]) (rule coordinate_index_range(3))

definition valuation :: "string list \<Rightarrow> rat list \<Rightarrow> string \<Rightarrow> rat" where
  "valuation coordinates xs i = xs ! nat (coordinate_index coordinates i)"

lemma valuation_map: "distinct coordinates \<Longrightarrow> i \<in> set coordinates \<Longrightarrow> valuation coordinates (map X coordinates) i = X i"
  using coordinate_index_range[of coordinates i] by (simp add: valuation_def nat_less_iff)

lemma indexed_value: "(\<Sum>(c, q) \<leftarrow> indexed coordinates ts. q * xs ! nat c) = row_value (valuation coordinates xs) ts"
  by (simp add: indexed_def row_value_def valuation_def o_def case_prod_unfold)

text \<open>Rows over the coordinates whose terms are distinct and whose coefficients are one in size.\<close>

definition unit_rows :: "string list \<Rightarrow> (string \<times> rat) list list \<Rightarrow> bool" where
  "unit_rows coordinates tss \<longleftrightarrow> (\<forall>ts \<in> set tss. distinct (map fst ts) \<and>
     (\<forall>(i, q) \<in> set ts. i \<in> set coordinates \<and> (q = 1 \<or> q = -1)))"

lemma unit_rows_plain:
  assumes "distinct coordinates" "unit_rows coordinates tss" "rnd 1 = Some 1" "rnd (-1) = Some (-1)"
  shows "plain_rows rnd (length coordinates) (map (indexed coordinates) tss)"
proof -
  have "distinct (map fst (indexed coordinates ts))" if "ts \<in> set tss" for ts
  proof -
    from that assms(2) have "distinct (map fst ts)" "fst ` set ts \<subseteq> set coordinates" by (fastforce simp: unit_rows_def)+
    with coordinate_index_inj[OF assms(1)] have "distinct (map (coordinate_index coordinates) (map fst ts))"
      by (auto simp: distinct_map intro!: comp_inj_on intro: inj_on_subset)
    moreover have "map (coordinate_index coordinates) (map fst ts) = map fst (indexed coordinates ts)" by (simp add: indexed_def o_def case_prod_beta)
    ultimately show ?thesis by simp
  qed
  moreover have "0 \<le> c \<and> c < int (length coordinates) \<and> rnd q = Some q" if ts: "ts \<in> set tss" "(c, q) \<in> set (indexed coordinates ts)" for ts c q
  proof -
    from ts(2) obtain i where "(i, q) \<in> set ts" "c = coordinate_index coordinates i" by (auto simp: indexed_def)
    with assms ts(1) coordinate_index_range(1,2)[OF assms(1), of i] show ?thesis by (fastforce simp: unit_rows_def)
  qed
  ultimately show ?thesis by (auto simp: plain_rows_def)
qed

lemma matrix_of_named_rows:
  assumes "distinct coordinates" "unit_rows coordinates tss" "rnd 1 = Some 1" "rnd (-1) = Some (-1)"
  shows "\<exists>m. from_entries rnd (int (length tss)) (int (length coordinates)) (entries_of (map (indexed coordinates) tss)) = Inr m \<and>
    cm_rows m = length tss \<and> cm_columns m = length coordinates \<and>
    valid_csr m \<and> (\<forall>(r, c, v) \<in> set (iter_entries m). rnd v = Some v) \<and>
    (\<forall>xs. length xs = length coordinates \<longrightarrow> matvec Some m xs = Inr (map (row_value (valuation coordinates xs)) tss))"
  using matrix_of_rows[OF unit_rows_plain[OF assms]] by (simp add: indexed_value o_def)

section \<open>The compiled rows\<close>

text \<open>The valuations that satisfy the groups are those that satisfy the classified rows.\<close>

lemma group_rows_satisfied:
  assumes "ms \<noteq> []"
  shows "(\<forall>(ts, v) \<in> set (group_rows fixed f ms). row_value X ts = v) \<longleftrightarrow>
    (\<forall>m \<in> set ms. X m = X (hd ms)) \<and> (\<forall>v. fixed (f (hd ms)) = Some v \<longrightarrow> X (hd ms) = v)"
  using assms by (cases ms; cases "fixed (f (hd ms))") (auto simp: group_rows_def row_value_def ball_Un)

text \<open>A valuation that is constant on the classes and has their values.\<close>

definition classwise :: "string set \<Rightarrow> (string \<Rightarrow> string) \<Rightarrow> (string \<rightharpoonup> rat) \<Rightarrow> (string \<Rightarrow> rat) \<Rightarrow> bool" where
  "classwise V f fixed X \<longleftrightarrow> (\<forall>u \<in> V. \<forall>w \<in> V. f u = f w \<longrightarrow> X u = X w) \<and> (\<forall>u \<in> V. \<forall>v. fixed (f u) = Some v \<longrightarrow> X u = v)"

lemma classwiseD:
  assumes "classwise V f fixed X" "u \<in> V"
  shows "w \<in> V \<Longrightarrow> f u = f w \<Longrightarrow> X u = X w" "fixed (f u) = Some v \<Longrightarrow> X u = v"
  using assms unfolding classwise_def by blast+

lemma grouped_members:
  assumes "grouped f coordinates gs" "(r, ms) \<in> set gs"
  shows "set ms = {u \<in> set coordinates. f u = r}" "ms \<noteq> []" "hd ms \<in> set coordinates" "f (hd ms) = r"
proof -
  have "f ` set coordinates = fst ` set gs" using assms(1) by (simp add: grouped_def)
  then have "r \<in> f ` set coordinates" using image_eqI[of r fst "(r, ms)"] assms(2) by simp
  moreover have ms: "ms = filter (\<lambda>v. f v = r) coordinates" using assms unfolding grouped_def by blast
  ultimately show ne: "ms \<noteq> []" by (auto simp: filter_empty_conv)
  from ms show "set ms = {u \<in> set coordinates. f u = r}" by simp
  with hd_in_set[OF ne] show "hd ms \<in> set coordinates" "f (hd ms) = r" by auto
qed

lemma grouped_classwise:
  assumes gs: "grouped f coordinates gs"
  shows "(\<forall>(r, ms) \<in> set gs. (\<forall>m \<in> set ms. X m = X (hd ms)) \<and> (\<forall>v. fixed (f (hd ms)) = Some v \<longrightarrow> X (hd ms) = v)) \<longleftrightarrow>
    classwise (set coordinates) f fixed X" (is "?groups \<longleftrightarrow> _")
proof
  assume g: ?groups
  have "X u = X w \<and> (\<forall>v. fixed (f u) = Some v \<longrightarrow> X u = v)" if uw: "u \<in> set coordinates" "w \<in> set coordinates" "f u = f w" for u w
  proof -
    have "f u \<in> fst ` set gs" using gs imageI[OF uw(1), of f] by (simp add: grouped_def)
    then obtain ms where ms: "(f u, ms) \<in> set gs" by auto
    note m = grouped_members[OF gs ms]
    from g ms have "\<forall>m \<in> set ms. X m = X (hd ms)" "\<forall>v. fixed (f (hd ms)) = Some v \<longrightarrow> X (hd ms) = v" by blast+
    with m(1,4) uw show ?thesis by simp
  qed
  then show "classwise (set coordinates) f fixed X" unfolding classwise_def by blast
next
  assume c: "classwise (set coordinates) f fixed X"
  have "(\<forall>m \<in> set ms. X m = X (hd ms)) \<and> (\<forall>v. fixed (f (hd ms)) = Some v \<longrightarrow> X (hd ms) = v)" if ms: "(r, ms) \<in> set gs" for r ms
  proof (intro conjI ballI allI impI)
    note m = grouped_members[OF gs ms]
    show "X n = X (hd ms)" if "n \<in> set ms" for n
      using that m by (intro classwiseD(1)[OF c]) simp_all
    show "X (hd ms) = v" if "fixed (f (hd ms)) = Some v" for v
      using m(3) that by (rule classwiseD(2)[OF c])
  qed
  then show ?groups by blast
qed

lemma classwise_holds:
  assumes f: "class_representatives (set coordinates) ks f" and fixed: "fixes_exactly f ks fixed"
    and names: "\<forall>k \<in> set ks. names_of k \<subseteq> set coordinates"
  shows "classwise (set coordinates) f fixed X \<longleftrightarrow> (\<forall>k \<in> set ks. holds X k)"
proof
  assume c: "classwise (set coordinates) f fixed X"
  show "\<forall>k \<in> set ks. holds X k"
  proof
    fix k assume k: "k \<in> set ks"
    with names have n: "names_of k \<subseteq> set coordinates" by blast
    show "holds X k"
    proof (cases k)
      case (Fix i v)
      with k fixed have "fixed (f i) = Some v" unfolding fixes_exactly_def by blast
      with n show ?thesis using classwiseD(2)[OF c, of i v] by (simp add: Fix)
    next
      case (Equality i j)
      with k f have "f i = f j" unfolding class_representatives_def by blast
      with n show ?thesis using classwiseD(1)[OF c, of i j] by (simp add: Equality)
    qed
  qed
next
  assume h: "\<forall>k \<in> set ks. holds X k"
  with f have rep: "\<And>v. v \<in> set coordinates \<Longrightarrow> X (f v) = X v" unfolding class_representatives_def by blast
  have "X u = v" if uv: "u \<in> set coordinates" "fixed (f u) = Some v" for u v
  proof -
    from uv(2) fixed obtain i where i: "Fix i v \<in> set ks" "f i = f u" unfolding fixes_exactly_def by blast
    from bspec[OF h i(1)] bspec[OF names i(1)] have "X i = v" "i \<in> set coordinates" by simp_all
    with rep[of i] rep[OF uv(1)] i(2) show ?thesis by simp
  qed
  moreover have "X u = X w" if "u \<in> set coordinates" "w \<in> set coordinates" "f u = f w" for u w
    using rep[OF that(1)] rep[OF that(2)] that(3) by simp
  ultimately show "classwise (set coordinates) f fixed X" unfolding classwise_def by blast
qed

lemma compiled_rows_satisfied:
  assumes "class_representatives (set coordinates) ks f" "fixes_exactly f ks fixed" "\<forall>k \<in> set ks. names_of k \<subseteq> set coordinates"
    and gs: "grouped f coordinates gs"
  shows "(\<forall>(ts, v) \<in> set (concat (map (group_rows fixed f) (map snd gs))). row_value X ts = v) \<longleftrightarrow> (\<forall>k \<in> set ks. holds X k)"
proof -
  have "(\<forall>(ts, v) \<in> set (concat (map (group_rows fixed f) (map snd gs))). row_value X ts = v) \<longleftrightarrow>
      (\<forall>(r, ms) \<in> set gs. \<forall>(ts, v) \<in> set (group_rows fixed f ms). row_value X ts = v)" by fastforce
  also have "\<dots> \<longleftrightarrow> (\<forall>(r, ms) \<in> set gs. (\<forall>m \<in> set ms. X m = X (hd ms)) \<and> (\<forall>v. fixed (f (hd ms)) = Some v \<longrightarrow> X (hd ms) = v))"
  proof (intro ball_cong refl, clarify)
    fix r ms assume "(r, ms) \<in> set gs"
    from group_rows_satisfied[OF grouped_members(2)[OF gs this]]
    show "(\<forall>(ts, v) \<in> set (group_rows fixed f ms). row_value X ts = v) \<longleftrightarrow>
      (\<forall>m \<in> set ms. X m = X (hd ms)) \<and> (\<forall>v. fixed (f (hd ms)) = Some v \<longrightarrow> X (hd ms) = v)" .
  qed
  finally show ?thesis using grouped_classwise[OF gs] classwise_holds[OF assms(1-3)] by simp
qed

end
