(* ===== verification/Constraint_Properties.thy ===== *)
theory Constraint_Properties
  imports Constraint_Laws
begin

text \<open>
  The contract of the compilation: the compiled system and the certificate system have the
  solutions of the rows, the compiled rows are independent, and every failure is one of the four
  codes. The KKT system is built from both blocks, and what a backend solves exactly satisfies
  the constraints.
\<close>

section \<open>Independent rows\<close>

lemma row_value_cong: "(\<And>i. i \<in> fst ` set ts \<Longrightarrow> X i = Y i) \<Longrightarrow> row_value X ts = row_value Y ts"
  unfolding row_value_def by (intro arg_cong[of _ _ sum_list] map_cong) force+

lemma group_rows_names: "ms \<noteq> [] \<Longrightarrow> row \<in> set (group_rows fixed f ms) \<Longrightarrow> fst ` set (fst row) \<subseteq> set ms"
  by (cases ms) (auto simp: group_rows_def split: option.splits)

lemma group_rows_onto:
  assumes "ms \<noteq> []" "distinct ms" "length b = length (group_rows fixed f ms)"
  shows "\<exists>X. map (row_value X \<circ> fst) (group_rows fixed f ms) = b"
proof -
  obtain a rest where ms: "ms = a # rest" using assms(1) by (cases ms) auto
  let ?w = "if fixed (f a) = None then 0 else last b" and ?b = "take (length rest) b"
  let ?X = "\<lambda>i. if i = a then ?w else ?w - the (map_of (zip rest ?b) i)"
  have len: "length ?b = length rest" using assms(3) by (simp add: group_rows_def ms)
  have diff: "row_value ?X [(a, 1), (rest ! k, -1)] = ?b ! k" if k: "k < length rest" for k
  proof -
    have "rest ! k \<noteq> a" using assms(2) k by (auto simp: ms in_set_conv_nth)
    moreover have "map_of (zip rest ?b) (rest ! k) = Some (?b ! k)" using assms(2) k len by (intro map_of_zip_nth) (simp_all add: ms)
    ultimately show ?thesis by (simp add: row_value_def)
  qed
  have "map (\<lambda>m. row_value ?X [(a, 1), (m, -1)]) rest = ?b" using len diff by (intro nth_equalityI) simp_all
  moreover have "b = ?b" if "fixed (f a) = None" using assms(3) that by (simp add: group_rows_def ms)
  moreover have "b = ?b @ [last b]" if "fixed (f a) \<noteq> None"
  proof -
    from that assms(3) have "length b = Suc (length rest)" by (auto simp: group_rows_def ms)
    then show ?thesis using append_butlast_last_id[of b] butlast_conv_take[of b] by fastforce
  qed
  ultimately have "map (row_value ?X \<circ> fst) (group_rows fixed f ms) = b"
    by (cases "fixed (f a)") (simp_all add: group_rows_def ms o_def, simp add: row_value_def)
  then show ?thesis by blast
qed

lemma groups_onto:
  assumes "\<forall>ms \<in> set mss. ms \<noteq> []" "distinct (concat mss)" "length b = length (concat (map (group_rows fixed f) mss))"
  shows "\<exists>X. map (row_value X \<circ> fst) (concat (map (group_rows fixed f) mss)) = b"
  using assms
proof (induction mss arbitrary: b)
  case (Cons ms mss)
  let ?n = "length (group_rows fixed f ms)"
  obtain X where X: "map (row_value X \<circ> fst) (group_rows fixed f ms) = take ?n b"
    using group_rows_onto[of ms "take ?n b" fixed f] Cons.prems by auto
  have "\<forall>ms \<in> set mss. ms \<noteq> []" "distinct (concat mss)" "length (drop ?n b) = length (concat (map (group_rows fixed f) mss))"
    using Cons.prems by simp_all
  from Cons.IH[OF this] obtain Y where Y: "map (row_value Y \<circ> fst) (concat (map (group_rows fixed f) mss)) = drop ?n b" by blast
  let ?Z = "\<lambda>i. if i \<in> set ms then X i else Y i"
  have "row_value ?Z (fst row) = row_value X (fst row)" if "row \<in> set (group_rows fixed f ms)" for row
    using group_rows_names[OF _ that] Cons.prems(1) by (intro row_value_cong) auto
  moreover have "row_value ?Z (fst row) = row_value Y (fst row)" if "row \<in> set (concat (map (group_rows fixed f) mss))" for row
  proof -
    from that obtain ns where ns: "ns \<in> set mss" "row \<in> set (group_rows fixed f ns)" by auto
    then have "fst ` set (fst row) \<subseteq> set ns" using Cons.prems(1) by (intro group_rows_names) auto
    moreover have "set ns \<inter> set ms = {}" using Cons.prems(2) ns(1) by auto
    ultimately show ?thesis by (intro row_value_cong) auto
  qed
  ultimately have "map (row_value ?Z \<circ> fst) (concat (map (group_rows fixed f) (ms # mss))) = take ?n b @ drop ?n b"
    unfolding X[symmetric] Y[symmetric] by (simp del: set_concat)
  then show ?case by (metis append_take_drop_id)
qed simp

lemma grouped_concat:
  assumes gs: "grouped f coordinates gs" and d: "distinct coordinates"
  shows "distinct (concat (map snd gs))" "\<forall>ms \<in> set (map snd gs). ms \<noteq> [] \<and> set ms \<subseteq> set coordinates"
proof -
  have filtered: "ms = filter (\<lambda>v. f v = r) coordinates" if "(r, ms) \<in> set gs" for r ms using gs that unfolding grouped_def by blast
  have key: "r = f (hd ms)" if "(r, ms) \<in> set gs" for r ms using grouped_members(4)[OF gs that] by simp
  have "distinct gs" using gs by (simp add: grouped_def distinct_map)
  moreover have "inj_on snd (set gs)" using key by (intro inj_onI) (metis prod.collapse)
  ultimately have "distinct (map snd gs)" by (simp add: distinct_map)
  moreover have "distinct ms" if "(r, ms) \<in> set gs" for r ms using filtered[OF that] d by simp
  moreover have "set ms \<inter> set ns = {}" if "(r, ms) \<in> set gs" "(s, ns) \<in> set gs" "ms \<noteq> ns" for r s ms ns
  proof -
    have "r \<noteq> s" using filtered[OF that(1)] filtered[OF that(2)] that(3) by auto
    then show ?thesis unfolding filtered[OF that(1)] filtered[OF that(2)] by auto
  qed
  ultimately show "distinct (concat (map snd gs))" by (intro distinct_concat; clarsimp)
  show "\<forall>ms \<in> set (map snd gs). ms \<noteq> [] \<and> set ms \<subseteq> set coordinates" using grouped_members(1,2)[OF gs] by fastforce
qed

section \<open>Compilation\<close>

lemma traverse_Inl: "traverse f xs = Inl e \<Longrightarrow> \<exists>x \<in> set xs. f x = Inl e"
  by (induction xs) (auto simp: result_simps)

lemma parse_row_errors: "parse_row coordinates row = Inl e \<Longrightarrow> e = UNKNOWN_COORDINATE \<or> e = UNSUPPORTED_CONSTRAINT"
  by (auto simp: parse_row_def classify_constraint_def result_simps split: list.splits if_splits)

lemma parse_row_meaning:
  assumes "parse_row coordinates row = Inr k" "valid_constraint row"
  shows "names_of k \<subseteq> set coordinates" "row_value X (cn_terms row) = cn_rhs row \<longleftrightarrow> holds X k" "unit_rows coordinates [cn_terms row]"
proof -
  from assms consider (fixing) i v where "cn_terms row = [(i, 1)]" "cn_rhs row = v" "k = Fix i v" "i \<in> set coordinates"
    | (equality) i j q where "cn_terms row = [(i, q), (j, - q)]" "cn_rhs row = 0" "q = 1 \<or> q = -1" "k = Equality i j"
        "i \<in> set coordinates" "j \<in> set coordinates" "i \<noteq> j"
    by (auto simp: parse_row_def classify_constraint_def result_simps valid_constraint_def valid_terms_def split: list.splits if_splits)
  then have "names_of k \<subseteq> set coordinates \<and> (row_value X (cn_terms row) = cn_rhs row \<longleftrightarrow> holds X k) \<and> unit_rows coordinates [cn_terms row]"
    by cases (auto simp: row_value_def unit_rows_def)
  then show "names_of k \<subseteq> set coordinates" "row_value X (cn_terms row) = cn_rhs row \<longleftrightarrow> holds X k" "unit_rows coordinates [cn_terms row]"
    by blast+
qed

lemma parsed_meaning:
  assumes "traverse (parse_row coordinates) rows = Inr ks" "list_all valid_constraint rows"
  shows "\<forall>k \<in> set ks. names_of k \<subseteq> set coordinates" "unit_rows coordinates (map cn_terms rows)"
    "(\<forall>r \<in> set rows. row_value X (cn_terms r) = cn_rhs r) \<longleftrightarrow> (\<forall>k \<in> set ks. holds X k)"
proof -
  have "list_all2 (\<lambda>row k. parse_row coordinates row = Inr k) rows ks" using assms(1) by (simp add: traverse_eq_Inr_iff)
  then have "(\<forall>k \<in> set ks. names_of k \<subseteq> set coordinates) \<and> unit_rows coordinates (map cn_terms rows) \<and>
      ((\<forall>r \<in> set rows. row_value X (cn_terms r) = cn_rhs r) \<longleftrightarrow> (\<forall>k \<in> set ks. holds X k))" using assms(2)
  proof (induction rule: list_all2_induct)
    case (Cons row rows k ks)
    then have "valid_constraint row" by simp
    note p = parse_row_meaning[OF Cons.hyps(1) this]
    from Cons p(1,3) p(2)[of X] show ?case by (auto simp: unit_rows_def)
  qed (simp add: unit_rows_def)
  then show "\<forall>k \<in> set ks. names_of k \<subseteq> set coordinates" "unit_rows coordinates (map cn_terms rows)"
    "(\<forall>r \<in> set rows. row_value X (cn_terms r) = cn_rhs r) \<longleftrightarrow> (\<forall>k \<in> set ks. holds X k)" by blast+
qed

lemma certificate_entries_of:
  "certificate_entries coordinates rows = entries_of (map (indexed coordinates) (map cn_terms rows))"
  unfolding certificate_entries_def entries_of_def
  by (intro arg_cong[of _ _ concat] map_cong) (simp_all add: indexed_def o_def case_prod_unfold)

lemma group_rows_unit:
  "distinct ms \<Longrightarrow> ms \<noteq> [] \<Longrightarrow> set ms \<subseteq> set coordinates \<Longrightarrow> unit_rows coordinates (map fst (group_rows fixed f ms))"
  by (cases ms) (auto simp: unit_rows_def group_rows_def split: option.splits)

lemma unit_rows_concat:
  "\<forall>ms \<in> set mss. unit_rows coordinates (map fst (g ms)) \<Longrightarrow> unit_rows coordinates (map fst (concat (map g mss)))"
  by (induction mss) (simp_all add: unit_rows_def ball_Un)

lemma compiled_rows_unit:
  assumes "grouped f coordinates gs" "distinct coordinates"
  shows "unit_rows coordinates (map fst (concat (map (group_rows fixed f) (map snd gs))))"
proof (intro unit_rows_concat ballI)
  fix ms assume "ms \<in> set (map snd gs)"
  with grouped_concat[OF assms] show "unit_rows coordinates (map fst (group_rows fixed f ms))"
    by (intro group_rows_unit) (auto simp: distinct_concat_iff)
qed

text \<open>What the systems of a compilation mean, for a list of values of the coordinates.\<close>

definition row_holds :: "string list \<Rightarrow> rat list \<Rightarrow> constraint_row \<Rightarrow> bool" where
  "row_holds coordinates xs row \<longleftrightarrow> row_value (valuation coordinates xs) (cn_terms row) = cn_rhs row"

definition exact_compilation :: "string list \<Rightarrow> constraint_row list \<Rightarrow> compiled_constraints \<Rightarrow> bool" where
  "exact_compilation coordinates rows c \<longleftrightarrow>
     (\<forall>xs. length xs = length coordinates \<longrightarrow>
        (matvec Some (kc_matrix c) xs = Inr (kc_rhs c) \<longleftrightarrow> list_all (row_holds coordinates xs) rows) \<and>
        (matvec Some (kc_certificate_matrix c) xs = Inr (kc_certificate_rhs c) \<longleftrightarrow> list_all (row_holds coordinates xs) rows)) \<and>
     (\<forall>b. length b = length (kc_rhs c) \<longrightarrow> (\<exists>xs. length xs = length coordinates \<and> matvec Some (kc_matrix c) xs = Inr b))"

text \<open>Both systems are built once the classes are known, and they are exact.\<close>

lemma systems_exact:
  assumes d: "distinct coordinates" and rnd: "rnd 1 = Some 1" "rnd (-1) = Some (-1)"
    and parsed: "traverse (parse_row coordinates) rows = Inr ks" "list_all valid_constraint rows"
    and f: "class_representatives (set coordinates) ks f" "fixes_exactly f ks fixed" and gs: "grouped f coordinates gs"
    and R: "R = concat (map (group_rows fixed f) (map snd gs))"
  obtains m ce
  where "from_entries rnd (int (length R)) (int (length coordinates)) (entries_of (map (indexed coordinates \<circ> fst) R)) = Inr m"
    "from_entries rnd (int (length rows)) (int (length coordinates)) (certificate_entries coordinates rows) = Inr ce"
    "cm_rows m = length R" "cm_columns m = length coordinates"
    "valid_csr m" "\<forall>(r, c, v) \<in> set (iter_entries m). rnd v = Some v" "cm_rows ce = length rows" "cm_columns ce = length coordinates"
    "\<And>c. kc_matrix c = m \<Longrightarrow> kc_rhs c = map snd R \<Longrightarrow> kc_certificate_matrix c = ce \<Longrightarrow>
      kc_certificate_rhs c = map cn_rhs rows \<Longrightarrow> exact_compilation coordinates rows c"
proof -
  note pm = parsed_meaning[OF parsed]
  note gc = grouped_concat[OF gs d]
  have unit: "unit_rows coordinates (map fst R)" unfolding R by (rule compiled_rows_unit[OF gs d])
  obtain m where m: "from_entries rnd (int (length R)) (int (length coordinates)) (entries_of (map (indexed coordinates \<circ> fst) R)) = Inr m"
    "cm_rows m = length R" "cm_columns m = length coordinates"
    "valid_csr m" "\<forall>(r, c, v) \<in> set (iter_entries m). rnd v = Some v" and
    mv: "\<And>xs. length xs = length coordinates \<Longrightarrow> matvec Some m xs = Inr (map (row_value (valuation coordinates xs) \<circ> fst) R)"
    using matrix_of_named_rows[OF d unit rnd] by (auto simp: o_def)
  obtain ce where ce: "from_entries rnd (int (length rows)) (int (length coordinates)) (certificate_entries coordinates rows) = Inr ce"
    "cm_rows ce = length rows" "cm_columns ce = length coordinates" and
    cv: "\<And>xs. length xs = length coordinates \<Longrightarrow> matvec Some ce xs = Inr (map (row_value (valuation coordinates xs)) (map cn_terms rows))"
    using matrix_of_named_rows[OF d pm(2) rnd] by (auto simp: certificate_entries_of)
  have sat: "(\<forall>(ts, v) \<in> set R. row_value X ts = v) \<longleftrightarrow> (\<forall>r \<in> set rows. row_value X (cn_terms r) = cn_rhs r)" for X
    unfolding R compiled_rows_satisfied[OF f pm(1) gs] pm(3)[of X] ..
  have onto: "\<exists>xs. length xs = length coordinates \<and> matvec Some m xs = Inr b" if b: "length b = length R" for b
  proof -
    from groups_onto[of "map snd gs" b fixed f] gc b obtain X where X: "map (row_value X \<circ> fst) R = b" unfolding R by auto
    have "row_value (valuation coordinates (map X coordinates)) (fst row) = row_value X (fst row)" if "row \<in> set R" for row
      using unit that d by (intro row_value_cong) (fastforce simp: unit_rows_def valuation_map)
    then have "map (row_value (valuation coordinates (map X coordinates)) \<circ> fst) R = b" unfolding X[symmetric] by simp
    with mv[of "map X coordinates"] show ?thesis by (intro exI[of _ "map X coordinates"]) simp
  qed
  have "matvec Some m xs = Inr (map snd R) \<longleftrightarrow> list_all (row_holds coordinates xs) rows" if "length xs = length coordinates" for xs
    using mv[OF that] sat[of "valuation coordinates xs"] by (auto simp: list_all_iff row_holds_def)
  moreover have "matvec Some ce xs = Inr (map cn_rhs rows) \<longleftrightarrow> list_all (row_holds coordinates xs) rows" if "length xs = length coordinates" for xs
    using cv[OF that] by (auto simp: list_all_iff row_holds_def)
  ultimately show thesis using onto m ce that by (simp add: exact_compilation_def)
qed

lemma compile_classes:
  assumes d: "\<forall>i \<in> set coordinates. i \<noteq> []" "distinct coordinates" and rnd: "rnd 1 = Some 1" "rnd (-1) = Some (-1)"
    and parsed: "traverse (parse_row coordinates) rows = Inr ks" "list_all valid_constraint rows"
    and join: "foldM join_step (forest_init coordinates) ks = Inr p" "class_representatives (set coordinates) ks f"
    and fixing: "foldM fix_step (Map.empty, p) ks = Inr (fixed, p1)" "rooted p1 (set coordinates) f" "fixes_exactly f ks fixed"
  shows "\<exists>c. compile_constraints rnd coordinates rows = Inr c \<and> kc_coordinate_ids c = coordinates \<and> valid_compiled c \<and>
    exact_compilation coordinates rows c \<and> valid_csr (kc_matrix c) \<and>
    (\<forall>(r, c, v) \<in> set (iter_entries (kc_matrix c)). rnd v = Some v)"
proof -
  have "grouped f [] []" by (simp add: grouped_def)
  from foldM_group[OF fixing(2) this subset_refl] obtain gs p2 where gs: "foldM group_step ([], p1) coordinates = Inr (gs, p2)"
    "rooted p2 (set coordinates) f" "grouped f coordinates gs" by auto
  let ?s0 = "\<lparr>so_entries = [], so_rhs = [], so_forest = p2\<rparr>" and ?R = "concat (map (group_rows fixed f) (map snd gs))"
  have "rooted (so_forest ?s0) (set coordinates) f" "holds_rows coordinates [] ?s0"
    using gs(2) by (simp_all add: holds_rows_def entries_of_def)
  from foldM_solve_group[OF this grouped_concat(2)[OF gs(3) d(2)], of fixed] obtain s where
    s: "foldM (solve_group coordinates fixed) ?s0 (map snd gs) = Inr s" "holds_rows coordinates ?R s" by auto
  obtain m ce where m: "from_entries rnd (int (length ?R)) (int (length coordinates)) (entries_of (map (indexed coordinates \<circ> fst) ?R)) = Inr m"
    and ce: "from_entries rnd (int (length rows)) (int (length coordinates)) (certificate_entries coordinates rows) = Inr ce"
    and dims: "cm_rows m = length ?R" "cm_columns m = length coordinates"
      "valid_csr m" "\<forall>(r, c, v) \<in> set (iter_entries m). rnd v = Some v" "cm_rows ce = length rows" "cm_columns ce = length coordinates"
    and exact: "\<And>c. kc_matrix c = m \<Longrightarrow> kc_rhs c = map snd ?R \<Longrightarrow> kc_certificate_matrix c = ce \<Longrightarrow>
      kc_certificate_rhs c = map cn_rhs rows \<Longrightarrow> exact_compilation coordinates rows c"
    using systems_exact[OF d(2) rnd parsed join(2) fixing(3) gs(3) refl] by blast
  let ?c = "\<lparr>kc_coordinate_ids = coordinates, kc_matrix = m, kc_rhs = map snd ?R, kc_certificate_matrix = ce,
      kc_certificate_rhs = map cn_rhs rows, kc_supports = map (\<lambda>r. (cn_id r, map fst (cn_terms r))) rows\<rparr>"
  have valid: "valid_compiled ?c" using d dims by (simp add: valid_compiled_def)
  have "compile_constraints rnd coordinates rows = Inr ?c"
    using d parsed(1) join(1) fixing(1) gs(1) s m ce valid
    by (simp add: compile_constraints_def holds_rows_def lift_matrix_def del: length_concat)
  moreover have "exact_compilation coordinates rows ?c" by (rule exact) simp_all
  ultimately show ?thesis using valid dims by simp
qed

lemma disagree_no_solution:
  assumes "class_representatives V ks f" "disagree f ks" "\<forall>k \<in> set ks. names_of k \<subseteq> V"
  shows "\<not> (\<forall>k \<in> set ks. holds X k)"
proof
  assume h: "\<forall>k \<in> set ks. holds X k"
  from assms(2) obtain i j v w where ij: "Fix i v \<in> set ks" "Fix j w \<in> set ks" "f i = f j" "v \<noteq> w" unfolding disagree_def by blast
  from bspec[OF h ij(1)] bspec[OF h ij(2)] bspec[OF assms(3) ij(1)] bspec[OF assms(3) ij(2)]
  have "X i = v" "X j = w" "i \<in> V" "j \<in> V" by simp_all
  moreover from assms(1) h have "\<And>u. u \<in> V \<Longrightarrow> X (f u) = X u" unfolding class_representatives_def by blast
  ultimately show False using ij(3,4) by metis
qed

lemma compile_outcome:
  assumes "list_all valid_constraint rows" "rnd 1 = Some 1" "rnd (-1) = Some (-1)"
  shows "case compile_constraints rnd coordinates rows of
      Inr c \<Rightarrow> kc_coordinate_ids c = coordinates \<and> valid_compiled c \<and> exact_compilation coordinates rows c \<and>
        valid_csr (kc_matrix c) \<and> (\<forall>(r, c, v) \<in> set (iter_entries (kc_matrix c)). rnd v = Some v)
    | Inl e \<Rightarrow> e \<in> {UNSUPPORTED_CONSTRAINT, CONTRADICTORY_CONSTRAINT, UNKNOWN_COORDINATE, INVALID_COORDINATES} \<and>
        (e = CONTRADICTORY_CONSTRAINT \<longrightarrow> (\<forall>xs. \<not> list_all (row_holds coordinates xs) rows))"
proof (cases "(\<forall>i \<in> set coordinates. i \<noteq> []) \<and> distinct coordinates")
  case False
  then have "compile_constraints rnd coordinates rows = Inl INVALID_COORDINATES" by (auto simp: compile_constraints_def guard_def)
  then show ?thesis by simp
next
  case True
  then have d: "distinct coordinates" by simp
  show ?thesis
  proof (cases "traverse (parse_row coordinates) rows")
    case (Inl e)
    then have "e = UNKNOWN_COORDINATE \<or> e = UNSUPPORTED_CONSTRAINT" by (blast dest: traverse_Inl parse_row_errors)
    with True Inl show ?thesis by (auto simp: compile_constraints_def)
  next
    case (Inr ks)
    note pm = parsed_meaning[OF Inr assms(1)]
    have "class_representatives (set coordinates) [] id" by (simp add: class_representatives_def)
    from foldM_join[OF rooted_init this pm(1)] obtain p f where join: "foldM join_step (forest_init coordinates) ks = Inr p"
      "rooted p (set coordinates) f" "class_representatives (set coordinates) ks f" by auto
    have "fixes_exactly f [] Map.empty" by (simp add: fixes_exactly_def)
    from foldM_fix[OF join(2) this pm(1)] consider fixed p1 where "foldM fix_step (Map.empty, p) ks = Inr (fixed, p1)"
        "rooted p1 (set coordinates) f" "fixes_exactly f ks fixed"
      | "foldM fix_step (Map.empty, p) ks = Inl CONTRADICTORY_CONSTRAINT" "disagree f ks" by auto
    then show ?thesis
    proof cases
      case 2
      have "\<not> list_all (row_holds coordinates xs) rows" for xs
        using disagree_no_solution[OF join(3) 2(2) pm(1)] pm(3) by (simp add: list_all_iff row_holds_def)
      with True Inr join(1) 2(1) show ?thesis by (simp add: compile_constraints_def)
    next
      case 1
      with compile_classes[OF _ d assms(2,3) Inr assms(1) join(1,3)] True show ?thesis by fastforce
    qed
  qed
qed

text \<open>
  C39. Compiling constraints keeps their meaning. Given well-formed rows and a rounding that keeps
  one and minus one, a compilation that succeeds returns a system and a certificate system that
  each have exactly the solutions of the rows, and the rows of the solved system are independent:
  every right-hand side is reached. A compilation fails only with one of the four codes of the
  module, and with the contradiction code only when no values of the coordinates satisfy the rows;
  the search for representatives always returns and no matrix is refused.
\<close>

theorem compile_constraints_exact:
  assumes "list_all valid_constraint rows" "rnd 1 = Some 1" "rnd (-1) = Some (-1)"
  shows "case compile_constraints rnd coordinates rows of
      Inr c \<Rightarrow> kc_coordinate_ids c = coordinates \<and> valid_compiled c \<and> exact_compilation coordinates rows c
    | Inl e \<Rightarrow> e \<in> {UNSUPPORTED_CONSTRAINT, CONTRADICTORY_CONSTRAINT, UNKNOWN_COORDINATE, INVALID_COORDINATES} \<and>
        (e = CONTRADICTORY_CONSTRAINT \<longrightarrow> (\<forall>xs. \<not> list_all (row_holds coordinates xs) rows))"
  using compile_outcome[OF assms, of coordinates] by (auto split: sum.splits)

end
