(* ===== verification/Constraint_Solve.thy ===== *)
theory Constraint_Solve
  imports Constraint_Properties
begin

text \<open>
  The KKT system of \<^verbatim>\<open>context_graph/solver.py\<close> multiplies as its blocks do, so an answer that solves
  it satisfies every constraint row and is stationary on them.
\<close>

section \<open>Entries of a well-formed matrix\<close>

lemma valid_csr_row:
  assumes "valid_csr m" "r < cm_rows m"
  shows "\<forall>(r', c, v) \<in> set (iter_row m r). r' = r \<and> c < cm_columns m" "distinct (map (\<lambda>(r, c, v). (r, c)) (iter_row m r))"
proof -
  let ?here = "map (nth (cm_indices m)) [cm_indptr m ! r ..< cm_indptr m ! Suc r]"
  from assms have here: "\<forall>i \<in> set ?here. i < cm_columns m" "sorted_wrt (<) ?here" by (simp_all add: valid_csr_def)
  then have "distinct (map (Pair r) ?here)" by (simp add: distinct_map strict_sorted_iff inj_on_def del: map_map)
  then show "distinct (map (\<lambda>(r, c, v). (r, c)) (iter_row m r))" by (simp add: iter_row_def o_def)
  from here(1) show "\<forall>(r', c, v) \<in> set (iter_row m r). r' = r \<and> c < cm_columns m" by (auto simp: iter_row_def)
qed

lemma valid_csr_entries:
  assumes "valid_csr m"
  shows "\<forall>(r, c, v) \<in> set (iter_entries m). r < cm_rows m \<and> c < cm_columns m" "distinct (map (\<lambda>(r, c, v). (r, c)) (iter_entries m))"
proof -
  have "(\<forall>(r, c, v) \<in> set (concat (map (iter_row m) [0 ..< n])). r < n \<and> c < cm_columns m) \<and>
      distinct (map (\<lambda>(r, c, v). (r, c)) (concat (map (iter_row m) [0 ..< n])))" if "n \<le> cm_rows m" for n
    using that
  proof (induction n)
    case (Suc n)
    let ?old = "concat (map (iter_row m) [0 ..< n])" and ?key = "\<lambda>(r, c, v :: rat). (r :: nat, c :: nat)"
    from Suc have ih: "\<forall>(r, c, v) \<in> set ?old. r < n \<and> c < cm_columns m" "distinct (map ?key ?old)" by auto
    have "n < cm_rows m" using Suc.prems by simp
    note new = valid_csr_row[OF assms this]
    have "\<forall>(r, c, v) \<in> set (?old @ iter_row m n). r < Suc n \<and> c < cm_columns m" using ih(1) new(1) by fastforce
    moreover have "?key ` set ?old \<inter> ?key ` set (iter_row m n) = {}" using ih(1) new(1) by fastforce
    ultimately show ?case using ih(2) new(2) by simp
  qed simp
  from this[of "cm_rows m"] show "\<forall>(r, c, v) \<in> set (iter_entries m). r < cm_rows m \<and> c < cm_columns m"
    "distinct (map (\<lambda>(r, c, v). (r, c)) (iter_entries m))" by (auto simp: iter_entries_def)
qed

section \<open>Transposed products\<close>

lemma scatter_exact:
  assumes "\<forall>(r, c, v) \<in> set es. c < length res"
  shows "scatter Some xs es res =
    Some (map (\<lambda>j. res ! j + (\<Sum>(r, c, v) \<leftarrow> filter (\<lambda>(r, c, v). c = j) es. v * xs ! r)) [0 ..< length res])"
  using assms
proof (induction es arbitrary: res)
  case Nil
  show ?case by (simp add: map_nth)
next
  case (Cons e es)
  obtain r c v where e: "e = (r, c, v)" by (rule prod_cases3)
  from Cons show ?case by (auto simp: e add_product_def nth_list_update)
qed

lemma transpose_matvec_exact:
  assumes "valid_csr m" "length xs = cm_rows m"
  shows "transpose_matvec Some m xs =
    Inr (map (\<lambda>j. \<Sum>(r, c, v) \<leftarrow> filter (\<lambda>(r, c, v). c = j) (iter_entries m). v * xs ! r) [0 ..< cm_columns m])"
proof -
  have "\<forall>(r, c, v) \<in> set (iter_entries m). c < length (replicate (cm_columns m) (0 :: rat))" using valid_csr_entries(1)[OF assms(1)] by auto
  from scatter_exact[OF this, of xs] assms(2) show ?thesis by (simp add: transpose_matvec_def)
qed

section \<open>The block system\<close>

definition float_entries :: "rounding \<Rightarrow> csr_matrix \<Rightarrow> bool" where
  "float_entries rnd m \<longleftrightarrow> (\<forall>(r, c, v) \<in> set (iter_entries m). rnd v = Some v)"

text \<open>The entries of both constraint blocks.\<close>

definition border :: "nat \<Rightarrow> (nat \<times> nat \<times> rat) list \<Rightarrow> (int \<times> int \<times> rat) list" where
  "border n es = concat (map (\<lambda>(r, c, v). [(int c, int (n + r), v), (int (n + r), int c, v)]) es)"

lemma kkt_entries_border:
  "kkt_entries a b = map (\<lambda>(r, c, v). (int r, int c, v)) (iter_entries a) @ border (cm_rows a) (iter_entries b)"
  by (simp add: kkt_entries_def border_def)

lemma border_keys:
  assumes "\<forall>(r, c, v) \<in> set es. c < n" "distinct (map (\<lambda>(r, c, v). (r, c)) es)"
  shows "distinct (map entry_key (border n es))" "set (map entry_key (border n es)) = (\<Union>(r, c, v) \<in> set es. {(c, n + r), (n + r, c)})"
proof -
  have "distinct (map entry_key (border n es)) \<and> set (map entry_key (border n es)) = (\<Union>(r, c, v) \<in> set es. {(c, n + r), (n + r, c)})"
    using assms
  proof (induction es)
    case (Cons e es)
    obtain r c v where e: "e = (r, c, v)" by (rule prod_cases3)
    from Cons have ih: "distinct (map entry_key (border n es))"
      "set (map entry_key (border n es)) = (\<Union>(r, c, v) \<in> set es. {(c, n + r), (n + r, c)})" by auto
    from Cons.prems have c: "c < n" "\<And>w. (r, c, w) \<notin> set es" by (force simp: e)+
    have col: "d < n" if "(q, d, w) \<in> set es" for q d w using Cons.prems(1) that by auto
    have "(c, n + r) \<notin> set (map entry_key (border n es))" unfolding ih(2) using c by auto
    moreover have "(n + r, c) \<notin> set (map entry_key (border n es))" unfolding ih(2) using c by (auto dest: col)
    moreover have keys: "map entry_key (border n (e # es)) = (c, n + r) # (n + r, c) # map entry_key (border n es)"
      using nat_int[of "n + r"] unfolding e border_def by (simp add: entry_key_def)
    ultimately have "distinct (map entry_key (border n (e # es)))" unfolding keys using ih(1) c(1) by (simp only: distinct.simps list.set) auto
    moreover have "set (map entry_key (border n (e # es))) = (\<Union>(r, c, v) \<in> set (e # es). {(c, n + r), (n + r, c)})"
      unfolding keys list.set(2) ih(2) by (auto simp: e)
    ultimately show ?case by blast
  qed (simp add: border_def)
  then show "distinct (map entry_key (border n es))" "set (map entry_key (border n es)) = (\<Union>(r, c, v) \<in> set es. {(c, n + r), (n + r, c)})"
    by blast+
qed

lemma kkt_plain:
  assumes a: "valid_csr a" "cm_columns a = cm_rows a" "float_entries rnd a"
    and b: "valid_csr b" "cm_columns b = cm_rows a" "float_entries rnd b"
  shows "plain_entries rnd (int (cm_rows a + cm_rows b)) (int (cm_rows a + cm_rows b)) (kkt_entries a b)"
proof -
  let ?n = "cm_rows a" and ?A = "map (\<lambda>(r, c, v). (int r, int c, v)) (iter_entries a)"
  note ea = valid_csr_entries[OF a(1)] and eb = valid_csr_entries[OF b(1)]
  have keysA: "map entry_key ?A = map (\<lambda>(r, c, v). (r, c)) (iter_entries a)" by (auto simp: entry_key_def)
  have "\<forall>(r, c, v) \<in> set (iter_entries b). c < ?n" using eb(1) b(2) by auto
  note keysB = border_keys[OF this eb(2)]
  have "set (map entry_key ?A) \<inter> set (map entry_key (border ?n (iter_entries b))) = {}"
    unfolding keysB(2) keysA using ea(1) a(2) by fastforce
  with keysA keysB(1) ea(2) have "distinct (map entry_key (kkt_entries a b))" unfolding kkt_entries_border map_append distinct_append by metis
  moreover have "0 \<le> r \<and> r < int (?n + cm_rows b) \<and> 0 \<le> c \<and> c < int (?n + cm_rows b) \<and> rnd v = Some v"
    if "(r, c, v) \<in> set (kkt_entries a b)" for r c v
    using that ea(1) eb(1) a(2,3) b(2,3) by (fastforce simp: kkt_entries_def float_entries_def)
  ultimately show ?thesis by (auto simp: plain_entries_def)
qed

lemma row_sum_append: "row_sum (es @ fs) xs r = row_sum es xs r + row_sum fs xs r"
  by (simp add: row_sum_def)

lemma row_sum_Nil: "row_sum [] xs r = 0"
  by (simp add: row_sum_def)

lemma row_sum_Cons: "row_sum ((i, j, v) # es) xs r = (if nat i = r then v * xs ! nat j else 0) + row_sum es xs r"
  by (simp add: row_sum_def)

lemma border_Cons: "border n ((r, c, v) # es) = (int c, int (n + r), v) # (int (n + r), int c, v) # border n es"
  by (simp add: border_def)

lemma row_sum_top:
  assumes "\<forall>(r, c, v) \<in> set es. r < n \<and> c < n" "length x = n"
  shows "row_sum (map (\<lambda>(r, c, v). (int r, int c, v)) es) (x @ l) r = (\<Sum>(r, c, v) \<leftarrow> filter (\<lambda>e. fst e = r) es. v * x ! c)"
  using assms by (induction es) (auto simp: row_sum_Nil row_sum_Cons nth_append)

lemma row_sum_border:
  assumes "\<forall>(r, c, v) \<in> set es. c < n" "length x = n"
  shows "r < n \<Longrightarrow> row_sum (border n es) (x @ l) r = (\<Sum>(q, c, v) \<leftarrow> filter (\<lambda>(q, c, v). c = r) es. v * l ! q)"
    "row_sum (border n es) (x @ l) (n + k) = (\<Sum>(q, c, v) \<leftarrow> filter (\<lambda>e. fst e = k) es. v * x ! c)"
proof -
  have empty: "border n [] = []" by (simp add: border_def)
  show "r < n \<Longrightarrow> row_sum (border n es) (x @ l) r = (\<Sum>(q, c, v) \<leftarrow> filter (\<lambda>(q, c, v). c = r) es. v * l ! q)"
    using assms by (induction es) (auto simp: empty row_sum_Nil row_sum_Cons border_Cons nth_append simp del: of_nat_add)
  show "row_sum (border n es) (x @ l) (n + k) = (\<Sum>(q, c, v) \<leftarrow> filter (\<lambda>e. fst e = k) es. v * x ! c)"
    using assms by (induction es) (auto simp: empty row_sum_Nil row_sum_Cons border_Cons nth_append simp del: of_nat_add)
qed

text \<open>A product with the block system is the products of its blocks.\<close>

lemma kkt_product:
  assumes a: "valid_csr a" "cm_columns a = cm_rows a" "float_entries rnd a"
    and b: "valid_csr b" "cm_columns b = cm_rows a" "float_entries rnd b"
  obtains kkt where
    "from_entries rnd (int (cm_rows a + cm_rows b)) (int (cm_rows a + cm_rows b)) (kkt_entries a b) = Inr kkt"
    "cm_columns kkt = cm_rows a + cm_rows b"
    "\<And>x l. length x = cm_rows a \<Longrightarrow> length l = cm_rows b \<Longrightarrow>
       \<exists>ax bl bx. matvec Some a x = Inr ax \<and> transpose_matvec Some b l = Inr bl \<and> matvec Some b x = Inr bx \<and>
         length ax = cm_rows a \<and> length bl = cm_rows a \<and> matvec Some kkt (x @ l) = Inr (map2 (+) ax bl @ bx)"
proof -
  let ?n = "cm_rows a" and ?p = "cm_rows b"
  from matrix_of_entries[OF kkt_plain[OF assms]] obtain kkt where
    k: "from_entries rnd (int (?n + ?p)) (int (?n + ?p)) (kkt_entries a b) = Inr kkt" "cm_columns kkt = ?n + ?p"
      "\<And>xs. length xs = ?n + ?p \<Longrightarrow> matvec Some kkt xs = Inr (map (row_sum (kkt_entries a b) xs) [0 ..< ?n + ?p])" by blast
  show thesis
  proof (rule that[OF k(1,2)])
    fix x l :: "rat list" assume len: "length x = ?n" "length l = ?p"
    let ?ax = "map (\<lambda>r. \<Sum>(r, c, v) \<leftarrow> iter_row a r. v * x ! c) [0 ..< ?n]"
    let ?bl = "map (\<lambda>j. \<Sum>(r, c, v) \<leftarrow> filter (\<lambda>(r, c, v). c = j) (iter_entries b). v * l ! r) [0 ..< ?n]"
    let ?bx = "map (\<lambda>r. \<Sum>(r, c, v) \<leftarrow> iter_row b r. v * x ! c) [0 ..< ?p]"
    have ca: "\<forall>(r, c, v) \<in> set (iter_entries a). r < ?n \<and> c < ?n" and cb: "\<forall>(r, c, v) \<in> set (iter_entries b). c < ?n"
      and rb: "\<forall>(r, c, v) \<in> set (iter_entries b). r < ?p"
      using valid_csr_entries(1)[OF a(1)] valid_csr_entries(1)[OF b(1)] a(2) b(2) by auto
    note sums = row_sum_append row_sum_top[OF ca len(1)] row_sum_border[OF cb len(1)]
    have top: "row_sum (kkt_entries a b) (x @ l) r = ?ax ! r + ?bl ! r" if "r < ?n" for r
      using that by (simp add: kkt_entries_border sums iter_row_filter)
    have "filter (\<lambda>e. fst e = ?n + q) (iter_entries a) = []" for q using ca by (auto simp: filter_empty_conv)
    then have bottom: "row_sum (kkt_entries a b) (x @ l) (?n + q) = ?bx ! q" if "q < ?p" for q
      using that by (simp add: kkt_entries_border sums iter_row_filter)
    have "map (row_sum (kkt_entries a b) (x @ l)) [0 ..< ?n + ?p] = map2 (+) ?ax ?bl @ ?bx"
    proof (rule nth_equalityI)
      fix i assume "i < length (map (row_sum (kkt_entries a b) (x @ l)) [0 ..< ?n + ?p])"
      then have i: "i < ?n + ?p" by simp
      show "map (row_sum (kkt_entries a b) (x @ l)) [0 ..< ?n + ?p] ! i = (map2 (+) ?ax ?bl @ ?bx) ! i"
      proof (cases "i < ?n")
        case True
        then show ?thesis using top[OF True] i by (simp add: nth_append)
      next
        case False
        with i have q: "i - ?n < ?p" by simp
        from bottom[OF q] False i q show ?thesis by (simp add: nth_append)
      qed
    qed simp
    moreover have "matvec Some a x = Inr ?ax" "matvec Some b x = Inr ?bx" "transpose_matvec Some b l = Inr ?bl"
      using matvec_exact[of x a] matvec_exact[of x b] transpose_matvec_exact[OF b(1) len(2)] len a(2) b(2) by simp_all
    ultimately show "\<exists>ax bl bx. matvec Some a x = Inr ax \<and> transpose_matvec Some b l = Inr bl \<and> matvec Some b x = Inr bx \<and>
         length ax = ?n \<and> length bl = ?n \<and> matvec Some kkt (x @ l) = Inr (map2 (+) ax bl @ bx)"
      using k(3)[of "x @ l"] len by (intro exI[of _ ?ax] exI[of _ ?bl] exI[of _ ?bx]) simp
  qed
qed

section \<open>Constrained solve\<close>

text \<open>The conditions of a constrained stationary point: feasible, and the gradient is a combination of the rows.\<close>

definition stationary ::
  "csr_matrix \<Rightarrow> rat list \<Rightarrow> compiled_constraints \<Rightarrow> rat list \<Rightarrow> rat list \<Rightarrow> bool" where
  "stationary a rhs c xs ls \<longleftrightarrow>
     matvec Some (kc_matrix c) xs = Inr (kc_rhs c) \<and>
     (\<exists>ax bl. matvec Some a xs = Inr ax \<and> transpose_matvec Some (kc_matrix c) ls = Inr bl \<and> map2 (+) ax bl = rhs)"

text \<open>What the caller gets for the answer of the backend.\<close>

definition answer_result :: "nat \<Rightarrow> nat \<Rightarrow> backend_result \<Rightarrow> constrained_solve_result" where
  "answer_result n p res =
     \<lparr>cs_status = bk_status res,
      cs_solution = (if p = 0 then bk_solution res else map_option (take n) (bk_solution res)),
      cs_multipliers = map_option (if p = 0 then \<lambda>_. [] else drop n) (bk_solution res),
      cs_backend_name = bk_name res, cs_backward_error = bk_backward_error res,
      cs_condition_estimate = bk_condition_estimate res\<rparr>"

text \<open>
  The system given to the backend: the exact product with a vector splits into the operator and
  the transposed constraints above, and the constraints below.
\<close>

definition block_system :: "csr_matrix \<Rightarrow> csr_matrix \<Rightarrow> csr_matrix \<Rightarrow> bool" where
  "block_system a b sys \<longleftrightarrow> cm_columns sys = cm_rows a + cm_rows b \<and>
     (\<forall>x l. length x = cm_rows a \<longrightarrow> length l = cm_rows b \<longrightarrow>
        (\<exists>ax bl bx. matvec Some a x = Inr ax \<and> transpose_matvec Some b l = Inr bl \<and> matvec Some b x = Inr bx \<and>
           length ax = cm_rows a \<and> length bl = cm_rows a \<and> matvec Some sys (x @ l) = Inr (map2 (+) ax bl @ bx)))"

lemma map2_zero: "map2 (+) xs (replicate (length xs) 0) = xs" for xs :: "rat list"
  by (induction xs) simp_all

lemma block_system_unconstrained:
  assumes a: "cm_columns a = cm_rows a" and b: "valid_csr b" "cm_columns b = cm_rows a" "cm_rows b = 0"
  shows "block_system a b a"
proof -
  have "iter_entries b = []" using b(3) by (simp add: iter_entries_def)
  with transpose_matvec_exact[OF b(1), of "[]"] b have zero: "transpose_matvec Some b [] = Inr (replicate (cm_rows a) 0)"
    by (simp add: map_replicate_trivial)
  have "\<exists>ax bl bx. matvec Some a x = Inr ax \<and> transpose_matvec Some b l = Inr bl \<and> matvec Some b x = Inr bx \<and>
      length ax = cm_rows a \<and> length bl = cm_rows a \<and> matvec Some a (x @ l) = Inr (map2 (+) ax bl @ bx)"
    if len: "length x = cm_rows a" "length l = cm_rows b" for x l
  proof -
    obtain ax where ax: "matvec Some a x = Inr ax" "length ax = cm_rows a" using matvec_exact[of x a] len a by simp
    moreover have "l = []" using len b(3) by simp
    moreover have "matvec Some b x = Inr []" using matvec_exact[of x b] len b by simp
    ultimately show ?thesis using zero map2_zero[of ax]
      by (intro exI[of _ ax] exI[of _ "replicate (cm_rows a) 0"] exI[of _ "[]"]) simp
  qed
  then show ?thesis using a b(3) by (simp add: block_system_def)
qed

lemma solve_asks_block_system:
  assumes a: "valid_csr a" "cm_columns a = cm_rows a" "float_entries rnd a" and rhs: "length rhs = cm_rows a"
    and b: "valid_csr (kc_matrix c)" "cm_columns (kc_matrix c) = cm_rows a" "float_entries rnd (kc_matrix c)" "cm_rows (kc_matrix c) = length (kc_rhs c)"
  obtains sys where "block_system a (kc_matrix c) sys"
    "solve_constrained_system rnd backend a (map Some rhs) c =
       (case backend sys (rhs @ kc_rhs c) of None \<Rightarrow> Inl SOLVE_BACKEND_RAISES
        | Some res \<Rightarrow> Inr (answer_result (cm_rows a) (cm_rows (kc_matrix c)) res))"
proof (cases "cm_rows (kc_matrix c) = 0")
  case True
  from True a(2) b rhs show ?thesis
    by (intro that[OF block_system_unconstrained[OF a(2) b(1,2) True]])
       (auto simp: solve_constrained_system_def answer_result_def o_def split: option.splits)
next
  case False
  let ?n = "cm_rows a" and ?p = "cm_rows (kc_matrix c)"
  obtain kkt where k: "from_entries rnd (int (?n + ?p)) (int (?n + ?p)) (kkt_entries a (kc_matrix c)) = Inr kkt"
    and sys: "block_system a (kc_matrix c) kkt"
    by (rule kkt_product[OF a b(1-3)]) (simp add: block_system_def)
  from False a(2) b(2) rhs k show ?thesis
    by (intro that[OF sys]) (auto simp: solve_constrained_system_def solve_system_matrix_def answer_result_def o_def split: option.splits)
qed

text \<open>The two parts of the residual of an answer.\<close>

lemma answer_residual:
  assumes sys: "block_system a (kc_matrix c) sys" and ys: "length ys = cm_rows a + cm_rows (kc_matrix c)"
    and rhs: "length rhs = cm_rows a"
  shows "\<exists>s. matvec Some sys ys = Inr s \<and>
    (drop (cm_rows a) s = kc_rhs c \<longleftrightarrow> matvec Some (kc_matrix c) (take (cm_rows a) ys) = Inr (kc_rhs c)) \<and>
    (s = rhs @ kc_rhs c \<longleftrightarrow> stationary a rhs c (take (cm_rows a) ys) (drop (cm_rows a) ys))"
proof -
  let ?x = "take (cm_rows a) ys" and ?l = "drop (cm_rows a) ys"
  have len: "length ?x = cm_rows a" "length ?l = cm_rows (kc_matrix c)" using ys by simp_all
  from sys len obtain ax bl bx where p: "matvec Some a ?x = Inr ax" "transpose_matvec Some (kc_matrix c) ?l = Inr bl"
    "matvec Some (kc_matrix c) ?x = Inr bx" "length ax = cm_rows a" "length bl = cm_rows a"
    "matvec Some sys (?x @ ?l) = Inr (map2 (+) ax bl @ bx)" unfolding block_system_def by blast
  have "length (map2 (+) ax bl) = cm_rows a" using p by simp
  with p rhs show ?thesis
    by (intro exI[of _ "map2 (+) ax bl @ bx"]) (auto simp: stationary_def simp del: length_map length_zip)
qed


end
