(* ===== verification/Constraint_Witnesses.thy ===== *)
theory Constraint_Witnesses
  imports Constraint_Solve
begin

text \<open>
  The compilation and the solve on two coordinates that are equal and one of which is fixed, and
  on rows that contradict one another.
\<close>

definition pin_coordinates :: "string list" where
  "pin_coordinates = [''a'', ''b'']"

definition pin_constraints :: "constraint_row list" where
  "pin_constraints =
     [\<lparr>cn_id = ''pair'', cn_terms = [(''b'', 1), (''a'', -1)], cn_rhs = 0\<rparr>,
      \<lparr>cn_id = ''pin'', cn_terms = [(''b'', 1)], cn_rhs = 1\<rparr>]"

definition pin_clash :: "constraint_row list" where
  "pin_clash = pin_constraints @ [\<lparr>cn_id = ''clash'', cn_terms = [(''a'', 1)], cn_rhs = 0\<rparr>]"

definition pin_compiled :: compiled_constraints where
  "pin_compiled =
     \<lparr>kc_coordinate_ids = pin_coordinates,
      kc_matrix = \<lparr>cm_rows = 2, cm_columns = 2, cm_indptr = [0, 2, 3], cm_indices = [0, 1, 0], cm_data = [1, -1, 1]\<rparr>,
      kc_rhs = [0, 1],
      kc_certificate_matrix = \<lparr>cm_rows = 2, cm_columns = 2, cm_indptr = [0, 2, 3], cm_indices = [0, 1, 1], cm_data = [-1, 1, 1]\<rparr>,
      kc_certificate_rhs = [0, 1],
      kc_supports = [(''pair'', [''b'', ''a'']), (''pin'', [''b''])]\<rparr>"

lemma pin_compile: "compile_constraints Some pin_coordinates pin_constraints = Inr pin_compiled"
  by code_simp

lemma pin_clash_compile: "compile_constraints Some pin_coordinates pin_clash = Inl CONTRADICTORY_CONSTRAINT"
  by code_simp

lemma pin_rows_valid: "list_all valid_constraint pin_constraints" "list_all valid_constraint pin_clash"
  by code_simp+

theorem compile_constraints_exact_witness:
  "exact_compilation pin_coordinates pin_constraints pin_compiled \<and>
   (\<forall>xs. \<not> list_all (row_holds pin_coordinates xs) pin_clash)"
  using compile_constraints_exact[OF pin_rows_valid(1), of Some pin_coordinates]
    compile_constraints_exact[OF pin_rows_valid(2), of Some pin_coordinates]
  by (simp add: pin_compile pin_clash_compile)

definition pin_operator :: csr_matrix where
  "pin_operator = \<lparr>cm_rows = 2, cm_columns = 2, cm_indptr = [0, 1, 2], cm_indices = [0, 1], cm_data = [1, 1]\<rparr>"

definition pin_kkt :: csr_matrix where
  "pin_kkt =
     \<lparr>cm_rows = 4, cm_columns = 4, cm_indptr = [0, 3, 5, 7, 8], cm_indices = [0, 2, 3, 1, 2, 0, 1, 0],
      cm_data = [1, 1, 1, 1, -1, 1, -1, 1]\<rparr>"

text \<open>A backend that answers one system and raises on every other.\<close>

definition pin_backend :: linear_backend where
  "pin_backend m b =
     (if m = pin_kkt \<and> b = [0, 0, 0, 1]
      then Some \<lparr>bk_status = CONVERGED, bk_solution = Some [1, 1, 1, -2], bk_name = ''table'', bk_backward_error = Some 0,
            bk_condition_estimate = None\<rparr>
      else None)"

lemma pin_operator_valid: "valid_csr pin_operator" "float_entries Some pin_operator" "cm_rows pin_operator = length pin_coordinates"
  "cm_columns pin_operator = length pin_coordinates" "length [0, 0 :: rat] = length pin_coordinates"
  by (code_simp, simp add: float_entries_def case_prod_unfold, code_simp+)

lemma pin_kkt_entries:
  "kkt_entries pin_operator (kc_matrix pin_compiled) =
   [(0, 0, 1), (1, 1, 1), (0, 2, 1), (2, 0, 1), (1, 2, -1), (2, 1, -1), (0, 3, 1), (3, 0, 1)]"
  by (simp add: kkt_entries_def iter_entries_def iter_row_def pin_operator_def pin_compiled_def upt_rec)

lemma pin_kkt_built: "from_entries Some 4 4 (kkt_entries pin_operator (kc_matrix pin_compiled)) = Inr pin_kkt"
  unfolding pin_kkt_entries by code_simp

lemma pin_solve:
  "solve_constrained_system Some pin_backend pin_operator (map Some [0, 0]) pin_compiled =
   Inr \<lparr>cs_status = CONVERGED, cs_solution = Some [1, 1], cs_multipliers = Some [1, -2], cs_backend_name = ''table'',
        cs_backward_error = Some 0, cs_condition_estimate = None\<rparr>"
proof -
  have "cm_rows pin_operator = 2" "cm_columns pin_operator = 2" "cm_rows (kc_matrix pin_compiled) = 2"
    "cm_columns (kc_matrix pin_compiled) = 2" "kc_rhs pin_compiled = [0, 1]"
    by (simp_all add: pin_operator_def pin_compiled_def)
  with pin_kkt_built show ?thesis by (simp add: solve_constrained_system_def solve_system_matrix_def pin_backend_def)
qed


end
