(* ===== verification/Spec2Isabelle.thy ===== *)
theory Spec2Isabelle
  imports Witnesses Budget_Witnesses Projection Verification_Witnesses Reorganization_Witnesses
    Memory_Laws Assembler Scheduler Pressure Migration_Laws Worker_Fenced_Witnesses Request_Witnesses
    Constraint_Witnesses
begin

text \<open>
  Verification library for AstrContinuum (\<^verbatim>\<open>src/astrcontinuum/\<close>), a conversation-memory plugin.
  Messages of a chat session are captured into a durable journal; a background worker compacts
  runs of the journal into capsules and publishes them as snapshots; each request then reads one
  view (active snapshot and the events after it), selects candidate blocks, assembles them within
  the token budget and projects them into the message list of the host.

  \<^bold>\<open>Storage.\<close> Domain holds the envelopes of \<^verbatim>\<open>domain/\<close> with their validators (Json_Text the canonical
  text of a session key), Validation the permanent publication gate of \<^verbatim>\<open>domain/validation.py\<close>.
  Schema is the database as a record of tables with the constraints, keys and triggers of
  \<^verbatim>\<open>storage/migrations.py\<close> and \<^verbatim>\<open>storage/security.py\<close>, the transaction of \<^verbatim>\<open>storage/sqlite.py\<close> and the
  sealed columns of \<^verbatim>\<open>storage/crypto.py\<close>; Migrations is the migrator. \<^verbatim>\<open>storage/repository.py\<close> is
  split into its readers (Repo_Read), capture (Journal, with Metrics for
  \<^verbatim>\<open>storage/token_metrics.py\<close>), the job lane (Jobs), publication (Publication) and the metric
  backfill (Backfill). Repo_Invariant states the durable invariant \<open>db_ok\<close>; Job_Laws, Journal_Laws
  and Publication_Laws show that every transaction keeps it, Repo_Evolution that every transaction
  respects the order \<open>db_extends\<close> (append-only history, monotone epochs, final terminal jobs), and
  Repo_Machine puts both into the locale \<open>repository_transaction\<close>, interpreted for every public
  operation, and into a step relation with reachable states. Repo_Properties and
  Publication_Properties give the behaviour of the single operations; the locales
  \<open>metric_store\<close>, \<open>fenced_mutation\<close> and \<open>request_view_source\<close> are the interfaces their clients use.
  Migration_Laws shows that the migrator is atomic, exact and idempotent.

  \<^bold>\<open>Request side.\<close> Read_View is the fail-closed read port of \<^verbatim>\<open>runtime/read_view.py\<close>; Tool_Loop the
  parsers of \<^verbatim>\<open>runtime/tool_loop.py\<close>, proved in Tool_Loop_Laws to accept exactly the declaratively
  well-formed histories; Retrieval the candidate selection of \<^verbatim>\<open>runtime/retrieval.py\<close>
  (Retrieval_Laws: bounded, traceable, complete within its limits); Closure the dependency
  closure of \<^verbatim>\<open>context_graph/closure.py\<close> (Closure_Laws: components and least closed set); Budget
  the assembly of \<^verbatim>\<open>runtime/budget.py\<close> (Budget_Laws, Budget_Accounting: within budget, no split
  group, every candidate accounted for); Projection \<^verbatim>\<open>runtime/projection.py\<close> (round trip);
  Pressure \<^verbatim>\<open>runtime/pressure.py\<close> (ordered thresholds).

  Live is the fail-open selection of \<^verbatim>\<open>context_graph/live.py\<close> (Live_Laws: within budget for every
  engine, the deterministic assembly or exactly the closure of an accepted answer). Tokenization
  and Tokenizer_Assets are \<^verbatim>\<open>tokenization/types.py\<close>, \<^verbatim>\<open>router.py\<close>, \<^verbatim>\<open>context.py\<close>, \<^verbatim>\<open>assets.py\<close> and
  \<^verbatim>\<open>registry.py\<close>; Request_Budget is \<^verbatim>\<open>tokenization/request.py\<close> with its caches. Request_Laws shows
  the caches transparent; Request_Properties states what the orchestration needs of an assembly as
  the locale \<open>assembly_port\<close>, interpreted on the default runner and on the runner of the hook
  bridge, and shows that no request is rewritten beyond its budget and none fails. An assembly's
  counter answers from the caches as they stood when it started (\<open>scoped_count_text_transparent\<close>).

  \<^bold>\<open>Graph constraints.\<close> Sparse_Matrix is \<^verbatim>\<open>context_graph/matrix.py\<close> (Sparse_Laws: built matrices are
  well formed, iterate their entries and multiply as their entries do). Constraints is
  \<^verbatim>\<open>constraints.py\<close>, with its disjoint sets, and the block system of \<^verbatim>\<open>solver.py\<close>. Constraint_Laws
  relates forest, fixed values and groups to the valuations the rows allow;
  Constraint_Properties shows that a compilation has exactly the solutions of its rows and
  independent rows; Constraint_Solve that an exact answer of the backend is a stationary point.

  \<^bold>\<open>Compaction.\<close> Segmenter is \<^verbatim>\<open>compaction/segmenter.py\<close> (over the locale \<open>unit_grouping\<close>, interpreted
  on the tool loop); Compiler the rendering, compiler, validator and auditor of \<^verbatim>\<open>compaction/\<close>;
  Worker the provider-bound worker and Worker_Fenced the injected lane of
  \<^verbatim>\<open>compaction/worker.py\<close>. Compiler_Laws and Gate_Errors show that what the compiler accepts, the
  publication accepts; Worker_Laws, Worker_Failures and Worker_Fenced_Laws track actions under
  interleaved transactions and show that a pass is a sequence of repository transactions.
  Graph_Build and Verification are \<^verbatim>\<open>context_graph/build.py\<close>, \<^verbatim>\<open>types.py\<close> and
  \<^verbatim>\<open>candidate_verification.py\<close> (Verification_Laws). Reorganization is \<^verbatim>\<open>reorganization.py\<close>
  (Reorganization_Laws: exact core, budget, ledger accepted by the publication, typed result).

  \<^bold>\<open>Reference service.\<close> Memory_Service holds \<^verbatim>\<open>models.py\<close>, \<^verbatim>\<open>in_memory.py\<close>, \<^verbatim>\<open>auditor.py\<close>,
  \<^verbatim>\<open>compiler_stub.py\<close> and \<^verbatim>\<open>service.py\<close>; Memory_Laws states the protocols of \<^verbatim>\<open>ports.py\<close> as the
  locales \<open>event_store_port\<close> and \<open>snapshot_store_port\<close>, interprets them on the in-memory stores and
  shows that a compaction is serializable. Assembler is \<^verbatim>\<open>token_budget.py\<close> and \<^verbatim>\<open>assembler.py\<close>,
  Scheduler the coalescing scheduler of \<^verbatim>\<open>scheduler.py\<close> as a state machine.

  \<^bold>\<open>Concrete runs.\<close> Scenario, Second_Cycle and the theories named Witnesses apply the properties to
  states that the model computes from an empty database.

  \<^bold>\<open>Termination and fuel.\<close> The claim loop takes one unit of fuel more than there are eligible jobs;
  it is proved to return. The migrator makes the four attempts of the source. The other loops
  (components and closure, exact selection, truncation of an item, splitting of scripts) are
  total functions with a measure; the search of a representative is a partial function, proved
  to return on every forest a compilation builds.

  \<^bold>\<open>Parameters.\<close> The digest, the injected faults and the clock of a transaction (\<open>env\<close>); the JSON
  parser; the token counter; the compiler and audit backends; the numerical graph engine; the
  rounding \<open>fl\<close> of a float result, with the named hypothesis \<open>rounds\<close>; other transactions between
  two calls of a worker and the outcomes of its heartbeat; the execution of an SQL statement and
  \<^verbatim>\<open>sqlite3.complete_statement\<close> in the migrator; the tiktoken package, the rank files and the host
  objects of a request; the float next to a result (\<open>rounding\<close>) and the linear-algebra backend. Strings are lists of 8-bit characters, durations
  and times are integers of microseconds, Python integers are \<open>int\<close>, floats rational numbers.

  \<^bold>\<open>Not modelled.\<close> The floating-point linear algebra of \<^verbatim>\<open>context_graph/\<close> (\<^verbatim>\<open>engine.py\<close>,
  \<^verbatim>\<open>backends.py\<close>, \<^verbatim>\<open>reduction.py\<close> and the norms of \<^verbatim>\<open>matrix.py\<close>): selection and verification are
  proved sound for every answer of it. The
  adapters and the backend of the host framework (\<^verbatim>\<open>adapters/\<close>, \<^verbatim>\<open>compaction/astrbot_backend.py\<close>,
  \<^verbatim>\<open>main.py\<close>), which translate objects of third-party code. Key files, activation and rekeying of
  \<^verbatim>\<open>storage/security.py\<close>, the key text of \<^verbatim>\<open>storage/crypto.py\<close>, \<^verbatim>\<open>keyctl.py\<close> and the release scripts.
  Of the worker, the handling of asyncio tasks.
\<close>

end
